(* ===== verification/PyFloat.thy ===== *)
theory PyFloat
  imports Complex_Main "HOL-Library.Log_Nat"
begin

text \<open>
  Python's \<open>float\<close>: finite IEEE binary64 numbers, as the rationals they denote.  Every arithmetic
  operation of the source is the exact rational operation followed by \<open>fl\<close>, the rounding to the
  nearest binary64 number with ties to the even significand (subnormals included).  Infinities
  and NaN are not values of the model: where the source would overflow, \<open>fl\<close> keeps the number it
  would round to with an unbounded exponent.

  The theory holds the rounding function, the operations, Python's \<open>round(x, n)\<close> and the facts
  every component uses: rounding is monotone, keeps signs, is idempotent, and is the identity on
  integers up to \<open>2 ^ 53\<close>.
\<close>

type_synonym pyfloat = rat

section \<open>Rounding to the nearest integer, ties to even\<close>

definition rnd_even :: "rat \<Rightarrow> int" where
  "rnd_even x =
     (let f = \<lfloor>x\<rfloor>; d = x - of_int f
      in if d < 1 / 2 then f
         else if 1 / 2 < d then f + 1
         else if even f then f else f + 1)"

lemma rnd_even_of_int [simp]: "rnd_even (of_int n) = n"
  by (simp add: rnd_even_def)

lemma rnd_even_bounds: "x - 1 / 2 \<le> of_int (rnd_even x)" "of_int (rnd_even x) \<le> x + 1 / 2"
proof -
  have "of_int \<lfloor>x\<rfloor> \<le> x" "x < of_int \<lfloor>x\<rfloor> + 1"
    by linarith+
  then show "x - 1 / 2 \<le> of_int (rnd_even x)" "of_int (rnd_even x) \<le> x + 1 / 2"
    unfolding rnd_even_def Let_def by (simp_all, linarith+)
qed

lemma rnd_even_mono: "x \<le> y \<Longrightarrow> rnd_even x \<le> rnd_even y"
proof -
  assume xy: "x \<le> y"
  have fx: "of_int \<lfloor>x\<rfloor> \<le> x" "x < of_int \<lfloor>x\<rfloor> + 1" by linarith+
  have fy: "of_int \<lfloor>y\<rfloor> \<le> y" "y < of_int \<lfloor>y\<rfloor> + 1" by linarith+
  have le: "\<lfloor>x\<rfloor> \<le> \<lfloor>y\<rfloor>" by (rule floor_mono [OF xy])
  show "rnd_even x \<le> rnd_even y"
  proof (cases "\<lfloor>x\<rfloor> = \<lfloor>y\<rfloor>")
    case True
    with xy show ?thesis by (auto simp: rnd_even_def Let_def)
  next
    case False
    with le have "\<lfloor>x\<rfloor> + 1 \<le> \<lfloor>y\<rfloor>" by simp
    then show ?thesis by (auto simp: rnd_even_def Let_def)
  qed
qed

lemma rnd_even_minus: "rnd_even (- x) = - rnd_even x"
proof (cases "x \<in> \<int>")
  case True
  then obtain n where "x = of_int n" by (auto elim: Ints_cases)
  then have "rnd_even (- x) = rnd_even (of_int (- n))" by simp
  also have "\<dots> = - n" by (rule rnd_even_of_int)
  finally show ?thesis using \<open>x = of_int n\<close> by simp
next
  case False
  then have "\<lfloor>- x\<rfloor> = - \<lfloor>x\<rfloor> - 1"
    by (metis add_diff_cancel_right' ceiling_altdef ceiling_def floor_of_int
        Ints_of_int minus_diff_eq minus_minus uminus_add_conv_diff diff_minus_eq_add)
  then show ?thesis
    by (auto simp: rnd_even_def Let_def)
qed

section \<open>The exponent of a number\<close>

definition fexp :: "rat \<Rightarrow> int" where
  "fexp x =
     (let (n, d) = quotient_of \<bar>x\<bar>; k = bitlen n - bitlen d
      in if (2::rat) powi k \<le> \<bar>x\<bar> then k else k - 1)"

lemma bitlen_real_bounds:
  assumes "0 < n"
  shows "(2::rat) powi (bitlen n - 1) \<le> of_int n" and "of_int n < (2::rat) powi (bitlen n)"
proof -
  have b: "2 ^ nat (bitlen n - 1) \<le> n" "n < 2 ^ nat (bitlen n)"
    using bitlen_bounds [OF assms] by auto
  have pos: "0 < bitlen n"
    using assms by (metis bitlen_eq_zero_iff bitlen_nonneg less_le not_le)
  have "(2::rat) powi (bitlen n - 1) = of_int (2 ^ nat (bitlen n - 1))"
    using pos by (simp add: power_int_def)
  also have "\<dots> \<le> of_int n" using b(1) by (simp only: of_int_le_iff)
  finally show "(2::rat) powi (bitlen n - 1) \<le> of_int n" .
  have "of_int n < (of_int (2 ^ nat (bitlen n)) :: rat)" using b(2) by (simp only: of_int_less_iff)
  also have "\<dots> = 2 powi (bitlen n)"
    using pos by (simp add: power_int_def)
  finally show "of_int n < (2::rat) powi (bitlen n)" .
qed

lemma fexp_bounds:
  assumes "x \<noteq> 0"
  shows "2 powi (fexp x) \<le> \<bar>x\<bar>" and "\<bar>x\<bar> < 2 powi (fexp x + 1)"
proof -
  obtain n d where q: "quotient_of \<bar>x\<bar> = (n, d)" by force
  have d: "0 < d" by (rule quotient_of_denom_pos [OF q])
  have ax: "\<bar>x\<bar> = of_int n / of_int d" by (rule quotient_of_div [OF q])
  have n: "0 < n"
    using assms d ax by (metis divide_pos_pos of_int_0_less_iff zero_less_abs_iff zero_less_divide_iff
        less_asym)
  let ?k = "bitlen n - bitlen d"
  have nb: "(2::rat) powi (bitlen n - 1) \<le> of_int n" "of_int n < (2::rat) powi (bitlen n)"
    using bitlen_real_bounds [OF n] by auto
  have db: "(2::rat) powi (bitlen d - 1) \<le> of_int d" "of_int d < (2::rat) powi (bitlen d)"
    using bitlen_real_bounds [OF d] by auto
  have dpos: "(0::rat) < of_int d" using d by simp
  have up: "\<bar>x\<bar> < 2 powi (?k + 1)"
  proof -
    have "of_int n < (2::rat) powi (?k + 1) * 2 powi (bitlen d - 1)"
      using nb(2) by (simp add: power_int_add [symmetric])
    also have "\<dots> \<le> 2 powi (?k + 1) * of_int d"
      using db(1) by (intro mult_left_mono) auto
    finally show ?thesis using dpos by (simp add: ax pos_divide_less_eq)
  qed
  have lo: "2 powi (?k - 1) \<le> \<bar>x\<bar>"
  proof -
    have "(2::rat) powi (?k - 1) * of_int d \<le> 2 powi (?k - 1) * 2 powi (bitlen d)"
      using db(2) by (intro mult_left_mono) auto
    also have "\<dots> = 2 powi (bitlen n - 1)"
      by (simp add: power_int_add [symmetric])
    also have "\<dots> \<le> of_int n" by (rule nb(1))
    finally show ?thesis using dpos by (simp add: ax pos_le_divide_eq)
  qed
  show "2 powi (fexp x) \<le> \<bar>x\<bar>" and "\<bar>x\<bar> < 2 powi (fexp x + 1)"
    using up lo by (auto simp: fexp_def q Let_def)
qed

lemma pow2_less_cancel: "2 powi a < (2::rat) powi b \<Longrightarrow> a < b"
  by (meson less_le_not_le not_le one_le_numeral power_int_increasing)

lemma pow2_le_cancel: "2 powi a \<le> (2::rat) powi b \<Longrightarrow> a \<le> b"
  by (meson leD not_le one_less_numeral_iff power_int_strict_increasing semiring_norm(76))

lemma fexp_unique:
  assumes "2 powi e \<le> \<bar>x\<bar>" and "\<bar>x\<bar> < 2 powi (e + 1)"
  shows "fexp x = e"
proof -
  have "0 < (2::rat) powi e" by simp
  with assms(1) have "0 < \<bar>x\<bar>" by linarith
  then have "x \<noteq> 0" by simp
  note b = fexp_bounds [OF this]
  have "2 powi e < (2::rat) powi (fexp x + 1)" using assms(1) b(2) by linarith
  then have "e < fexp x + 1" by (rule pow2_less_cancel)
  moreover have "2 powi (fexp x) < (2::rat) powi (e + 1)" using assms(2) b(1) by linarith
  then have "fexp x < e + 1" by (rule pow2_less_cancel)
  ultimately show ?thesis by simp
qed

lemma fexp_minus [simp]: "fexp (- x) = fexp x"
  by (simp add: fexp_def)

lemma fexp_mono:
  assumes "x \<noteq> 0" and "\<bar>x\<bar> \<le> \<bar>y\<bar>"
  shows "fexp x \<le> fexp y"
proof -
  have y: "y \<noteq> 0" using assms by auto
  have "2 powi (fexp x) < (2::rat) powi (fexp y + 1)"
    using fexp_bounds(1) [OF assms(1)] fexp_bounds(2) [OF y] assms(2) by linarith
  then have "fexp x < fexp y + 1" by (rule pow2_less_cancel)
  then show ?thesis by simp
qed

section \<open>Rounding to binary64\<close>

text \<open>\<open>fulp x\<close> is the exponent of the last place of the binary64 numbers around \<open>x\<close>.\<close>

definition fulp :: "rat \<Rightarrow> int" where
  "fulp x = max (fexp x - 52) (- 1074)"

definition fl :: "rat \<Rightarrow> pyfloat" where
  "fl x = (if x = 0 then 0 else of_int (rnd_even (x / 2 powi fulp x)) * 2 powi fulp x)"

lemma fl_0 [simp]: "fl 0 = 0"
  by (simp add: fl_def)

lemma fl_minus [simp]: "fl (- x) = - fl x"
proof -
  have "fulp (- x) = fulp x" by (simp add: fulp_def)
  moreover have "rnd_even (- x / 2 powi fulp x) = - rnd_even (x / 2 powi fulp x)"
    using rnd_even_minus [of "x / 2 powi fulp x"] by simp
  ultimately show ?thesis by (simp add: fl_def)
qed

text \<open>A number on the grid of its own binade is its own rounding.\<close>

lemma fl_on_grid:
  assumes "x = of_int m * 2 powi fulp x"
  shows "fl x = x"
proof (cases "x = 0")
  case False
  have "x / 2 powi fulp x = of_int m" using assms by (simp add: field_simps)
  then have "rnd_even (x / 2 powi fulp x) = m" by simp
  then show ?thesis using assms by (simp add: fl_def)
qed simp

lemma grid_refine:
  assumes "a \<le> b"
  shows "of_int m * (2::rat) powi b = of_int (m * 2 ^ nat (b - a)) * 2 powi a"
proof -
  have "(2::rat) powi b = 2 powi (b - a) * 2 powi a"
    by (simp add: power_int_add [symmetric])
  also have "(2::rat) powi (b - a) = of_int (2 ^ nat (b - a))"
    using assms by (simp add: power_int_def)
  finally show ?thesis by simp
qed

lemma fl_representable:
  assumes m: "\<bar>m\<bar> \<le> 2 ^ 53" and e: "- 1074 \<le> e"
  shows "fl (of_int m * 2 powi e) = of_int m * 2 powi e"
proof (cases "m = 0")
  case False
  let ?x = "of_int m * (2::rat) powi e"
  have x: "?x \<noteq> 0" using False by simp
  note b = fexp_bounds(1) [OF x]
  have "\<bar>?x\<bar> = of_int \<bar>m\<bar> * 2 powi e" by (simp add: abs_mult)
  also have "\<dots> \<le> of_int (2 ^ 53) * 2 powi e"
    using m by (intro mult_right_mono) (simp_all only: of_int_le_iff, simp)
  also have "\<dots> = 2 powi (53 + e)" by (simp add: power_int_add)
  finally have up: "\<bar>?x\<bar> \<le> 2 powi (53 + e)" .
  show ?thesis
  proof (cases "fexp ?x - 52 \<le> e")
    case True
    then have "fulp ?x \<le> e" using e by (simp add: fulp_def)
    from grid_refine [OF this, of m] show ?thesis by (rule fl_on_grid)
  next
    case far: False
    have "2 powi (fexp ?x) \<le> (2::rat) powi (53 + e)" using b up by linarith
    then have "fexp ?x \<le> 53 + e" by (rule pow2_le_cancel)
    with far have fe: "fexp ?x = 53 + e" by simp
    then have eq: "\<bar>?x\<bar> = 2 powi (53 + e)" using b up by simp
    have u: "fulp ?x = e + 1" using fe e by (simp add: fulp_def)
    have "(2::rat) powi (53 + e) = of_int (2 ^ 52) * 2 powi (e + 1)"
      by (simp add: power_int_add)
    then have "?x = of_int (sgn m * 2 ^ 52) * 2 powi fulp ?x"
      using eq u False by (cases "0 < m") (auto simp: abs_mult sgn_if)
    then show ?thesis by (rule fl_on_grid)
  qed
qed simp

lemma fl_of_int: "\<bar>n\<bar> \<le> 2 ^ 53 \<Longrightarrow> fl (of_int n) = of_int n"
  using fl_representable [of n 0] by simp

lemma fl_numeral [simp]: "numeral k \<le> (2 ^ 53 :: int) \<Longrightarrow> fl (numeral k) = numeral k"
  using fl_of_int [of "numeral k"] by simp

lemma fl_1 [simp]: "fl 1 = 1"
  using fl_of_int [of 1] by simp

section \<open>Monotonicity\<close>

lemma fulp_mono: "x \<noteq> 0 \<Longrightarrow> \<bar>x\<bar> \<le> \<bar>y\<bar> \<Longrightarrow> fulp x \<le> fulp y"
  using fexp_mono [of x y] by (auto simp: fulp_def)

lemma fl_between_grid:
  assumes "x \<noteq> 0"
  shows "x \<le> of_int m * 2 powi fulp x \<Longrightarrow> fl x \<le> of_int m * 2 powi fulp x"
    and "of_int m * 2 powi fulp x \<le> x \<Longrightarrow> of_int m * 2 powi fulp x \<le> fl x"
proof -
  have p: "0 < (2::rat) powi fulp x" by simp
  assume "x \<le> of_int m * 2 powi fulp x"
  then have "x / 2 powi fulp x \<le> of_int m" using p by (simp add: pos_divide_le_eq)
  then have "rnd_even (x / 2 powi fulp x) \<le> m"
    using rnd_even_mono [of "x / 2 powi fulp x" "of_int m"] by simp
  then show "fl x \<le> of_int m * 2 powi fulp x" using assms p by (simp add: fl_def)
next
  have p: "0 < (2::rat) powi fulp x" by simp
  assume "of_int m * 2 powi fulp x \<le> x"
  then have "of_int m \<le> x / 2 powi fulp x" using p by (simp add: pos_le_divide_eq)
  then have "m \<le> rnd_even (x / 2 powi fulp x)"
    using rnd_even_mono [of "of_int m" "x / 2 powi fulp x"] by simp
  then show "of_int m * 2 powi fulp x \<le> fl x" using assms p by (simp add: fl_def)
qed

lemma fl_nonneg: "0 \<le> x \<Longrightarrow> 0 \<le> fl x"
  using fl_between_grid(2) [of x 0] by (cases "x = 0") auto

lemma fl_mono_pos:
  assumes x: "0 < x" and xy: "x \<le> y"
  shows "fl x \<le> fl y"
proof -
  have x0: "x \<noteq> 0" and y0: "y \<noteq> 0" and y: "0 < y" using x xy by auto
  have le: "fulp x \<le> fulp y" using x0 x xy by (intro fulp_mono) auto
  show ?thesis
  proof (cases "fulp x = fulp y")
    case True
    have p: "0 < (2::rat) powi fulp y" by simp
    have "x / 2 powi fulp y \<le> y / 2 powi fulp y" using xy p by (simp add: divide_right_mono)
    then have "rnd_even (x / 2 powi fulp y) \<le> rnd_even (y / 2 powi fulp y)" by (rule rnd_even_mono)
    then show ?thesis using x0 y0 True p by (simp add: fl_def)
  next
    case False
    with le have lt: "fulp x < fulp y" by simp
    then have uy: "fulp y = fexp y - 52" and ey: "fexp x < fexp y" and gx: "fulp x \<le> fexp y"
      by (auto simp: fulp_def)
    have ax: "\<bar>x\<bar> = x" and ay: "\<bar>y\<bar> = y" using x y by auto
    have "x < 2 powi (fexp x + 1)" using fexp_bounds(2) [OF x0] ax by simp
    also have "(2::rat) powi (fexp x + 1) \<le> 2 powi fexp y"
      using ey by (intro power_int_increasing) auto
    finally have 1: "x \<le> 2 powi fexp y" by simp
    have z: "(2::rat) powi fexp y = of_int (1 * 2 ^ nat (fexp y - fulp x)) * 2 powi fulp x"
      using grid_refine [OF gx, of 1] by simp
    from 1 have "fl x \<le> 2 powi fexp y"
      unfolding z by (rule fl_between_grid(1) [OF x0])
    also have "2 powi fexp y = of_int (1 * 2 ^ nat (fexp y - fulp y)) * (2::rat) powi fulp y"
      using grid_refine [of "fulp y" "fexp y" 1] uy by simp
    also have "\<dots> \<le> fl y"
      by (rule fl_between_grid(2) [OF y0])
        (use fexp_bounds(1) [OF y0] ay grid_refine [of "fulp y" "fexp y" 1] uy in simp)
    finally show ?thesis .
  qed
qed

lemma fl_mono: "x \<le> y \<Longrightarrow> fl x \<le> fl y"
proof -
  assume xy: "x \<le> y"
  consider "0 < x" | "x \<le> 0" "0 \<le> y" | "y < 0" by linarith
  then show "fl x \<le> fl y"
  proof cases
    case 1
    then show ?thesis using xy by (rule fl_mono_pos)
  next
    case 2
    have "fl x \<le> 0" using fl_nonneg [of "- x"] 2 by simp
    also have "0 \<le> fl y" using 2 by (intro fl_nonneg)
    finally show ?thesis .
  next
    case 3
    then have "fl (- y) \<le> fl (- x)" using xy by (intro fl_mono_pos) auto
    then show ?thesis by simp
  qed
qed

lemma fl_nonpos: "x \<le> 0 \<Longrightarrow> fl x \<le> 0"
  using fl_mono [of x 0] by simp

lemma rnd_even_le_pow: "\<bar>x\<bar> \<le> 2 ^ 53 \<Longrightarrow> \<bar>rnd_even x\<bar> \<le> 2 ^ 53"
  using rnd_even_mono [of x "of_int (2 ^ 53)"] rnd_even_mono [of "of_int (- (2 ^ 53))" x]
  by (simp only: rnd_even_of_int abs_le_iff) auto

lemma fl_fl [simp]: "fl (fl x) = fl x"
proof (cases "x = 0")
  case False
  let ?q = "fulp x"
  have p: "0 < (2::rat) powi ?q" by simp
  have "\<bar>x\<bar> < 2 powi (fexp x + 1)" by (rule fexp_bounds(2) [OF False])
  also have "(2::rat) powi (fexp x + 1) \<le> 2 powi (53 + ?q)"
    by (intro power_int_increasing) (auto simp: fulp_def)
  also have "(2::rat) powi (53 + ?q) = 2 ^ 53 * 2 powi ?q"
    by (simp add: power_int_add)
  finally have "\<bar>x / 2 powi ?q\<bar> \<le> 2 ^ 53"
    using p by (simp add: abs_divide pos_divide_le_eq)
  then have "\<bar>rnd_even (x / 2 powi ?q)\<bar> \<le> 2 ^ 53" by (rule rnd_even_le_pow)
  moreover have "- 1074 \<le> ?q" by (simp add: fulp_def)
  ultimately show ?thesis
    using fl_representable [of "rnd_even (x / 2 powi ?q)" ?q] False by (simp add: fl_def [of x])
qed simp

section \<open>The operations\<close>

definition fadd :: "pyfloat \<Rightarrow> pyfloat \<Rightarrow> pyfloat" where
  "fadd a b = fl (a + b)"

definition fsub :: "pyfloat \<Rightarrow> pyfloat \<Rightarrow> pyfloat" where
  "fsub a b = fl (a - b)"

definition fmul :: "pyfloat \<Rightarrow> pyfloat \<Rightarrow> pyfloat" where
  "fmul a b = fl (a * b)"

definition fdiv :: "pyfloat \<Rightarrow> pyfloat \<Rightarrow> pyfloat" where
  "fdiv a b = fl (a / b)"

text \<open>An \<open>int\<close> meeting a \<open>float\<close> is converted first, which rounds too.\<close>

definition fint :: "int \<Rightarrow> pyfloat" where
  "fint n = fl (of_int n)"

text \<open>\<open>int(q)\<close> cuts towards zero.\<close>

definition py_int :: "pyfloat \<Rightarrow> int" where
  "py_int q = (if 0 \<le> q then \<lfloor>q\<rfloor> else \<lceil>q\<rceil>)"

text \<open>\<open>round(x, n)\<close>: the exact value rounded to \<open>n\<close> decimals, ties to even, then to binary64.\<close>

definition py_round :: "pyfloat \<Rightarrow> nat \<Rightarrow> pyfloat" where
  "py_round x n = fl (of_int (rnd_even (x * 10 ^ n)) / 10 ^ n)"

lemma py_round_mono: "x \<le> y \<Longrightarrow> py_round x n \<le> py_round y n"
  unfolding py_round_def
  by (intro fl_mono divide_right_mono) (auto intro: rnd_even_mono mult_right_mono)

lemma py_round_nonneg: "0 \<le> x \<Longrightarrow> 0 \<le> py_round x n"
  using py_round_mono [of 0 x n] rnd_even_of_int [of 0] by (simp add: py_round_def)

lemma py_round_fl [simp]: "fl (py_round x n) = py_round x n"
  by (simp add: py_round_def)

lemma fint_0 [simp]: "fint 0 = 0" and fint_1 [simp]: "fint 1 = 1"
  by (simp_all add: fint_def)

lemma fint_small: "\<bar>n\<bar> \<le> 2 ^ 53 \<Longrightarrow> fint n = of_int n"
  by (simp add: fint_def fl_of_int)

lemma fint_numeral [simp]: "numeral k \<le> (2 ^ 53 :: int) \<Longrightarrow> fint (numeral k) = numeral k"
  using fint_small [of "numeral k"] by simp

lemma fint_minus: "fint (- n) = - fint n"
  by (simp add: fint_def)

lemma fadd_of_int: "\<bar>a + b\<bar> \<le> 2 ^ 53 \<Longrightarrow> fadd (of_int a) (of_int b) = of_int (a + b)"
  using fl_of_int [of "a + b"] by (simp add: fadd_def)

lemma fsub_of_int: "\<bar>a - b\<bar> \<le> 2 ^ 53 \<Longrightarrow> fsub (of_int a) (of_int b) = of_int (a - b)"
  using fl_of_int [of "a - b"] by (simp add: fsub_def)

section \<open>Rounding error\<close>

lemma fl_error:
  assumes "2 powi (- 1022) \<le> \<bar>x\<bar>"
  shows "\<bar>fl x - x\<bar> \<le> \<bar>x\<bar> / 2 ^ 53"
proof -
  let ?u = "(2::rat) powi fulp x"
  have "(2::rat) powi (- 1022) > 0" by simp
  with assms have x: "x \<noteq> 0" by auto
  have "(2::rat) powi (- 1022) < 2 powi (fexp x + 1)" using assms fexp_bounds(2) [OF x] by linarith
  then have "- 1022 < fexp x + 1" by (rule pow2_less_cancel)
  then have fu: "fulp x = fexp x - 52" by (simp add: fulp_def)
  have u: "0 < ?u" by simp
  have "fl x - x = (of_int (rnd_even (x / ?u)) - x / ?u) * ?u"
    using x u by (simp add: fl_def left_diff_distrib)
  moreover have "\<bar>of_int (rnd_even (x / ?u)) - x / ?u\<bar> \<le> 1 / 2"
    using rnd_even_bounds [of "x / ?u"] by linarith
  ultimately have "\<bar>fl x - x\<bar> \<le> 1 / 2 * ?u"
    using u by (simp add: abs_mult mult_right_mono)
  also have "\<dots> = 2 powi fexp x / 2 ^ 53"
    unfolding fu by (simp add: power_int_diff)
  also have "\<dots> \<le> \<bar>x\<bar> / 2 ^ 53" using fexp_bounds(1) [OF x] by (simp add: divide_right_mono)
  finally show ?thesis .
qed

lemma rnd_even_near: "\<bar>z - of_int n\<bar> < 1 / 2 \<Longrightarrow> rnd_even z = n"
  using rnd_even_bounds [of z] by linarith

text \<open>Dividing an integer by 100 and multiplying it back is off by less than half a unit.\<close>

lemma cents_roundtrip:
  assumes "0 \<le> n" "n < 2 ^ 40"
  shows "rnd_even (fmul (fdiv (of_int n) 100) 100) = n"
proof (cases "n = 0")
  case True
  then show ?thesis using rnd_even_of_int [of 0] by (simp add: fmul_def fdiv_def)
next
  case False
  let ?x = "of_int n / 100 :: rat" and ?y = "fl (of_int n / 100)"
  have n1: "1 \<le> (of_int n :: rat)" and n2: "(of_int n :: rat) \<le> 2 ^ 40"
    using assms False by (simp_all add: of_int_le_iff [of _ "2 ^ 40", simplified])
  have "(2::rat) powi (- 1022) \<le> 2 powi (- 7)" by (rule power_int_increasing) simp_all
  moreover have "(2::rat) powi (- 7) = 1 / 128" by (simp add: power_int_def power_divide)
  ultimately have small: "(2::rat) powi (- 1022) \<le> 1 / 128" by linarith
  have e1: "\<bar>?y - ?x\<bar> \<le> ?x / 2 ^ 53"
    using fl_error [of ?x] n1 small by simp
  have "\<bar>?y * 100 - of_int n\<bar> \<le> of_int n / 2 ^ 53"
  proof -
    have "\<bar>?y * 100 - of_int n\<bar> = \<bar>?y - ?x\<bar> * 100"
      by (simp add: abs_mult [symmetric, of _ "100 :: rat", simplified] left_diff_distrib)
    with e1 show ?thesis by simp
  qed
  note e2 = this
  have half: "of_int n / 2 ^ 53 \<le> (of_int n :: rat) / 2" using n1 by simp
  have y: "1 / 2 \<le> ?y * 100" "?y * 100 \<le> 2 * of_int n"
    using e2 half n1 by linarith+
  have "\<bar>fl (?y * 100) - ?y * 100\<bar> \<le> 2 * of_int n / 2 ^ 53"
  proof -
    have "\<bar>?y * 100\<bar> = ?y * 100" using y by linarith
    then have "\<bar>fl (?y * 100) - ?y * 100\<bar> \<le> ?y * 100 / 2 ^ 53"
      using fl_error [of "?y * 100"] y small by simp
    also have "\<dots> \<le> 2 * of_int n / 2 ^ 53" using y by (simp add: divide_right_mono)
    finally show ?thesis .
  qed
  moreover have "3 * of_int n / 2 ^ 53 < (1 / 2 :: rat)" using n2 by simp
  ultimately have "\<bar>fl (?y * 100) - of_int n\<bar> < 1 / 2" using e2 by linarith
  then show ?thesis unfolding fmul_def fdiv_def by (rule rnd_even_near)
qed

end
