(* ===== verification/PyBase.thy ===== *)
theory PyBase
  imports PyFloat "HOL-Library.AList" "HOL-Library.Product_Lexorder" "HOL-Library.Multiset"
begin

text \<open>
  The prelude: the Python values the components share.  Symbols and ids are \<open>string\<close>s (ASCII, as
  tickers and ids are), a \<open>date\<close> is its proleptic Gregorian ordinal, a time of day is in
  milliseconds since midnight, a \<open>dict\<close> is an insertion-ordered association list, and a raised
  exception is the left of a sum.  The locale \<open>stepwise\<close> is the contract every stateful component
  discharges: an invariant each operation keeps, hence every run of operations.
\<close>

named_theorems dict_simps \<open>reads after writes of a Python dict\<close>

type_synonym sym = string
type_synonym day = int
type_synonym ms = int

section \<open>Exceptions\<close>

datatype py_error =
    KeyError | IndexError | ValueError string | ZeroDivisionError | RuntimeError string | AttributeError
  | TypeError | UnsupportedApiError string | OrderRejected string

type_synonym 'a res = "py_error + 'a"

definition bind_res :: "'a res \<Rightarrow> ('a \<Rightarrow> 'b res) \<Rightarrow> 'b res" where
  "bind_res r f = (case r of Inl e \<Rightarrow> Inl e | Inr x \<Rightarrow> f x)"

lemma bind_res_simps [simp]:
  "bind_res (Inl e) f = Inl e" "bind_res (Inr x) f = f x"
  by (simp_all add: bind_res_def)

lemma bind_res_Inr_iff: "bind_res r f = Inr y \<longleftrightarrow> (\<exists>x. r = Inr x \<and> f x = Inr y)"
  by (cases r) auto

section \<open>Strings\<close>

definition upper_char :: "char \<Rightarrow> char" where
  "upper_char c =
     (let n = (of_char c :: nat) in if 97 \<le> n \<and> n \<le> 122 then char_of (n - 32) else c)"

definition lower_char :: "char \<Rightarrow> char" where
  "lower_char c =
     (let n = (of_char c :: nat) in if 65 \<le> n \<and> n \<le> 90 then char_of (n + 32) else c)"

definition upper :: "string \<Rightarrow> string" where
  "upper = map upper_char"

definition lower :: "string \<Rightarrow> string" where
  "lower = map lower_char"

lemma of_char_upper_char:
  "(of_char (upper_char c) :: nat) =
     (if 97 \<le> (of_char c :: nat) \<and> (of_char c :: nat) \<le> 122 then of_char c - 32 else of_char c)"
proof -
  have "(of_char c :: nat) < 256" by simp
  then have "(of_char c - 32 :: nat) < 256" by linarith
  then have "(of_char c - 32 :: nat) mod 256 = of_char c - 32" by simp
  then show ?thesis by (auto simp: upper_char_def Let_def of_char_of)
qed

lemma upper_char_idem [simp]: "upper_char (upper_char c) = upper_char c"
proof -
  have "(of_char (upper_char (upper_char c)) :: nat) = of_char (upper_char c)"
    by (simp add: of_char_upper_char) arith
  then show ?thesis by (simp only: of_char_eq_iff)
qed

lemma upper_idem [simp]: "upper (upper s) = upper s"
  by (simp add: upper_def)

lemma upper_Nil [simp]: "upper [] = []" "lower [] = []"
  by (simp_all add: upper_def lower_def)

text \<open>\<open>s.startswith(p)\<close>, and Python's truth of an optional string.\<close>

definition starts_with :: "string \<Rightarrow> string \<Rightarrow> bool" where
  "starts_with s p \<longleftrightarrow> take (length p) s = p"

definition truthy :: "string option \<Rightarrow> bool" where
  "truthy x \<longleftrightarrow> x \<noteq> None \<and> x \<noteq> Some []"

text \<open>\<open>x or y\<close> on optional strings, \<open>x or ""\<close>, and \<open>x or 0\<close> on optional numbers.\<close>

definition opt_or :: "string option \<Rightarrow> string option \<Rightarrow> string option" where
  "opt_or x y = (if truthy x then x else y)"

definition str_or :: "string option \<Rightarrow> string" where
  "str_or x = (case x of None \<Rightarrow> [] | Some s \<Rightarrow> s)"

definition num_or0 :: "pyfloat option \<Rightarrow> pyfloat" where
  "num_or0 x = (case x of None \<Rightarrow> 0 | Some v \<Rightarrow> v)"

lemma starts_with_append [simp]: "starts_with (p @ s) p"
  by (simp add: starts_with_def)

section \<open>Dictionaries\<close>

text \<open>
  Assigning to a key of a Python dict keeps its place or appends it; deleting removes it.  Reads
  are \<open>map_of\<close>; iteration is the list itself.
\<close>

type_synonym ('k, 'v) dict = "('k \<times> 'v) list"

definition dget :: "('k, 'v) dict \<Rightarrow> 'k \<Rightarrow> 'v option" where
  "dget d k = map_of d k"

definition dget_or :: "('k, 'v) dict \<Rightarrow> 'k \<Rightarrow> 'v \<Rightarrow> 'v" where
  "dget_or d k v = (case map_of d k of None \<Rightarrow> v | Some x \<Rightarrow> x)"

definition dput :: "('k, 'v) dict \<Rightarrow> 'k \<Rightarrow> 'v \<Rightarrow> ('k, 'v) dict" where
  "dput d k v = AList.update k v d"

definition ddel :: "('k, 'v) dict \<Rightarrow> 'k \<Rightarrow> ('k, 'v) dict" where
  "ddel d k = AList.delete k d"

definition dkeys :: "('k, 'v) dict \<Rightarrow> 'k list" where
  "dkeys d = map fst d"

definition dict_ok :: "('k, 'v) dict \<Rightarrow> bool" where
  "dict_ok d \<longleftrightarrow> distinct (map fst d)"

lemma dget_dput [dict_simps]: "dget (dput d k v) k' = (if k = k' then Some v else dget d k')"
  by (simp add: dget_def dput_def update_conv')

lemma dget_ddel [dict_simps]: "dget (ddel d k) k' = (if k = k' then None else dget d k')"
  by (simp add: dget_def ddel_def delete_conv')

lemma dget_Nil [dict_simps]: "dget [] k = None"
  by (simp add: dget_def)

lemma dget_or_dget [dict_simps]: "dget_or d k v = (case dget d k of None \<Rightarrow> v | Some x \<Rightarrow> x)"
  by (simp add: dget_or_def dget_def)

lemma dict_ok_intros [simp, intro]:
  "dict_ok []" "dict_ok d \<Longrightarrow> dict_ok (dput d k v)" "dict_ok d \<Longrightarrow> dict_ok (ddel d k)"
  by (simp_all add: dict_ok_def dput_def ddel_def distinct_update distinct_delete)

lemma dget_in_set: "dict_ok d \<Longrightarrow> (k, v) \<in> set d \<longleftrightarrow> dget d k = Some v"
  by (auto simp: dict_ok_def dget_def)

lemma dget_Some_set: "dget d k = Some v \<Longrightarrow> (k, v) \<in> set d"
  by (simp add: dget_def map_of_SomeD)

lemma dget_None_keys: "dget d k = None \<longleftrightarrow> k \<notin> set (dkeys d)"
  by (simp add: dget_def dkeys_def map_of_eq_None_iff)

section \<open>Options\<close>

lemma option_None_or_Some: "x \<noteq> None \<longleftrightarrow> (\<exists>y. x = Some y)"
  by auto

section \<open>Components with an invariant\<close>

locale stepwise =
  fixes step :: "'s \<Rightarrow> 'o \<Rightarrow> 's"
    and inv :: "'s \<Rightarrow> bool"
  assumes step_inv: "inv s \<Longrightarrow> inv (step s x)"
begin

lemma run_inv: "inv s \<Longrightarrow> inv (foldl step s xs)"
  by (induction xs arbitrary: s) (auto intro: step_inv)

lemma run_prefix_inv: "inv s \<Longrightarrow> inv (foldl step s (take n xs))"
  by (rule run_inv)

end

text \<open>A quantity that every step adds to is the sum over the run.\<close>

locale accumulating =
  fixes step :: "'s \<Rightarrow> 'o \<Rightarrow> 's"
    and measure_of :: "'s \<Rightarrow> 'm :: comm_monoid_add"
    and gain :: "'o \<Rightarrow> 'm"
  assumes step_gain: "measure_of (step s x) = measure_of s + gain x"
begin

lemma run_gain: "measure_of (foldl step s xs) = measure_of s + sum_list (map gain xs)"
  by (induction xs arbitrary: s) (auto simp: step_gain add.assoc)

end

end
