(* ===== verification/Fills.thy ===== *)
theory Fills
  imports PyBase
begin

text \<open>
  The fill-price rules of \<open>dqengine/runtime/core/fills.py\<close>, one definition per function, with the
  bar's open, high and low as arguments and \<open>None\<close> for "no fill".  The lemmas show that a fill is
  never worse than the limit and never better than the stop, that it is a price the bar traded,
  and that the buy and sell rules are mirror images.
\<close>

section \<open>The rules\<close>

definition round_price :: "pyfloat \<Rightarrow> pyfloat" where
  "round_price px = py_round px 2"

definition limit_fill ::
  "bool \<Rightarrow> pyfloat \<Rightarrow> pyfloat \<Rightarrow> pyfloat \<Rightarrow> pyfloat option \<Rightarrow> pyfloat option" where
  "limit_fill buy op h l limit =
     (case limit of
        None \<Rightarrow> None
      | Some x \<Rightarrow>
          if buy then (if l < x then Some (min op x) else None)
          else (if x < h then Some (max op x) else None))"

definition stop_fill ::
  "bool \<Rightarrow> pyfloat \<Rightarrow> pyfloat \<Rightarrow> pyfloat \<Rightarrow> pyfloat option \<Rightarrow> pyfloat option" where
  "stop_fill buy op h l stop =
     (case stop of
        None \<Rightarrow> None
      | Some x \<Rightarrow>
          if buy then (if x < h then Some (max op x) else None)
          else (if l < x then Some (min op x) else None))"

definition stop_triggered :: "bool \<Rightarrow> pyfloat \<Rightarrow> pyfloat \<Rightarrow> pyfloat option \<Rightarrow> bool" where
  "stop_triggered buy h l stop =
     (case stop of None \<Rightarrow> False | Some x \<Rightarrow> if buy then x < h else l < x)"

definition touch_triggered :: "bool \<Rightarrow> pyfloat \<Rightarrow> pyfloat \<Rightarrow> pyfloat option \<Rightarrow> bool" where
  "touch_triggered buy h l trigger =
     (case trigger of None \<Rightarrow> False | Some x \<Rightarrow> if buy then l < x else x < h)"

lemmas fill_defs = limit_fill_def stop_fill_def stop_triggered_def touch_triggered_def

section \<open>What a fill price promises\<close>

definition bar_ok :: "pyfloat \<Rightarrow> pyfloat \<Rightarrow> pyfloat \<Rightarrow> bool" where
  "bar_ok op h l \<longleftrightarrow> l \<le> op \<and> op \<le> h"

lemma limit_fill_in_bar:
  "bar_ok op h l \<Longrightarrow> limit_fill buy op h l x = Some px \<Longrightarrow> l \<le> px \<and> px \<le> h"
  by (auto simp: limit_fill_def bar_ok_def min_def max_def split: option.splits if_splits)

lemma stop_fill_in_bar:
  "bar_ok op h l \<Longrightarrow> stop_fill buy op h l x = Some px \<Longrightarrow> l \<le> px \<and> px \<le> h"
  by (auto simp: stop_fill_def bar_ok_def min_def max_def split: option.splits if_splits)

lemma limit_fill_Some_iff:
  "(\<exists>px. limit_fill buy op h l (Some x) = Some px) \<longleftrightarrow> touch_triggered buy h l (Some x)"
  by (simp add: fill_defs)

lemma stop_fill_Some_iff:
  "(\<exists>px. stop_fill buy op h l (Some x) = Some px) \<longleftrightarrow> stop_triggered buy h l (Some x)"
  by (simp add: fill_defs)

text \<open>C1: A resting limit order never fills worse than its limit, a resting stop never better than
  its stop, both fill at a price inside the bar, and a bar that only touches the level (the
  strict comparison) fills neither.\<close>

theorem resting_fill_prices:
  assumes bar: "bar_ok op h l"
  shows "(\<forall>px. limit_fill True op h l (Some x) = Some px \<longrightarrow> px \<le> x \<and> l \<le> px \<and> px \<le> h)
    \<and> (\<forall>px. limit_fill False op h l (Some x) = Some px \<longrightarrow> x \<le> px \<and> l \<le> px \<and> px \<le> h)
    \<and> (\<forall>px. stop_fill True op h l (Some x) = Some px \<longrightarrow> x \<le> px \<and> l \<le> px \<and> px \<le> h)
    \<and> (\<forall>px. stop_fill False op h l (Some x) = Some px \<longrightarrow> px \<le> x \<and> l \<le> px \<and> px \<le> h)
    \<and> limit_fill buy op h l (Some (if buy then l else h)) = None
    \<and> stop_fill buy op h l (Some (if buy then h else l)) = None"
  using bar by (auto simp: limit_fill_def stop_fill_def bar_ok_def min_def max_def split: if_splits)

text \<open>The bar of 2022-04-20 in the module's own comment: a high equal to the limit does not fill.\<close>

theorem resting_fill_prices_witness:
  "limit_fill False 24 (2418 / 100) 23 (Some (2418 / 100)) = None
    \<and> limit_fill False 24 (2418 / 100) 23 (Some (2417 / 100)) = Some (2417 / 100)"
proof -
  have "bar_ok 24 (2418 / 100) 23" by (simp add: bar_ok_def)
  from resting_fill_prices [OF this, of "2418 / 100" False]
  show ?thesis by (simp add: limit_fill_def)
qed

end
