(* ===== verification/Ledger.thy ===== *)
theory Ledger
  imports PyBase
begin

text \<open>
  The broker-execution ledger of \<open>dqengine/runtime/core/ledger.py\<close>.  \<open>ledger_fill\<close> is
  \<open>LedgerFill\<close>, \<open>ledger\<close> the fields of \<open>ExecutionLedger\<close> (its sorted rows and the set of taken row
  indices), and \<open>take\<close>, \<open>take_rule_fill\<close>, \<open>leftovers\<close> its methods.  The result of \<open>take\<close> is
  three-valued as in the code: \<open>Some rows\<close> (the broker filled), \<open>Some []\<close> (it affirmatively did
  not) and \<open>None\<close> (unknown).  \<open>ledger_view\<close> is what an order book is given: no ledger, the ledger,
  or the \<open>LiveCappedLedger\<close> around it.
\<close>

section \<open>Rows and the ledger\<close>

definition norm_sym :: "string option \<Rightarrow> string" where
  "norm_sym s = (case s of None \<Rightarrow> [] | Some x \<Rightarrow> upper x)"

record ledger_fill =
  lf_day :: day
  lf_time :: ms
  lf_sym :: sym
  lf_qty :: int
  lf_price :: pyfloat
  lf_fees :: pyfloat
  lf_tag :: "string option"
  lf_boid :: "string option"

text \<open>\<open>__post_init__\<close> normalises the symbol.\<close>

definition mk_fill ::
  "day \<Rightarrow> ms \<Rightarrow> string option \<Rightarrow> int \<Rightarrow> pyfloat \<Rightarrow> pyfloat \<Rightarrow> string option \<Rightarrow> string option \<Rightarrow> ledger_fill" where
  "mk_fill d t s q p f tag boid =
     \<lparr>lf_day = d, lf_time = t, lf_sym = norm_sym s, lf_qty = q, lf_price = p, lf_fees = f,
      lf_tag = tag, lf_boid = boid\<rparr>"

record ledger =
  fills :: "ledger_fill list"
  taken :: "nat set"
  unknown :: "sym set"
  reconciled_from :: "day option"
  unknown_from :: "day option"

definition mk_ledger ::
  "ledger_fill list \<Rightarrow> string set \<Rightarrow> day option \<Rightarrow> day option \<Rightarrow> ledger" where
  "mk_ledger fs unk rf uf =
     \<lparr>fills = sort_key (\<lambda>f. (lf_day f, lf_time f)) fs, taken = {},
      unknown = (\<lambda>s. norm_sym (Some s)) ` unk, reconciled_from = rf, unknown_from = uf\<rparr>"

definition absence_unknown :: "ledger \<Rightarrow> day \<Rightarrow> sym \<Rightarrow> bool" where
  "absence_unknown l d s =
     (if s \<notin> unknown l then False
      else case unknown_from l of None \<Rightarrow> True | Some u \<Rightarrow> u \<le> d)"

text \<open>\<open>enumerate(self._fills)\<close>, filtered to the rows nobody has taken.\<close>

definition untaken :: "ledger \<Rightarrow> (nat \<times> ledger_fill) list" where
  "untaken l = filter (\<lambda>(i, f). i \<notin> taken l) (List.enumerate 0 (fills l))"

definition unreconciled :: "ledger \<Rightarrow> day \<Rightarrow> bool" where
  "unreconciled l d = (case reconciled_from l of None \<Rightarrow> True | Some r \<Rightarrow> d < r)"

definition mark_taken :: "ledger \<Rightarrow> (nat \<times> ledger_fill) list \<Rightarrow> ledger" where
  "mark_taken l chosen = l\<lparr>taken := taken l \<union> set (map fst chosen)\<rparr>"

section \<open>take\<close>

definition take_avail :: "ledger \<Rightarrow> day \<Rightarrow> sym \<Rightarrow> int option \<Rightarrow> (nat \<times> ledger_fill) list" where
  "take_avail l d s side =
     filter (\<lambda>(i, f). lf_day f = d \<and> lf_sym f = s
               \<and> (case side of None \<Rightarrow> True | Some x \<Rightarrow> (0 < lf_qty f) = (0 < x)))
       (untaken l)"

definition take_pool ::
  "(nat \<times> ledger_fill) list \<Rightarrow> string option \<Rightarrow> (nat \<times> ledger_fill) list" where
  "take_pool avail rule_id =
     (let tagged = filter (\<lambda>(i, f). lf_tag f = rule_id) avail
      in if tagged \<noteq> [] then tagged else avail)"

definition take_chosen :: "(nat \<times> ledger_fill) list \<Rightarrow> (nat \<times> ledger_fill) list" where
  "take_chosen pool =
     (case pool of
        [] \<Rightarrow> []
      | (_, first) # _ \<Rightarrow>
          if truthy (lf_boid first)
          then filter (\<lambda>(i, f). lf_boid f = lf_boid first) pool
          else if lf_tag first \<noteq> None
          then filter (\<lambda>(i, f). lf_tag f = lf_tag first \<and> \<not> truthy (lf_boid f)) pool
          else take 1 pool)"

definition take_fills ::
  "ledger \<Rightarrow> day \<Rightarrow> string \<Rightarrow> string option \<Rightarrow> int option \<Rightarrow> ledger_fill list option \<times> ledger" where
  "take_fills l d symbol rule_id side =
     (let s = norm_sym (Some symbol)
      in if unreconciled l d then (None, l)
         else let avail = take_avail l d s side
         in if avail = [] then (if absence_unknown l d s then None else Some [], l)
            else let chosen = take_chosen (take_pool avail rule_id)
            in (Some (map snd chosen), mark_taken l chosen))"

section \<open>The fill pump's read\<close>

definition pump_avail :: "ledger \<Rightarrow> day \<Rightarrow> sym \<Rightarrow> string \<Rightarrow> ms \<Rightarrow> (nat \<times> ledger_fill) list" where
  "pump_avail l d s tag upto_ms =
     filter (\<lambda>(i, f). lf_day f = d \<and> lf_sym f = s \<and> lf_tag f = Some tag \<and> lf_time f < upto_ms)
       (untaken l)"

definition pump_chosen :: "(nat \<times> ledger_fill) list \<Rightarrow> (nat \<times> ledger_fill) list" where
  "pump_chosen avail =
     (case avail of
        [] \<Rightarrow> []
      | (_, first) # _ \<Rightarrow>
          if truthy (lf_boid first)
          then filter (\<lambda>(i, f). lf_boid f = lf_boid first) avail
          else filter (\<lambda>(i, f). \<not> truthy (lf_boid f)) avail)"

definition take_rule_fill ::
  "ledger \<Rightarrow> day \<Rightarrow> string \<Rightarrow> string option \<Rightarrow> ms \<Rightarrow> ledger_fill list option \<times> ledger" where
  "take_rule_fill l d symbol rule_tag upto_ms =
     (let s = norm_sym (Some symbol)
      in case rule_tag of
           None \<Rightarrow> (None, l)
         | Some tag \<Rightarrow>
             if unreconciled l d then (None, l)
             else let avail = pump_avail l d s tag upto_ms
             in if avail = [] then (None, l)
                else let chosen = pump_chosen avail
                in (Some (map snd chosen), mark_taken l chosen))"

definition leftovers :: "ledger \<Rightarrow> ledger_fill list" where
  "leftovers l = map snd (untaken l)"

section \<open>A warm engine's view\<close>

datatype ledger_view = NoLedger | Ledger ledger | LiveCapped ledger day

definition capped_take ::
  "ledger \<Rightarrow> day \<Rightarrow> day \<Rightarrow> string \<Rightarrow> string option \<Rightarrow> int option \<Rightarrow> ledger_fill list option \<times> ledger" where
  "capped_take inner live_from d symbol rule_id side =
     (let (real, l') = take_fills inner d symbol rule_id side
      in (if real = Some [] \<and> live_from \<le> d then None else real, l'))"

definition view_take ::
  "ledger_view \<Rightarrow> day \<Rightarrow> string \<Rightarrow> string option \<Rightarrow> int option
     \<Rightarrow> ledger_fill list option \<times> ledger_view" where
  "view_take v d symbol rule_id side =
     (case v of
        NoLedger \<Rightarrow> (None, v)
      | Ledger l \<Rightarrow> apsnd Ledger (take_fills l d symbol rule_id side)
      | LiveCapped l from_day \<Rightarrow>
          apsnd (\<lambda>l'. LiveCapped l' from_day) (capped_take l from_day d symbol rule_id side))"

text \<open>Everything but \<open>take\<close> goes through \<open>__getattr__\<close> to the wrapped ledger.\<close>

definition view_take_rule_fill ::
  "ledger_view \<Rightarrow> day \<Rightarrow> string \<Rightarrow> string option \<Rightarrow> ms \<Rightarrow> ledger_fill list option \<times> ledger_view" where
  "view_take_rule_fill v d symbol rule_tag upto_ms =
     (case v of
        NoLedger \<Rightarrow> (None, v)
      | Ledger l \<Rightarrow> apsnd Ledger (take_rule_fill l d symbol rule_tag upto_ms)
      | LiveCapped l from_day \<Rightarrow>
          apsnd (\<lambda>l'. LiveCapped l' from_day) (take_rule_fill l d symbol rule_tag upto_ms))"

definition view_leftovers :: "ledger_view \<Rightarrow> ledger_fill list" where
  "view_leftovers v =
     (case v of NoLedger \<Rightarrow> [] | Ledger l \<Rightarrow> leftovers l | LiveCapped l _ \<Rightarrow> leftovers l)"

section \<open>Rows are handed out once\<close>

lemma distinct_untaken: "distinct (map fst (untaken l))" "distinct (untaken l)"
proof -
  have "distinct (map fst (List.enumerate 0 (fills l)))"
    by (simp add: distinct_upt)
  then show "distinct (map fst (untaken l))"
    unfolding untaken_def by (rule distinct_map_filter)
  then show "distinct (untaken l)" by (simp add: distinct_map)
qed

lemma untaken_mark_taken:
  "untaken (mark_taken l chosen) = filter (\<lambda>x. fst x \<notin> fst ` set chosen) (untaken l)"
  by (simp add: untaken_def mark_taken_def case_prod_unfold conj_ac)

lemma mset_mark_taken:
  assumes sub: "set chosen \<subseteq> set (untaken l)" and dist: "distinct chosen"
  shows "mset (map snd chosen) + mset (leftovers (mark_taken l chosen)) = mset (leftovers l)"
proof -
  have inj: "inj_on fst (set (untaken l))"
    using distinct_untaken(1) [of l] by (simp add: distinct_map)
  have "set chosen = set (filter (\<lambda>x. fst x \<in> fst ` set chosen) (untaken l))"
    using sub inj by (auto dest: inj_onD)
  then have "mset chosen = mset (filter (\<lambda>x. fst x \<in> fst ` set chosen) (untaken l))"
    using dist distinct_untaken(2) [of l]
    by (subst (asm) set_eq_iff_mset_eq_distinct) simp_all
  then have "mset chosen + mset (untaken (mark_taken l chosen)) = mset (untaken l)"
    unfolding untaken_mark_taken by (simp add: mset_filter)
  then have "image_mset snd (mset chosen + mset (untaken (mark_taken l chosen)))
      = image_mset snd (mset (untaken l))" by simp
  then show ?thesis by (simp add: leftovers_def)
qed

lemma set_take_chosen: "set (take_chosen (take_pool avail rid)) \<subseteq> set avail"
  by (auto simp: take_chosen_def take_pool_def Let_def split: list.splits if_splits
      dest: in_set_takeD)

lemma distinct_take_chosen: "distinct avail \<Longrightarrow> distinct (take_chosen (take_pool avail rid))"
  by (auto simp: take_chosen_def take_pool_def Let_def split: list.splits if_splits)

lemma set_pump_chosen: "set (pump_chosen avail) \<subseteq> set avail"
  by (auto simp: pump_chosen_def split: list.splits if_splits)

lemma distinct_pump_chosen: "distinct avail \<Longrightarrow> distinct (pump_chosen avail)"
  by (auto simp: pump_chosen_def split: list.splits if_splits)

lemma avail_untaken:
  "set (take_avail l d s side) \<subseteq> set (untaken l)" "distinct (take_avail l d s side)"
  "set (pump_avail l d s tag u) \<subseteq> set (untaken l)" "distinct (pump_avail l d s tag u)"
  using distinct_untaken(2) [of l] by (auto simp: take_avail_def pump_avail_def)

lemma take_fills_conserves:
  assumes "take_fills l d s rid side = (r, l')"
  shows "mset (case r of None \<Rightarrow> [] | Some rows \<Rightarrow> rows) + mset (leftovers l') = mset (leftovers l)"
proof -
  let ?a = "take_avail l d (norm_sym (Some s)) side"
  have "mset (map snd (take_chosen (take_pool ?a rid)))
      + mset (leftovers (mark_taken l (take_chosen (take_pool ?a rid)))) = mset (leftovers l)"
    using avail_untaken(1,2) set_take_chosen distinct_take_chosen
    by (intro mset_mark_taken) (meson order_trans, blast)
  with assms show ?thesis
    by (auto simp: take_fills_def Let_def split: if_splits)
qed

lemma take_rule_fill_conserves:
  assumes "take_rule_fill l d s tag u = (r, l')"
  shows "mset (case r of None \<Rightarrow> [] | Some rows \<Rightarrow> rows) + mset (leftovers l') = mset (leftovers l)"
proof (cases tag)
  case (Some t)
  let ?a = "pump_avail l d (norm_sym (Some s)) t u"
  have "mset (map snd (pump_chosen ?a)) + mset (leftovers (mark_taken l (pump_chosen ?a)))
      = mset (leftovers l)"
    using avail_untaken(3,4) set_pump_chosen distinct_pump_chosen
    by (intro mset_mark_taken) (meson order_trans, blast)
  with assms Some show ?thesis
    by (auto simp: take_rule_fill_def Let_def split: if_splits)
qed (use assms in \<open>simp add: take_rule_fill_def\<close>)

section \<open>Sequences of reads\<close>

datatype ledger_read =
    Take day string "string option" "int option"
  | Pump day string "string option" ms

fun view_read :: "ledger_view \<Rightarrow> ledger_read \<Rightarrow> ledger_fill list option \<times> ledger_view" where
  "view_read v (Take d s rid side) = view_take v d s rid side"
| "view_read v (Pump d s tag u) = view_take_rule_fill v d s tag u"

lemma view_read_conserves:
  assumes "view_read v q = (r, v')"
  shows "mset (case r of None \<Rightarrow> [] | Some rows \<Rightarrow> rows) + mset (view_leftovers v')
    = mset (view_leftovers v)"
proof (cases q)
  case (Take d s rid side)
  show ?thesis
  proof (cases v)
    case (Ledger l)
    with Take assms show ?thesis
      by (cases "take_fills l d s rid side")
        (auto simp: view_take_def view_leftovers_def dest!: take_fills_conserves)
  next
    case (LiveCapped l fd)
    with Take assms show ?thesis
      by (cases "take_fills l d s rid side")
        (auto simp: view_take_def view_leftovers_def capped_take_def
          dest!: take_fills_conserves split: if_splits)
  qed (use Take assms in \<open>simp add: view_take_def\<close>)
next
  case (Pump d s tag u)
  show ?thesis
  proof (cases v)
    case (Ledger l)
    with Pump assms show ?thesis
      by (cases "take_rule_fill l d s tag u")
        (auto simp: view_take_rule_fill_def view_leftovers_def dest!: take_rule_fill_conserves)
  next
    case (LiveCapped l fd)
    with Pump assms show ?thesis
      by (cases "take_rule_fill l d s tag u")
        (auto simp: view_take_rule_fill_def view_leftovers_def dest!: take_rule_fill_conserves)
  qed (use Pump assms in \<open>simp add: view_take_rule_fill_def\<close>)
qed

text \<open>
  The contract the order book relies on: a read hands out rows that were left, and removes
  exactly those.  Everything a run of reads hands out, with what is left, is what was there.
\<close>

locale fill_source =
  fixes read :: "'v \<Rightarrow> 'q \<Rightarrow> 'r list option \<times> 'v"
    and left :: "'v \<Rightarrow> 'r list"
  assumes read_conserves:
    "read v q = (r, v') \<Longrightarrow>
      mset (case r of None \<Rightarrow> [] | Some rows \<Rightarrow> rows) + mset (left v') = mset (left v)"
begin

lemma read_Some_subset:
  "read v q = (Some rows, v') \<Longrightarrow> mset rows \<subseteq># mset (left v)"
  by (metis read_conserves mset_subset_eq_add_left option.simps(5))

lemma read_None_same: "read v q = (None, v') \<Longrightarrow> mset (left v') = mset (left v)"
  using read_conserves by fastforce

lemma run_conserves:
  "mset (concat (map (\<lambda>r. case r of None \<Rightarrow> [] | Some rows \<Rightarrow> rows) out)) + mset (left v') = mset (left v)"
  if "(out, v') = foldl (\<lambda>(acc, u) q. case read u q of (r, u') \<Rightarrow> (acc @ [r], u')) ([], v) qs"
  using that
proof (induction qs arbitrary: out v' rule: rev_induct)
  case (snoc q qs)
  obtain out0 u where u: "foldl (\<lambda>(acc, u) q. case read u q of (r, u') \<Rightarrow> (acc @ [r], u')) ([], v) qs = (out0, u)"
    by (metis surj_pair)
  obtain r u' where r: "read u q = (r, u')" by (metis surj_pair)
  have "out = out0 @ [r]" "v' = u'" using snoc.prems u r by auto
  then show ?case using snoc.IH [OF u [symmetric]] read_conserves [OF r]
    by (simp add: add.assoc)
qed simp

end

interpretation lsrc: fill_source view_read view_leftovers
  by unfold_locales (rule view_read_conserves)

definition serve ::
  "ledger_view \<Rightarrow> ledger_read list \<Rightarrow> ledger_fill list option list \<times> ledger_view" where
  "serve v qs =
     foldl (\<lambda>(acc, u) q. case view_read u q of (r, u') \<Rightarrow> (acc @ [r], u')) ([], v) qs"

text \<open>C2: Whatever sequence of \<open>take\<close> and \<open>take_rule_fill\<close> calls an engine makes, each broker row is
  handed out at most once and none is lost: the rows returned and the leftovers at the end are,
  as multisets, the leftovers at the start.\<close>

theorem ledger_conservation:
  "mset (concat (map (\<lambda>r. case r of None \<Rightarrow> [] | Some rows \<Rightarrow> rows) (fst (serve v qs))))
     + mset (view_leftovers (snd (serve v qs))) = mset (view_leftovers v)"
  by (rule lsrc.run_conserves) (simp add: serve_def)

section \<open>What take answers\<close>

text \<open>Row \<open>i\<close> is a candidate for an order: untaken, of the day, the symbol and the order's side.\<close>

definition candidate :: "ledger \<Rightarrow> day \<Rightarrow> string \<Rightarrow> int option \<Rightarrow> nat \<Rightarrow> bool" where
  "candidate l d s side i \<longleftrightarrow>
     i < length (fills l) \<and> i \<notin> taken l \<and> lf_day (fills l ! i) = d
     \<and> lf_sym (fills l ! i) = norm_sym (Some s)
     \<and> (case side of None \<Rightarrow> True | Some x \<Rightarrow> (0 < lf_qty (fills l ! i)) = (0 < x))"

lemma in_untaken: "(i, f) \<in> set (untaken l) \<longleftrightarrow> i < length (fills l) \<and> i \<notin> taken l \<and> f = fills l ! i"
  by (auto simp: untaken_def in_set_enumerate_eq)

lemma in_take_avail:
  "(i, f) \<in> set (take_avail l d (norm_sym (Some s)) side) \<longleftrightarrow> candidate l d s side i \<and> f = fills l ! i"
  by (auto simp: take_avail_def in_untaken candidate_def)

lemma take_avail_empty:
  "take_avail l d (norm_sym (Some s)) side = [] \<longleftrightarrow> (\<nexists>i. candidate l d s side i)"
proof -
  have "(take_avail l d (norm_sym (Some s)) side = [])
      = (\<forall>i f. (i, f) \<notin> set (take_avail l d (norm_sym (Some s)) side))"
    by (metis list.set_sel(1) equals0D list.set(1) surj_pair)
  then show ?thesis by (simp add: in_take_avail)
qed

lemma take_chosen_Nil: "take_chosen (take_pool avail rid) = [] \<longleftrightarrow> avail = []"
proof -
  have "take_chosen p = [] \<longleftrightarrow> p = []" for p :: "(nat \<times> ledger_fill) list"
    by (cases p) (auto simp: take_chosen_def split: if_splits)
  moreover have "take_pool avail rid = [] \<longleftrightarrow> avail = []"
    by (auto simp: take_pool_def Let_def)
  ultimately show ?thesis by simp
qed

text \<open>The three answers of \<open>take\<close> are kept apart: rows exactly when a candidate row exists on a
  reconciled day (presence wins over the unknown set), "no fill" exactly when there is none and
  the symbol's absence is not unknown that day, and "unknown" in the remaining cases.\<close>

theorem take_three_valued:
  "(fst (take_fills l d s rid side) = None \<longleftrightarrow>
      unreconciled l d \<or> (\<nexists>i. candidate l d s side i) \<and> absence_unknown l d (norm_sym (Some s)))
   \<and> (fst (take_fills l d s rid side) = Some [] \<longleftrightarrow>
      \<not> unreconciled l d \<and> (\<nexists>i. candidate l d s side i) \<and> \<not> absence_unknown l d (norm_sym (Some s)))
   \<and> ((\<exists>r rs. fst (take_fills l d s rid side) = Some (r # rs)) \<longleftrightarrow>
      \<not> unreconciled l d \<and> (\<exists>i. candidate l d s side i))"
proof -
  let ?a = "take_avail l d (norm_sym (Some s)) side"
  have "map snd (take_chosen (take_pool ?a rid)) = [] \<longleftrightarrow> (\<nexists>i. candidate l d s side i)"
    by (simp add: take_chosen_Nil take_avail_empty)
  then have "(\<exists>r rs. map snd (take_chosen (take_pool ?a rid)) = r # rs)
      \<longleftrightarrow> (\<exists>i. candidate l d s side i)"
    by (metis neq_Nil_conv)
  then show ?thesis
    by (auto simp: take_fills_def Let_def take_avail_empty take_chosen_Nil)
qed

lemma take_fills_Some:
  assumes "take_fills l d s rid side = (Some rows, l')" and "rows \<noteq> []"
  obtains chosen where "chosen = take_chosen (take_pool (take_avail l d (norm_sym (Some s)) side) rid)"
    and "rows = map snd chosen" and "l' = mark_taken l chosen"
  using assms by (auto simp: take_fills_def Let_def split: if_splits)

lemma take_chosen_boid:
  assumes "take_chosen (take_pool avail rid) = (i, r) # cs" and "truthy (lf_boid r)"
  shows "take_chosen (take_pool avail rid)
    = filter (\<lambda>(j, f). lf_boid f = lf_boid r) (take_pool avail rid)"
proof -
  let ?p = "take_pool avail rid"
  obtain k q ps where p: "?p = (k, q) # ps"
    using assms(1) by (cases ?p) (auto simp: take_chosen_def)
  show ?thesis
  proof (cases "truthy (lf_boid q)")
    case True
    then have "r = q" using assms(1) p by (simp add: take_chosen_def)
    then show ?thesis using True p by (simp add: take_chosen_def)
  next
    case False
    have "(i, r) \<in> set (take_chosen ?p)" using assms(1) by simp
    then have "\<not> truthy (lf_boid r)"
      using False p by (auto simp: take_chosen_def split: if_splits)
    then show ?thesis using assms(2) by contradiction
  qed
qed

lemma take_pool_member:
  assumes "(i, r) \<in> set (take_pool avail rid)" and "(j, f) \<in> set avail"
    and "lf_tag r = rid \<longrightarrow> lf_tag f = rid"
  shows "(j, f) \<in> set (take_pool avail rid)"
  using assms by (auto simp: take_pool_def Let_def split: if_splits)

text \<open>An order's executions are applied together.  Every row \<open>take\<close> returns is a candidate; and
  when the first returned row carries a broker order id, every candidate execution of that same
  order (with the rule's tag, if the first row has it) is returned too and is taken afterwards,
  so a partial fill reported as several rows never leaves a remainder behind.\<close>

theorem take_whole_order:
  assumes t: "take_fills l d s rid side = (Some (r # rs), l')"
    and c: "candidate l d s side j"
    and same: "truthy (lf_boid r)" "lf_boid (fills l ! j) = lf_boid r"
    and tag: "lf_tag r = rid \<longrightarrow> lf_tag (fills l ! j) = rid"
  shows "fills l ! j \<in> set (r # rs) \<and> j \<in> taken l'
    \<and> (\<forall>f \<in> set (r # rs). \<exists>i. candidate l d s side i \<and> f = fills l ! i)"
proof -
  let ?a = "take_avail l d (norm_sym (Some s)) side"
  let ?c = "take_chosen (take_pool ?a rid)"
  have rows: "r # rs = map snd ?c" and l': "l' = mark_taken l ?c"
    using take_fills_Some [OF t] by auto
  obtain i cs where ch: "?c = (i, r) # cs" using rows by (cases ?c) auto
  have boid: "?c = filter (\<lambda>(k, f). lf_boid f = lf_boid r) (take_pool ?a rid)"
    using ch same(1) by (rule take_chosen_boid)
  have "(i, r) \<in> set (take_pool ?a rid)"
    using ch boid by (metis filter_is_subset list.set_intros(1) subsetD)
  moreover have "(j, fills l ! j) \<in> set ?a" using c by (simp add: in_take_avail)
  ultimately have "(j, fills l ! j) \<in> set (take_pool ?a rid)"
    using tag by (rule take_pool_member)
  then have j: "(j, fills l ! j) \<in> set ?c" using boid same(2) by auto
  have "\<exists>k. candidate l d s side k \<and> f = fills l ! k" if "f \<in> set (r # rs)" for f
    using that set_take_chosen [of ?a rid] by (auto simp: rows in_take_avail dest!: subsetD)
  with j show ?thesis by (force simp: rows l' mark_taken_def)
qed

text \<open>A buy filled in two executions of order \<open>b1\<close>; the order asks once and gets both rows.\<close>

theorem take_whole_order_witness:
  "\<exists>l r rs l'. take_fills l 10 ''tqqq'' (Some ''r'') (Some 1) = (Some (r # rs), l')
     \<and> length (r # rs) = 2 \<and> 1 \<in> taken l'"
proof -
  let ?f = "\<lambda>q t. mk_fill 10 t (Some ''TQQQ'') q 50 0 (Some ''r'') (Some ''b1'')"
  let ?l = "mk_ledger [?f 3 100, ?f 4 200] {} (Some 1) None"
  have "norm_sym (Some ''tqqq'') = ''TQQQ''" "norm_sym (Some ''TQQQ'') = ''TQQQ''" by code_simp+
  note ev = this take_fills_def mk_ledger_def mk_fill_def unreconciled_def take_avail_def
    untaken_def take_pool_def take_chosen_def mark_taken_def truthy_def Let_def candidate_def
  have t: "take_fills ?l 10 ''tqqq'' (Some ''r'') (Some 1)
      = (Some (?f 3 100 # [?f 4 200]), mark_taken ?l [(0, ?f 3 100), (1, ?f 4 200)])"
    by (simp add: ev)
  have "fills ?l ! 1 \<in> set (?f 3 100 # [?f 4 200])
      \<and> 1 \<in> taken (mark_taken ?l [(0, ?f 3 100), (1, ?f 4 200)])
      \<and> (\<forall>f \<in> set (?f 3 100 # [?f 4 200]).
          \<exists>i. candidate ?l 10 ''tqqq'' (Some 1) i \<and> f = fills ?l ! i)"
    using t by (rule take_whole_order) (simp_all add: ev)
  with t show ?thesis by fastforce
qed

text \<open>A warm engine never concludes "no fill" on a live day: the capped view answers as the
  ledger does, except that on days from \<open>live_from\<close> on "no fill" becomes "unknown"; and it takes
  exactly the rows the ledger would.\<close>

theorem capped_take_live:
  "fst (capped_take l live d s rid side) =
     (if live \<le> d \<and> fst (take_fills l d s rid side) = Some [] then None
      else fst (take_fills l d s rid side))
   \<and> snd (capped_take l live d s rid side) = snd (take_fills l d s rid side)
   \<and> \<not> (live \<le> d \<and> fst (capped_take l live d s rid side) = Some [])"
  by (auto simp: capped_take_def Let_def split_beta)

end
