(* ===== verification/Calendar.thy ===== *)
theory Calendar
  imports PyBase
begin

text \<open>
  The US equity calendar of \<open>dqengine/runtime/core/data.py\<close>.  A \<open>date\<close> is its ordinal; the
  conversions between ordinals and year, month, day are CPython's (\<open>datetime._ymd2ord\<close> and
  \<open>_ord2ymd\<close>), proved to be inverse.  On top of them the half-days, the holidays, the
  session close and the walk to the next scheduled session, which is shown to end.
\<close>

section \<open>Dates\<close>

definition leap :: "int \<Rightarrow> bool" where
  "leap y \<longleftrightarrow> y mod 4 = 0 \<and> (y mod 100 \<noteq> 0 \<or> y mod 400 = 0)"

definition days_before_year :: "int \<Rightarrow> int" where
  "days_before_year y = (let p = y - 1 in p * 365 + p div 4 - p div 100 + p div 400)"

definition days_before_month :: "int \<Rightarrow> int \<Rightarrow> int" where
  "days_before_month y m =
     [0, 31, 59, 90, 120, 151, 181, 212, 243, 273, 304, 334] ! nat (m - 1)
     + (if 2 < m \<and> leap y then 1 else 0)"

definition days_in_month :: "int \<Rightarrow> int \<Rightarrow> int" where
  "days_in_month y m =
     (if m = 2 \<and> leap y then 29
      else [31, 28, 31, 30, 31, 30, 31, 31, 30, 31, 30, 31] ! nat (m - 1))"

definition mk_date :: "int \<Rightarrow> int \<Rightarrow> int \<Rightarrow> day" where
  "mk_date y m d = days_before_year y + days_before_month y m + d"

text \<open>The month and day from the year and the day's place in it (counted from 0).\<close>

definition ymd_in_year :: "int \<Rightarrow> int \<Rightarrow> int \<times> int \<times> int" where
  "ymd_in_year y r =
     (let m = (r + 50) div 32
      in if r < days_before_month y m
         then (y, m - 1, r - days_before_month y (m - 1) + 1)
         else (y, m, r - days_before_month y m + 1))"

definition ord2ymd :: "day \<Rightarrow> int \<times> int \<times> int" where
  "ord2ymd n =
     (let n0 = n - 1;
          n400 = n0 div 146097; r0 = n0 mod 146097;
          n100 = r0 div 36524; r1 = r0 mod 36524;
          n4 = r1 div 1461; r2 = r1 mod 1461;
          n1 = r2 div 365; r3 = r2 mod 365;
          y = n400 * 400 + 1 + n100 * 100 + n4 * 4 + n1
      in if n1 = 4 \<or> n100 = 4 then (y - 1, 12, 31)
         else ymd_in_year y r3)"

definition year_of :: "day \<Rightarrow> int" where
  "year_of n = fst (ord2ymd n)"

definition month_of :: "day \<Rightarrow> int" where
  "month_of n = fst (snd (ord2ymd n))"

definition weekday :: "day \<Rightarrow> int" where
  "weekday n = (n + 6) mod 7"

lemma days_before_year_split:
  assumes "0 \<le> b" "b < 4" "0 \<le> c" "c < 25" "0 \<le> e" "e < 4"
  shows "days_before_year (400 * a + 100 * b + 4 * c + e + 1)
    = 146097 * a + 36524 * b + 1461 * c + 365 * e"
proof -
  let ?p = "400 * a + 100 * b + 4 * c + e"
  have p: "?p = e + 4 * (100 * a + 25 * b + c)" "?p = (4 * c + e) + 100 * (4 * a + b)"
    "?p = (100 * b + 4 * c + e) + 400 * a" by simp_all
  have "?p div 4 = 100 * a + 25 * b + c"
    unfolding p(1) using assms(5,6) by (subst div_mult_self2) auto
  moreover have "?p div 100 = 4 * a + b"
    unfolding p(2) using assms(3-6) by (subst div_mult_self2) auto
  moreover have "?p div 400 = a"
    unfolding p(3) using assms by (subst div_mult_self2) auto
  ultimately show ?thesis by (simp add: days_before_year_def Let_def)
qed

lemma div_pred_diff: "0 < k \<Longrightarrow> y div k - (y - 1) div k = (if y mod k = 0 then 1 else (0::int))"
proof -
  assume k: "0 < k"
  have y: "y = k * (y div k) + y mod k" "0 \<le> y mod k" "y mod k < k" using k by auto
  show ?thesis
  proof (cases "y mod k = 0")
    case True
    with y have "y - 1 = k * (y div k - 1) + (k - 1)" by (simp add: algebra_simps)
    then have "(y - 1) div k = y div k - 1" by (rule int_div_pos_eq) (use k in auto)
    with True show ?thesis by simp
  next
    case False
    with y have "y - 1 = k * (y div k) + (y mod k - 1)" "0 \<le> y mod k - 1" by linarith+
    then have "(y - 1) div k = y div k" by (rule int_div_pos_eq) (use y in auto)
    with False show ?thesis by simp
  qed
qed

lemma days_before_year_step:
  "days_before_year (y + 1) = days_before_year y + (if leap y then 366 else 365)"
proof -
  have d: "y div 4 - (y - 1) div 4 = (if y mod 4 = 0 then 1 else 0)"
    "y div 100 - (y - 1) div 100 = (if y mod 100 = 0 then 1 else 0)"
    "y div 400 - (y - 1) div 400 = (if y mod 400 = 0 then 1 else 0)"
    by (rule div_pred_diff, simp)+
  have m: "y mod 400 = 0 \<Longrightarrow> y mod 100 = 0" "y mod 100 = 0 \<Longrightarrow> y mod 4 = 0"
    using dvd_trans [of 100 400 y] dvd_trans [of 4 100 y]
    by (simp_all only: mod_0_imp_dvd dvd_imp_mod_0, simp_all)
  have gen: "\<And>a b c a' b' c' :: int. (y * 365 + a - b + c) - ((y - 1) * 365 + a' - b' + c')
      = 365 + (a - a') - (b - b') + (c - c')"
    by simp
  have "days_before_year (y + 1) - days_before_year y
      = 365 + (y div 4 - (y - 1) div 4) - (y div 100 - (y - 1) div 100)
        + (y div 400 - (y - 1) div 400)"
    by (simp only: days_before_year_def Let_def add_diff_cancel_right' gen)
  also have "\<dots> = (if leap y then 366 else 365)"
    unfolding d leap_def
    using m by (cases "y mod 4 = 0"; cases "y mod 100 = 0"; cases "y mod 400 = 0") (simp_all only:, simp_all)
  finally have "days_before_year (y + 1) = (if leap y then 366 else 365) + days_before_year y"
    by (simp only: diff_eq_eq)
  then show ?thesis by (simp only: add.commute)
qed

lemma leap_century:
  assumes "0 \<le> c" "c < 25" "c = 24 \<Longrightarrow> b = 3"
  shows "leap (400 * a + 100 * b + 4 * c + 4)"
proof (cases "c = 24")
  case True
  then have "400 * a + 100 * b + 4 * c + 4 = 400 * (a + 1)" using assms(3) by simp
  then show ?thesis by (simp only: leap_def) simp
next
  case False
  have p: "400 * a + 100 * b + 4 * c + 4 = (4 * c + 4) + 100 * (4 * a + b)" by simp
  have "((4 * c + 4) + 100 * (4 * a + b)) mod 100 = 4 * c + 4"
    unfolding mod_mult_self2 using False assms(1,2) by simp
  moreover have "(400 * a + 100 * b + 4 * c + 4) mod 4 = (4 * (100 * a + 25 * b + c + 1)) mod 4"
    by (rule arg_cong [where f = "\<lambda>z. z mod 4"]) simp
  ultimately show ?thesis using assms(1) by (simp only: leap_def p [symmetric]) simp
qed

text \<open>\<open>_ord2ymd\<close> finds the year that holds the day.\<close>

lemma fst_ymd_in_year [simp]: "fst (ymd_in_year y r) = y"
  by (simp add: ymd_in_year_def Let_def)

lemma ord2ymd_bounds:
  "days_before_year (year_of n) < n \<and> n \<le> days_before_year (year_of n + 1)
   \<and> ord2ymd n =
      (let r = n - 1 - days_before_year (year_of n)
       in if r = 365 then (year_of n, 12, 31) else ymd_in_year (year_of n) r)"
proof -
  define a where "a = (n - 1) div 146097"
  define r0 where "r0 = (n - 1) mod 146097"
  define b where "b = r0 div 36524"
  define r1 where "r1 = r0 mod 36524"
  define c where "c = r1 div 1461"
  define r2 where "r2 = r1 mod 1461"
  define e where "e = r2 div 365"
  define r3 where "r3 = r2 mod 365"
  have n: "n - 1 = 146097 * a + r0" "0 \<le> r0" "r0 < 146097"
    by (simp_all add: a_def r0_def)
  have r0: "r0 = 36524 * b + r1" "0 \<le> r1" "r1 < 36524"
    by (simp_all add: b_def r1_def)
  have r1: "r1 = 1461 * c + r2" "0 \<le> r2" "r2 < 1461"
    by (simp_all add: c_def r2_def)
  have r2: "r2 = 365 * e + r3" "0 \<le> r3" "r3 < 365"
    by (simp_all add: e_def r3_def)
  have b: "0 \<le> b" "b \<le> 4" using n(2,3) r0 by linarith+
  have c: "0 \<le> c" "c < 25" using r0(2,3) r1 by linarith+
  have e: "0 \<le> e" "e \<le> 4" using r1(2,3) r2 by linarith+
  note bs = b c e
  let ?y = "400 * a + 100 * b + 4 * c + e + 1"
  have oy: "ord2ymd n = (if e = 4 \<or> b = 4 then (?y - 1, 12, 31) else ymd_in_year ?y r3)"
    unfolding ord2ymd_def Let_def
    unfolding a_def [symmetric] r0_def [symmetric]
    unfolding b_def [symmetric] r1_def [symmetric]
    unfolding c_def [symmetric] r2_def [symmetric]
    unfolding e_def [symmetric] r3_def [symmetric]
    by (simp add: ac_simps)
  then have yo: "year_of n = (if e = 4 \<or> b = 4 then ?y - 1 else ?y)"
    by (simp add: year_of_def)
  show ?thesis
  proof (cases "e = 4 \<or> b = 4")
    case False
    then have d: "days_before_year ?y = n - 1 - r3"
      using days_before_year_split [of b c e a] bs n r0 r1 r2 by simp
    then show ?thesis
      using yo oy False r2 days_before_year_step [of ?y] by (auto simp: Let_def split: if_splits)
  next
    case True
    show ?thesis
    proof (cases "b = 4")
      case True
      then have z: "r1 = 0" "c = 0" "e = 0" using n r0 r1 r2 bs by linarith+
      have "days_before_year (400 * a + 400) = n - 366"
        using days_before_year_split [of 3 24 3 a] True z n r0 by (simp add: add.commute)
      moreover have "leap (400 * a + 400)" by (simp add: leap_def)
      ultimately show ?thesis
        using yo oy True z days_before_year_step [of "400 * a + 400"] by (simp add: add_ac)
    next
      case False
      then have e4: "e = 4" and r3: "r3 = 0" using True r2 r1 by linarith+
      have d: "days_before_year (400 * a + 100 * b + 4 * c + 3 + 1) = n - 366"
        using days_before_year_split [of b c 3 a] False bs e4 r3 n r0 r1 r2 by simp
      have "c = 24 \<Longrightarrow> b = 3" using False bs e4 r3 r0 r1 r2 n by linarith
      then have "leap (400 * a + 100 * b + 4 * c + 4)"
        using bs False by (intro leap_century) auto
      then show ?thesis
        using yo oy True e4 d days_before_year_step [of "400 * a + 100 * b + 4 * c + 4"]
        by (simp add: add_ac)
    qed
  qed
qed

lemma year_of_bounds:
  "days_before_year (year_of n) < n \<and> n \<le> days_before_year (year_of n + 1)"
  using ord2ymd_bounds [of n] by simp

lemma days_before_year_less: "y < z \<Longrightarrow> days_before_year y + 365 * (z - y) \<le> days_before_year z"
proof (induction "nat (z - y)" arbitrary: z)
  case (Suc k)
  have step: "days_before_year (z - 1) + 365 \<le> days_before_year z"
    using days_before_year_step [of "z - 1"] by simp
  show ?case
  proof (cases "y = z - 1")
    case True
    with step show ?thesis by simp
  next
    case False
    with Suc have "days_before_year y + 365 * (z - 1 - y) \<le> days_before_year (z - 1)"
      by (intro Suc.hyps(1)) auto
    with step show ?thesis by (simp add: algebra_simps)
  qed
qed simp

lemma days_before_year_mono: "y \<le> z \<Longrightarrow> days_before_year y \<le> days_before_year z"
  using days_before_year_less [of y z] by (cases "y = z") auto

lemma year_of_eqI:
  assumes "days_before_year y < n" and "n \<le> days_before_year (y + 1)"
  shows "year_of n = y"
proof -
  note b = year_of_bounds [of n]
  have "\<not> year_of n < y"
    using days_before_year_mono [of "year_of n + 1" y] b assms by linarith
  moreover have "\<not> y < year_of n"
    using days_before_year_mono [of "y + 1" "year_of n"] b assms by linarith
  ultimately show ?thesis by linarith
qed

lemma year_of_mono: "n \<le> n' \<Longrightarrow> year_of n \<le> year_of n'"
  using days_before_year_mono [of "year_of n' + 1" "year_of n"] year_of_bounds [of n]
    year_of_bounds [of n'] by linarith

lemma year_of_window: "n \<le> n' \<Longrightarrow> n' \<le> n + 365 \<Longrightarrow> year_of n' = year_of n \<or> year_of n' = year_of n + 1"
proof -
  assume le: "n \<le> n'" "n' \<le> n + 365"
  have "\<not> year_of n + 2 \<le> year_of n'"
  proof
    assume "year_of n + 2 \<le> year_of n'"
    then have "days_before_year (year_of n + 1) + 365 \<le> days_before_year (year_of n')"
      using days_before_year_less [of "year_of n + 1" "year_of n + 2"]
        days_before_year_mono [of "year_of n + 2" "year_of n'"] by simp
    with le year_of_bounds [of n] year_of_bounds [of n'] show False by linarith
  qed
  with year_of_mono [OF le(1)] show ?thesis by linarith
qed

lemma month_cases:
  assumes "1 \<le> m" "m \<le> (12::int)"
  obtains "m = 1" | "m = 2" | "m = 3" | "m = 4" | "m = 5" | "m = 6" | "m = 7" | "m = 8" | "m = 9"
    | "m = 10" | "m = 11" | "m = 12"
proof -
  have "m = 1 \<or> m = 2 \<or> m = 3 \<or> m = 4 \<or> m = 5 \<or> m = 6 \<or> m = 7 \<or> m = 8 \<or> m = 9
    \<or> m = 10 \<or> m = 11 \<or> m = 12"
    using assms by presburger
  then show thesis using that by blast
qed

lemma div_in_block: "32 * q \<le> x \<Longrightarrow> x < 32 * q + 32 \<Longrightarrow> x div 32 = (q::int)"
  by (rule int_div_pos_eq [of _ _ _ "x - 32 * q"]) auto

lemma ymd_in_year_month:
  assumes m: "1 \<le> m" "m \<le> 12" and d: "1 \<le> d" "d \<le> days_in_month y m"
    and r: "r = days_before_month y m + d - 1"
  shows "(if r = 365 then (y, 12, 31) else ymd_in_year y r) = (y, m, d)"
proof -
  define lp where "lp = (if leap y then 1 else 0 :: int)"
  have lp: "0 \<le> lp" "lp \<le> 1" by (simp_all add: lp_def)
  have dbm: "days_before_month y k = [0, 31, 59, 90, 120, 151, 181, 212, 243, 273, 304, 334]
      ! nat (k - 1) + (if 2 < k then lp else 0)" for k
    by (simp add: days_before_month_def lp_def)
  have dim: "days_in_month y k = [31, 28, 31, 30, 31, 30, 31, 31, 30, 31, 30, 31] ! nat (k - 1)
      + (if k = 2 then lp else 0)" for k
    by (simp add: days_in_month_def lp_def)
  have q: "(r + 50) div 32 = (if 32 * m + 32 \<le> r + 50 then m + 1 else m)"
    by (cases rule: month_cases [OF m]; use d r lp in \<open>simp add: dbm dim\<close>; arith)
  show ?thesis
    unfolding ymd_in_year_def q Let_def
    by (cases rule: month_cases [OF m]; use d r lp in \<open>simp add: dbm dim\<close>)
qed

section \<open>Half-days and holidays\<close>

definition nth_weekday :: "int \<Rightarrow> int \<Rightarrow> int \<Rightarrow> int \<Rightarrow> day" where
  "nth_weekday y m wd n =
     (let d = mk_date y m 1; offset = (wd - weekday d) mod 7 in d + (offset + 7 * (n - 1)))"

definition is_early_close :: "day \<Rightarrow> bool" where
  "is_early_close d =
     (let y = year_of d; thanksgiving = nth_weekday y 11 3 4;
          xmas_eve = mk_date y 12 24; july4 = mk_date y 7 4
      in if d = thanksgiving + 1 then True
         else if d = xmas_eve \<and> weekday xmas_eve < 5 then True
         else if d = mk_date y 7 3 \<and> weekday july4 < 5 then True
         else False)"

definition REG_OPEN_MS :: ms where
  "REG_OPEN_MS = (9 * 3600 + 30 * 60) * 1000"

definition REG_CLOSE_MS :: ms where
  "REG_CLOSE_MS = 16 * 3600 * 1000"

definition EARLY_CLOSE_MS :: ms where
  "EARLY_CLOSE_MS = 13 * 3600 * 1000"

definition close_time_ms :: "day \<Rightarrow> ms" where
  "close_time_ms d = (if is_early_close d then EARLY_CLOSE_MS else REG_CLOSE_MS)"

definition easter :: "int \<Rightarrow> day" where
  "easter y =
     (let a = y mod 19; b = y div 100; c = y mod 100; d = b div 4; e = b mod 4;
          f = (b + 8) div 25; g = (b - f + 1) div 3;
          h = (19 * a + b - d - g + 15) mod 30;
          i = c div 4; k = c mod 4;
          l = (32 + 2 * e + 2 * i - h - k) mod 7;
          m = (a + 11 * h + 22 * l) div 451;
          t = h + l - 7 * m + 114
      in mk_date y (t div 31) (t mod 31 + 1))"

definition ONE_OFF_CLOSURES :: "day list" where
  "ONE_OFF_CLOSURES = [mk_date 2025 1 9]"

definition observed :: "day \<Rightarrow> day" where
  "observed d = (if weekday d = 5 then d - 1 else if weekday d = 6 then d + 1 else d)"

definition fixed_holidays :: "int \<Rightarrow> day list" where
  "fixed_holidays y =
     [observed (mk_date y 7 4), observed (mk_date y 12 25)]
     @ (if 2022 \<le> y then [observed (mk_date y 6 19)] else [])
     @ (let ny = mk_date y 1 1 in if weekday ny \<noteq> 5 then [observed ny] else [])"

definition floating_holidays :: "int \<Rightarrow> day list" where
  "floating_holidays y =
     (let sep = mk_date y 9 1; mem = mk_date y 5 31 in
      [nth_weekday y 1 0 3, nth_weekday y 2 0 3, easter y - 2,
       sep + (0 - weekday sep) mod 7, nth_weekday y 11 3 4,
       mem - (weekday mem - 0) mod 7])"

definition is_market_holiday :: "day \<Rightarrow> bool" where
  "is_market_holiday d =
     (if 5 \<le> weekday d then False
      else if d \<in> set ONE_OFF_CLOSURES then True
      else let y = year_of d
           in if d \<in> set (fixed_holidays y) then True
              else d \<in> set (floating_holidays y))"

section \<open>Sessions\<close>

definition is_session :: "day \<Rightarrow> bool" where
  "is_session d \<longleftrightarrow> \<not> (5 \<le> weekday d \<or> is_market_holiday d)"

text \<open>The loop of \<open>next_scheduled_session\<close> with a bound on its steps; \<open>next_session_found\<close> shows that
  the bound of forty is never reached.\<close>

fun walk_to_session :: "nat \<Rightarrow> day \<Rightarrow> day option" where
  "walk_to_session 0 x = None"
| "walk_to_session (Suc k) x = (if is_session x then Some x else walk_to_session k (x + 1))"

definition next_scheduled_session :: "day \<Rightarrow> day option" where
  "next_scheduled_session d = walk_to_session 40 (d + 1)"

definition project_sessions :: "day \<Rightarrow> day \<Rightarrow> day list" where
  "project_sessions after through =
     filter (\<lambda>d. weekday d < 5 \<and> \<not> is_market_holiday d) [after + 1..through]"

section \<open>Dates survive the round trip\<close>

lemma mk_date_in_year:
  assumes m: "1 \<le> m" "m \<le> 12" and d: "1 \<le> d" "d \<le> days_in_month y m"
  shows "days_before_year y < mk_date y m d \<and> mk_date y m d \<le> days_before_year (y + 1)"
  by (cases rule: month_cases [OF m];
      use d days_before_year_step [of y] in
        \<open>auto simp: mk_date_def days_before_month_def days_in_month_def split: if_splits\<close>)

text \<open>The calendar's day numbers are faithful: reading the year, month and day back from the
  number of a valid date gives that date.\<close>

theorem ymd_roundtrip:
  assumes m: "1 \<le> m" "m \<le> 12" and d: "1 \<le> d" "d \<le> days_in_month y m"
  shows "ord2ymd (mk_date y m d) = (y, m, d)"
proof -
  have y: "year_of (mk_date y m d) = y"
    using mk_date_in_year [OF m d] by (intro year_of_eqI) auto
  have r: "mk_date y m d - 1 - days_before_year y = days_before_month y m + d - 1"
    by (simp add: mk_date_def)
  show ?thesis
    using ord2ymd_bounds [of "mk_date y m d"] ymd_in_year_month [OF m d r]
    by (simp only: y Let_def)
qed

theorem ymd_roundtrip_witness: "ord2ymd (mk_date 2024 2 29) = (2024, 2, 29)"
  by (rule ymd_roundtrip) (simp_all add: days_in_month_def leap_def)

section \<open>The next session is found\<close>

text \<open>Forty days hold five full weeks, hence twenty-five weekdays, and lie in two years, which have
  at most twenty-one closures between them.\<close>

definition five_weeks :: "int list" where
  "five_weeks = [0, 1, 2, 3, 4, 7, 8, 9, 10, 11, 14, 15, 16, 17, 18, 21, 22, 23, 24, 25, 28, 29, 30, 31, 32]"

lemma weekday_add: "weekday (m + k) = (weekday m + k) mod 7"
proof -
  have "m + k + 6 = (m + 6) + k" by simp
  then show ?thesis unfolding weekday_def by (simp only: mod_add_left_eq)
qed

lemma five_weeks_weekdays: "weekday m = 0 \<Longrightarrow> k \<in> set five_weeks \<Longrightarrow> weekday (m + k) < 5"
  by (auto simp: weekday_add five_weeks_def)

lemma card_five_weeks: "card ((\<lambda>k. m + k) ` set five_weeks) = 25"
proof -
  have "card ((\<lambda>k. m + k) ` set five_weeks) = card (set five_weeks)"
    by (rule card_image) simp
  also have "\<dots> = 25" by (simp add: five_weeks_def)
  finally show ?thesis .
qed

lemma card_holidays:
  "card (set ONE_OFF_CLOSURES \<union> (set (fixed_holidays y) \<union> set (floating_holidays y))
     \<union> (set (fixed_holidays z) \<union> set (floating_holidays z))) \<le> 21"
proof -
  have l: "length (fixed_holidays y) \<le> 4" "length (floating_holidays y) = 6" for y
    by (simp_all add: fixed_holidays_def floating_holidays_def Let_def)
  let ?all = "ONE_OFF_CLOSURES @ fixed_holidays y @ floating_holidays y @ fixed_holidays z @ floating_holidays z"
  have "card (set ?all) \<le> length ?all" by (rule card_length)
  also have "\<dots> \<le> 21"
    using l [of y] l [of z] by (simp add: ONE_OFF_CLOSURES_def)
  finally show ?thesis by (simp add: Un_assoc)
qed

lemma session_within_forty: "\<exists>x. d < x \<and> x \<le> d + 40 \<and> is_session x"
proof (rule ccontr)
  assume none: "\<nexists>x. d < x \<and> x \<le> d + 40 \<and> is_session x"
  define m where "m = d + 1 + (- weekday (d + 1)) mod 7"
  have m: "d < m" "m \<le> d + 7"
    using pos_mod_bound [of 7 "- weekday (d + 1)"] pos_mod_sign [of 7 "- weekday (d + 1)"]
    by (auto simp: m_def)
  have "weekday m = 0"
    unfolding m_def weekday_add by (simp add: mod_add_right_eq)
  note wd = five_weeks_weekdays [OF this]
  let ?y = "year_of (d + 1)"
  let ?H = "set ONE_OFF_CLOSURES \<union> (set (fixed_holidays ?y) \<union> set (floating_holidays ?y))
    \<union> (set (fixed_holidays (?y + 1)) \<union> set (floating_holidays (?y + 1)))"
  have "(\<lambda>k. m + k) ` set five_weeks \<subseteq> ?H"
  proof
    fix x
    assume "x \<in> (\<lambda>k. m + k) ` set five_weeks"
    then obtain k where k: "k \<in> set five_weeks" "x = m + k" by auto
    then have "0 \<le> k" "k \<le> 32" by (auto simp: five_weeks_def)
    with m k have r: "d < x" "x \<le> d + 40" by auto
    have w: "weekday x < 5" using wd k by simp
    with none r have hol: "is_market_holiday x" by (auto simp: is_session_def)
    have "year_of x = ?y \<or> year_of x = ?y + 1"
      using year_of_window [of "d + 1" x] r by simp
    with hol w show "x \<in> ?H"
      by (auto simp: is_market_holiday_def Let_def split: if_splits)
  qed
  then have "card ((\<lambda>k. m + k) ` set five_weeks) \<le> card ?H"
    by (intro card_mono) auto
  with card_holidays [of ?y "?y + 1"] show False by (simp add: card_five_weeks)
qed

lemma walk_to_session_finds:
  "x \<le> z \<Longrightarrow> z < x + int k \<Longrightarrow> is_session z \<Longrightarrow>
    \<exists>w. walk_to_session k x = Some w \<and> x \<le> w \<and> w \<le> z \<and> is_session w
        \<and> (\<forall>v. x \<le> v \<and> v < w \<longrightarrow> \<not> is_session v)"
proof (induction k arbitrary: x)
  case (Suc k)
  show ?case
  proof (cases "is_session x")
    case True
    with Suc.prems show ?thesis by auto
  next
    case False
    then have "x \<noteq> z" using Suc.prems(3) by auto
    with Suc.prems have "x + 1 \<le> z" "z < x + 1 + int k" by auto
    from Suc.IH [OF this Suc.prems(3)] obtain w where
      "walk_to_session k (x + 1) = Some w" "x + 1 \<le> w" "w \<le> z" "is_session w"
      "\<forall>v. x + 1 \<le> v \<and> v < w \<longrightarrow> \<not> is_session v" by blast
    with False show ?thesis
      by (auto simp: int_one_le_iff_zero_less) (metis add1_zle_eq order_le_less)
  qed
qed simp

lemma next_session_spec:
  "\<exists>x. next_scheduled_session d = Some x \<and> d < x \<and> x \<le> d + 40 \<and> is_session x
     \<and> \<not> (\<exists>v. d < v \<and> v < x \<and> is_session v)"
proof -
  obtain z where z: "d < z" "z \<le> d + 40" "is_session z"
    using session_within_forty by blast
  have "d + 1 \<le> z" "z < d + 1 + int 40" using z by auto
  from walk_to_session_finds [OF this z(3)] obtain x where
    x: "next_scheduled_session d = Some x" "d + 1 \<le> x" "x \<le> z" "is_session x"
      "\<forall>v. d + 1 \<le> v \<and> v < x \<longrightarrow> \<not> is_session v"
    unfolding next_scheduled_session_def by blast
  with z show ?thesis by (intro exI [of _ x]) auto
qed

text \<open>C3: The walk to the next session always ends: whatever the day, \<open>next_scheduled_session\<close> returns
  the first later day that is neither a weekend nor a closure, at most forty days ahead, so the
  bound on the model's loop is never what stops it.\<close>

theorem next_session_found:
  "\<exists>x. next_scheduled_session d = Some x \<and> d < x \<and> x \<le> d + 40 \<and> is_session x
     \<and> \<not> (\<exists>v. d < v \<and> v < x \<and> is_session v)"
  by (rule next_session_spec)


lemma project_sessions_spec:
  "x \<in> set (project_sessions a b) \<longleftrightarrow> a < x \<and> x \<le> b \<and> is_session x"
  "sorted (project_sessions a b)" "distinct (project_sessions a b)"
  by (auto simp: project_sessions_def is_session_def intro: sorted_wrt_filter)

end
