(* ===== verification/Sleeve.thy ===== *)
theory Sleeve
  imports PyBase
begin

text \<open>
  The sleeve of \<open>dqengine/runtime/core/portfolio.py\<close>: cash, positions, cost basis, the fill and
  order logs.  A \<open>sleeve\<close> record holds the fields of \<open>Sleeve.__init__\<close> that any operation reads
  or writes (\<open>targets\<close> and \<open>entries\<close> are never written in this code base); \<open>apply_fill\<close> is the
  only operation that moves cash and shares.  Arithmetic is binary64.
\<close>

section \<open>Data\<close>

record fill_rec =
  fr_day :: day
  fr_time :: ms
  fr_sym :: sym
  fr_qty :: int
  fr_price :: pyfloat
  fr_tag :: string
  fr_fees :: pyfloat
  fr_model_price :: "pyfloat option"
  fr_confirmed :: bool
  fr_kind :: string

record order_rec =
  or_day :: day
  or_time :: ms
  or_sym :: sym
  or_qty :: int
  or_kind :: string
  or_tag :: string
  or_status :: string
  or_price :: "pyfloat option"

text \<open>\<open>margin_provider\<close> is the callable a caller may install.\<close>

record sleeve =
  cash :: pyfloat
  margin_provider :: "(unit \<Rightarrow> pyfloat) option"
  fixed_margin :: pyfloat
  entry_price_mode :: string
  qty :: "(sym, int) dict"
  entry_price :: "(sym, pyfloat) dict"
  entry_day :: "(sym, day) dict"
  avg_cost :: "(sym, pyfloat) dict"
  peak_close :: "(sym, pyfloat) dict"
  fills_log :: "fill_rec list"
  orders_log :: "order_rec list"

definition new_sleeve :: "pyfloat \<Rightarrow> pyfloat \<Rightarrow> string \<Rightarrow> sleeve" where
  "new_sleeve c m mode =
     \<lparr>cash = c, margin_provider = None, fixed_margin = m, entry_price_mode = mode, qty = [],
      entry_price = [], entry_day = [], avg_cost = [], peak_close = [], fills_log = [],
      orders_log = []\<rparr>"

section \<open>Valuation\<close>

text \<open>\<open>sum\<close> over the positions in dict order, from the integer 0: each product and each partial sum
  is rounded (CPython 3.11, the oldest version the package supports; from 3.12 on \<open>sum\<close> carries a
  compensation term).\<close>

definition position_value :: "sleeve \<Rightarrow> (sym, pyfloat) dict \<Rightarrow> pyfloat" where
  "position_value s prices =
     foldl (\<lambda>acc (k, q). if q \<noteq> 0 then fadd acc (fmul (fint q) (dget_or prices k 0)) else acc)
       0 (qty s)"

definition equity :: "sleeve \<Rightarrow> (sym, pyfloat) dict \<Rightarrow> pyfloat" where
  "equity s prices = fadd (cash s) (position_value s prices)"

definition margin_max :: "sleeve \<Rightarrow> pyfloat" where
  "margin_max s = (case margin_provider s of Some f \<Rightarrow> f () | None \<Rightarrow> fixed_margin s)"

definition set_margin_max :: "sleeve \<Rightarrow> pyfloat \<Rightarrow> sleeve" where
  "set_margin_max s v = s\<lparr>fixed_margin := v\<rparr>"

definition gross_exposure :: "sleeve \<Rightarrow> (sym, pyfloat) dict \<Rightarrow> pyfloat" where
  "gross_exposure s prices =
     foldl (\<lambda>acc (k, q). if q \<noteq> 0 then fadd acc (fmul (fint \<bar>q\<bar>) (dget_or prices k 0)) else acc)
       0 (qty s)"

definition buying_power :: "sleeve \<Rightarrow> (sym, pyfloat) dict \<Rightarrow> pyfloat" where
  "buying_power s prices = fsub (fmul (margin_max s) (equity s prices)) (gross_exposure s prices)"

definition invested :: "sleeve \<Rightarrow> sym \<Rightarrow> bool" where
  "invested s k \<longleftrightarrow> dget_or (qty s) k 0 \<noteq> 0"

section \<open>apply_fill\<close>

text \<open>The basis after a fill.  \<open>self.avg_cost[symbol]\<close> raises when the key is missing, and the
  division when the new position is 0; \<open>None\<close> leaves the dict alone.\<close>

definition blend ::
  "pyfloat option \<Rightarrow> int \<Rightarrow> pyfloat \<Rightarrow> int \<Rightarrow> int \<Rightarrow> pyfloat res" where
  "blend old prev price q new =
     (case old of
        None \<Rightarrow> Inl KeyError
      | Some a \<Rightarrow>
          if new = 0 then Inl ZeroDivisionError
          else Inr (fdiv (fadd (fmul a (fint prev)) (fmul price (fint q))) (fint new)))"

definition new_avg_cost ::
  "(sym, pyfloat) dict \<Rightarrow> sym \<Rightarrow> int \<Rightarrow> int \<Rightarrow> int \<Rightarrow> pyfloat \<Rightarrow> (sym, pyfloat) dict res" where
  "new_avg_cost d k prev q new price =
     (if 0 < q \<and> 0 \<le> prev
      then (if prev = 0 then Inr (dput d k price)
            else bind_res (blend (dget d k) prev price q new) (\<lambda>v. Inr (dput d k v)))
      else if q < 0 \<and> prev \<le> 0
      then (if prev = 0 then Inr (dput d k price)
            else bind_res (blend (dget d k) (- prev) price (- q) (- new)) (\<lambda>v. Inr (dput d k v)))
      else if new \<noteq> 0 \<and> (0 < prev) \<noteq> (0 < new)
      then Inr (dput d k price)
      else Inr d)"

definition apply_fill ::
  "sleeve \<Rightarrow> day \<Rightarrow> ms \<Rightarrow> sym \<Rightarrow> int \<Rightarrow> pyfloat \<Rightarrow> string \<Rightarrow> pyfloat \<Rightarrow> pyfloat option \<Rightarrow> bool
     \<Rightarrow> string \<Rightarrow> sleeve res" where
  "apply_fill s d t k q price tag fees model_price confirmed kind =
     (let prev = dget_or (qty s) k 0;
          new = prev + q;
          s1 = s\<lparr>cash := fsub (cash s) (fadd (fmul (fint q) price) fees),
                 qty := dput (qty s) k new,
                 fills_log := fills_log s @
                   [\<lparr>fr_day = d, fr_time = t, fr_sym = k, fr_qty = q, fr_price = price,
                     fr_tag = tag, fr_fees = fees, fr_model_price = model_price,
                     fr_confirmed = confirmed, fr_kind = kind\<rparr>]\<rparr>
      in bind_res (new_avg_cost (avg_cost s) k prev q new price) (\<lambda>ac.
         let s2 = s1\<lparr>avg_cost := ac\<rparr>;
             s3 = (if 0 < q
                   then s2\<lparr>entry_price := dput (entry_price s2) k price,
                           entry_day := dput (entry_day s2) k d,
                           peak_close := dput (peak_close s2) k
                             (max (dget_or (peak_close s2) k 0) price)\<rparr>
                   else s2)
         in Inr (if new = 0
                 then s3\<lparr>entry_price := ddel (entry_price s3) k,
                         entry_day := ddel (entry_day s3) k,
                         avg_cost := ddel (avg_cost s3) k,
                         peak_close := ddel (peak_close s3) k\<rparr>
                 else s3)))"

definition get_entry_price :: "sleeve \<Rightarrow> sym \<Rightarrow> pyfloat option" where
  "get_entry_price s k =
     (if entry_price_mode s = ''avg_cost'' then dget (avg_cost s) k else dget (entry_price s) k)"

definition log_order :: "sleeve \<Rightarrow> order_rec \<Rightarrow> sleeve" where
  "log_order s r = s\<lparr>orders_log := orders_log s @ [r]\<rparr>"

section \<open>The books balance\<close>

abbreviation pos :: "sleeve \<Rightarrow> sym \<Rightarrow> int" where
  "pos s k \<equiv> dget_or (qty s) k 0"

text \<open>A basis exists exactly for open positions, entry fields only for open positions, and always
  for long ones.\<close>

definition sleeve_ok :: "sleeve \<Rightarrow> bool" where
  "sleeve_ok s \<longleftrightarrow>
     (\<forall>k. (dget (avg_cost s) k \<noteq> None) = (pos s k \<noteq> 0)
        \<and> (dget (entry_price s) k \<noteq> None \<longrightarrow> pos s k \<noteq> 0)
        \<and> (0 < pos s k \<longrightarrow> dget (entry_price s) k \<noteq> None)
        \<and> (dget (entry_day s) k = None) = (dget (entry_price s) k = None)
        \<and> (dget (peak_close s) k = None) = (dget (entry_price s) k = None))"

lemma sleeve_ok_new [simp]: "sleeve_ok (new_sleeve c m mode)"
  by (simp add: sleeve_ok_def new_sleeve_def dict_simps)

lemma new_avg_cost_total:
  assumes "(dget d k \<noteq> None) = (prev \<noteq> 0)"
  shows "\<exists>d'. new_avg_cost d k prev q (prev + q) price = Inr d'
    \<and> (\<forall>k'. k' \<noteq> k \<longrightarrow> dget d' k' = dget d k') \<and> (prev + q \<noteq> 0 \<longrightarrow> dget d' k \<noteq> None)"
  using assms by (auto simp: new_avg_cost_def blend_def dict_simps)

text \<open>What a fill writes, as one equation per field.\<close>

lemma apply_fill_fields:
  assumes "apply_fill s d t k q price tag fees mp cf kind = Inr s'"
  shows "qty s' = dput (qty s) k (pos s k + q)"
    and "cash s' = fsub (cash s) (fadd (fmul (fint q) price) fees)"
    and "orders_log s' = orders_log s"
    and "fills_log s' = fills_log s @ [\<lparr>fr_day = d, fr_time = t, fr_sym = k, fr_qty = q,
      fr_price = price, fr_tag = tag, fr_fees = fees, fr_model_price = mp, fr_confirmed = cf,
      fr_kind = kind\<rparr>]"
    and "margin_provider s' = margin_provider s" and "fixed_margin s' = fixed_margin s"
  using assms by (auto simp: apply_fill_def Let_def bind_res_Inr_iff)

lemma pos_apply_fill:
  "apply_fill s d t k q price tag fees mp cf kind = Inr s' \<Longrightarrow>
    pos s' k' = pos s k' + (if k' = k then q else 0)"
  by (auto dest!: apply_fill_fields(1) simp: dict_simps split: option.splits)

lemma apply_fill_ok:
  assumes ok: "sleeve_ok s"
  shows "\<exists>s'. apply_fill s d t k q price tag fees mp cf kind = Inr s' \<and> sleeve_ok s'"
proof -
  have "(dget (avg_cost s) k \<noteq> None) = (pos s k \<noteq> 0)"
    using ok by (simp add: sleeve_ok_def)
  from new_avg_cost_total [OF this, of q price] obtain d' where
    d': "new_avg_cost (avg_cost s) k (pos s k) q (pos s k + q) price = Inr d'"
      "\<And>k'. k' \<noteq> k \<Longrightarrow> dget d' k' = dget (avg_cost s) k'"
      "pos s k + q \<noteq> 0 \<Longrightarrow> dget d' k \<noteq> None" by blast
  then obtain s' where s': "apply_fill s d t k q price tag fees mp cf kind = Inr s'"
    by (simp add: apply_fill_def Let_def)
  have other: "dget (avg_cost s') k' = dget (avg_cost s) k'
      \<and> dget (entry_price s') k' = dget (entry_price s) k'
      \<and> dget (entry_day s') k' = dget (entry_day s) k'
      \<and> dget (peak_close s') k' = dget (peak_close s) k'" if "k' \<noteq> k" for k'
    using s' d'(1,2) that by (auto simp: apply_fill_def Let_def dict_simps split: if_splits)
  have here: "(dget (avg_cost s') k \<noteq> None) = (pos s k + q \<noteq> 0)
      \<and> dget (entry_price s') k = (if pos s k + q = 0 then None else if 0 < q then Some price
            else dget (entry_price s) k)
      \<and> dget (entry_day s') k = (if pos s k + q = 0 then None else if 0 < q then Some d
            else dget (entry_day s) k)
      \<and> dget (peak_close s') k = (if pos s k + q = 0 then None
            else if 0 < q then Some (max (dget_or (peak_close s) k 0) price)
            else dget (peak_close s) k)"
    using s' d'(1,3) by (auto simp: apply_fill_def Let_def dict_simps split: if_splits)
  have "sleeve_ok s'"
    unfolding sleeve_ok_def
  proof
    fix k'
    from ok have okk: "(dget (avg_cost s) k' \<noteq> None) = (pos s k' \<noteq> 0)"
      "dget (entry_price s) k' \<noteq> None \<longrightarrow> pos s k' \<noteq> 0"
      "0 < pos s k' \<longrightarrow> dget (entry_price s) k' \<noteq> None"
      "(dget (entry_day s) k' = None) = (dget (entry_price s) k' = None)"
      "(dget (peak_close s) k' = None) = (dget (entry_price s) k' = None)"
      by (simp_all add: sleeve_ok_def)
    show "(dget (avg_cost s') k' \<noteq> None) = (pos s' k' \<noteq> 0)
        \<and> (dget (entry_price s') k' \<noteq> None \<longrightarrow> pos s' k' \<noteq> 0)
        \<and> (0 < pos s' k' \<longrightarrow> dget (entry_price s') k' \<noteq> None)
        \<and> (dget (entry_day s') k' = None) = (dget (entry_price s') k' = None)
        \<and> (dget (peak_close s') k' = None) = (dget (entry_price s') k' = None)"
    proof (cases "k' = k")
      case True
      have p: "pos s' k = pos s k + q" using pos_apply_fill [OF s', of k] by simp
      show ?thesis unfolding True p using here okk [unfolded True] by auto
    next
      case False
      then have p: "pos s' k' = pos s k'" using pos_apply_fill [OF s', of k'] by simp
      show ?thesis unfolding p using other [OF False] okk by simp
    qed
  qed
  with s' show ?thesis by blast
qed

text \<open>A sequence of fills, each given by the record of its arguments.\<close>

definition apply_rec :: "sleeve \<Rightarrow> fill_rec \<Rightarrow> sleeve res" where
  "apply_rec s f = apply_fill s (fr_day f) (fr_time f) (fr_sym f) (fr_qty f) (fr_price f)
     (fr_tag f) (fr_fees f) (fr_model_price f) (fr_confirmed f) (fr_kind f)"

fun apply_recs :: "sleeve \<Rightarrow> fill_rec list \<Rightarrow> sleeve res" where
  "apply_recs s [] = Inr s"
| "apply_recs s (f # fs) = bind_res (apply_rec s f) (\<lambda>s'. apply_recs s' fs)"

definition shares :: "fill_rec list \<Rightarrow> sym \<Rightarrow> int" where
  "shares fs k = sum_list (map fr_qty (filter (\<lambda>f. fr_sym f = k) fs))"

lemma apply_recs_ok:
  "sleeve_ok s \<Longrightarrow> \<exists>s'. apply_recs s fs = Inr s' \<and> sleeve_ok s' \<and> fills_log s' = fills_log s @ fs
     \<and> (\<forall>k. pos s' k = pos s k + shares fs k)"
proof (induction fs arbitrary: s)
  case Nil
  then show ?case by (simp add: shares_def)
next
  case (Cons f fs)
  obtain s1 where s1: "apply_rec s f = Inr s1" "sleeve_ok s1"
    unfolding apply_rec_def using apply_fill_ok [OF Cons.prems] by blast
  obtain s' where s': "apply_recs s1 fs = Inr s'" "sleeve_ok s'"
    "fills_log s' = fills_log s1 @ fs" "\<forall>k. pos s' k = pos s1 k + shares fs k"
    using Cons.IH [OF s1(2)] by blast
  have "fills_log s1 = fills_log s @ [f]"
    using apply_fill_fields(4) [OF s1(1) [unfolded apply_rec_def]] by simp
  moreover have "pos s1 k = pos s k + (if k = fr_sym f then fr_qty f else 0)" for k
    by (rule pos_apply_fill [OF s1(1) [unfolded apply_rec_def]])
  ultimately show ?case using s1 s' by (auto simp: shares_def)
qed

text \<open>C4: The sleeve's books balance.  From an empty sleeve any sequence of fills, buys, sells,
  shorts and flips alike, is applied without an exception (no missing cost basis, no division by
  zero); every position is the sum of its logged fills; a cost basis exists exactly for the open
  positions, and an entry price for every long one and for no flat one.\<close>

theorem sleeve_books_balance:
  "\<exists>s. apply_recs (new_sleeve c m mode) fs = Inr s
     \<and> fills_log s = fs
     \<and> pos s k = shares fs k
     \<and> (if shares fs k = 0 then dget (avg_cost s) k = None \<and> dget (entry_price s) k = None
        else dget (avg_cost s) k \<noteq> None)
     \<and> (if 0 < shares fs k then dget (entry_price s) k \<noteq> None else True)"
proof -
  have z: "pos (new_sleeve c m mode) k = 0" for k by (simp add: new_sleeve_def dget_or_def)
  have l: "fills_log (new_sleeve c m mode) = []" by (simp add: new_sleeve_def)
  obtain s where s: "apply_recs (new_sleeve c m mode) fs = Inr s" "sleeve_ok s"
    "fills_log s = fs" "\<And>k. pos s k = shares fs k"
    using apply_recs_ok [OF sleeve_ok_new [of c m mode], of fs] by (auto simp: z l)
  then have "(dget (avg_cost s) k \<noteq> None) = (shares fs k \<noteq> 0)
      \<and> (dget (entry_price s) k \<noteq> None \<longrightarrow> shares fs k \<noteq> 0)
      \<and> (0 < shares fs k \<longrightarrow> dget (entry_price s) k \<noteq> None)"
    unfolding sleeve_ok_def by (metis s(4))
  with s show ?thesis by (intro exI [of _ s]) auto
qed

end
