(* ===== verification/Orders.thy ===== *)
theory Orders
  imports Fills Ledger Sleeve Calendar
begin

text \<open>
  The order book of \<open>dqengine/runtime/orders.py\<close> with the order identity of \<open>identity.py\<close>.
  \<open>obook\<close> is \<open>OrderBook\<close>; its tickets live in a dict by order id, and \<open>open_ids\<close> is the list
  \<open>_open\<close> of the resting ones.  \<open>events_out\<close>, the user's \<open>on_order_event\<close>, is the parameter \<open>cb\<close> of
  every operation that emits an event: it gets the event and the book and may call any operation
  of the book, so it returns the book it leaves behind or the exception it raises.  Every
  operation is the source's, branch by branch, and returns an exception or the new book.
\<close>

section \<open>Tickets and events\<close>

datatype order_type =
    MARKET | LIMIT | STOP_MARKET | STOP_LIMIT | MARKET_ON_OPEN | MARKET_ON_CLOSE
  | TRAILING_STOP | LIMIT_IF_TOUCHED

fun type_value :: "order_type \<Rightarrow> string" where
  "type_value MARKET = ''market''"
| "type_value LIMIT = ''limit''"
| "type_value STOP_MARKET = ''stop''"
| "type_value STOP_LIMIT = ''stop_limit''"
| "type_value MARKET_ON_OPEN = ''market_on_open''"
| "type_value MARKET_ON_CLOSE = ''market_on_close''"
| "type_value TRAILING_STOP = ''trailing_stop''"
| "type_value LIMIT_IF_TOUCHED = ''limit_if_touched''"

datatype order_status = NEW | SUBMITTED | FILLED | CANCELED | INVALID | UPDATE_SUBMITTED

record ticket =
  tk_id :: int
  tk_sym :: sym
  tk_qty :: int
  tk_type :: order_type
  tk_tag :: string
  tk_limit :: "pyfloat option"
  tk_stop :: "pyfloat option"
  tk_status :: order_status
  tk_avg :: pyfloat
  tk_filled :: int
  tk_triggered :: bool
  tk_trail :: "pyfloat option"
  tk_trail_pct :: bool
  tk_created :: "day \<times> ms"

definition is_open :: "ticket \<Rightarrow> bool" where
  "is_open t \<longleftrightarrow> tk_status t \<in> {SUBMITTED, UPDATE_SUBMITTED}"

record order_event =
  ev_id :: int
  ev_sym :: sym
  ev_status :: order_status
  ev_buy :: bool
  ev_price :: pyfloat
  ev_fill_qty :: int
  ev_qty :: int
  ev_msg :: string

datatype slippage_model = NullSlippage | ConstantSlippage pyfloat
datatype fee_model = NullFee | ConstantFee pyfloat

record security =
  sec_price :: pyfloat
  sec_slippage :: slippage_model
  sec_fee :: fee_model

fun slippage_approximation :: "slippage_model \<Rightarrow> security \<Rightarrow> pyfloat" where
  "slippage_approximation NullSlippage s = 0"
| "slippage_approximation (ConstantSlippage pct) s = fmul (sec_price s) pct"

fun order_fee :: "fee_model \<Rightarrow> pyfloat" where
  "order_fee NullFee = 0"
| "order_fee (ConstantFee f) = f"

section \<open>Identity of an order\<close>

definition GENERATED_TAG_PREFIX :: string where
  "GENERATED_TAG_PREFIX = ''ir:''"

definition digit_char :: "nat \<Rightarrow> char" where
  "digit_char d = char_of (48 + d)"

fun show_nat :: "nat \<Rightarrow> string" where
  "show_nat n = (if n < 10 then [digit_char n] else show_nat (n div 10) @ [digit_char (n mod 10)])"

declare show_nat.simps [simp del]

definition show_int :: "int \<Rightarrow> string" where
  "show_int i = (if i < 0 then ''-'' @ show_nat (nat (- i)) else show_nat (nat i))"

definition intent_id :: "string \<Rightarrow> int \<Rightarrow> string \<Rightarrow> string" where
  "intent_id symbol order_id tag =
     (if starts_with tag GENERATED_TAG_PREFIX then drop (length GENERATED_TAG_PREFIX) tag
      else ''py:'' @ upper symbol @ '':'' @ show_int order_id)"

section \<open>The book\<close>

definition MOC_SUBMISSION_BUFFER_MS :: ms where
  "MOC_SUBMISSION_BUFFER_MS = 930000"

datatype refusal =
    UpdateIgnored order_status int | WarmupRefused order_type int sym
  | Unpriced sym | MocBuffer

record obook =
  ob_sleeve :: sleeve
  clock :: "day \<times> ms"
  events :: "order_event list"
  prices :: "(sym, pyfloat) dict"
  securities :: "(sym, security) dict"
  tickets :: "(int, ticket) dict"
  open_ids :: "int list"
  next_id :: int
  allow_orders :: bool
  carried :: bool
  after_close_to_moo :: bool
  daily_conversion :: bool
  cancel_edge_on_no_fill :: bool
  notice_out :: bool
  noticed :: bool
  notices :: nat
  refused_log :: "refusal list"
  rejections :: "(string, int) dict"
  ob_ledger :: ledger_view
  unfilled_log :: "(day \<times> sym \<times> int \<times> string) list"
  generated :: bool

type_synonym callback = "order_event \<Rightarrow> obook \<Rightarrow> obook res"

text \<open>A ticket is an object the book handed out, so reading it by its id always succeeds; \<open>no_ticket\<close>
  is only the value of ids that no ticket has.\<close>

definition no_ticket :: ticket where
  "no_ticket = \<lparr>tk_id = 0, tk_sym = [], tk_qty = 0, tk_type = MARKET, tk_tag = [], tk_limit = None,
     tk_stop = None, tk_status = INVALID, tk_avg = 0, tk_filled = 0, tk_triggered = False,
     tk_trail = None, tk_trail_pct = True, tk_created = (0, 0)\<rparr>"

definition tk :: "obook \<Rightarrow> int \<Rightarrow> ticket" where
  "tk b i = dget_or (tickets b) i no_ticket"

definition put_ticket :: "obook \<Rightarrow> int \<Rightarrow> ticket \<Rightarrow> obook" where
  "put_ticket b i t = b\<lparr>tickets := dput (tickets b) i t\<rparr>"

definition unrest :: "obook \<Rightarrow> int \<Rightarrow> obook" where
  "unrest b i = b\<lparr>open_ids := remove1 i (open_ids b)\<rparr>"

definition emit ::
  "callback \<Rightarrow> obook \<Rightarrow> int \<Rightarrow> order_status \<Rightarrow> pyfloat \<Rightarrow> int \<Rightarrow> string \<Rightarrow> obook res" where
  "emit cb b i st px fq msg =
     (let t = tk b i;
          ev = \<lparr>ev_id = tk_id t, ev_sym = tk_sym t, ev_status = st, ev_buy = (0 < tk_qty t),
                ev_price = px, ev_fill_qty = fq, ev_qty = tk_qty t, ev_msg = msg\<rparr>
      in cb ev (b\<lparr>events := events b @ [ev]\<rparr>))"

definition reserved_tag :: "obook \<Rightarrow> string \<Rightarrow> bool" where
  "reserved_tag b tag \<longleftrightarrow> starts_with tag GENERATED_TAG_PREFIX \<and> \<not> generated b"

definition new_ticket ::
  "obook \<Rightarrow> string \<Rightarrow> int \<Rightarrow> order_type \<Rightarrow> string \<Rightarrow> pyfloat option \<Rightarrow> pyfloat option
     \<Rightarrow> (int \<times> obook) res" where
  "new_ticket b symbol q ty tag lpx spx =
     (if reserved_tag b tag then Inl (UnsupportedApiError ''order tags starting with ir:'')
      else let i = next_id b;
               t = \<lparr>tk_id = i, tk_sym = upper symbol, tk_qty = q, tk_type = ty, tk_tag = tag,
                    tk_limit = lpx, tk_stop = spx, tk_status = NEW, tk_avg = 0, tk_filled = 0,
                    tk_triggered = False, tk_trail = None, tk_trail_pct = True,
                    tk_created = clock b\<rparr>
           in Inr (i, (put_ticket b i t)\<lparr>next_id := next_id b + 1\<rparr>))"

definition slippage :: "obook \<Rightarrow> sym \<Rightarrow> pyfloat" where
  "slippage b k =
     (case dget (securities b) k of
        None \<Rightarrow> 0 | Some sec \<Rightarrow> slippage_approximation (sec_slippage sec) sec)"

definition fee :: "obook \<Rightarrow> sym \<Rightarrow> pyfloat" where
  "fee b k = (case dget (securities b) k of None \<Rightarrow> 0 | Some sec \<Rightarrow> order_fee (sec_fee sec))"

section \<open>Fills\<close>

definition reject :: "callback \<Rightarrow> obook \<Rightarrow> int \<Rightarrow> string \<Rightarrow> obook res" where
  "reject cb b i why =
     (let (d, t) = clock b; x = tk b i;
          b1 = b\<lparr>rejections := dput (rejections b) why (dget_or (rejections b) why 0 + 1),
                 ob_sleeve := log_order (ob_sleeve b)
                   \<lparr>or_day = d, or_time = t, or_sym = tk_sym x, or_qty = tk_qty x,
                    or_kind = type_value (tk_type x), or_tag = tk_tag x, or_status = ''rejected'',
                    or_price = None\<rparr>\<rparr>;
          b2 = unrest (put_ticket b1 i (x\<lparr>tk_status := INVALID\<rparr>)) i
      in emit cb b2 i INVALID 0 0 why)"

text \<open>The loop over broker rows that \<open>_fill\<close> and \<open>_pump\<close> share; only \<open>_fill\<close> records a model price.\<close>

fun apply_rows :: "ticket \<Rightarrow> pyfloat option \<Rightarrow> ledger_fill list \<Rightarrow> sleeve \<Rightarrow> sleeve res" where
  "apply_rows x mp [] s = Inr s"
| "apply_rows x mp (lf # rows) s =
     bind_res (apply_fill s (lf_day lf) (lf_time lf) (tk_sym x) (lf_qty lf) (lf_price lf)
                 (tk_tag x) (lf_fees lf) mp True (type_value (tk_type x))) (\<lambda>s'.
     apply_rows x mp rows (log_order s'
       \<lparr>or_day = lf_day lf, or_time = lf_time lf, or_sym = tk_sym x, or_qty = lf_qty lf,
        or_kind = type_value (tk_type x), or_tag = tk_tag x, or_status = ''filled'',
        or_price = Some (lf_price lf)\<rparr>))"

definition adopt_rows ::
  "callback \<Rightarrow> obook \<Rightarrow> int \<Rightarrow> pyfloat option \<Rightarrow> pyfloat \<Rightarrow> ledger_fill list \<Rightarrow> obook res" where
  "adopt_rows cb b i mp px0 rows =
     (let x = tk b i; filled = sum_list (map lf_qty rows);
          last_px = (if rows = [] then px0 else lf_price (last rows))
      in bind_res (apply_rows x mp rows (ob_sleeve b)) (\<lambda>s'.
         let b1 = put_ticket (b\<lparr>ob_sleeve := s'\<rparr>) i
                    (x\<lparr>tk_status := FILLED, tk_avg := last_px, tk_filled := filled\<rparr>)
         in emit cb (unrest b1 i) i FILLED last_px filled []))"

definition edge_cancel :: "obook \<Rightarrow> ticket \<Rightarrow> bool" where
  "edge_cancel b x \<longleftrightarrow> cancel_edge_on_no_fill b \<and> tk_type x \<in> {MARKET_ON_CLOSE, MARKET_ON_OPEN}"

definition decline ::
  "callback \<Rightarrow> obook \<Rightarrow> int \<Rightarrow> obook res" where
  "decline cb b i =
     (let x = tk b i;
          b1 = b\<lparr>unfilled_log := unfilled_log b @ [(fst (clock b), tk_sym x, tk_qty x, tk_tag x)]\<rparr>;
          edge = edge_cancel b1 x
      in if \<not> is_open x \<or> edge
         then let b2 = (if edge then unrest b1 i else b1);
                  b3 = put_ticket b2 i (x\<lparr>tk_status := CANCELED\<rparr>)
              in emit cb b3 i CANCELED 0 0 ''broker confirmed no fill''
         else Inr b1)"

text \<open>What a fill adds to the exposure, and the margin it may use.\<close>

definition added_exposure :: "obook \<Rightarrow> ticket \<Rightarrow> pyfloat \<Rightarrow> pyfloat" where
  "added_exposure b x px =
     (let prev = dget_or (qty (ob_sleeve b)) (tk_sym x) 0
      in fmul (fint (\<bar>prev + tk_qty x\<bar> - \<bar>prev\<bar>)) px)"

definition margin_allows :: "obook \<Rightarrow> ticket \<Rightarrow> pyfloat \<Rightarrow> bool" where
  "margin_allows b x px \<longleftrightarrow>
     \<not> fadd (buying_power (ob_sleeve b) (prices b)) (fl (1 / 10 ^ 9)) < added_exposure b x px"

definition model_fill :: "callback \<Rightarrow> obook \<Rightarrow> int \<Rightarrow> pyfloat \<Rightarrow> (bool \<times> obook) res" where
  "model_fill cb b i px =
     (let x = tk b i; (d, t) = clock b; q = tk_qty x
      in if \<not> margin_allows b x px
         then bind_res (reject cb b i ''insufficient buying power'') (\<lambda>b'. Inr (False, b'))
         else bind_res (apply_fill (ob_sleeve b) d t (tk_sym x) q px (tk_tag x) (fee b (tk_sym x))
                          None (ob_ledger b = NoLedger) (type_value (tk_type x))) (\<lambda>s1.
              let s2 = log_order s1
                    \<lparr>or_day = d, or_time = t, or_sym = tk_sym x, or_qty = q,
                     or_kind = type_value (tk_type x), or_tag = tk_tag x, or_status = ''filled'',
                     or_price = Some px\<rparr>;
                  b1 = put_ticket (b\<lparr>ob_sleeve := s2\<rparr>) i
                         (x\<lparr>tk_status := FILLED, tk_avg := px, tk_filled := q\<rparr>)
              in bind_res (emit cb (unrest b1 i) i FILLED px q []) (\<lambda>b'. Inr (True, b'))))"

definition fill :: "callback \<Rightarrow> obook \<Rightarrow> int \<Rightarrow> pyfloat \<Rightarrow> pyfloat \<Rightarrow> (bool \<times> obook) res" where
  "fill cb b i price slip =
     (let x = tk b i;
          px = (if 0 < tk_qty x then fadd price slip else fsub price slip);
          (real, v) = view_take (ob_ledger b) (fst (clock b)) (tk_sym x)
                        (Some (intent_id (tk_sym x) (tk_id x) (tk_tag x)))
                        (Some (if 0 < tk_qty x then 1 else - 1));
          b1 = b\<lparr>ob_ledger := v\<rparr>
      in case real of
           Some [] \<Rightarrow> bind_res (decline cb b1 i) (\<lambda>b'. Inr (False, b'))
         | Some rows \<Rightarrow> bind_res (adopt_rows cb b1 i (Some px) px rows) (\<lambda>b'. Inr (True, b'))
         | None \<Rightarrow> model_fill cb b1 i px)"

definition pump :: "callback \<Rightarrow> obook \<Rightarrow> int \<Rightarrow> (bool \<times> obook) res" where
  "pump cb b i =
     (let x = tk b i;
          (real, v) = view_take_rule_fill (ob_ledger b) (fst (clock b)) (tk_sym x)
                        (Some (intent_id (tk_sym x) (tk_id x) (tk_tag x))) (snd (clock b));
          b1 = b\<lparr>ob_ledger := v\<rparr>
      in case real of
           None \<Rightarrow> Inr (False, b1)
         | Some [] \<Rightarrow> Inr (False, b1)
         | Some rows \<Rightarrow> bind_res (adopt_rows cb b1 i None 0 rows) (\<lambda>b'. Inr (True, b')))"

section \<open>Order entry\<close>

definition priced :: "obook \<Rightarrow> string \<Rightarrow> bool" where
  "priced b symbol \<longleftrightarrow> 0 < dget_or (prices b) (upper symbol) 0"

definition unpriced_message :: "sym \<Rightarrow> string" where
  "unpriced_message k = k @ '': The security does not have an accurate price as it has not yet ''
     @ ''received a bar of data. Before placing a trade (or using set_holdings) ''
     @ ''warm up your algorithm with set_warmup, or use slice.contains(symbol) ''
     @ ''to confirm the Slice object has price before using the data.''"

definition MOC_BUFFER_MESSAGE :: string where
  "MOC_BUFFER_MESSAGE = ''MarketOnClose orders must be placed within 00:15:30 before market ''
     @ ''close. Override this TimeSpan buffer by setting ''
     @ ''Orders.MarketOnCloseOrder.SubmissionTimeBuffer in ''
     @ ''QCAlgorithm.Initialize().''"

definition refuse_unpriced ::
  "callback \<Rightarrow> obook \<Rightarrow> string \<Rightarrow> int \<Rightarrow> order_type \<Rightarrow> string \<Rightarrow> (int \<times> obook) res" where
  "refuse_unpriced cb b symbol q ty tag =
     bind_res (new_ticket b symbol q ty tag None None) (\<lambda>(i, b1).
     let k = tk_sym (tk b1 i); b2 = b1\<lparr>refused_log := refused_log b1 @ [Unpriced k]\<rparr>
     in bind_res (reject cb b2 i (unpriced_message k)) (\<lambda>b3. Inr (i, b3)))"

definition notice :: "obook \<Rightarrow> obook" where
  "notice b =
     (if noticed b \<or> \<not> notice_out b then b
      else b\<lparr>noticed := True, notices := notices b + 1\<rparr>)"

definition refuse_warmup ::
  "callback \<Rightarrow> obook \<Rightarrow> string \<Rightarrow> int \<Rightarrow> order_type \<Rightarrow> string \<Rightarrow> (int \<times> obook) res" where
  "refuse_warmup cb b symbol q ty tag =
     bind_res (new_ticket b symbol q ty tag None None) (\<lambda>(i, b1).
     let b2 = put_ticket b1 i ((tk b1 i)\<lparr>tk_status := INVALID\<rparr>);
         b3 = b2\<lparr>refused_log := refused_log b2 @ [WarmupRefused ty q (tk_sym (tk b1 i))]\<rparr>
     in bind_res (emit cb b3 i INVALID 0 0 ''orders are not allowed during warm-up'')
          (\<lambda>b4. Inr (i, b4)))"

text \<open>The lines every resting order kind repeats: new ticket, SUBMITTED, onto \<open>_open\<close>, event.\<close>

definition submit_resting ::
  "callback \<Rightarrow> obook \<Rightarrow> string \<Rightarrow> int \<Rightarrow> order_type \<Rightarrow> string \<Rightarrow> pyfloat option \<Rightarrow> pyfloat option
     \<Rightarrow> (int \<times> obook) res" where
  "submit_resting cb b symbol q ty tag lpx spx =
     bind_res (new_ticket b symbol q ty tag lpx spx) (\<lambda>(i, b1).
     let b2 = put_ticket b1 i ((tk b1 i)\<lparr>tk_status := SUBMITTED\<rparr>);
         b3 = b2\<lparr>open_ids := open_ids b2 @ [i]\<rparr>
     in bind_res (emit cb b3 i SUBMITTED 0 0 []) (\<lambda>b4. Inr (i, b4)))"

definition rest ::
  "callback \<Rightarrow> obook \<Rightarrow> string \<Rightarrow> int \<Rightarrow> order_type \<Rightarrow> string \<Rightarrow> pyfloat option \<Rightarrow> (int \<times> obook) res"
where
  "rest cb b symbol q ty tag lpx =
     (if \<not> allow_orders b then refuse_warmup cb b symbol q ty tag
      else submit_resting cb b symbol q ty tag lpx None)"

definition market_now ::
  "callback \<Rightarrow> obook \<Rightarrow> string \<Rightarrow> int \<Rightarrow> pyfloat \<Rightarrow> string \<Rightarrow> (int \<times> obook) res" where
  "market_now cb b symbol q price tag =
     (if carried b then submit_resting cb b symbol q MARKET tag None None
      else bind_res (new_ticket b symbol q MARKET tag None None) (\<lambda>(i, b1).
           bind_res (fill cb b1 i price (slippage b1 (tk_sym (tk b1 i)))) (\<lambda>(_, b2). Inr (i, b2))))"

definition market ::
  "callback \<Rightarrow> obook \<Rightarrow> string \<Rightarrow> int \<Rightarrow> pyfloat \<Rightarrow> string \<Rightarrow> (int \<times> obook) res" where
  "market cb b symbol q price tag =
     (if \<not> allow_orders b then refuse_warmup cb b symbol q MARKET tag
      else if daily_conversion b \<and> \<not> priced b symbol then refuse_unpriced cb b symbol q MARKET tag
      else if after_close_to_moo b \<and> \<not> carried b
      then let (d, t) = clock b; close = close_time_ms d
           in if close \<le> t then rest cb b symbol q MARKET_ON_OPEN tag None
              else if daily_conversion b
              then rest cb (notice b) symbol q
                     (if MOC_SUBMISSION_BUFFER_MS \<le> close - t then MARKET_ON_CLOSE
                      else MARKET_ON_OPEN) tag None
              else market_now cb b symbol q price tag
      else market_now cb b symbol q price tag)"

definition limit ::
  "callback \<Rightarrow> obook \<Rightarrow> string \<Rightarrow> int \<Rightarrow> pyfloat \<Rightarrow> string \<Rightarrow> (int \<times> obook) res" where
  "limit cb b symbol q limit_price tag =
     (if \<not> allow_orders b then refuse_warmup cb b symbol q LIMIT tag
      else submit_resting cb b symbol q LIMIT tag (Some (py_round limit_price 2)) None)"

definition stop_market ::
  "callback \<Rightarrow> obook \<Rightarrow> string \<Rightarrow> int \<Rightarrow> pyfloat \<Rightarrow> string \<Rightarrow> (int \<times> obook) res" where
  "stop_market cb b symbol q stop_price tag =
     (if \<not> allow_orders b then refuse_warmup cb b symbol q STOP_MARKET tag
      else submit_resting cb b symbol q STOP_MARKET tag None (Some (py_round stop_price 2)))"

definition stop_limit ::
  "callback \<Rightarrow> obook \<Rightarrow> string \<Rightarrow> int \<Rightarrow> pyfloat \<Rightarrow> pyfloat \<Rightarrow> string \<Rightarrow> (int \<times> obook) res" where
  "stop_limit cb b symbol q stop_price limit_price tag =
     (if \<not> allow_orders b then refuse_warmup cb b symbol q STOP_LIMIT tag
      else submit_resting cb b symbol q STOP_LIMIT tag (Some (py_round limit_price 2))
             (Some (py_round stop_price 2)))"

definition market_on_open ::
  "callback \<Rightarrow> obook \<Rightarrow> string \<Rightarrow> int \<Rightarrow> string \<Rightarrow> (int \<times> obook) res" where
  "market_on_open cb b symbol q tag = rest cb b symbol q MARKET_ON_OPEN tag None"

definition market_on_close ::
  "callback \<Rightarrow> obook \<Rightarrow> string \<Rightarrow> int \<Rightarrow> string \<Rightarrow> (int \<times> obook) res" where
  "market_on_close cb b symbol q tag =
     (let (d, t) = clock b; close = close_time_ms d
      in if daily_conversion b \<and> allow_orders b \<and> \<not> priced b symbol
         then refuse_unpriced cb b symbol q MARKET_ON_CLOSE tag
         else if daily_conversion b \<and> allow_orders b \<and> t < close
                 \<and> close - t < MOC_SUBMISSION_BUFFER_MS
         then bind_res (new_ticket b symbol q MARKET_ON_CLOSE tag None None) (\<lambda>(i, b1).
              bind_res (reject cb (b1\<lparr>refused_log := refused_log b1 @ [MocBuffer]\<rparr>) i
                          MOC_BUFFER_MESSAGE)
                (\<lambda>b2. Inr (i, b2)))
         else rest cb b symbol q MARKET_ON_CLOSE tag None)"

definition trailing_stop ::
  "callback \<Rightarrow> obook \<Rightarrow> string \<Rightarrow> int \<Rightarrow> pyfloat \<Rightarrow> bool \<Rightarrow> string \<Rightarrow> (int \<times> obook) res" where
  "trailing_stop cb b symbol q amount as_percentage tag =
     bind_res (rest cb b symbol q TRAILING_STOP tag None) (\<lambda>(i, b1).
     Inr (i, if is_open (tk b1 i)
             then put_ticket b1 i ((tk b1 i)\<lparr>tk_trail := Some amount,
                    tk_trail_pct := as_percentage, tk_stop := None\<rparr>)
             else b1))"

definition limit_if_touched ::
  "callback \<Rightarrow> obook \<Rightarrow> string \<Rightarrow> int \<Rightarrow> pyfloat \<Rightarrow> pyfloat \<Rightarrow> string \<Rightarrow> (int \<times> obook) res" where
  "limit_if_touched cb b symbol q trigger_price limit_price tag =
     bind_res (rest cb b symbol q LIMIT_IF_TOUCHED tag (Some (py_round limit_price 2))) (\<lambda>(i, b1).
     Inr (i, if is_open (tk b1 i)
             then put_ticket b1 i ((tk b1 i)\<lparr>tk_stop := Some (py_round trigger_price 2)\<rparr>)
             else b1))"

section \<open>Resting orders against a bar\<close>

definition edge_step ::
  "callback \<Rightarrow> order_type \<Rightarrow> (sym, pyfloat) dict \<Rightarrow> day option \<Rightarrow> int \<Rightarrow> obook \<Rightarrow> obook res" where
  "edge_step cb kind ps not_created_on i b =
     (let x = tk b i
      in if \<not> is_open x \<or> tk_type x \<noteq> kind then Inr b
         else if not_created_on = Some (fst (tk_created x)) then Inr b
         else case dget ps (tk_sym x) of
                None \<Rightarrow> Inr b
              | Some px \<Rightarrow>
                  if px = 0 then Inr b
                  else bind_res (fill cb b i px (slippage b (tk_sym x))) (\<lambda>(_, b'). Inr b'))"

text \<open>The trailing stop's ratchet.\<close>

definition ratchet :: "bool \<Rightarrow> pyfloat \<Rightarrow> bool \<Rightarrow> pyfloat \<Rightarrow> pyfloat \<Rightarrow> pyfloat option \<Rightarrow> pyfloat" where
  "ratchet buy amt pct h l stop =
     (let ref = (if buy then l else h);
          new_stop = (if pct then (if buy then fmul ref (fadd 1 amt) else fmul ref (fsub 1 amt))
                      else (if buy then fadd ref amt else fsub ref amt))
      in case stop of
           None \<Rightarrow> new_stop
         | Some old \<Rightarrow> if buy then min old new_stop else max old new_stop)"

text \<open>One ticket of \<open>check_resting\<close>'s loop body after the pump declined.\<close>

definition simulate_bar ::
  "callback \<Rightarrow> pyfloat \<Rightarrow> pyfloat \<Rightarrow> pyfloat \<Rightarrow> pyfloat \<Rightarrow> int \<Rightarrow> obook \<Rightarrow> obook res" where
  "simulate_bar cb op h l c i b =
     (let x = tk b i; buy = (0 < tk_qty x); slip = slippage b (tk_sym x);
          fill_at = (\<lambda>b px sl. bind_res (fill cb b i px sl) (\<lambda>(_, b'). Inr b'))
      in case tk_type x of
           MARKET \<Rightarrow> fill_at b c slip
         | LIMIT \<Rightarrow>
             (case limit_fill buy op h l (tk_limit x) of None \<Rightarrow> Inr b | Some px \<Rightarrow> fill_at b px 0)
         | STOP_MARKET \<Rightarrow>
             (case stop_fill buy op h l (tk_stop x) of None \<Rightarrow> Inr b | Some px \<Rightarrow> fill_at b px slip)
         | TRAILING_STOP \<Rightarrow>
             (case tk_trail x of
                None \<Rightarrow> Inl TypeError
              | Some amt \<Rightarrow>
                  let stop = ratchet buy amt (tk_trail_pct x) h l (tk_stop x);
                      b1 = put_ticket b i (x\<lparr>tk_stop := Some stop\<rparr>)
                  in case stop_fill buy op h l (Some stop) of
                       None \<Rightarrow> Inr b1 | Some px \<Rightarrow> fill_at b1 px slip)
         | LIMIT_IF_TOUCHED \<Rightarrow>
             if \<not> tk_triggered x
             then Inr (if touch_triggered buy h l (tk_stop x)
                       then put_ticket b i (x\<lparr>tk_triggered := True\<rparr>) else b)
             else (case limit_fill buy op h l (tk_limit x) of
                     None \<Rightarrow> Inr b | Some px \<Rightarrow> fill_at b px 0)
         | STOP_LIMIT \<Rightarrow>
             if \<not> tk_triggered x
             then Inr (if stop_triggered buy h l (tk_stop x)
                       then put_ticket b i (x\<lparr>tk_triggered := True\<rparr>) else b)
             else (case limit_fill buy op h l (tk_limit x) of
                     None \<Rightarrow> Inr b | Some px \<Rightarrow> fill_at b px 0)
         | _ \<Rightarrow> Inr b)"

definition resting_step ::
  "callback \<Rightarrow> sym \<Rightarrow> pyfloat \<Rightarrow> pyfloat \<Rightarrow> pyfloat \<Rightarrow> pyfloat \<Rightarrow> (day \<times> ms) option \<Rightarrow> int \<Rightarrow> obook
     \<Rightarrow> obook res" where
  "resting_step cb k op h l c exclude i b =
     (let x = tk b i
      in if \<not> is_open x \<or> tk_sym x \<noteq> k then Inr b
         else if exclude = Some (tk_created x) then Inr b
         else if ob_ledger b = NoLedger then simulate_bar cb op h l c i b
         else bind_res (pump cb b i) (\<lambda>(hit, b1).
              if hit then Inr b1 else simulate_bar cb op h l c i b1))"

text \<open>Both scans walk a snapshot of the open tickets: handlers may change the list meanwhile.\<close>

fun scan :: "(int \<Rightarrow> obook \<Rightarrow> obook res) \<Rightarrow> int list \<Rightarrow> obook \<Rightarrow> obook res" where
  "scan f [] b = Inr b"
| "scan f (i # is) b = bind_res (f i b) (scan f is)"

definition fill_at_session_edge ::
  "callback \<Rightarrow> obook \<Rightarrow> order_type \<Rightarrow> (sym, pyfloat) dict \<Rightarrow> day option \<Rightarrow> obook res" where
  "fill_at_session_edge cb b kind ps not_created_on =
     scan (edge_step cb kind ps not_created_on) (open_ids b) b"

definition check_resting ::
  "callback \<Rightarrow> obook \<Rightarrow> string \<Rightarrow> pyfloat \<Rightarrow> pyfloat \<Rightarrow> pyfloat \<Rightarrow> pyfloat \<Rightarrow> (day \<times> ms) option
     \<Rightarrow> obook res" where
  "check_resting cb b symbol op h l c exclude =
     scan (resting_step cb (upper symbol) op h l c exclude) (open_ids b) b"

section \<open>Mutation and queries\<close>

record update_fields =
  uf_qty :: "int option"
  uf_limit :: "pyfloat option"
  uf_stop :: "pyfloat option"
  uf_tag :: "string option"

definition update :: "obook \<Rightarrow> int \<Rightarrow> update_fields \<Rightarrow> obook res" where
  "update b i u =
     (let x = tk b i
      in if \<not> is_open x
         then Inr (b\<lparr>refused_log := refused_log b @ [UpdateIgnored (tk_status x) (tk_id x)]\<rparr>)
         else if (case uf_tag u of None \<Rightarrow> False | Some g \<Rightarrow> reserved_tag b g)
         then Inl (UnsupportedApiError ''order tags starting with ir:'')
         else Inr (put_ticket b i (x\<lparr>
                tk_qty := (case uf_qty u of None \<Rightarrow> tk_qty x | Some q \<Rightarrow> q),
                tk_limit := (case uf_limit u of None \<Rightarrow> tk_limit x | Some p \<Rightarrow> Some (py_round p 2)),
                tk_stop := (case uf_stop u of None \<Rightarrow> tk_stop x | Some p \<Rightarrow> Some (py_round p 2)),
                tk_tag := (case uf_tag u of None \<Rightarrow> tk_tag x | Some g \<Rightarrow> g)\<rparr>)))"

definition cancel :: "callback \<Rightarrow> obook \<Rightarrow> int \<Rightarrow> obook res" where
  "cancel cb b i =
     (let x = tk b i; (d, t) = clock b
      in if \<not> is_open x then Inr b
         else let b1 = b\<lparr>ob_sleeve := log_order (ob_sleeve b)
                    \<lparr>or_day = d, or_time = t, or_sym = tk_sym x, or_qty = tk_qty x,
                     or_kind = type_value (tk_type x), or_tag = tk_tag x,
                     or_status = ''canceled'', or_price = None\<rparr>\<rparr>;
                  b2 = unrest (put_ticket b1 i (x\<lparr>tk_status := CANCELED\<rparr>)) i
              in emit cb b2 i CANCELED 0 0 [])"

definition open_tickets :: "obook \<Rightarrow> string option \<Rightarrow> int list" where
  "open_tickets b symbol =
     filter (\<lambda>i. is_open (tk b i)
               \<and> (case symbol of None \<Rightarrow> True | Some s \<Rightarrow> tk_sym (tk b i) = upper s))
       (open_ids b)"

definition get_ticket :: "obook \<Rightarrow> int \<Rightarrow> ticket option" where
  "get_ticket b i = map_option snd (List.find (\<lambda>(_, t). tk_id t = i) (tickets b))"

definition cancel_open_orders :: "callback \<Rightarrow> obook \<Rightarrow> string option \<Rightarrow> obook res" where
  "cancel_open_orders cb b symbol = scan (\<lambda>i b. cancel cb b i) (open_tickets b symbol) b"

end
