(* ===== verification/OrdersInv.thy ===== *)
theory OrdersInv
  imports Orders
begin

text \<open>
  The order book's invariant and the contract of its callback.  \<open>book_ok\<close> says that \<open>_open\<close> lists
  exactly the open tickets, that ids are below \<open>next_id\<close>, and that the sleeve's positions are the
  sums of its logged fills; \<open>evolves\<close> that closed tickets are frozen and the logs only grow.  The
  locale \<open>order_handler\<close> assumes that the user's handler keeps both, as anything built from the
  book's own operations does, and shows that every operation of the book then does too.
\<close>

section \<open>The invariant\<close>

definition books :: "sleeve \<Rightarrow> bool" where
  "books s \<longleftrightarrow> sleeve_ok s \<and> (\<forall>k. pos s k = shares (fills_log s) k)"

definition closed :: "ticket \<Rightarrow> bool" where
  "closed t \<longleftrightarrow> tk_status t \<in> {FILLED, CANCELED, INVALID}"

definition tickets_ok :: "(int, ticket) dict \<Rightarrow> int list \<Rightarrow> int \<Rightarrow> bool" where
  "tickets_ok ts os n \<longleftrightarrow>
     (\<forall>i t. dget ts i = Some t \<longrightarrow> tk_id t = i \<and> i < n)
     \<and> distinct os
     \<and> (\<forall>i. i \<in> set os \<longleftrightarrow> (\<exists>t. dget ts i = Some t \<and> is_open t))"

definition book_ok :: "obook \<Rightarrow> bool" where
  "book_ok b \<longleftrightarrow> tickets_ok (tickets b) (open_ids b) (next_id b) \<and> books (ob_sleeve b)"

definition evolves :: "obook \<Rightarrow> obook \<Rightarrow> bool" where
  "evolves b b' \<longleftrightarrow>
     next_id b \<le> next_id b'
     \<and> (\<forall>i t. dget (tickets b) i = Some t \<and> closed t \<longrightarrow> dget (tickets b') i = Some t)
     \<and> (\<forall>i. dget (tickets b) i \<noteq> None \<longrightarrow> dget (tickets b') i \<noteq> None)
     \<and> (\<exists>fs. fills_log (ob_sleeve b') = fills_log (ob_sleeve b) @ fs)"

definition good :: "obook \<Rightarrow> obook \<Rightarrow> bool" where
  "good b b' \<longleftrightarrow> book_ok b' \<and> evolves b b'"

definition live :: "obook \<Rightarrow> int \<Rightarrow> bool" where
  "live b i \<longleftrightarrow> (\<exists>t. dget (tickets b) i = Some t \<and> \<not> closed t)"

text \<open>The fields neither notion looks at.\<close>

lemma book_ok_frame [simp]:
  "book_ok (b\<lparr>events := x1\<rparr>) = book_ok b" "book_ok (b\<lparr>rejections := x2\<rparr>) = book_ok b"
  "book_ok (b\<lparr>refused_log := x3\<rparr>) = book_ok b" "book_ok (b\<lparr>unfilled_log := x4\<rparr>) = book_ok b"
  "book_ok (b\<lparr>ob_ledger := x5\<rparr>) = book_ok b" "book_ok (b\<lparr>noticed := x6, notices := x7\<rparr>) = book_ok b"
  "book_ok (b\<lparr>clock := x8\<rparr>) = book_ok b" "book_ok (b\<lparr>prices := x9\<rparr>) = book_ok b"
  by (simp_all add: book_ok_def)

lemma evolves_frame [simp]:
  "evolves b0 (b\<lparr>events := x1\<rparr>) = evolves b0 b" "evolves b0 (b\<lparr>rejections := x2\<rparr>) = evolves b0 b"
  "evolves b0 (b\<lparr>refused_log := x3\<rparr>) = evolves b0 b" "evolves b0 (b\<lparr>unfilled_log := x4\<rparr>) = evolves b0 b"
  "evolves b0 (b\<lparr>ob_ledger := x5\<rparr>) = evolves b0 b"
  "evolves b0 (b\<lparr>noticed := x6, notices := x7\<rparr>) = evolves b0 b"
  "evolves b0 (b\<lparr>clock := x8\<rparr>) = evolves b0 b" "evolves b0 (b\<lparr>prices := x9\<rparr>) = evolves b0 b"
  by (simp_all add: evolves_def)

lemma tk_frame [simp]:
  "tk (b\<lparr>events := x1\<rparr>) i = tk b i" "tk (b\<lparr>rejections := x2\<rparr>) i = tk b i"
  "tk (b\<lparr>refused_log := x3\<rparr>) i = tk b i" "tk (b\<lparr>unfilled_log := x4\<rparr>) i = tk b i"
  "tk (b\<lparr>ob_ledger := x5\<rparr>) i = tk b i" "tk (b\<lparr>ob_sleeve := x6\<rparr>) i = tk b i"
  by (simp_all add: tk_def)

lemma evolves_refl [simp]: "evolves b b"
  by (simp add: evolves_def)

lemma evolves_trans: "evolves a b \<Longrightarrow> evolves b c \<Longrightarrow> evolves a c"
  unfolding evolves_def by (metis append.assoc order_trans)

lemma good_refl: "book_ok b \<Longrightarrow> good b b"
  by (simp add: good_def)

lemma good_trans: "good a b \<Longrightarrow> good b c \<Longrightarrow> good a c"
  unfolding good_def using evolves_trans by blast

lemma good_ok: "good a b \<Longrightarrow> book_ok b"
  by (simp add: good_def)

lemma tk_live: "live b i \<Longrightarrow> dget (tickets b) i = Some (tk b i) \<and> \<not> closed (tk b i)"
  by (auto simp: live_def tk_def dict_simps)

lemma tk_open: "is_open (tk b i) \<Longrightarrow> live b i"
  by (auto simp: live_def tk_def dict_simps is_open_def closed_def no_ticket_def split: option.splits)

section \<open>The sleeve's part\<close>

lemma books_apply_fill:
  assumes "books s" and "apply_fill s d t k q price tag fees mp cf kind = Inr s'"
  shows "books s' \<and> (\<exists>f. fills_log s' = fills_log s @ [f])"
proof -
  have "sleeve_ok s'"
    using assms apply_fill_ok [of s d t k q price tag fees mp cf kind] by (auto simp: books_def)
  moreover have "pos s' k' = shares (fills_log s') k'" for k'
    using assms(1) pos_apply_fill [OF assms(2), of k'] apply_fill_fields(4) [OF assms(2)]
    by (auto simp: books_def shares_def)
  ultimately show ?thesis using apply_fill_fields(4) [OF assms(2)] by (auto simp: books_def)
qed

lemma log_order_fields [simp]:
  "books (log_order s r) = books s" "fills_log (log_order s r) = fills_log s"
  "qty (log_order s r) = qty s" "cash (log_order s r) = cash s"
  by (simp_all add: log_order_def books_def sleeve_ok_def)

lemma apply_rows_books:
  "books s \<Longrightarrow> apply_rows x mp rows s = Inr s' \<Longrightarrow>
    books s' \<and> (\<exists>fs. fills_log s' = fills_log s @ fs)"
proof (induction rows arbitrary: s)
  case (Cons lf rows)
  obtain s1 r where s1: "apply_fill s (lf_day lf) (lf_time lf) (tk_sym x) (lf_qty lf) (lf_price lf)
      (tk_tag x) (lf_fees lf) mp True (type_value (tk_type x)) = Inr s1"
    and s': "apply_rows x mp rows (log_order s1 r) = Inr s'"
    using Cons.prems(2) by (auto simp: bind_res_Inr_iff)
  from books_apply_fill [OF Cons.prems(1) s1] have "books (log_order s1 r)"
    "\<exists>f. fills_log (log_order s1 r) = fills_log s @ [f]" by auto
  with Cons.IH [OF this(1) s'] show ?case by auto
qed simp

lemma apply_rows_total:
  "books s \<Longrightarrow> \<exists>s'. apply_rows x mp rows s = Inr s'"
proof (induction rows arbitrary: s)
  case (Cons lf rows)
  then have "sleeve_ok s" by (simp add: books_def)
  then obtain s1 where s1: "apply_fill s (lf_day lf) (lf_time lf) (tk_sym x) (lf_qty lf)
      (lf_price lf) (tk_tag x) (lf_fees lf) mp True (type_value (tk_type x)) = Inr s1"
    using apply_fill_ok by blast
  from books_apply_fill [OF Cons.prems s1] have "books (log_order s1 r)" for r by simp
  from Cons.IH [OF this] s1 show ?case by simp
qed simp

section \<open>Changes to one ticket\<close>

lemma good_sleeve:
  "good b0 b \<Longrightarrow> books s \<Longrightarrow> \<exists>fs. fills_log s = fills_log (ob_sleeve b) @ fs \<Longrightarrow>
    good b0 (b\<lparr>ob_sleeve := s\<rparr>)"
  unfolding good_def book_ok_def evolves_def by auto

lemma good_close:
  assumes ok: "book_ok b" and x: "live b i" and x': "tk_id x' = tk_id (tk b i)" "closed x'"
  shows "good b (unrest (put_ticket b i x') i)"
proof -
  note l = tk_live [OF x]
  have "tickets_ok (dput (tickets b) i x') (remove1 i (open_ids b)) (next_id b)"
    using ok l x' unfolding book_ok_def tickets_ok_def
    by (auto simp: dict_simps closed_def is_open_def set_remove1_eq split: if_splits)
  then show ?thesis
    using ok l by (auto simp: good_def book_ok_def evolves_def unrest_def put_ticket_def dict_simps)
qed

lemma good_put_same:
  assumes ok: "book_ok b" and x: "live b i"
    and x': "tk_id x' = tk_id (tk b i)" "is_open x' = is_open (tk b i)" "\<not> closed x'"
  shows "good b (put_ticket b i x')"
proof -
  note l = tk_live [OF x]
  have "tickets_ok (dput (tickets b) i x') (open_ids b) (next_id b)"
    using ok l x' unfolding book_ok_def tickets_ok_def by (auto simp: dict_simps split: if_splits)
  then show ?thesis
    using ok l by (auto simp: good_def book_ok_def evolves_def put_ticket_def dict_simps)
qed

lemma unrest_put_new:
  assumes "book_ok b" and "\<not> is_open (tk b i)"
  shows "unrest (put_ticket b i x) i = put_ticket b i x"
proof -
  have "i \<notin> set (open_ids b)"
    using assms by (auto simp: book_ok_def tickets_ok_def tk_def dict_simps)
  then have "remove1 i (open_ids b) = open_ids b" by (rule remove1_idem)
  then show ?thesis by (simp add: unrest_def put_ticket_def)
qed

lemma new_ticket_good:
  assumes ok: "book_ok b" and n: "new_ticket b symbol q ty tag lpx spx = Inr (i, b')"
  shows "good b b' \<and> live b' i \<and> tk_status (tk b' i) = NEW \<and> tk_id (tk b' i) = i
    \<and> i \<notin> set (open_ids b') \<and> i = next_id b \<and> ob_ledger b' = ob_ledger b \<and> clock b' = clock b"
proof -
  have fresh: "dget (tickets b) (next_id b) = None"
    using ok unfolding book_ok_def tickets_ok_def by (metis not_None_eq order_less_irrefl)
  then have "next_id b \<notin> set (open_ids b)"
    using ok by (auto simp: book_ok_def tickets_ok_def)
  moreover have "\<And>j t. dget (tickets b) j = Some t \<Longrightarrow> j \<le> next_id b"
    using ok by (auto simp: book_ok_def tickets_ok_def intro: order.strict_implies_order)
  ultimately show ?thesis using n fresh ok
    by (auto simp: new_ticket_def Let_def put_ticket_def good_def book_ok_def evolves_def
        tickets_ok_def live_def closed_def is_open_def tk_def dict_simps
        split: if_splits)
qed

lemma good_submit:
  assumes ok: "book_ok b" and x: "live b i" and n: "i \<notin> set (open_ids b)"
    and x': "tk_id x' = tk_id (tk b i)" "tk_status x' = SUBMITTED"
  shows "good b ((put_ticket b i x')\<lparr>open_ids := open_ids b @ [i]\<rparr>)"
proof -
  note l = tk_live [OF x]
  have "tickets_ok (dput (tickets b) i x') (open_ids b @ [i]) (next_id b)"
    using ok l x' n unfolding book_ok_def tickets_ok_def
    by (auto simp: dict_simps is_open_def split: if_splits)
  then show ?thesis
    using ok l by (auto simp: good_def book_ok_def evolves_def put_ticket_def dict_simps)
qed

lemma tk_put [simp]: "tk (put_ticket b i x) j = (if i = j then x else tk b j)"
  by (simp add: tk_def put_ticket_def dict_simps)

section \<open>Every operation keeps the contract of its handler\<close>

locale order_handler =
  fixes cb :: callback
  assumes cb_good: "book_ok b \<Longrightarrow> cb ev b = Inr b' \<Longrightarrow> good b b'"
begin

lemma emit_good: "book_ok b \<Longrightarrow> emit cb b i st px fq msg = Inr b' \<Longrightarrow> good b b'"
  using cb_good [of "b\<lparr>events := e\<rparr>" for e] by (auto simp: emit_def Let_def good_def evolves_def)

lemma emit_after: "good b0 b \<Longrightarrow> emit cb b i st px fq msg = Inr b' \<Longrightarrow> good b0 b'"
  using emit_good good_ok good_trans by blast

lemma reject_good:
  assumes ok: "book_ok b" and l: "live b i" and r: "reject cb b i why = Inr b'"
  shows "good b b'"
proof -
  obtain d t where dt: "clock b = (d, t)" by force
  let ?x = "(tk b i)\<lparr>tk_status := INVALID\<rparr>"
  let ?s = "log_order (ob_sleeve b)
    \<lparr>or_day = d, or_time = t, or_sym = tk_sym (tk b i), or_qty = tk_qty (tk b i),
     or_kind = type_value (tk_type (tk b i)), or_tag = tk_tag (tk b i), or_status = ''rejected'',
     or_price = None\<rparr>"
  let ?b1 = "b\<lparr>rejections := dput (rejections b) why (dget_or (rejections b) why 0 + 1),
    ob_sleeve := ?s\<rparr>"
  have g1: "good b ?b1"
    using ok by (auto simp: good_def book_ok_def evolves_def)
  have "live ?b1 i" "tk ?b1 i = tk b i" using l by (auto simp: live_def tk_def)
  then have "good ?b1 (unrest (put_ticket ?b1 i ?x) i)"
    using good_ok [OF g1] by (intro good_close) (auto simp: closed_def)
  with g1 have "good b (unrest (put_ticket ?b1 i ?x) i)" by (rule good_trans)
  moreover have "emit cb (unrest (put_ticket ?b1 i ?x) i) i INVALID 0 0 why = Inr b'"
    using r by (simp add: reject_def dt Let_def)
  ultimately show ?thesis by (rule emit_after)
qed

lemma adopt_rows_good:
  assumes ok: "book_ok b" and l: "live b i" and r: "adopt_rows cb b i mp px0 rows = Inr b'"
  shows "good b b'"
proof -
  obtain s' where s': "apply_rows (tk b i) mp rows (ob_sleeve b) = Inr s'"
    using r by (auto simp: adopt_rows_def Let_def bind_res_Inr_iff)
  have bk: "books (ob_sleeve b)" using ok by (simp add: book_ok_def)
  have g1: "good b (b\<lparr>ob_sleeve := s'\<rparr>)"
    using apply_rows_books [OF bk s'] good_refl [OF ok] by (intro good_sleeve) auto
  let ?b1 = "b\<lparr>ob_sleeve := s'\<rparr>"
  let ?px = "if rows = [] then px0 else lf_price (last rows)"
  let ?x = "(tk b i)\<lparr>tk_status := FILLED, tk_avg := ?px, tk_filled := sum_list (map lf_qty rows)\<rparr>"
  have e: "emit cb (unrest (put_ticket ?b1 i ?x) i) i FILLED ?px (sum_list (map lf_qty rows)) []
      = Inr b'"
    using r s' by (simp add: adopt_rows_def Let_def)
  have "live ?b1 i" using l by (simp add: live_def)
  then have "good ?b1 (unrest (put_ticket ?b1 i ?x) i)"
    using good_ok [OF g1] by (intro good_close) (auto simp: closed_def)
  with g1 have "good b (unrest (put_ticket ?b1 i ?x) i)" by (rule good_trans)
  from emit_after [OF this e] show ?thesis .
qed

lemma decline_good:
  assumes ok: "book_ok b" and l: "live b i" and r: "decline cb b i = Inr b'"
  shows "good b b'"
proof -
  let ?b1 = "b\<lparr>unfilled_log := unfilled_log b @ [(fst (clock b), tk_sym (tk b i), tk_qty (tk b i),
      tk_tag (tk b i))]\<rparr>"
  let ?x = "(tk b i)\<lparr>tk_status := CANCELED\<rparr>"
  have ok1: "book_ok ?b1" and l1: "live ?b1 i" using ok l by (simp_all add: live_def)
  have g: "good ?b1 (unrest (put_ticket ?b1 i ?x) i)"
    using ok1 l1 by (intro good_close) (auto simp: closed_def)
  have gb: "good b ?b1" using good_refl [OF ok] by (simp add: good_def)
  show ?thesis
  proof (cases "\<not> is_open (tk b i) \<or> edge_cancel ?b1 (tk b i)")
    case False
    then show ?thesis using r gb by (simp add: decline_def Let_def)
  next
    case True
    have "put_ticket (if edge_cancel ?b1 (tk b i) then unrest ?b1 i else ?b1) i ?x
        = unrest (put_ticket ?b1 i ?x) i"
    proof (cases "edge_cancel ?b1 (tk b i)")
      case False
      with True have "\<not> is_open (tk ?b1 i)" by simp
      from unrest_put_new [OF ok1 this] False show ?thesis by simp
    qed (simp add: unrest_def put_ticket_def)
    then have "emit cb (unrest (put_ticket ?b1 i ?x) i) i CANCELED 0 0
        ''broker confirmed no fill'' = Inr b'"
      using r True by (simp add: decline_def Let_def)
    from emit_after [OF good_trans [OF gb g] this] show ?thesis .
  qed
qed

lemma model_fill_good:
  assumes ok: "book_ok b" and l: "live b i" and r: "model_fill cb b i px = Inr (hit, b')"
  shows "good b b'"
proof -
  obtain d t where dt: "clock b = (d, t)" by force
  show ?thesis
  proof (cases "margin_allows b (tk b i) px")
    case False
    then obtain b1 where "reject cb b i ''insufficient buying power'' = Inr b1" "b' = b1"
      using r by (auto simp: model_fill_def dt Let_def bind_res_Inr_iff)
    with reject_good [OF ok l] show ?thesis by simp
  next
    case True
    let ?x = "(tk b i)\<lparr>tk_status := FILLED, tk_avg := px, tk_filled := tk_qty (tk b i)\<rparr>"
    obtain s1 rec where s1: "apply_fill (ob_sleeve b) d t (tk_sym (tk b i)) (tk_qty (tk b i)) px
        (tk_tag (tk b i)) (fee b (tk_sym (tk b i))) None (ob_ledger b = NoLedger)
        (type_value (tk_type (tk b i))) = Inr s1"
      and e: "emit cb (unrest (put_ticket (b\<lparr>ob_sleeve := log_order s1 rec\<rparr>) i ?x) i) i FILLED px
        (tk_qty (tk b i)) [] = Inr b'"
      using r True by (auto simp: model_fill_def dt Let_def bind_res_Inr_iff)
    let ?b1 = "b\<lparr>ob_sleeve := log_order s1 rec\<rparr>"
    have bk: "books (ob_sleeve b)" using ok by (simp add: book_ok_def)
    have g1: "good b ?b1"
      using books_apply_fill [OF bk s1] good_refl [OF ok] by (intro good_sleeve) auto
    have "live ?b1 i" using l by (simp add: live_def)
    then have "good ?b1 (unrest (put_ticket ?b1 i ?x) i)"
      using good_ok [OF g1] by (intro good_close) (auto simp: closed_def)
    with g1 have "good b (unrest (put_ticket ?b1 i ?x) i)" by (rule good_trans)
    from emit_after [OF this e] show ?thesis .
  qed
qed

lemma good_ledger: "book_ok b \<Longrightarrow> good b (b\<lparr>ob_ledger := v\<rparr>)"
  using good_refl [of b] by (simp add: good_def)

lemma fill_good:
  assumes ok: "book_ok b" and l: "live b i" and r: "fill cb b i price slip = Inr (hit, b')"
  shows "good b b'"
proof -
  let ?px = "if 0 < tk_qty (tk b i) then fadd price slip else fsub price slip"
  obtain real v where rv: "view_take (ob_ledger b) (fst (clock b)) (tk_sym (tk b i))
      (Some (intent_id (tk_sym (tk b i)) (tk_id (tk b i)) (tk_tag (tk b i))))
      (Some (if 0 < tk_qty (tk b i) then 1 else - 1)) = (real, v)"
    by force
  let ?b1 = "b\<lparr>ob_ledger := v\<rparr>"
  have ok1: "book_ok ?b1" and l1: "live ?b1 i" using ok l by (simp_all add: live_def)
  have "good ?b1 b'"
  proof (cases real)
    case None
    with r rv have "model_fill cb ?b1 i ?px = Inr (hit, b')" by (simp add: fill_def Let_def)
    from model_fill_good [OF ok1 l1 this] show ?thesis .
  next
    case (Some rows)
    show ?thesis
    proof (cases rows)
      case Nil
      with r rv Some have "decline cb ?b1 i = Inr b'"
        by (auto simp: fill_def Let_def bind_res_Inr_iff)
      from decline_good [OF ok1 l1 this] show ?thesis .
    next
      case (Cons x xs)
      with r rv Some have "adopt_rows cb ?b1 i (Some ?px) ?px (x # xs) = Inr b'"
        by (auto simp: fill_def Let_def bind_res_Inr_iff)
      from adopt_rows_good [OF ok1 l1 this] show ?thesis .
    qed
  qed
  with good_ledger [OF ok] show ?thesis by (rule good_trans)
qed

lemma pump_good:
  assumes ok: "book_ok b" and l: "live b i" and r: "pump cb b i = Inr (hit, b')"
  shows "good b b' \<and> (\<not> hit \<longrightarrow> tickets b' = tickets b)"
proof -
  obtain real v where rv: "view_take_rule_fill (ob_ledger b) (fst (clock b)) (tk_sym (tk b i))
      (Some (intent_id (tk_sym (tk b i)) (tk_id (tk b i)) (tk_tag (tk b i)))) (snd (clock b)) = (real, v)"
    by force
  let ?b1 = "b\<lparr>ob_ledger := v\<rparr>"
  have ok1: "book_ok ?b1" and l1: "live ?b1 i" using ok l by (simp_all add: live_def)
  have "good ?b1 b' \<and> (\<not> hit \<longrightarrow> tickets b' = tickets b)"
  proof (cases "real = None \<or> real = Some []")
    case True
    with r rv have "b' = ?b1" by (auto simp: pump_def Let_def)
    then show ?thesis using good_refl [OF ok1] by simp
  next
    case False
    then obtain x xs where "real = Some (x # xs)" by (cases real; auto simp: neq_Nil_conv)
    with r rv have "adopt_rows cb ?b1 i None 0 (x # xs) = Inr b'" "hit"
      by (auto simp: pump_def Let_def bind_res_Inr_iff)
    with adopt_rows_good [OF ok1 l1 this(1)] show ?thesis by simp
  qed
  with good_ledger [OF ok] show ?thesis using good_trans by blast
qed

lemma refuse_unpriced_good:
  assumes ok: "book_ok b" and r: "refuse_unpriced cb b symbol q ty tag = Inr (i, b')"
  shows "good b b'"
proof -
  obtain b1 k why where n: "new_ticket b symbol q ty tag None None = Inr (i, b1)"
    and rj: "reject cb (b1\<lparr>refused_log := refused_log b1 @ [Unpriced k]\<rparr>) i why = Inr b'"
    using r by (auto simp: refuse_unpriced_def Let_def bind_res_Inr_iff)
  have g: "good b b1" "live b1 i" using new_ticket_good [OF ok n] by auto
  have "good (b1\<lparr>refused_log := refused_log b1 @ [Unpriced k]\<rparr>) b'"
    using g by (intro reject_good [OF _ _ rj]) (auto simp: good_def live_def)
  then have "good b1 b'" by (simp add: good_def evolves_def)
  with g(1) show ?thesis by (rule good_trans)
qed

lemma refuse_warmup_good:
  assumes ok: "book_ok b" and r: "refuse_warmup cb b symbol q ty tag = Inr (i, b')"
  shows "good b b'"
proof -
  obtain b1 where n: "new_ticket b symbol q ty tag None None = Inr (i, b1)"
    using r by (auto simp: refuse_warmup_def Let_def bind_res_Inr_iff)
  let ?x = "(tk b1 i)\<lparr>tk_status := INVALID\<rparr>"
  note nn = new_ticket_good [OF ok n]
  have ok1: "book_ok b1" and l1: "live b1 i" and new: "tk_status (tk b1 i) = NEW"
    using nn good_ok [of b b1] by blast+
  have "good b1 (unrest (put_ticket b1 i ?x) i)"
    using ok1 l1 by (rule good_close) (simp_all add: closed_def)
  moreover have "unrest (put_ticket b1 i ?x) i = put_ticket b1 i ?x"
    using ok1 by (rule unrest_put_new) (simp add: is_open_def new)
  ultimately have g: "good b1 (put_ticket b1 i ?x)" by simp
  let ?b2 = "put_ticket b1 i ?x"
  obtain lg where e: "emit cb (?b2\<lparr>refused_log := lg\<rparr>) i INVALID 0 0
      ''orders are not allowed during warm-up'' = Inr b'"
    using r n by (auto simp: refuse_warmup_def Let_def bind_res_Inr_iff)
  have "good b ?b2" using nn g good_trans by blast
  then have "good b (?b2\<lparr>refused_log := lg\<rparr>)" by (simp add: good_def)
  from emit_after [OF this e] show ?thesis .
qed

lemma submit_resting_good:
  assumes ok: "book_ok b" and r: "submit_resting cb b symbol q ty tag lpx spx = Inr (i, b')"
  shows "good b b'"
proof -
  obtain b1 where n: "new_ticket b symbol q ty tag lpx spx = Inr (i, b1)"
    using r by (auto simp: submit_resting_def Let_def bind_res_Inr_iff)
  let ?x = "(tk b1 i)\<lparr>tk_status := SUBMITTED\<rparr>"
  let ?b3 = "(put_ticket b1 i ?x)\<lparr>open_ids := open_ids b1 @ [i]\<rparr>"
  note nn = new_ticket_good [OF ok n]
  have e: "emit cb ?b3 i SUBMITTED 0 0 [] = Inr b'"
    using r n by (auto simp: submit_resting_def Let_def bind_res_Inr_iff put_ticket_def)
  have "good b1 ?b3" using nn good_ok [of b b1] by (intro good_submit) auto
  with nn have "good b ?b3" using good_trans by blast
  from emit_after [OF this e] show ?thesis .
qed

lemma rest_good:
  "book_ok b \<Longrightarrow> rest cb b symbol q ty tag lpx = Inr (i, b') \<Longrightarrow> good b b'"
  by (auto simp: rest_def intro: refuse_warmup_good submit_resting_good split: if_splits)

lemma market_now_good:
  assumes ok: "book_ok b" and r: "market_now cb b symbol q price tag = Inr (i, b')"
  shows "good b b'"
proof (cases "carried b")
  case True
  with r show ?thesis by (auto simp: market_now_def intro: submit_resting_good [OF ok])
next
  case False
  then obtain b1 hit where n: "new_ticket b symbol q MARKET tag None None = Inr (i, b1)"
    and f: "fill cb b1 i price (slippage b1 (tk_sym (tk b1 i))) = Inr (hit, b')"
    using r by (auto simp: market_now_def bind_res_Inr_iff)
  have g: "good b b1" "live b1 i" using new_ticket_good [OF ok n] by auto
  from fill_good [OF good_ok [OF g(1)] g(2) f] show ?thesis by (rule good_trans [OF g(1)])
qed

lemma notice_good: "book_ok b \<Longrightarrow> good b (notice b)"
  using good_refl [of b] by (simp add: notice_def good_def)

lemma market_good:
  assumes ok: "book_ok b" and r: "market cb b symbol q price tag = Inr (i, b')"
  shows "good b b'"
proof -
  obtain d t where dt: "clock b = (d, t)" by force
  have n: "rest cb (notice b) symbol q ty tag None = Inr (i, b') \<Longrightarrow> good b b'" for ty
    using rest_good [OF good_ok [OF notice_good [OF ok]]] good_trans [OF notice_good [OF ok]] by blast
  show ?thesis
    using r by (auto simp: market_def dt Let_def split: if_splits
        intro: n refuse_warmup_good [OF ok] refuse_unpriced_good [OF ok] rest_good [OF ok]
          market_now_good [OF ok])
qed

lemma market_on_close_good:
  assumes ok: "book_ok b" and r: "market_on_close cb b symbol q tag = Inr (i, b')"
  shows "good b b'"
proof -
  obtain d t where dt: "clock b = (d, t)" by force
  have late: "good b b'"
    if n: "new_ticket b symbol q MARKET_ON_CLOSE tag None None = Inr (i, b1)"
      and rj: "reject cb (b1\<lparr>refused_log := lg\<rparr>) i why = Inr b'" for b1 lg why
  proof -
    have g: "good b b1" "live b1 i" using new_ticket_good [OF ok n] by auto
    have "good (b1\<lparr>refused_log := lg\<rparr>) b'"
      using g by (intro reject_good [OF _ _ rj]) (auto simp: good_def live_def)
    then have "good b1 b'" by (simp add: good_def evolves_def)
    with g(1) show ?thesis by (rule good_trans)
  qed
  show ?thesis
    using r by (auto simp: market_on_close_def dt Let_def bind_res_Inr_iff split: if_splits
        intro: late refuse_unpriced_good [OF ok] rest_good [OF ok])
qed

lemma amend_open_good:
  assumes g: "good b b1" and x': "tk_id x' = tk_id (tk b1 i)" "tk_status x' = tk_status (tk b1 i)"
  shows "good b (if is_open (tk b1 i) then put_ticket b1 i x' else b1)"
proof (cases "is_open (tk b1 i)")
  case True
  have "good b1 (put_ticket b1 i x')"
    using good_ok [OF g] tk_open [OF True] x' True tk_live [OF tk_open [OF True]]
    by (intro good_put_same) (auto simp: is_open_def closed_def)
  with g True show ?thesis using good_trans by simp
qed (use g in simp)

lemma trailing_stop_good:
  "book_ok b \<Longrightarrow> trailing_stop cb b symbol q amt pct tag = Inr (i, b') \<Longrightarrow> good b b'"
  by (auto simp: trailing_stop_def bind_res_Inr_iff dest!: rest_good intro!: amend_open_good)

lemma limit_if_touched_good:
  "book_ok b \<Longrightarrow> limit_if_touched cb b symbol q p l tag = Inr (i, b') \<Longrightarrow> good b b'"
  by (auto simp: limit_if_touched_def bind_res_Inr_iff dest!: rest_good intro!: amend_open_good)

lemma entry_good:
  "book_ok b \<Longrightarrow> limit cb b symbol q p tag = Inr (i, b') \<Longrightarrow> good b b'"
  "book_ok b \<Longrightarrow> stop_market cb b symbol q p tag = Inr (i, b') \<Longrightarrow> good b b'"
  "book_ok b \<Longrightarrow> stop_limit cb b symbol q p l tag = Inr (i, b') \<Longrightarrow> good b b'"
  "book_ok b \<Longrightarrow> market_on_open cb b symbol q tag = Inr (i, b') \<Longrightarrow> good b b'"
  by (auto simp: limit_def stop_market_def stop_limit_def market_on_open_def
      intro: refuse_warmup_good submit_resting_good rest_good split: if_splits)

lemma update_good: "book_ok b \<Longrightarrow> update b i u = Inr b' \<Longrightarrow> good b b'"
proof -
  assume ok: "book_ok b" and r: "update b i u = Inr b'"
  show "good b b'"
  proof (cases "is_open (tk b i)")
    case False
    with r good_refl [OF ok] show ?thesis by (auto simp: update_def Let_def good_def)
  next
    case True
    then obtain x' where "b' = put_ticket b i x'" "tk_id x' = tk_id (tk b i)"
      "tk_status x' = tk_status (tk b i)"
      using r by (auto simp: update_def Let_def split: if_splits)
    with amend_open_good [OF good_refl [OF ok], of x' i] True show ?thesis by simp
  qed
qed

lemma cancel_good:
  assumes ok: "book_ok b" and r: "cancel cb b i = Inr b'"
  shows "good b b'"
proof (cases "is_open (tk b i)")
  case False
  with r good_refl [OF ok] show ?thesis by (auto simp: cancel_def Let_def split_beta)
next
  case True
  obtain d t where dt: "clock b = (d, t)" by force
  let ?x = "(tk b i)\<lparr>tk_status := CANCELED\<rparr>"
  obtain rec where e: "emit cb (unrest (put_ticket (b\<lparr>ob_sleeve := log_order (ob_sleeve b) rec\<rparr>) i ?x) i)
      i CANCELED 0 0 [] = Inr b'"
    using r True by (auto simp: cancel_def dt Let_def)
  let ?b1 = "b\<lparr>ob_sleeve := log_order (ob_sleeve b) rec\<rparr>"
  have g1: "good b ?b1" using ok by (auto simp: good_def book_ok_def evolves_def)
  have "live ?b1 i" using tk_open [OF True] by (simp add: live_def)
  then have "good ?b1 (unrest (put_ticket ?b1 i ?x) i)"
    using good_ok [OF g1] by (intro good_close) (auto simp: closed_def)
  with g1 have "good b (unrest (put_ticket ?b1 i ?x) i)" by (rule good_trans)
  from emit_after [OF this e] show ?thesis .
qed

lemma scan_good:
  assumes step: "\<And>i b b'. book_ok b \<Longrightarrow> f i b = Inr b' \<Longrightarrow> good b b'"
  shows "book_ok b \<Longrightarrow> scan f is b = Inr b' \<Longrightarrow> good b b'"
proof (induction "is" arbitrary: b)
  case Nil
  then show ?case by (simp add: good_refl)
next
  case (Cons i "is")
  then obtain b1 where "f i b = Inr b1" "scan f is b1 = Inr b'" by (auto simp: bind_res_Inr_iff)
  with Cons step [of b i b1] show ?case using good_ok good_trans by blast
qed

lemma edge_step_good:
  assumes ok: "book_ok b" and r: "edge_step cb kind ps nc i b = Inr b'"
  shows "good b b'"
proof (cases "is_open (tk b i)")
  case True
  then show ?thesis
    using r ok fill_good [OF ok tk_open [OF True]]
    by (auto simp: edge_step_def Let_def bind_res_Inr_iff split: if_splits option.splits
        intro: good_refl)
qed (use r good_refl [OF ok] in \<open>simp add: edge_step_def Let_def\<close>)

lemma simulate_bar_good:
  assumes ok: "book_ok b" and o: "is_open (tk b i)" and r: "simulate_bar cb op h l c i b = Inr b'"
  shows "good b b'"
proof -
  note lv = tk_open [OF o]
  have put: "good b (put_ticket b i x')"
    if "tk_id x' = tk_id (tk b i)" "tk_status x' = tk_status (tk b i)" for x'
    using amend_open_good [OF good_refl [OF ok] that] o by simp
  have fl: "good b b'" if "fill cb b i px sl = Inr (hit, b')" for px sl hit
    by (rule fill_good [OF ok lv that])
  have fp: "good b b'" if "fill cb (put_ticket b i ((tk b i)\<lparr>tk_stop := y\<rparr>)) i px sl = Inr (hit, b')"
    for y px sl hit
  proof -
    have g: "good b (put_ticket b i ((tk b i)\<lparr>tk_stop := y\<rparr>))" by (rule put) simp_all
    have "live (put_ticket b i ((tk b i)\<lparr>tk_stop := y\<rparr>)) i"
      using o by (intro tk_open) (simp add: is_open_def)
    from fill_good [OF good_ok [OF g] this that] show ?thesis by (rule good_trans [OF g])
  qed
  show ?thesis
    using r ok
    by (cases "tk_type (tk b i)")
      (auto simp: simulate_bar_def Let_def bind_res_Inr_iff
        split: option.splits if_splits intro: good_refl put fl fp)
qed

lemma resting_step_good:
  assumes ok: "book_ok b" and r: "resting_step cb k op h l c ex i b = Inr b'"
  shows "good b b'"
proof (cases "\<not> is_open (tk b i) \<or> tk_sym (tk b i) \<noteq> k \<or> ex = Some (tk_created (tk b i))")
  case True
  then show ?thesis using r good_refl [OF ok] by (auto simp: resting_step_def Let_def split: if_splits)
next
  case False
  then have o: "is_open (tk b i)" by simp
  show ?thesis
  proof (cases "ob_ledger b = NoLedger")
    case True
    with False r simulate_bar_good [OF ok o] show ?thesis by (simp add: resting_step_def Let_def)
  next
    case led: False
    then obtain hit b1 where p: "pump cb b i = Inr (hit, b1)"
      and rest: "(if hit then Inr b1 else simulate_bar cb op h l c i b1) = Inr b'"
      using False r by (auto simp: resting_step_def Let_def bind_res_Inr_iff)
    note g = pump_good [OF ok tk_open [OF o] p]
    show ?thesis
    proof (cases hit)
      case False
      then have "is_open (tk b1 i)" using g o by (simp add: tk_def)
      with simulate_bar_good [of b1 i op h l c b'] rest False g show ?thesis
        using good_ok good_trans by simp blast
    qed (use g rest in simp)
  qed
qed

lemma check_resting_good:
  "book_ok b \<Longrightarrow> check_resting cb b symbol op h l c ex = Inr b' \<Longrightarrow> good b b'"
  unfolding check_resting_def by (rule scan_good) (rule resting_step_good)

lemma session_edge_good:
  "book_ok b \<Longrightarrow> fill_at_session_edge cb b kind ps nc = Inr b' \<Longrightarrow> good b b'"
  unfolding fill_at_session_edge_def by (rule scan_good) (rule edge_step_good)

lemma cancel_open_orders_good:
  "book_ok b \<Longrightarrow> cancel_open_orders cb b symbol = Inr b' \<Longrightarrow> good b b'"
  unfolding cancel_open_orders_def by (rule scan_good) (rule cancel_good)

end

end
