(* ===== verification/OrderProps.thy ===== *)
theory OrderProps
  imports OrdersInv
begin

text \<open>
  Runs of the order book and what they promise: \<open>book_op\<close> is one call on \<open>OrderBook\<close> or
  \<open>Transactions\<close>, \<open>do_op\<close> dispatches it, \<open>run_ops\<close> is a sequence of calls.  The properties are the
  book's invariant under any run and any well-behaved event handler, the three answers of the
  broker ledger, the buying-power gate, the daily market-order conversion, the two-phase stop
  limit and the trailing stop's ratchet.
\<close>

section \<open>Calls on the book\<close>

datatype book_op =
    OMarket string int pyfloat string
  | OLimit string int pyfloat string
  | OStop string int pyfloat string
  | OStopLimit string int pyfloat pyfloat string
  | OOpen string int string
  | OClose string int string
  | OTrail string int pyfloat bool string
  | OTouch string int pyfloat pyfloat string
  | OUpdate int update_fields
  | OCancel int
  | OCancelAll "string option"
  | OBar string pyfloat pyfloat pyfloat pyfloat "(day \<times> ms) option"
  | OEdge order_type "(sym, pyfloat) dict" "day option"
  | OTick "day \<times> ms" "(sym, pyfloat) dict"

definition drop_id :: "(int \<times> obook) res \<Rightarrow> obook res" where
  "drop_id r = bind_res r (\<lambda>(_, b). Inr b)"

fun do_op :: "callback \<Rightarrow> book_op \<Rightarrow> obook \<Rightarrow> obook res" where
  "do_op cb (OMarket s q p g) b = drop_id (market cb b s q p g)"
| "do_op cb (OLimit s q p g) b = drop_id (limit cb b s q p g)"
| "do_op cb (OStop s q p g) b = drop_id (stop_market cb b s q p g)"
| "do_op cb (OStopLimit s q p lp g) b = drop_id (stop_limit cb b s q p lp g)"
| "do_op cb (OOpen s q g) b = drop_id (market_on_open cb b s q g)"
| "do_op cb (OClose s q g) b = drop_id (market_on_close cb b s q g)"
| "do_op cb (OTrail s q a pct g) b = drop_id (trailing_stop cb b s q a pct g)"
| "do_op cb (OTouch s q p lp g) b = drop_id (limit_if_touched cb b s q p lp g)"
| "do_op cb (OUpdate i u) b = update b i u"
| "do_op cb (OCancel i) b = cancel cb b i"
| "do_op cb (OCancelAll s) b = cancel_open_orders cb b s"
| "do_op cb (OBar s op h l c ex) b = check_resting cb b s op h l c ex"
| "do_op cb (OEdge k ps nc) b = fill_at_session_edge cb b k ps nc"
| "do_op cb (OTick c ps) b = Inr (b\<lparr>clock := c, prices := ps\<rparr>)"

fun run_ops :: "callback \<Rightarrow> book_op list \<Rightarrow> obook \<Rightarrow> obook res" where
  "run_ops cb [] b = Inr b"
| "run_ops cb (x # xs) b = bind_res (do_op cb x b) (run_ops cb xs)"

definition new_book :: "sleeve \<Rightarrow> day \<times> ms \<Rightarrow> ledger_view \<Rightarrow> obook" where
  "new_book s c v = \<lparr>ob_sleeve = s, clock = c, events = [], prices = [], securities = [],
     tickets = [], open_ids = [], next_id = 1, allow_orders = True, carried = False,
     after_close_to_moo = False, daily_conversion = False, cancel_edge_on_no_fill = False,
     notice_out = False, noticed = False, notices = 0, refused_log = [], rejections = [],
     ob_ledger = v, unfilled_log = [], generated = False\<rparr>"

lemma new_book_ok: "books s \<Longrightarrow> book_ok (new_book s c v)"
  by (simp add: new_book_def book_ok_def tickets_ok_def dict_simps)

lemma books_new: "books (new_sleeve c m mode)"
  by (simp add: books_def shares_def new_sleeve_def sleeve_ok_def dict_simps)

text \<open>The contract of an event handler, as a predicate.\<close>

definition handler_ok :: "callback \<Rightarrow> bool" where
  "handler_ok cb \<longleftrightarrow> (\<forall>b ev b'. book_ok b \<and> cb ev b = Inr b' \<longrightarrow> good b b')"

lemma handler_ok_locale: "handler_ok cb \<Longrightarrow> order_handler cb"
  unfolding handler_ok_def by unfold_locales blast

context order_handler
begin

lemma drop_id_good:
  "(\<And>i b'. r = Inr (i, b') \<Longrightarrow> good b b') \<Longrightarrow> drop_id r = Inr b' \<Longrightarrow> good b b'"
  by (auto simp: drop_id_def bind_res_Inr_iff)

lemma do_op_good:
  assumes ok: "book_ok b" and r: "do_op cb x b = Inr b'"
  shows "good b b'"
proof (cases x)
  case (OTick c ps)
  have "good b (b\<lparr>clock := c, prices := ps\<rparr>)"
    using ok by (simp add: good_def book_ok_def evolves_def)
  then show ?thesis using OTick r by simp
qed (use r ok in \<open>auto elim!: drop_id_good [rotated] intro: market_good entry_good
      market_on_close_good trailing_stop_good limit_if_touched_good update_good cancel_good
      cancel_open_orders_good check_resting_good session_edge_good\<close>)

lemma run_ops_good: "book_ok b \<Longrightarrow> run_ops cb xs b = Inr b' \<Longrightarrow> good b b'"
proof (induction xs arbitrary: b)
  case (Cons x xs)
  then obtain b1 where "do_op cb x b = Inr b1" "run_ops cb xs b1 = Inr b'"
    by (auto simp: bind_res_Inr_iff)
  with Cons do_op_good [of b x b1] show ?case using good_ok good_trans by blast
qed (simp add: good_refl)

end

section \<open>Two handlers\<close>

definition quiet :: callback where
  "quiet ev b = Inr b"

text \<open>The one-cancels-other handler of a bracket: a fill of ticket \<open>i\<close> cancels \<open>j\<close>.\<close>

definition oco :: "int \<Rightarrow> int \<Rightarrow> callback" where
  "oco i j ev b = (if ev_status ev = FILLED \<and> ev_id ev = i then cancel quiet b j else Inr b)"

interpretation quiet: order_handler quiet
  by unfold_locales (simp add: quiet_def good_refl)

interpretation oco: order_handler "oco i j" for i j
  by unfold_locales (auto simp: oco_def split: if_splits intro: good_refl quiet.cancel_good)

lemma oco_ok: "handler_ok (oco i j)"
  unfolding handler_ok_def using oco.cb_good by blast

section \<open>The invariant of a run\<close>

text \<open>C5: After any sequence of calls on a fresh book, under any event handler that keeps the
  book's contract, \<open>_open\<close> lists exactly the open tickets, each once, and every position is the sum
  of the logged fills; whatever is called afterwards, a filled, cancelled or refused ticket never
  changes again and no logged fill is lost.\<close>

theorem book_runs_keep_books:
  assumes "handler_ok cb"
    and "run_ops cb ops (new_book (new_sleeve c0 m mode) c v) = Inr b"
    and "run_ops cb later b = Inr b'"
  shows "distinct (open_ids b)
    \<and> (\<forall>i. i \<in> set (open_ids b) \<longleftrightarrow> (\<exists>t. dget (tickets b) i = Some t \<and> is_open t))
    \<and> (\<forall>k. pos (ob_sleeve b) k = shares (fills_log (ob_sleeve b)) k)
    \<and> (\<forall>i t. dget (tickets b) i = Some t \<and> tk_status t \<in> {FILLED, CANCELED, INVALID}
         \<longrightarrow> dget (tickets b') i = Some t)
    \<and> take (length (fills_log (ob_sleeve b))) (fills_log (ob_sleeve b'))
        = fills_log (ob_sleeve b)"
proof -
  note run = order_handler.run_ops_good [OF handler_ok_locale [OF assms(1)]]
  have ok: "book_ok b"
    using run [OF new_book_ok [OF books_new] assms(2)] by (rule good_ok)
  from run [OF this assms(3)] have "evolves b b'" by (simp add: good_def)
  with ok show ?thesis
    by (auto simp: book_ok_def tickets_ok_def books_def evolves_def closed_def)
qed

text \<open>The bracket of \<open>oco\<close>: the target fills on the first bar, the stop is cancelled by the handler,
  and the second bar through the stop's level changes neither ticket.\<close>

definition demo_bracket :: "book_op list" where
  "demo_bracket = [OTick (738000, 36000000) [(''SPY'', 100)], OMarket ''spy'' 10 100 [],
     OLimit ''spy'' (- 10) 110 [], OStop ''spy'' (- 10) 90 [], OBar ''spy'' 105 111 104 110 None]"

definition demo_book :: obook where
  "demo_book = new_book (new_sleeve 10000 2 ''last_fill'') (738000, 0) NoLedger"

definition demo_after :: obook where
  "demo_after = (case run_ops (oco 2 3) demo_bracket demo_book of Inr b \<Rightarrow> b | Inl _ \<Rightarrow> demo_book)"

definition demo_later :: "obook res" where
  "demo_later = run_ops (oco 2 3) [OBar ''spy'' 100 101 80 90 None] demo_after"

lemma demo_facts:
  "case run_ops (oco 2 3) demo_bracket demo_book of
     Inl _ \<Rightarrow> False
   | Inr b \<Rightarrow> map_option tk_status (dget (tickets b) 3) = Some CANCELED
       \<and> \<not> isl (run_ops (oco 2 3) [OBar ''spy'' 100 101 80 90 None] b)"
  by code_simp

lemma demo_run:
  "run_ops (oco 2 3) demo_bracket demo_book = Inr demo_after" "\<not> isl demo_later"
  "map_option tk_status (dget (tickets demo_after) 3) = Some CANCELED"
  using demo_facts by (auto simp: demo_after_def demo_later_def split: sum.splits)

theorem book_runs_keep_books_witness:
  "dget (tickets (projr demo_later)) 3 = dget (tickets demo_after) 3
    \<and> pos (ob_sleeve demo_after) ''SPY'' = shares (fills_log (ob_sleeve demo_after)) ''SPY''"
proof -
  have a: "run_ops (oco 2 3) demo_bracket (new_book (new_sleeve 10000 2 ''last_fill'') (738000, 0)
      NoLedger) = Inr demo_after"
    using demo_run(1) by (simp add: demo_book_def)
  have b: "run_ops (oco 2 3) [OBar ''spy'' 100 101 80 90 None] demo_after
      = Inr (projr demo_later)"
    using demo_run(2) unfolding demo_later_def by (auto simp: isl_def dest: sum.exhaust_sel)
  obtain t where "dget (tickets demo_after) 3 = Some t" "tk_status t = CANCELED"
    using demo_run(3) by auto
  then show ?thesis using book_runs_keep_books [OF oco_ok a b] by auto
qed

section \<open>The broker's three answers\<close>

lemma apply_rows_pos:
  "apply_rows x mp rows s = Inr s' \<Longrightarrow>
    pos s' k = pos s k + (if k = tk_sym x then sum_list (map lf_qty rows) else 0)"
proof (induction rows arbitrary: s)
  case (Cons lf rows)
  then obtain s1 r where "apply_fill s (lf_day lf) (lf_time lf) (tk_sym x) (lf_qty lf)
      (lf_price lf) (tk_tag x) (lf_fees lf) mp True (type_value (tk_type x)) = Inr s1"
    and "apply_rows x mp rows (log_order s1 r) = Inr s'"
    by (auto simp: bind_res_Inr_iff)
  with Cons.IH [OF this(2)] pos_apply_fill [OF this(1), of k] show ?case by simp
qed simp

definition broker_answer :: "obook \<Rightarrow> int \<Rightarrow> ledger_fill list option" where
  "broker_answer b i =
     (let x = tk b i
      in fst (view_take (ob_ledger b) (fst (clock b)) (tk_sym x)
                (Some (intent_id (tk_sym x) (tk_id x) (tk_tag x)))
                (Some (if 0 < tk_qty x then 1 else - 1))))"

definition fill_price :: "obook \<Rightarrow> int \<Rightarrow> pyfloat \<Rightarrow> pyfloat \<Rightarrow> pyfloat" where
  "fill_price b i price slip =
     (if 0 < tk_qty (tk b i) then fadd price slip else fsub price slip)"

lemma fill_by_answer:
  "fill cb b i price slip =
     (let b1 = b\<lparr>ob_ledger := snd (view_take (ob_ledger b) (fst (clock b)) (tk_sym (tk b i))
                (Some (intent_id (tk_sym (tk b i)) (tk_id (tk b i)) (tk_tag (tk b i))))
                (Some (if 0 < tk_qty (tk b i) then 1 else - 1)))\<rparr>;
          px = fill_price b i price slip
      in case broker_answer b i of
           Some [] \<Rightarrow> bind_res (decline cb b1 i) (\<lambda>b'. Inr (False, b'))
         | Some rows \<Rightarrow> bind_res (adopt_rows cb b1 i (Some px) px rows) (\<lambda>b'. Inr (True, b'))
         | None \<Rightarrow> model_fill cb b1 i px)"
  by (simp add: fill_def Let_def case_prod_unfold broker_answer_def fill_price_def)

lemma adopt_rows_quiet:
  assumes "books (ob_sleeve b)"
  shows "\<exists>b'. adopt_rows quiet b i mp px0 rows = Inr b'
    \<and> pos (ob_sleeve b') k
        = pos (ob_sleeve b) k + (if k = tk_sym (tk b i) then sum_list (map lf_qty rows) else 0)
    \<and> tk_status (tk b' i) = FILLED \<and> tk_filled (tk b' i) = sum_list (map lf_qty rows)"
proof -
  obtain s' where s': "apply_rows (tk b i) mp rows (ob_sleeve b) = Inr s'"
    using apply_rows_total [OF assms] by blast
  then show ?thesis
    using apply_rows_pos [OF s', of k]
    by (auto simp: adopt_rows_def Let_def emit_def quiet_def unrest_def put_ticket_def tk_def
        dict_simps)
qed

lemma decline_quiet:
  "\<exists>b'. decline quiet b i = Inr b' \<and> ob_sleeve b' = ob_sleeve b
    \<and> tk b' i = (if is_open (tk b i) \<and> \<not> edge_cancel b (tk b i) then tk b i
                 else (tk b i)\<lparr>tk_status := CANCELED\<rparr>)
    \<and> length (unfilled_log b') = length (unfilled_log b) + 1"
  by (auto simp: decline_def Let_def emit_def quiet_def unrest_def put_ticket_def tk_def
      dict_simps edge_cancel_def)

lemma reject_quiet:
  "\<exists>b'. reject quiet b i why = Inr b' \<and> qty (ob_sleeve b') = qty (ob_sleeve b)
    \<and> cash (ob_sleeve b') = cash (ob_sleeve b) \<and> tk_status (tk b' i) = INVALID
    \<and> dget_or (rejections b') why 0 = dget_or (rejections b) why 0 + 1"
  by (auto simp: reject_def Let_def emit_def quiet_def unrest_def put_ticket_def tk_def
      dict_simps split: prod.split)

lemma model_fill_quiet:
  assumes "books (ob_sleeve b)"
  shows "if margin_allows b (tk b i) px
    then \<exists>b'. model_fill quiet b i px = Inr (True, b')
      \<and> pos (ob_sleeve b') k = pos (ob_sleeve b) k + (if k = tk_sym (tk b i) then tk_qty (tk b i) else 0)
      \<and> fr_confirmed (last (fills_log (ob_sleeve b'))) = (ob_ledger b = NoLedger)
      \<and> tk_status (tk b' i) = FILLED \<and> tk_avg (tk b' i) = px
    else \<exists>b'. model_fill quiet b i px = Inr (False, b') \<and> qty (ob_sleeve b') = qty (ob_sleeve b)
      \<and> cash (ob_sleeve b') = cash (ob_sleeve b) \<and> tk_status (tk b' i) = INVALID"
proof (cases "margin_allows b (tk b i) px")
  case False
  then show ?thesis using reject_quiet [of b i "''insufficient buying power''"]
    by (auto simp: model_fill_def Let_def split: prod.split)
next
  case True
  obtain d t where dt: "clock b = (d, t)" by force
  have "sleeve_ok (ob_sleeve b)" using assms by (simp add: books_def)
  then obtain s1 where s1: "apply_fill (ob_sleeve b) d t (tk_sym (tk b i)) (tk_qty (tk b i)) px
      (tk_tag (tk b i)) (fee b (tk_sym (tk b i))) None (ob_ledger b = NoLedger)
      (type_value (tk_type (tk b i))) = Inr s1"
    using apply_fill_ok by blast
  have "fr_confirmed (last (fills_log s1)) = (ob_ledger b = NoLedger)"
    using apply_fill_fields(4) [OF s1] by simp
  with True dt s1 pos_apply_fill [OF s1, of k] show ?thesis
    by (auto simp: model_fill_def Let_def emit_def quiet_def unrest_def put_ticket_def tk_def
        dict_simps log_order_def)
qed

lemma view_take_kind: "(snd (view_take v d k rid sd) = NoLedger) = (v = NoLedger)"
  by (cases v) (simp_all add: view_take_def)

text \<open>C6: The broker's answer outranks the model when an order's fill is decided: rows move the
  position by exactly their quantities and fill the ticket, with no regard to buying power; a
  confirmed absence moves nothing, leaves a resting ticket as it was (except at a session edge
  that asked for cancellation) and closes one that never rested; only when the broker cannot
  tell does the model fill, behind the buying-power gate, and its fill is marked unconfirmed
  whenever a ledger is present.\<close>

theorem broker_outranks_model:
  assumes "book_ok b"
  shows "case broker_answer b i of
      Some [] \<Rightarrow> (\<exists>b'. fill quiet b i price slip = Inr (False, b') \<and> ob_sleeve b' = ob_sleeve b
        \<and> tk b' i = (if is_open (tk b i) \<and> \<not> edge_cancel b (tk b i) then tk b i
                     else (tk b i)\<lparr>tk_status := CANCELED\<rparr>))
    | Some rows \<Rightarrow> (\<exists>b'. fill quiet b i price slip = Inr (True, b')
        \<and> pos (ob_sleeve b') (tk_sym (tk b i))
            = pos (ob_sleeve b) (tk_sym (tk b i)) + sum_list (map lf_qty rows)
        \<and> tk_status (tk b' i) = FILLED \<and> tk_filled (tk b' i) = sum_list (map lf_qty rows))
    | None \<Rightarrow> if margin_allows b (tk b i) (fill_price b i price slip)
        then (\<exists>b'. fill quiet b i price slip = Inr (True, b')
          \<and> pos (ob_sleeve b') (tk_sym (tk b i))
              = pos (ob_sleeve b) (tk_sym (tk b i)) + tk_qty (tk b i)
          \<and> fr_confirmed (last (fills_log (ob_sleeve b'))) = (ob_ledger b = NoLedger))
        else (\<exists>b'. fill quiet b i price slip = Inr (False, b')
          \<and> qty (ob_sleeve b') = qty (ob_sleeve b) \<and> cash (ob_sleeve b') = cash (ob_sleeve b)
          \<and> tk_status (tk b' i) = INVALID)"
proof -
  obtain v where v: "snd (view_take (ob_ledger b) (fst (clock b)) (tk_sym (tk b i))
      (Some (intent_id (tk_sym (tk b i)) (tk_id (tk b i)) (tk_tag (tk b i))))
      (Some (if 0 < tk_qty (tk b i) then 1 else - 1))) = v" and
    lv: "(v = NoLedger) = (ob_ledger b = NoLedger)"
    by (simp add: view_take_kind)
  let ?b1 = "b\<lparr>ob_ledger := v\<rparr>" and ?px = "fill_price b i price slip"
  have same: "tk ?b1 j = tk b j" "edge_cancel ?b1 x = edge_cancel b x"
    "margin_allows ?b1 x px = margin_allows b x px" for j x px
    by (simp_all add: tk_def edge_cancel_def margin_allows_def added_exposure_def)
  have bk: "books (ob_sleeve ?b1)" using assms by (simp add: book_ok_def)
  show ?thesis
  proof (cases "broker_answer b i")
    case None
    then show ?thesis
      using model_fill_quiet [OF bk, of i ?px "tk_sym (tk b i)"] lv v
      by (auto simp: fill_by_answer Let_def same split: if_splits)
  next
    case (Some rows)
    show ?thesis
    proof (cases rows)
      case Nil
      then show ?thesis
        using decline_quiet [of ?b1 i] Some v by (auto simp: fill_by_answer Let_def same)
    next
      case (Cons r rs)
      then show ?thesis
        using adopt_rows_quiet [OF bk, of i "Some ?px" ?px rows "tk_sym (tk b i)"] Some v
        by (auto simp: fill_by_answer Let_def same)
    qed
  qed
qed

text \<open>Ten shares bought at 100 by an account with 100 of cash: the model alone refuses the order, the
  broker's two rows of 4 and 6 move the position by 10.\<close>

definition demo_rows :: "ledger_fill list" where
  "demo_rows = [mk_fill 738000 36000000 (Some ''SPY'') 4 100 0 None (Some ''a''),
                mk_fill 738000 36001000 (Some ''SPY'') 6 101 0 None (Some ''a'')]"

definition poor_book :: obook where
  "poor_book = new_book (new_sleeve 100 1 ''last_fill'') (738000, 36000000)
     (Ledger (mk_ledger demo_rows {} (Some 737000) None))"

definition poor_order :: obook where
  "poor_order =
     (case new_ticket poor_book ''SPY'' 10 MARKET [] None None of Inr (_, b) \<Rightarrow> b | Inl _ \<Rightarrow> poor_book)"

lemma poor_order_ok: "book_ok poor_order"
proof -
  have ok: "book_ok poor_book" unfolding poor_book_def by (rule new_book_ok [OF books_new])
  then show ?thesis
    using new_ticket_good [OF ok, of "''SPY''" 10 MARKET "[]" None None]
    by (auto simp: poor_order_def good_def split: sum.splits)
qed

lemma poor_answer:
  "broker_answer poor_order 1 = Some demo_rows" "tk_sym (tk poor_order 1) = ''SPY''"
  "pos (ob_sleeve poor_order) ''SPY'' = 0"
  "\<not> margin_allows poor_order (tk poor_order 1) (fill_price poor_order 1 100 0)"
  by code_simp+

theorem broker_outranks_model_witness:
  "\<exists>b'. fill quiet poor_order 1 100 0 = Inr (True, b') \<and> pos (ob_sleeve b') ''SPY'' = 10"
  using broker_outranks_model [OF poor_order_ok, of 1 100 0] poor_answer(1-3)
  by (auto simp: demo_rows_def mk_fill_def)

section \<open>The daily conversion of market orders\<close>

lemma rest_quiet:
  assumes "allow_orders b" and "\<not> reserved_tag b tag"
  shows "\<exists>b'. rest quiet b symbol q ty tag lpx = Inr (next_id b, b')
    \<and> tk_type (tk b' (next_id b)) = ty \<and> is_open (tk b' (next_id b))
    \<and> next_id b \<in> set (open_ids b') \<and> ob_sleeve b' = ob_sleeve b"
  using assms
  by (auto simp: rest_def submit_resting_def new_ticket_def Let_def emit_def quiet_def
      put_ticket_def tk_def dict_simps is_open_def)

lemma notice_frame [simp]:
  "allow_orders (notice b) = allow_orders b" "reserved_tag (notice b) tag = reserved_tag b tag"
  "next_id (notice b) = next_id b" "ob_sleeve (notice b) = ob_sleeve b"
  by (simp_all add: notice_def reserved_tag_def)

text \<open>In a daily backtest a market order on a priced symbol never fills when it is placed: it
  rests as a market-on-close order while at least 15:30 minutes remain to the session's close
  (13:00 on an early close) and as a market-on-open order in the buffer and after the close, and
  moves neither cash nor shares.\<close>

theorem daily_market_conversion:
  assumes "allow_orders b" "daily_conversion b" "after_close_to_moo b" "\<not> carried b"
    and "priced b symbol" "\<not> reserved_tag b tag"
  shows "\<exists>b'. market quiet b symbol q price tag = Inr (next_id b, b')
    \<and> tk_type (tk b' (next_id b))
        = (if snd (clock b) + 930000 \<le> close_time_ms (fst (clock b)) then MARKET_ON_CLOSE
           else MARKET_ON_OPEN)
    \<and> is_open (tk b' (next_id b)) \<and> ob_sleeve b' = ob_sleeve b"
proof -
  obtain d t where dt: "clock b = (d, t)" by force
  let ?n = "notice b"
  have n: "allow_orders ?n" "\<not> reserved_tag ?n tag" using assms by simp_all
  show ?thesis
    using assms dt rest_quiet [OF assms(1) assms(6), of symbol q MARKET_ON_OPEN None]
      rest_quiet [OF n, of symbol q MARKET_ON_OPEN None]
      rest_quiet [OF n, of symbol q MARKET_ON_CLOSE None]
    by (auto simp: market_def MOC_SUBMISSION_BUFFER_MS_def Let_def algebra_simps)
qed

definition daily_book :: "ms \<Rightarrow> obook" where
  "daily_book t = (new_book (new_sleeve 1000 2 ''last_fill'') (738000, t) NoLedger)
     \<lparr>daily_conversion := True, after_close_to_moo := True, prices := [(''SPY'', 100)]\<rparr>"

lemma upper_spy: "upper ''spy'' = ''SPY''"
  by code_simp

text \<open>15:44 converts to market-on-close, 15:45 to market-on-open.\<close>

theorem daily_market_conversion_witness:
  "(\<exists>b'. market quiet (daily_book 56640000) ''spy'' 5 100 [] = Inr (1, b')
      \<and> tk_type (tk b' 1) = MARKET_ON_CLOSE)
   \<and> (\<exists>b'. market quiet (daily_book 56700000) ''spy'' 5 100 [] = Inr (1, b')
      \<and> tk_type (tk b' 1) = MARKET_ON_OPEN)"
proof -
  have f: "allow_orders (daily_book t)" "daily_conversion (daily_book t)"
    "after_close_to_moo (daily_book t)" "\<not> carried (daily_book t)" "priced (daily_book t) ''spy''"
    "\<not> reserved_tag (daily_book t) []" "next_id (daily_book t) = 1"
    "clock (daily_book t) = (738000, t)" for t
    by (simp_all add: daily_book_def new_book_def priced_def dget_or_def reserved_tag_def
        starts_with_def GENERATED_TAG_PREFIX_def upper_spy)
  have c: "close_time_ms 738000 = 57600000" by code_simp
  show ?thesis
    using daily_market_conversion [OF f(1-6), of 56640000 5 100]
      daily_market_conversion [OF f(1-6), of 56700000 5 100] by (auto simp: f c)
qed

section \<open>The trailing stop\<close>

text \<open>The level one bar proposes, and the stop after a list of bars (high, low) from \<open>stop_price = None\<close>.\<close>

definition proposed :: "bool \<Rightarrow> pyfloat \<Rightarrow> bool \<Rightarrow> pyfloat \<times> pyfloat \<Rightarrow> pyfloat" where
  "proposed buy amt pct hl = ratchet buy amt pct (fst hl) (snd hl) None"

definition trail ::
  "bool \<Rightarrow> pyfloat \<Rightarrow> bool \<Rightarrow> (pyfloat \<times> pyfloat) list \<Rightarrow> pyfloat option \<Rightarrow> pyfloat option" where
  "trail buy amt pct bars stop =
     foldl (\<lambda>st hl. Some (ratchet buy amt pct (fst hl) (snd hl) st)) stop bars"

lemma ratchet_Some:
  "ratchet buy amt pct h l (Some old)
     = (if buy then min old (proposed buy amt pct (h, l)) else max old (proposed buy amt pct (h, l)))"
  by (simp add: ratchet_def proposed_def Let_def)

lemma trail_from:
  "trail buy amt pct bars (Some st) =
     Some (if buy then Min (insert st (proposed buy amt pct ` set bars))
           else Max (insert st (proposed buy amt pct ` set bars)))"
proof (induction bars arbitrary: st)
  case (Cons hl bars)
  show ?case
  proof (cases bars)
    case Nil
    then show ?thesis by (cases hl) (simp add: trail_def ratchet_Some)
  next
    case (Cons b bs)
    then have ne: "proposed buy amt pct ` set bars \<noteq> {}" by simp
    from Cons.IH [of "ratchet buy amt pct (fst hl) (snd hl) (Some st)"] ne show ?thesis
      by (cases hl) (auto simp: trail_def ratchet_Some min.assoc max.assoc)
  qed
qed (simp add: trail_def)

lemma trail_None:
  assumes "bars \<noteq> []"
  shows "trail buy amt pct bars None =
     Some (if buy then Min (proposed buy amt pct ` set bars)
           else Max (proposed buy amt pct ` set bars))"
proof -
  obtain hl bs where "bars = hl # bs" using assms by (cases bars) auto
  moreover have "trail buy amt pct (hl # bs) None = trail buy amt pct bs (Some (proposed buy amt pct hl))"
    by (simp add: trail_def proposed_def)
  ultimately show ?thesis by (simp add: trail_from)
qed

fun bars_run :: "sym \<Rightarrow> int \<Rightarrow> (pyfloat \<times> pyfloat \<times> pyfloat \<times> pyfloat) list \<Rightarrow> obook \<Rightarrow> obook res" where
  "bars_run k i [] b = Inr b"
| "bars_run k i ((op, h, l, c) # bs) b =
     bind_res (resting_step quiet k op h l c None i b) (bars_run k i bs)"

definition high_low :: "pyfloat \<times> pyfloat \<times> pyfloat \<times> pyfloat \<Rightarrow> pyfloat \<times> pyfloat" where
  "high_low bar = (case bar of (op, h, l, c) \<Rightarrow> (h, l))"

definition breached ::
  "bool \<Rightarrow> pyfloat \<times> pyfloat \<times> pyfloat \<times> pyfloat \<Rightarrow> pyfloat option \<Rightarrow> bool" where
  "breached buy bar stop = (case bar of (op, h, l, c) \<Rightarrow> stop_triggered buy h l stop)"

lemma fill_no_ledger:
  assumes ok: "book_ok b" and nl: "ob_ledger b = NoLedger"
  shows "\<exists>hit b'. fill quiet b i px slip = Inr (hit, b') \<and> \<not> is_open (tk b' i)"
proof -
  have a: "broker_answer b i = None" using nl by (simp add: broker_answer_def Let_def view_take_def)
  have bk: "books (ob_sleeve (b\<lparr>ob_ledger := NoLedger\<rparr>))" using ok by (simp add: book_ok_def)
  have "fill quiet b i px slip = model_fill quiet (b\<lparr>ob_ledger := NoLedger\<rparr>) i (fill_price b i px slip)"
    using a nl by (simp add: fill_by_answer Let_def view_take_def)
  with model_fill_quiet [OF bk, of i "fill_price b i px slip" "[]"] show ?thesis
    by (auto simp: is_open_def split: if_splits)
qed

lemma trailing_step:
  assumes ok: "book_ok b" and nl: "ob_ledger b = NoLedger" and o: "is_open (tk b i)"
    and x: "tk_sym (tk b i) = k" "tk_type (tk b i) = TRAILING_STOP" "tk_trail (tk b i) = Some amt"
  shows "\<exists>b'. resting_step quiet k op h l c None i b = Inr b' \<and> book_ok b'
    \<and> (let buy = 0 < tk_qty (tk b i);
           st = Some (ratchet buy amt (tk_trail_pct (tk b i)) h l (tk_stop (tk b i)))
       in if stop_triggered buy h l st then \<not> is_open (tk b' i)
          else tk b' i = (tk b i)\<lparr>tk_stop := st\<rparr> \<and> ob_ledger b' = NoLedger)"
proof -
  let ?buy = "0 < tk_qty (tk b i)"
  let ?st = "ratchet ?buy amt (tk_trail_pct (tk b i)) h l (tk_stop (tk b i))"
  let ?b1 = "put_ticket b i ((tk b i)\<lparr>tk_stop := Some ?st\<rparr>)"
  have ok1: "book_ok ?b1"
    using good_put_same [OF ok tk_open [OF o], of "(tk b i)\<lparr>tk_stop := Some ?st\<rparr>"] o
      tk_live [OF tk_open [OF o]] by (simp add: is_open_def closed_def good_def)
  have nl1: "ob_ledger ?b1 = NoLedger" using nl by (simp add: put_ticket_def)
  have st: "resting_step quiet k op h l c None i b = simulate_bar quiet op h l c i b"
    using o x nl by (simp add: resting_step_def Let_def)
  show ?thesis
  proof (cases "stop_fill ?buy op h l (Some ?st)")
    case None
    then have "\<not> stop_triggered ?buy h l (Some ?st)"
      by (auto simp: fill_defs split: if_splits)
    with None st x ok1 nl1 show ?thesis by (simp add: simulate_bar_def Let_def)
  next
    case (Some px)
    then have t: "stop_triggered ?buy h l (Some ?st)" by (auto simp: fill_defs split: if_splits)
    obtain hit b' where f: "fill quiet ?b1 i px (slippage b (tk_sym (tk b i))) = Inr (hit, b')"
      and c: "\<not> is_open (tk b' i)"
      using fill_no_ledger [OF ok1 nl1] by blast
    have "live ?b1 i" using o by (intro tk_open) (simp add: is_open_def)
    from quiet.fill_good [OF ok1 this f] have "book_ok b'" by (rule good_ok)
    with Some st x f c t show ?thesis by (simp add: simulate_bar_def Let_def)
  qed
qed

lemma closed_stays:
  "\<not> is_open (tk b i) \<Longrightarrow> bars_run k i bars b = Inr b"
  by (induction bars) (auto simp: resting_step_def Let_def)

lemma bars_run_trailing:
  assumes "book_ok b" "ob_ledger b = NoLedger" "is_open (tk b i)" "tk_sym (tk b i) = k"
    "tk_type (tk b i) = TRAILING_STOP" "tk_trail (tk b i) = Some amt"
    "0 < tk_qty (tk b i) \<longleftrightarrow> buy" "tk_trail_pct (tk b i) = pct"
  shows "\<exists>b'. bars_run k i bars b = Inr b'
    \<and> (if \<exists>n < length bars. breached buy (bars ! n)
              (trail buy amt pct (map high_low (take (Suc n) bars)) (tk_stop (tk b i)))
       then \<not> is_open (tk b' i)
       else tk b' i = (tk b i)\<lparr>tk_stop := trail buy amt pct (map high_low bars) (tk_stop (tk b i))\<rparr>)"
  using assms
proof (induction bars arbitrary: b)
  case Nil
  then show ?case by (simp add: trail_def)
next
  case (Cons bar bars)
  obtain op h l c where bar: "bar = (op, h, l, c)" by (cases bar) auto
  let ?st = "ratchet buy amt pct h l (tk_stop (tk b i))"
  obtain b1 where b1: "resting_step quiet k op h l c None i b = Inr b1" "book_ok b1"
    and s: "if stop_triggered buy h l (Some ?st) then \<not> is_open (tk b1 i)
        else tk b1 i = (tk b i)\<lparr>tk_stop := Some ?st\<rparr> \<and> ob_ledger b1 = NoLedger"
    using trailing_step [OF Cons.prems(1-6), of op h l c] Cons.prems(7,8) by (auto simp: Let_def)
  have tr: "trail buy amt pct (map high_low (bar # bs)) (tk_stop (tk b i))
      = trail buy amt pct (map high_low bs) (Some ?st)" for bs
    by (simp add: trail_def bar high_low_def)
  have br: "breached buy bar (trail buy amt pct (map high_low [bar]) (tk_stop (tk b i)))
      = stop_triggered buy h l (Some ?st)"
    unfolding tr by (simp add: trail_def breached_def bar)
  have ex: "(\<exists>n < length (bar # bars). P n) = (P 0 \<or> (\<exists>n < length bars. P (Suc n)))" for P
    by (simp add: Ex_less_Suc2)
  show ?case
  proof (cases "stop_triggered buy h l (Some ?st)")
    case True
    with s br b1 show ?thesis
      unfolding ex by (simp add: bar closed_stays)
  next
    case False
    with s have t1: "tk b1 i = (tk b i)\<lparr>tk_stop := Some ?st\<rparr>" and n1: "ob_ledger b1 = NoLedger"
      by auto
    have "is_open (tk b1 i)" "tk_sym (tk b1 i) = k" "tk_type (tk b1 i) = TRAILING_STOP"
      "tk_trail (tk b1 i) = Some amt" "0 < tk_qty (tk b1 i) \<longleftrightarrow> buy" "tk_trail_pct (tk b1 i) = pct"
      "tk_stop (tk b1 i) = Some ?st"
      using t1 Cons.prems by (simp_all add: is_open_def)
    note ih = Cons.IH [OF b1(2) n1 this(1-6), unfolded this(7)]
    have sh: "tk b1 i\<lparr>tk_stop := y\<rparr> = tk b i\<lparr>tk_stop := y\<rparr>" for y by (simp add: t1)
    have run: "bars_run k i (bar # bars) b = bars_run k i bars b1" by (simp add: bar b1(1))
    have np: "\<not> breached buy ((bar # bars) ! 0) (trail buy amt pct
        (map high_low (take (Suc 0) (bar # bars))) (tk_stop (tk b i)))"
      using br False by simp
    from ih show ?thesis unfolding ex run sh using np by (simp only: take_Suc_Cons nth_Cons_Suc tr) simp
  qed
qed


definition trail_book :: obook where
  "trail_book =
     (case trailing_stop quiet demo_book ''SPY'' (- 10) 5 False [] of Inr (_, b) \<Rightarrow> b | Inl _ \<Rightarrow> demo_book)"

lemma trail_book_facts:
  "book_ok trail_book" "ob_ledger trail_book = NoLedger" "is_open (tk trail_book 1)"
  "tk_sym (tk trail_book 1) = ''SPY''" "tk_type (tk trail_book 1) = TRAILING_STOP"
  "tk_trail (tk trail_book 1) = Some 5" "0 < tk_qty (tk trail_book 1) \<longleftrightarrow> False"
  "tk_trail_pct (tk trail_book 1) = False" "tk_stop (tk trail_book 1) = None"
proof -
  have ok: "book_ok demo_book" unfolding demo_book_def by (rule new_book_ok [OF books_new])
  show "book_ok trail_book"
    using quiet.trailing_stop_good [OF ok, of "''SPY''" "- 10" 5 False "[]"] ok
    by (auto simp: trail_book_def good_def split: sum.splits)
qed code_simp+

lemma trail_levels:
  "proposed False 5 False (110, 108) = 105" "proposed False 5 False (120, 116) = 115"
  by code_simp+


section \<open>Armed orders\<close>

text \<open>A stop-limit or limit-if-touched order never trades on the bar that arms it, whatever that
  bar's range: an unarmed one leaves the sleeve, the open list and the event log untouched and
  changes only its own armed flag, exactly when the bar trades through the trigger; once armed
  it is worked as a limit order.\<close>

theorem arming_bar_never_fills:
  assumes "tk_type (tk b i) \<in> {STOP_LIMIT, LIMIT_IF_TOUCHED}"
  shows "simulate_bar cb op h l c i b
    = (if tk_triggered (tk b i)
       then case limit_fill (0 < tk_qty (tk b i)) op h l (tk_limit (tk b i)) of
              None \<Rightarrow> Inr b | Some px \<Rightarrow> bind_res (fill cb b i px 0) (\<lambda>(_, b'). Inr b')
       else if (if tk_type (tk b i) = STOP_LIMIT then stop_triggered else touch_triggered)
                 (0 < tk_qty (tk b i)) h l (tk_stop (tk b i))
       then Inr (b\<lparr>tickets := dput (tickets b) i ((tk b i)\<lparr>tk_triggered := True\<rparr>)\<rparr>)
       else Inr b)"
  using assms by (auto simp: simulate_bar_def Let_def put_ticket_def)

definition armed_book :: obook where
  "armed_book =
     (case stop_limit quiet demo_book ''SPY'' 10 105 110 [] of Inr (_, b) \<Rightarrow> b | Inl _ \<Rightarrow> demo_book)"

lemma armed_book_facts:
  "tk_type (tk armed_book 1) \<in> {STOP_LIMIT, LIMIT_IF_TOUCHED}"
  "tk_triggered (tk armed_book 1) = False" "tk_qty (tk armed_book 1) = 10"
  "tk_stop (tk armed_book 1) = Some 105" "tk_type (tk armed_book 1) = STOP_LIMIT"
  by code_simp+

lemma put_ticket_sleeve [simp]: "ob_sleeve (put_ticket b i x) = ob_sleeve b"
  by (simp add: put_ticket_def)

text \<open>A bar from 100 to 120 runs through the trigger of 105 and the limit of 110, and only arms.\<close>

theorem arming_bar_never_fills_witness:
  "\<exists>b'. simulate_bar quiet 100 120 100 119 1 armed_book = Inr b'
    \<and> tk_triggered (tk b' 1) \<and> ob_sleeve b' = ob_sleeve armed_book"
  by (subst arming_bar_never_fills [OF armed_book_facts(1)])
    (simp add: armed_book_facts stop_triggered_def put_ticket_def [symmetric])

section \<open>The buying-power gate\<close>

text \<open>A short account whose margin is used up: 50 shares short at 100 against 9,000 of cash, price 160,
  so buying power is -6,000.\<close>

definition squeezed :: obook where
  "squeezed =
     (let s = new_sleeve 9000 2 ''last_fill'';
          s1 = s\<lparr>qty := [(''SPY'', - 50)], avg_cost := [(''SPY'', 100)]\<rparr>
      in (new_book s1 (738000, 36000000) NoLedger)\<lparr>prices := [(''SPY'', 160)]\<rparr>)"

definition cover :: "int \<Rightarrow> int option" where
  "cover q =
     (case market quiet squeezed ''SPY'' q 160 [] of
        Inl _ \<Rightarrow> None | Inr (_, b) \<Rightarrow> Some (pos (ob_sleeve b) ''SPY''))"

text \<open>The comment of \<open>_fill\<close> says that reducing a position always clears.  The gate compares the added
  exposure, negative for a reduction, with a buying power that may be more negative still: buying
  back 10 of the 50 shares is refused and the position stays, while closing it whole clears.\<close>

theorem partial_cover_refused: "cover 10 = Some (- 50) \<and> cover 50 = Some 0"
  by code_simp

end
