(* ===== verification/LiveBook.thy ===== *)
theory LiveBook
  imports PyBase
begin

text \<open>
  The live book of \<open>dqengine/live/book.py\<close>: the cache of one broker connection whose freshness earns
  the fast path.  \<open>livebook\<close> holds the fields of \<open>Book\<close> (the credentials cache is not state of any
  decision), \<open>border\<close> an open-order dict with the keys the live code reads.  \<open>time.time()\<close> is an
  argument of every method that reads the clock; the lock makes each method one step, so a run
  of the book is a list of \<open>book_call\<close>s.
\<close>

section \<open>State\<close>

record border =
  bo_id :: "string option"
  bo_cid :: "string option"
  bo_sym :: "string option"
  bo_side :: "string option"
  bo_type :: "string option"
  bo_qty :: "pyfloat option"
  bo_limit :: "pyfloat option"
  bo_stop :: "pyfloat option"
  bo_trail :: "pyfloat option"
  bo_status :: "string option"

record sent =
  st_sym :: sym
  st_side :: string
  st_qty :: pyfloat
  st_at :: pyfloat

record livebook =
  bk_positions :: "(sym, pyfloat) dict"
  bk_open :: "(string, border) dict"
  bk_inflight :: "(string, sent) dict"
  bk_recent :: "sent list"
  bk_seq :: "(string, int) dict"
  bk_reconciled :: pyfloat
  bk_frozen :: "string option"

definition RECONCILE_FRESH_S :: pyfloat where "RECONCILE_FRESH_S = 90"

definition RECENT_S :: pyfloat where "RECENT_S = 5"

definition INFLIGHT_MAX_S :: pyfloat where "INFLIGHT_MAX_S = 20"

definition new_livebook :: livebook where
  "new_livebook = \<lparr>bk_positions = [], bk_open = [], bk_inflight = [], bk_recent = [], bk_seq = [],
     bk_reconciled = 0, bk_frozen = Some ''never audited''\<rparr>"

section \<open>The fast path's verdict\<close>

datatype verdict = FastOk | SeamOff | FrozenFor string | StaleBy pyfloat | NowFrozen string

definition unacked_why :: "string \<Rightarrow> string" where
  "unacked_why cid = ''inflight '' @ cid @ '' unacked >20s''"

fun stale_inflight :: "(string, sent) dict \<Rightarrow> pyfloat \<Rightarrow> string option" where
  "stale_inflight [] now = None"
| "stale_inflight ((cid, e) # es) now =
     (if INFLIGHT_MAX_S < fsub now (st_at e) then Some cid else stale_inflight es now)"

definition fast_path_ok :: "bool \<Rightarrow> livebook \<Rightarrow> pyfloat \<Rightarrow> verdict \<times> livebook" where
  "fast_path_ok seam b now =
     (if \<not> seam then (SeamOff, b)
      else if truthy (bk_frozen b) then (FrozenFor (str_or (bk_frozen b)), b)
      else let age = fsub now (bk_reconciled b)
           in if RECONCILE_FRESH_S < age then (StaleBy age, b)
              else case stale_inflight (bk_inflight b) now of
                     Some cid \<Rightarrow> (NowFrozen (unacked_why cid), b\<lparr>bk_frozen := Some (unacked_why cid)\<rparr>)
                   | None \<Rightarrow> (FastOk, b))"

definition freeze :: "livebook \<Rightarrow> string \<Rightarrow> livebook" where
  "freeze b reason = b\<lparr>bk_frozen := Some (take 300 reason)\<rparr>"

section \<open>Updates\<close>

definition gc :: "pyfloat \<Rightarrow> livebook \<Rightarrow> livebook" where
  "gc now b = b\<lparr>bk_recent := filter (\<lambda>r. fsub now (st_at r) < RECENT_S) (bk_recent b)\<rparr>"

definition note_submit :: "livebook \<Rightarrow> string \<Rightarrow> string \<Rightarrow> string \<Rightarrow> pyfloat \<Rightarrow> pyfloat \<Rightarrow> livebook" where
  "note_submit b cid symbol side q now =
     (let e = \<lparr>st_sym = upper symbol, st_side = side, st_qty = q, st_at = now\<rparr>
      in gc now (b\<lparr>bk_inflight := dput (bk_inflight b) cid e, bk_recent := bk_recent b @ [e]\<rparr>))"

definition gone_status :: "string list" where
  "gone_status = [''canceled'', ''cancelled'', ''rejected'', ''expired'']"

definition note_ack :: "livebook \<Rightarrow> string \<Rightarrow> border option \<Rightarrow> livebook" where
  "note_ack b cid order =
     (let b1 = b\<lparr>bk_inflight := ddel (bk_inflight b) cid\<rparr>
      in case order of
           None \<Rightarrow> b1
         | Some od \<Rightarrow>
             let key = str_or (opt_or (opt_or (bo_id od) (bo_cid od)) (Some cid));
                 status = lower (str_or (bo_status od))
             in if key = [] \<or> status \<in> set gone_status then b1
                else b1\<lparr>bk_open := dput (bk_open b1) key od\<rparr>)"

definition note_reject :: "livebook \<Rightarrow> string \<Rightarrow> livebook" where
  "note_reject b cid = b\<lparr>bk_inflight := ddel (bk_inflight b) cid\<rparr>"

definition note_cancel :: "livebook \<Rightarrow> string \<Rightarrow> livebook" where
  "note_cancel b boid = b\<lparr>bk_open := ddel (bk_open b) boid\<rparr>"

text \<open>One row of \<open>note_fills\<close>: broker order id, client order id, symbol, signed quantity.\<close>

type_synonym fill_row = "string option \<times> string option \<times> string option \<times> pyfloat"

definition fill_key :: "(string, border) dict \<Rightarrow> string option \<Rightarrow> string option \<Rightarrow> string option" where
  "fill_key oo boid cid =
     (if truthy boid \<and> dget oo (str_or boid) \<noteq> None then boid
      else if truthy cid
      then map_option fst (List.find (\<lambda>(k, od). Some k = cid \<or> bo_cid od = cid) oo)
      else None)"

definition note_fill :: "bool \<Rightarrow> livebook \<Rightarrow> fill_row \<Rightarrow> livebook" where
  "note_fill positions b row =
     (case row of (boid, cid, symbol, q) \<Rightarrow>
        let s = upper (str_or symbol);
            b1 = (if positions
                  then b\<lparr>bk_positions := dput (bk_positions b) s (fadd (dget_or (bk_positions b) s 0) q)\<rparr>
                  else b)
        in case fill_key (bk_open b1) boid cid of
             None \<Rightarrow> b1
           | Some key \<Rightarrow>
               case dget (bk_open b1) key of
                 None \<Rightarrow> b1
               | Some od \<Rightarrow>
                   let left = fsub (num_or0 (bo_qty od)) \<bar>q\<bar>
                   in b1\<lparr>bk_open :=
                        (if left \<le> fl (1 / 10 ^ 9) then ddel (bk_open b1) key
                         else dput (bk_open b1) key (od\<lparr>bo_qty := Some left\<rparr>))\<rparr>)"

definition note_fills :: "livebook \<Rightarrow> fill_row list \<Rightarrow> bool \<Rightarrow> livebook" where
  "note_fills b rows positions = foldl (note_fill positions) b rows"

section \<open>The audit\<close>

definition settling :: "livebook \<Rightarrow> sym list" where
  "settling b = map st_sym (bk_recent b) @ map (\<lambda>(_, e). st_sym e) (bk_inflight b)"

definition fetched_positions :: "(string option \<times> pyfloat) list \<Rightarrow> (sym, pyfloat) dict" where
  "fetched_positions ps = foldl (\<lambda>d (s, q). dput d (upper (str_or s)) q) [] ps"

definition fetched_orders :: "border list \<Rightarrow> (string, border) dict" where
  "fetched_orders os =
     foldl (\<lambda>d od. if truthy (bo_id od) then dput d (str_or (bo_id od)) od else d) [] os"

definition keep_settling :: "(sym, pyfloat) dict \<Rightarrow> (sym, pyfloat) dict \<Rightarrow> sym \<Rightarrow> (sym, pyfloat) dict"
where
  "keep_settling own d s = (case dget own s of Some q \<Rightarrow> dput d s q | None \<Rightarrow> ddel d s)"

definition keep_order ::
  "sym list \<Rightarrow> string list \<Rightarrow> (string, border) dict \<Rightarrow> string \<times> border \<Rightarrow> (string, border) dict" where
  "keep_order settle cids d ko =
     (case ko of (k, od) \<Rightarrow>
        if upper (str_or (bo_sym od)) \<notin> set settle then d
        else if dget d k \<noteq> None \<or> str_or (bo_cid od) \<in> set cids then d
        else dput d k od)"

definition apply_audit ::
  "livebook \<Rightarrow> (string option \<times> pyfloat) list \<Rightarrow> border list \<Rightarrow> pyfloat \<Rightarrow> livebook" where
  "apply_audit b0 positions open_orders now =
     (let b = gc now b0;
          settle = settling b;
          new_pos = foldl (keep_settling (bk_positions b)) (fetched_positions positions) settle;
          fetched = fetched_orders open_orders;
          cids = filter (\<lambda>c. c \<noteq> []) (map (\<lambda>(_, od). str_or (bo_cid od)) fetched);
          new_oo = foldl (keep_order settle cids) fetched (bk_open b)
      in b\<lparr>bk_positions := new_pos, bk_open := new_oo,
           bk_inflight := filter (\<lambda>(_, e). fsub now (st_at e) < 2) (bk_inflight b),
           bk_reconciled := now, bk_frozen := None\<rparr>)"

section \<open>Reads\<close>

definition recent_symbols :: "livebook \<Rightarrow> pyfloat \<Rightarrow> sym list \<times> livebook" where
  "recent_symbols b now = (let b' = gc now b in (settling b', b'))"

definition intent_is_new :: "livebook \<Rightarrow> string \<Rightarrow> int \<Rightarrow> bool \<times> livebook" where
  "intent_is_new b dep seq =
     (if seq \<le> dget_or (bk_seq b) dep 0 then (False, b)
      else (True, b\<lparr>bk_seq := dput (bk_seq b) dep seq\<rparr>))"

record health =
  he_age :: "pyfloat option"
  he_frozen :: "string option"
  he_inflight :: nat
  he_open :: nat

definition health :: "livebook \<Rightarrow> pyfloat \<Rightarrow> health" where
  "health b now =
     \<lparr>he_age = (if bk_reconciled b \<noteq> 0 then Some (py_round (fsub now (bk_reconciled b)) 0) else None),
      he_frozen = bk_frozen b, he_inflight = length (bk_inflight b), he_open = length (bk_open b)\<rparr>"

section \<open>Runs\<close>

datatype book_call =
    Submit string string string pyfloat pyfloat
  | Ack string "border option"
  | Rejected string
  | Cancelled string
  | Filled "fill_row list" bool
  | Audit "(string option \<times> pyfloat) list" "border list" pyfloat
  | Freeze string
  | Intent string int
  | Check bool pyfloat
  | Recent pyfloat

fun book_step :: "livebook \<Rightarrow> book_call \<Rightarrow> livebook" where
  "book_step b (Submit cid s side q now) = note_submit b cid s side q now"
| "book_step b (Ack cid od) = note_ack b cid od"
| "book_step b (Rejected cid) = note_reject b cid"
| "book_step b (Cancelled boid) = note_cancel b boid"
| "book_step b (Filled rows ps) = note_fills b rows ps"
| "book_step b (Audit ps oo now) = apply_audit b ps oo now"
| "book_step b (Freeze why) = freeze b why"
| "book_step b (Intent dep seq) = snd (intent_is_new b dep seq)"
| "book_step b (Check seam now) = snd (fast_path_ok seam b now)"
| "book_step b (Recent now) = snd (recent_symbols b now)"

abbreviation run_book :: "book_call list \<Rightarrow> livebook" where
  "run_book calls \<equiv> foldl book_step new_livebook calls"

definition livebook_ok :: "livebook \<Rightarrow> bool" where
  "livebook_ok b \<longleftrightarrow> dict_ok (bk_positions b) \<and> dict_ok (bk_open b) \<and> dict_ok (bk_inflight b)"

lemma fold_dict_ok:
  "(\<And>d x. dict_ok d \<Longrightarrow> dict_ok (f d x)) \<Longrightarrow> dict_ok d \<Longrightarrow> dict_ok (foldl f d xs)"
  by (induction xs arbitrary: d) auto

lemma fetched_orders_ok: "dict_ok (fetched_orders os)"
  unfolding fetched_orders_def by (rule fold_dict_ok) auto

lemma dict_ok_filter: "dict_ok d \<Longrightarrow> dict_ok (filter P d)"
  unfolding dict_ok_def by (rule distinct_map_filter)

lemma apply_audit_ok: "livebook_ok b \<Longrightarrow> livebook_ok (apply_audit b ps oo now)"
  unfolding livebook_ok_def apply_audit_def gc_def Let_def fetched_positions_def
  by (auto simp: keep_settling_def keep_order_def
      intro!: fold_dict_ok fetched_orders_ok dict_ok_filter split: option.split prod.split)

lemma note_fill_ok: "livebook_ok b \<Longrightarrow> livebook_ok (note_fill positions b row)"
  by (cases row) (auto simp: livebook_ok_def note_fill_def Let_def split: option.split)

lemma note_fills_ok: "livebook_ok b \<Longrightarrow> livebook_ok (note_fills b rows positions)"
  unfolding note_fills_def by (induction rows arbitrary: b) (auto intro: note_fill_ok)

lemma book_step_ok: "livebook_ok b \<Longrightarrow> livebook_ok (book_step b c)"
proof (cases c)
  case (Ack cid od)
  then show "livebook_ok b \<Longrightarrow> ?thesis"
    by (auto simp: note_ack_def livebook_ok_def Let_def split: option.split)
qed (auto simp: note_submit_def gc_def Let_def note_reject_def note_cancel_def freeze_def
      intent_is_new_def fast_path_ok_def recent_symbols_def apply_audit_ok note_fills_ok
      livebook_ok_def [of "_\<lparr>bk_recent := _\<rparr>"] split: option.split if_splits
      | simp add: livebook_ok_def)+

interpretation book_run: stepwise book_step livebook_ok
  by unfold_locales (rule book_step_ok)

lemma run_book_ok: "livebook_ok (run_book calls)"
  by (rule book_run.run_inv) (simp add: livebook_ok_def new_livebook_def)

section \<open>The fast path is earned by an audit\<close>

text \<open>The time of the last audit no freeze has followed.\<close>

fun clean_audit :: "pyfloat option \<Rightarrow> book_call \<Rightarrow> pyfloat option" where
  "clean_audit a (Audit ps oo now) = Some now"
| "clean_audit a (Freeze why) = None"
| "clean_audit a c = a"

definition vouched :: "livebook \<Rightarrow> pyfloat option \<Rightarrow> bool" where
  "vouched b a \<longleftrightarrow> truthy (bk_frozen b) \<or> a = Some (bk_reconciled b)"

lemma note_fill_frame [simp]:
  "bk_frozen (note_fill p b row) = bk_frozen b" "bk_reconciled (note_fill p b row) = bk_reconciled b"
  by (cases row; auto simp: note_fill_def Let_def split: option.split)+

lemma note_fills_frame [simp]:
  "bk_frozen (note_fills b rows p) = bk_frozen b"
  "bk_reconciled (note_fills b rows p) = bk_reconciled b"
  unfolding note_fills_def by (induction rows arbitrary: b) auto

lemma note_ack_frame [simp]:
  "bk_frozen (note_ack b cid od) = bk_frozen b" "bk_reconciled (note_ack b cid od) = bk_reconciled b"
  by (auto simp: note_ack_def Let_def split: option.split)

lemma step_vouched: "vouched b a \<Longrightarrow> c \<noteq> Freeze [] \<Longrightarrow> vouched (book_step b c) (clean_audit a c)"
  by (cases c) (auto simp: vouched_def note_submit_def gc_def Let_def note_reject_def
      note_cancel_def freeze_def intent_is_new_def fast_path_ok_def recent_symbols_def
      apply_audit_def truthy_def unacked_why_def split: option.split if_splits)

lemma run_vouched:
  "vouched b a \<Longrightarrow> Freeze [] \<notin> set calls \<Longrightarrow>
    vouched (foldl book_step b calls) (foldl clean_audit a calls)"
proof (induction calls arbitrary: b a)
  case (Cons c calls)
  then show ?case using step_vouched [OF Cons.prems(1), of c] Cons.IH by (cases "c = Freeze []") auto
qed simp

lemma stale_inflight_None:
  "stale_inflight es now = None \<longleftrightarrow> (\<forall>(_, e) \<in> set es. \<not> INFLIGHT_MAX_S < fsub now (st_at e))"
  by (induction es) (auto split: if_splits)

text \<open>The fast path is only ever open on the strength of an audit: after any sequence of calls on
  a new book, a verdict of "ok" means that the last audit was never followed by a freeze, was
  taken at most 90 seconds ago, and that no submission has been waiting for its answer for more
  than 20 seconds; without such an audit the book refuses.  (A freeze must name a reason, as
  every caller's does: the empty string would read as not frozen.)\<close>

theorem fast_path_needs_audit:
  assumes "Freeze [] \<notin> set calls"
  shows "if fst (fast_path_ok True (run_book calls) now) = FastOk
   then (\<exists>t. foldl clean_audit None calls = Some t \<and> fsub now t \<le> 90)
     \<and> \<not> (\<exists>cid e. (cid, e) \<in> set (bk_inflight (run_book calls)) \<and> 20 < fsub now (st_at e))
   else \<not> (\<exists>t. foldl clean_audit None calls = Some t \<and> fsub now t \<le> 90
             \<and> bk_frozen (run_book calls) = None
             \<and> \<not> (\<exists>cid e. (cid, e) \<in> set (bk_inflight (run_book calls)) \<and> 20 < fsub now (st_at e)))"
proof -
  have "vouched (run_book calls) (foldl clean_audit None calls)"
    by (rule run_vouched) (simp_all add: vouched_def new_livebook_def truthy_def assms)
  moreover have "(stale_inflight (bk_inflight b) now = None)
      = (\<not> (\<exists>cid e. (cid, e) \<in> set (bk_inflight b) \<and> 20 < fsub now (st_at e)))" for b
    unfolding stale_inflight_None by (auto simp: INFLIGHT_MAX_S_def)
  note st = this [of "run_book calls"]
  ultimately show ?thesis unfolding st [symmetric]
    by (auto simp: fast_path_ok_def vouched_def truthy_def RECONCILE_FRESH_S_def Let_def
        split: option.splits if_splits)
qed

theorem fast_path_needs_audit_witness:
  "fst (fast_path_ok True (run_book [Audit [] [] 1000, Submit ''c'' ''spy'' ''buy'' 1 1001]) 1015) = FastOk
    \<and> (\<exists>t. foldl clean_audit None [Audit [] [] 1000, Submit ''c'' ''spy'' ''buy'' 1 1001] = Some t
          \<and> fsub 1015 t \<le> 90)"
proof -
  have "fst (fast_path_ok True (run_book [Audit [] [] 1000, Submit ''c'' ''spy'' ''buy'' 1 1001]) 1015)
      = FastOk" by code_simp
  with fast_path_needs_audit [of "[Audit [] [] 1000, Submit ''c'' ''spy'' ''buy'' 1 1001]" 1015]
  show ?thesis by (simp only: if_True) simp
qed

section \<open>The audit and orders in flight\<close>

lemma dget_keep_settling:
  "dget (foldl (keep_settling own) d ss) s = (if s \<in> set ss then dget own s else dget d s)"
  by (induction ss arbitrary: d) (auto simp: keep_settling_def dict_simps split: option.split)

lemma dget_Cons: "dget ((k, v) # d) k' = (if k = k' then Some v else dget d k')"
  by (simp add: dget_def)

lemma dget_keep_order:
  assumes "dict_ok oo"
  shows "dget (foldl (keep_order settle cids) d oo) k =
    (case dget d k of
       Some x \<Rightarrow> Some x
     | None \<Rightarrow>
         (case dget oo k of
            None \<Rightarrow> None
          | Some x \<Rightarrow>
              if upper (str_or (bo_sym x)) \<in> set settle \<and> str_or (bo_cid x) \<notin> set cids
              then Some x else None))"
  using assms
proof (induction oo arbitrary: d)
  case (Cons ko oo)
  obtain k0 x0 where ko: "ko = (k0, x0)" by force
  have "dict_ok oo" and n: "dget oo k0 = None"
    using Cons.prems by (auto simp: ko dict_ok_def dget_None_keys dkeys_def)
  note ih = Cons.IH [OF this(1)]
  have f: "foldl (keep_order settle cids) d (ko # oo)
      = foldl (keep_order settle cids) (keep_order settle cids d ko) oo" by simp
  show ?case
    unfolding f ih
    by (cases "k = k0") (auto simp: ko keep_order_def dget_Cons n dict_simps split: option.split)
qed (auto simp: dict_simps split: option.split)

definition fetched_cids :: "border list \<Rightarrow> string list" where
  "fetched_cids oo = filter (\<lambda>c. c \<noteq> []) (map (\<lambda>(_, od). str_or (bo_cid od)) (fetched_orders oo))"

text \<open>What an audit leaves in the book, exactly.  A symbol with a submission of ours in the last
  five seconds or still in flight keeps the book's own position and its own orders (except those
  the fetch lists under their client id); every other position and order is the broker's; no
  freeze survives, and only submissions younger than two seconds stay in flight.\<close>

theorem audit_keeps_settling:
  fixes calls ps oo now
  defines "b \<equiv> gc now (run_book calls)"
  defines "a \<equiv> apply_audit (run_book calls) ps oo now"
  shows "dget (bk_positions a) s =
      (if s \<in> set (settling b) then dget (bk_positions b) s else dget (fetched_positions ps) s)
    \<and> dget (bk_open a) k =
      (case dget (fetched_orders oo) k of
         Some od \<Rightarrow> Some od
       | None \<Rightarrow>
           (case dget (bk_open b) k of
              None \<Rightarrow> None
            | Some od \<Rightarrow>
                if upper (str_or (bo_sym od)) \<in> set (settling b)
                   \<and> str_or (bo_cid od) \<notin> set (fetched_cids oo)
                then Some od else None))
    \<and> bk_frozen a = None
    \<and> (\<forall>cid e. (cid, e) \<in> set (bk_inflight a)
         \<longleftrightarrow> (cid, e) \<in> set (bk_inflight b) \<and> fsub now (st_at e) < 2)"
proof -
  have "dict_ok (bk_open b)"
    using run_book_ok [of calls] by (simp add: b_def gc_def livebook_ok_def)
  note oo = dget_keep_order [OF this, of "settling b" "fetched_cids oo" "fetched_orders oo" k]
  have a: "a = b\<lparr>bk_positions := foldl (keep_settling (bk_positions b)) (fetched_positions ps) (settling b),
      bk_open := foldl (keep_order (settling b) (fetched_cids oo)) (fetched_orders oo) (bk_open b),
      bk_inflight := filter (\<lambda>(_, e). fsub now (st_at e) < 2) (bk_inflight b),
      bk_reconciled := now, bk_frozen := None\<rparr>"
    by (simp add: a_def apply_audit_def b_def Let_def fetched_cids_def)
  show ?thesis
  proof (intro conjI)
    show "dget (bk_open a) k =
      (case dget (fetched_orders oo) k of
         Some od \<Rightarrow> Some od
       | None \<Rightarrow>
           (case dget (bk_open b) k of
              None \<Rightarrow> None
            | Some od \<Rightarrow>
                if upper (str_or (bo_sym od)) \<in> set (settling b)
                   \<and> str_or (bo_cid od) \<notin> set (fetched_cids oo)
                then Some od else None))"
      using oo by (simp add: a)
  qed (auto simp: a dget_keep_settling)
qed

text \<open>The book is never blind to its own submit (the duplicate-order bug of the ack without an
  id): an order acknowledged without a broker id stays in the book under its client id through
  every audit of the next five seconds, whatever the fetch says about positions, unless the fetch
  itself lists that client id; and the position of its symbol is not overwritten meanwhile.\<close>

theorem own_submit_survives_audit:
  fixes calls cid od symbol side q t0 ps oo t1
  defines "b \<equiv> note_ack (note_submit (run_book calls) cid symbol side q t0) cid (Some od)"
  assumes idless: "\<not> truthy (bo_id od)" "bo_cid od = Some cid" "bo_sym od = Some (upper symbol)"
    and alive: "cid \<noteq> []" "lower (str_or (bo_status od)) \<notin> set gone_status"
    and soon: "fsub t0 t0 < RECENT_S" "fsub t1 t0 < RECENT_S"
    and unseen: "cid \<notin> set (fetched_cids oo)" "dget (fetched_orders oo) cid = None"
  shows "dget (bk_open (apply_audit b ps oo t1)) cid = Some od
    \<and> dget (bk_positions (apply_audit b ps oo t1)) (upper symbol)
        = dget (bk_positions (run_book calls)) (upper symbol)"
proof -
  let ?calls = "calls @ [Submit cid symbol side q t0, Ack cid (Some od)]"
  have b: "run_book ?calls = b" by (simp add: b_def)
  have k: "str_or (opt_or (opt_or (bo_id od) (bo_cid od)) (Some cid)) = cid"
    using idless alive by (auto simp: opt_or_def truthy_def str_or_def)
  have mem: "upper symbol \<in> set (settling (gc t1 b))"
    using soon alive k
    by (force simp: b_def note_ack_def note_submit_def gc_def settling_def Let_def)
  have own: "dget (bk_open (gc t1 b)) cid = Some od"
    using alive k by (simp add: b_def note_ack_def Let_def gc_def dict_simps)
  have pos: "bk_positions (gc t1 b) = bk_positions (run_book calls)"
    using alive k by (simp add: b_def note_ack_def note_submit_def Let_def gc_def)
  note res = audit_keeps_settling [where calls = ?calls and now = t1 and ps = ps and oo = oo
      and k = cid and s = "upper symbol", unfolded b]
  show ?thesis
    using conjunct1 [OF res] conjunct1 [OF conjunct2 [OF res]] idless unseen mem
    by (simp add: own pos str_or_def)
qed

definition idless_ack :: border where
  "idless_ack = \<lparr>bo_id = Some [], bo_cid = Some ''dq-1'', bo_sym = Some ''SPY'', bo_side = Some ''buy'',
     bo_type = Some ''market'', bo_qty = Some 10, bo_limit = None, bo_stop = None, bo_trail = None,
     bo_status = Some []\<rparr>"

text \<open>An audit two seconds after the submit lists no order and still shows the old position.\<close>

theorem own_submit_survives_audit_witness:
  "dget (bk_open (apply_audit (note_ack (note_submit (run_book [Audit [(Some ''SPY'', 7)] [] 1000])
       ''dq-1'' ''spy'' ''buy'' 10 1001) ''dq-1'' (Some idless_ack)) [(Some ''SPY'', 9)] [] 1003)) ''dq-1''
     = Some idless_ack
   \<and> dget (bk_positions (apply_audit (note_ack (note_submit (run_book [Audit [(Some ''SPY'', 7)] [] 1000])
       ''dq-1'' ''spy'' ''buy'' 10 1001) ''dq-1'' (Some idless_ack)) [(Some ''SPY'', 9)] [] 1003)) ''SPY''
     = Some 7"
proof -
  have u: "upper ''spy'' = ''SPY''" by code_simp
  have f: "fsub 1001 1001 < RECENT_S" "fsub 1003 1001 < RECENT_S" by code_simp+
  have p: "dget (bk_positions (run_book [Audit [(Some ''SPY'', 7)] [] 1000])) ''SPY'' = Some 7"
    by code_simp
  have nil: "fetched_cids [] = []" "dget (fetched_orders []) ''dq-1'' = None"
    by (simp_all add: fetched_cids_def fetched_orders_def dict_simps)
  show ?thesis
    using own_submit_survives_audit [where od = idless_ack and cid = "''dq-1''" and symbol = "''spy''"
        and ?t0.0 = 1001 and ?t1.0 = 1003 and oo = "[]" and side = "''buy''" and q = 10
        and calls = "[Audit [(Some ''SPY'', 7)] [] 1000]" and ps = "[(Some ''SPY'', 9)]"] f p
    by (simp add: u nil idless_ack_def truthy_def str_or_def lower_def gone_status_def)
qed

section \<open>Intents are applied once\<close>

text \<open>A stream of intents (deployment, sequence number): those the book accepts, in order.\<close>

fun accepted :: "livebook \<Rightarrow> (string \<times> int) list \<Rightarrow> (string \<times> int) list" where
  "accepted b [] = []"
| "accepted b ((dep, seq) # xs) =
     (let (new, b') = intent_is_new b dep seq in if new then (dep, seq) # accepted b' xs else accepted b' xs)"

definition seqs_of :: "string \<Rightarrow> (string \<times> int) list \<Rightarrow> int list" where
  "seqs_of dep xs = map snd (filter (\<lambda>(d, _). d = dep) xs)"

lemma seqs_of_accepted:
  "seqs_of dep (accepted b ((d, n) # xs)) =
     (if d = dep \<and> dget_or (bk_seq b) dep 0 < n then [n] else [])
       @ seqs_of dep (accepted (snd (intent_is_new b d n)) xs)"
  by (auto simp: seqs_of_def intent_is_new_def)

lemma seqs_of_Cons: "seqs_of dep ((d, n) # xs) = (if d = dep then [n] else []) @ seqs_of dep xs"
  by (simp add: seqs_of_def)

lemma seq_after:
  "dget_or (bk_seq (snd (intent_is_new b d n))) dep 0 =
     (if d = dep then max n (dget_or (bk_seq b) dep 0) else dget_or (bk_seq b) dep 0)"
  by (auto simp: intent_is_new_def dict_simps split: option.split)

lemma accepted_above:
  "n \<in> set (seqs_of dep (accepted b xs)) \<Longrightarrow> dget_or (bk_seq b) dep 0 < n"
proof (induction xs arbitrary: b)
  case (Cons x xs)
  obtain d m where x: "x = (d, m)" by force
  from Cons.prems have "(d = dep \<and> dget_or (bk_seq b) dep 0 < m \<and> n = m)
      \<or> n \<in> set (seqs_of dep (accepted (snd (intent_is_new b d m)) xs))"
    unfolding x seqs_of_accepted by (auto split: if_splits)
  with Cons.IH [of "snd (intent_is_new b d m)"] show ?case
    unfolding seq_after by (auto split: if_splits)
qed (simp add: seqs_of_def)

lemma accepted_sorted: "sorted_wrt (<) (seqs_of dep (accepted b xs))"
proof (induction xs arbitrary: b)
  case (Cons x xs)
  obtain d n where x: "x = (d, n)" by force
  show ?case
    unfolding x seqs_of_accepted
    using Cons.IH accepted_above [of _ dep "snd (intent_is_new b d n)" xs, unfolded seq_after]
    by (auto simp: sorted_wrt_append)
qed (simp add: seqs_of_def)

lemma accepted_complete:
  "m \<in> set (seqs_of dep xs) \<Longrightarrow>
    m \<le> dget_or (bk_seq b) dep 0 \<or> (\<exists>n \<in> set (seqs_of dep (accepted b xs)). m \<le> n)"
proof (induction xs arbitrary: b)
  case (Cons x xs)
  obtain d n where x: "x = (d, n)" by force
  show ?case
  proof (cases "m \<in> set (seqs_of dep xs)")
    case True
    from Cons.IH [OF this, of "snd (intent_is_new b d n)"] show ?thesis
      unfolding x seqs_of_accepted seq_after by (auto split: if_splits)
  next
    case False
    with Cons.prems have "d = dep" "m = n" by (auto simp: x seqs_of_Cons split: if_splits)
    then show ?thesis unfolding x seqs_of_accepted by auto
  qed
qed (simp add: seqs_of_def)

lemma sorted_last: "sorted_wrt (<) (x # xs) \<Longrightarrow> n \<in> set (x # xs) \<Longrightarrow> n \<le> last (x # (xs :: int list))"
proof (induction xs arbitrary: x n)
  case (Cons y ys)
  from Cons.prems have s: "sorted_wrt (<) (y # ys)" and xy: "x < y" by simp_all
  show ?case
  proof (cases "n = x")
    case True
    from Cons.IH [OF s] have "y \<le> last (y # ys)" using Cons.prems by (cases ys) auto
    with True xy show ?thesis by simp
  next
    case False
    with Cons.prems Cons.IH [OF s] show ?thesis by simp
  qed
qed simp

text \<open>Replayed or reordered intents are applied at most once: from any book, the sequence numbers
  accepted for a deployment are strictly increasing, all above the last one applied before, and
  none that was offered is above the last accepted one.\<close>

theorem intents_apply_once:
  "sorted_wrt (<) (seqs_of dep (accepted b xs))
    \<and> \<not> (\<exists>n. n \<in> set (seqs_of dep (accepted b xs)) \<and> n \<le> dget_or (bk_seq b) dep 0)
    \<and> \<not> (\<exists>m. m \<in> set (seqs_of dep xs)
          \<and> last (dget_or (bk_seq b) dep 0 # seqs_of dep (accepted b xs)) < m)"
proof -
  let ?a = "seqs_of dep (accepted b xs)" and ?s = "dget_or (bk_seq b) dep 0"
  have srt: "sorted_wrt (<) (?s # ?a)" using accepted_sorted accepted_above by simp
  have "m \<le> last (?s # ?a)" if "m \<in> set (seqs_of dep xs)" for m
  proof -
    from accepted_complete [OF that, of b] consider "m \<le> ?s" | n where "n \<in> set ?a" "m \<le> n"
      by blast
    then obtain n where n: "n \<in> set (?s # ?a)" "m \<le> n" by cases auto
    from sorted_last [OF srt n(1)] n(2) show ?thesis by linarith
  qed
  then show ?thesis
    using srt accepted_above [of _ dep b xs] by (meson leD sorted_wrt.simps(2))
qed

end
