(* ===== verification/Adapters.thy ===== *)
theory Adapters
  imports LiveBook
begin

text \<open>
  The broker views of \<open>dqengine/live/executor.py\<close>: \<open>BookAdapter\<close> (the fast path: reads the live
  book, writes through to the venue and the book), \<open>KeptView\<close> with \<open>kept_now\<close> and \<open>carve_kept\<close> (the
  account without the owner's kept shares) and \<open>AuditAdapter\<close> (real fetches, mutations recorded or
  passed through).  The venue's adapter is the parameter \<open>venue\<close>: its three calls may raise.
\<close>

section \<open>The venue\<close>

record sub_args =
  sa_sym :: string
  sa_qty :: pyfloat
  sa_side :: string
  sa_type :: string
  sa_tif :: string
  sa_limit :: "pyfloat option"
  sa_stop :: "pyfloat option"
  sa_trail :: "pyfloat option"
  sa_ext :: bool
  sa_cid :: "string option"
  sa_opens_short :: bool

text \<open>What a submit returns: a dict's \<open>id\<close> and \<open>status\<close>, or \<open>None\<close> for anything that is not a dict.\<close>

type_synonym venue_out = "(string option \<times> string option) option"

record venue =
  v_submit :: "sub_args \<Rightarrow> venue_out res"
  v_cancel :: "string \<Rightarrow> unit res"
  v_replace :: "string \<Rightarrow> pyfloat option \<Rightarrow> pyfloat option \<Rightarrow> unit res"

definition out_id :: "venue_out \<Rightarrow> string" where
  "out_id out = (case out of None \<Rightarrow> [] | Some (i, _) \<Rightarrow> str_or i)"

definition out_status :: "venue_out \<Rightarrow> string" where
  "out_status out = (case out of None \<Rightarrow> [] | Some (_, s) \<Rightarrow> str_or s)"

text \<open>The order dict recorded on an acknowledgement is built from the submit's arguments.\<close>

definition ack_order :: "sub_args \<Rightarrow> venue_out \<Rightarrow> border" where
  "ack_order a out =
     \<lparr>bo_id = Some (out_id out), bo_cid = Some (str_or (sa_cid a)), bo_sym = Some (upper (sa_sym a)),
      bo_side = Some (sa_side a), bo_type = Some (sa_type a), bo_qty = Some (sa_qty a),
      bo_limit = sa_limit a, bo_stop = sa_stop a, bo_trail = sa_trail a,
      bo_status = Some (out_status out)\<rparr>"

section \<open>BookAdapter\<close>

text \<open>The book moves also when the venue's call raises, so every mutation returns both.\<close>

definition book_submit ::
  "venue \<Rightarrow> livebook \<Rightarrow> sub_args \<Rightarrow> pyfloat \<Rightarrow> venue_out res \<times> livebook" where
  "book_submit v b a now =
     (let cid = str_or (sa_cid a);
          b1 = note_submit b cid (sa_sym a) (sa_side a) (sa_qty a) now
      in case v_submit v a of
           Inl e \<Rightarrow> (Inl e, note_reject b1 cid)
         | Inr out \<Rightarrow> (Inr out, note_ack b1 cid (Some (ack_order a out))))"

definition book_cancel :: "venue \<Rightarrow> livebook \<Rightarrow> string \<Rightarrow> unit res \<times> livebook" where
  "book_cancel v b oid =
     (case v_cancel v oid of Inl e \<Rightarrow> (Inl e, b) | Inr out \<Rightarrow> (Inr out, note_cancel b oid))"

definition book_replace ::
  "venue \<Rightarrow> livebook \<Rightarrow> string \<Rightarrow> pyfloat option \<Rightarrow> pyfloat option \<Rightarrow> unit res \<times> livebook" where
  "book_replace v b oid q lpx =
     (case v_replace v oid q lpx of
        Inl e \<Rightarrow> (Inl e, b)
      | Inr out \<Rightarrow>
          (Inr out,
           case dget (bk_open b) oid of
             None \<Rightarrow> b
           | Some od \<Rightarrow>
               b\<lparr>bk_open := dput (bk_open b) oid
                   (od\<lparr>bo_qty := (if q = None then bo_qty od else q),
                       bo_limit := (if lpx = None then bo_limit od else lpx)\<rparr>)\<rparr>))"

section \<open>Kept shares\<close>

record kept_row =
  kr_kept :: pyfloat
  kr_booked :: "pyfloat option"

definition kept_qty :: "pyfloat \<Rightarrow> kept_row \<Rightarrow> pyfloat" where
  "kept_qty held kb =
     (let k = kr_kept kb; spare = fsub held (num_or0 (kr_booked kb))
      in if 0 < k then min k (max spare 0) else if k < 0 then max k (min spare 0) else 0)"

definition kept_now :: "(sym, pyfloat) dict \<Rightarrow> (sym, kept_row) dict \<Rightarrow> (sym, pyfloat) dict" where
  "kept_now positions kept =
     foldl (\<lambda>d (s, kb). let q = kept_qty (dget_or positions s 0) kb in if q \<noteq> 0 then dput d s q else d)
       [] kept"

definition carve_kept :: "(sym, pyfloat) dict \<Rightarrow> (sym, kept_row) dict \<Rightarrow> (sym, pyfloat) dict" where
  "carve_kept positions kept =
     foldl (\<lambda>d (s, q). dput d s (fsub (dget_or d s 0) q)) positions (kept_now positions kept)"

text \<open>What \<open>KeptView.positions\<close> stores next to what it returns.\<close>

definition kept_short :: "(sym, pyfloat) dict \<Rightarrow> (sym, kept_row) dict \<Rightarrow> (sym, int) dict" where
  "kept_short now kept =
     foldl (\<lambda>d (s, kb). if \<bar>dget_or now s 0\<bar> < fsub \<bar>kr_kept kb\<bar> (fl (1 / 10 ^ 9))
                        then dput d s (if 0 < kr_kept kb then 1 else - 1) else d) [] kept"

definition kept_view ::
  "(sym, pyfloat) dict \<Rightarrow> (sym, kept_row) dict
     \<Rightarrow> (sym, pyfloat) dict \<times> (sym, pyfloat) dict \<times> (sym, int) dict" where
  "kept_view held kept =
     (let now = kept_now held kept in (carve_kept held kept, now, kept_short now kept))"

section \<open>AuditAdapter\<close>

datatype would_be =
    WouldSubmit sym string pyfloat string
  | WouldCancel sym string
  | WouldReplace string

record auditor =
  au_transmit :: bool
  au_positions :: "(string option \<times> pyfloat) list option"
  au_orders :: "border list option"
  au_recorded :: "would_be list"

definition audit_positions ::
  "auditor \<Rightarrow> (string option \<times> pyfloat) list \<Rightarrow> (string option \<times> pyfloat) list \<times> auditor" where
  "audit_positions u fetched = (fetched, u\<lparr>au_positions := Some fetched\<rparr>)"

definition audit_orders :: "auditor \<Rightarrow> border list \<Rightarrow> border list \<times> auditor" where
  "audit_orders u fetched = (fetched, u\<lparr>au_orders := Some fetched\<rparr>)"

text \<open>\<open>None\<close> is the recorded-only return; otherwise the venue's answer and the book it leaves.\<close>

definition audit_submit ::
  "venue \<Rightarrow> auditor \<Rightarrow> livebook \<Rightarrow> sub_args \<Rightarrow> pyfloat \<Rightarrow> venue_out res option \<times> auditor \<times> livebook"
where
  "audit_submit v u b a now =
     (if \<not> au_transmit u
      then (None, u\<lparr>au_recorded := au_recorded u
              @ [WouldSubmit (upper (sa_sym a)) (sa_side a) (sa_qty a) (sa_type a)]\<rparr>, b)
      else let (r, b') = book_submit v b a now in (Some r, u, b'))"

definition cancel_sym :: "auditor \<Rightarrow> string \<Rightarrow> sym" where
  "cancel_sym u oid =
     foldl (\<lambda>s od. if bo_id od = Some oid then upper (str_or (bo_sym od)) else s) []
       (case au_orders u of None \<Rightarrow> [] | Some os \<Rightarrow> os)"

definition audit_cancel ::
  "venue \<Rightarrow> auditor \<Rightarrow> livebook \<Rightarrow> string \<Rightarrow> unit res option \<times> auditor \<times> livebook" where
  "audit_cancel v u b oid =
     (if \<not> au_transmit u
      then (None, u\<lparr>au_recorded := au_recorded u @ [WouldCancel (cancel_sym u oid) oid]\<rparr>, b)
      else let (r, b') = book_cancel v b oid in (Some r, u, b'))"

definition audit_replace ::
  "venue \<Rightarrow> auditor \<Rightarrow> string \<Rightarrow> pyfloat option \<Rightarrow> pyfloat option \<Rightarrow> unit res option \<times> auditor" where
  "audit_replace v u oid q lpx =
     (if \<not> au_transmit u
      then (None, u\<lparr>au_recorded := au_recorded u @ [WouldReplace oid]\<rparr>)
      else (Some (v_replace v oid q lpx), u))"

section \<open>Kept shares stay out of reach\<close>

lemma kept_qty_bounds:
  "0 \<le> kr_kept kb \<Longrightarrow> 0 \<le> kept_qty held kb \<and> kept_qty held kb \<le> kr_kept kb
     \<and> (0 < kept_qty held kb \<longrightarrow> kept_qty held kb \<le> fsub held (num_or0 (kr_booked kb)))"
  "kr_kept kb \<le> 0 \<Longrightarrow> kept_qty held kb \<le> 0 \<and> kr_kept kb \<le> kept_qty held kb
     \<and> (kept_qty held kb < 0 \<longrightarrow> fsub held (num_or0 (kr_booked kb)) \<le> kept_qty held kb)"
  by (auto simp: kept_qty_def Let_def min_def max_def)

lemma dget_kept_now:
  assumes "dict_ok kept"
  shows "dget_or (kept_now positions kept) s 0
    = (case dget kept s of None \<Rightarrow> 0 | Some kb \<Rightarrow> kept_qty (dget_or positions s 0) kb)"
proof -
  have gen: "dget_or (foldl (\<lambda>d (s, kb). let q = kept_qty (dget_or positions s 0) kb
        in if q \<noteq> 0 then dput d s q else d) d kept) s 0
      = (case dget kept s of None \<Rightarrow> dget_or d s 0
         | Some kb \<Rightarrow> kept_qty (dget_or positions s 0) kb)"
    if "\<forall>k. dget kept k \<noteq> None \<longrightarrow> dget d k = None" for d
    using assms that
  proof (induction kept arbitrary: d)
    case (Cons x kept)
    obtain k kb where x: "x = (k, kb)" by force
    have ok: "dict_ok kept" and n: "dget kept k = None"
      using Cons.prems(1) by (auto simp: x dict_ok_def dget_None_keys dkeys_def)
    let ?q = "kept_qty (dget_or positions k 0) kb"
    let ?d = "if ?q \<noteq> 0 then dput d k ?q else d"
    have dk: "dget d k = None" using Cons.prems(2) by (simp add: x dget_Cons)
    have "\<forall>j. dget kept j \<noteq> None \<longrightarrow> dget ?d j = None"
      using Cons.prems(2) n by (auto simp: x dget_Cons dict_simps split: if_splits)
    note ih = Cons.IH [OF ok this]
    show ?case
    proof (cases "s = k")
      case True
      with ih n dk show ?thesis by (auto simp: x dget_Cons dict_simps Let_def)
    next
      case False
      with ih show ?thesis by (auto simp: x dget_Cons dict_simps Let_def split: option.split)
    qed
  qed (simp add: dict_simps)
  show ?thesis unfolding kept_now_def by (subst gen) (auto simp: dict_simps split: option.split)
qed

lemma kept_now_ok: "dict_ok (kept_now positions kept)"
  unfolding kept_now_def by (rule fold_dict_ok) (auto simp: Let_def)

lemma dget_carve:
  assumes "dict_ok ks"
  shows "dget_or (foldl (\<lambda>d (s, q). dput d s (fsub (dget_or d s 0) q)) d ks) s 0
    = (case dget ks s of None \<Rightarrow> dget_or d s 0 | Some q \<Rightarrow> fsub (dget_or d s 0) q)"
  using assms
proof (induction ks arbitrary: d)
  case (Cons x ks)
  obtain k q where x: "x = (k, q)" by force
  have ok: "dict_ok ks" and n: "dget ks k = None"
    using Cons.prems by (auto simp: x dict_ok_def dget_None_keys dkeys_def)
  from Cons.IH [OF ok] n show ?case
    by (cases "s = k") (auto simp: x dget_Cons dict_simps split: option.split)
qed (simp add: dict_simps)

text \<open>Taking the owner's kept shares out never shows a deployment less than its own book while
  the account holds that much, never more than the account holds, and never takes more than was
  kept, on the kept side only (whole shares, so binary64 is exact; a short kept position is the
  mirror image).\<close>

theorem kept_shares_bounds:
  fixes held booked k :: int
  assumes kept: "dict_ok kept" "dget kept s = Some kb"
    and num: "kr_kept kb = of_int k" "num_or0 (kr_booked kb) = of_int booked"
      "dget_or positions s 0 = of_int held"
    and small: "\<bar>held\<bar> \<le> 2 ^ 50" "\<bar>booked\<bar> \<le> 2 ^ 50" "\<bar>k\<bar> \<le> 2 ^ 50"
  shows "\<exists>rest. dget_or (carve_kept positions kept) s 0 = of_int rest
    \<and> (if 0 \<le> k then min held booked \<le> rest \<and> rest \<le> held \<and> held - rest \<le> k
       else held \<le> rest \<and> rest \<le> max held booked \<and> k \<le> held - rest)"
proof -
  let ?spare = "held - booked"
  let ?q = "if 0 < k then min k (max ?spare 0) else if k < 0 then max k (min ?spare 0) else 0"
  have sp: "fsub (of_int held) (of_int booked) = of_int ?spare"
    by (rule fsub_of_int) (use small in simp)
  have q: "kept_qty (of_int held) kb = of_int ?q"
    unfolding kept_qty_def Let_def num sp by (simp add: of_int_min of_int_max)
  have now: "dget_or (kept_now positions kept) s 0 = of_int ?q"
    using dget_kept_now [OF kept(1), of positions s] by (simp add: kept(2) num(3) q)
  have rest: "fsub (of_int held) (of_int ?q) = of_int (held - ?q)"
    by (rule fsub_of_int) (use small in \<open>auto simp: min_def max_def\<close>)
  have "dget_or (carve_kept positions kept) s 0 = of_int (held - ?q)"
    using dget_carve [OF kept_now_ok, of positions positions kept s] now rest num(3)
    by (auto simp: carve_kept_def dict_simps split: option.splits if_splits)
  then show ?thesis by (intro exI [of _ "held - ?q"]) auto
qed

theorem kept_shares_bounds_witness:
  "\<exists>rest. dget_or (carve_kept [(''SPY'', 100)] [(''SPY'', \<lparr>kr_kept = 80, kr_booked = Some 50\<rparr>)]) ''SPY'' 0
     = of_int rest \<and> 50 \<le> rest \<and> rest \<le> 100"
  using kept_shares_bounds [of "[(''SPY'', \<lparr>kr_kept = 80, kr_booked = Some 50\<rparr>)]" "''SPY''"
      "\<lparr>kr_kept = 80, kr_booked = Some 50\<rparr>" 80 50 "[(''SPY'', 100)]" 100]
  by (auto simp: dict_ok_def dget_def dget_or_def num_or0_def)

end
