(* ===== verification/Journal.thy ===== *)
theory Journal
  imports LiveBook
begin

text \<open>
  The write-ahead order ledger of \<open>dqengine/live/journal.py\<close> on its table \<open>order_journal\<close>
  (\<open>OrderJournal\<close> in \<open>persistence.py\<close>), with the transmit path's wrappers and the gates reader of
  \<open>dqengine/live/executor.py\<close>.  The table is the list of its rows in insertion order; its unique
  constraint on (connection, client order id) is what \<open>record_sending\<close> tests, as the database does.
  Times are microseconds.  \<open>market_cid\<close> hashes with SHA-1, which is the parameter \<open>sha1_8\<close>.
\<close>

section \<open>The table\<close>

datatype jstate = JSending | JSubmitted | JOpen | JFilled | JCanceled | JRejected | JAbandoned

record jrow =
  jr_conn :: string
  jr_dep :: "string option"
  jr_cid :: string
  jr_boid :: "string option"
  jr_sym :: sym
  jr_side :: string
  jr_qty :: pyfloat
  jr_filled :: pyfloat
  jr_kind :: string
  jr_limit :: "pyfloat option"
  jr_stop :: "pyfloat option"
  jr_tag :: "string option"
  jr_state :: jstate
  jr_note :: "string option"
  jr_created :: "int option"

record entry =
  en_dep :: "string option"
  en_cid :: string
  en_sym :: "string option"
  en_side :: string
  en_qty :: pyfloat
  en_type :: "string option"
  en_limit :: "pyfloat option"
  en_stop :: "pyfloat option"
  en_tag :: "string option"

definition ACK_DEADLINE_S :: int where "ACK_DEADLINE_S = 10"

definition ABANDON_S :: int where "ABANDON_S = 60"

definition j_open :: "jstate \<Rightarrow> bool" where
  "j_open st \<longleftrightarrow> st \<in> {JSending, JSubmitted, JOpen}"

definition jrow_of :: "string \<Rightarrow> entry \<Rightarrow> int \<Rightarrow> jrow" where
  "jrow_of conn e now =
     \<lparr>jr_conn = conn, jr_dep = en_dep e, jr_cid = en_cid e, jr_boid = None,
      jr_sym = upper (str_or (en_sym e)), jr_side = en_side e, jr_qty = \<bar>en_qty e\<bar>, jr_filled = 0,
      jr_kind = (if truthy (en_type e) then str_or (en_type e) else ''market''),
      jr_limit = en_limit e, jr_stop = en_stop e, jr_tag = en_tag e, jr_state = JSending,
      jr_note = None, jr_created = Some now\<rparr>"

text \<open>\<open>None\<close> for the integrity error, otherwise the table with the row.\<close>

definition record_sending :: "jrow list \<Rightarrow> string \<Rightarrow> entry \<Rightarrow> int \<Rightarrow> jrow list option" where
  "record_sending js conn e now =
     (if (\<exists>r \<in> set js. jr_conn r = conn \<and> jr_cid r = en_cid e) then None
      else Some (js @ [jrow_of conn e now]))"

text \<open>\<open>.first()\<close> of a filter, as an index.\<close>

fun first_where :: "(jrow \<Rightarrow> bool) \<Rightarrow> jrow list \<Rightarrow> nat option" where
  "first_where P [] = None"
| "first_where P (r # rs) = (if P r then Some 0 else map_option Suc (first_where P rs))"

definition row_by_cid :: "jrow list \<Rightarrow> string \<Rightarrow> string option \<Rightarrow> nat option" where
  "row_by_cid js conn cid =
     (if \<not> truthy cid then None
      else first_where (\<lambda>r. jr_conn r = conn \<and> Some (jr_cid r) = cid) js)"

definition row_by_boid :: "jrow list \<Rightarrow> string \<Rightarrow> string option \<Rightarrow> nat option" where
  "row_by_boid js conn boid =
     (if \<not> truthy boid then None
      else first_where (\<lambda>r. jr_conn r = conn \<and> jr_boid r = boid) js)"

definition set_row :: "jrow list \<Rightarrow> nat option \<Rightarrow> (jrow \<Rightarrow> jrow) \<Rightarrow> jrow list" where
  "set_row js i f = (case i of None \<Rightarrow> js | Some n \<Rightarrow> js[n := f (js ! n)])"

section \<open>Transitions\<close>

definition ack_state :: "string option \<Rightarrow> jstate" where
  "ack_state status =
     (let s = lower (str_or status)
      in if s = ''filled'' then JFilled
         else if s \<in> {''canceled'', ''cancelled'', ''expired''} then JCanceled
         else if s = ''rejected'' then JRejected
         else JSubmitted)"

definition mark_submitted ::
  "jrow list \<Rightarrow> string \<Rightarrow> string option \<Rightarrow> string option \<Rightarrow> string option \<Rightarrow> jrow list" where
  "mark_submitted js conn cid boid status =
     set_row js (row_by_cid js conn cid)
       (\<lambda>r. r\<lparr>jr_boid := (if truthy boid then boid else jr_boid r), jr_state := ack_state status\<rparr>)"

definition mark_rejected :: "jrow list \<Rightarrow> string \<Rightarrow> string option \<Rightarrow> string option \<Rightarrow> jrow list" where
  "mark_rejected js conn cid note =
     set_row js (row_by_cid js conn cid)
       (\<lambda>r. r\<lparr>jr_state := JRejected, jr_note := Some (take 300 (str_or note))\<rparr>)"

definition row_either :: "jrow list \<Rightarrow> string \<Rightarrow> string option \<Rightarrow> string option \<Rightarrow> nat option" where
  "row_either js conn cid boid =
     (case row_by_cid js conn cid of Some i \<Rightarrow> Some i | None \<Rightarrow> row_by_boid js conn boid)"

definition fold_row :: "pyfloat \<Rightarrow> jrow \<Rightarrow> jrow" where
  "fold_row signed_qty r =
     (let filled = fadd (jr_filled r) \<bar>signed_qty\<bar>
      in r\<lparr>jr_filled := filled,
           jr_state := (if fsub (jr_qty r) (fl (1 / 10 ^ 9)) \<le> filled then JFilled else jr_state r)\<rparr>)"

definition fold_execution ::
  "jrow list \<Rightarrow> string \<Rightarrow> string option \<Rightarrow> string option \<Rightarrow> pyfloat \<Rightarrow> jrow list" where
  "fold_execution js conn cid boid signed_qty =
     set_row js (row_either js conn cid boid) (fold_row signed_qty)"

definition mark_canceled :: "jrow list \<Rightarrow> string \<Rightarrow> string option \<Rightarrow> string option \<Rightarrow> jrow list" where
  "mark_canceled js conn cid boid =
     set_row js (row_either js conn cid boid)
       (\<lambda>r. if j_open (jr_state r) then r\<lparr>jr_state := JCanceled\<rparr> else r)"

definition mark_folded :: "jrow list \<Rightarrow> string \<Rightarrow> string option \<Rightarrow> jrow list" where
  "mark_folded js conn symbol =
     map (\<lambda>r. if jr_conn r = conn \<and> jr_sym r = upper (str_or symbol) \<and> jr_state r = JFilled
                 \<and> jr_note r = None
              then r\<lparr>jr_note := Some ''folded''\<rparr> else r) js"

section \<open>The gates\<close>

record gates =
  g_open_qty :: "(sym, pyfloat) dict"
  g_open_rows :: "(sym, (string \<times> pyfloat) list) dict"
  g_unfolded :: "(sym, pyfloat) dict"
  g_filled_today :: "(sym, pyfloat) dict"
  g_filled_side :: "(sym, (string, pyfloat) dict) dict"
  g_unresolved :: "sym list"
  g_epoch :: "(sym, int) dict"

definition empty_gates :: gates where
  "empty_gates = \<lparr>g_open_qty = [], g_open_rows = [], g_unfolded = [], g_filled_today = [],
     g_filled_side = [], g_unresolved = [], g_epoch = []\<rparr>"

definition j_sign :: "jrow \<Rightarrow> pyfloat" where
  "j_sign r = (if jr_side r = ''buy'' then 1 else - 1)"

definition j_remaining :: "jrow \<Rightarrow> pyfloat" where
  "j_remaining r = max 0 (fsub (jr_qty r) (jr_filled r))"

definition gate_open :: "jrow \<Rightarrow> gates \<Rightarrow> gates" where
  "gate_open r g =
     (let s = upper (jr_sym r); rem = j_remaining r; v = fmul (j_sign r) rem
      in if j_open (jr_state r) \<and> rem \<noteq> 0
         then g\<lparr>g_open_qty := dput (g_open_qty g) s (fadd (dget_or (g_open_qty g) s 0) v),
                g_open_rows := dput (g_open_rows g) s (dget_or (g_open_rows g) s [] @ [(jr_cid r, v)])\<rparr>
         else g)"

definition gate_filled :: "jrow \<Rightarrow> gates \<Rightarrow> gates" where
  "gate_filled r g =
     (let s = upper (jr_sym r); fq = \<bar>jr_filled r\<bar>;
          fs = dget_or (g_filled_side g) s [(''buy'', 0), (''sell'', 0)]
      in if jr_state r = JFilled
         then g\<lparr>g_filled_today := dput (g_filled_today g) s
                  (fadd (dget_or (g_filled_today g) s 0) (fmul (j_sign r) fq)),
                g_filled_side := dput (g_filled_side g) s
                  (dput fs (jr_side r) (fadd (dget_or fs (jr_side r) 0) fq)),
                g_unfolded :=
                  (if jr_note r \<noteq> Some ''folded''
                   then dput (g_unfolded g) s (fadd (dget_or (g_unfolded g) s 0) fq)
                   else g_unfolded g)\<rparr>
         else g)"

definition j_age_over :: "int \<Rightarrow> jrow \<Rightarrow> int \<Rightarrow> bool" where
  "j_age_over now r secs =
     (case jr_created r of None \<Rightarrow> False | Some c \<Rightarrow> secs * 1000000 < now - c)"

definition gate_row :: "int \<Rightarrow> gates \<Rightarrow> jrow \<Rightarrow> gates" where
  "gate_row now g r =
     (let s = upper (jr_sym r);
          g1 = g\<lparr>g_epoch := dput (g_epoch g) s (dget_or (g_epoch g) s 0 + 1)\<rparr>;
          g2 = gate_filled r (gate_open r g1)
      in if jr_state r = JSending \<and> j_age_over now r ACK_DEADLINE_S
         then g2\<lparr>g_unresolved := List.insert s (g_unresolved g2)\<rparr> else g2)"

definition todays :: "jrow list \<Rightarrow> string \<Rightarrow> int \<Rightarrow> jrow list" where
  "todays js conn start =
     filter (\<lambda>r. jr_conn r = conn \<and> (case jr_created r of None \<Rightarrow> False | Some c \<Rightarrow> start \<le> c)) js"

definition gates_of :: "jrow list \<Rightarrow> string \<Rightarrow> int \<Rightarrow> int \<Rightarrow> gates" where
  "gates_of js conn start now = foldl (gate_row now) empty_gates (todays js conn start)"

section \<open>Recovery of stale rows\<close>

datatype recovery = Reopened sym string | AbandonedRow sym string

text \<open>\<open>by_cid\<close>: the last order of the fetch with that client id.\<close>

definition venue_by_cid :: "border list option \<Rightarrow> string \<Rightarrow> border option" where
  "venue_by_cid oo cid =
     (if cid = [] then None
      else List.find (\<lambda>od. bo_cid od = Some cid) (rev (case oo of None \<Rightarrow> [] | Some os \<Rightarrow> os)))"

definition resolve_row :: "int \<Rightarrow> string \<Rightarrow> border list option \<Rightarrow> bool \<Rightarrow> jrow \<Rightarrow> jrow \<times> recovery option" where
  "resolve_row now conn oo poll_ok r =
     (if jr_conn r \<noteq> conn \<or> jr_state r \<noteq> JSending \<or> \<not> j_age_over now r ACK_DEADLINE_S then (r, None)
      else case venue_by_cid oo (jr_cid r) of
             Some od \<Rightarrow>
               (r\<lparr>jr_state := JOpen, jr_boid := (if truthy (bo_id od) then bo_id od else jr_boid r)\<rparr>,
                Some (Reopened (jr_sym r) (jr_cid r)))
           | None \<Rightarrow>
               if poll_ok \<and> oo \<noteq> None \<and> j_age_over now r ABANDON_S
               then (r\<lparr>jr_state := JAbandoned, jr_note := Some ''never observed at venue''\<rparr>,
                     Some (AbandonedRow (jr_sym r) (jr_cid r)))
               else (r, None))"

definition resolve_stale ::
  "jrow list \<Rightarrow> string \<Rightarrow> border list option \<Rightarrow> bool \<Rightarrow> int \<Rightarrow> jrow list \<times> recovery list" where
  "resolve_stale js conn oo poll_ok now =
     (let rs = map (resolve_row now conn oo poll_ok) js
      in (map fst rs, List.map_filter snd rs))"

definition market_cid ::
  "(string \<Rightarrow> string) \<Rightarrow> string \<Rightarrow> string \<Rightarrow> sym \<Rightarrow> string \<Rightarrow> string \<Rightarrow> string \<Rightarrow> string" where
  "market_cid sha1_8 conn day_iso s side q epoch =
     ''sl-mkt-'' @ s @ ''-'' @
       sha1_8 (conn @ ''|'' @ day_iso @ ''|'' @ s @ ''|'' @ side @ ''|'' @ q @ ''|'' @ epoch)"

section \<open>The transmit path's wrappers\<close>

text \<open>A connection that is not journalled (\<open>conn_id is None\<close>), an action that is no submit and an
  order without a client id go to the wire unrecorded.\<close>

definition journal_before ::
  "jrow list \<Rightarrow> string option \<Rightarrow> string \<Rightarrow> entry \<Rightarrow> int \<Rightarrow> bool \<times> jrow list" where
  "journal_before js conn action e now =
     (case conn of
        None \<Rightarrow> (True, js)
      | Some c \<Rightarrow>
          if action \<noteq> ''submit'' \<or> en_cid e = [] then (True, js)
          else case record_sending js c e now of None \<Rightarrow> (False, js) | Some js' \<Rightarrow> (True, js'))"

definition journal_cancel ::
  "jrow list \<Rightarrow> string option \<Rightarrow> string option \<Rightarrow> string option \<Rightarrow> jrow list" where
  "journal_cancel js conn cid boid =
     (case conn of
        None \<Rightarrow> js
      | Some c \<Rightarrow> mark_canceled js c (if truthy cid then cid else None) (if truthy boid then boid else None))"

definition journal_after ::
  "jrow list \<Rightarrow> string option \<Rightarrow> string \<Rightarrow> entry \<Rightarrow> (string option \<times> string option) option
     \<Rightarrow> string option \<Rightarrow> jrow list" where
  "journal_after js conn action e out rejected_note =
     (case conn of
        None \<Rightarrow> js
      | Some c \<Rightarrow>
          if action \<noteq> ''submit'' \<or> en_cid e = [] then js
          else case rejected_note of
                 Some note \<Rightarrow> mark_rejected js c (Some (en_cid e)) (Some note)
               | None \<Rightarrow>
                   (case out of
                      None \<Rightarrow> mark_submitted js c (Some (en_cid e)) (Some []) (Some [])
                    | Some (oid, st) \<Rightarrow> mark_submitted js c (Some (en_cid e)) oid st))"

text \<open>The gates of one pass: in enforce mode a symbol whose journal fills agree per side with the fills the
  sleeves folded is lifted and marked; outside enforce the freezing gates are inert.\<close>

definition side_qty :: "(string, pyfloat) dict option \<Rightarrow> string \<Rightarrow> pyfloat" where
  "side_qty d side = (case d of None \<Rightarrow> 0 | Some x \<Rightarrow> dget_or x side 0)"

definition sides_agree :: "(string, pyfloat) dict option \<Rightarrow> (string, pyfloat) dict \<Rightarrow> bool" where
  "sides_agree ms fs \<longleftrightarrow>
     \<bar>fsub (side_qty ms ''buy'') (dget_or fs ''buy'' 0)\<bar> < fl (1 / 10 ^ 6)
     \<and> \<bar>fsub (side_qty ms ''sell'') (dget_or fs ''sell'' 0)\<bar> < fl (1 / 10 ^ 6)"

definition lift_fold ::
  "string \<Rightarrow> (sym, (string, pyfloat) dict) dict \<Rightarrow> jrow list \<times> gates \<Rightarrow> sym \<times> (string, pyfloat) dict
     \<Rightarrow> jrow list \<times> gates" where
  "lift_fold conn model_side st x =
     (case st of (js, g) \<Rightarrow> case x of (s, fs) \<Rightarrow>
        if dget_or (g_unfolded g) s 0 = 0 then (js, g)
        else if sides_agree (dget model_side s) fs
        then (mark_folded js conn (Some s), g\<lparr>g_unfolded := ddel (g_unfolded g) s\<rparr>)
        else (js, g))"

definition scope_gates :: "string \<Rightarrow> gates \<Rightarrow> gates" where
  "scope_gates truth_mode g =
     (if truth_mode \<notin> {''observe'', ''enforce''}
      then g\<lparr>g_open_qty := [], g_open_rows := [], g_unfolded := [], g_unresolved := []\<rparr>
      else if truth_mode \<noteq> ''enforce'' then g\<lparr>g_unfolded := []\<rparr> else g)"

definition journal_gates_read ::
  "jrow list \<Rightarrow> string \<Rightarrow> string \<Rightarrow> int \<Rightarrow> int \<Rightarrow> (sym, (string, pyfloat) dict) dict \<Rightarrow> gates \<times> jrow list" where
  "journal_gates_read js conn truth_mode start now model_side =
     (let g = gates_of js conn start now;
          (js', g') = (if truth_mode = ''enforce''
                       then foldl (lift_fold conn model_side) (js, g) (g_filled_side g) else (js, g))
      in (scope_gates truth_mode g', js'))"

section \<open>Runs\<close>

datatype jcall =
    JBefore "string option" string entry int
  | JAfter "string option" string entry "(string option \<times> string option) option" "string option"
  | JCancel "string option" "string option" "string option"
  | JFold string "string option" "string option" pyfloat
  | JFolded string "string option"
  | JResolve string "border list option" bool int

fun jstep :: "jrow list \<Rightarrow> jcall \<Rightarrow> jrow list" where
  "jstep js (JBefore conn action e now) = snd (journal_before js conn action e now)"
| "jstep js (JAfter conn action e out note) = journal_after js conn action e out note"
| "jstep js (JCancel conn cid boid) = journal_cancel js conn cid boid"
| "jstep js (JFold conn cid boid q) = fold_execution js conn cid boid q"
| "jstep js (JFolded conn symbol) = mark_folded js conn symbol"
| "jstep js (JResolve conn oo poll_ok now) = fst (resolve_stale js conn oo poll_ok now)"

definition jkey :: "jrow \<Rightarrow> string \<times> string" where
  "jkey r = (jr_conn r, jr_cid r)"

definition journal_ok :: "jrow list \<Rightarrow> bool" where
  "journal_ok js \<longleftrightarrow> distinct (map jkey js)"

lemma set_row_keys:
  "(\<And>r. jkey (f r) = jkey r) \<Longrightarrow> map jkey (set_row js i f) = map jkey js"
  by (auto simp: set_row_def map_update list_update_same_conv nth_map split: option.split)
    (metis list_update_beyond list_update_id map_update not_le nth_map)

lemma update_keys [simp]:
  "map jkey (mark_submitted js conn cid boid st) = map jkey js"
  "map jkey (mark_rejected js conn cid note) = map jkey js"
  "map jkey (mark_canceled js conn cid boid) = map jkey js"
  "map jkey (fold_execution js conn cid boid q) = map jkey js"
  unfolding mark_submitted_def mark_rejected_def mark_canceled_def fold_execution_def
  by (rule set_row_keys; simp add: jkey_def fold_row_def Let_def)+

lemma mark_folded_keys [simp]: "map jkey (mark_folded js conn s) = map jkey js"
  by (simp add: mark_folded_def jkey_def)

lemma resolve_row_key: "jkey (fst (resolve_row now conn oo ok r)) = jkey r"
  by (auto simp: resolve_row_def jkey_def split: option.split)

lemma resolve_keys [simp]: "map jkey (fst (resolve_stale js conn oo ok now)) = map jkey js"
  by (simp add: resolve_stale_def Let_def resolve_row_key)

lemma jstep_keys:
  "map jkey (jstep js c) =
    (case c of
       JBefore (Some k) action e now \<Rightarrow>
         if action = ''submit'' \<and> en_cid e \<noteq> [] \<and> (k, en_cid e) \<notin> set (map jkey js)
         then map jkey js @ [(k, en_cid e)] else map jkey js
     | _ \<Rightarrow> map jkey js)"
proof (cases c)
  case (JBefore conn action e now)
  show ?thesis
    by (cases conn)
      (auto simp: JBefore journal_before_def record_sending_def jkey_def jrow_of_def
        split: if_splits)
qed (auto simp: journal_after_def journal_cancel_def split: option.split)

lemma jstep_ok: "journal_ok js \<Longrightarrow> journal_ok (jstep js c)"
  unfolding journal_ok_def jstep_keys
  by (auto split: jcall.split option.split)

interpretation journal_run: stepwise jstep journal_ok
  by unfold_locales (rule jstep_ok)

section \<open>One send per client id\<close>

text \<open>The submits a run lets through to the wire under a journalled connection.\<close>

definition let_through :: "jrow list \<Rightarrow> jcall \<Rightarrow> (string \<times> string) list" where
  "let_through js c =
     (case c of
        JBefore (Some k) action e now \<Rightarrow>
          if action = ''submit'' \<and> en_cid e \<noteq> [] \<and> fst (journal_before js (Some k) action e now)
          then [(k, en_cid e)] else []
      | _ \<Rightarrow> [])"

fun sends :: "jrow list \<Rightarrow> jcall list \<Rightarrow> (string \<times> string) list" where
  "sends js [] = []"
| "sends js (c # cs) = let_through js c @ sends (jstep js c) cs"

lemma let_through_keys: "map jkey (jstep js c) = map jkey js @ let_through js c"
  unfolding jstep_keys
  by (auto simp: let_through_def journal_before_def record_sending_def jkey_def
      split: jcall.split option.split)

lemma sends_keys: "map jkey (foldl jstep js cs) = map jkey js @ sends js cs"
  by (induction cs arbitrary: js) (simp_all add: let_through_keys)


section \<open>Leaving the outstanding set\<close>

text \<open>What a call must bring to take a row out of the outstanding states.\<close>

definition evidence :: "jcall \<Rightarrow> jrow \<Rightarrow> bool" where
  "evidence c r =
     (case c of
        JAfter conn action e out note \<Rightarrow>
          conn = Some (jr_conn r) \<and> en_cid e = jr_cid r
          \<and> (note \<noteq> None \<or> \<not> j_open (ack_state (case out of None \<Rightarrow> None | Some (_, st) \<Rightarrow> st)))
      | JCancel conn cid boid \<Rightarrow>
          conn = Some (jr_conn r) \<and> (cid = Some (jr_cid r) \<or> truthy boid \<and> boid = jr_boid r)
      | JFold conn cid boid q \<Rightarrow>
          conn = jr_conn r \<and> (cid = Some (jr_cid r) \<or> truthy boid \<and> boid = jr_boid r)
          \<and> fsub (jr_qty r) (fl (1 / 10 ^ 9)) \<le> fadd (jr_filled r) \<bar>q\<bar>
      | JResolve conn oo poll_ok now \<Rightarrow>
          conn = jr_conn r \<and> jr_state r = JSending \<and> poll_ok \<and> oo \<noteq> None
          \<and> venue_by_cid oo (jr_cid r) = None \<and> j_age_over now r ABANDON_S
      | _ \<Rightarrow> False)"

lemma first_where_Some: "first_where P rs = Some n \<Longrightarrow> n < length rs \<and> P (rs ! n)"
  by (induction rs arbitrary: n) (auto split: if_splits)

lemma row_by_cid_Some:
  "row_by_cid js conn cid = Some n \<Longrightarrow>
    n < length js \<and> jr_conn (js ! n) = conn \<and> cid = Some (jr_cid (js ! n))"
  by (auto simp: row_by_cid_def dest!: first_where_Some split: if_splits)

lemma row_either_Some:
  "row_either js conn cid boid = Some n \<Longrightarrow>
    n < length js \<and> jr_conn (js ! n) = conn
    \<and> (cid = Some (jr_cid (js ! n)) \<or> truthy boid \<and> boid = jr_boid (js ! n))"
  by (auto simp: row_either_def row_by_boid_def dest!: first_where_Some row_by_cid_Some
      split: option.splits if_splits)

lemma nth_set_row:
  "n < length js \<Longrightarrow> set_row js i f ! n = (if i = Some n then f (js ! n) else js ! n)"
  by (auto simp: set_row_def nth_list_update split: option.split)

lemma record_sending_nth:
  "n < length js \<Longrightarrow> snd (journal_before js conn action e now) ! n = js ! n"
  by (auto simp: journal_before_def record_sending_def nth_append split: option.split)

lemma resolve_nth:
  "n < length js \<Longrightarrow>
    fst (resolve_stale js conn oo ok now) ! n = fst (resolve_row now conn oo ok (js ! n))"
  by (simp add: resolve_stale_def Let_def)

text \<open>C16: A row leaves the outstanding states (sending, submitted, open) only on evidence: an
  acknowledgement with a final status or a refusal of that very order, a cancel of it, fills that
  make up its quantity, or, for a row still sending, an executions poll that succeeded together
  with an open-orders fetch that does not list it, more than 60 seconds after it was written.\<close>

theorem outstanding_until_evidence:
  assumes "n < length js" "j_open (jr_state (js ! n))" "\<not> j_open (jr_state (jstep js c ! n))"
  shows "evidence c (js ! n)"
proof (cases c)
  case (JBefore conn action e now)
  then show ?thesis using assms by (simp add: record_sending_nth)
next
  case (JAfter conn action e out nt)
  then obtain k where k: "conn = Some k" "action = ''submit''" "en_cid e \<noteq> []"
    using assms by (cases conn) (auto simp: journal_after_def split: if_splits)
  have hit: "row_by_cid js k (Some (en_cid e)) = Some n"
    using assms JAfter k
    by (auto simp: journal_after_def mark_rejected_def mark_submitted_def nth_set_row
        split: option.splits if_splits)
  show ?thesis
    using assms JAfter k row_by_cid_Some [OF hit] hit
    by (auto simp: evidence_def journal_after_def mark_submitted_def nth_set_row ack_state_def
        str_or_def split: option.splits)
next
  case (JCancel conn cid boid)
  then obtain k where k: "conn = Some k"
    using assms by (cases conn) (auto simp: journal_cancel_def)
  let ?cid = "if truthy cid then cid else None" and ?boid = "if truthy boid then boid else None"
  have hit: "row_either js k ?cid ?boid = Some n"
    using assms JCancel k
    by (simp add: journal_cancel_def mark_canceled_def nth_set_row split: if_splits)
  show ?thesis
    using row_either_Some [OF hit] k by (auto simp: JCancel evidence_def truthy_def split: if_splits)
next
  case (JFold conn cid boid q)
  have hit: "row_either js conn cid boid = Some n"
    using assms JFold by (simp add: fold_execution_def nth_set_row split: if_splits)
  show ?thesis
    using row_either_Some [OF hit] assms hit
    by (auto simp: JFold evidence_def fold_execution_def nth_set_row fold_row_def Let_def
        split: if_splits)
next
  case (JFolded conn s)
  then show ?thesis using assms by (auto simp: mark_folded_def split: if_splits)
next
  case (JResolve conn oo ok now)
  then show ?thesis
    using assms
    by (auto simp: evidence_def resolve_nth resolve_row_def j_open_def
        split: option.splits if_splits)
qed

definition demo_entry :: entry where
  "demo_entry = \<lparr>en_dep = None, en_cid = ''c1'', en_sym = Some ''spy'', en_side = ''buy'', en_qty = 10,
     en_type = None, en_limit = None, en_stop = None, en_tag = None\<rparr>"

theorem outstanding_until_evidence_witness:
  "evidence (JResolve ''k'' (Some []) True 100000000) (jrow_of ''k'' demo_entry 0)"
proof -
  have "jstep [jrow_of ''k'' demo_entry 0] (JResolve ''k'' (Some []) True 100000000) ! 0
      = (jrow_of ''k'' demo_entry 0)\<lparr>jr_state := JAbandoned, jr_note := Some ''never observed at venue''\<rparr>"
    by (simp add: resolve_nth resolve_row_def jrow_of_def demo_entry_def venue_by_cid_def
        j_age_over_def ACK_DEADLINE_S_def ABANDON_S_def)
  then show ?thesis
    using outstanding_until_evidence [of 0 "[jrow_of ''k'' demo_entry 0]"
        "JResolve ''k'' (Some []) True 100000000"]
    by (simp add: j_open_def jrow_of_def)
qed

section \<open>What the gates say\<close>

definition rows_for :: "sym \<Rightarrow> (jrow \<Rightarrow> bool) \<Rightarrow> jrow list \<Rightarrow> jrow list" where
  "rows_for s P rs = filter (\<lambda>r. upper (jr_sym r) = s \<and> P r) rs"

lemma rows_for_Cons:
  "rows_for s P (r # rs) = (if upper (jr_sym r) = s \<and> P r then r # rows_for s P rs else rows_for s P rs)"
  by (simp add: rows_for_def)

definition gate_live :: "jrow \<Rightarrow> bool" where
  "gate_live r \<longleftrightarrow> j_open (jr_state r) \<and> j_remaining r \<noteq> 0"

definition gate_unfolded :: "jrow \<Rightarrow> bool" where
  "gate_unfolded r \<longleftrightarrow> jr_state r = JFilled \<and> jr_note r \<noteq> Some ''folded''"

definition gate_late :: "int \<Rightarrow> jrow \<Rightarrow> bool" where
  "gate_late now r \<longleftrightarrow> jr_state r = JSending \<and> j_age_over now r ACK_DEADLINE_S"

text \<open>One step of the loop, read by symbol.\<close>

lemma gate_row_reads:
  fixes s
  defines "hit \<equiv> \<lambda>P r. upper (jr_sym r) = s \<and> P r"
  shows
    "dget_or (g_open_qty (gate_row now g r)) s 0 =
      (if hit gate_live r then fadd (dget_or (g_open_qty g) s 0) (fmul (j_sign r) (j_remaining r))
       else dget_or (g_open_qty g) s 0)"
    "dget_or (g_open_rows (gate_row now g r)) s [] =
      (if hit gate_live r
       then dget_or (g_open_rows g) s [] @ [(jr_cid r, fmul (j_sign r) (j_remaining r))]
       else dget_or (g_open_rows g) s [])"
    "dget_or (g_unfolded (gate_row now g r)) s 0 =
      (if hit gate_unfolded r then fadd (dget_or (g_unfolded g) s 0) \<bar>jr_filled r\<bar>
       else dget_or (g_unfolded g) s 0)"
    "s \<in> set (g_unresolved (gate_row now g r)) \<longleftrightarrow> s \<in> set (g_unresolved g) \<or> hit (gate_late now) r"
    "dget_or (g_epoch (gate_row now g r)) s 0 =
      dget_or (g_epoch g) s 0 + (if hit (\<lambda>_. True) r then 1 else 0)"
  by (auto simp: hit_def gate_row_def gate_open_def gate_filled_def gate_live_def gate_unfolded_def
      gate_late_def Let_def dict_simps split: option.split)

interpretation epoch: accumulating "gate_row now" "\<lambda>g. dget_or (g_epoch g) s 0"
    "\<lambda>r. if upper (jr_sym r) = s \<and> True then (1 :: int) else 0" for now s
  by unfold_locales (rule gate_row_reads(5))

lemma gates_fold:
  "dget_or (g_open_qty (foldl (gate_row now) g rs)) s 0 =
    foldl fadd (dget_or (g_open_qty g) s 0)
      (map (\<lambda>r. fmul (j_sign r) (j_remaining r)) (rows_for s gate_live rs))"
  "dget_or (g_open_rows (foldl (gate_row now) g rs)) s [] =
    dget_or (g_open_rows g) s []
      @ map (\<lambda>r. (jr_cid r, fmul (j_sign r) (j_remaining r))) (rows_for s gate_live rs)"
  "dget_or (g_unfolded (foldl (gate_row now) g rs)) s 0 =
    foldl fadd (dget_or (g_unfolded g) s 0) (map (\<lambda>r. \<bar>jr_filled r\<bar>) (rows_for s gate_unfolded rs))"
  "s \<in> set (g_unresolved (foldl (gate_row now) g rs)) \<longleftrightarrow>
    s \<in> set (g_unresolved g) \<or> rows_for s (gate_late now) rs \<noteq> []"
  by (induction rs arbitrary: g) (auto simp: rows_for_Cons gate_row_reads, simp_all add: rows_for_def)

text \<open>The gates of a pass are, symbol by symbol, what today's rows of the connection say: the signed
  remainder of its outstanding rows (and their list), the absolute fills no sleeve has folded
  (offsetting fills do not cancel), whether a submit is unanswered past the deadline, and how many
  rows were written.\<close>

theorem gates_by_symbol:
  fixes js conn start now s
  defines "rs \<equiv> todays js conn start" and "g \<equiv> gates_of js conn start now"
  shows "dget_or (g_open_qty g) s 0
      = foldl fadd 0 (map (\<lambda>r. fmul (j_sign r) (j_remaining r)) (rows_for s gate_live rs))
    \<and> dget_or (g_open_rows g) s []
      = map (\<lambda>r. (jr_cid r, fmul (j_sign r) (j_remaining r))) (rows_for s gate_live rs)
    \<and> dget_or (g_unfolded g) s 0
      = foldl fadd 0 (map (\<lambda>r. \<bar>jr_filled r\<bar>) (rows_for s gate_unfolded rs))
    \<and> (s \<in> set (g_unresolved g) \<longleftrightarrow> rows_for s (gate_late now) rs \<noteq> [])
    \<and> dget_or (g_epoch g) s 0 = int (length (rows_for s (\<lambda>_. True) rs))"
proof -
  have cnt: "sum_list (map (\<lambda>r. if upper (jr_sym r) = s \<and> True then (1 :: int) else 0) rs)
      = int (length (rows_for s (\<lambda>_. True) rs))"
    by (induction rs) (simp_all add: rows_for_def)
  show ?thesis
    unfolding g_def gates_of_def rs_def [symmetric] gates_fold epoch.run_gain cnt
    by (simp add: empty_gates_def dict_simps)
qed

section \<open>Partial fills and recovery\<close>

text \<open>\<open>resolve_stale\<close> documents that a row a fill has advanced is left alone.  A partial fill does not
  change the state, so a row filled 4 of 10 whose order has left the open list is abandoned as
  "never observed at venue", and its 4 filled shares are in neither gate.\<close>

lemma partly_filled_row_abandoned:
  "(let js = fst (resolve_stale (fold_execution [jrow_of ''k'' demo_entry 0] ''k'' (Some ''c1'') None 4)
               ''k'' (Some []) True 100000000);
        g = gates_of js ''k'' 0 100000000
    in map jr_state js = [JAbandoned] \<and> map jr_filled js = [4]
       \<and> g_open_qty g = [] \<and> g_unfolded g = [] \<and> g_unresolved g = [])"
  by code_simp

text \<open>An acknowledgement overwrites the state whatever it is: a fill folded before the answer of the
  submit arrived is taken back out of the filled rows.\<close>

lemma late_ack_reopens_filled_row:
  "(let js = fold_execution [jrow_of ''k'' demo_entry 0] ''k'' (Some ''c1'') None 10
    in map jr_state js = [JFilled]
       \<and> map jr_state (mark_submitted js ''k'' (Some ''c1'') (Some ''b1'') (Some ''new'')) = [JSubmitted])"
  by code_simp

end
