(* ===== verification/Ladder.thy ===== *)
theory Ladder
  imports PyBase "HOL-Library.List_Lexorder" "HOL-Library.Char_ord"
begin

text \<open>
  What a venue can express and what the platform does when it cannot: the order vocabulary, \<open>Caps\<close>,
  \<open>validate_order\<close> and \<open>normalize_execution\<close> of \<open>dqengine/adapters/base.py\<close>, the degradation ladder
  of \<open>dqengine/live/capabilities.py\<close>, and the executor's \<open>pick_tif\<close>, \<open>limit_price_refusal\<close> and
  rails settings.  An em dash in a message is written "-".  Order types and times in force are the source's strings; a frozenset is a set,
  \<open>sorted\<close> of one its sorted list (code-point order).
\<close>

section \<open>Order vocabulary and capabilities\<close>

definition MARKET_T :: string where "MARKET_T = ''market''"
definition LIMIT_T :: string where "LIMIT_T = ''limit''"
definition STOP_T :: string where "STOP_T = ''stop''"
definition STOP_LIMIT_T :: string where "STOP_LIMIT_T = ''stop_limit''"
definition TRAILING_STOP_T :: string where "TRAILING_STOP_T = ''trailing_stop''"
definition MARKET_ON_CLOSE_T :: string where "MARKET_ON_CLOSE_T = ''market_on_close''"
definition LIMIT_ON_CLOSE_T :: string where "LIMIT_ON_CLOSE_T = ''limit_on_close''"

lemmas order_type_defs = MARKET_T_def LIMIT_T_def STOP_T_def STOP_LIMIT_T_def TRAILING_STOP_T_def
  MARKET_ON_CLOSE_T_def LIMIT_ON_CLOSE_T_def

definition ALL_ORDER_TYPES :: "string list" where
  "ALL_ORDER_TYPES = [MARKET_T, LIMIT_T, STOP_T, STOP_LIMIT_T, TRAILING_STOP_T, MARKET_ON_CLOSE_T,
     LIMIT_ON_CLOSE_T]"

definition NEEDS_LIMIT_PRICE :: "string set" where
  "NEEDS_LIMIT_PRICE = {LIMIT_T, STOP_LIMIT_T, LIMIT_ON_CLOSE_T}"

definition NEEDS_STOP_PRICE :: "string set" where
  "NEEDS_STOP_PRICE = {STOP_T, STOP_LIMIT_T}"

record caps =
  cp_replace :: bool
  cp_client_ids :: bool
  cp_short :: bool
  cp_qty_step :: pyfloat
  cp_types :: "string set"
  cp_tifs :: "string set"
  cp_tif_by_type :: "(string, string set) dict"
  cp_entitlement :: "(string, string) dict"
  cp_extended :: bool
  cp_earlier_fills :: bool

definition tifs_for :: "caps \<Rightarrow> string \<Rightarrow> string set" where
  "tifs_for c t = dget_or (cp_tif_by_type c) t (cp_tifs c)"

definition entitlement_for :: "caps \<Rightarrow> string \<Rightarrow> string option" where
  "entitlement_for c t = (if t \<in> cp_types c then None else dget (cp_entitlement c) t)"

datatype not_supported =
    NoType string | NoTif string string | NoExtended | NoShort | NeedsLimit string
  | NeedsStop string | NeedsTrail | Fractional

definition validate_order ::
  "caps \<Rightarrow> string \<Rightarrow> string \<Rightarrow> pyfloat option \<Rightarrow> pyfloat option \<Rightarrow> pyfloat option \<Rightarrow> pyfloat \<Rightarrow> bool
     \<Rightarrow> bool \<Rightarrow> not_supported option" where
  "validate_order c t tif lpx spx trail q ext opens_short =
     (if t \<notin> cp_types c then Some (NoType t)
      else if tif \<notin> tifs_for c t then Some (NoTif tif t)
      else if ext \<and> \<not> cp_extended c then Some NoExtended
      else if opens_short \<and> \<not> cp_short c then Some NoShort
      else if t \<in> NEEDS_LIMIT_PRICE \<and> lpx = None then Some (NeedsLimit t)
      else if t \<in> NEEDS_STOP_PRICE \<and> spx = None then Some (NeedsStop t)
      else if t = TRAILING_STOP_T \<and> trail = None then Some NeedsTrail
      else if 0 < \<bar>q\<bar> \<and> \<bar>q\<bar> < 1 \<and> t \<noteq> MARKET_T then Some Fractional
      else None)"

text \<open>An execution row; \<open>ex_tz\<close> says whether \<open>filled_at\<close> carries a time zone.\<close>

record execution =
  ex_boid :: string
  ex_exec_id :: string
  ex_cid :: string
  ex_sym :: sym
  ex_side :: string
  ex_qty :: pyfloat
  ex_price :: pyfloat
  ex_fees :: pyfloat
  ex_at :: int
  ex_avg :: bool

definition normalize_execution ::
  "string option \<Rightarrow> string \<Rightarrow> string \<Rightarrow> string \<Rightarrow> pyfloat \<Rightarrow> pyfloat \<Rightarrow> bool \<Rightarrow> int \<Rightarrow> pyfloat option
     \<Rightarrow> string option \<Rightarrow> bool \<Rightarrow> execution res" where
  "normalize_execution boid exec_id symbol side q price has_tz filled_at fees cid avg =
     (if \<not> has_tz then Inl (ValueError ''filled_at must be timezone-aware'')
      else let s = lower side
           in if s \<noteq> ''buy'' \<and> s \<noteq> ''sell'' then Inl (ValueError ''side must be buy|sell'')
              else Inr \<lparr>ex_boid = str_or boid, ex_exec_id = exec_id, ex_cid = str_or cid,
                        ex_sym = upper symbol, ex_side = s, ex_qty = \<bar>q\<bar>, ex_price = price,
                        ex_fees = num_or0 fees, ex_at = filled_at, ex_avg = avg\<rparr>)"

section \<open>The ladder\<close>

datatype mode = NATIVE | EMULATED | REFUSED

record resolution =
  rs_mode :: mode
  rs_type :: string
  rs_note :: string

definition res_ok :: "resolution \<Rightarrow> bool" where
  "res_ok r \<longleftrightarrow> rs_mode r \<in> {NATIVE, EMULATED}"

definition EMULATIONS :: "(string, string) dict" where
  "EMULATIONS =
     [(MARKET_ON_CLOSE_T, ''emulated as a market order near the close (this broker has no ''
         @ ''market-on-close for this account)''),
      (LIMIT_ON_CLOSE_T, ''emulated as a limit order near the close (this broker has no ''
         @ ''limit-on-close for this account)''),
      (STOP_T, ''emulated by the engine - it watches the level and sends a market ''
         @ ''order on breach (this broker has no resting stop)''),
      (STOP_LIMIT_T, ''emulated by the engine - it watches the level and sends a limit ''
         @ ''order on breach (this broker has no resting stop-limit)''),
      (TRAILING_STOP_T, ''emulated by the engine - it re-anchors the level each sweep and ''
         @ ''sends a market order on breach (this broker has no trailing stop)'')]"

definition NEVER_EMULATED :: "string set" where
  "NEVER_EMULATED = {MARKET_T, LIMIT_T}"

definition PYTHON_UNTRANSMITTED :: "string set" where
  "PYTHON_UNTRANSMITTED = {MARKET_ON_CLOSE_T, LIMIT_ON_CLOSE_T}"

text \<open>\<open>s.split(sep)[0]\<close>.\<close>

fun before :: "string \<Rightarrow> string \<Rightarrow> string" where
  "before sep [] = []"
| "before sep (c # cs) = (if take (length sep) (c # cs) = sep then [] else c # before sep cs)"

definition emulation_note :: "caps \<Rightarrow> string \<Rightarrow> string \<Rightarrow> string" where
  "emulation_note c t text =
     (if truthy (entitlement_for c t)
      then before '' (this broker'' text @ '' ('' @ str_or (entitlement_for c t)
             @ '' - not available to this account)''
      else text)"

definition resolve :: "caps \<Rightarrow> string \<Rightarrow> bool \<Rightarrow> resolution" where
  "resolve c t transmittable =
     (if \<not> transmittable
      then \<lparr>rs_mode = REFUSED, rs_type = t,
            rs_note = ''the platform cannot send '' @ t @ '' orders from a python ''
              @ ''strategy to a broker yet - the strategy would believe it was ''
              @ ''protected by an order nothing transmits''\<rparr>
      else if t \<in> cp_types c then \<lparr>rs_mode = NATIVE, rs_type = t, rs_note = []\<rparr>
      else if t \<in> NEVER_EMULATED
      then \<lparr>rs_mode = REFUSED, rs_type = t,
            rs_note = ''this broker cannot place '' @ t @ '' orders, which the ''
              @ ''platform cannot work around''\<rparr>
      else case dget EMULATIONS t of
             Some text \<Rightarrow> \<lparr>rs_mode = EMULATED, rs_type = t, rs_note = emulation_note c t text\<rparr>
           | None \<Rightarrow>
               \<lparr>rs_mode = REFUSED, rs_type = t,
                rs_note = ''this broker does not support '' @ t @ '' orders and the platform ''
                  @ ''has no emulation for them''\<rparr>)"

definition transmittable :: "string \<Rightarrow> bool \<Rightarrow> string \<Rightarrow> bool" where
  "transmittable kind daily t \<longleftrightarrow> \<not> (kind = ''python'' \<and> \<not> daily \<and> t \<in> PYTHON_UNTRANSMITTED)"

definition unsupported_for_deploy :: "caps \<Rightarrow> string list \<Rightarrow> string \<Rightarrow> bool \<Rightarrow> resolution list" where
  "unsupported_for_deploy c types kind daily =
     filter (\<lambda>r. \<not> res_ok r)
       (map (\<lambda>t. resolve c t (transmittable kind daily t)) (sorted_list_of_set (set types)))"

definition SAME_SESSION_TYPES :: "string set" where
  "SAME_SESSION_TYPES = {MARKET_T, MARKET_ON_CLOSE_T}"

definition overnight_order_types :: "string set \<Rightarrow> string set" where
  "overnight_order_types types = types - SAME_SESSION_TYPES"

text \<open>\<open>has_lookup\<close>: the adapter's class overrides \<open>order_executions\<close>.\<close>

definition reports_earlier_fills :: "caps \<Rightarrow> bool \<Rightarrow> bool" where
  "reports_earlier_fills c has_lookup \<longleftrightarrow> cp_earlier_fills c \<or> has_lookup"

definition journal_note :: "caps \<Rightarrow> string \<Rightarrow> string \<Rightarrow> string option" where
  "journal_note c t symbol =
     (let r = resolve c t True
      in if rs_mode r = NATIVE then None else Some (t @ '' '' @ symbol @ '': '' @ rs_note r))"

section \<open>Order types of a strategy\<close>

text \<open>A rule's action: its type, its order type, and which legs of a bracket are present.\<close>

record action =
  ac_type :: "string option"
  ac_order_type :: "string option"
  ac_trail :: bool
  ac_stop :: bool
  ac_take_profit :: bool

definition action_types :: "action \<Rightarrow> string list" where
  "action_types a =
     (let given = (\<lambda>dflt. [str_or (opt_or (ac_order_type a) (Some dflt))])
      in if ac_type a \<in> {Some ''market_order'', Some ''set_weights'', Some ''liquidate''} then given MARKET_T
         else if ac_type a = Some ''managed_target'' then given LIMIT_T
         else if ac_type a = Some ''at_close_order'' then given MARKET_ON_CLOSE_T
         else if ac_type a = Some ''bracket''
         then (if ac_trail a then [TRAILING_STOP_T] else []) @ (if ac_stop a then [STOP_T] else [])
              @ (if ac_take_profit a then [LIMIT_T] else [])
         else [])"

definition ir_order_types :: "action list \<Rightarrow> string set" where
  "ir_order_types rules = set (concat (map action_types rules)) \<inter> set ALL_ORDER_TYPES"

definition PY_ORDER_METHODS :: "(string, string) dict" where
  "PY_ORDER_METHODS =
     [(''market_order'', MARKET_T), (''order'', MARKET_T), (''set_holdings'', MARKET_T),
      (''liquidate'', MARKET_T), (''limit_order'', LIMIT_T), (''stop_market_order'', STOP_T),
      (''stop_limit_order'', STOP_LIMIT_T), (''trailing_stop_order'', TRAILING_STOP_T),
      (''limit_if_touched_order'', LIMIT_T), (''market_on_open_order'', MARKET_T),
      (''market_on_close_order'', MARKET_ON_CLOSE_T)]"

definition is_upper :: "char \<Rightarrow> bool" where
  "is_upper c \<longleftrightarrow> CHR ''A'' \<le> c \<and> c \<le> CHR ''Z''"

definition is_lower :: "char \<Rightarrow> bool" where
  "is_lower c \<longleftrightarrow> CHR ''a'' \<le> c \<and> c \<le> CHR ''z''"

text \<open>\<open>str.islower\<close>: some cased character, and none of them upper case.\<close>

definition islower :: "string \<Rightarrow> bool" where
  "islower s \<longleftrightarrow> list_ex is_lower s \<and> \<not> list_ex is_upper s"

definition snake :: "string \<Rightarrow> string" where
  "snake name =
     (if CHR ''_'' \<in> set name \<or> islower name then lower name
      else concat (map (\<lambda>(i, ch). (if is_upper ch \<and> 0 < i then ''_'' else []) @ [lower_char ch])
             (List.enumerate 0 name)))"

text \<open>\<open>ast.parse\<close> is a parameter: \<open>calls\<close> is \<open>None\<close> for a syntax error, else the called names.\<close>

definition python_order_types :: "string list option \<Rightarrow> bool \<Rightarrow> string set" where
  "python_order_types calls daily =
     (case calls of
        None \<Rightarrow> {}
      | Some names \<Rightarrow>
          let out = set (List.map_filter (\<lambda>n. dget PY_ORDER_METHODS (snake n))
                      (filter (\<lambda>n. n \<noteq> []) names))
          in if daily \<and> MARKET_T \<in> out then insert MARKET_ON_CLOSE_T out else out)"

section \<open>The executor's choices on top of the venue's\<close>

definition RESTING_TIF_PREFERENCE :: "string list" where
  "RESTING_TIF_PREFERENCE = [''gtc'', ''day'']"

definition pick_tif :: "caps \<Rightarrow> string \<Rightarrow> string \<Rightarrow> string option" where
  "pick_tif c t preferred =
     (let allowed = tifs_for c t
      in if preferred \<in> allowed then Some preferred
         else case List.find (\<lambda>x. x \<in> allowed) RESTING_TIF_PREFERENCE of
                Some x \<Rightarrow> Some x
              | None \<Rightarrow>
                  (case sorted_list_of_set allowed of [] \<Rightarrow> None | x # _ \<Rightarrow> Some x))"

record rails =
  ra_order_notional :: "pyfloat option"
  ra_position_notional :: "pyfloat option"
  ra_max_orders :: int
  ra_price_band :: pyfloat
  ra_cross_tol :: pyfloat
  ra_stop_band :: pyfloat
  ra_paused :: bool
  ra_dry_run :: bool
  ra_live :: bool

definition notional_cap :: "pyfloat option \<Rightarrow> pyfloat option" where
  "notional_cap v = (case v of None \<Rightarrow> None | Some x \<Rightarrow> if 0 < x then Some x else None)"

record settings =
  se_order_notional :: "pyfloat option"
  se_position_notional :: "pyfloat option"
  se_max_orders :: "int option"
  se_price_band :: "pyfloat option"
  se_cross_tol :: "pyfloat option"
  se_stop_band :: "pyfloat option"
  se_paused :: bool
  se_dry_run :: bool

definition given_or :: "'a \<Rightarrow> 'a option \<Rightarrow> 'a" where
  "given_or d x = (case x of None \<Rightarrow> d | Some v \<Rightarrow> v)"

definition rails_from :: "settings \<Rightarrow> string \<Rightarrow> bool \<Rightarrow> rails" where
  "rails_from s mode all_confirmed =
     \<lparr>ra_order_notional = notional_cap (se_order_notional s),
      ra_position_notional = notional_cap (se_position_notional s),
      ra_max_orders = given_or 20 (se_max_orders s), ra_price_band = given_or 50 (se_price_band s),
      ra_cross_tol = given_or 1 (se_cross_tol s), ra_stop_band = given_or 50 (se_stop_band s),
      ra_paused = se_paused s, ra_dry_run = se_dry_run s,
      ra_live = (mode \<noteq> ''live'' \<or> all_confirmed)\<rparr>"

datatype price_refusal = CrossesBelow | CrossesAbove | OutsideBand

definition limit_price_refusal ::
  "string \<Rightarrow> pyfloat option \<Rightarrow> pyfloat \<Rightarrow> rails \<Rightarrow> price_refusal option" where
  "limit_price_refusal side level px ra =
     (case level of
        None \<Rightarrow> None
      | Some x \<Rightarrow>
          if px \<le> 0 then None
          else if side = ''sell'' \<and> x < fmul px (fsub 1 (fdiv (ra_cross_tol ra) 100)) then Some CrossesBelow
          else if side = ''buy'' \<and> fmul px (fadd 1 (fdiv (ra_cross_tol ra) 100)) < x then Some CrossesAbove
          else if ra_price_band ra < fmul \<bar>fsub (fdiv x px) 1\<bar> 100 then Some OutsideBand
          else None)"

section \<open>Every order type has an answer\<close>

lemma dget_EMULATIONS:
  "(dget EMULATIONS t = None) =
    (t \<notin> {MARKET_ON_CLOSE_T, LIMIT_ON_CLOSE_T, STOP_T, STOP_LIMIT_T, TRAILING_STOP_T})"
  unfolding dget_None_keys EMULATIONS_def dkeys_def by simp

lemma never_disjoint:
  "NEVER_EMULATED \<inter> {MARKET_ON_CLOSE_T, LIMIT_ON_CLOSE_T, STOP_T, STOP_LIMIT_T, TRAILING_STOP_T} = {}"
  by (simp add: NEVER_EMULATED_def order_type_defs)

lemma emulation_texts: "[] \<notin> snd ` set EMULATIONS"
  by (simp add: EMULATIONS_def)

lemma emulation_note_nonempty:
  assumes "dget EMULATIONS t = Some text"
  shows "emulation_note c t text \<noteq> []"
proof -
  have "text \<noteq> []"
    using emulation_texts dget_Some_set [OF assms] by force
  then show ?thesis by (simp add: emulation_note_def)
qed

lemma ladder_decides_mode:
  "rs_mode (resolve c t tr) =
     (if \<not> tr then REFUSED
      else if t \<in> cp_types c then NATIVE
      else if t \<in> {MARKET_ON_CLOSE_T, LIMIT_ON_CLOSE_T, STOP_T, STOP_LIMIT_T, TRAILING_STOP_T}
      then EMULATED else REFUSED)"
proof (cases "dget EMULATIONS t")
  case None
  then show ?thesis using dget_EMULATIONS [of t] by (simp add: resolve_def)
next
  case (Some msg)
  then have m: "t \<in> {MARKET_ON_CLOSE_T, LIMIT_ON_CLOSE_T, STOP_T, STOP_LIMIT_T, TRAILING_STOP_T}"
    using dget_EMULATIONS [of t] by auto
  then have "t \<notin> NEVER_EMULATED" using never_disjoint by blast
  with Some m show ?thesis by (simp add: resolve_def)
qed

lemma ladder_decides_type: "rs_type (resolve c t tr) = t"
  by (simp add: resolve_def split: option.split)

text \<open>The ladder's answer for every order type at every venue: refused when the platform cannot
  carry it, native exactly when the venue takes it, emulated exactly for the five types that have
  an emulation, refused otherwise; and whatever is not native comes with a non-empty explanation.\<close>

theorem ladder_decides:
  "rs_mode (resolve c t tr) =
     (if \<not> tr then REFUSED
      else if t \<in> cp_types c then NATIVE
      else if t \<in> {MARKET_ON_CLOSE_T, LIMIT_ON_CLOSE_T, STOP_T, STOP_LIMIT_T, TRAILING_STOP_T}
      then EMULATED else REFUSED)
   \<and> rs_type (resolve c t tr) = t
   \<and> (rs_note (resolve c t tr) = []) = (rs_mode (resolve c t tr) = NATIVE)
   \<and> (journal_note c t symbol = None) = (t \<in> cp_types c)"
proof -
  have n: "(rs_note (resolve c t tr) = []) = (rs_mode (resolve c t tr) = NATIVE)" for tr
    using emulation_note_nonempty [of t _ c] by (auto simp: resolve_def split: option.split)
  have "(journal_note c t symbol = None) = (t \<in> cp_types c)"
    using ladder_decides_mode [of c t True] by (simp add: journal_note_def Let_def)
  then show ?thesis using n ladder_decides_mode [of c t tr] ladder_decides_type by blast
qed

text \<open>The deploy check is complete: with no unsupported type, every order type the strategy can
  place is one the platform can carry and the venue takes or the platform emulates; a type is
  listed otherwise, once each, in order.\<close>

theorem deploy_check_complete:
  "map rs_type (unsupported_for_deploy c types kind daily) =
     filter (\<lambda>t. \<not> (transmittable kind daily t
               \<and> (t \<in> cp_types c
                  \<or> t \<in> {MARKET_ON_CLOSE_T, LIMIT_ON_CLOSE_T, STOP_T, STOP_LIMIT_T, TRAILING_STOP_T})))
       (sorted_list_of_set (set types))
   \<and> (unsupported_for_deploy c types kind daily = [] \<longleftrightarrow>
        \<not> (\<exists>t. t \<in> set types \<and> \<not> res_ok (resolve c t (transmittable kind daily t))))"
proof -
  have ok: "res_ok (resolve c t tr) \<longleftrightarrow> tr \<and> (t \<in> cp_types c
      \<or> t \<in> {MARKET_ON_CLOSE_T, LIMIT_ON_CLOSE_T, STOP_T, STOP_LIMIT_T, TRAILING_STOP_T})" for t tr
    using ladder_decides_mode [of c t tr] by (auto simp: res_ok_def)
  have rt: "rs_type (resolve c t tr) = t" for t tr using ladder_decides_type .
  have "map rs_type (filter (\<lambda>r. \<not> res_ok r) (map (\<lambda>t. resolve c t (f t)) ts))
      = filter (\<lambda>t. \<not> res_ok (resolve c t (f t))) ts" for f ts
    by (induction ts) (simp_all add: rt)
  then show ?thesis
    unfolding unsupported_for_deploy_def by (auto simp: ok filter_empty_conv)
qed

section \<open>Orders that reach a venue\<close>

lemma validate_exact:
  "(validate_order c t tif lpx spx trail q ext opens_short = None) =
     (t \<in> cp_types c \<and> tif \<in> tifs_for c t \<and> \<not> (ext \<and> \<not> cp_extended c)
      \<and> \<not> (opens_short \<and> \<not> cp_short c) \<and> \<not> (t \<in> NEEDS_LIMIT_PRICE \<and> lpx = None)
      \<and> \<not> (t \<in> NEEDS_STOP_PRICE \<and> spx = None) \<and> \<not> (t = TRAILING_STOP_T \<and> trail = None)
      \<and> \<not> (0 < \<bar>q\<bar> \<and> \<bar>q\<bar> < 1 \<and> t \<noteq> MARKET_T))"
  by (simp add: validate_order_def)

lemma sorted_list_hd:
  fixes A :: "string set"
  assumes "sorted_list_of_set A = x # xs"
  shows "x = Min A \<and> x \<in> A"
proof -
  have fin: "finite A" using assms by (cases "finite A") auto
  then have A: "set (x # xs) = A" using assms by (metis set_sorted_list_of_set)
  moreover have "sorted (x # xs)" using assms by (metis sorted_list_of_set.sorted_sorted_key_list_of_set list.map_ident)
  ultimately have "\<forall>y \<in> A. x \<le> y" "x \<in> A" by auto
  with fin show ?thesis by (metis Min_eqI)
qed

lemma pick_tif_exact:
  "case pick_tif c t preferred of
     Some x \<Rightarrow> x \<in> tifs_for c t
       \<and> x = (if preferred \<in> tifs_for c t then preferred
              else if ''gtc'' \<in> tifs_for c t then ''gtc''
              else if ''day'' \<in> tifs_for c t then ''day'' else Min (tifs_for c t))
   | None \<Rightarrow> (if finite (tifs_for c t) then tifs_for c t = {} else True)"
proof (cases "sorted_list_of_set (tifs_for c t)")
  case Nil
  then have "tifs_for c t = {} \<or> infinite (tifs_for c t)"
    by (metis set_empty set_sorted_list_of_set)
  with Nil show ?thesis by (auto simp: pick_tif_def Let_def RESTING_TIF_PREFERENCE_def)
next
  case (Cons x xs)
  note m = sorted_list_hd [OF Cons]
  then have "Min (tifs_for c t) \<in> tifs_for c t" by metis
  with Cons m show ?thesis
    by (simp add: pick_tif_def Let_def RESTING_TIF_PREFERENCE_def)
qed

text \<open>An order passes the pre-flight check exactly when the venue takes its type, its time in force
  for that type and its session, takes a short sale if it opens one, it carries the prices its
  type needs, and it is a market order if it is for a fraction of a share; and the time in force
  the executor picks always passes, failing only when the venue accepts none for the type.\<close>

theorem preflight_exact:
  "(validate_order c t tif lpx spx trail q ext opens_short = None) =
     (t \<in> cp_types c \<and> tif \<in> tifs_for c t \<and> \<not> (ext \<and> \<not> cp_extended c)
      \<and> \<not> (opens_short \<and> \<not> cp_short c) \<and> \<not> (t \<in> NEEDS_LIMIT_PRICE \<and> lpx = None)
      \<and> \<not> (t \<in> NEEDS_STOP_PRICE \<and> spx = None) \<and> \<not> (t = TRAILING_STOP_T \<and> trail = None)
      \<and> \<not> (0 < \<bar>q\<bar> \<and> \<bar>q\<bar> < 1 \<and> t \<noteq> MARKET_T))
   \<and> (case pick_tif c t preferred of
        Some x \<Rightarrow> x \<in> tifs_for c t
          \<and> x = (if preferred \<in> tifs_for c t then preferred
                 else if ''gtc'' \<in> tifs_for c t then ''gtc''
                 else if ''day'' \<in> tifs_for c t then ''day'' else Min (tifs_for c t))
      | None \<Rightarrow> (if finite (tifs_for c t) then tifs_for c t = {} else True))"
  by (rule conjI [OF validate_exact pick_tif_exact])

text \<open>The limit-price rail looks only at whether the price crosses the market and at the absurdity
  band: a sell at or above and a buy at or below the last price is never refused for crossing; a
  refusal for crossing extends to every price that crosses further.\<close>

theorem limit_rail_directional:
  assumes "0 < px" "fl px = px" "0 \<le> ra_cross_tol ra" "ra_cross_tol ra \<le> 100"
  shows "(limit_price_refusal ''sell'' (Some x) px ra = Some CrossesBelow \<longrightarrow> x < px)
    \<and> (limit_price_refusal ''buy'' (Some x) px ra = Some CrossesAbove \<longrightarrow> px < x)
    \<and> (limit_price_refusal ''sell'' (Some x) px ra = Some CrossesBelow \<and> y \<le> x \<longrightarrow>
        limit_price_refusal ''sell'' (Some y) px ra = Some CrossesBelow)
    \<and> (limit_price_refusal ''buy'' (Some x) px ra = Some CrossesAbove \<and> x \<le> y \<longrightarrow>
        limit_price_refusal ''buy'' (Some y) px ra = Some CrossesAbove)
    \<and> limit_price_refusal ''sell'' (Some x) px ra \<noteq> Some CrossesAbove
    \<and> limit_price_refusal ''buy'' (Some x) px ra \<noteq> Some CrossesBelow"
proof -
  have tol: "0 \<le> fdiv (ra_cross_tol ra) 100" unfolding fdiv_def
    using assms(3) by (intro fl_nonneg) simp
  then have "fsub 1 (fdiv (ra_cross_tol ra) 100) \<le> 1" "1 \<le> fadd 1 (fdiv (ra_cross_tol ra) 100)"
    using fl_mono [of "1 - fdiv (ra_cross_tol ra) 100" 1] fl_mono [of 1 "1 + fdiv (ra_cross_tol ra) 100"]
    by (simp_all add: fsub_def fadd_def)
  then have "fmul px (fsub 1 (fdiv (ra_cross_tol ra) 100)) \<le> px"
    "px \<le> fmul px (fadd 1 (fdiv (ra_cross_tol ra) 100))"
    using assms(1,2) fl_mono [of "px * fsub 1 (fdiv (ra_cross_tol ra) 100)" px]
      fl_mono [of px "px * fadd 1 (fdiv (ra_cross_tol ra) 100)"]
    by (simp_all add: fmul_def mult_left_le mult_le_cancel_left1)
  then show ?thesis
    using assms(1) by (auto simp: limit_price_refusal_def split: if_splits)
qed

definition default_rails :: rails where
  "default_rails = rails_from \<lparr>se_order_notional = None, se_position_notional = None, se_max_orders = None,
     se_price_band = None, se_cross_tol = None, se_stop_band = None, se_paused = False,
     se_dry_run = False\<rparr> ''paper'' True"

text \<open>A sell 4% under a market of 100 is refused at the default tolerance, hence 5% under too.\<close>

theorem limit_rail_directional_witness:
  "limit_price_refusal ''sell'' (Some 95) 100 default_rails = Some CrossesBelow"
proof -
  have "limit_price_refusal ''sell'' (Some 96) 100 default_rails = Some CrossesBelow" by code_simp
  moreover have "0 \<le> ra_cross_tol default_rails" "ra_cross_tol default_rails \<le> 100"
    "fl 100 = (100 :: pyfloat)" by code_simp+
  ultimately show ?thesis using limit_rail_directional [of 100 default_rails 96 95] by simp
qed

text \<open>Both spellings of every order method are found by the source scan.\<close>

lemma scan_finds_methods:
  "list_all (\<lambda>(name, t). python_order_types (Some [name]) False = {t}) PY_ORDER_METHODS"
  "python_order_types (Some [''MarketOnCloseOrder'']) False = {MARKET_ON_CLOSE_T}"
  "python_order_types (Some [''SetHoldings'', ''print'']) True = {MARKET_T, MARKET_ON_CLOSE_T}"
  by code_simp+

end
