(* ===== verification/OrderIds.thy ===== *)
theory OrderIds
  imports PyBase "HOL-Library.Word"
begin

unbundle bit_operations_syntax

text \<open>
  Client order ids of \<open>dqengine/live/executor.py\<close>: the prefixes that identify an exit or entry by
  kind, symbol, deployment and rule, and the level token that lets a resting order's wanted level
  be read back from its own id.  The rule token hashes with CRC-32, written out on 32-bit words;
  \<open>uuid.uuid4().hex\<close> is the argument \<open>rand\<close>.  \<open>_round_step\<close>, which every quantity goes through, is
  here too.
\<close>

section \<open>Quantities\<close>

definition round_step :: "pyfloat \<Rightarrow> pyfloat \<Rightarrow> pyfloat" where
  "round_step q step =
     (if step \<le> 0 then q
      else fmul (fint \<lfloor>fdiv \<bar>q\<bar> step\<rfloor>) step * (if 0 \<le> q then 1 else - 1))"

section \<open>Base 36 and CRC-32\<close>

definition B36_ALPHABET :: string where
  "B36_ALPHABET = ''0123456789abcdefghijklmnopqrstuvwxyz''"

fun b36_loop :: "nat \<Rightarrow> string \<Rightarrow> string" where
  "b36_loop n acc = (if n = 0 then acc else b36_loop (n div 36) (B36_ALPHABET ! (n mod 36) # acc))"

declare b36_loop.simps [simp del]

definition b36encode :: "nat \<Rightarrow> string" where
  "b36encode n = (if n = 0 then ''0'' else b36_loop n [])"

definition b36_value :: "char \<Rightarrow> nat option" where
  "b36_value c = map_of (zip B36_ALPHABET [0..<36]) c"

text \<open>\<open>int(s, 36)\<close> on strings of digits and lower-case letters, the only ones it is called with.\<close>

definition b36_step :: "nat option \<Rightarrow> char \<Rightarrow> nat option" where
  "b36_step a c = (case (a, b36_value c) of (Some n, Some d) \<Rightarrow> Some (36 * n + d) | _ \<Rightarrow> None)"

definition b36decode :: "string \<Rightarrow> nat option" where
  "b36decode s = (if s = [] then None else foldl b36_step (Some 0) s)"

definition rjust :: "nat \<Rightarrow> string \<Rightarrow> string" where
  "rjust w s = replicate (w - length s) (CHR ''0'') @ s"

definition crc_bit :: "32 word \<Rightarrow> 32 word" where
  "crc_bit c = (if c AND 1 = 0 then drop_bit 1 c else drop_bit 1 c XOR 0xEDB88320)"

definition crc_byte :: "32 word \<Rightarrow> char \<Rightarrow> 32 word" where
  "crc_byte c ch = (crc_bit ^^ 8) (c XOR of_nat (of_char ch))"

definition crc32 :: "string \<Rightarrow> 32 word" where
  "crc32 s = NOT (foldl crc_byte (NOT 0) s)"

section \<open>Prefixes\<close>

definition EXIT_CID_CODE :: "(string, string) dict" where
  "EXIT_CID_CODE = [(''limit'', ''tp''), (''stop'', ''stp''), (''stop_limit'', ''stl''),
     (''trailing_stop'', ''trl'')]"

definition ENTRY_CID_CODE :: "(string, string) dict" where
  "ENTRY_CID_CODE = [(''limit'', ''lmt''), (''stop'', ''stp''), (''stop_limit'', ''stl'')]"

definition EXIT_CID_PREFIXES :: "string list" where
  "EXIT_CID_PREFIXES = map (\<lambda>(_, c). ''sl-'' @ c @ ''-'') EXIT_CID_CODE"

definition ENTRY_CID_PREFIXES :: "string list" where
  "ENTRY_CID_PREFIXES = map (\<lambda>(_, c). ''en-'' @ c @ ''-'') ENTRY_CID_CODE"

definition MAX_CID_LEN :: nat where "MAX_CID_LEN = 40"

definition rule_token :: "string option \<Rightarrow> string" where
  "rule_token rule_id =
     (if \<not> truthy rule_id then []
      else ''-'' @ rjust 3 (b36encode (unat (crc32 (str_or rule_id)) mod 36 ^ 3)))"

definition exit_cid_prefix :: "string \<Rightarrow> string \<Rightarrow> sym \<Rightarrow> string option \<Rightarrow> string" where
  "exit_cid_prefix dep kind s rule_id =
     (if kind = ''limit'' then ''sl-tp-'' @ take 18 dep
      else ''sl-'' @ dget_or EXIT_CID_CODE kind (take 3 kind) @ ''-'' @ take 5 s @ ''-'' @ take 4 dep
             @ rule_token rule_id)"

definition entry_cid_prefix :: "string \<Rightarrow> string \<Rightarrow> sym \<Rightarrow> string option \<Rightarrow> string" where
  "entry_cid_prefix dep kind s rule_id =
     ''en-'' @ dget_or ENTRY_CID_CODE kind (take 3 kind) @ ''-'' @ take 5 s @ ''-'' @ take 4 dep
       @ rule_token rule_id"

section \<open>Level tokens\<close>

definition LEVEL_WIDTH :: nat where "LEVEL_WIDTH = 5"

definition quantize_level :: "pyfloat \<Rightarrow> pyfloat" where
  "quantize_level v = fdiv (fint (max 0 (rnd_even (fmul v 100)))) 100"

definition encode_level :: "pyfloat \<Rightarrow> string option" where
  "encode_level v =
     (let cents = max 0 (rnd_even (fmul (quantize_level v) 100))
      in if 36 ^ LEVEL_WIDTH - 1 < cents then None
         else Some (rjust LEVEL_WIDTH (b36encode (nat cents))))"

text \<open>The match of \<open>mark([0-9a-z]{w})$\<close> in an id (ids hold no newline).\<close>

definition tail_token :: "string \<Rightarrow> nat \<Rightarrow> string \<Rightarrow> string option" where
  "tail_token mark w cid =
     (let n = length cid; k = length mark + w; t = drop (n - w) cid
      in if k \<le> n \<and> take (length mark) (drop (n - k) cid) = mark
            \<and> list_all (\<lambda>c. c \<in> set B36_ALPHABET) t
         then Some t else None)"

definition cents_level :: "nat \<Rightarrow> pyfloat" where
  "cents_level n = fdiv (fint (int n)) 100"

definition decode_level :: "string \<Rightarrow> pyfloat option" where
  "decode_level cid =
     (case tail_token ''-L'' LEVEL_WIDTH cid of
        None \<Rightarrow> None | Some t \<Rightarrow> map_option cents_level (b36decode t))"

definition decode_stop_limit_legs :: "string \<Rightarrow> pyfloat option \<times> pyfloat option" where
  "decode_stop_limit_legs cid =
     (case tail_token ''-B'' (2 * LEVEL_WIDTH) cid of
        None \<Rightarrow> (None, None)
      | Some t \<Rightarrow>
          (map_option cents_level (b36decode (take LEVEL_WIDTH t)),
           map_option cents_level (b36decode (drop LEVEL_WIDTH t))))"

definition level_token ::
  "string \<Rightarrow> pyfloat option \<Rightarrow> pyfloat option \<Rightarrow> pyfloat option \<Rightarrow> string" where
  "level_token kind price stop_px trail =
     (if kind = ''trailing_stop''
      then (case trail of
              None \<Rightarrow> []
            | Some v \<Rightarrow> (case encode_level (fmul v 100) of None \<Rightarrow> [] | Some t \<Rightarrow> ''-L'' @ t))
      else if kind = ''stop_limit''
      then (case (stop_px, price) of
              (Some s, Some p) \<Rightarrow>
                (case (encode_level s, encode_level p) of
                   (Some ts, Some tp) \<Rightarrow> ''-B'' @ ts @ tp | _ \<Rightarrow> [])
            | _ \<Rightarrow> [])
      else (case stop_px of
              None \<Rightarrow> []
            | Some v \<Rightarrow> (case encode_level v of None \<Rightarrow> [] | Some t \<Rightarrow> ''-L'' @ t)))"

definition cid_with_level ::
  "string \<Rightarrow> string \<Rightarrow> pyfloat option \<Rightarrow> pyfloat option \<Rightarrow> pyfloat option \<Rightarrow> string \<Rightarrow> string res" where
  "cid_with_level prefix kind price stop_px trail rand =
     (if kind = ''limit'' then Inr (prefix @ ''-'' @ take 6 rand)
      else let result = prefix @ ''-'' @ take 4 rand @ level_token kind price stop_px trail
           in if MAX_CID_LEN < length result then Inl (ValueError ''exceeds MAX_CID_LEN'')
              else Inr result)"

section \<open>A live quote against a resting stop\<close>

definition quote_breaches_stop ::
  "string \<Rightarrow> pyfloat option \<Rightarrow> pyfloat option \<Rightarrow> string \<Rightarrow> bool" where
  "quote_breaches_stop kind stop_price last_price side =
     (if kind \<noteq> ''stop'' \<and> kind \<noteq> ''trailing_stop'' then False
      else case (stop_price, last_price) of
             (Some s, Some l) \<Rightarrow> if side = ''buy'' then s < l else l < s
           | _ \<Rightarrow> False)"

section \<open>Base 36 round trip\<close>

lemma alphabet_facts:
  "length B36_ALPHABET = 36" "distinct B36_ALPHABET"
  by code_simp+

lemma b36_value_nth: "d < 36 \<Longrightarrow> b36_value (B36_ALPHABET ! d) = Some d"
  using alphabet_facts
  by (auto simp: b36_value_def in_set_zip intro!: map_of_is_SomeI)

lemma b36_step_nth [simp]: "d < 36 \<Longrightarrow> b36_step (Some n) (B36_ALPHABET ! d) = Some (36 * n + d)"
  by (simp add: b36_step_def b36_value_nth)

lemma b36_step_zero: "b36_step (Some 0) (CHR ''0'') = Some 0"
  using b36_step_nth [of 0 0] by (simp add: B36_ALPHABET_def)

lemma b36_fold_zeros: "foldl b36_step (Some 0) (replicate k (CHR ''0'')) = Some 0"
  by (induction k) (simp_all add: b36_step_zero)

lemma b36_loop_decodes: "foldl b36_step (Some 0) (b36_loop n acc) = foldl b36_step (Some n) acc"
proof (induction n acc rule: b36_loop.induct)
  case (1 n acc)
  then show ?case by (subst b36_loop.simps) simp
qed

lemma b36decode_encode: "b36decode (rjust w (b36encode n)) = Some n"
proof -
  have "foldl b36_step (Some 0) (b36encode n) = Some n"
    by (simp add: b36encode_def b36_loop_decodes b36_step_zero)
  moreover have "rjust w (b36encode n) \<noteq> []"
  proof -
    have "b36encode n \<noteq> []"
      using b36_loop_decodes [of n "[]"] by (auto simp: b36encode_def)
    then show ?thesis by (simp add: rjust_def)
  qed
  ultimately show ?thesis
    by (simp add: b36decode_def rjust_def b36_fold_zeros)
qed

lemma b36_loop_length: "n < 36 ^ w \<Longrightarrow> length (b36_loop n acc) \<le> w + length acc"
proof (induction w arbitrary: n acc)
  case 0
  then show ?case by (subst b36_loop.simps) simp
next
  case (Suc w)
  then have "n div 36 < 36 ^ w" by (simp add: less_mult_imp_div_less mult.commute)
  from Suc.IH [OF this, of "B36_ALPHABET ! (n mod 36) # acc"] show ?case
    by (subst b36_loop.simps) simp
qed

lemma b36encode_length: "n < 36 ^ w \<Longrightarrow> 0 < w \<Longrightarrow> length (b36encode n) \<le> w"
  using b36_loop_length [of n w "[]"] by (simp add: b36encode_def)

lemma rjust_length: "length s \<le> w \<Longrightarrow> length (rjust w s) = w"
  by (simp add: rjust_def)

lemma b36_loop_chars: "set acc \<subseteq> set B36_ALPHABET \<Longrightarrow> set (b36_loop n acc) \<subseteq> set B36_ALPHABET"
proof (induction n acc rule: b36_loop.induct)
  case (1 n acc)
  have "B36_ALPHABET ! (n mod 36) \<in> set B36_ALPHABET" using alphabet_facts by simp
  with 1 show ?case by (subst b36_loop.simps) simp
qed

lemma rjust_chars: "set (rjust w (b36encode n)) \<subseteq> set B36_ALPHABET"
proof -
  have "CHR ''0'' \<in> set B36_ALPHABET" by (simp add: B36_ALPHABET_def)
  moreover have "set (b36encode n) \<subseteq> set B36_ALPHABET"
    using b36_loop_chars [of "[]" n] calculation by (simp add: b36encode_def)
  ultimately show ?thesis by (auto simp: rjust_def)
qed

section \<open>The level token\<close>

lemma fint_mono: "m \<le> n \<Longrightarrow> fint m \<le> fint n"
  unfolding fint_def by (rule fl_mono) simp

definition level_cents :: "pyfloat \<Rightarrow> int" where
  "level_cents v = max 0 (rnd_even (fmul v 100))"

lemma quantize_cents: "quantize_level v = fdiv (fint (level_cents v)) 100"
  by (simp add: quantize_level_def level_cents_def)

lemma recents:
  assumes "0 \<le> n"
  shows "n < 2 ^ 40 \<Longrightarrow> rnd_even (fmul (fdiv (fint n) 100) 100) = n"
    and "2 ^ 40 \<le> n \<Longrightarrow> 2 ^ 40 - 1 \<le> rnd_even (fmul (fdiv (fint n) 100) 100)"
proof -
  have small: "rnd_even (fmul (fdiv (fint m) 100) 100) = m" if "0 \<le> m" "m < 2 ^ 40" for m
  proof -
    have "fint m = of_int m" by (rule fint_small) (use that in simp)
    with cents_roundtrip [OF that] show ?thesis by simp
  qed
  then show "n < 2 ^ 40 \<Longrightarrow> rnd_even (fmul (fdiv (fint n) 100) 100) = n" using assms by simp
  assume big: "2 ^ 40 \<le> n"
  have "fmul (fdiv (fint (2 ^ 40 - 1)) 100) 100 \<le> fmul (fdiv (fint n) 100) 100"
    unfolding fmul_def fdiv_def
    by (intro fl_mono mult_right_mono divide_right_mono fint_mono) (use big in simp_all)
  then have "rnd_even (fmul (fdiv (fint (2 ^ 40 - 1)) 100) 100) \<le> rnd_even (fmul (fdiv (fint n) 100) 100)"
    by (rule rnd_even_mono)
  with small [of "2 ^ 40 - 1"] show "2 ^ 40 - 1 \<le> rnd_even (fmul (fdiv (fint n) 100) 100)" by simp
qed

lemma encode_level_Some:
  assumes "encode_level v = Some t"
  shows "length t = 5 \<and> set t \<subseteq> set B36_ALPHABET
    \<and> map_option cents_level (b36decode t) = Some (quantize_level v)"
proof -
  let ?n = "level_cents v"
  have n0: "0 \<le> ?n" by (simp add: level_cents_def)
  have le: "max 0 (rnd_even (fmul (quantize_level v) 100)) \<le> 36 ^ 5 - 1"
    and t: "t = rjust 5 (b36encode (nat (max 0 (rnd_even (fmul (quantize_level v) 100)))))"
    using assms by (auto simp: encode_level_def LEVEL_WIDTH_def Let_def split: if_splits)
  have "?n < 2 ^ 40"
  proof (rule ccontr)
    assume "\<not> ?n < 2 ^ 40"
    then have "2 ^ 40 - 1 \<le> rnd_even (fmul (quantize_level v) 100)"
      using recents(2) [OF n0] by (simp add: quantize_cents)
    with le show False by simp
  qed
  then have c: "max 0 (rnd_even (fmul (quantize_level v) 100)) = ?n"
    using recents(1) [OF n0] n0 by (simp add: quantize_cents)
  with t have t': "t = rjust 5 (b36encode (nat ?n))" by simp
  from le c have "nat ?n < 36 ^ 5" by (simp add: nat_less_iff)
  then have "length (b36encode (nat ?n)) \<le> 5" by (rule b36encode_length) simp
  then show ?thesis
    using n0 by (simp add: t' rjust_length rjust_chars b36decode_encode cents_level_def quantize_cents)
qed

lemma tail_token_suffix:
  assumes "set t \<subseteq> set B36_ALPHABET" "length t = w"
  shows "tail_token mark w (p @ mark @ t) = Some t"
  using assms by (auto simp: tail_token_def Let_def list_all_iff)

text \<open>C21: An unchanged level never reads as changed: decoding the token of an id minted for a stop, a
  trailing stop or a stop limit gives exactly the quantized level that the change test compares
  with, for every level that fits the token.\<close>

theorem level_token_roundtrip:
  assumes "encode_level v \<noteq> None" "encode_level u \<noteq> None" "encode_level (fmul tr 100) \<noteq> None"
  shows "(\<forall>cid. cid_with_level prefix ''stop'' price (Some v) trail rand = Inr cid \<longrightarrow>
        decode_level cid = Some (quantize_level v))
    \<and> (\<forall>cid. cid_with_level prefix ''trailing_stop'' price stop_px (Some tr) rand = Inr cid \<longrightarrow>
        decode_level cid = Some (quantize_level (fmul tr 100)))
    \<and> (\<forall>cid. cid_with_level prefix ''stop_limit'' (Some u) (Some v) trail rand = Inr cid \<longrightarrow>
        decode_stop_limit_legs cid = (Some (quantize_level v), Some (quantize_level u)))"
proof -
  obtain tv tu tt where t: "encode_level v = Some tv" "encode_level u = Some tu"
    "encode_level (fmul tr 100) = Some tt"
    using assms by auto
  note v = encode_level_Some [OF t(1)] and u = encode_level_Some [OF t(2)]
    and tt = encode_level_Some [OF t(3)]
  have one: "decode_level (p @ ''-L'' @ x) = map_option cents_level (b36decode x)"
    if "set x \<subseteq> set B36_ALPHABET" "length x = 5" for p x
    using tail_token_suffix [OF that, of "''-L''" p] by (simp add: decode_level_def LEVEL_WIDTH_def)
  have two: "decode_stop_limit_legs (p @ ''-B'' @ x @ y)
      = (map_option cents_level (b36decode x), map_option cents_level (b36decode y))"
    if "set x \<subseteq> set B36_ALPHABET" "length x = 5" "set y \<subseteq> set B36_ALPHABET" "length y = 5" for p x y
    using tail_token_suffix [of "x @ y" 10 "''-B''" p] that
    by (simp add: decode_stop_limit_legs_def LEVEL_WIDTH_def)
  have "decode_level ((prefix @ ''-'' @ take 4 rand) @ ''-L'' @ tv) = Some (quantize_level v)"
    "decode_level ((prefix @ ''-'' @ take 4 rand) @ ''-L'' @ tt) = Some (quantize_level (fmul tr 100))"
    "decode_stop_limit_legs ((prefix @ ''-'' @ take 4 rand) @ ''-B'' @ tv @ tu)
      = (Some (quantize_level v), Some (quantize_level u))"
    using v u tt by (simp_all only: one two)
  then show ?thesis
    by (simp add: cid_with_level_def level_token_def t Let_def)
qed

section \<open>Lengths and kinds\<close>

lemma rule_token_length: "length (rule_token r) \<le> 4"
proof -
  have "length (b36encode (n mod 36 ^ 3)) \<le> 3" for n by (rule b36encode_length) simp_all
  then show ?thesis by (simp add: rule_token_def rjust_length)
qed

lemma encode_level_length: "encode_level v = Some t \<Longrightarrow> length t = 5"
  using encode_level_Some by blast

theorem level_token_roundtrip_witness:
  "\<exists>cid. cid_with_level ''sl-stp-QQQ-ab12'' ''stop'' None (Some (3800045 / 10000)) None ''0f3c'' = Inr cid
     \<and> decode_level cid = Some (quantize_level (3800045 / 10000))"
proof -
  have "rnd_even (fmul (quantize_level (3800045 / 10000)) 100) = 38000"
    "rnd_even (fmul (quantize_level (fmul (1 / 20) 100)) 100) = 500" by code_simp+
  then have e: "encode_level (3800045 / 10000) \<noteq> None" "encode_level (fmul (1 / 20) 100) \<noteq> None"
    by (simp_all add: encode_level_def Let_def LEVEL_WIDTH_def)
  then obtain t where t: "encode_level (3800045 / 10000) = Some t" by blast
  then have "\<exists>cid. cid_with_level ''sl-stp-QQQ-ab12'' ''stop'' None (Some (3800045 / 10000)) None ''0f3c'' = Inr cid"
    using encode_level_length [OF t]
    by (simp add: cid_with_level_def level_token_def Let_def MAX_CID_LEN_def)
  with conjunct1 [OF level_token_roundtrip [OF e(1) e(1) e(2)]] show ?thesis by blast
qed

lemma level_token_length: "length (level_token kind price stop_px trail) \<le> 12"
  by (auto simp: level_token_def dest!: encode_level_length split: option.split)

lemma code_length:
  "length (dget_or EXIT_CID_CODE kind (take 3 kind)) \<le> 3"
  "length (dget_or ENTRY_CID_CODE kind (take 3 kind)) \<le> 3"
  by (simp_all add: dget_or_def EXIT_CID_CODE_def ENTRY_CID_CODE_def)

text \<open>The length guard of the venue never trips: for every deployment, kind, symbol, rule, level and
  random suffix an exit's or entry's id can be minted, and it has at most 40 characters.\<close>

theorem cid_always_fits:
  "(\<exists>cid. cid_with_level (exit_cid_prefix dep kind s rule_id) kind price stop_px trail rand = Inr cid
      \<and> length cid \<le> 40)
   \<and> (\<exists>cid. cid_with_level (entry_cid_prefix dep kind s rule_id) kind price stop_px trail rand = Inr cid
      \<and> length cid \<le> 40)"
  using rule_token_length [of rule_id] level_token_length [of kind price stop_px trail]
    code_length [of kind]
  by (auto simp: cid_with_level_def exit_cid_prefix_def entry_cid_prefix_def MAX_CID_LEN_def Let_def)

end
