(* ===== verification/Gateway.thy ===== *)
theory Gateway
  imports Calendar
begin

text \<open>
  The venue's clock as \<open>dqengine/live/executor.py\<close> sees it: which refusals mean that the market
  gateway is not open yet, when to try again, the minutes around the close and the retry ladder of
  a rate-limited submit.  A wall-clock time in New York is a number of seconds, \<open>day * 86400\<close> plus
  the seconds since midnight (the code's datetime arithmetic in one zone is wall-clock arithmetic).
\<close>

section \<open>Refusals\<close>

fun contains :: "string \<Rightarrow> string \<Rightarrow> bool" where
  "contains sub [] = (sub = [])"
| "contains sub (c # cs) = (starts_with (c # cs) sub \<or> contains sub cs)"

definition MARKET_NOT_READY_CODES :: "string list" where
  "MARKET_NOT_READY_CODES = [''CAN_NOT_TRADING_FOR_FIXGW_NOT_READY'', ''MARKET_NOT_READY'',
     ''DAY_ORDER_NOT_ALLOWED_AFT_CORE_TIME'']"

definition is_market_not_ready :: "string \<Rightarrow> bool" where
  "is_market_not_ready msg \<longleftrightarrow> list_ex (\<lambda>code. contains code (upper msg)) MARKET_NOT_READY_CODES"

text \<open>The text part of \<open>_rate_refused\<close>; the exception's class is checked where it is caught.\<close>

definition rate_refused :: "string \<Rightarrow> bool" where
  "rate_refused msg \<longleftrightarrow>
     (let t = lower msg
      in contains ''rate-limited'' t \<or> contains ''too many request'' t
         \<or> contains ''to many request'' t \<or> contains '' 429'' t)"

definition rate_limited :: "string list \<Rightarrow> string option \<Rightarrow> bool" where
  "rate_limited errors exec_error \<longleftrightarrow>
     list_ex (\<lambda>m. contains ''rate-limited'' (lower m) \<or> contains ''too many request'' (lower m)
                  \<or> contains ''to many request'' (lower m))
       (errors @ (if truthy exec_error then [str_or exec_error] else []))"

section \<open>Sessions on the wall clock\<close>

definition wday :: "int \<Rightarrow> day" where "wday w = w div 86400"

definition wsec :: "int \<Rightarrow> int" where "wsec w = w mod 86400"

definition OPEN_SESSION_BACKOFF_S :: int where "OPEN_SESSION_BACKOFF_S = 90"

definition OPEN_S :: int where "OPEN_S = 9 * 3600 + 30 * 60"

definition PRE_MARKET_OPEN_S :: int where "PRE_MARKET_OPEN_S = 4 * 3600"

definition CLOSE_WINDOW_BEFORE_S :: int where "CLOSE_WINDOW_BEFORE_S = 180"

definition CLOSE_WINDOW_AFTER_S :: int where "CLOSE_WINDOW_AFTER_S = 120"

text \<open>\<open>close_time_ms\<close> is a whole number of seconds, so \<open>/ 1000.0\<close> is exact.\<close>

definition in_close_window :: "int \<Rightarrow> bool" where
  "in_close_window now \<longleftrightarrow>
     is_session (wday now)
     \<and> close_time_ms (wday now) - CLOSE_WINDOW_BEFORE_S * 1000 \<le> wsec now * 1000
     \<and> wsec now * 1000 \<le> close_time_ms (wday now) + CLOSE_WINDOW_AFTER_S * 1000"

definition market_open_now :: "int \<Rightarrow> bool" where
  "market_open_now now \<longleftrightarrow>
     is_session (wday now) \<and> OPEN_S \<le> wsec now \<and> wsec now * 1000 < close_time_ms (wday now)"

text \<open>The walk over following days is the loop of \<open>next_scheduled_session\<close>.\<close>

definition next_gateway_retry_time :: "int \<Rightarrow> int option" where
  "next_gateway_retry_time now =
     (let d = wday now
      in if is_session d \<and> now < d * 86400 + PRE_MARKET_OPEN_S then Some (d * 86400 + PRE_MARKET_OPEN_S)
         else if is_session d \<and> now < d * 86400 + OPEN_S then Some (d * 86400 + OPEN_S)
         else map_option (\<lambda>x. x * 86400 + PRE_MARKET_OPEN_S) (next_scheduled_session d))"

section \<open>The retry ladder\<close>

definition RATE_RETRY_DELAYS_S :: "pyfloat list" where
  "RATE_RETRY_DELAYS_S = [3 / 2, 2, 3, 4, 5, 6, 8, 10]"

definition schedule_rate_retry ::
  "(string, nat) dict \<Rightarrow> string \<Rightarrow> int \<Rightarrow> pyfloat option \<times> (string, nat) dict" where
  "schedule_rate_retry used conn now =
     (if \<not> in_close_window now then (None, ddel used conn)
      else let n = dget_or used conn 0
           in if length RATE_RETRY_DELAYS_S \<le> n then (None, used)
              else (Some (RATE_RETRY_DELAYS_S ! n), dput used conn (n + 1)))"

section \<open>When submissions resume\<close>

text \<open>The moments a refused submission may be tried again while the market is closed.\<close>

definition gateway_anchor :: "int \<Rightarrow> bool" where
  "gateway_anchor w \<longleftrightarrow> is_session (wday w) \<and> wsec w \<in> {PRE_MARKET_OPEN_S, OPEN_S}"

lemma wall_split: "now = wday now * 86400 + wsec now" "0 \<le> wsec now" "wsec now < 86400"
  by (simp_all add: wday_def wsec_def)

lemma wall_at: "0 \<le> s \<Longrightarrow> s < 86400 \<Longrightarrow> wday (d * 86400 + s) = d \<and> wsec (d * 86400 + s) = s"
  by (simp add: wday_def wsec_def)

lemma anchor_between:
  assumes "gateway_anchor v" "now < v"
  shows "wday now \<le> wday v \<and> (wday v = wday now \<longrightarrow> wsec now < wsec v)"
proof -
  have "wday now * 86400 + wsec now < wday v * 86400 + wsec v"
    using assms(2) wall_split(1) [of now] wall_split(1) [of v] by linarith
  then show ?thesis using wall_split(2,3) [of now] wall_split(2,3) [of v] by auto
qed

text \<open>After a refusal that says the gateway is not ready, submissions resume at the first moment
  that can succeed: the retry time always exists, is later than now, is 04:00 or 09:30 of a
  session day, and no such moment lies between.\<close>

theorem gateway_retry_is_next_anchor:
  "\<exists>w. next_gateway_retry_time now = Some w \<and> now < w \<and> gateway_anchor w
     \<and> \<not> (\<exists>v. gateway_anchor v \<and> now < v \<and> v < w)"
proof -
  let ?d = "wday now"
  have now: "now = ?d * 86400 + wsec now" by (rule wall_split(1))
  obtain x where x: "next_scheduled_session ?d = Some x" "?d < x" "is_session x"
    "\<not> (\<exists>v. ?d < v \<and> v < x \<and> is_session v)"
    using next_session_spec [of ?d] by blast
  have pre: "gateway_anchor (d * 86400 + PRE_MARKET_OPEN_S)" "gateway_anchor (d * 86400 + OPEN_S)"
    if "is_session d" for d
    using that wall_at [of PRE_MARKET_OPEN_S d] wall_at [of OPEN_S d]
    by (simp_all add: gateway_anchor_def PRE_MARKET_OPEN_S_def OPEN_S_def)
  have split: "v = wday v * 86400 + wsec v \<and> (wsec v = PRE_MARKET_OPEN_S \<or> wsec v = OPEN_S)
      \<and> is_session (wday v)" if "gateway_anchor v" for v
    using that wall_split(1) [of v] by (auto simp: gateway_anchor_def)
  note s = PRE_MARKET_OPEN_S_def OPEN_S_def
  consider (a) "is_session ?d" "wsec now < PRE_MARKET_OPEN_S"
    | (b) "is_session ?d" "PRE_MARKET_OPEN_S \<le> wsec now" "wsec now < OPEN_S"
    | (c) "\<not> is_session ?d \<or> OPEN_S \<le> wsec now"
    by linarith
  then show ?thesis
  proof cases
    case a
    have "\<not> (gateway_anchor v \<and> now < v \<and> v < ?d * 86400 + PRE_MARKET_OPEN_S)" for v
      using split [of v] anchor_between [of v now] a now by (auto simp: s)
    with a now pre [OF a(1)] show ?thesis
      by (auto simp: next_gateway_retry_time_def Let_def s)
  next
    case b
    have "\<not> (gateway_anchor v \<and> now < v \<and> v < ?d * 86400 + OPEN_S)" for v
    proof
      assume v: "gateway_anchor v \<and> now < v \<and> v < ?d * 86400 + OPEN_S"
      then have "?d \<le> wday v" "wday v = ?d \<longrightarrow> wsec now < wsec v" using anchor_between by blast+
      moreover have "wday v * 86400 + wsec v < ?d * 86400 + OPEN_S" "0 \<le> wsec v"
        using v wall_split(1,2) [of v] by auto
      ultimately have "wday v = ?d" "wsec now < wsec v" "wsec v < OPEN_S" by (auto simp: s)
      with split [of v] v b show False by (auto simp: s)
    qed
    with b now pre [OF b(1)] show ?thesis
      by (auto simp: next_gateway_retry_time_def Let_def s)
  next
    case c
    have n: "next_gateway_retry_time now = Some (x * 86400 + PRE_MARKET_OPEN_S)"
      using c now x(1) by (auto simp: next_gateway_retry_time_def Let_def s)
    have "\<not> (gateway_anchor v \<and> now < v \<and> v < x * 86400 + PRE_MARKET_OPEN_S)" for v
    proof
      assume v: "gateway_anchor v \<and> now < v \<and> v < x * 86400 + PRE_MARKET_OPEN_S"
      with split [of v] anchor_between [of v now] have "?d \<le> wday v" "is_session (wday v)" by auto
      moreover have "wday v < x" using v split [of v] by (auto simp: s)
      ultimately have "wday v = ?d" using x(4) by force
      with v split [of v] anchor_between [of v now] c show False by (auto simp: s)
    qed
    moreover have "now < x * 86400 + PRE_MARKET_OPEN_S"
      using x(2) wall_split(3) [of now] now by (simp add: s)
    ultimately show ?thesis using n pre [OF x(3)] by blast
  qed
qed

end
