(* ===== verification/Reconcile.thy ===== *)
theory Reconcile
  imports Adapters Journal Ladder OrderIds Gateway
begin

text \<open>
  One reconciliation pass, \<open>reconcile\<close> of \<open>dqengine/live/executor.py\<close>, with its batch launcher and
  the first-sync preflight.  \<open>ctx\<close> holds what a pass is given and never changes, \<open>pass\<close> what it
  changes: the calls that reached the adapter (\<open>ps_wire\<close>), the journal, the order budget, the
  gateway flag, the report and the recorded rows.  The adapter is a parameter; each of its calls
  may depend on the calls before it and may raise.  An exception that escapes is kept in
  \<open>ps_raised\<close> and makes every later step a no-op.  Report lines are kept as a tag and a symbol.
\<close>

section \<open>The adapter and the pass\<close>

datatype 'a outcome = Done 'a | BrokerRejected string | BrokerUnavailable string | Raised string

datatype wire =
    WSubmit sub_args
  | WCancel string
  | WReplace string int "pyfloat option"

record adapter =
  ad_caps :: caps
  ad_positions :: "(sym, pyfloat) dict"
  ad_orders :: "border list"
  ad_kept_now :: "(sym, pyfloat) dict"
  ad_kept_short :: "(sym, int) dict"
  ad_call :: "wire list \<Rightarrow> wire \<Rightarrow> venue_out outcome"

record bentry =
  be_action :: string
  be_sym :: sym
  be_qty :: pyfloat
  be_side :: string
  be_type :: string
  be_limit :: "pyfloat option"
  be_boid :: string
  be_cid :: string
  be_status :: string
  be_dep :: "string option"
  be_tag :: "string option"

datatype line = Line string sym

record ctx =
  cx_ad :: adapter
  cx_rails :: rails
  cx_conn :: "string option"
  cx_now :: int
  cx_wall :: int
  cx_date_iso :: string
  cx_uuid :: "nat \<Rightarrow> string"
  cx_sha1_8 :: "string \<Rightarrow> string"
  cx_show :: "pyfloat \<Rightarrow> string"
  cx_show_int :: "int \<Rightarrow> string"
  cx_px :: "(sym, pyfloat) dict"
  cx_gates :: gates
  cx_fold_pending :: "(sym, pyfloat option) dict"
  cx_qb :: "sym list"
  cx_bp :: "pyfloat option"
  cx_moc_done :: "(string \<times> sym) list"
  cx_recent_refusals :: "(string \<times> sym \<times> string \<times> string \<times> pyfloat option) list"
  cx_counts_refusals :: bool
  cx_backoff :: "(int \<times> string) option"
  cx_known :: "sym list option"
  cx_pool :: nat
  cx_order :: "nat \<Rightarrow> nat list"

record pass =
  ps_wire :: "wire list"
  ps_journal :: "jrow list"
  ps_budget :: int
  ps_tripped :: bool
  ps_actions :: "line list"
  ps_errors :: "line list"
  ps_backoff :: "(int \<times> string) option option"
  ps_rate_refused :: bool
  ps_records :: "bentry list"
  ps_refused :: "(sym \<times> string \<times> pyfloat, int \<times> string) dict"
  ps_uuid :: nat
  ps_raised :: "string option"

definition CENT_TOL :: pyfloat where "CENT_TOL = fl (4 / 1000)"

definition QTY_TOL :: pyfloat where "QTY_TOL = fl (1 / 10 ^ 9)"

section \<open>Reporting\<close>

definition say :: "string \<Rightarrow> sym \<Rightarrow> pass \<Rightarrow> pass" where
  "say tag k s = (if ps_raised s \<noteq> None then s else s\<lparr>ps_actions := ps_actions s @ [Line tag k]\<rparr>)"

definition complain :: "string \<Rightarrow> sym \<Rightarrow> pass \<Rightarrow> pass" where
  "complain tag k s = (if ps_raised s \<noteq> None then s else s\<lparr>ps_errors := ps_errors s @ [Line tag k]\<rparr>)"

definition log_entry :: "bentry \<Rightarrow> pass \<Rightarrow> pass" where
  "log_entry e s = (if ps_raised s \<noteq> None then s else s\<lparr>ps_records := ps_records s @ [e]\<rparr>)"

definition raise_in :: "string \<Rightarrow> pass \<Rightarrow> pass" where
  "raise_in why s = (if ps_raised s \<noteq> None then s else s\<lparr>ps_raised := Some why\<rparr>)"

section \<open>Refusals\<close>

definition handle_rate_refused :: "bentry \<Rightarrow> string \<Rightarrow> pass \<Rightarrow> pass" where
  "handle_rate_refused e msg s =
     log_entry (e\<lparr>be_action := ''refused'', be_status := ''rate_limited''\<rparr>)
       ((complain (''not placed -- '' @ take 300 msg) (be_sym e) s)\<lparr>ps_rate_refused := True\<rparr>)"

definition backoff_until :: "ctx \<Rightarrow> int" where
  "backoff_until cx =
     (if market_open_now (cx_wall cx) then cx_wall cx + OPEN_SESSION_BACKOFF_S
      else case next_gateway_retry_time (cx_wall cx) of Some w \<Rightarrow> w | None \<Rightarrow> cx_wall cx)"

definition count_refusal :: "ctx \<Rightarrow> bentry \<Rightarrow> string \<Rightarrow> pass \<Rightarrow> pass" where
  "count_refusal cx e msg s =
     (if cx_counts_refusals cx \<and> be_action e = ''submit'' \<and> be_type e = ''market''
         \<and> \<not> is_market_not_ready msg
      then let k = (be_sym e, be_side e, be_qty e)
           in s\<lparr>ps_refused := dput (ps_refused s) k
                  (fst (dget_or (ps_refused s) k (0, [])) + 1, take 300 msg)\<rparr>
      else s)"

definition handle_rejected :: "ctx \<Rightarrow> bentry \<Rightarrow> string \<Rightarrow> pass \<Rightarrow> pass" where
  "handle_rejected cx e msg s =
     log_entry (e\<lparr>be_action := ''refused'', be_status := ''rejected''\<rparr>)
       (if be_action e \<in> {''submit'', ''replace''} \<and> \<not> ps_tripped s \<and> is_market_not_ready msg
        then (complain (''order submissions paused -- '' @ take 300 msg) (be_sym e) s)
               \<lparr>ps_tripped := True, ps_backoff := Some (Some (backoff_until cx, take 300 msg))\<rparr>
        else count_refusal cx e msg (complain (take 300 msg) (be_sym e) s))"

section \<open>One mutation\<close>

definition journal_entry :: "bentry \<Rightarrow> entry" where
  "journal_entry e =
     \<lparr>en_dep = be_dep e, en_cid = be_cid e, en_sym = Some (be_sym e), en_side = be_side e,
      en_qty = be_qty e, en_type = Some (be_type e), en_limit = be_limit e, en_stop = None,
      en_tag = be_tag e\<rparr>"

text \<open>What is run: an adapter call, or \<open>pick_tif\<close> raising before the call is made.\<close>

datatype mutation = Call wire | NoTimeInForce

definition run_call :: "ctx \<Rightarrow> mutation \<Rightarrow> pass \<Rightarrow> venue_out outcome \<times> pass" where
  "run_call cx m s =
     (case m of
        NoTimeInForce \<Rightarrow> (BrokerRejected ''no time-in-force available'', s)
      | Call w \<Rightarrow> (ad_call (cx_ad cx) (ps_wire s) w, s\<lparr>ps_wire := ps_wire s @ [w]\<rparr>))"

definition after_call :: "ctx \<Rightarrow> bentry \<Rightarrow> venue_out \<Rightarrow> string option \<Rightarrow> pass \<Rightarrow> pass" where
  "after_call cx e out why s =
     s\<lparr>ps_journal := journal_after (ps_journal s) (cx_conn cx) (be_action e) (journal_entry e) out why\<rparr>"

definition acked :: "bentry \<Rightarrow> venue_out \<Rightarrow> bentry" where
  "acked e out =
     (case out of
        None \<Rightarrow> e | Some (oid, st) \<Rightarrow> e\<lparr>be_boid := str_or oid, be_status := str_or st\<rparr>)"

text \<open>\<open>perform\<close> is the part of \<open>act\<close> after its gates; the launcher's \<open>run_one\<close> does the same.\<close>

definition perform :: "ctx \<Rightarrow> mutation \<Rightarrow> bentry \<Rightarrow> pass \<Rightarrow> venue_out \<times> pass" where
  "perform cx m e s =
     (let (ok, js) = journal_before (ps_journal s) (cx_conn cx) (be_action e) (journal_entry e) (cx_now cx)
      in if \<not> ok then (None, say ''submit skipped: journal holds this intent'' (be_sym e) s)
         else let (r, s1) = run_call cx m (s\<lparr>ps_journal := js\<rparr>)
              in case r of
                   BrokerRejected msg \<Rightarrow>
                     (None, handle_rejected cx e msg (after_call cx e None (Some (take 300 msg)) s1))
                 | BrokerUnavailable msg \<Rightarrow>
                     if be_action e \<noteq> ''submit'' \<or> \<not> rate_refused msg then (None, raise_in msg s1)
                     else (None, handle_rate_refused e msg
                             (after_call cx e None
                               (Some (take 300 (''rate-limited, not placed: '' @ msg))) s1))
                 | Raised msg \<Rightarrow> (None, raise_in msg s1)
                 | Done out \<Rightarrow>
                     let s2 = after_call cx e out None s1;
                         s3 = (if be_action e = ''cancel''
                               then s2\<lparr>ps_journal := journal_cancel (ps_journal s2) (cx_conn cx)
                                      (Some (be_cid e)) (Some (be_boid e))\<rparr>
                               else s2)
                     in (out, log_entry (acked e out) s3))"

text \<open>The gates of \<open>act\<close>: \<open>True\<close> is "go".\<close>

definition gate :: "ctx \<Rightarrow> bentry \<Rightarrow> pass \<Rightarrow> bool \<times> pass" where
  "gate cx e s =
     (if ps_raised s \<noteq> None then (False, s)
      else if be_action e \<in> {''submit'', ''replace''} \<and> ps_tripped s then (False, s)
      else if ps_budget s \<le> 0
      then (False, if Line ''circuit breaker tripped'' [] \<in> set (ps_actions s) then s
                   else say ''circuit breaker tripped'' [] s)
      else let s1 = s\<lparr>ps_budget := ps_budget s - 1\<rparr>
           in if ra_dry_run (cx_rails cx)
              then (False, log_entry (e\<lparr>be_status := ''dry_run''\<rparr>) (say ''DRY-RUN'' (be_sym e) s1))
              else (True, s1))"

definition act :: "ctx \<Rightarrow> mutation \<Rightarrow> bentry \<Rightarrow> pass \<Rightarrow> venue_out \<times> pass" where
  "act cx m e s = (let (go, s1) = gate cx e s in if go then perform cx m e s1 else (None, s1))"

text \<open>\<open>uuid.uuid4().hex\<close>.\<close>

definition fresh_hex :: "ctx \<Rightarrow> pass \<Rightarrow> string \<times> pass" where
  "fresh_hex cx s = (cx_uuid cx (ps_uuid s), s\<lparr>ps_uuid := ps_uuid s + 1\<rparr>)"

section \<open>The batch launcher\<close>

record batch_item =
  bi_args :: sub_args
  bi_entry :: bentry
  bi_px :: pyfloat

definition run_one :: "ctx \<Rightarrow> pass \<Rightarrow> batch_item \<Rightarrow> pass" where
  "run_one cx s b =
     (if ps_tripped s then s
      else let (out, s1) = perform cx (Call (WSubmit (bi_args b))) (bi_entry b) s
           in if out = None then s1 else say (upper (be_side (bi_entry b))) (be_sym (bi_entry b)) s1)"

text \<open>Serial launches stop at an exception; in the thread pool the others still run and the exception
  surfaces when their results are collected.  \<open>cx_order\<close> is the order the pool happens to run a wave in.\<close>

definition run_wave :: "ctx \<Rightarrow> pass \<Rightarrow> batch_item list \<Rightarrow> pass" where
  "run_wave cx s wave =
     (if cx_pool cx \<le> 1 \<or> length wave = 1
      then foldl (\<lambda>s b. if ps_raised s \<noteq> None then s else run_one cx s b) s wave
      else foldl (\<lambda>s i. let s' = run_one cx (s\<lparr>ps_raised := None\<rparr>) (wave ! i)
                        in s'\<lparr>ps_raised := (if ps_raised s \<noteq> None then ps_raised s else ps_raised s')\<rparr>)
             s (cx_order cx (length wave)))"

definition proven_buys :: "ctx \<Rightarrow> batch_item list \<Rightarrow> bool" where
  "proven_buys cx buys =
     (case cx_bp cx of
        None \<Rightarrow> False
      | Some bp \<Rightarrow> buys \<noteq> [] \<and>
          foldl (\<lambda>t b. fadd t (fmul (be_qty (bi_entry b)) (bi_px b))) 0 buys \<le> bp)"

definition waves_of :: "ctx \<Rightarrow> batch_item list \<Rightarrow> batch_item list list" where
  "waves_of cx batch =
     (let sells = filter (\<lambda>b. be_side (bi_entry b) = ''sell'') batch;
          buys = filter (\<lambda>b. be_side (bi_entry b) = ''buy'') batch
      in if proven_buys cx buys \<or> sells = [] \<or> buys = [] then [sells @ buys] else [sells, buys])"

definition launch_market_batch :: "ctx \<Rightarrow> batch_item list \<Rightarrow> pass \<Rightarrow> pass" where
  "launch_market_batch cx batch s =
     foldl (\<lambda>s wave. if wave = [] \<or> ps_tripped s \<or> ps_raised s \<noteq> None then s else run_wave cx s wave)
       s (waves_of cx batch)"

section \<open>The first-sync preflight\<close>

definition unknown_positions ::
  "(sym, pyfloat) dict \<Rightarrow> (sym, pyfloat) dict \<Rightarrow> sym list \<Rightarrow> pyfloat \<Rightarrow> sym list" where
  "unknown_positions positions desired known step =
     filter (\<lambda>k. round_step (dget_or positions k 0) step \<noteq> 0
               \<and> k \<notin> set (map upper known)
               \<and> round_step (dget_or desired k 0) step = 0)
       (sorted_list_of_set (set (dkeys desired)))"

section \<open>Matching resting orders\<close>

definition b_cid :: "border \<Rightarrow> string" where "b_cid od = str_or (bo_cid od)"
definition b_sym :: "border \<Rightarrow> sym" where "b_sym od = str_or (bo_sym od)"
definition b_side :: "border \<Rightarrow> string" where "b_side od = str_or (bo_side od)"
definition b_type :: "border \<Rightarrow> string" where "b_type od = str_or (bo_type od)"
definition b_qty :: "border \<Rightarrow> pyfloat" where "b_qty od = num_or0 (bo_qty od)"
definition b_id :: "border \<Rightarrow> string" where "b_id od = str_or (bo_id od)"

definition uses_cids :: "ctx \<Rightarrow> bool" where
  "uses_cids cx = cp_client_ids (ad_caps (cx_ad cx))"

definition cx_step :: "ctx \<Rightarrow> pyfloat" where
  "cx_step cx = cp_qty_step (ad_caps (cx_ad cx))"

definition our_orders :: "ctx \<Rightarrow> border list" where
  "our_orders cx =
     (if uses_cids cx
      then filter (\<lambda>od. starts_with (b_cid od) ''sl-'' \<or> starts_with (b_cid od) ''en-'') (ad_orders (cx_ad cx))
      else ad_orders (cx_ad cx))"

definition near :: "pyfloat option \<Rightarrow> pyfloat option \<Rightarrow> bool" where
  "near x y \<longleftrightarrow> \<not> CENT_TOL < \<bar>fsub (num_or0 x) (num_or0 y)\<bar>"

definition trail_fraction :: "border \<Rightarrow> pyfloat option" where
  "trail_fraction od = map_option (\<lambda>p. fdiv p 100) (bo_trail od)"

definition level_matches ::
  "string \<Rightarrow> border \<Rightarrow> pyfloat option \<Rightarrow> pyfloat option \<Rightarrow> pyfloat option \<Rightarrow> bool" where
  "level_matches kind od price stop_px trail =
     (if kind = ''limit'' then near (bo_limit od) price
      else if kind \<in> {''stop'', ''stop_limit''} then near (bo_stop od) stop_px
      else if kind = ''trailing_stop'' then near (trail_fraction od) trail
      else False)"

definition same_qty :: "ctx \<Rightarrow> border \<Rightarrow> pyfloat \<Rightarrow> bool" where
  "same_qty cx od q \<longleftrightarrow> \<bar>fsub (b_qty od) (round_step q (cx_step cx))\<bar> < QTY_TOL"

text \<open>\<open>_match_no_cid\<close>: the matched order leaves the pool.\<close>

definition match_no_cid ::
  "ctx \<Rightarrow> border list \<Rightarrow> sym \<Rightarrow> string \<Rightarrow> string \<Rightarrow> pyfloat \<Rightarrow> pyfloat option \<Rightarrow> pyfloat option
     \<Rightarrow> pyfloat option \<Rightarrow> border option \<times> border list" where
  "match_no_cid cx pool k side kind q price stop_px trail =
     (case List.find (\<lambda>(i, od). b_sym od = k \<and> b_side od = side \<and> b_type od = kind \<and> same_qty cx od q
                               \<and> level_matches kind od price stop_px trail)
             (List.enumerate 0 pool) of
        None \<Rightarrow> (None, pool)
      | Some (i, od) \<Rightarrow> (Some od, take i pool @ drop (Suc i) pool))"

section \<open>What the strategies want\<close>

record xwant =
  xw_dep :: string
  xw_sym :: sym
  xw_qty :: pyfloat
  xw_kind :: string
  xw_price :: "pyfloat option"
  xw_stop :: "pyfloat option"
  xw_trail :: "pyfloat option"
  xw_rule :: "string option"
  xw_side :: string

record mwant =
  mw_dep :: string
  mw_sym :: sym
  mw_qty :: pyfloat
  mw_kind :: string
  mw_price :: "pyfloat option"
  mw_rule :: "string option"

definition tp_simulated :: "xwant list \<Rightarrow> string \<Rightarrow> sym \<Rightarrow> string \<Rightarrow> bool" where
  "tp_simulated xs dep k kind \<longleftrightarrow>
     kind = ''limit'' \<and> 1 < length (filter (\<lambda>t. xw_dep t = dep \<and> xw_sym t = k) xs)"

definition mk_entry ::
  "string \<Rightarrow> sym \<Rightarrow> pyfloat \<Rightarrow> string \<Rightarrow> string \<Rightarrow> pyfloat option \<Rightarrow> string \<Rightarrow> string \<Rightarrow> string
     \<Rightarrow> string option \<Rightarrow> string option \<Rightarrow> bentry" where
  "mk_entry action k q side kind lpx boid cid status dep rule =
     \<lparr>be_action = action, be_sym = k, be_qty = q, be_side = side, be_type = kind, be_limit = lpx,
      be_boid = boid, be_cid = cid, be_status = status, be_dep = dep, be_tag = rule\<rparr>"

section \<open>Releasing stale resting orders\<close>

definition cancel_entry :: "border \<Rightarrow> string \<Rightarrow> bentry" where
  "cancel_entry od cid =
     mk_entry ''cancel'' (b_sym od) (b_qty od) (b_side od) (b_type od) (bo_limit od) (b_id od) cid []
       None None"

definition release :: "ctx \<Rightarrow> string \<Rightarrow> border \<Rightarrow> pass \<Rightarrow> pass" where
  "release cx cid od s =
     say ''canceled (released)'' (b_sym od)
       (snd (act cx (Call (WCancel (b_id od))) (cancel_entry od cid) s))"

definition has_prefix :: "string \<Rightarrow> string list \<Rightarrow> bool" where
  "has_prefix cid ps \<longleftrightarrow> list_ex (\<lambda>p. starts_with cid p) ps"

text \<open>An entry want has no trailing leg.\<close>

definition entry_claims :: "ctx \<Rightarrow> border \<Rightarrow> xwant \<Rightarrow> bool" where
  "entry_claims cx od t \<longleftrightarrow>
     b_sym od = xw_sym t \<and> b_type od = xw_kind t \<and> same_qty cx od (xw_qty t)
     \<and> xw_kind t \<in> {''limit'', ''stop'', ''stop_limit''}
     \<and> level_matches (xw_kind t) od (xw_price t) (xw_stop t) None"

definition stale_entry :: "ctx \<Rightarrow> xwant list \<Rightarrow> border \<Rightarrow> bool" where
  "stale_entry cx wants od =
     (if uses_cids cx
      then has_prefix (b_cid od) ENTRY_CID_PREFIXES
        \<and> \<not> list_ex (\<lambda>t. b_sym od = xw_sym t
              \<and> starts_with (b_cid od) (entry_cid_prefix (xw_dep t) (xw_kind t) (xw_sym t) (xw_rule t)))
            wants
      else b_type od \<in> set (dkeys ENTRY_CID_CODE) \<and> b_side od = ''buy''
        \<and> \<not> list_ex (entry_claims cx od) wants)"

definition exit_claims :: "ctx \<Rightarrow> xwant list \<Rightarrow> border \<Rightarrow> xwant \<Rightarrow> bool" where
  "exit_claims cx xs od t \<longleftrightarrow>
     \<not> tp_simulated xs (xw_dep t) (xw_sym t) (xw_kind t)
     \<and> b_sym od = xw_sym t \<and> b_type od = xw_kind t \<and> same_qty cx od (xw_qty t)
     \<and> level_matches (xw_kind t) od (xw_price t) (xw_stop t) (xw_trail t)"

definition stale_exit :: "ctx \<Rightarrow> xwant list \<Rightarrow> border \<Rightarrow> bool" where
  "stale_exit cx xs od =
     (if uses_cids cx
      then has_prefix (b_cid od) EXIT_CID_PREFIXES
        \<and> \<not> list_ex (\<lambda>t. \<not> tp_simulated xs (xw_dep t) (xw_sym t) (xw_kind t)
              \<and> b_sym od = xw_sym t
              \<and> starts_with (b_cid od) (exit_cid_prefix (xw_dep t) (xw_kind t) (xw_sym t) (xw_rule t)))
            xs
      else b_type od \<in> set (dkeys EXIT_CID_CODE)
        \<and> (b_side od = ''sell''
           \<or> b_side od = ''buy'' \<and> dget_or (ad_positions (cx_ad cx)) (b_sym od) 0 < 0)
        \<and> \<not> list_ex (exit_claims cx xs od) xs)"

definition release_pass :: "ctx \<Rightarrow> (border \<Rightarrow> bool) \<Rightarrow> border list \<Rightarrow> pass \<Rightarrow> pass" where
  "release_pass cx stale ours s =
     foldl (\<lambda>s od. if stale od then release cx (if uses_cids cx then b_cid od else []) od s else s) s ours"

section \<open>At-close orders\<close>

type_synonym moc_state = "pass \<times> (sym, pyfloat) dict"

definition moc_pending :: "ctx \<Rightarrow> border list \<Rightarrow> mwant \<Rightarrow> bool" where
  "moc_pending cx ours t =
     list_ex (\<lambda>od. b_sym od = mw_sym t
        \<and> (if uses_cids cx
           then starts_with (b_cid od) (''sl-moc-'' @ mw_sym t @ ''-'' @ take 8 (mw_dep t))
           else b_type od = mw_kind t)) ours"

definition moc_held :: "ctx \<Rightarrow> sym \<Rightarrow> string \<Rightarrow> pyfloat \<Rightarrow> pyfloat \<Rightarrow> bool" where
  "moc_held cx k side qabs have_q =
     (let kq = dget_or (ad_kept_now (cx_ad cx)) k 0; ks = dget_or (ad_kept_short (cx_ad cx)) k 0
      in (0 < kq \<and> side = ''sell'' \<and> have_q < qabs) \<or> (kq < 0 \<and> side = ''buy'' \<and> - have_q < qabs)
         \<or> (0 < ks \<and> side = ''sell'') \<or> (ks < 0 \<and> side = ''buy''))"

text \<open>The quantity to send, whether it opens a short, and whether it was cut at zero.\<close>

definition moc_split :: "ctx \<Rightarrow> string \<Rightarrow> pyfloat \<Rightarrow> pyfloat \<Rightarrow> pyfloat \<times> bool \<times> bool" where
  "moc_split cx side qabs have_q =
     (if (side = ''sell'' \<and> 0 < have_q \<and> have_q < qabs) \<or> (side = ''buy'' \<and> 0 < - have_q \<and> - have_q < qabs)
      then let cut = round_step \<bar>have_q\<bar> (cx_step cx)
           in if 0 < cut then (cut, False, True) else (qabs, side = ''sell'', False)
      else (qabs, side = ''sell'' \<and> have_q \<le> 0, False))"

definition moc_args :: "mwant \<Rightarrow> pyfloat \<Rightarrow> string \<Rightarrow> string \<Rightarrow> bool \<Rightarrow> sub_args" where
  "moc_args t q side cid opens =
     \<lparr>sa_sym = mw_sym t, sa_qty = q, sa_side = side, sa_type = mw_kind t, sa_tif = ''day'',
      sa_limit = mw_price t, sa_stop = None, sa_trail = None, sa_ext = False, sa_cid = Some cid,
      sa_opens_short = opens\<rparr>"

definition moc_send :: "ctx \<Rightarrow> mwant \<Rightarrow> pyfloat \<Rightarrow> string \<Rightarrow> bool \<Rightarrow> pass \<Rightarrow> bool \<times> pass" where
  "moc_send cx t q side opens s =
     (let k = mw_sym t;
          (hex, s1) = fresh_hex cx s;
          cid = ''sl-moc-'' @ k @ ''-'' @ take 8 (mw_dep t) @ ''-'' @ take 8 hex;
          (out, s2) = act cx (Call (WSubmit (moc_args t q side cid opens)))
            (mk_entry ''submit'' k q side (mw_kind t) (mw_price t) [] cid [] (Some (mw_dep t)) (mw_rule t)) s1
      in if out = None then (False, s2) else (True, say ''at-close order placed'' k s2))"

definition moc_step :: "ctx \<Rightarrow> border list \<Rightarrow> moc_state \<Rightarrow> mwant \<Rightarrow> moc_state" where
  "moc_step cx ours st t =
     (case st of (s, native) \<Rightarrow>
        let k = mw_sym t; q = mw_qty t; add_native = dput native k (fadd (dget_or native k 0) q)
        in if ps_raised s \<noteq> None \<or> q = 0 then (s, native)
           else if journal_note (ad_caps (cx_ad cx)) (mw_kind t) k \<noteq> None
           then (say ''not native here'' k s, native)
           else if moc_pending cx ours t then (s, add_native)
           else if (mw_dep t, k) \<in> set (cx_moc_done cx) then (s, native)
           else let qabs = round_step \<bar>q\<bar> (cx_step cx)
                in if qabs \<le> 0 then (s, native)
                   else let side = (if 0 < q then ''buy'' else ''sell'');
                            have_q = fadd (dget_or (ad_positions (cx_ad cx)) k 0) (dget_or native k 0)
                        in if moc_held cx k side qabs have_q then (say ''at-close order held'' k s, native)
                           else case moc_split cx side qabs have_q of (q1, opens, crossed) \<Rightarrow>
                                  (let (sent, s1) = moc_send cx t q1 side opens
                                         (if crossed then say ''would cross zero'' k s else s)
                                   in (s1, if sent then add_native else native)))"

end
