(* ===== verification/Deltas.thy ===== *)
theory Deltas
  imports Reconcile
begin

text \<open>
  The market deltas of \<open>reconcile\<close> (section 2 of the function).  \<open>delta_verdict\<close> is the body of the
  loop up to the order, as a decision: the checks in the order the code makes them, what an order
  is (a plain sell, an opening short, a cut at zero), and what is said when nothing is sent.
  \<open>delta_step\<close> reports it and passes an order through the gates into the batch the launcher sends.
\<close>

section \<open>The decision\<close>

datatype verdict =
    Quiet
  | Hold string
  | HoldErr string
  | Refuse string pyfloat
  | Send pyfloat bool

definition REFUSED_MAX_PER_DAY :: int where "REFUSED_MAX_PER_DAY = 3"

definition fold_explains :: "ctx \<Rightarrow> sym \<Rightarrow> pyfloat \<Rightarrow> bool" where
  "fold_explains cx k delta =
     (case dget (cx_fold_pending cx) k of
        None \<Rightarrow> False
      | Some None \<Rightarrow> True
      | Some (Some diff) \<Rightarrow> \<bar>fadd delta diff\<bar> < \<bar>delta\<bar>)"

definition hidden_rows :: "ctx \<Rightarrow> border list \<Rightarrow> sym \<Rightarrow> string list" where
  "hidden_rows cx ours k =
     (if uses_cids cx
      then filter (\<lambda>c. c \<notin> set (map b_cid (filter (\<lambda>od. b_sym od = k) ours)))
             (map fst (dget_or (g_open_rows (cx_gates cx)) k []))
      else [])"

definition side_of :: "pyfloat \<Rightarrow> string" where
  "side_of d = (if 0 < d then ''buy'' else ''sell'')"

definition mkt_pending :: "ctx \<Rightarrow> border list \<Rightarrow> sym \<Rightarrow> border list" where
  "mkt_pending cx ours k =
     filter (\<lambda>od. b_sym od = k \<and>
        (if uses_cids cx then starts_with (b_cid od) ''sl-mkt-'' else b_type od = ''market'')) ours"

definition pending_qty :: "border list \<Rightarrow> pyfloat" where
  "pending_qty os =
     foldl (\<lambda>t od. fadd t ((if b_side od = ''buy'' then 1 else - 1) * b_qty od)) 0 os"

text \<open>Cutting an order at zero: the quantity, whether it opens a short, whether it was cut.\<close>

definition split_at_zero :: "pyfloat \<Rightarrow> pyfloat \<Rightarrow> pyfloat \<Rightarrow> pyfloat \<times> bool \<times> bool" where
  "split_at_zero step eff delta =
     (let flat = round_step (- eff) step
      in if delta < 0 \<and> 0 < eff \<and> fadd eff delta < 0
         then if flat \<noteq> 0 then (flat, False, True) else (delta, True, False)
         else if delta < 0 \<and> eff \<le> 0 then (delta, True, False)
         else if 0 < delta \<and> eff < 0 \<and> 0 < fadd eff delta
         then if flat \<noteq> 0 then (flat, False, True) else (delta, False, False)
         else (delta, False, False))"

definition over_position :: "ctx \<Rightarrow> pyfloat \<Rightarrow> pyfloat \<Rightarrow> pyfloat \<Rightarrow> bool" where
  "over_position cx want have_q px =
     (case ra_position_notional (cx_rails cx) of
        None \<Rightarrow> False | Some cap \<Rightarrow> 0 < px \<and> cap < fmul \<bar>want\<bar> px \<and> \<bar>have_q\<bar> < \<bar>want\<bar>)"

definition over_order :: "ctx \<Rightarrow> pyfloat \<Rightarrow> pyfloat \<Rightarrow> bool" where
  "over_order cx q px =
     (case ra_order_notional (cx_rails cx) of None \<Rightarrow> False | Some cap \<Rightarrow> cap < fmul q px)"

definition held_short_of :: "int \<Rightarrow> pyfloat \<Rightarrow> bool" where
  "held_short_of ks delta \<longleftrightarrow> (0 < ks \<and> delta < 0) \<or> (ks < 0 \<and> 0 < delta)"

definition kept_other_side :: "pyfloat \<Rightarrow> pyfloat \<Rightarrow> bool" where
  "kept_other_side kq want \<longleftrightarrow> (0 < kq \<and> want < 0) \<or> (kq < 0 \<and> 0 < want)"

definition refused_out ::
  "(sym \<times> string \<times> pyfloat, int \<times> string) dict \<Rightarrow> sym \<Rightarrow> pyfloat \<Rightarrow> pyfloat \<Rightarrow> bool" where
  "refused_out refused k eff delta \<longleftrightarrow>
     REFUSED_MAX_PER_DAY \<le> fst (dget_or refused (k, side_of delta, \<bar>delta\<bar>) (0, []))
     \<and> \<bar>eff\<bar> < \<bar>fadd eff delta\<bar>"

text \<open>What the venue will hold once everything in flight has landed.\<close>

definition eff_of :: "ctx \<Rightarrow> border list \<Rightarrow> (sym, pyfloat) dict \<Rightarrow> sym \<Rightarrow> pyfloat" where
  "eff_of cx ours native k =
     fadd (fadd (dget_or (ad_positions (cx_ad cx)) k 0) (pending_qty (mkt_pending cx ours k)))
       (dget_or native k 0)"

definition delta_of :: "ctx \<Rightarrow> border list \<Rightarrow> (sym, pyfloat) dict \<Rightarrow> sym \<Rightarrow> pyfloat \<Rightarrow> pyfloat" where
  "delta_of cx ours native k want =
     round_step
       (fsub (fsub (fsub want (dget_or (ad_positions (cx_ad cx)) k 0))
                (pending_qty (mkt_pending cx ours k)))
          (dget_or native k 0)) (cx_step cx)"

text \<open>The checks made before the quantity is known.\<close>

definition frozen_by :: "ctx \<Rightarrow> border list \<Rightarrow> sym \<Rightarrow> string option" where
  "frozen_by cx ours k =
     (if k \<in> set (cx_qb cx) then Some ''quote-breach exit cooldown''
      else if k \<in> set (g_unresolved (cx_gates cx)) then Some ''unacked order at the venue''
      else if dget_or (g_unfolded (cx_gates cx)) k 0 \<noteq> 0 then Some ''filled order not yet folded''
      else if hidden_rows cx ours k \<noteq> [] then Some ''order not visible at the venue yet''
      else None)"

text \<open>The second component is whether the order was cut at zero, which is reported.\<close>

definition delta_verdict ::
  "ctx \<Rightarrow> border list \<Rightarrow> (sym, pyfloat) dict
     \<Rightarrow> (sym \<times> string \<times> pyfloat, int \<times> string) dict \<Rightarrow> sym \<Rightarrow> pyfloat \<Rightarrow> verdict \<times> bool" where
  "delta_verdict cx ours native refused k want =
     (case frozen_by cx ours k of
        Some why \<Rightarrow> (Hold why, False)
      | None \<Rightarrow>
          let px = dget_or (cx_px cx) k 0;
              have_q = dget_or (ad_positions (cx_ad cx)) k 0;
              delta = delta_of cx ours native k want;
              eff = eff_of cx ours native k
          in if delta = 0 then (Quiet, False)
             else if fold_explains cx k delta then (Hold ''broker fills of our own orders'', False)
             else if px \<le> 0 then (Refuse ''no_price'' delta, False)
             else if over_position cx want have_q px then (Refuse ''over_position_notional'' delta, False)
             else if over_order cx \<bar>delta\<bar> px then (Refuse ''over_notional'' delta, False)
             else if kept_other_side (dget_or (ad_kept_now (cx_ad cx)) k 0) want
             then (Hold ''the owner kept the other side'', False)
             else if held_short_of (dget_or (ad_kept_short (cx_ad cx)) k 0) delta
             then (HoldErr ''cannot tell whose shares'', False)
             else case split_at_zero (cx_step cx) eff delta of (d, opens, crossed) \<Rightarrow>
                  if opens \<and> 0 < round_step have_q (cx_step cx)
                  then (Hold ''short waits for the closing sell'', crossed)
                  else if refused_out refused k eff d then (Hold ''refused too often today'', crossed)
                  else (Send d opens, crossed))"

section \<open>One symbol\<close>

definition mkt_cid :: "ctx \<Rightarrow> sym \<Rightarrow> pyfloat \<Rightarrow> pass \<Rightarrow> string \<times> pass" where
  "mkt_cid cx k d s =
     (case cx_conn cx of
        Some c \<Rightarrow>
          (market_cid (cx_sha1_8 cx) c (cx_date_iso cx) k (side_of d) (cx_show cx \<bar>d\<bar>)
             (cx_show_int cx (dget_or (g_epoch (cx_gates cx)) k 0)), s)
      | None \<Rightarrow>
          let (hex, s') = fresh_hex cx s in (''sl-mkt-'' @ k @ ''-'' @ take 10 hex, s'))"

definition mkt_args :: "sym \<Rightarrow> pyfloat \<Rightarrow> string \<Rightarrow> bool \<Rightarrow> sub_args" where
  "mkt_args k d cid opens =
     \<lparr>sa_sym = k, sa_qty = \<bar>d\<bar>, sa_side = side_of d, sa_type = ''market'', sa_tif = ''day'',
      sa_limit = None, sa_stop = None, sa_trail = None, sa_ext = False, sa_cid = Some cid,
      sa_opens_short = opens\<rparr>"

definition mkt_entry :: "string \<Rightarrow> sym \<Rightarrow> pyfloat \<Rightarrow> string \<Rightarrow> string \<Rightarrow> bentry" where
  "mkt_entry action k d cid status =
     mk_entry action k \<bar>d\<bar> (side_of d) ''market'' None [] cid status None None"

definition delta_step ::
  "ctx \<Rightarrow> border list \<Rightarrow> (sym, pyfloat) dict \<Rightarrow> pass \<times> batch_item list \<Rightarrow> sym \<times> pyfloat
     \<Rightarrow> pass \<times> batch_item list" where
  "delta_step cx ours native st kw =
     (case (st, kw) of ((s, batch), (k, want)) \<Rightarrow>
        if ps_raised s \<noteq> None then (s, batch)
        else let (v, crossed) = delta_verdict cx ours native (ps_refused s) k want;
                 s1 = (if crossed then say ''to flat first'' k s else s)
             in case v of
                  Quiet \<Rightarrow> (s1, batch)
                | Hold why \<Rightarrow> (say why k s1, batch)
                | HoldErr why \<Rightarrow> (complain why k s1, batch)
                | Refuse status d \<Rightarrow>
                    (log_entry (mkt_entry ''refused'' k d [] status) (say status k s1), batch)
                | Send d opens \<Rightarrow>
                    let (cid, s2) = mkt_cid cx k d s1;
                        e = mkt_entry ''submit'' k d cid [];
                        (go, s3) = gate cx e s2
                    in (s3, if go
                            then batch @ [\<lparr>bi_args = mkt_args k d cid opens, bi_entry = e,
                                           bi_px = dget_or (cx_px cx) k 0\<rparr>]
                            else batch))"

definition delta_pass ::
  "ctx \<Rightarrow> border list \<Rightarrow> (sym, pyfloat) dict \<Rightarrow> (sym, pyfloat) dict \<Rightarrow> pass \<Rightarrow> pass" where
  "delta_pass cx ours native desired s =
     (let (s1, batch) = foldl (delta_step cx ours native) (s, []) desired
      in if batch = [] then s1 else launch_market_batch cx batch s1)"

section \<open>Whole shares\<close>

lemma fl_abs [simp]: "fl \<bar>x\<bar> = \<bar>fl x\<bar>"
  using fl_nonneg [of x] fl_nonpos [of x] by (cases "0 \<le> x") simp_all

lemma round_step_one:
  assumes "fl q = q" and "\<bar>q\<bar> \<le> 2 ^ 53"
  shows "round_step q 1 = of_int (\<lfloor>\<bar>q\<bar>\<rfloor>) * (if 0 \<le> q then 1 else - 1)"
proof -
  have "\<lfloor>\<bar>q\<bar>\<rfloor> \<le> \<lfloor>(2::rat) ^ 53\<rfloor>" using assms(2) by (rule floor_mono)
  then have n: "\<bar>\<lfloor>\<bar>q\<bar>\<rfloor>\<bar> \<le> 2 ^ 53" by simp
  have "fdiv \<bar>q\<bar> 1 = \<bar>q\<bar>" using assms(1) by (simp add: fdiv_def)
  then show ?thesis using n fl_of_int [OF n] by (simp add: round_step_def fint_small fmul_def)
qed

lemma round_step_int: "\<bar>n\<bar> \<le> 2 ^ 53 \<Longrightarrow> round_step (of_int n) 1 = of_int n"
  using round_step_one [of "of_int n"] fl_of_int [of n]
  by (simp flip: of_int_abs)

lemma round_step_zero [simp]: "round_step 0 st = 0"
  by (simp add: round_step_def fdiv_def fmul_def)

lemma round_step_one_bound:
  assumes "fl q = q" and "\<bar>q\<bar> \<le> 2 ^ 53"
  shows "0 \<le> q \<Longrightarrow> round_step q 1 \<le> q" "q \<le> 0 \<Longrightarrow> q \<le> round_step q 1"
    and "1 \<le> q \<Longrightarrow> 0 < round_step q 1" "q \<le> - 1 \<Longrightarrow> round_step q 1 < 0"
  unfolding round_step_one [OF assms] by (simp_all add: of_int_floor_le) linarith+

section \<open>What an order is\<close>

lemmas verdict_cases = delta_verdict_def Let_def
lemmas verdict_splits = option.splits if_splits prod.splits

lemma send_split:
  assumes "delta_verdict cx ours native refused k want = (Send d opens, c)"
  shows "split_at_zero (cx_step cx) (eff_of cx ours native k) (delta_of cx ours native k want)
           = (d, opens, c)"
    and "opens \<Longrightarrow> \<not> 0 < round_step (dget_or (ad_positions (cx_ad cx)) k 0) (cx_step cx)"
  using assms by (simp_all add: verdict_cases split: verdict_splits)

lemma split_never_crosses:
  assumes "split_at_zero 1 eff delta = (d, opens, c)" and "fl eff = eff" and "\<bar>eff\<bar> \<le> 2 ^ 53"
  shows "1 \<le> eff \<Longrightarrow> d < 0 \<Longrightarrow> 0 \<le> fadd eff d \<and> \<not> opens"
    and "eff \<le> - 1 \<Longrightarrow> 0 < d \<Longrightarrow> fadd eff d \<le> 0"
    and "opens \<Longrightarrow> d < 0 \<and> eff < 1"
proof -
  have m: "fl (- eff) = - eff" "\<bar>- eff\<bar> \<le> 2 ^ 53" using assms by simp_all
  note b = round_step_one_bound [OF m]
  show "1 \<le> eff \<Longrightarrow> d < 0 \<Longrightarrow> 0 \<le> fadd eff d \<and> \<not> opens"
    using assms(1) b(2,4) fl_nonneg [of "eff + round_step (- eff) 1"]
    by (auto simp: split_at_zero_def Let_def fadd_def split: if_splits)
  show "eff \<le> - 1 \<Longrightarrow> 0 < d \<Longrightarrow> fadd eff d \<le> 0"
    using assms(1) b(1,3) fl_nonpos [of "eff + round_step (- eff) 1"]
    by (auto simp: split_at_zero_def Let_def fadd_def split: if_splits)
  show "opens \<Longrightarrow> d < 0 \<and> eff < 1"
    using assms(1) b(4) by (cases "1 \<le> eff") (auto simp: split_at_zero_def Let_def split: if_splits)
qed

lemma fl_eff_of [simp]: "fl (eff_of cx ours native k) = eff_of cx ours native k"
  by (simp add: eff_of_def fadd_def)


section \<open>A concrete account\<close>

definition demo_rails :: rails where
  "demo_rails =
     \<lparr>ra_order_notional = None, ra_position_notional = Some 5000, ra_max_orders = 20,
      ra_price_band = 50, ra_cross_tol = 1, ra_stop_band = 50, ra_paused = False,
      ra_dry_run = False, ra_live = True\<rparr>"

definition stock_caps :: caps where
  "stock_caps =
     \<lparr>cp_replace = True, cp_client_ids = True, cp_short = True, cp_qty_step = 1,
      cp_types = set ALL_ORDER_TYPES, cp_tifs = {''day'', ''gtc''}, cp_tif_by_type = [],
      cp_entitlement = [], cp_extended = True, cp_earlier_fills = False\<rparr>"

definition demo_adapter :: "(sym, pyfloat) dict \<Rightarrow> border list \<Rightarrow> adapter" where
  "demo_adapter positions orders =
     \<lparr>ad_caps = stock_caps, ad_positions = positions, ad_orders = orders, ad_kept_now = [],
      ad_kept_short = [],
      ad_call = (\<lambda>_ w. case w of WSubmit _ \<Rightarrow> Done (Some (Some ''o1'', Some ''accepted''))
                              | _ \<Rightarrow> Done (Some (Some ''o1'', Some ''ok'')))\<rparr>"

definition demo_ctx :: "(sym, pyfloat) dict \<Rightarrow> border list \<Rightarrow> ctx" where
  "demo_ctx positions orders =
     \<lparr>cx_ad = demo_adapter positions orders, cx_rails = demo_rails, cx_conn = Some ''c1'',
      cx_now = 0, cx_wall = 739164 * 86400 + 36000, cx_date_iso = ''2024-10-02'',
      cx_uuid = (\<lambda>_. ''0123456789abcdef''), cx_sha1_8 = (\<lambda>s. take 8 s), cx_show = (\<lambda>_. ''q''),
      cx_show_int = (\<lambda>_. ''0''), cx_px = [(''A'', 100), (''B'', 50)], cx_gates = empty_gates,
      cx_fold_pending = [], cx_qb = [], cx_bp = None, cx_moc_done = [], cx_recent_refusals = [],
      cx_counts_refusals = True, cx_backoff = None, cx_known = None, cx_pool = 1,
      cx_order = (\<lambda>n. [0..<n])\<rparr>"

section \<open>Properties of one delta\<close>

lemma send_clear:
  assumes "delta_verdict cx ours native refused k want = (Send d opens, c)"
  shows "frozen_by cx ours k = None" "\<not> fold_explains cx k (delta_of cx ours native k want)"
    "0 < dget_or (cx_px cx) k 0"
    "\<not> over_position cx want (dget_or (ad_positions (cx_ad cx)) k 0) (dget_or (cx_px cx) k 0)"
    "\<not> over_order cx \<bar>delta_of cx ours native k want\<bar> (dget_or (cx_px cx) k 0)"
  using assms by (auto simp: verdict_cases split: verdict_splits)


lemmas demo_defs = demo_ctx_def demo_adapter_def demo_rails_def stock_caps_def

lemma demo_flip:
  "delta_verdict (demo_ctx [(''A'', 10)] []) [] [] [] ''A'' (- 5) = (Send (- 10) False, True)"
  by code_simp


text \<open>A market delta is sent only for a symbol that is not cooling down after a quote-breach exit,
has no unacknowledged order, no filled order waiting to be folded, no open journal row the venue does
not list, no pending fill that explains the delta, a positive price, and a size inside both rails.\<close>
theorem delta_sent_only_in_the_clear:
  assumes "delta_verdict cx ours native refused k want = (Send d opens, c)"
  shows "k \<notin> set (cx_qb cx) \<and> k \<notin> set (g_unresolved (cx_gates cx))
    \<and> dget_or (g_unfolded (cx_gates cx)) k 0 = 0
    \<and> (uses_cids cx \<longrightarrow>
        (\<forall>row \<in> set (dget_or (g_open_rows (cx_gates cx)) k []).
           \<exists>od \<in> set ours. b_sym od = k \<and> b_cid od = fst row))
    \<and> \<not> fold_explains cx k (delta_of cx ours native k want)
    \<and> 0 < dget_or (cx_px cx) k 0
    \<and> (\<forall>cap. ra_position_notional (cx_rails cx) = Some cap \<longrightarrow>
          fmul \<bar>want\<bar> (dget_or (cx_px cx) k 0) \<le> cap
          \<or> \<bar>want\<bar> \<le> \<bar>dget_or (ad_positions (cx_ad cx)) k 0\<bar>)
    \<and> (\<forall>cap. ra_order_notional (cx_rails cx) = Some cap \<longrightarrow>
          fmul \<bar>delta_of cx ours native k want\<bar> (dget_or (cx_px cx) k 0) \<le> cap)"
proof -
  note v = send_clear [OF assms]
  have f: "k \<notin> set (cx_qb cx)" "k \<notin> set (g_unresolved (cx_gates cx))"
    "dget_or (g_unfolded (cx_gates cx)) k 0 = 0" "hidden_rows cx ours k = []"
    using v(1) by (auto simp: frozen_by_def split: if_splits)
  have vis: "\<exists>od \<in> set ours. b_sym od = k \<and> b_cid od = fst row"
    if "uses_cids cx" "row \<in> set (dget_or (g_open_rows (cx_gates cx)) k [])" for row
    using f(4) that by (force simp: hidden_rows_def filter_empty_conv)
  have caps: "fmul \<bar>want\<bar> (dget_or (cx_px cx) k 0) \<le> cap
      \<or> \<bar>want\<bar> \<le> \<bar>dget_or (ad_positions (cx_ad cx)) k 0\<bar>"
    if "ra_position_notional (cx_rails cx) = Some cap" for cap
    using v(3,4) that by (auto simp: over_position_def)
  have ord: "fmul \<bar>delta_of cx ours native k want\<bar> (dget_or (cx_px cx) k 0) \<le> cap"
    if "ra_order_notional (cx_rails cx) = Some cap" for cap
    using v(5) that by (auto simp: over_order_def)
  show ?thesis using f v(2,3) vis caps ord by blast
qed

lemma delta_sent_only_in_the_clear_witness:
  "0 < dget_or (cx_px (demo_ctx [(''A'', 10)] [])) ''A'' 0"
  using delta_sent_only_in_the_clear [OF demo_flip] by blast

text \<open>Today's refusals of an order hold back nothing but growth: wherever the refusal count changes
what is decided, the order it holds back was refused three times today and would leave the account
with more exposure than it has.\<close>
theorem refusals_hold_back_only_growth:
  assumes "delta_verdict cx ours native refused k want \<noteq> delta_verdict cx ours native [] k want"
  shows "\<exists>d opens c. delta_verdict cx ours native [] k want = (Send d opens, c)
    \<and> \<bar>eff_of cx ours native k\<bar> < \<bar>fadd (eff_of cx ours native k) d\<bar>
    \<and> 3 \<le> fst (dget_or refused (k, side_of d, \<bar>d\<bar>) (0, []))"
proof -
  obtain d opens c where sp: "split_at_zero (cx_step cx) (eff_of cx ours native k)
      (delta_of cx ours native k want) = (d, opens, c)" by (metis prod_cases3)
  have none: "\<not> refused_out [] k (eff_of cx ours native k) d"
    by (simp add: refused_out_def REFUSED_MAX_PER_DAY_def dget_or_def)
  have "refused_out refused k (eff_of cx ours native k) d
      \<and> delta_verdict cx ours native [] k want = (Send d opens, c)"
    using assms sp none by (auto simp: verdict_cases split: option.splits if_splits)
  then show ?thesis by (auto simp: refused_out_def REFUSED_MAX_PER_DAY_def)
qed

lemma refusals_hold_back_only_growth_witness:
  "\<exists>d opens c. delta_verdict (demo_ctx [] []) [] [] [] ''A'' 5 = (Send d opens, c)
    \<and> \<bar>eff_of (demo_ctx [] []) [] [] ''A''\<bar> < \<bar>fadd (eff_of (demo_ctx [] []) [] [] ''A'') d\<bar>
    \<and> (3::int) \<le> fst (dget_or [((''A'', ''buy'', 5), (3, [] :: string))] (''A'', side_of d, \<bar>d\<bar>) (0, []))"
  by (rule refusals_hold_back_only_growth) code_simp

section \<open>Sweeps reach the target\<close>

text \<open>The account after its holding of \<open>k\<close> became \<open>h\<close>, and a sweep whose order fills whole.\<close>

definition holding :: "ctx \<Rightarrow> sym \<Rightarrow> pyfloat \<Rightarrow> ctx" where
  "holding cx k h =
     cx\<lparr>cx_ad := (cx_ad cx)\<lparr>ad_positions := dput (ad_positions (cx_ad cx)) k h\<rparr>\<rparr>"

definition filled_sweep :: "ctx \<Rightarrow> border list \<Rightarrow> sym \<Rightarrow> pyfloat \<Rightarrow> pyfloat \<Rightarrow> pyfloat" where
  "filled_sweep cx ours k want h =
     (case fst (delta_verdict (holding cx k h) ours [] [] k want) of Send d _ \<Rightarrow> fadd h d | _ \<Rightarrow> h)"

definition calm :: "ctx \<Rightarrow> border list \<Rightarrow> sym \<Rightarrow> bool" where
  "calm cx ours k \<longleftrightarrow>
     cx_step cx = 1 \<and> frozen_by cx ours k = None \<and> dget (cx_fold_pending cx) k = None
     \<and> mkt_pending cx ours k = [] \<and> 0 < dget_or (cx_px cx) k 0
     \<and> ra_position_notional (cx_rails cx) = None \<and> ra_order_notional (cx_rails cx) = None
     \<and> dget_or (ad_kept_now (cx_ad cx)) k 0 = 0 \<and> dget_or (ad_kept_short (cx_ad cx)) k 0 = 0"

lemma dget_or_Nil [simp]: "dget_or [] k v = v"
  by (simp add: dget_or_def)

lemma holding_facts:
  "dget_or (ad_positions (cx_ad (holding cx k h))) k 0 = h"
  "cx_step (holding cx k h) = cx_step cx" "frozen_by (holding cx k h) ours = frozen_by cx ours"
  "fold_explains (holding cx k h) = fold_explains cx"
  "mkt_pending (holding cx k h) = mkt_pending cx"
  "over_position (holding cx k h) = over_position cx" "over_order (holding cx k h) = over_order cx"
  "cx_px (holding cx k h) = cx_px cx"
  "ad_kept_now (cx_ad (holding cx k h)) = ad_kept_now (cx_ad cx)"
  "ad_kept_short (cx_ad (holding cx k h)) = ad_kept_short (cx_ad cx)"
  by (simp_all add: holding_def dget_or_def dput_def update_conv' cx_step_def frozen_by_def fun_eq_iff
      hidden_rows_def uses_cids_def fold_explains_def mkt_pending_def over_position_def over_order_def)

text \<open>The target of one sweep: straight there, or flat first when it is on the other side.\<close>

lemma calm_sweep:
  assumes "calm cx ours k" and "\<bar>h\<bar> \<le> 2 ^ 52" and "\<bar>w\<bar> \<le> 2 ^ 52"
  shows "filled_sweep cx ours k (of_int w) (of_int h)
    = of_int (if (0 < h \<and> w < 0) \<or> (h < 0 \<and> 0 < w) then 0 else w)"
proof -
  let ?cx = "holding cx k (of_int h)"
  have calm: "mkt_pending cx ours k = []" "cx_step cx = 1"
    using assms(1) by (simp_all add: calm_def)
  have wh: "\<bar>w - h\<bar> \<le> 2 ^ 53" "\<bar>h\<bar> \<le> 2 ^ 53" "\<bar>- h\<bar> \<le> 2 ^ 53" "\<bar>w\<bar> \<le> 2 ^ 53" using assms(2,3) by auto
  have f: "fl (of_int (w - h)) = of_int (w - h)" "fl (of_int h) = of_int h"
    using wh fl_of_int by blast+
  have d: "delta_of ?cx ours [] k (of_int w) = of_int (w - h)"
    using calm round_step_int [OF wh(1)] f fsub_of_int [of w h]
    by (simp add: delta_of_def holding_facts pending_qty_def fsub_def)
  have e: "eff_of ?cx ours [] k = of_int h"
    using calm f
    by (simp add: eff_of_def holding_facts pending_qty_def fadd_def)
  have s: "split_at_zero 1 (of_int h) (of_int (w - h))
      = (if (0 < h \<and> w < 0) \<or> (h < 0 \<and> 0 < w) then (of_int (- h), False, True)
         else (of_int (w - h), w < h \<and> h \<le> 0, False))"
    using round_step_int [OF wh(3)] fadd_of_int [of h "w - h"] wh
    by (auto simp: split_at_zero_def Let_def simp del: of_int_diff)
  show ?thesis
  proof (cases "w = h")
    case True
    then show ?thesis
      using assms(1) d by (simp add: filled_sweep_def verdict_cases holding_facts calm_def)
  next
    case False
    then show ?thesis
      using assms(1) calm d e s round_step_int [OF wh(2)] fadd_of_int [of h "w - h"] fadd_of_int [of h "- h"] wh
      by (auto simp: filled_sweep_def verdict_cases holding_facts calm_def fold_explains_def
          over_position_def over_order_def kept_other_side_def held_short_of_def refused_out_def
          REFUSED_MAX_PER_DAY_def simp del: of_int_diff of_int_minus)
  qed
qed

text \<open>C19: with nothing in flight and no rail in the way, sweeps whose orders fill bring the account to the
strategies' target: one sweep when the target is on the side the account is on, two when the
position has to pass through zero, and a sweep at the target does nothing.\<close>
theorem sweeps_converge:
  assumes "calm cx ours k" and "\<bar>h\<bar> \<le> 2 ^ 52" and "\<bar>w\<bar> \<le> 2 ^ 52"
  shows "filled_sweep cx ours k (of_int w) (filled_sweep cx ours k (of_int w) (of_int h)) = of_int w
    \<and> (\<not> (0 < h \<and> w < 0) \<and> \<not> (h < 0 \<and> 0 < w) \<longrightarrow>
         filled_sweep cx ours k (of_int w) (of_int h) = of_int w)
    \<and> filled_sweep cx ours k (of_int w) (of_int w) = of_int w"
proof -
  have "\<bar>0 :: int\<bar> \<le> 2 ^ 52" by simp
  then show ?thesis
    using calm_sweep [OF assms] calm_sweep [OF assms(1) assms(3) assms(3)]
      calm_sweep [OF assms(1) _ assms(3), of 0] by auto
qed

definition open_ctx :: ctx where
  "open_ctx = (demo_ctx [] [])\<lparr>cx_rails := demo_rails\<lparr>ra_position_notional := None\<rparr>\<rparr>"

lemma sweeps_converge_witness:
  "filled_sweep open_ctx [] ''A'' (of_int (- 7)) (filled_sweep open_ctx [] ''A'' (of_int (- 7)) (of_int 12))
    = of_int (- 7)"
proof -
  have "calm open_ctx [] ''A''" by code_simp
  then show ?thesis using sweeps_converge [of open_ctx "[]" "''A''" 12 "- 7"] by simp
qed

end
