(* ===== verification/Resting.thy ===== *)
theory Resting
  imports Deltas
begin

text \<open>
  Sections 3 and 4 of \<open>reconcile\<close>: the resting exits and the resting entries a strategy wants.  Both
  check the price against the market, look the order up among the resting ones, leave it, move it
  or place it.  \<open>exit_refusal\<close> and \<open>entry_refusal\<close> are the price rails as decisions;
  \<open>legs_changed\<close>, \<open>ref_changed\<close> and \<open>trail_changed\<close> decide whether a resting order still says what is
  wanted, reading the level back from the client id where the venue does not report it.
\<close>

section \<open>Whether a resting order is out of date\<close>

definition HALF_BP :: pyfloat where "HALF_BP = fl (5 / 10000)"

text \<open>A leg nobody reports counts as unchanged.\<close>

definition leg_moved :: "pyfloat option \<Rightarrow> pyfloat option \<Rightarrow> bool" where
  "leg_moved resting wanted =
     (case resting of None \<Rightarrow> False | Some r \<Rightarrow> CENT_TOL < \<bar>fsub r (num_or0 wanted)\<bar>)"

definition trail_changed :: "ctx \<Rightarrow> border \<Rightarrow> pyfloat \<Rightarrow> pyfloat option \<Rightarrow> bool" where
  "trail_changed cx od q trail =
     (let (rt, cmp) =
        (if trail_fraction od = None \<and> uses_cids cx
         then (map_option (\<lambda>p. fdiv p 100) (decode_level (b_cid od)),
               map_option (\<lambda>t. fdiv (quantize_level (fmul t 100)) 100) trail)
         else (trail_fraction od, trail))
      in case rt of
           None \<Rightarrow> b_qty od \<noteq> q
         | Some r \<Rightarrow> HALF_BP < \<bar>fsub r (num_or0 cmp)\<bar> \<or> b_qty od \<noteq> q)"

definition legs_changed :: "ctx \<Rightarrow> border \<Rightarrow> pyfloat \<Rightarrow> pyfloat option \<Rightarrow> pyfloat option \<Rightarrow> bool" where
  "legs_changed cx od q price stop_px =
     (let toks = decode_stop_limit_legs (b_cid od);
          tok_used = (bo_stop od = None \<or> bo_limit od = None) \<and> uses_cids cx;
          (rs, cs) = (if tok_used \<and> bo_stop od = None
                      then (fst toks, map_option quantize_level stop_px) else (bo_stop od, stop_px));
          (rl, cl) = (if tok_used \<and> bo_limit od = None
                      then (snd toks, map_option quantize_level price) else (bo_limit od, price))
      in leg_moved rs cs \<or> leg_moved rl cl \<or> b_qty od \<noteq> q)"

definition ref_changed :: "ctx \<Rightarrow> border \<Rightarrow> pyfloat \<Rightarrow> pyfloat option \<Rightarrow> bool" where
  "ref_changed cx od q level =
     (let ref = (if bo_stop od = None then bo_limit od else bo_stop od);
          (r, c) = (if ref = None \<and> uses_cids cx
                    then (decode_level (b_cid od), map_option quantize_level level) else (ref, level))
      in leg_moved r c \<or> b_qty od \<noteq> q)"

definition exit_changed ::
  "ctx \<Rightarrow> string \<Rightarrow> border \<Rightarrow> pyfloat \<Rightarrow> pyfloat option \<Rightarrow> pyfloat option \<Rightarrow> pyfloat option
     \<Rightarrow> pyfloat option \<Rightarrow> bool" where
  "exit_changed cx kind od q level price stop_px trail =
     (if kind = ''trailing_stop'' then trail_changed cx od q trail
      else if kind = ''stop_limit'' then legs_changed cx od q price stop_px
      else ref_changed cx od q level)"

definition entry_changed ::
  "ctx \<Rightarrow> string \<Rightarrow> border \<Rightarrow> pyfloat \<Rightarrow> pyfloat option \<Rightarrow> pyfloat option \<Rightarrow> pyfloat option \<Rightarrow> bool" where
  "entry_changed cx kind od q level price stop_px =
     (if kind = ''stop_limit'' then legs_changed cx od q price stop_px
      else ref_changed cx od q level)"

section \<open>Placing and moving an order\<close>

definition level_of :: "string \<Rightarrow> pyfloat option \<Rightarrow> pyfloat option \<Rightarrow> pyfloat option" where
  "level_of kind price stop_px = (if kind \<in> {''limit'', ''stop_limit''} then price else stop_px)"

definition rest_args :: "xwant \<Rightarrow> pyfloat \<Rightarrow> string \<Rightarrow> string \<Rightarrow> bool \<Rightarrow> sub_args" where
  "rest_args t q tif cid opens =
     \<lparr>sa_sym = xw_sym t, sa_qty = q, sa_side = xw_side t, sa_type = xw_kind t, sa_tif = tif,
      sa_limit = xw_price t, sa_stop = xw_stop t, sa_trail = map_option (\<lambda>v. fmul v 100) (xw_trail t),
      sa_ext = False, sa_cid = Some cid, sa_opens_short = opens\<rparr>"

definition rest_submit :: "ctx \<Rightarrow> xwant \<Rightarrow> pyfloat \<Rightarrow> string \<Rightarrow> bool \<Rightarrow> mutation" where
  "rest_submit cx t q cid opens =
     (case pick_tif (ad_caps (cx_ad cx)) (xw_kind t) ''gtc'' of
        None \<Rightarrow> NoTimeInForce | Some tif \<Rightarrow> Call (WSubmit (rest_args t q tif cid opens)))"

definition rest_entry :: "string \<Rightarrow> xwant \<Rightarrow> pyfloat \<Rightarrow> pyfloat option \<Rightarrow> string \<Rightarrow> string \<Rightarrow> string \<Rightarrow> bentry" where
  "rest_entry action t q lpx boid cid status =
     mk_entry action (xw_sym t) q (xw_side t) (xw_kind t) lpx boid cid status (Some (xw_dep t)) (xw_rule t)"

text \<open>A fresh id for the order, then its submit; an id over the venue's length escapes as an exception.\<close>

definition place ::
  "ctx \<Rightarrow> string \<Rightarrow> string \<Rightarrow> bool \<Rightarrow> xwant \<Rightarrow> pyfloat \<Rightarrow> pyfloat option \<Rightarrow> pass \<Rightarrow> pass" where
  "place cx prefix told opens t q level s =
     (if ps_raised s \<noteq> None then s
      else let (hex, s1) = fresh_hex cx s
      in case cid_with_level prefix (xw_kind t) (xw_price t) (xw_stop t) (xw_trail t) hex of
           Inl _ \<Rightarrow> raise_in ''exceeds MAX_CID_LEN'' s1
         | Inr cid \<Rightarrow>
             let (out, s2) = act cx (rest_submit cx t q cid opens)
                   (rest_entry ''submit'' t q level [] cid []) s1
             in if out = None then s2 else say told (xw_sym t) s2)"

definition uses_replace :: "ctx \<Rightarrow> xwant \<Rightarrow> bool" where
  "uses_replace cx t \<longleftrightarrow> xw_kind t = ''limit'' \<and> cp_replace (ad_caps (cx_ad cx))"

text \<open>A changed order is replaced where the venue can, else cancelled and submitted again; while
  submissions are paused the pair is skipped and the order left as it is.\<close>

definition move ::
  "ctx \<Rightarrow> string \<Rightarrow> bool \<Rightarrow> xwant \<Rightarrow> pyfloat \<Rightarrow> pyfloat option \<Rightarrow> border \<Rightarrow> pass \<Rightarrow> pass" where
  "move cx prefix opens t q level od s =
     (if \<not> uses_replace cx t \<and> ps_tripped s then say ''left resting at its current level'' (xw_sym t) s
      else if uses_replace cx t
      then let (out, s1) = act cx (Call (WReplace (b_id od) (py_int q) (xw_price t)))
                 (rest_entry ''replace'' t q level (b_id od) [] []) s
           in if out = None then s1 else say ''updated'' (xw_sym t) s1
      else place cx prefix ''updated'' opens t q level
             (snd (act cx (Call (WCancel (b_id od)))
                (rest_entry ''cancel'' t (b_qty od) (bo_limit od) (b_id od) [] []) s)))"

text \<open>The resting order a want is about: by id prefix, or by identity, which takes it from the pool.\<close>

definition lookup_resting ::
  "ctx \<Rightarrow> border list \<Rightarrow> string \<Rightarrow> xwant \<Rightarrow> pyfloat \<Rightarrow> pyfloat option \<Rightarrow> border option \<times> border list" where
  "lookup_resting cx ours prefix t q trail =
     (if uses_cids cx
      then (List.find (\<lambda>od. b_sym od = xw_sym t \<and> starts_with (b_cid od) prefix) ours, ours)
      else match_no_cid cx ours (xw_sym t) (xw_side t) (xw_kind t) q (xw_price t) (xw_stop t) trail)"

section \<open>The price rails\<close>

text \<open>A stop belongs on the losing side of the market; \<open>over_side\<close> says which side that is.\<close>

definition stop_refusal :: "ctx \<Rightarrow> bool \<Rightarrow> string \<Rightarrow> pyfloat \<Rightarrow> pyfloat option \<Rightarrow> string option" where
  "stop_refusal cx over_side kind px stop_px =
     (case stop_px of
        None \<Rightarrow> None
      | Some sp \<Rightarrow>
          if kind \<notin> {''stop'', ''stop_limit''} \<or> px \<le> 0 then None
          else if (if over_side then sp \<le> px else px \<le> sp) then Some ''invalid_stop''
          else if ra_stop_band (cx_rails cx) < fmul \<bar>fsub (fdiv sp px) 1\<bar> 100 then Some ''over_stop_band''
          else None)"

definition notional_refusal :: "ctx \<Rightarrow> pyfloat \<Rightarrow> pyfloat option \<Rightarrow> pyfloat \<Rightarrow> bool" where
  "notional_refusal cx q level px =
     (let ref = (case level of Some v \<Rightarrow> v | None \<Rightarrow> px) in ref \<noteq> 0 \<and> over_order cx q ref)"

definition held_for_exit :: "ctx \<Rightarrow> xwant \<Rightarrow> pyfloat" where
  "held_for_exit cx t =
     (let h = dget_or (ad_positions (cx_ad cx)) (xw_sym t) 0
      in if (xw_side t = ''sell'' \<and> 0 < h) \<or> (xw_side t = ''buy'' \<and> h < 0) then \<bar>h\<bar> else 0)"

section \<open>One exit\<close>

definition refuse_rest :: "string \<Rightarrow> xwant \<Rightarrow> pyfloat \<Rightarrow> pyfloat option \<Rightarrow> pass \<Rightarrow> pass" where
  "refuse_rest status t q level s =
     log_entry (rest_entry ''refused'' t q level [] [] status) (say status (xw_sym t) s)"

definition exit_step ::
  "ctx \<Rightarrow> xwant list \<Rightarrow> pass \<times> border list \<Rightarrow> xwant \<Rightarrow> pass \<times> border list" where
  "exit_step cx xs st t =
     (case st of (s, ours) \<Rightarrow>
        let k = xw_sym t; kind = xw_kind t in
        if ps_raised s \<noteq> None then (s, ours)
        else if tp_simulated xs (xw_dep t) k kind then (say ''take-profit simulated'' k s, ours)
        else if journal_note (ad_caps (cx_ad cx)) kind k \<noteq> None then (say ''not native here'' k s, ours)
        else let q = round_step (xw_qty t) (cx_step cx);
                 px = dget_or (cx_px cx) k 0;
                 level = level_of kind (xw_price t) (xw_stop t)
        in if kind = ''limit'' \<and> limit_price_refusal (xw_side t) level px (cx_rails cx) \<noteq> None
           then (say ''limit price skipped'' k s, ours)
           else case stop_refusal cx (xw_side t \<noteq> ''sell'') kind px (xw_stop t) of
                  Some status \<Rightarrow> (refuse_rest status t q level s, ours)
                | None \<Rightarrow>
                    let prefix = exit_cid_prefix (xw_dep t) kind k (xw_rule t);
                        (found, ours1) = lookup_resting cx ours prefix t q (xw_trail t)
                    in if held_for_exit cx t < q
                       then (say (if dget (cx_fold_pending cx) k \<noteq> None then ''exit frozen''
                                  else ''deferred until shares arrive'') k s, ours1)
                       else if notional_refusal cx q level px
                       then (refuse_rest ''over_notional'' t q level s, ours1)
                       else case found of
                              None \<Rightarrow> (place cx prefix ''placed'' False t q level s, ours1)
                            | Some od \<Rightarrow>
                                (if exit_changed cx kind od q level (xw_price t) (xw_stop t) (xw_trail t)
                                 then move cx prefix False t q level od s else s, ours1))"

section \<open>One entry\<close>

definition already_refused :: "ctx \<Rightarrow> xwant \<Rightarrow> string \<Rightarrow> pyfloat option \<Rightarrow> bool" where
  "already_refused cx t status level \<longleftrightarrow>
     (xw_dep t, xw_sym t, xw_kind t, status, map_option (\<lambda>v. py_round v 2) level)
       \<in> set (cx_recent_refusals cx)"

text \<open>The line is always said; the row is recorded once a day.\<close>

definition refuse_entry :: "ctx \<Rightarrow> string \<Rightarrow> xwant \<Rightarrow> pyfloat \<Rightarrow> pyfloat option \<Rightarrow> pass \<Rightarrow> pass" where
  "refuse_entry cx status t q level s =
     (let s1 = say status (xw_sym t) s
      in if already_refused cx t status level then s1
         else log_entry (rest_entry ''refused'' t q level [] [] status) s1)"

definition entry_step :: "ctx \<Rightarrow> pass \<times> border list \<Rightarrow> xwant \<Rightarrow> pass \<times> border list" where
  "entry_step cx st w =
     (case st of (s, ours) \<Rightarrow>
        let t = w\<lparr>xw_trail := None\<rparr>; k = xw_sym t; kind = xw_kind t in
        if ps_raised s \<noteq> None then (s, ours)
        else if journal_note (ad_caps (cx_ad cx)) kind k \<noteq> None then (say ''entry not native here'' k s, ours)
        else let q = round_step (xw_qty t) (cx_step cx)
        in if fold_explains cx k q then (say ''entry frozen'' k s, ours)
           else if q \<le> 0 then (s, ours)
           else let px = dget_or (cx_px cx) k 0;
                    level = level_of kind (xw_price t) (xw_stop t)
           in if kind \<in> {''stop'', ''stop_limit''} \<and> px \<le> 0
              then (refuse_entry cx ''no_price'' t q level s, ours)
              else if kind = ''limit'' \<and> limit_price_refusal (xw_side t) level px (cx_rails cx) \<noteq> None
              then (say ''entry limit price skipped'' k s, ours)
              else case stop_refusal cx (xw_side t = ''buy'') kind px (xw_stop t) of
                     Some status \<Rightarrow> (refuse_entry cx status t q level s, ours)
                   | None \<Rightarrow>
                       let prefix = entry_cid_prefix (xw_dep t) kind k (xw_rule t);
                           (found, ours1) = lookup_resting cx ours prefix t q None;
                           opens = (xw_side t = ''sell'')
                       in if notional_refusal cx q level px
                          then (refuse_entry cx ''over_notional'' t q level s, ours1)
                          else case found of
                                 None \<Rightarrow> (place cx prefix ''entry placed'' opens t q level s, ours1)
                               | Some od \<Rightarrow>
                                   (if entry_changed cx kind od q level (xw_price t) (xw_stop t)
                                    then move cx prefix opens t q level od s else s, ours1))"

end
