(* ===== verification/Sweep.thy ===== *)
theory Sweep
  imports Resting
begin

text \<open>
  The whole of \<open>reconcile\<close>: the gates in front, the preflight, and the sections in their order.
  \<open>pass_law\<close> is the interface between the sections and what is proved of a pass: an assertion about
  the wire, the journal, the budget and the gateway flag that one gate and one adapter call keep
  holds after any sweep.  \<open>ks\<close> lists the actions that passed the gates and have not run yet, as the
  market batch has them between its two halves.  The interpretations are the order budget, the
  silence of dry runs, cancels only while the gateway is closed, and one wire call per client id.
\<close>

section \<open>The sweep\<close>

definition sweep_orders ::
  "ctx \<Rightarrow> (sym, pyfloat) dict \<Rightarrow> xwant list \<Rightarrow> mwant list \<Rightarrow> xwant list \<Rightarrow> pass \<Rightarrow> pass" where
  "sweep_orders cx desired exits mocs entries s =
     (let ours = our_orders cx;
          (s0, native) = foldl (moc_step cx ours) (s, []) mocs;
          s1 = release_pass cx (stale_entry cx entries) ours s0;
          s2 = release_pass cx (stale_exit cx exits) ours s1;
          s3 = delta_pass cx ours native desired s2;
          (s4, ours4) = foldl (exit_step cx exits) (s3, ours) exits
      in fst (foldl (entry_step cx) (s4, ours4) entries))"

definition enter_backoff :: "ctx \<Rightarrow> pass \<Rightarrow> pass" where
  "enter_backoff cx s =
     (case cx_backoff cx of
        None \<Rightarrow> s
      | Some (until, why) \<Rightarrow>
          if cx_wall cx < until
          then (complain (''order submissions paused -- '' @ why) [] s)
                 \<lparr>ps_tripped := True, ps_backoff := Some (Some (until, why))\<rparr>
          else s)"

definition preflight_refuses :: "ctx \<Rightarrow> (sym, pyfloat) dict \<Rightarrow> bool" where
  "preflight_refuses cx desired =
     (case cx_known cx of
        None \<Rightarrow> False
      | Some known \<Rightarrow> unknown_positions (ad_positions (cx_ad cx)) desired known (cx_step cx) \<noteq> [])"

definition reconcile ::
  "ctx \<Rightarrow> (sym, pyfloat) dict \<Rightarrow> xwant list \<Rightarrow> mwant list \<Rightarrow> xwant list \<Rightarrow> pass \<Rightarrow> pass" where
  "reconcile cx desired exits mocs entries s =
     (if ra_paused (cx_rails cx) then say ''connection paused'' [] s
      else if \<not> ra_live (cx_rails cx) then say ''deployment not confirmed'' [] s
      else let s1 = enter_backoff cx (s\<lparr>ps_tripped := False, ps_budget := ra_max_orders (cx_rails cx)\<rparr>)
           in if preflight_refuses cx desired then raise_in ''unknown broker position'' s1
              else let s2 = sweep_orders cx desired exits mocs entries s1
                   in if ps_raised s2 = None \<and> ps_backoff s2 = None then s2\<lparr>ps_backoff := Some None\<rparr>
                      else s2)"

definition start_pass ::
  "jrow list \<Rightarrow> (sym \<times> string \<times> pyfloat, int \<times> string) dict \<Rightarrow> pass" where
  "start_pass js refused =
     \<lparr>ps_wire = [], ps_journal = js, ps_budget = 0, ps_tripped = False, ps_actions = [],
      ps_errors = [], ps_backoff = None, ps_rate_refused = False, ps_records = [],
      ps_refused = refused, ps_uuid = 0, ps_raised = None\<rparr>"

section \<open>What a gate and a call do to the state the laws speak of\<close>

definition fits :: "bentry \<Rightarrow> mutation \<Rightarrow> bool" where
  "fits e m =
     (case m of
        Call (WSubmit a) \<Rightarrow> be_action e = ''submit'' \<and> sa_cid a = Some (be_cid e)
      | Call (WCancel _) \<Rightarrow> be_action e = ''cancel''
      | Call (WReplace _ _ _) \<Rightarrow> be_action e = ''replace''
      | NoTimeInForce \<Rightarrow> be_action e = ''submit'')"

lemma fits_simps [simp]:
  "fits (mk_entry ''submit'' k q side kind lpx boid cid st dep rule) NoTimeInForce"
  "fits (mk_entry ''cancel'' k q side kind lpx boid cid st dep rule) (Call (WCancel i))"
  "fits (mk_entry ''replace'' k q side kind lpx boid cid st dep rule) (Call (WReplace i n p))"
  "fits (mk_entry ''submit'' k q side kind lpx boid cid st dep rule)
     (Call (WSubmit (moc_args t q' side' cid opens)))"
  "fits (mk_entry ''submit'' k q side kind lpx boid cid st dep rule)
     (Call (WSubmit (rest_args w q' tif cid opens)))"
  by (simp_all add: fits_def mk_entry_def moc_args_def rest_args_def)

lemma fits_more [simp]:
  "fits (cancel_entry od cid) (Call (WCancel i))"
  "fits (rest_entry ''cancel'' t q lpx boid cid st) (Call (WCancel i))"
  "fits (rest_entry ''replace'' t q lpx boid cid st) (Call (WReplace i n p))"
  "fits (rest_entry ''submit'' t q lpx boid cid st) (rest_submit cx t q' cid opens)"
  by (simp_all add: cancel_entry_def rest_entry_def rest_submit_def split: option.split)

lemma mkt_entry_fields [simp]:
  "be_action (mkt_entry action k d cid st) = action" "be_cid (mkt_entry action k d cid st) = cid"
  by (simp_all add: mkt_entry_def mk_entry_def)

definition same_core :: "pass \<Rightarrow> pass \<Rightarrow> bool" where
  "same_core s s' \<longleftrightarrow>
     ps_wire s' = ps_wire s \<and> ps_journal s' = ps_journal s \<and> ps_budget s' = ps_budget s
     \<and> ps_tripped s' = ps_tripped s"

lemma same_core_intros [simp]:
  "same_core s s" "same_core s (say tag k s)" "same_core s (complain tag k s)"
  "same_core s (log_entry e s)" "same_core s (raise_in why s)" "same_core s (snd (fresh_hex cx s))"
  "same_core s (s\<lparr>ps_raised := r\<rparr>)" "same_core s (s\<lparr>ps_backoff := b\<rparr>)"
  "same_core s (log_entry e (say tag k s))"
  by (simp_all add: same_core_def say_def complain_def log_entry_def raise_in_def fresh_hex_def)

text \<open>A gate lets an action through by spending one unit, or spends at most one on a dry run.\<close>

lemma gate_core:
  "(fst (gate cx e s) \<and> \<not> ra_dry_run (cx_rails cx) \<and> 0 < ps_budget s
      \<and> (be_action e \<in> {''submit'', ''replace''} \<longrightarrow> \<not> ps_tripped s)
      \<and> snd (gate cx e s) = s\<lparr>ps_budget := ps_budget s - 1\<rparr>)
   \<or> (\<not> fst (gate cx e s) \<and> 0 < ps_budget s
      \<and> same_core (s\<lparr>ps_budget := ps_budget s - 1\<rparr>) (snd (gate cx e s)))
   \<or> (\<not> fst (gate cx e s) \<and> same_core s (snd (gate cx e s)))"
  by (simp add: gate_def Let_def same_core_def say_def log_entry_def)

definition sent_by :: "mutation \<Rightarrow> wire list" where
  "sent_by m = (case m of Call w \<Rightarrow> [w] | NoTimeInForce \<Rightarrow> [])"

definition journalled :: "ctx \<Rightarrow> bentry \<Rightarrow> pass \<Rightarrow> bool \<times> jrow list" where
  "journalled cx e s =
     journal_before (ps_journal s) (cx_conn cx) (be_action e) (journal_entry e) (cx_now cx)"

named_theorems core_simps \<open>what reporting leaves alone\<close>

lemma report_core [core_simps]:
  "ps_wire (say tag k s) = ps_wire s" "ps_wire (complain tag k s) = ps_wire s"
  "ps_wire (log_entry e s) = ps_wire s" "ps_wire (raise_in why s) = ps_wire s"
  "ps_journal (say tag k s) = ps_journal s" "ps_journal (complain tag k s) = ps_journal s"
  "ps_journal (log_entry e s) = ps_journal s" "ps_journal (raise_in why s) = ps_journal s"
  "ps_budget (say tag k s) = ps_budget s" "ps_budget (complain tag k s) = ps_budget s"
  "ps_budget (log_entry e s) = ps_budget s" "ps_budget (raise_in why s) = ps_budget s"
  "ps_tripped (say tag k s) = ps_tripped s" "ps_tripped (complain tag k s) = ps_tripped s"
  "ps_tripped (log_entry e s) = ps_tripped s" "ps_tripped (raise_in why s) = ps_tripped s"
  by (simp_all add: say_def complain_def log_entry_def raise_in_def)

lemma refused_core [core_simps]:
  "ps_wire (handle_rejected cx e msg s) = ps_wire s" "ps_wire (handle_rate_refused e msg s) = ps_wire s"
  "ps_journal (handle_rejected cx e msg s) = ps_journal s"
  "ps_journal (handle_rate_refused e msg s) = ps_journal s"
  "ps_budget (handle_rejected cx e msg s) = ps_budget s"
  "ps_budget (handle_rate_refused e msg s) = ps_budget s"
  "ps_tripped (handle_rate_refused e msg s) = ps_tripped s"
  "ps_tripped s \<Longrightarrow> ps_tripped (handle_rejected cx e msg s)"
  by (simp_all add: handle_rejected_def handle_rate_refused_def count_refusal_def Let_def core_simps)

lemma after_keys [core_simps]:
  "map jkey (journal_after js conn action e out note) = map jkey js"
  "map jkey (journal_cancel js conn cid boid) = map jkey js"
  by (auto simp: journal_after_def journal_cancel_def split: option.splits)

lemma run_call_core [core_simps]:
  "ps_wire (snd (run_call cx m s)) = ps_wire s @ sent_by m"
  "ps_journal (snd (run_call cx m s)) = ps_journal s"
  "ps_budget (snd (run_call cx m s)) = ps_budget s"
  "ps_tripped (snd (run_call cx m s)) = ps_tripped s"
  by (simp_all add: run_call_def sent_by_def split: mutation.split)

lemma perform_core:
  "ps_wire (snd (perform cx m e s)) = ps_wire s @ (if fst (journalled cx e s) then sent_by m else [])"
  "map jkey (ps_journal (snd (perform cx m e s))) = map jkey (snd (journalled cx e s))"
  "ps_budget (snd (perform cx m e s)) = ps_budget s"
  "ps_tripped s \<Longrightarrow> ps_tripped (snd (perform cx m e s))"
proof -
  obtain ok js where j: "journalled cx e s = (ok, js)" by fastforce
  have js: "\<not> ok \<Longrightarrow> js = ps_journal s"
    using j by (auto simp: journalled_def journal_before_def split: option.splits if_splits)
  obtain r s1 where r: "run_call cx m (s\<lparr>ps_journal := js\<rparr>) = (r, s1)" by fastforce
  have s1: "ps_wire s1 = ps_wire s @ sent_by m" "ps_journal s1 = js" "ps_budget s1 = ps_budget s"
    "ps_tripped s1 = ps_tripped s"
    using run_call_core [of cx m "s\<lparr>ps_journal := js\<rparr>"] r by simp_all
  note defs = perform_def journalled_def [symmetric] j r s1 js after_call_def core_simps Let_def
  show "ps_wire (snd (perform cx m e s)) = ps_wire s @ (if fst (journalled cx e s) then sent_by m else [])"
    by (simp add: defs split: outcome.splits)
  show "map jkey (ps_journal (snd (perform cx m e s))) = map jkey (snd (journalled cx e s))"
    by (simp add: defs split: outcome.splits)
  show "ps_budget (snd (perform cx m e s)) = ps_budget s"
    by (simp add: defs split: outcome.splits)
  show "ps_tripped (snd (perform cx m e s))" if "ps_tripped s"
    using that by (simp add: defs split: outcome.splits)
qed

section \<open>Laws of a pass\<close>

lemma foldl_keeps:
  "P x \<Longrightarrow> (\<And>x a. P x \<Longrightarrow> P (f x a)) \<Longrightarrow> P (foldl f x as)"
  by (induction "as" arbitrary: x) simp_all

text \<open>Every market order of the batch is a submit carrying its entry's client id, and a pool runs each
  item of a wave once.\<close>

definition item_ok :: "batch_item \<Rightarrow> bool" where
  "item_ok b \<longleftrightarrow> be_action (bi_entry b) = ''submit'' \<and> sa_cid (bi_args b) = Some (be_cid (bi_entry b))"

definition pool_ok :: "ctx \<Rightarrow> bool" where
  "pool_ok cx \<longleftrightarrow> (\<forall>n. mset (cx_order cx n) = mset [0..<n])"

locale pass_law =
  fixes cx :: ctx and P :: "string list \<Rightarrow> pass \<Rightarrow> bool"
  assumes core: "\<lbrakk>P ks s; same_core s s'\<rbrakk> \<Longrightarrow> P ks s'"
    and charge: "\<lbrakk>P ks s; 0 < ps_budget s; \<not> ra_dry_run (cx_rails cx);
        a \<in> {''submit'', ''replace''} \<longrightarrow> \<not> ps_tripped s\<rbrakk>
      \<Longrightarrow> P (a # ks) (s\<lparr>ps_budget := ps_budget s - 1\<rparr>)"
    and waste: "\<lbrakk>P ks s; 0 < ps_budget s\<rbrakk> \<Longrightarrow> P ks (s\<lparr>ps_budget := ps_budget s - 1\<rparr>)"
    and fire: "\<lbrakk>P (be_action e # ks) s; fits e m\<rbrakk> \<Longrightarrow> P ks (snd (perform cx m e s))"
    and drop: "P (a # ks) s \<Longrightarrow> P ks s"
begin

lemma report [intro!]:
  "P ks s \<Longrightarrow> P ks (say tag k s)" "P ks s \<Longrightarrow> P ks (complain tag k s)"
  "P ks s \<Longrightarrow> P ks (log_entry e s)" "P ks s \<Longrightarrow> P ks (raise_in why s)"
  "P ks s \<Longrightarrow> P ks (snd (fresh_hex cx s))" "P ks s \<Longrightarrow> P ks (s\<lparr>ps_raised := r\<rparr>)"
  by (auto elim: core)

lemma gated:
  assumes "P ks s"
  shows "fst (gate cx e s) \<Longrightarrow> P (be_action e # ks) (snd (gate cx e s))"
    and "\<not> fst (gate cx e s) \<Longrightarrow> P ks (snd (gate cx e s))"
  using gate_core [of cx e s] assms charge [of ks s "be_action e"] waste [of ks s] core by auto

lemma acting [intro!]:
  assumes "P ks s" and "fits e m"
  shows "P ks (snd (act cx m e s))"
  using gated [OF assms(1), of e] fire [OF _ assms(2), of ks]
  by (cases "gate cx e s") (auto simp: act_def split: if_splits)

lemma releasing [intro!]:
  assumes "P ks s"
  shows "P ks (release_pass cx stale ours s)"
  unfolding release_pass_def release_def
  by (intro foldl_keeps [where P = "P ks"] assms) (auto intro: report(1) acting)

lemma moc_send_keeps [intro!]: "P ks s \<Longrightarrow> P ks (snd (moc_send cx t q side opens s))"
  by (auto simp: moc_send_def split_beta Let_def)

lemma moc_keeps:
  assumes "P ks (fst st)"
  shows "P ks (fst (moc_step cx ours st t))"
  using assms moc_send_keeps
  by (cases st) (auto simp: moc_step_def Let_def split_beta)

lemma mocs_keep: "P ks (fst st) \<Longrightarrow> P ks (fst (foldl (moc_step cx ours) st mocs))"
  by (rule foldl_keeps [where P = "\<lambda>st. P ks (fst st)"]) (auto intro: moc_keeps)

lemma placing [intro!]: "P ks s \<Longrightarrow> P ks (place cx prefix told opens t q level s)"
  by (auto simp: place_def split_beta Let_def split: sum.split)

lemma moving [intro!]: "P ks s \<Longrightarrow> P ks (move cx prefix opens t q level od s)"
  by (auto simp: move_def split_beta Let_def)

lemma exit_keeps: "P ks (fst st) \<Longrightarrow> P ks (fst (exit_step cx xs st t))"
  by (cases st) (auto simp: exit_step_def refuse_rest_def Let_def split_beta split: option.split)

lemma exits_keep: "P ks (fst st) \<Longrightarrow> P ks (fst (foldl (exit_step cx xs) st ts))"
  by (rule foldl_keeps [where P = "\<lambda>st. P ks (fst st)"]) (auto intro: exit_keeps)

lemma entry_keeps: "P ks (fst st) \<Longrightarrow> P ks (fst (entry_step cx st t))"
  by (cases st) (auto simp: entry_step_def refuse_entry_def Let_def split_beta split: option.split)

lemma entries_keep: "P ks (fst st) \<Longrightarrow> P ks (fst (foldl (entry_step cx) st ts))"
  by (rule foldl_keeps [where P = "\<lambda>st. P ks (fst st)"]) (auto intro: entry_keeps)

lemma drop_many: "P (replicate n a @ ks) s \<Longrightarrow> m \<le> n \<Longrightarrow> P (replicate m a @ ks) s"
proof (induction n)
  case (Suc n)
  then show ?case using drop [of a "replicate n a @ ks" s] by (cases "m = Suc n") auto
qed simp

lemma running: "P (''submit'' # ks) s \<Longrightarrow> item_ok b \<Longrightarrow> P ks (run_one cx s b)"
  using fire [of "bi_entry b" ks s "Call (WSubmit (bi_args b))"]
  by (auto simp: run_one_def item_ok_def fits_def split_beta Let_def dest: drop)

lemma fold_items:
  assumes "\<And>ks s b. ok b \<Longrightarrow> P (''submit'' # ks) s \<Longrightarrow> P ks (g s b)"
    and "list_all ok bs" and "P (replicate (length bs) ''submit'' @ ks) s"
  shows "P ks (foldl g s bs)"
  using assms(2,3)
proof (induction bs arbitrary: s)
  case (Cons b bs)
  then show ?case using assms(1) [of b "replicate (length bs) ''submit'' @ ks" s] by simp
qed simp

lemma waving:
  assumes "pool_ok cx" and "list_all item_ok wave" and "P (replicate (length wave) ''submit'' @ ks) s"
  shows "P ks (run_wave cx s wave)"
proof (cases "cx_pool cx \<le> 1 \<or> length wave = 1")
  case True
  then show ?thesis
    unfolding run_wave_def if_P [OF True]
    by (intro fold_items [OF _ assms(2,3)]) (auto intro: running drop)
next
  case False
  have m: "mset (cx_order cx (length wave)) = mset [0..<length wave]"
    using assms(1) by (simp add: pool_ok_def)
  have "length (cx_order cx (length wave)) = length wave" using mset_eq_length [OF m] by simp
  moreover have "list_all (\<lambda>i. item_ok (wave ! i)) (cx_order cx (length wave))"
    using mset_eq_setD [OF m] assms(2) by (auto simp: list_all_iff)
  ultimately show ?thesis
    unfolding run_wave_def if_not_P [OF False]
    by (intro fold_items [where ok = "\<lambda>i. item_ok (wave ! i)"])
      (use assms(3) in \<open>auto simp: Let_def intro!: report running\<close>)
qed

lemma launching:
  assumes "pool_ok cx" and "list_all item_ok batch" and "P (replicate (length batch) ''submit'' @ ks) s"
  shows "P ks (launch_market_batch cx batch s)"
proof -
  let ?f = "\<lambda>s wave. if wave = [] \<or> ps_tripped s \<or> ps_raised s \<noteq> None then s else run_wave cx s wave"
  have step: "P ks (?f s wave)" if "P (replicate (length wave) ''submit'' @ ks) s" "list_all item_ok wave"
    for ks s wave
    using that waving [OF assms(1)] drop_many [of "length wave" "''submit''" ks s 0] by auto
  define sells where "sells = filter (\<lambda>b. be_side (bi_entry b) = ''sell'') batch"
  define buys where "buys = filter (\<lambda>b. be_side (bi_entry b) = ''buy'') batch"
  have len: "length sells + length buys \<le> length batch"
    unfolding sells_def buys_def by (induction batch) auto
  have ok: "list_all item_ok sells" "list_all item_ok buys"
    using assms(2) by (auto simp: sells_def buys_def list_all_iff)
  have P: "P (replicate (length sells) ''submit'' @ replicate (length buys) ''submit'' @ ks) s"
    using drop_many [OF assms(3) len] by (simp add: replicate_add)
  have "waves_of cx batch = [sells @ buys] \<or> waves_of cx batch = [sells, buys]"
    unfolding waves_of_def sells_def buys_def Let_def by simp
  then consider "waves_of cx batch = [sells @ buys]" | "waves_of cx batch = [sells, buys]" by blast
  then show ?thesis
  proof cases
    case 1
    then show ?thesis
      using step [of "sells @ buys" ks s] P ok by (simp add: launch_market_batch_def replicate_add)
  next
    case 2
    show ?thesis
      unfolding launch_market_batch_def 2 foldl.simps by (rule step [OF step [OF P ok(1)] ok(2)])
  qed
qed

lemma cid_keeps: "P ks s \<Longrightarrow> P ks (snd (mkt_cid cx k d s))"
  by (auto simp: mkt_cid_def Let_def split_beta split: option.split)

definition batched :: "string list \<Rightarrow> pass \<times> batch_item list \<Rightarrow> bool" where
  "batched ks st \<longleftrightarrow> P (replicate (length (snd st)) ''submit'' @ ks) (fst st) \<and> list_all item_ok (snd st)"

lemma delta_keeps:
  assumes "batched ks st"
  shows "batched ks (delta_step cx ours native st kw)"
proof -
  obtain s batch where st: "st = (s, batch)" by fastforce
  obtain k want where kw: "kw = (k, want)" by fastforce
  obtain v crossed where v: "delta_verdict cx ours native (ps_refused s) k want = (v, crossed)" by fastforce
  define s1 where "s1 = (if crossed then say ''to flat first'' k s else s)"
  let ?ks = "replicate (length batch) ''submit'' @ ks"
  have P: "P ?ks s" and ok: "list_all item_ok batch" using assms st by (simp_all add: batched_def)
  have P1: "P ?ks s1" using P by (simp add: s1_def report)
  show ?thesis
  proof (cases "ps_raised s = None")
    case True
    note step = delta_step_def st kw v s1_def [symmetric] Let_def True batched_def
    show ?thesis
    proof (cases v)
      case (Send d opens)
      obtain cid s2 where c: "mkt_cid cx k d s1 = (cid, s2)" by fastforce
      obtain go s3 where g: "gate cx (mkt_entry ''submit'' k d cid []) s2 = (go, s3)" by fastforce
      have "P ?ks s2" using cid_keeps [OF P1, of k d] c by simp
      then have "if go then P (''submit'' # ?ks) s3 else P ?ks s3"
        using gated [of ?ks s2 "mkt_entry ''submit'' k d cid []"] g
        by simp
      then show ?thesis
        using ok by (simp add: step Send c g item_ok_def mkt_args_def split: if_splits)
    qed (use P1 ok in \<open>auto simp: step intro!: report\<close>)
  qed (use assms in \<open>simp add: delta_step_def st kw\<close>)
qed

lemma deltas_keep:
  assumes "pool_ok cx" and "P ks s"
  shows "P ks (delta_pass cx ours native desired s)"
proof -
  have "batched ks (foldl (delta_step cx ours native) (s, []) desired)"
    by (rule foldl_keeps [where P = "batched ks"])
      (use assms in \<open>auto simp: batched_def [of ks "(s, [])"] intro: delta_keeps\<close>)
  then show ?thesis
    using launching [OF assms(1)] by (auto simp: delta_pass_def split_beta batched_def)
qed

theorem sweep_keeps:
  assumes "pool_ok cx" and "P ks s"
  shows "P ks (sweep_orders cx desired exits mocs entries s)"
  unfolding sweep_orders_def Let_def split_beta
  by (intro entries_keep exits_keep deltas_keep releasing mocs_keep)
    (simp_all add: assms exits_keep deltas_keep releasing mocs_keep)

end

end
