(* ===== verification/SweepProps.thy ===== *)
theory SweepProps
  imports Sweep
begin

text \<open>
  What holds of every sweep: the interpretations of \<open>pass_law\<close> (the order budget, dry runs, a closed
  gateway, one wire call per client id), the order in which a batch reaches the wire, and the rails of
  a resting exit.  The last section shows the circuit breaker splitting a cancel from its resubmit.
\<close>

section \<open>The budget\<close>

definition in_budget :: "int \<Rightarrow> string list \<Rightarrow> pass \<Rightarrow> bool" where
  "in_budget N ks s \<longleftrightarrow>
     int (length (ps_wire s)) + int (length ks) + ps_budget s \<le> N \<and> 0 \<le> ps_budget s"

interpretation budget: pass_law cx "in_budget N" for cx N
proof
  fix e :: bentry and m ks s
  assume "in_budget N (be_action e # ks) s"
  moreover have "length (sent_by m) \<le> 1" by (simp add: sent_by_def split: mutation.split)
  ultimately show "in_budget N ks (snd (perform cx m e s))"
    by (auto simp: in_budget_def perform_core)
qed (auto simp: in_budget_def same_core_def)

section \<open>Dry runs\<close>

definition unheard :: "ctx \<Rightarrow> wire list \<Rightarrow> string list \<Rightarrow> pass \<Rightarrow> bool" where
  "unheard cx ws ks s \<longleftrightarrow> (ra_dry_run (cx_rails cx) \<longrightarrow> ks = [] \<and> ps_wire s = ws)"

interpretation dry: pass_law cx "unheard cx ws" for cx ws
  by unfold_locales (auto simp: unheard_def same_core_def)

section \<open>A closed gateway\<close>

definition is_cancel :: "wire \<Rightarrow> bool" where
  "is_cancel w = (case w of WCancel _ \<Rightarrow> True | _ \<Rightarrow> False)"

definition only_cancels :: "string list \<Rightarrow> pass \<Rightarrow> bool" where
  "only_cancels ks s \<longleftrightarrow>
     ps_tripped s \<and> set ks \<inter> {''submit'', ''replace''} = {} \<and> list_all is_cancel (ps_wire s)"

interpretation closed: pass_law cx only_cancels for cx
proof
  fix e :: bentry and m ks s
  assume "only_cancels (be_action e # ks) s" and "fits e m"
  then show "only_cancels ks (snd (perform cx m e s))"
    by (auto simp: only_cancels_def perform_core fits_def sent_by_def is_cancel_def
        split: mutation.splits wire.splits)
qed (auto simp: only_cancels_def same_core_def)

section \<open>One call per client id\<close>

definition wire_cids :: "wire list \<Rightarrow> string list" where
  "wire_cids ws =
     List.map_filter (\<lambda>w. case w of
        WSubmit a \<Rightarrow> (if truthy (sa_cid a) then sa_cid a else None) | _ \<Rightarrow> None) ws"

lemma wire_cids_simps [simp]:
  "wire_cids [] = []" "wire_cids (ws @ vs) = wire_cids ws @ wire_cids vs"
  by (simp_all add: wire_cids_def map_filter_def)

definition sent_once :: "string \<Rightarrow> (string \<times> string) list \<Rightarrow> string list \<Rightarrow> pass \<Rightarrow> bool" where
  "sent_once conn old ks s \<longleftrightarrow>
     journal_ok (ps_journal s) \<and> distinct (wire_cids (ps_wire s))
     \<and> (\<forall>c \<in> set (wire_cids (ps_wire s)). (conn, c) \<in> set (map jkey (ps_journal s)) \<and> (conn, c) \<notin> set old)
     \<and> set old \<subseteq> set (map jkey (ps_journal s))"

lemma journalled_cases:
  assumes "cx_conn cx = Some conn"
  shows "(be_action e = ''submit'' \<and> be_cid e \<noteq> [] \<and> (conn, be_cid e) \<notin> set (map jkey (ps_journal s))
      \<and> fst (journalled cx e s)
      \<and> map jkey (snd (journalled cx e s)) = map jkey (ps_journal s) @ [(conn, be_cid e)])
    \<or> ((be_action e \<noteq> ''submit'' \<or> be_cid e = []) \<and> journalled cx e s = (True, ps_journal s))
    \<or> journalled cx e s = (False, ps_journal s)"
  using assms
  by (auto simp: journalled_def journal_before_def record_sending_def journal_entry_def jrow_of_def jkey_def)

lemma cids_of_fits:
  assumes "fits e m"
  shows "wire_cids (sent_by m) = [] \<or> wire_cids (sent_by m) = [be_cid e]"
    and "be_action e \<noteq> ''submit'' \<or> be_cid e = [] \<Longrightarrow> wire_cids (sent_by m) = []"
  using assms
  by (auto simp: fits_def sent_by_def wire_cids_def map_filter_def truthy_def
      split: mutation.splits wire.splits)

lemma sent_once_fire:
  assumes conn: "cx_conn cx = Some conn"
    and P: "sent_once conn old ks' s" and fits: "fits e m"
  shows "sent_once conn old ks (snd (perform cx m e s))"
proof -
  let ?s = "snd (perform cx m e s)"
  note w = perform_core(1) [of cx m e s] and j = perform_core(2) [of cx m e s]
  consider (new) "be_cid e \<noteq> []" "(conn, be_cid e) \<notin> set (map jkey (ps_journal s))"
      "map jkey (ps_journal ?s) = map jkey (ps_journal s) @ [(conn, be_cid e)]"
    | (same) "map jkey (ps_journal ?s) = map jkey (ps_journal s)"
        "wire_cids (ps_wire ?s) = wire_cids (ps_wire s)"
    using journalled_cases [OF conn, of e s] w j cids_of_fits(2) [OF fits] by fastforce
  then show ?thesis
  proof cases
    case new
    have "wire_cids (ps_wire ?s) = wire_cids (ps_wire s)
        \<or> wire_cids (ps_wire ?s) = wire_cids (ps_wire s) @ [be_cid e]"
      using w cids_of_fits(1) [OF fits] by auto
    then show ?thesis
      using P new unfolding sent_once_def journal_ok_def new(3) set_append
      by (elim disjE) (auto simp del: set_map)
  next
    case same
    then show ?thesis using P unfolding sent_once_def journal_ok_def same by simp
  qed
qed

text \<open>The unjournalled connection keeps no promise of its own.\<close>

definition sent_once_if :: "ctx \<Rightarrow> (string \<times> string) list \<Rightarrow> string list \<Rightarrow> pass \<Rightarrow> bool" where
  "sent_once_if cx old ks s \<longleftrightarrow> (\<forall>conn. cx_conn cx = Some conn \<longrightarrow> sent_once conn old ks s)"

interpretation once: pass_law cx "sent_once_if cx old" for cx old
proof
  fix e :: bentry and m ks s
  assume "sent_once_if cx old (be_action e # ks) s" and "fits e m"
  then show "sent_once_if cx old ks (snd (perform cx m e s))"
    unfolding sent_once_if_def by (blast intro: sent_once_fire)
qed (auto simp: sent_once_if_def sent_once_def same_core_def)

section \<open>Every sweep\<close>

abbreviation sweep where
  "sweep cx desired exits mocs entries js refused \<equiv>
     reconcile cx desired exits mocs entries (start_pass js refused)"

abbreviation armed :: "ctx \<Rightarrow> jrow list \<Rightarrow> (sym \<times> string \<times> pyfloat, int \<times> string) dict \<Rightarrow> pass" where
  "armed cx js refused \<equiv>
     enter_backoff cx ((start_pass js refused)\<lparr>ps_tripped := False, ps_budget := ra_max_orders (cx_rails cx)\<rparr>)"

lemma start_core [core_simps]:
  "ps_wire (start_pass js refused) = []" "ps_journal (start_pass js refused) = js"
  by (simp_all add: start_pass_def)

lemma armed_core [core_simps]:
  "ps_wire (armed cx js refused) = []" "ps_journal (armed cx js refused) = js"
  "ps_budget (armed cx js refused) = ra_max_orders (cx_rails cx)"
  "ps_tripped (armed cx js refused) \<longleftrightarrow> (\<exists>u why. cx_backoff cx = Some (u, why) \<and> cx_wall cx < u)"
  by (auto simp: enter_backoff_def start_pass_def core_simps split: option.splits)

text \<open>Where a sweep ends: behind a gate with nothing sent, or after the sections.\<close>

lemma sweep_core:
  "(ps_wire (sweep cx desired exits mocs entries js refused) = []
      \<and> ps_journal (sweep cx desired exits mocs entries js refused) = js)
   \<or> (\<not> ra_paused (cx_rails cx) \<and> ra_live (cx_rails cx) \<and> \<not> preflight_refuses cx desired
      \<and> same_core (sweep_orders cx desired exits mocs entries (armed cx js refused))
           (sweep cx desired exits mocs entries js refused))"
  by (auto simp: reconcile_def Let_def core_simps same_core_def)

lemma sweep_stays_shut:
  "ra_paused (cx_rails cx) \<or> \<not> ra_live (cx_rails cx) \<or> preflight_refuses cx desired \<Longrightarrow>
     ps_wire (sweep cx desired exits mocs entries js refused) = []"
  using sweep_core [of cx desired exits mocs entries js refused] by auto

text \<open>C17: a sweep keeps to its rails: it makes at most \<open>max_orders_per_sync\<close> calls at the venue, none at all
while the connection is paused, the live deployment unconfirmed, the run a dry one or a position
unaccounted for, and nothing but cancels while order submissions are backed off.\<close>
theorem sweep_respects_rails:
  assumes "pool_ok cx" and "0 \<le> ra_max_orders (cx_rails cx)"
  shows "int (length (ps_wire (sweep cx desired exits mocs entries js refused)))
      \<le> ra_max_orders (cx_rails cx)
    \<and> (ra_paused (cx_rails cx) \<or> \<not> ra_live (cx_rails cx) \<or> ra_dry_run (cx_rails cx)
         \<or> preflight_refuses cx desired \<longrightarrow>
       ps_wire (sweep cx desired exits mocs entries js refused) = [])
    \<and> (\<forall>u why. cx_backoff cx = Some (u, why) \<and> cx_wall cx < u \<longrightarrow>
         list_all is_cancel (ps_wire (sweep cx desired exits mocs entries js refused)))"
proof -
  let ?s = "sweep cx desired exits mocs entries js refused"
  let ?o = "sweep_orders cx desired exits mocs entries (armed cx js refused)"
  have b: "in_budget (ra_max_orders (cx_rails cx)) [] ?o"
    by (rule budget.sweep_keeps [OF assms(1)]) (use assms(2) in \<open>simp add: in_budget_def core_simps\<close>)
  have d: "unheard cx [] [] ?o"
    by (rule dry.sweep_keeps [OF assms(1)]) (simp add: unheard_def core_simps)
  have c: "only_cancels [] ?o" if "cx_backoff cx = Some (u, why)" "cx_wall cx < u" for u why
    by (rule closed.sweep_keeps [OF assms(1)]) (use that in \<open>simp add: only_cancels_def core_simps\<close>)
  from sweep_core [of cx desired exits mocs entries js refused] show ?thesis
  proof
    assume "ps_wire ?s = [] \<and> ps_journal ?s = js"
    then show ?thesis using assms(2) by simp
  next
    assume "\<not> ra_paused (cx_rails cx) \<and> ra_live (cx_rails cx) \<and> \<not> preflight_refuses cx desired
      \<and> same_core ?o ?s"
    then show ?thesis
      using b d c by (auto simp: same_core_def in_budget_def unheard_def only_cancels_def)
  qed
qed

lemma demo_pool: "pool_ok (demo_ctx positions orders)"
  by (simp add: pool_ok_def demo_ctx_def)

lemma sweep_respects_rails_witness:
  "int (length (ps_wire (sweep (demo_ctx [(''A'', 10)] []) [(''A'', 0), (''B'', 3)] [] [] [] [] []))) \<le> 20"
  using sweep_respects_rails [OF demo_pool [of "[(''A'', 10)]" "[]"],
      of "[(''A'', 0), (''B'', 3)]" "[]" "[]" "[]" "[]" "[]"]
  by (simp add: demo_defs)

text \<open>On a journalled connection a sweep never sends a client id twice, never sends one the journal
already held, and leaves every id it sent in the journal.\<close>
theorem each_id_reaches_the_wire_once:
  assumes "pool_ok cx" and "cx_conn cx = Some conn" and "journal_ok js"
  shows "distinct (wire_cids (ps_wire (sweep cx desired exits mocs entries js refused)))
    \<and> (\<forall>c \<in> set (wire_cids (ps_wire (sweep cx desired exits mocs entries js refused))).
         (conn, c) \<notin> set (map jkey js)
         \<and> (conn, c) \<in> set (map jkey (ps_journal (sweep cx desired exits mocs entries js refused))))"
proof -
  have "sent_once_if cx (map jkey js) [] (sweep_orders cx desired exits mocs entries (armed cx js refused))"
    by (rule once.sweep_keeps [OF assms(1)])
      (use assms(3) in \<open>simp add: sent_once_if_def sent_once_def core_simps\<close>)
  then show ?thesis
    using sweep_core [of cx desired exits mocs entries js refused] assms(2)
    by (auto simp: sent_once_if_def sent_once_def same_core_def)
qed

lemma each_id_reaches_the_wire_once_witness:
  "distinct (wire_cids (ps_wire (sweep (demo_ctx [(''A'', 10)] []) [(''A'', 0), (''B'', 3)] [] [] [] [] [])))"
  using each_id_reaches_the_wire_once [OF demo_pool [of "[(''A'', 10)]" "[]"], of "''c1''" "[]"
      "[(''A'', 0), (''B'', 3)]" "[]" "[]" "[]" "[]"]
  by (simp add: demo_ctx_def journal_ok_def)

section \<open>What a step adds to the wire\<close>

definition extends :: "wire set \<Rightarrow> pass \<Rightarrow> pass \<Rightarrow> bool" where
  "extends A s s' \<longleftrightarrow> (\<exists>ws. ps_wire s' = ps_wire s @ ws \<and> set ws \<subseteq> A)"

lemma extends_refl [simp]: "extends A s s"
  by (simp add: extends_def)

lemma extends_wire: "ps_wire s' = ps_wire s \<Longrightarrow> extends A s s'"
  by (simp add: extends_def)

lemma extends_trans: "extends A s s1 \<Longrightarrow> extends A s1 s2 \<Longrightarrow> extends A s s2"
  by (auto simp: extends_def)

lemma extends_mono: "extends A s s' \<Longrightarrow> A \<subseteq> B \<Longrightarrow> extends B s s'"
  by (auto simp: extends_def)

lemma extends_report [simp]:
  "extends A s (say tag k s') = extends A s s'" "extends A s (log_entry e s') = extends A s s'"
  "extends A s (raise_in why s') = extends A s s'" "extends A s (s'\<lparr>ps_raised := r\<rparr>) = extends A s s'"
  "extends A (s\<lparr>ps_raised := r\<rparr>) s' = extends A s s'"
  by (simp_all add: extends_def core_simps)

lemma extends_fold:
  assumes "\<And>s x. x \<in> set xs \<Longrightarrow> extends A s (f s x)"
  shows "extends A s (foldl f s xs)"
  using assms
proof (induction xs arbitrary: s)
  case (Cons x xs)
  have "extends A s (f s x)" using Cons.prems by simp
  moreover have "extends A (f s x) (foldl f (f s x) xs)" using Cons by simp
  ultimately show ?case by (simp add: extends_trans)
qed simp

lemma extends_perform: "extends (set (sent_by m)) s (snd (perform cx m e s))"
  by (auto simp: extends_def perform_core)

lemma extends_act: "extends (set (sent_by m)) s (snd (act cx m e s))"
proof -
  have "ps_wire (snd (gate cx e s)) = ps_wire s"
    using gate_core [of cx e s] by (auto simp: same_core_def)
  then show ?thesis
    using extends_perform [of m "snd (gate cx e s)" cx e]
    by (simp add: act_def split_beta Let_def extends_def)
qed

section \<open>Sells before buys\<close>

lemma extends_run_one: "extends {WSubmit (bi_args b)} s (run_one cx s b)"
  using extends_perform [of "Call (WSubmit (bi_args b))" s cx "bi_entry b"]
  by (simp add: run_one_def Let_def split_beta sent_by_def)

lemma extends_run_wave:
  assumes "pool_ok cx"
  shows "extends (WSubmit ` bi_args ` set wave) s (run_wave cx s wave)"
proof -
  let ?A = "WSubmit ` bi_args ` set wave"
  have one: "extends ?A s (run_one cx s b)" if "b \<in> set wave" for s b
    using extends_mono [OF extends_run_one] that by blast
  have idx: "set (cx_order cx (length wave)) = {0..<length wave}"
    using assms mset_eq_setD [of "cx_order cx (length wave)" "[0..<length wave]"] by (simp add: pool_ok_def)
  show ?thesis
  proof (cases "cx_pool cx \<le> 1 \<or> length wave = 1")
    case True
    show ?thesis unfolding run_wave_def if_P [OF True] by (rule extends_fold) (simp add: one)
  next
    case False
    have "extends ?A s (run_one cx (s\<lparr>ps_raised := None\<rparr>) (wave ! i))" if "i < length wave" for s i
      using one [of "wave ! i" "s\<lparr>ps_raised := None\<rparr>"] that by simp
    then show ?thesis
      unfolding run_wave_def if_not_P [OF False]
      by (intro extends_fold) (simp add: idx Let_def)
  qed
qed

definition side_calls :: "string \<Rightarrow> batch_item list \<Rightarrow> wire set" where
  "side_calls side batch = {WSubmit (bi_args b) | b. b \<in> set batch \<and> be_side (bi_entry b) = side}"

text \<open>Unless the account's buying power covers all the buys of a batch, every sell of the batch
reaches the venue before its first buy, whatever order the thread pool runs a wave in.\<close>
theorem sells_go_first:
  assumes "pool_ok cx" and "\<not> proven_buys cx (filter (\<lambda>b. be_side (bi_entry b) = ''buy'') batch)"
  shows "\<exists>sells buys. ps_wire (launch_market_batch cx batch s) = ps_wire s @ sells @ buys
    \<and> set sells \<subseteq> side_calls ''sell'' batch \<and> set buys \<subseteq> side_calls ''buy'' batch"
proof -
  define ss where "ss = filter (\<lambda>b. be_side (bi_entry b) = ''sell'') batch"
  define bs where "bs = filter (\<lambda>b. be_side (bi_entry b) = ''buy'') batch"
  let ?f = "\<lambda>s wave. if wave = [] \<or> ps_tripped s \<or> ps_raised s \<noteq> None then s else run_wave cx s wave"
  have A: "WSubmit ` bi_args ` set ss = side_calls ''sell'' batch"
    "WSubmit ` bi_args ` set bs = side_calls ''buy'' batch"
    by (auto simp: ss_def bs_def side_calls_def)
  have step: "extends (WSubmit ` bi_args ` set wave) s (?f s wave)" for s wave
    using extends_run_wave [OF assms(1), of wave s] by simp
  have "waves_of cx batch = (if ss = [] \<or> bs = [] then [ss @ bs] else [ss, bs])"
    using assms(2) by (simp add: waves_of_def Let_def ss_def bs_def)
  then have "ps_wire (launch_market_batch cx batch s) = ps_wire (?f (?f s ss) bs)"
    by (auto simp: launch_market_batch_def)
  moreover obtain sells buys where "ps_wire (?f s ss) = ps_wire s @ sells" "set sells \<subseteq> side_calls ''sell'' batch"
    "ps_wire (?f (?f s ss) bs) = ps_wire (?f s ss) @ buys" "set buys \<subseteq> side_calls ''buy'' batch"
    using step [of ss s] step [of bs "?f s ss"] unfolding extends_def A by blast
  ultimately show ?thesis by auto
qed

definition demo_item :: "sym \<Rightarrow> pyfloat \<Rightarrow> batch_item" where
  "demo_item k d =
     \<lparr>bi_args = mkt_args k d ''c'' False, bi_entry = mkt_entry ''submit'' k d ''c'' [], bi_px = 100\<rparr>"

lemma sells_go_first_witness:
  "\<exists>sells buys. ps_wire (launch_market_batch (demo_ctx [] []) [demo_item ''A'' 5, demo_item ''B'' (- 5)]
       (start_pass [] [])) = ps_wire (start_pass [] []) @ sells @ buys
    \<and> set sells \<subseteq> side_calls ''sell'' [demo_item ''A'' 5, demo_item ''B'' (- 5)]
    \<and> set buys \<subseteq> side_calls ''buy'' [demo_item ''A'' 5, demo_item ''B'' (- 5)]"
  by (rule sells_go_first [OF demo_pool]) (simp add: proven_buys_def demo_ctx_def)

section \<open>Resting exits\<close>

text \<open>The calls that placing or moving the order of a want can make.\<close>

definition rest_calls :: "xwant \<Rightarrow> pyfloat \<Rightarrow> bool \<Rightarrow> wire set" where
  "rest_calls t q opens =
     {w. case w of WSubmit a \<Rightarrow> \<exists>tif cid. a = rest_args t q tif cid opens | _ \<Rightarrow> True}"

lemma extends_fresh [simp]: "extends A (snd (fresh_hex cx s)) s' = extends A s s'"
  by (simp add: extends_def fresh_hex_def)

lemma extends_place: "extends (rest_calls t q opens) s (place cx prefix told opens t q level s)"
proof -
  have "set (sent_by (rest_submit cx t q cid opens)) \<subseteq> rest_calls t q opens" for cid
    by (auto simp: sent_by_def rest_submit_def rest_calls_def split: option.split)
  then have "extends (rest_calls t q opens) s' (snd (act cx (rest_submit cx t q cid opens) e s'))" for cid e s'
    by (rule extends_mono [OF extends_act])
  from this [of "snd (fresh_hex cx s)"] have
    "extends (rest_calls t q opens) s (snd (act cx (rest_submit cx t q cid opens) e (snd (fresh_hex cx s))))"
    for cid e by simp
  moreover have "extends (rest_calls t q opens) s (snd (fresh_hex cx s))"
    by (simp add: extends_def fresh_hex_def)
  ultimately show ?thesis
    by (auto simp: place_def Let_def split_beta split: sum.split)
qed

lemma extends_move: "extends (rest_calls t q opens) s (move cx prefix opens t q level od s)"
proof -
  have c: "extends (rest_calls t q opens) s (snd (act cx (Call w) e s))" if "\<And>a. w \<noteq> WSubmit a" for w e
    by (rule extends_mono [OF extends_act]) (use that in \<open>auto simp: sent_by_def rest_calls_def split: wire.split\<close>)
  show ?thesis
    unfolding move_def by (auto simp: Let_def split_beta c intro!: extends_trans [OF c extends_place])
qed


definition penny_ctx :: "border list \<Rightarrow> ctx" where
  "penny_ctx orders = (demo_ctx [(''A'', 10)] orders)\<lparr>cx_px := [(''A'', 1)]\<rparr>"

definition demo_stop :: xwant where
  "demo_stop =
     \<lparr>xw_dep = ''d1'', xw_sym = ''A'', xw_qty = 10, xw_kind = ''stop'', xw_price = None,
      xw_stop = Some (1 / 2), xw_trail = None, xw_rule = None, xw_side = ''sell''\<rparr>"

abbreviation demo_exit :: pass where
  "demo_exit \<equiv> fst (exit_step (penny_ctx []) [demo_stop]
     ((start_pass [] [])\<lparr>ps_budget := 5\<rparr>, []) demo_stop)"


section \<open>The circuit breaker between a cancel and its resubmit\<close>

text \<open>A stop resting at 0.25 with the strategy wanting 0.50, and one order left in the budget.\<close>

definition resting_stop :: border where
  "resting_stop =
     \<lparr>bo_id = Some ''o7'', bo_cid = Some (exit_cid_prefix ''d1'' ''stop'' ''A'' None @ ''-0123''),
      bo_sym = Some ''A'', bo_side = Some ''sell'', bo_type = Some ''stop'', bo_qty = Some 10,
      bo_limit = None, bo_stop = Some (1 / 4), bo_trail = None, bo_status = Some ''open''\<rparr>"

definition last_order_ctx :: ctx where
  "last_order_ctx =
     (penny_ctx [resting_stop])\<lparr>cx_rails := demo_rails\<lparr>ra_max_orders := 1\<rparr>\<rparr>"

text \<open>Moving a protective stop with one order left in the sweep's budget cancels the resting stop and
does not place its successor: the sweep ends with the held shares unprotected at the venue.\<close>
theorem breaker_strands_a_stop:
  "ps_wire (sweep last_order_ctx [(''A'', 10)] [demo_stop] [] [] [] []) = [WCancel ''o7'']"
  by code_simp

end
