(* ===== verification/Executions.thy ===== *)
theory Executions
  imports Adapters Journal Ladder
begin

text \<open>
  The broker-execution ledger of \<open>dqengine/live/executions.py\<close>: which deployment a fill belongs to
  (\<open>attribute\<close>), the idempotent insert that also folds the write-ahead journal (\<open>store\<close>), the poll
  that feeds both and the live book, and the recovery of fills of earlier days.  The tables
  \<open>broker_orders\<close> and \<open>executions\<close> are lists in insertion order, instants are microseconds.  What
  the host installs (universes, extra holders, kept shares) and the venue's answers are arguments.
\<close>

section \<open>The tables\<close>

record brow =
  br_conn :: string
  br_dep :: "string option"
  br_boid :: "string option"
  br_cid :: "string option"
  br_sym :: sym
  br_qty :: pyfloat
  br_side :: string
  br_type :: string
  br_limit :: "pyfloat option"
  br_status :: "string option"
  br_action :: string
  br_at :: int
  br_tag :: "string option"

record erow =
  er_conn :: string
  er_dep :: "string option"
  er_boid :: "string option"
  er_eid :: string
  er_cid :: "string option"
  er_sym :: sym
  er_qty :: pyfloat
  er_price :: pyfloat
  er_fees :: pyfloat
  er_at :: int
  er_tag :: "string option"
  er_source :: string
  er_avg :: bool
  er_stored :: int

definition OVERLAP_US :: int where "OVERLAP_US = 300 * 1000000"

text \<open>\<open>x or None\<close> on a string.\<close>

definition none_if_empty :: "string \<Rightarrow> string option" where
  "none_if_empty s = (if s = [] then None else Some s)"

section \<open>Attribution\<close>

text \<open>What a poll knows besides the row: universes and extra holders per deployment, the kept shares.\<close>

record held =
  hd_universes :: "(string, sym list) dict"
  hd_extra :: "(string, sym list) dict"
  hd_kept :: "(sym, kept_row) dict"

definition kept_holdings :: "(string \<times> pyfloat \<times> pyfloat option) list \<Rightarrow> (sym, kept_row) dict" where
  "kept_holdings rows =
     foldl (\<lambda>d (k, q, booked).
        if q \<noteq> 0 then dput d (upper k) \<lparr>kr_kept = q, kr_booked = Some (num_or0 booked)\<rparr> else d) [] rows"

definition is_our_fill :: "execution \<Rightarrow> string set \<Rightarrow> string set \<Rightarrow> bool" where
  "is_our_fill r our_oids our_cids \<longleftrightarrow>
     starts_with (ex_cid r) ''sl-'' \<or> starts_with (ex_cid r) ''en-''
     \<or> (ex_cid r \<noteq> [] \<and> ex_cid r \<in> our_cids) \<or> (ex_boid r \<noteq> [] \<and> ex_boid r \<in> our_oids)"

text \<open>The orders with a deployment; a dict comprehension keeps the last row of a key.\<close>

definition placed_orders :: "brow list \<Rightarrow> string \<Rightarrow> brow list" where
  "placed_orders bs conn = filter (\<lambda>b. br_conn b = conn \<and> br_dep b \<noteq> None) bs"

definition last_with :: "(brow \<Rightarrow> string option) \<Rightarrow> string \<Rightarrow> brow list \<Rightarrow> brow option" where
  "last_with key v bs = (if v = [] then None else List.find (\<lambda>b. key b = Some v) (rev bs))"

definition order_of_fill :: "brow list \<Rightarrow> string \<Rightarrow> execution \<Rightarrow> brow option" where
  "order_of_fill bs conn r =
     (case last_with br_boid (ex_boid r) (placed_orders bs conn) of
        Some b \<Rightarrow> Some b | None \<Rightarrow> last_with br_cid (ex_cid r) (placed_orders bs conn))"

definition our_ids :: "brow list \<Rightarrow> jrow list \<Rightarrow> string \<Rightarrow> string set \<times> string set" where
  "our_ids bs js conn =
     (let ob = filter (\<lambda>b. br_conn b = conn) bs; oj = filter (\<lambda>r. jr_conn r = conn) js
      in (set (List.map_filter br_boid ob) \<union> set (List.map_filter jr_boid oj),
          set (List.map_filter br_cid ob) \<union> set (map jr_cid oj)))"

definition holders :: "(string, sym list) dict \<Rightarrow> sym \<Rightarrow> string list" where
  "holders us k = map fst (filter (\<lambda>(d, syms). k \<in> set syms) us)"

datatype owner_verdict = Owned string "string option" | Shared | Manual

definition attribute_one ::
  "brow list \<Rightarrow> jrow list \<Rightarrow> held \<Rightarrow> string \<Rightarrow> execution \<Rightarrow> owner_verdict" where
  "attribute_one bs js h conn r =
     (let k = ex_sym r; (oids, cids) = our_ids bs js conn; ours = is_our_fill r oids cids
      in case order_of_fill bs conn r of
           Some b \<Rightarrow> Owned (str_or (br_dep b)) (br_tag b)
         | None \<Rightarrow>
             if k \<in> set (dkeys (hd_kept h)) \<and> \<not> ours then Manual
             else let hs = holders (hd_universes h) k;
                      also_h = filter (\<lambda>d. d \<notin> set (dkeys (hd_universes h))) (holders (hd_extra h) k)
                  in if ours \<and> (2 \<le> length hs + length also_h \<or> also_h \<noteq> []) then Shared
                     else case hs of [d] \<Rightarrow> Owned d None | _ \<Rightarrow> Manual)"

definition exec_row :: "string \<Rightarrow> int \<Rightarrow> execution \<Rightarrow> owner_verdict \<Rightarrow> erow" where
  "exec_row conn stored r v =
     \<lparr>er_conn = conn, er_dep = (case v of Owned d _ \<Rightarrow> Some d | _ \<Rightarrow> None),
      er_boid = none_if_empty (ex_boid r), er_eid = ex_exec_id r,
      er_cid = none_if_empty (ex_cid r), er_sym = ex_sym r,
      er_qty = (if ex_side r = ''buy'' then 1 else - 1) * ex_qty r, er_price = ex_price r,
      er_fees = ex_fees r, er_at = ex_at r, er_tag = (case v of Owned _ t \<Rightarrow> t | _ \<Rightarrow> None),
      er_source = (case v of Owned _ _ \<Rightarrow> ''broker'' | Shared \<Rightarrow> ''shared'' | Manual \<Rightarrow> ''manual''),
      er_avg = ex_avg r, er_stored = stored\<rparr>"

definition attribute ::
  "brow list \<Rightarrow> jrow list \<Rightarrow> held \<Rightarrow> string \<Rightarrow> int \<Rightarrow> execution list \<Rightarrow> erow list" where
  "attribute bs js h conn now rows =
     map (\<lambda>r. exec_row conn now r (attribute_one bs js h conn r)) rows"

section \<open>The idempotent insert\<close>

type_synonym ledger_state = "erow list \<times> jrow list \<times> erow list"

definition store_one :: "string \<Rightarrow> ledger_state \<Rightarrow> erow \<Rightarrow> ledger_state" where
  "store_one conn st e =
     (case st of (es, js, new) \<Rightarrow>
        if er_eid e \<in> set (map er_eid (filter (\<lambda>x. er_conn x = conn) es)) then (es, js, new)
        else (es @ [e], fold_execution js conn (er_cid e) (er_boid e) (er_qty e), new @ [e]))"

definition store ::
  "brow list \<Rightarrow> held \<Rightarrow> string \<Rightarrow> int \<Rightarrow> erow list \<times> jrow list \<Rightarrow> execution list \<Rightarrow> ledger_state" where
  "store bs h conn now st rows =
     (case st of (es, js) \<Rightarrow> foldl (store_one conn) (es, js, []) (attribute bs js h conn now rows))"

text \<open>The deployments whose warm engines must rebuild, under \<open>enforce\<close> only.\<close>

definition stale_deps :: "string \<Rightarrow> erow list \<Rightarrow> string list" where
  "stale_deps truth_mode new =
     (if truth_mode = ''enforce'' then remdups (List.map_filter er_dep new) else [])"

section \<open>The poll\<close>

record polled =
  po_execs :: "erow list"
  po_journal :: "jrow list"
  po_book :: livebook

definition newest :: "erow list \<Rightarrow> string \<Rightarrow> int option" where
  "newest es conn =
     (case map er_at (filter (\<lambda>e. er_conn e = conn) es) of [] \<Rightarrow> None | ts \<Rightarrow> Some (Max (set ts)))"

definition poll_since :: "erow list \<Rightarrow> string \<Rightarrow> int option" where
  "poll_since es conn = map_option (\<lambda>t. t - OVERLAP_US) (newest es conn)"

definition fill_rows :: "erow list \<Rightarrow> fill_row list" where
  "fill_rows new = map (\<lambda>e. (er_boid e, er_cid e, Some (er_sym e), er_qty e)) new"

text \<open>\<open>fetch\<close> is the venue: the parsed rows and how many it could not parse, or an exception.\<close>

definition poll ::
  "(int option \<Rightarrow> (execution list \<times> int) res) \<Rightarrow> brow list \<Rightarrow> held \<Rightarrow> string \<Rightarrow> int \<Rightarrow> polled
     \<Rightarrow> (nat \<times> int) res \<times> polled" where
  "poll fetch bs h conn now p =
     (case fetch (poll_since (po_execs p) conn) of
        Inl e \<Rightarrow> (Inl e, p)
      | Inr (rows, skipped) \<Rightarrow>
          (case store bs h conn now (po_execs p, po_journal p) rows of
             (es, js, new) \<Rightarrow>
               (Inr (length new, skipped),
                \<lparr>po_execs = es, po_journal = js,
                 po_book = (if new = [] then po_book p
                            else note_fills (po_book p) (fill_rows new) True)\<rparr>)))"

section \<open>Fills of earlier days\<close>

definition RECOVER_EVERY_US :: int where "RECOVER_EVERY_US = 60 * 1000000"

definition RECOVER_WINDOW_US :: int where "RECOVER_WINDOW_US = 14 * 86400 * 1000000"

definition TERMINAL :: "string list" where
  "TERMINAL = [''FILLED'', ''CANCELLED'', ''CANCELED'', ''REJECTED'', ''EXPIRED'', ''FAILED'']"

text \<open>Newest first; rows of the same instant keep their table order.\<close>

definition recover_candidate ::
  "brow list \<Rightarrow> string \<Rightarrow> border list \<Rightarrow> int \<Rightarrow> int \<Rightarrow> brow option" where
  "recover_candidate bs conn open_orders now today0 =
     (let ids = set (filter (\<lambda>i. i \<noteq> []) (List.map_filter bo_id open_orders));
          cids = set (filter (\<lambda>i. i \<noteq> []) (List.map_filter bo_cid open_orders))
      in List.find (\<lambda>b. upper (str_or (br_status b)) \<notin> set TERMINAL
                      \<and> \<not> (str_or (br_cid b) \<in> cids \<or> (truthy (br_boid b) \<and> str_or (br_boid b) \<in> ids)))
           (sort_key (\<lambda>b. - br_at b)
              (filter (\<lambda>b. br_conn b = conn \<and> br_action b = ''submit'' \<and> br_type b \<noteq> ''market''
                        \<and> br_dep b \<noteq> None \<and> br_cid b \<noteq> None \<and> br_at b < today0
                        \<and> now - RECOVER_WINDOW_US \<le> br_at b) bs)))"

definition already_held :: "erow list \<Rightarrow> string \<Rightarrow> string \<Rightarrow> execution list \<Rightarrow> bool" where
  "already_held es conn cid rows \<longleftrightarrow>
     (\<exists>e \<in> set es. er_conn e = conn
        \<and> (er_cid e = Some cid \<or> (\<exists>r \<in> set rows. ex_boid r \<noteq> [] \<and> er_boid e = Some (ex_boid r))))"

definition settle_order ::
  "string \<Rightarrow> string \<Rightarrow> string \<Rightarrow> execution list \<Rightarrow> brow \<Rightarrow> brow" where
  "settle_order conn cid status rows b =
     (if br_conn b = conn \<and> br_cid b = Some cid \<and> br_action b = ''submit''
      then b\<lparr>br_status := (if status = [] then br_status b else Some status),
             br_boid := (if rows \<noteq> [] \<and> \<not> truthy (br_boid b) then Some (ex_boid (hd rows)) else br_boid b)\<rparr>
      else b)"

record recovered =
  rv_cid :: string
  rv_status :: string
  rv_new :: nat

text \<open>\<open>asked\<close> is when the connection was last looked up; the answer of the venue is a status and rows.\<close>

definition recover_earlier_fills ::
  "caps \<Rightarrow> (string \<Rightarrow> (string option \<times> execution list) option res) \<Rightarrow> held \<Rightarrow> string
     \<Rightarrow> border list option \<Rightarrow> int \<Rightarrow> int \<Rightarrow> int option \<Rightarrow> brow list \<Rightarrow> polled
     \<Rightarrow> recovered option res \<times> int option \<times> brow list \<times> polled" where
  "recover_earlier_fills c look h conn open_orders now today0 asked bs p =
     (case open_orders of
        None \<Rightarrow> (Inr None, asked, bs, p)
      | Some oo \<Rightarrow>
          if cp_earlier_fills c \<or> (case asked of None \<Rightarrow> False | Some t \<Rightarrow> now - t < RECOVER_EVERY_US)
          then (Inr None, asked, bs, p)
          else case recover_candidate bs conn oo now today0 of
                 None \<Rightarrow> (Inr None, asked, bs, p)
               | Some cand \<Rightarrow>
                   let cid = str_or (br_cid cand) in
                   (case look cid of
                      Inl e \<Rightarrow> (Inl e, Some now, bs, p)
                    | Inr None \<Rightarrow> (Inr None, Some now, bs, p)
                    | Inr (Some (st, rows)) \<Rightarrow>
                        let status = upper (str_or st);
                            (es, js, new) =
                              (if already_held (po_execs p) conn cid rows
                               then (po_execs p, po_journal p, [])
                               else store bs h conn now (po_execs p, po_journal p) rows)
                        in (Inr (Some \<lparr>rv_cid = cid, rv_status = status, rv_new = length new\<rparr>), Some now,
                            map (settle_order conn cid status rows) bs,
                            \<lparr>po_execs = es, po_journal = js,
                             po_book = (if new = [] then po_book p
                                        else note_fills (po_book p) (fill_rows new) False)\<rparr>)))"

section \<open>Every fill once\<close>

definition exec_ids :: "erow list \<Rightarrow> string \<Rightarrow> string list" where
  "exec_ids es conn = map er_eid (filter (\<lambda>e. er_conn e = conn) es)"

lemma exec_ids_append [simp]: "exec_ids (es @ fs) conn = exec_ids es conn @ exec_ids fs conn"
  by (simp add: exec_ids_def)

text \<open>What one insert pass leaves: the new rows at the end of the table, one per unseen id, in order.\<close>

lemma store_fold:
  assumes "\<forall>e \<in> set rows. er_conn e = conn"
  shows "\<exists>new. fst (foldl (store_one conn) (es, js, acc) rows) = es @ new
    \<and> snd (snd (foldl (store_one conn) (es, js, acc) rows)) = acc @ new
    \<and> set new \<subseteq> set rows \<and> distinct (map er_eid new)
    \<and> set (map er_eid new) = set (map er_eid rows) - set (exec_ids es conn)
    \<and> fst (snd (foldl (store_one conn) (es, js, acc) rows))
        = foldl (\<lambda>j e. fold_execution j conn (er_cid e) (er_boid e) (er_qty e)) js new"
  using assms
proof (induction rows arbitrary: es js acc)
  case (Cons e rows)
  show ?case
  proof (cases "er_eid e \<in> set (exec_ids es conn)")
    case True
    then have "store_one conn (es, js, acc) e = (es, js, acc)"
      by (simp add: store_one_def exec_ids_def)
    then show ?thesis using Cons.IH [of es js acc] Cons.prems True by fastforce
  next
    case False
    let ?js = "fold_execution js conn (er_cid e) (er_boid e) (er_qty e)"
    have st: "store_one conn (es, js, acc) e = (es @ [e], ?js, acc @ [e])"
      using False by (simp add: store_one_def exec_ids_def)
    have ids: "exec_ids [e] conn = [er_eid e]"
      using Cons.prems by (simp add: exec_ids_def)
    obtain new where n: "fst (foldl (store_one conn) (es @ [e], ?js, acc @ [e]) rows) = (es @ [e]) @ new"
      "snd (snd (foldl (store_one conn) (es @ [e], ?js, acc @ [e]) rows)) = (acc @ [e]) @ new"
      "set new \<subseteq> set rows" "distinct (map er_eid new)"
      "set (map er_eid new) = set (map er_eid rows) - set (exec_ids (es @ [e]) conn)"
      "fst (snd (foldl (store_one conn) (es @ [e], ?js, acc @ [e]) rows))
        = foldl (\<lambda>j e. fold_execution j conn (er_cid e) (er_boid e) (er_qty e)) ?js new"
      using Cons.IH [of "es @ [e]" ?js "acc @ [e]"] Cons.prems by auto
    show ?thesis
      by (rule exI [of _ "e # new"]) (use n False in \<open>auto simp: st ids\<close>)
  qed
qed simp

lemma attribute_rows:
  "\<forall>e \<in> set (attribute bs js h conn now rows). er_conn e = conn"
  "map er_eid (attribute bs js h conn now rows) = map ex_exec_id rows"
  by (auto simp: attribute_def exec_row_def)

lemma store_rows:
  obtains new where "store bs h conn now (es, js) rows
      = (es @ new, foldl (\<lambda>j e. fold_execution j conn (er_cid e) (er_boid e) (er_qty e)) js new, new)"
    "set new \<subseteq> set (attribute bs js h conn now rows)" "distinct (map er_eid new)"
    "set (map er_eid new) = set (map ex_exec_id rows) - set (exec_ids es conn)"
proof -
  obtain es' js' new' where s: "store bs h conn now (es, js) rows = (es', js', new')"
    using prod_cases3 by blast
  then have f: "foldl (store_one conn) (es, js, []) (attribute bs js h conn now rows) = (es', js', new')"
    by (simp add: store_def)
  show ?thesis
    using store_fold [OF attribute_rows(1) [of bs js h conn now rows], of es js "[]"] that s
    unfolding f by (auto simp: attribute_rows(2) simp del: set_map)
qed

lemma exec_ids_own: "\<forall>e \<in> set new. er_conn e = conn \<Longrightarrow> exec_ids new conn = map er_eid new"
  by (simp add: exec_ids_def)

text \<open>C22: the ledger takes every fill once: storing a batch appends exactly the executions of the
connection it had not seen, one row each however often the batch repeats them, folds each of them
into the order journal once, and storing the same batch again changes nothing.\<close>
theorem fills_land_once:
  "\<exists>new. store bs h conn now (es, js) rows
       = (es @ new, foldl (\<lambda>j e. fold_execution j conn (er_cid e) (er_boid e) (er_qty e)) js new, new)
     \<and> distinct (exec_ids new conn)
     \<and> set (exec_ids new conn) = set (map ex_exec_id rows) - set (exec_ids es conn)
     \<and> (\<forall>bs' h' now' js'. store bs' h' conn now' (es @ new, js') rows = (es @ new, js', []))"
proof -
  obtain new where n: "store bs h conn now (es, js) rows
      = (es @ new, foldl (\<lambda>j e. fold_execution j conn (er_cid e) (er_boid e) (er_qty e)) js new, new)"
    "set new \<subseteq> set (attribute bs js h conn now rows)" "distinct (map er_eid new)"
    "set (map er_eid new) = set (map ex_exec_id rows) - set (exec_ids es conn)"
    by (rule store_rows)
  have ids: "exec_ids new conn = map er_eid new"
    using n(2) attribute_rows(1) by (blast intro: exec_ids_own)
  have again: "store bs' h' conn now' (es @ new, js') rows = (es @ new, js', [])" for bs' h' now' js'
  proof -
    obtain new' where n': "store bs' h' conn now' (es @ new, js') rows = ((es @ new) @ new',
        foldl (\<lambda>j e. fold_execution j conn (er_cid e) (er_boid e) (er_qty e)) js' new', new')"
      "set (map er_eid new') = set (map ex_exec_id rows) - set (exec_ids (es @ new) conn)"
      by (rule store_rows)
    then have "set (map er_eid new') = {}" using n(4) ids by (simp only: exec_ids_append set_append) blast
    then have "new' = []" by simp
    then show ?thesis using n'(1) by simp
  qed
  show ?thesis using n(1,3,4) again by (intro exI [of _ new]) (simp add: ids)
qed

lemma last_with_Some: "last_with key v bs = Some b \<Longrightarrow> b \<in> set bs \<and> key b = Some v \<and> v \<noteq> []"
  by (auto simp: last_with_def find_Some_iff split: if_splits) (metis length_rev nth_mem set_rev)

lemma order_of_fill_Some:
  assumes "order_of_fill bs conn r = Some b"
  shows "b \<in> set bs \<and> br_conn b = conn \<and> br_dep b = Some (str_or (br_dep b))
    \<and> ((ex_boid r \<noteq> [] \<and> br_boid b = Some (ex_boid r)) \<or> (ex_cid r \<noteq> [] \<and> br_cid b = Some (ex_cid r)))"
  using assms
  by (auto simp: order_of_fill_def placed_orders_def str_or_def split: option.splits dest!: last_with_Some)

text \<open>C23: a fill is booked to a deployment only on evidence: on an order that deployment sent, matched by
the broker's id or the client id, or because it alone trades the symbol and neither the owner's own
shares nor a netted order of several deployments explain it.\<close>
theorem attribution_needs_evidence:
  assumes "attribute_one bs js h conn r = Owned d t"
  shows "(\<exists>b \<in> set bs. br_conn b = conn \<and> br_tag b = t \<and> br_dep b = Some d
        \<and> ((ex_boid r \<noteq> [] \<and> br_boid b = Some (ex_boid r)) \<or> (ex_cid r \<noteq> [] \<and> br_cid b = Some (ex_cid r))))
    \<or> (holders (hd_universes h) (ex_sym r) = [d] \<and> t = None
        \<and> (if ex_sym r \<in> set (dkeys (hd_kept h))
           then is_our_fill r (fst (our_ids bs js conn)) (snd (our_ids bs js conn)) else True)
        \<and> (if is_our_fill r (fst (our_ids bs js conn)) (snd (our_ids bs js conn))
           then filter (\<lambda>x. x \<notin> set (dkeys (hd_universes h))) (holders (hd_extra h) (ex_sym r)) = [] else True))"
proof (cases "order_of_fill bs conn r")
  case (Some b)
  then show ?thesis
    using assms order_of_fill_Some [OF Some] by (auto simp: attribute_one_def split_beta Let_def)
next
  case None
  then show ?thesis
    using assms by (auto simp: attribute_one_def split_beta Let_def split: if_splits list.splits)
qed

definition seen_fill :: execution where
  "seen_fill = \<lparr>ex_boid = ''o1'', ex_exec_id = ''e1'', ex_cid = [], ex_sym = ''A'', ex_side = ''buy'',
     ex_qty = 3, ex_price = 10, ex_fees = 0, ex_at = 5, ex_avg = False\<rparr>"

definition sent_order :: brow where
  "sent_order = \<lparr>br_conn = ''c1'', br_dep = Some ''d1'', br_boid = Some ''o1'', br_cid = Some ''sl-tp-A'',
     br_sym = ''A'', br_qty = 3, br_side = ''buy'', br_type = ''limit'', br_limit = None,
     br_status = None, br_action = ''submit'', br_at = 1, br_tag = Some ''tp''\<rparr>"

definition lone_held :: held where
  "lone_held = \<lparr>hd_universes = [(''d2'', [''A''])], hd_extra = [], hd_kept = []\<rparr>"

lemma seen_fill_owner:
  "attribute_one [sent_order] [] lone_held ''c1'' seen_fill = Owned ''d1'' (Some ''tp'')"
  by code_simp

lemma attribution_needs_evidence_witness:
  "\<exists>b \<in> set [sent_order]. br_conn b = ''c1'' \<and> br_tag b = Some ''tp'' \<and> br_dep b = Some ''d1''
     \<and> br_boid b = Some (ex_boid seen_fill)"
  using attribution_needs_evidence [OF seen_fill_owner]
  by (simp add: holders_def lone_held_def seen_fill_def)

end
