(* ===== verification/Inputs.thy ===== *)
theory Inputs
  imports Sweep Executions
begin

text \<open>
  What a sweep is told: the position payload of a deployment as desired shares and wanted orders
  (\<open>desired_from_payload\<close>), one state per connection (\<open>connection_inputs\<close>), and what the gather block
  of \<open>sync_broker_account\<close> reads from the tables - the fold rail, the fills of earlier days, today's
  at-close orders and refusals, the quote-breach cooldown, the symbols ever ordered, the buying power.
  A JSON payload is a record of optional fields; instants are microseconds, as in \<open>Executions\<close>.
\<close>

section \<open>The payload of a deployment\<close>

record holding =
  ho_sym :: "sym option"
  ho_qty :: pyfloat
  ho_last :: "pyfloat option"

record oorder =
  oo_sym :: "sym option"
  oo_type :: "string option"
  oo_qty :: pyfloat
  oo_price :: "pyfloat option"
  oo_stop :: "pyfloat option"
  oo_trail :: "pyfloat option"
  oo_rule :: "string option"
  oo_side :: "string option"

record payload =
  pl_holdings :: "holding list option"
  pl_symbol :: "sym option"
  pl_qty :: pyfloat
  pl_last :: "pyfloat option"
  pl_last_prices :: "(sym \<times> pyfloat option) list option"
  pl_open :: "oorder list"
  pl_close :: "oorder list"
  pl_entry :: "oorder list"

record dstate =
  ds_desired :: "(sym, pyfloat) dict"
  ds_exits :: "xwant list"
  ds_entries :: "xwant list"
  ds_closes :: "mwant list"
  ds_last_px :: "(sym, pyfloat) dict"
  ds_held_px :: "sym list"
  ds_owner :: string

definition usym :: "sym option \<Rightarrow> sym" where "usym s = upper (str_or s)"

definition setdefault :: "('k, 'v) dict \<Rightarrow> 'k \<Rightarrow> 'v \<Rightarrow> ('k, 'v) dict" where
  "setdefault d k v = (if dget d k = None then dput d k v else d)"

definition py_true :: "pyfloat option \<Rightarrow> bool" where
  "py_true x \<longleftrightarrow> x \<noteq> None \<and> x \<noteq> Some 0"

definition seeds :: "sym list \<Rightarrow> (sym, pyfloat) dict" where
  "seeds universe = foldl (\<lambda>d u. setdefault d (upper u) 0) [] universe"

text \<open>An old payload without \<open>holdings\<close> is one holding of its primary symbol.\<close>

definition holdings_of :: "payload \<Rightarrow> holding list" where
  "holdings_of p =
     (case pl_holdings p of
        Some hs \<Rightarrow> hs
      | None \<Rightarrow> let s = usym (pl_symbol p)
                in if s = [] then [] else [\<lparr>ho_sym = Some s, ho_qty = pl_qty p, ho_last = pl_last p\<rparr>])"

type_synonym folded = "(sym, pyfloat) dict \<times> (sym, pyfloat) dict \<times> (sym, pyfloat) dict \<times> sym list"

definition fold_holding :: "folded \<Rightarrow> holding \<Rightarrow> folded" where
  "fold_holding st h =
     (case st of (qtys, desired, px, held) \<Rightarrow>
        let k = usym (ho_sym h); q = ho_qty h
        in if k = [] then st
           else (dput qtys k (fadd (dget_or qtys k 0) q), dput desired k (fadd (dget_or desired k 0) q),
                 if py_true (ho_last h) then dput px k (num_or0 (ho_last h)) else px,
                 if py_true (ho_last h) then List.insert k held else held))"

definition more_prices :: "payload \<Rightarrow> (sym, pyfloat) dict \<Rightarrow> (sym, pyfloat) dict" where
  "more_prices p px =
     (let px1 = (if py_true (pl_last p) \<and> usym (pl_symbol p) \<noteq> []
                 then setdefault px (usym (pl_symbol p)) (num_or0 (pl_last p)) else px)
      in case pl_last_prices p of
           None \<Rightarrow> px1
         | Some xs \<Rightarrow>
             foldl (\<lambda>d (s, v). if upper s \<noteq> [] \<and> py_true v then setdefault d (upper s) (num_or0 v) else d)
               px1 xs)"

definition exit_kind :: "oorder \<Rightarrow> string option" where
  "exit_kind od = (if oo_type od = Some ''limit_sell'' then Some ''limit'' else oo_type od)"

definition exit_of :: "string \<Rightarrow> payload \<Rightarrow> (sym, pyfloat) dict \<Rightarrow> oorder \<Rightarrow> xwant option" where
  "exit_of dep p qtys od =
     (let k = usym (opt_or (oo_sym od) (pl_symbol p)); q = dget_or qtys k 0
      in if k = [] \<or> q = 0 then None
         else if exit_kind od \<notin> Some ` {''limit'', ''stop'', ''stop_limit'', ''trailing_stop''} then None
         else Some \<lparr>xw_dep = dep, xw_sym = k, xw_qty = \<bar>q\<bar>, xw_kind = str_or (exit_kind od),
                    xw_price = oo_price od, xw_stop = oo_stop od, xw_trail = oo_trail od,
                    xw_rule = oo_rule od, xw_side = (if 0 < q then ''sell'' else ''buy'')\<rparr>)"

definition close_of :: "string \<Rightarrow> oorder \<Rightarrow> mwant option" where
  "close_of dep od =
     (if usym (oo_sym od) = [] \<or> oo_type od \<notin> Some ` {''market_on_close'', ''limit_on_close''} then None
      else Some \<lparr>mw_dep = dep, mw_sym = usym (oo_sym od), mw_qty = oo_qty od,
                 mw_kind = str_or (oo_type od), mw_price = oo_price od, mw_rule = oo_rule od\<rparr>)"

definition entry_of :: "string \<Rightarrow> oorder \<Rightarrow> xwant option" where
  "entry_of dep od =
     (if usym (oo_sym od) = [] \<or> oo_type od \<notin> Some ` {''limit'', ''stop'', ''stop_limit''} then None
      else if oo_qty od \<le> 0 then None
      else Some \<lparr>xw_dep = dep, xw_sym = usym (oo_sym od), xw_qty = oo_qty od,
                 xw_kind = str_or (oo_type od), xw_price = oo_price od, xw_stop = oo_stop od,
                 xw_trail = None, xw_rule = oo_rule od,
                 xw_side = (if truthy (oo_side od) then str_or (oo_side od) else ''buy'')\<rparr>)"

definition desired_from_payload :: "string \<Rightarrow> payload \<Rightarrow> sym list \<Rightarrow> dstate" where
  "desired_from_payload dep p universe =
     (case foldl fold_holding ([], seeds universe, [], []) (holdings_of p) of
        (qtys, desired, px, held) \<Rightarrow>
          \<lparr>ds_desired = desired, ds_exits = List.map_filter (exit_of dep p qtys) (pl_open p),
           ds_entries = List.map_filter (entry_of dep) (pl_entry p),
           ds_closes = List.map_filter (close_of dep) (pl_close p),
           ds_last_px = more_prices p px, ds_held_px = held, ds_owner = dep\<rparr>)"

section \<open>One state per connection\<close>

definition no_state :: dstate where
  "no_state = \<lparr>ds_desired = [], ds_exits = [], ds_entries = [], ds_closes = [], ds_last_px = [],
     ds_held_px = [], ds_owner = []\<rparr>"

text \<open>The combiner is the host's; without one a second deployment stops the sweep.\<close>

definition connection_inputs ::
  "(dstate list \<Rightarrow> dstate) option \<Rightarrow> (string \<times> payload \<times> sym list) list \<Rightarrow> dstate res" where
  "connection_inputs combiner deps =
     (case map (\<lambda>(d, p, u). desired_from_payload d p u) deps of
        [] \<Rightarrow> Inr no_state
      | [st] \<Rightarrow> Inr st
      | states \<Rightarrow> (case combiner of
                     None \<Rightarrow> Inl (RuntimeError ''MultiDeploymentConnection'') | Some f \<Rightarrow> Inr (f states)))"

section \<open>What the sleeves folded and what the broker filled\<close>

record sleeve_fill =
  sf_sym :: "sym option"
  sf_qty :: "pyfloat option"
  sf_day :: string
  sf_confirmed :: bool

record deprow =
  dr_id :: string
  dr_live_confirmed :: bool
  dr_fills :: "sleeve_fill list"
  dr_last_tick :: "int option"

record owner =
  ow_id :: string
  ow_live :: bool
  ow_fills :: "(sym \<times> pyfloat) list"

definition owner_of :: "deprow \<Rightarrow> string \<Rightarrow> owner" where
  "owner_of d today =
     \<lparr>ow_id = dr_id d, ow_live = dr_live_confirmed d,
      ow_fills = map (\<lambda>f. (usym (sf_sym f), num_or0 (sf_qty f)))
        (filter (\<lambda>f. sf_day f = today \<and> sf_confirmed f) (dr_fills d))\<rparr>"

text \<open>Per symbol: the signed sum, and the bought and the sold quantity.\<close>

type_synonym sides = "(string, pyfloat) dict"

definition no_sides :: sides where "no_sides = [(''buy'', 0), (''sell'', 0)]"

definition side_name :: "pyfloat \<Rightarrow> string" where
  "side_name q = (if 0 < q then ''buy'' else ''sell'')"

definition add_side :: "sides \<Rightarrow> string \<Rightarrow> pyfloat \<Rightarrow> sides" where
  "add_side d side x = dput d side (fadd (dget_or d side 0) x)"

definition fold_model ::
  "(sym, pyfloat) dict \<times> (sym, sides) dict \<Rightarrow> sym \<times> pyfloat \<Rightarrow> (sym, pyfloat) dict \<times> (sym, sides) dict" where
  "fold_model st f =
     (case (st, f) of ((net, by_side), (k, q)) \<Rightarrow>
        (dput net k (fadd (dget_or net k 0) q),
         dput by_side k (add_side (dget_or by_side k no_sides) (side_name q) \<bar>q\<bar>)))"

definition model_folded :: "owner list \<Rightarrow> (sym, pyfloat) dict \<times> (sym, sides) dict" where
  "model_folded owners = foldl fold_model ([], []) (concat (map ow_fills owners))"

record alloc =
  al_conn :: string
  al_dep :: string
  al_sym :: "sym option"
  al_qty :: pyfloat
  al_exec :: "string option"
  al_at :: int

text \<open>A transfer of a managed sleeve is taken out, a venue share of an unmanaged one is counted in.\<close>

definition alloc_sign :: "string list \<Rightarrow> alloc \<Rightarrow> pyfloat option" where
  "alloc_sign managed a =
     (if al_exec a = None \<and> al_dep a \<in> set managed then Some (- 1)
      else if al_exec a \<noteq> None \<and> al_dep a \<notin> set managed then Some 1 else None)"

definition fold_alloc ::
  "string list \<Rightarrow> (sym, sides \<times> pyfloat) dict \<Rightarrow> alloc \<Rightarrow> (sym, sides \<times> pyfloat) dict" where
  "fold_alloc managed d a =
     (case alloc_sign managed a of
        None \<Rightarrow> d
      | Some sign \<Rightarrow>
          let k = usym (al_sym a); (s, net) = dget_or d k (no_sides, 0)
          in dput d k (add_side s (side_name (al_qty a)) (sign * \<bar>al_qty a\<bar>), fadd net (sign * al_qty a)))"

definition allocation_rail_adjust ::
  "alloc list \<Rightarrow> string \<Rightarrow> int \<Rightarrow> string list \<Rightarrow> (sym, sides \<times> pyfloat) dict" where
  "allocation_rail_adjust as conn start managed =
     foldl (fold_alloc managed) [] (filter (\<lambda>a. al_conn a = conn \<and> start \<le> al_at a) as)"

definition adjust_model ::
  "(sym, pyfloat) dict \<times> (sym, sides) dict \<Rightarrow> (sym, sides \<times> pyfloat) dict
     \<Rightarrow> (sym, pyfloat) dict \<times> (sym, sides) dict" where
  "adjust_model st adj =
     foldl (\<lambda>(net, by_side) (k, (s, n)).
        (dput net k (fadd (dget_or net k 0) n),
         dput by_side k
           (add_side (add_side (dget_or by_side k no_sides) ''buy'' (dget_or s ''buy'' 0))
              ''sell'' (dget_or s ''sell'' 0)))) st adj"

text \<open>Today's fills of our own orders: the rows whose client id starts with \<open>sl-\<close>.\<close>

definition exe_sums :: "erow list \<Rightarrow> string \<Rightarrow> int \<Rightarrow> (sym, pyfloat) dict" where
  "exe_sums es conn start =
     foldl (\<lambda>d e. dput d (upper (er_sym e)) (fadd (dget_or d (upper (er_sym e)) 0) (er_qty e))) []
       (filter (\<lambda>e. er_conn e = conn \<and> start \<le> er_at e
                   \<and> (case er_cid e of None \<Rightarrow> False | Some c \<Rightarrow> starts_with c ''sl-'')) es)"

definition LATE_FOLD_MARGIN_US :: int where "LATE_FOLD_MARGIN_US = 20 * 1000000"

definition LATE_LOOKBACK_US :: int where "LATE_LOOKBACK_US = 3 * 86400 * 1000000"

text \<open>\<open>stamp d\<close> is the parsed \<open>clean_tick_at\<close> of a running deployment, if it has one that parses.\<close>

definition late_fills ::
  "erow list \<Rightarrow> deprow list \<Rightarrow> (string \<Rightarrow> int option) \<Rightarrow> string \<Rightarrow> int \<Rightarrow> int \<Rightarrow> sym list" where
  "late_fills es running stamp conn start now =
     remdups (concat (map (\<lambda>e.
        map (\<lambda>d. upper (er_sym e))
          (filter (\<lambda>d. Some (dr_id d) = er_dep e
              \<and> \<not> (case (if stamp (dr_id d) = None then dr_last_tick d else stamp (dr_id d)) of
                     None \<Rightarrow> False | Some clean \<Rightarrow> LATE_FOLD_MARGIN_US \<le> clean - er_stored e)) running))
        (filter (\<lambda>e. er_conn e = conn \<and> er_at e < start \<and> now - LATE_LOOKBACK_US \<le> er_stored e) es)))"

text \<open>The fold rail: how far the broker's fills are from what the sleeves folded.\<close>

definition rail_diffs :: "(sym, pyfloat) dict \<Rightarrow> (sym, pyfloat) dict \<Rightarrow> (sym, pyfloat option) dict" where
  "rail_diffs filled model =
     List.map_filter (\<lambda>k. let diff = fsub (dget_or filled k 0) (dget_or model k 0)
                          in if fl (1 / 10 ^ 6) < \<bar>diff\<bar> then Some (k, Some diff) else None)
       (sorted_list_of_set (set (dkeys filled) \<union> set (dkeys model)))"

definition fold_pending ::
  "string \<Rightarrow> (sym, pyfloat) dict \<Rightarrow> (sym, pyfloat) dict \<Rightarrow> sym list \<Rightarrow> (sym, pyfloat option) dict" where
  "fold_pending truth_mode filled model late =
     foldl (\<lambda>d k. dput d k None) (if truth_mode = ''enforce'' then rail_diffs filled model else []) late"

section \<open>What the order table says\<close>

definition recent_submits :: "brow list \<Rightarrow> string \<Rightarrow> int \<Rightarrow> brow list" where
  "recent_submits bs conn since =
     filter (\<lambda>b. br_conn b = conn \<and> br_action b = ''submit'' \<and> since \<le> br_at b) bs"

text \<open>SQL compares a missing status with nothing: such a row does not pass \<open>status != 'dry_run'\<close>.\<close>

definition moc_done :: "brow list \<Rightarrow> string \<Rightarrow> int \<Rightarrow> (string \<times> sym) list" where
  "moc_done bs conn start =
     List.map_filter (\<lambda>b. map_option (\<lambda>d. (d, br_sym b)) (br_dep b))
       (filter (\<lambda>b. br_type b \<in> {''market_on_close'', ''limit_on_close''}
                   \<and> (case br_status b of None \<Rightarrow> False | Some st \<Rightarrow> st \<noteq> ''dry_run''))
          (recent_submits bs conn start))"

definition recent_refusals ::
  "brow list \<Rightarrow> string \<Rightarrow> int \<Rightarrow> (string \<times> sym \<times> string \<times> string \<times> pyfloat option) list" where
  "recent_refusals bs conn start =
     map (\<lambda>b. (str_or (br_dep b), br_sym b, br_type b, str_or (br_status b),
               map_option (\<lambda>v. py_round v 2) (br_limit b)))
       (filter (\<lambda>b. br_conn b = conn \<and> br_action b = ''refused'' \<and> start \<le> br_at b) bs)"

definition QB_COOLDOWN_US :: int where "QB_COOLDOWN_US = 90 * 1000000"

definition qb_cooldown :: "brow list \<Rightarrow> string \<Rightarrow> int \<Rightarrow> sym list" where
  "qb_cooldown bs conn now =
     map br_sym (filter (\<lambda>b. case br_cid b of None \<Rightarrow> False | Some c \<Rightarrow> starts_with c ''sl-qb-'')
       (recent_submits bs conn (now - QB_COOLDOWN_US)))"

definition known_symbols :: "brow list \<Rightarrow> jrow list \<Rightarrow> erow list \<Rightarrow> string \<Rightarrow> sym list" where
  "known_symbols bs js es conn =
     map upper
       (filter (\<lambda>s. s \<noteq> [])
          (map br_sym (filter (\<lambda>b. br_conn b = conn) bs) @ map jr_sym (filter (\<lambda>r. jr_conn r = conn) js)
           @ map er_sym (filter (\<lambda>e. er_conn e = conn
               \<and> (case er_cid e of None \<Rightarrow> False
                  | Some c \<Rightarrow> starts_with c ''sl-'' \<or> starts_with c ''en-'')) es)))"

definition buying_power_read :: "pyfloat option \<Rightarrow> pyfloat option \<Rightarrow> pyfloat option" where
  "buying_power_read cash equity =
     (let bp = max (num_or0 cash) (fmul (num_or0 equity) (fl (95 / 100))) in if bp = 0 then None else Some bp)"

text \<open>\<open>broker_order_row\<close>: a recorded entry as a row of the table.\<close>

definition broker_order_row :: "string \<Rightarrow> int \<Rightarrow> bentry \<Rightarrow> brow" where
  "broker_order_row conn now e =
     \<lparr>br_conn = conn, br_dep = be_dep e, br_boid = none_if_empty (be_boid e),
      br_cid = none_if_empty (be_cid e), br_sym = be_sym e, br_qty = be_qty e, br_side = be_side e,
      br_type = be_type e, br_limit = be_limit e, br_status = none_if_empty (be_status e),
      br_action = be_action e, br_at = now, br_tag = be_tag e\<rparr>"

text \<open>Symbols a stopped deployment is selling off join the target at zero, and are vouched for.\<close>

definition join_liquidations :: "(sym, pyfloat) dict \<Rightarrow> (sym, pyfloat) dict \<Rightarrow> (sym, pyfloat) dict" where
  "join_liquidations liq desired = foldl (\<lambda>d (k, _). setdefault d k 0) desired liq"

definition liquidation_prices :: "(sym, pyfloat) dict \<Rightarrow> (sym, pyfloat) dict \<Rightarrow> (sym, pyfloat) dict" where
  "liquidation_prices liq px = foldl (\<lambda>d (k, v). if 0 < v then setdefault d k v else d) px liq"

section \<open>Targets and exits agree\<close>

text \<open>While the holdings are folded, the target of a held symbol is the quantity held of it.\<close>

definition tracked :: "folded \<Rightarrow> bool" where
  "tracked st \<longleftrightarrow> (case st of (qtys, desired, px, held) \<Rightarrow>
     \<forall>k. dget_or desired k 0 = dget_or qtys k 0)"

lemma dget_or_dput: "dget_or (dput d k v) j w = (if j = k then v else dget_or d j w)"
  by (simp add: dget_or_def dput_def update_conv')

lemma dkeys_dput: "set (dkeys (dput d k v)) = insert k (set (dkeys d))"
  by (induction d) (auto simp: dput_def dkeys_def)

lemma dkeys_setdefault: "set (dkeys (setdefault d k v)) = insert k (set (dkeys d))"
  by (auto simp: setdefault_def dkeys_dput dget_None_keys)

lemma seeds_zero: "dget_or (seeds us) k 0 = 0" and seeds_keys: "set (dkeys (seeds us)) = upper ` set us"
proof -
  have g: "dget_or (foldl (\<lambda>d u. setdefault d (upper u) 0) d us) k 0 = (0 :: pyfloat)"
    if "\<forall>k. dget_or d k 0 = (0 :: pyfloat)" for d k
    using that by (induction us arbitrary: d) (auto simp: setdefault_def dget_or_dput)
  show "dget_or (seeds us) k 0 = 0" unfolding seeds_def by (rule g) simp
  have "set (dkeys (foldl (\<lambda>d u. setdefault d (upper u) (0 :: pyfloat)) d us)) = set (dkeys d) \<union> upper ` set us" for d
    by (induction us arbitrary: d) (auto simp: dkeys_setdefault)
  then show "set (dkeys (seeds us)) = upper ` set us" by (simp add: seeds_def dkeys_def)
qed

lemma fold_holding_facts:
  assumes "foldl fold_holding st hs = (qtys', desired', px', held')" and "st = (qtys, desired, px, held)"
  shows "tracked st \<Longrightarrow> tracked (foldl fold_holding st hs)" and "set (dkeys desired) \<subseteq> set (dkeys desired')"
proof -
  have one: "tracked (fold_holding st h)" if "tracked st" for st h
    using that by (cases st) (auto simp: tracked_def fold_holding_def Let_def dget_or_dput)
  show "tracked st \<Longrightarrow> tracked (foldl fold_holding st hs)"
    by (induction hs arbitrary: st) (simp_all add: one)
  have keys: "set (dkeys (fst (snd st))) \<subseteq> set (dkeys (fst (snd (foldl fold_holding st hs))))" for st
  proof (induction hs arbitrary: st)
    case (Cons h hs)
    have "set (dkeys (fst (snd st))) \<subseteq> set (dkeys (fst (snd (fold_holding st h))))"
      by (cases st) (auto simp: fold_holding_def Let_def dkeys_dput)
    also have "\<dots> \<subseteq> set (dkeys (fst (snd (foldl fold_holding st (h # hs)))))" using Cons by simp
    finally show ?case .
  qed simp
  show "set (dkeys desired) \<subseteq> set (dkeys desired')" using keys [of st] assms by simp
qed

text \<open>A payload's targets and orders agree: every symbol of the universe has a target, an exit is
wanted only for a symbol whose target is not zero, for exactly that many shares and on the side that
closes it, and every entry wants a positive quantity.\<close>
theorem payload_exits_match_targets:
  "upper ` set universe \<subseteq> set (dkeys (ds_desired (desired_from_payload dep p universe)))
   \<and> list_all (\<lambda>t. let q = dget_or (ds_desired (desired_from_payload dep p universe)) (xw_sym t) 0
        in q \<noteq> 0 \<and> xw_qty t = \<bar>q\<bar> \<and> xw_side t = (if 0 < q then ''sell'' else ''buy'') \<and> xw_dep t = dep)
      (ds_exits (desired_from_payload dep p universe))
   \<and> list_all (\<lambda>t. 0 < xw_qty t \<and> xw_dep t = dep) (ds_entries (desired_from_payload dep p universe))"
proof -
  obtain qtys desired px held where f:
    "foldl fold_holding ([], seeds universe, [], []) (holdings_of p) = (qtys, desired, px, held)"
    by (metis prod_cases4)
  have "tracked ([], seeds universe, [], [])" by (simp add: tracked_def seeds_zero)
  then have t: "dget_or desired k 0 = dget_or qtys k 0" for k
    using fold_holding_facts(1) [OF f refl] f by (auto simp: tracked_def)
  have "upper ` set universe \<subseteq> set (dkeys desired)"
    using fold_holding_facts(2) [OF f refl] by (simp add: seeds_keys)
  then show ?thesis
    by (auto simp: desired_from_payload_def f list_all_iff map_filter_def exit_of_def entry_of_def t Let_def
        split: if_splits)
qed

section \<open>An at-close order goes out once a day\<close>

lemma moc_step_done:
  assumes "(mw_dep t, mw_sym t) \<in> set (cx_moc_done cx)"
  shows "ps_wire (fst (moc_step cx ours (s, native) t)) = ps_wire s"
  using assms by (auto simp: moc_step_def Let_def say_def)

lemma moc_done_member:
  assumes "b \<in> set bs" "br_conn b = conn" "br_action b = ''submit''" "start \<le> br_at b"
    and "br_type b \<in> {''market_on_close'', ''limit_on_close''}" "br_dep b = Some d"
    and "br_status b = Some st" "st \<noteq> ''dry_run''"
  shows "(d, br_sym b) \<in> set (moc_done bs conn start)"
  using assms by (force simp: moc_done_def recent_submits_def map_filter_def image_iff)

text \<open>An at-close order that the table of orders shows submitted today, with the status the venue
answered, is not sent again: no sweep that reads the table puts an order for that deployment and
symbol on the wire in its at-close section, whatever became of the first one.\<close>
theorem at_close_order_goes_out_once:
  assumes "e \<in> set entries" and "be_action e = ''submit''" and "be_dep e = Some (mw_dep t)"
    and "be_sym e = mw_sym t" and "be_type e \<in> {''market_on_close'', ''limit_on_close''}"
    and "be_status e \<noteq> []" and "be_status e \<noteq> ''dry_run''" and "start \<le> now"
    and "cx_moc_done cx = moc_done (bs @ map (broker_order_row conn now) entries @ later) conn start"
  shows "ps_wire (fst (moc_step cx ours (s, native) t)) = ps_wire s"
proof (rule moc_step_done)
  let ?b = "broker_order_row conn now e"
  have "(mw_dep t, br_sym ?b) \<in> set (cx_moc_done cx)"
    unfolding assms(9)
  proof (rule moc_done_member)
    show "?b \<in> set (bs @ map (broker_order_row conn now) entries @ later)" using assms(1) by simp
  qed (use assms in \<open>simp_all add: broker_order_row_def none_if_empty_def\<close>)
  then show "(mw_dep t, mw_sym t) \<in> set (cx_moc_done cx)" using assms(4) by (simp add: broker_order_row_def)
qed

section \<open>A late fill is not traded against\<close>

lemma dget_dput_iff: "dget (dput d k v) j = (if j = k then Some v else dget d j)"
  by (simp add: dget_def dput_def update_conv')

lemma late_overrides:
  assumes "k \<in> set late"
  shows "dget (fold_pending truth_mode filled model late) k = Some None"
proof -
  have "k \<in> set late \<or> dget d k = Some None \<Longrightarrow> dget (foldl (\<lambda>d k. dput d k None) d late) k = Some None"
    for d :: "(sym, pyfloat option) dict"
    by (induction late arbitrary: d) (auto simp: dget_dput_iff)
  then show ?thesis using assms by (simp add: fold_pending_def)
qed

text \<open>A fill of an earlier day that a running deployment has not folded by a clean tick twenty seconds
after it was stored freezes its symbol: no market delta of any size is sent for it.\<close>
theorem late_fill_is_not_traded_against:
  assumes "e \<in> set es" and "er_conn e = conn" and "er_at e < start"
    and "now - LATE_LOOKBACK_US \<le> er_stored e"
    and "d \<in> set running" and "er_dep e = Some (dr_id d)"
    and "stamp (dr_id d) = Some clean" and "clean - er_stored e < LATE_FOLD_MARGIN_US"
    and "cx_fold_pending cx = fold_pending truth_mode filled model (late_fills es running stamp conn start now)"
  shows "fst (delta_verdict cx ours native refused (upper (er_sym e)) want) \<noteq> Send q opens"
proof -
  have "upper (er_sym e) \<in> set (late_fills es running stamp conn start now)"
    using assms by (force simp: late_fills_def)
  then have "fold_explains cx (upper (er_sym e)) delta" for delta
    using late_overrides assms(9) by (simp add: fold_explains_def)
  then show ?thesis
    using send_clear [of cx ours native refused "upper (er_sym e)" want] by (metis prod.collapse)
qed

section \<open>Concrete tables\<close>

definition demo_moc :: mwant where
  "demo_moc = \<lparr>mw_dep = ''d1'', mw_sym = ''A'', mw_qty = 5, mw_kind = ''market_on_close'',
     mw_price = None, mw_rule = None\<rparr>"

definition moc_entry :: "string \<Rightarrow> bentry" where
  "moc_entry status =
     mk_entry ''submit'' ''A'' 5 ''buy'' ''market_on_close'' None [] ''sl-moc-A-d1-x'' status (Some ''d1'') None"

definition moc_ctx :: "string \<Rightarrow> ctx" where
  "moc_ctx status =
     (demo_ctx [] [])\<lparr>cx_moc_done := moc_done [broker_order_row ''c1'' 20 (moc_entry status)] ''c1'' 10\<rparr>"

abbreviation moc_wires :: "string \<Rightarrow> wire list" where
  "moc_wires status \<equiv>
     ps_wire (fst (moc_step (moc_ctx status) [] ((start_pass [] [])\<lparr>ps_budget := 5\<rparr>, []) demo_moc))"

lemma at_close_order_goes_out_once_witness: "moc_wires ''filled'' = []"
  using at_close_order_goes_out_once
    [of "moc_entry ''filled''" "[moc_entry ''filled'']" demo_moc 10 20 "moc_ctx ''filled''" "[]" "''c1''" "[]"
      "[]" "(start_pass [] [])\<lparr>ps_budget := 5\<rparr>" "[]"]
  by (simp add: moc_entry_def mk_entry_def demo_moc_def moc_ctx_def start_pass_def)

text \<open>An order acknowledged without a status is not on the list: the table keeps no status for it.\<close>

lemma at_close_order_without_status_repeats: "length (moc_wires []) = 1"
  by code_simp

definition plain_exec :: "string option \<Rightarrow> int \<Rightarrow> erow" where
  "plain_exec cid at_us =
     \<lparr>er_conn = ''c1'', er_dep = Some ''d1'', er_boid = Some ''o1'', er_eid = ''e1'', er_cid = cid,
      er_sym = ''A'', er_qty = 10, er_price = 100, er_fees = 0, er_at = at_us, er_tag = None,
      er_source = ''broker'', er_avg = False, er_stored = at_us\<rparr>"

definition demo_dep :: deprow where
  "demo_dep = \<lparr>dr_id = ''d1'', dr_live_confirmed = True,
     dr_fills = [\<lparr>sf_sym = Some ''A'', sf_qty = Some 10, sf_day = ''2024-10-02'', sf_confirmed = True\<rparr>],
     dr_last_tick = Some 0\<rparr>"

definition late_ctx :: ctx where
  "late_ctx = (demo_ctx [(''A'', 10)] [])\<lparr>cx_fold_pending :=
     fold_pending ''observe'' [] [] (late_fills [plain_exec None 5] [demo_dep] (\<lambda>_. Some 7) ''c1'' 10 20)\<rparr>"

lemma late_fill_is_not_traded_against_witness:
  "fst (delta_verdict late_ctx [] [] [] (upper (er_sym (plain_exec None 5))) 20) \<noteq> Send 10 False"
  by (rule late_fill_is_not_traded_against [where es = "[plain_exec None 5]" and conn = "''c1''" and start = 10
        and now = 20 and d = demo_dep and running = "[demo_dep]" and stamp = "\<lambda>_. Some 7" and clean = 7
        and truth_mode = "''observe''" and filled = "[]" and model = "[]"])
    (simp_all add: plain_exec_def demo_dep_def late_ctx_def LATE_LOOKBACK_US_def LATE_FOLD_MARGIN_US_def)

text \<open>The fold rail counts only rows with an \<open>sl-\<close> client id.  A venue whose fills carry no client id
  leaves the broker's side of the rail empty, so a fill the sleeve has folded reads as a difference
  of its own size for the rest of the day and holds back a further order of that size.\<close>

definition rail_ctx :: "string option \<Rightarrow> ctx" where
  "rail_ctx cid = open_ctx\<lparr>cx_ad := demo_adapter [(''A'', 10)] [], cx_fold_pending :=
     fold_pending ''enforce'' (exe_sums [plain_exec cid 15] ''c1'' 10)
       (fst (model_folded [owner_of demo_dep ''2024-10-02''])) []\<rparr>"

lemma rail_blind_without_client_ids:
  "delta_verdict (rail_ctx (Some ''sl-mkt-A-1'')) [] [] [] ''A'' 20 = (Send 10 False, False)"
  "delta_verdict (rail_ctx None) [] [] [] ''A'' 20 = (Hold ''broker fills of our own orders'', False)"
  "delta_verdict (rail_ctx (Some ''en-stp-A'')) [] [] [] ''A'' 20
     = (Hold ''broker fills of our own orders'', False)"
  by code_simp+

end
