(* ===== verification/Account.thy ===== *)
theory Account
  imports SweepProps Inputs
begin

text \<open>
  One broker connection: \<open>sync_broker_account\<close> of \<open>dqengine/live/executor.py\<close> with everything it calls -
  the pacing of the sweeps, the gather block and its two-second cache, the poll before or after the
  orders, the read-only audit while the fast path owns the connection, the persistence of the backoff
  and of the report - and the two entries next to it, \<open>handle_intent\<close> and \<open>execute_quote_breach_exit\<close>.
  \<open>acct\<close> is what a connection keeps (tables, live book, pacing, cache), \<open>world\<close> what one call is told
  from outside (clocks, the venue, the rows it reads, what the host installed).  A call is two steps,
  because it waits for the connection's lock in between: \<open>start_sync\<close> up to the lock and
  \<open>finish_sync\<close> under it.  One call reads one instant.
\<close>

section \<open>What a connection keeps\<close>

record verdict_of_poll =
  fv_new :: nat
  fv_skipped :: int
  fv_error :: "string option"

record report =
  rp_fast :: bool
  rp_actions :: "line list"
  rp_errors :: "string list"
  rp_backoff :: "(int \<times> string) option option"
  rp_rate :: bool
  rp_execs :: "verdict_of_poll option"

record cache =
  ca_at :: pyfloat
  ca_moc :: "(string \<times> sym) list"
  ca_refusals :: "(string \<times> sym \<times> string \<times> string \<times> pyfloat option) list"
  ca_qb :: "sym list"
  ca_exe :: "(sym, pyfloat) dict option"
  ca_known :: "sym list"
  ca_late :: "sym list"
  ca_gates :: gates

type_synonym refusal_counts = "(sym \<times> string \<times> pyfloat, int \<times> string) dict"

record acct =
  ac_last :: pyfloat
  ac_cooldown :: pyfloat
  ac_creds_at :: pyfloat
  ac_book :: livebook
  ac_cache :: "cache option"
  ac_backoff :: "(int \<times> string) option"
  ac_retry :: "(string, nat) dict"
  ac_asked :: "int option"
  ac_orders :: "brow list"
  ac_execs :: "erow list"
  ac_journal :: "jrow list"
  ac_refused :: "string \<times> refusal_counts"
  ac_status :: string
  ac_reports :: "(string, report) dict"
  ac_kept_since :: "(sym, pyfloat) dict"

section \<open>What a call is told\<close>

record venue_conn =
  vc_caps :: caps
  vc_session :: "unit outcome"
  vc_positions :: "(sym, pyfloat) dict outcome"
  vc_orders :: "border list outcome"
  vc_call :: "wire list \<Rightarrow> wire \<Rightarrow> venue_out outcome"
  vc_fetch :: "int option \<Rightarrow> (execution list \<times> int) res"
  vc_look :: "string \<Rightarrow> (string option \<times> execution list) option res"

record world =
  wo_now :: pyfloat
  wo_us :: int
  wo_wall :: int
  wo_today0 :: int
  wo_date :: string
  wo_seam :: bool
  wo_creds :: bool
  wo_locked :: bool
  wo_venue :: "venue_conn option"
  wo_settings :: settings
  wo_mode :: string
  wo_truth :: string
  wo_cash :: "pyfloat option"
  wo_equity :: "pyfloat option"
  wo_deps :: "(deprow \<times> payload \<times> sym list) list"
  wo_running :: "deprow list"
  wo_stamp :: "string \<Rightarrow> int option"
  wo_allocs :: "alloc list"
  wo_held :: held
  wo_kept :: "(sym, kept_row) dict option"
  wo_liq :: "(sym, pyfloat) dict"
  wo_combiner :: "(dstate list \<Rightarrow> dstate) option"
  wo_allocate :: "(sym, pyfloat) dict option \<Rightarrow> (sym, pyfloat) dict \<Rightarrow> (line list \<times> string list) res"
  wo_write_down :: "(sym, pyfloat) dict \<Rightarrow> line list res"
  wo_expired :: "string \<Rightarrow> bool"
  wo_uuid :: "nat \<Rightarrow> string"
  wo_sha1_8 :: "string \<Rightarrow> string"
  wo_show :: "pyfloat \<Rightarrow> string"
  wo_show_int :: "int \<Rightarrow> string"
  wo_pool :: nat
  wo_order :: "nat \<Rightarrow> nat list"

definition error_text :: "py_error \<Rightarrow> string" where
  "error_text e =
     (case e of ValueError m \<Rightarrow> m | RuntimeError m \<Rightarrow> m | UnsupportedApiError m \<Rightarrow> m | OrderRejected m \<Rightarrow> m
      | KeyError \<Rightarrow> ''KeyError'' | IndexError \<Rightarrow> ''IndexError'' | TypeError \<Rightarrow> ''TypeError''
      | ZeroDivisionError \<Rightarrow> ''ZeroDivisionError'')"

definition line_text :: "line \<Rightarrow> string" where
  "line_text l = (case l of Line tag k \<Rightarrow> k @ '' '' @ tag)"

definition sync_rails :: "world \<Rightarrow> rails" where
  "sync_rails w =
     rails_from (wo_settings w) (wo_mode w)
       (wo_deps w \<noteq> [] \<and> list_all (\<lambda>(d, _, _). dr_live_confirmed d) (wo_deps w))"

definition polls :: "string \<Rightarrow> bool" where
  "polls truth_mode \<longleftrightarrow> truth_mode \<in> {''observe'', ''enforce''}"

section \<open>Pacing\<close>

definition SYNC_FLOOR_S :: pyfloat where "SYNC_FLOOR_S = 10"

definition RATE_LIMIT_COOLDOWN_S :: pyfloat where "RATE_LIMIT_COOLDOWN_S = 45"

datatype sync_result = Submitted | PassError | Audited | FellBack | Skipped

text \<open>\<open>None\<close> lets the call go on.\<close>

definition admit :: "bool \<Rightarrow> world \<Rightarrow> acct \<Rightarrow> sync_result option \<times> acct" where
  "admit fast w a =
     (if fast
      then let (v, b) = fast_path_ok (wo_seam w) (ac_book a) (wo_now w)
           in (if v \<noteq> FastOk \<or> wo_now w < ac_cooldown a then Some FellBack else None, a\<lparr>ac_book := b\<rparr>)
      else if \<not> in_close_window (wo_wall w)
              \<and> (wo_now w < ac_cooldown a \<or> fsub (wo_now w) (ac_last a) < SYNC_FLOOR_S)
      then (Some Skipped, a)
      else (None, a\<lparr>ac_last := wo_now w\<rparr>))"

section \<open>The gather block\<close>

definition GATHER_TTL_S :: pyfloat where "GATHER_TTL_S = 2"

record gathered =
  ga_moc :: "(string \<times> sym) list"
  ga_refusals :: "(string \<times> sym \<times> string \<times> string \<times> pyfloat option) list"
  ga_qb :: "sym list"
  ga_exe :: "(sym, pyfloat) dict"
  ga_known :: "sym list"
  ga_late :: "sym list"
  ga_gates :: gates

definition usable_cache :: "bool \<Rightarrow> world \<Rightarrow> acct \<Rightarrow> cache option" where
  "usable_cache fast w a =
     (case ac_cache a of
        None \<Rightarrow> None
      | Some c \<Rightarrow> if fast \<and> fsub (wo_now w) (ca_at c) < GATHER_TTL_S then Some c else None)"

definition read_exe :: "string \<Rightarrow> world \<Rightarrow> acct \<Rightarrow> (sym, pyfloat) dict" where
  "read_exe conn w a =
     (if wo_truth w = ''enforce'' then exe_sums (ac_execs a) conn (wo_today0 w) else [])"

definition read_late :: "string \<Rightarrow> world \<Rightarrow> acct \<Rightarrow> sym list" where
  "read_late conn w a =
     (if polls (wo_truth w)
      then late_fills (ac_execs a) (wo_running w) (wo_stamp w) conn (wo_today0 w) (wo_us w) else [])"

definition read_gates :: "string \<Rightarrow> world \<Rightarrow> (sym, sides) dict \<Rightarrow> acct \<Rightarrow> gates \<times> acct" where
  "read_gates conn w side a =
     (let (g, js) = journal_gates_read (ac_journal a) conn (wo_truth w) (wo_today0 w) (wo_us w) side
      in (g, a\<lparr>ac_journal := js\<rparr>))"

definition gather_fresh :: "string \<Rightarrow> world \<Rightarrow> (sym, sides) dict \<Rightarrow> acct \<Rightarrow> gathered \<times> acct" where
  "gather_fresh conn w side a =
     (let managed = (wo_deps w \<noteq> []); (g, a1) = read_gates conn w side a;
          ga = \<lparr>ga_moc = (if managed then moc_done (ac_orders a) conn (wo_today0 w) else []),
                ga_refusals = (if managed then recent_refusals (ac_orders a) conn (wo_today0 w) else []),
                ga_qb = qb_cooldown (ac_orders a) conn (wo_us w), ga_exe = read_exe conn w a,
                ga_known = known_symbols (ac_orders a) (ac_journal a1) (ac_execs a) conn,
                ga_late = read_late conn w a, ga_gates = g\<rparr>
      in (ga, a1\<lparr>ac_cache := Some
            \<lparr>ca_at = wo_now w, ca_moc = ga_moc ga, ca_refusals = ga_refusals ga, ca_qb = ga_qb ga,
             ca_exe = (if wo_truth w = ''enforce'' then Some (ga_exe ga) else None),
             ca_known = ga_known ga, ca_late = ga_late ga, ca_gates = ga_gates ga\<rparr>\<rparr>))"

definition gather :: "string \<Rightarrow> bool \<Rightarrow> world \<Rightarrow> (sym, sides) dict \<Rightarrow> acct \<Rightarrow> gathered \<times> acct" where
  "gather conn fast w side a =
     (case usable_cache fast w a of
        None \<Rightarrow> gather_fresh conn w side a
      | Some c \<Rightarrow>
          (\<lparr>ga_moc = ca_moc c, ga_refusals = ca_refusals c, ga_qb = ca_qb c,
            ga_exe = (if wo_truth w = ''enforce''
                      then (case ca_exe c of Some x \<Rightarrow> x | None \<Rightarrow> read_exe conn w a) else []),
            ga_known = ca_known c, ga_late = (if polls (wo_truth w) then ca_late c else []),
            ga_gates = ca_gates c\<rparr>, a))"

definition folded_today ::
  "string \<Rightarrow> world \<Rightarrow> (sym, pyfloat) dict \<times> (sym, sides) dict" where
  "folded_today conn w =
     (let m = model_folded (map (\<lambda>(d, _, _). owner_of d (wo_date w)) (wo_deps w))
      in if wo_truth w = ''enforce''
         then adjust_model m (allocation_rail_adjust (wo_allocs w) conn (wo_today0 w)
                (map (\<lambda>(d, _, _). dr_id d) (wo_deps w)))
         else m)"

section \<open>Up to the lock\<close>

record started =
  sd_fast :: bool
  sd_world :: world
  sd_venue :: venue_conn
  sd_model :: "(sym, pyfloat) dict"
  sd_side :: "(sym, sides) dict"
  sd_gather :: gathered
  sd_owner_fast :: bool

definition dep_ids :: "world \<Rightarrow> string list" where
  "dep_ids w = map (\<lambda>(d, _, _). dr_id d) (wo_deps w)"

definition put_reports :: "string list \<Rightarrow> (report option \<Rightarrow> report) \<Rightarrow> acct \<Rightarrow> acct" where
  "put_reports deps f a =
     a\<lparr>ac_reports := foldl (\<lambda>d dep. dput d dep (f (dget d dep))) (ac_reports a) deps\<rparr>"

definition new_report :: "bool \<Rightarrow> report" where
  "new_report fast =
     \<lparr>rp_fast = fast, rp_actions = [], rp_errors = [], rp_backoff = None, rp_rate = False, rp_execs = None\<rparr>"

definition no_adapter_report :: "bool \<Rightarrow> report" where
  "no_adapter_report fast =
     (new_report fast)\<lparr>rp_errors := [''no usable adapter''], rp_execs :=
        Some \<lparr>fv_new = 0, fv_skipped = 0, fv_error = Some ''no adapter: the account was not read''\<rparr>\<rparr>"

definition start_sync :: "string \<Rightarrow> bool \<Rightarrow> world \<Rightarrow> acct \<Rightarrow> (sync_result + started) \<times> acct" where
  "start_sync conn fast w a0 =
     (case admit fast w a0 of
        (Some r, a) \<Rightarrow> (Inl r, a)
      | (None, a) \<Rightarrow>
          if \<not> wo_creds w \<or> ac_status a \<in> {''reconnect_needed'', ''error'', ''pending''}
          then (Inl Skipped, a)
          else case wo_venue w of
                 None \<Rightarrow> (Inl Skipped, put_reports (dep_ids w) (\<lambda>_. no_adapter_report fast) a)
               | Some v \<Rightarrow>
                   let (model, side) = folded_today conn w;
                       (ga, a1) = gather conn fast w side a;
                       (own, b) = (if fast then (SeamOff, ac_book a1)
                                   else fast_path_ok (wo_seam w) (ac_book a1) (wo_now w))
                   in (Inr \<lparr>sd_fast = fast, sd_world = w, sd_venue = v, sd_model = model,
                            sd_side = side, sd_gather = ga, sd_owner_fast = (own = FastOk)\<rparr>,
                       a1\<lparr>ac_book := b\<rparr>))"

section \<open>Under the lock\<close>

text \<open>What the locked part of a call accumulates; a raised exception skips the steps after it.\<close>

record run =
  rn_acct :: acct
  rn_report :: report
  rn_raised :: "string option"
  rn_gather :: gathered
  rn_wire :: "wire list"
  rn_records :: "bentry list"
  rn_positions :: "(sym, pyfloat) dict option"
  rn_orders :: "border list option"
  rn_desired :: "(sym, pyfloat) dict"
  rn_kept_now :: "(sym, pyfloat) dict"
  rn_kept_short :: "(sym, int) dict"

definition unless_raised :: "(run \<Rightarrow> run) \<Rightarrow> run \<Rightarrow> run" where
  "unless_raised f r = (if rn_raised r \<noteq> None then r else f r)"

definition on_acct :: "(acct \<Rightarrow> acct) \<Rightarrow> run \<Rightarrow> run" where
  "on_acct f r = r\<lparr>rn_acct := f (rn_acct r)\<rparr>"

definition on_report :: "(report \<Rightarrow> report) \<Rightarrow> run \<Rightarrow> run" where
  "on_report f r = r\<lparr>rn_report := f (rn_report r)\<rparr>"

definition note_line :: "string \<Rightarrow> run \<Rightarrow> run" where
  "note_line tag = on_report (\<lambda>p. p\<lparr>rp_actions := rp_actions p @ [Line tag []]\<rparr>)"

definition note_error :: "string \<Rightarrow> run \<Rightarrow> run" where
  "note_error msg = on_report (\<lambda>p. p\<lparr>rp_errors := rp_errors p @ [take 300 msg]\<rparr>)"

definition outcome_error :: "'a outcome \<Rightarrow> string option" where
  "outcome_error x =
     (case x of Done _ \<Rightarrow> None | BrokerRejected m \<Rightarrow> Some m | BrokerUnavailable m \<Rightarrow> Some m | Raised m \<Rightarrow> Some m)"

text \<open>The session is proved again unless the fast path did so in the last minute.\<close>

definition session_step :: "world \<Rightarrow> started \<Rightarrow> run \<Rightarrow> run" where
  "session_step w sd r =
     (let a = rn_acct r
      in if sd_fast sd \<and> ac_creds_at a \<noteq> 0 \<and> fsub (wo_now w) (ac_creds_at a) < 60 then r
         else case outcome_error (vc_session (sd_venue sd)) of
                Some msg \<Rightarrow> r\<lparr>rn_raised := Some msg\<rparr>
              | None \<Rightarrow> r\<lparr>rn_acct := a\<lparr>ac_creds_at := wo_now w\<rparr>\<rparr>)"

text \<open>\<open>_poll_into\<close>.\<close>

definition poll_into :: "string \<Rightarrow> world \<Rightarrow> started \<Rightarrow> run \<Rightarrow> run" where
  "poll_into conn w sd r =
     (let a = rn_acct r;
          (res, p) = poll (vc_fetch (sd_venue sd)) (ac_orders a) (wo_held w) conn (wo_us w)
            \<lparr>po_execs = ac_execs a, po_journal = ac_journal a, po_book = ac_book a\<rparr>;
          v = (case res of
                 Inl e \<Rightarrow> \<lparr>fv_new = 0, fv_skipped = 0, fv_error = Some (take 300 (error_text e))\<rparr>
               | Inr (n, skipped) \<Rightarrow> \<lparr>fv_new = n, fv_skipped = skipped,
                   fv_error = (if skipped \<noteq> 0 then Some ''rows could not be parsed'' else None)\<rparr>)
      in on_report (\<lambda>rep. rep\<lparr>rp_execs := Some v\<rparr>)
           (r\<lparr>rn_acct := a\<lparr>ac_execs := po_execs p, ac_journal := po_journal p, ac_book := po_book p\<rparr>\<rparr>))"

text \<open>After the poll the gates and the rails are read again, for this pass and for the cache: the mode
  and the start of the day are those the call began with, the clock and the rows are read again.\<close>

definition wo_today_of :: "started \<Rightarrow> world \<Rightarrow> world" where
  "wo_today_of sd w =
     w\<lparr>wo_truth := wo_truth (sd_world sd), wo_today0 := wo_today0 (sd_world sd)\<rparr>"

definition refresh_rails :: "string \<Rightarrow> world \<Rightarrow> started \<Rightarrow> run \<Rightarrow> run" where
  "refresh_rails conn w sd r =
     (let (g, a) = read_gates conn (wo_today_of sd w) (sd_side sd) (rn_acct r);
          exe = read_exe conn (w\<lparr>wo_truth := wo_truth (sd_world sd)\<rparr>) a; late = read_late conn (wo_today_of sd w) a;
          put = (\<lambda>c. c\<lparr>ca_late := late, ca_gates := g,
                       ca_exe := (if wo_truth (sd_world sd) = ''enforce'' then Some exe else None)\<rparr>)
      in r\<lparr>rn_gather := (rn_gather r)\<lparr>ga_gates := g, ga_exe := exe, ga_late := late\<rparr>,
           rn_acct := a\<lparr>ac_cache := map_option put (ac_cache a)\<rparr>\<rparr>)"

definition early_poll :: "string \<Rightarrow> world \<Rightarrow> started \<Rightarrow> run \<Rightarrow> run" where
  "early_poll conn w sd r =
     (let r1 = on_report (\<lambda>p. p\<lparr>rp_execs := Some \<lparr>fv_new = 0, fv_skipped = 0, fv_error = None\<rparr>\<rparr>) r
      in if polls (wo_truth (sd_world sd)) \<and> \<not> sd_fast sd \<and> \<not> in_close_window (wo_wall w)
         then refresh_rails conn w sd (poll_into conn w sd r1) else r1)"

section \<open>The pass\<close>

definition sync_inputs :: "world \<Rightarrow> dstate res" where
  "sync_inputs w =
     connection_inputs (wo_combiner w) (map (\<lambda>(d, p, u). (dr_id d, p, u)) (wo_deps w))"

definition demanded :: "world \<Rightarrow> dstate \<Rightarrow> (sym, pyfloat) dict" where
  "demanded w st = join_liquidations (wo_liq w) (ds_desired st)"

text \<open>What the wrapped adapter answers: the book to the fast path, the venue to an audit; an audit that
  does not transmit answers every mutation with nothing.\<close>

definition wrapped_positions :: "started \<Rightarrow> acct \<Rightarrow> (sym, pyfloat) dict outcome" where
  "wrapped_positions sd a =
     (if sd_fast sd then Done (bk_positions (ac_book a)) else vc_positions (sd_venue sd))"

definition wrapped_orders :: "started \<Rightarrow> acct \<Rightarrow> border list outcome" where
  "wrapped_orders sd a =
     (if sd_fast sd then Done (map snd (bk_open (ac_book a))) else vc_orders (sd_venue sd))"

definition wrapped_call :: "started \<Rightarrow> wire list \<Rightarrow> wire \<Rightarrow> venue_out outcome" where
  "wrapped_call sd = (if sd_owner_fast sd then (\<lambda>_ _. Done None) else vc_call (sd_venue sd))"

definition refused_of :: "string \<Rightarrow> string \<times> refusal_counts \<Rightarrow> refusal_counts" where
  "refused_of date x = (if fst x = date then snd x else [])"

definition pass_ctx ::
  "string \<Rightarrow> world \<Rightarrow> started \<Rightarrow> run \<Rightarrow> dstate \<Rightarrow> (sym, kept_row) dict
     \<Rightarrow> (sym, pyfloat) dict \<Rightarrow> border list \<Rightarrow> ctx" where
  "pass_ctx conn w sd r st kept actual orders =
     (let w0 = sd_world sd; g = rn_gather r; (carved, now_kept, short) = kept_view actual kept
      in \<lparr>cx_ad = \<lparr>ad_caps = vc_caps (sd_venue sd), ad_positions = carved, ad_orders = orders,
             ad_kept_now = now_kept, ad_kept_short = short, ad_call = wrapped_call sd\<rparr>,
           cx_rails = sync_rails w0, cx_conn = (if sd_owner_fast sd then None else Some conn),
           cx_now = wo_us w, cx_wall = wo_wall w, cx_date_iso = wo_date w, cx_uuid = wo_uuid w,
           cx_sha1_8 = wo_sha1_8 w, cx_show = wo_show w, cx_show_int = wo_show_int w,
           cx_px = liquidation_prices (wo_liq w0) (ds_last_px st), cx_gates = ga_gates g,
           cx_fold_pending = fold_pending (wo_truth w0) (ga_exe g) (sd_model sd) (ga_late g),
           cx_qb = ga_qb g, cx_bp = buying_power_read (wo_cash w0) (wo_equity w0),
           cx_moc_done = ga_moc g, cx_recent_refusals = ga_refusals g, cx_counts_refusals = True,
           cx_backoff = ac_backoff (rn_acct r),
           cx_known = Some (ga_known g @ dkeys (wo_liq w0)), cx_pool = wo_pool w, cx_order = wo_order w\<rparr>)"

text \<open>A fetch that fails ends the pass where \<open>reconcile\<close> makes it: after the backoff, before anything is sent.\<close>

definition fetch_fails :: "ctx \<Rightarrow> string \<Rightarrow> pass \<Rightarrow> pass" where
  "fetch_fails cx msg s =
     raise_in msg (enter_backoff cx (s\<lparr>ps_tripped := False, ps_budget := ra_max_orders (cx_rails cx)\<rparr>))"

text \<open>The book follows the calls: \<open>answers\<close> pairs each call with what it was answered.\<close>

definition answers :: "(wire list \<Rightarrow> wire \<Rightarrow> venue_out outcome) \<Rightarrow> wire list \<Rightarrow> (wire \<times> venue_out outcome) list" where
  "answers call ws = map (\<lambda>i. (ws ! i, call (take i ws) (ws ! i))) [0..<length ws]"

definition answering :: "venue_out outcome \<Rightarrow> venue" where
  "answering x =
     (let r = (case outcome_error x of
                 Some m \<Rightarrow> Inl (RuntimeError m)
               | None \<Rightarrow> Inr (case x of Done out \<Rightarrow> out | _ \<Rightarrow> None));
          u = (case r of Inl e \<Rightarrow> Inl e | Inr _ \<Rightarrow> Inr ())
      in \<lparr>v_submit = (\<lambda>_. r), v_cancel = (\<lambda>_. u), v_replace = (\<lambda>_ _ _. u)\<rparr>)"

definition book_wire :: "pyfloat \<Rightarrow> livebook \<Rightarrow> wire \<times> venue_out outcome \<Rightarrow> livebook" where
  "book_wire now b wx =
     (case wx of (wr, x) \<Rightarrow>
        (case wr of
           WSubmit args \<Rightarrow> snd (book_submit (answering x) b args now)
         | WCancel oid \<Rightarrow> snd (book_cancel (answering x) b oid)
         | WReplace oid q lpx \<Rightarrow> snd (book_replace (answering x) b oid (Some (fint q)) lpx)))"

definition audit_wire ::
  "pyfloat \<Rightarrow> auditor \<times> livebook \<Rightarrow> wire \<times> venue_out outcome \<Rightarrow> auditor \<times> livebook" where
  "audit_wire now ub wx =
     (case (ub, wx) of ((u, b), (wr, x)) \<Rightarrow>
        (case wr of
           WSubmit args \<Rightarrow> snd (audit_submit (answering x) u b args now)
         | WCancel oid \<Rightarrow> snd (audit_cancel (answering x) u b oid)
         | WReplace oid q lpx \<Rightarrow> (snd (audit_replace (answering x) u oid (Some (fint q)) lpx), b)))"

definition would_sym :: "would_be \<Rightarrow> sym" where
  "would_sym x = (case x of WouldSubmit k _ _ _ \<Rightarrow> k | WouldCancel k _ \<Rightarrow> k | WouldReplace _ \<Rightarrow> [])"

definition drift :: "auditor \<Rightarrow> sym list \<Rightarrow> would_be list" where
  "drift u settle = filter (\<lambda>x. would_sym x \<noteq> [] \<and> would_sym x \<notin> set settle) (au_recorded u)"

text \<open>What the fetches of this pass gave, and the pass over them.  While the connection is paused or not
  confirmed nothing is fetched.\<close>

definition reconcile_pass ::
  "string \<Rightarrow> world \<Rightarrow> started \<Rightarrow> run \<Rightarrow> dstate \<Rightarrow> (sym, kept_row) dict
     \<Rightarrow> pass \<times> (sym, pyfloat) dict option \<times> border list option" where
  "reconcile_pass conn w sd r st kept =
     (let ra = sync_rails (sd_world sd); s0 = start_pass (ac_journal (rn_acct r))
            (refused_of (wo_date w) (ac_refused (rn_acct r)));
          cx = pass_ctx conn w sd r st kept;
          go = (\<lambda>actual orders. reconcile (cx actual orders) (demanded (sd_world sd) st) (ds_exits st)
                  (ds_closes st) (ds_entries st) s0)
      in if ra_paused ra \<or> \<not> ra_live ra then (go [] [], None, None)
         else case wrapped_positions sd (rn_acct r) of
                Done actual \<Rightarrow>
                  (case wrapped_orders sd (rn_acct r) of
                     Done orders \<Rightarrow> (go actual orders, Some actual, Some orders)
                   | x \<Rightarrow> (fetch_fails (cx actual []) (str_or (outcome_error x)) s0, Some actual, None))
              | x \<Rightarrow> (fetch_fails (cx [] []) (str_or (outcome_error x)) s0, None, None))"

definition apply_fetched ::
  "world \<Rightarrow> (sym, pyfloat) dict option \<Rightarrow> border list option \<Rightarrow> livebook \<Rightarrow> livebook" where
  "apply_fetched w pos orders b =
     (case pos of
        None \<Rightarrow> b
      | Some ps \<Rightarrow> apply_audit b (map (\<lambda>(k, q). (Some k, q)) ps)
                     (case orders of None \<Rightarrow> [] | Some oo \<Rightarrow> oo) (wo_now w))"

definition new_auditor ::
  "bool \<Rightarrow> (sym, pyfloat) dict option \<Rightarrow> border list option \<Rightarrow> auditor" where
  "new_auditor transmit pos orders =
     \<lparr>au_transmit = transmit, au_positions = map_option (map (\<lambda>(k, q). (Some k, q))) pos,
      au_orders = orders, au_recorded = []\<rparr>"

text \<open>The fast path, an audit that transmits, and an audit of a connection the fast path owns.\<close>

definition after_fast :: "world \<Rightarrow> started \<Rightarrow> pass \<Rightarrow> livebook \<Rightarrow> livebook" where
  "after_fast w sd s b =
     foldl (book_wire (wo_now w)) b (answers (vc_call (sd_venue sd)) (ps_wire s))"

definition after_audit ::
  "world \<Rightarrow> started \<Rightarrow> pass \<Rightarrow> (sym, pyfloat) dict option \<Rightarrow> border list option \<Rightarrow> livebook \<Rightarrow> livebook"
where
  "after_audit w sd s pos orders b =
     (let (u, b1) = foldl (audit_wire (wo_now w)) (new_auditor True pos orders, b)
            (answers (vc_call (sd_venue sd)) (ps_wire s))
      in if ps_raised s = None then apply_fetched w pos orders b1 else b1)"

definition drift_why :: string where "drift_why = ''auditor drift: would-be actions''"

definition after_shadow ::
  "world \<Rightarrow> started \<Rightarrow> pass \<Rightarrow> (sym, pyfloat) dict option \<Rightarrow> border list option \<Rightarrow> livebook
     \<Rightarrow> livebook \<times> string list" where
  "after_shadow w sd s pos orders b =
     (if ps_raised s \<noteq> None then (b, [])
      else let (u, b1) = foldl (audit_wire (wo_now w)) (new_auditor False pos orders, b)
                 (answers (wrapped_call sd) (ps_wire s));
               (settle, b2) = recent_symbols b1 (wo_now w);
               b3 = apply_fetched w pos orders b2
           in if drift u settle = [] then (b3, []) else (freeze b3 drift_why, [drift_why]))"

definition decide :: "string \<Rightarrow> world \<Rightarrow> started \<Rightarrow> run \<Rightarrow> run" where
  "decide conn w sd r =
     (case sync_inputs (sd_world sd) of
        Inl e \<Rightarrow> r\<lparr>rn_raised := Some (error_text e)\<rparr>
      | Inr st \<Rightarrow>
          (case wo_kept (sd_world sd) of
             None \<Rightarrow> r\<lparr>rn_raised := Some ''could not read the shares the owner kept''\<rparr>
           | Some kept \<Rightarrow>
               let a = rn_acct r;
                   (s, pos, orders) = reconcile_pass conn w sd r st kept;
                   shadow = sd_owner_fast sd;
                   (b, errs) = (if shadow then after_shadow w sd s pos orders (ac_book a)
                                else if sd_fast sd then (after_fast w sd s (ac_book a), [])
                                else (after_audit w sd s pos orders (ac_book a), []));
                   told = (\<lambda>rep. if shadow
                     then if ps_raised s \<noteq> None then rep
                          else rep\<lparr>rp_errors := rp_errors rep @ errs @ take 5 (map line_text (ps_errors s)),
                                   rp_actions := rp_actions rep
                                     @ Line ''fast path owns transmission'' [] # take 20 (ps_actions s)\<rparr>
                     else rep\<lparr>rp_errors := rp_errors rep @ map line_text (ps_errors s),
                              rp_actions := rp_actions rep @ ps_actions s,
                              rp_backoff := ps_backoff s, rp_rate := ps_rate_refused s\<rparr>)
               in (on_report told r)
                    \<lparr>rn_acct := a\<lparr>ac_journal := ps_journal s, ac_refused := (wo_date w, ps_refused s),
                                  ac_book := b\<rparr>,
                     rn_wire := (if shadow then [] else ps_wire s),
                     rn_records := (if shadow then [] else ps_records s), rn_raised := ps_raised s,
                     rn_positions := (if sd_fast sd then None else pos),
                     rn_orders := (if sd_fast sd then None else orders),
                     rn_desired := demanded (sd_world sd) st,
                     rn_kept_now := (case pos of None \<Rightarrow> [] | Some ps \<Rightarrow> fst (snd (kept_view ps kept))),
                     rn_kept_short := (case pos of None \<Rightarrow> [] | Some ps \<Rightarrow> snd (snd (kept_view ps kept)))\<rparr>))"

section \<open>After the pass\<close>

definition late_poll :: "string \<Rightarrow> world \<Rightarrow> started \<Rightarrow> run \<Rightarrow> run" where
  "late_poll conn w sd r =
     (if polls (wo_truth (sd_world sd)) \<and> \<not> sd_fast sd \<and> in_close_window (wo_wall w)
      then poll_into conn w sd r else r)"

text \<open>\<open>_recover_into\<close>: recovered fills throw the gathered rails away and close the fast path.\<close>

definition recover_into :: "string \<Rightarrow> world \<Rightarrow> started \<Rightarrow> run \<Rightarrow> run" where
  "recover_into conn w sd r =
     (if \<not> polls (wo_truth (sd_world sd)) \<or> sd_fast sd then r
      else let a = rn_acct r
           in case recover_earlier_fills (vc_caps (sd_venue sd)) (vc_look (sd_venue sd)) (wo_held w) conn
                     (rn_orders r) (wo_us w) (wo_today0 w) (ac_asked a) (ac_orders a)
                     \<lparr>po_execs = ac_execs a, po_journal = ac_journal a, po_book = ac_book a\<rparr> of
                (res, asked, bs, p) \<Rightarrow>
                  let r1 = r\<lparr>rn_acct := a\<lparr>ac_asked := asked, ac_orders := bs, ac_execs := po_execs p,
                                 ac_journal := po_journal p, ac_book := po_book p\<rparr>\<rparr>
                  in case res of
                       Inl e \<Rightarrow> note_error (''could not look up an earlier order: '' @ error_text e) r1
                     | Inr None \<Rightarrow> r1
                     | Inr (Some got) \<Rightarrow>
                         if rv_new got = 0 then r1
                         else on_acct (\<lambda>a. a\<lparr>ac_cache := None,
                                         ac_book := freeze (ac_book a) (''fill of earlier order '' @ rv_cid got)\<rparr>)
                                (note_line ''recovered fills of an earlier order'' r1))"

definition allocate_into :: "world \<Rightarrow> started \<Rightarrow> run \<Rightarrow> run" where
  "allocate_into w sd r =
     (if wo_truth (sd_world sd) \<noteq> ''enforce'' \<or> sd_fast sd then r
      else case wo_allocate w
                  (map_option (\<lambda>ps. carve_kept ps (case wo_kept (sd_world sd) of Some k \<Rightarrow> k | None \<Rightarrow> []))
                     (rn_positions r)) (rn_desired r) of
             Inl e \<Rightarrow> note_error (''fill allocation failed: '' @ error_text e) r
           | Inr (lines, errs) \<Rightarrow>
               on_report (\<lambda>p. p\<lparr>rp_actions := rp_actions p @ take 20 lines,
                               rp_errors := rp_errors p @ take 5 errs\<rparr>) r)"

definition KEPT_WRITE_DOWN_AFTER_S :: pyfloat where "KEPT_WRITE_DOWN_AFTER_S = 120"

text \<open>\<open>_kept_self_heal\<close>: since when each short symbol has been short, and which are due.\<close>

definition kept_watch ::
  "pyfloat \<Rightarrow> sym list \<Rightarrow> sym list \<Rightarrow> (sym, pyfloat) dict \<Rightarrow> (sym, pyfloat) dict" where
  "kept_watch now short pending since =
     foldl (\<lambda>d k. if k \<in> set pending then ddel d k else setdefault d k now)
       (filter (\<lambda>(k, _). k \<in> set short) since) short"

definition kept_due :: "pyfloat \<Rightarrow> sym list \<Rightarrow> (sym, pyfloat) dict \<Rightarrow> sym list" where
  "kept_due now short since =
     filter (\<lambda>k. case dget since k of
        None \<Rightarrow> False | Some first \<Rightarrow> KEPT_WRITE_DOWN_AFTER_S \<le> fsub now first) short"

definition exec_error :: "report \<Rightarrow> string option" where
  "exec_error p = (case rp_execs p of None \<Rightarrow> None | Some v \<Rightarrow> fv_error v)"

definition kept_self_heal :: "world \<Rightarrow> started \<Rightarrow> run \<Rightarrow> run" where
  "kept_self_heal w sd r =
     (if wo_truth (sd_world sd) \<noteq> ''enforce'' \<or> sd_fast sd then r
      else let a = rn_acct r; short = dkeys (rn_kept_short r);
               gone = filter (\<lambda>(k, _). k \<in> set short) (ac_kept_since a);
               pending = dkeys (fold_pending (wo_truth (sd_world sd)) (ga_exe (rn_gather r)) (sd_model sd)
                                  (ga_late (rn_gather r)))
           in if short = [] \<or> truthy (exec_error (rn_report r))
              then r\<lparr>rn_acct := a\<lparr>ac_kept_since := gone\<rparr>\<rparr>
              else let since = kept_watch (wo_now w) short pending (ac_kept_since a);
                       due = kept_due (wo_now w) short since;
                       r1 = r\<lparr>rn_acct := a\<lparr>ac_kept_since := since\<rparr>\<rparr>
                   in if due = [] then r1
                      else case wo_write_down w (map (\<lambda>k. (k, dget_or (rn_kept_now r) k 0)) due) of
                             Inl e \<Rightarrow> note_error (''kept-share write-down failed: '' @ error_text e) r1
                           | Inr lines \<Rightarrow>
                               on_report (\<lambda>p. p\<lparr>rp_actions := rp_actions p @ take 10 lines\<rparr>)
                                 (r1\<lparr>rn_acct := a\<lparr>ac_kept_since := foldl ddel since due\<rparr>\<rparr>))"

definition recovery_line :: "recovery \<Rightarrow> report \<Rightarrow> report" where
  "recovery_line x p =
     (case x of
        Reopened k cid \<Rightarrow> p\<lparr>rp_actions := rp_actions p @ [Line ''journal row re-opened'' k]\<rparr>
      | AbandonedRow k cid \<Rightarrow> p\<lparr>rp_errors := rp_errors p @ [k @ '' ABANDONED'']\<rparr>)"

definition journal_recovery :: "string \<Rightarrow> world \<Rightarrow> started \<Rightarrow> run \<Rightarrow> run" where
  "journal_recovery conn w sd r =
     (if sd_fast sd then r
      else let (js, acts) = resolve_stale (ac_journal (rn_acct r)) conn (rn_orders r)
                 (polls (wo_truth (sd_world sd)) \<and> exec_error (rn_report r) = None) (wo_us w)
           in on_report (\<lambda>p. foldl (\<lambda>p x. recovery_line x p) p acts)
                (on_acct (\<lambda>a. a\<lparr>ac_journal := js\<rparr>) r))"

text \<open>The tail runs for every call that got the lock, also after an exception.\<close>

definition settle_exception :: "world \<Rightarrow> run \<Rightarrow> run" where
  "settle_exception w r =
     (case rn_raised r of
        None \<Rightarrow> r
      | Some msg \<Rightarrow>
          note_error msg
            (if wo_expired w msg then on_acct (\<lambda>a. a\<lparr>ac_status := ''reconnect_needed''\<rparr>) r else r))"

definition keep_backoff :: "run \<Rightarrow> run" where
  "keep_backoff r =
     (case rp_backoff (rn_report r) of
        None \<Rightarrow> r | Some x \<Rightarrow> on_acct (\<lambda>a. a\<lparr>ac_backoff := x\<rparr>) r)"

definition no_poll :: verdict_of_poll where
  "no_poll = \<lparr>fv_new = 0, fv_skipped = 0,
     fv_error = Some ''sweep aborted before the executions poll''\<rparr>"

definition default_execs :: "run \<Rightarrow> run" where
  "default_execs =
     on_report (\<lambda>p. p\<lparr>rp_execs := Some (case rp_execs p of Some v \<Rightarrow> v | None \<Rightarrow> no_poll)\<rparr>)"

definition rate_step :: "string \<Rightarrow> world \<Rightarrow> run \<Rightarrow> run" where
  "rate_step conn w r =
     (let a = rn_acct r;
          r1 = (if rp_rate (rn_report r)
                then let (delay, used) = schedule_rate_retry (ac_retry a) conn (wo_wall w);
                         r' = r\<lparr>rn_acct := a\<lparr>ac_retry := used\<rparr>\<rparr>
                     in if delay = None then r' else note_line ''order refused for rate limit - retrying'' r'
                else if \<not> in_close_window (wo_wall w)
                then r\<lparr>rn_acct := a\<lparr>ac_retry := ddel (ac_retry a) conn\<rparr>\<rparr> else r)
      in if rate_limited (rp_errors (rn_report r1)) (exec_error (rn_report r1))
         then note_line ''sync paused - broker rate limit''
                (on_acct (\<lambda>a. a\<lparr>ac_cooldown := fadd (wo_now w) RATE_LIMIT_COOLDOWN_S\<rparr>) r1)
         else r1)"

text \<open>The fast path never polls, so it carries the last poll verdict forward.\<close>

definition stored_report :: "bool \<Rightarrow> report \<Rightarrow> report option \<Rightarrow> report" where
  "stored_report fast rep old =
     (case old of
        None \<Rightarrow> rep
      | Some p \<Rightarrow> if fast \<and> rp_execs p \<noteq> None then rep\<lparr>rp_execs := rp_execs p\<rparr> else rep)"

definition write_rows :: "string \<Rightarrow> world \<Rightarrow> started \<Rightarrow> run \<Rightarrow> acct" where
  "write_rows conn w sd r =
     put_reports (dep_ids (sd_world sd)) (stored_report (sd_fast sd) (rn_report r))
       ((rn_acct r)\<lparr>ac_orders := ac_orders (rn_acct r)
           @ map (broker_order_row conn (wo_us w)) (rn_records r)\<rparr>)"

section \<open>The call\<close>

definition start_run :: "started \<Rightarrow> acct \<Rightarrow> run" where
  "start_run sd a =
     \<lparr>rn_acct = a, rn_report = new_report (sd_fast sd), rn_raised = None, rn_gather = sd_gather sd,
      rn_wire = [], rn_records = [], rn_positions = None, rn_orders = None, rn_desired = [],
      rn_kept_now = [], rn_kept_short = []\<rparr>"

definition locked_steps :: "string \<Rightarrow> world \<Rightarrow> started \<Rightarrow> (run \<Rightarrow> run) list" where
  "locked_steps conn w sd =
     [session_step w sd, early_poll conn w sd, decide conn w sd, late_poll conn w sd,
      recover_into conn w sd, allocate_into w sd, kept_self_heal w sd, journal_recovery conn w sd]"

definition locked_run :: "string \<Rightarrow> world \<Rightarrow> started \<Rightarrow> acct \<Rightarrow> run" where
  "locked_run conn w sd a = foldl (\<lambda>r f. unless_raised f r) (start_run sd a) (locked_steps conn w sd)"

definition finish_sync ::
  "string \<Rightarrow> world \<Rightarrow> started \<Rightarrow> acct \<Rightarrow> sync_result \<times> acct \<times> wire list" where
  "finish_sync conn w sd a =
     (let no = (if sd_fast sd then FellBack else Skipped);
          (v, b) = (if sd_fast sd then fast_path_ok (wo_seam w) (ac_book a) (wo_now w) else (FastOk, ac_book a))
      in if \<not> wo_locked w then (no, a, [])
         else if v \<noteq> FastOk then (FellBack, a\<lparr>ac_book := b\<rparr>, [])
         else let r = locked_run conn w sd (a\<lparr>ac_book := b\<rparr>);
                  r1 = rate_step conn w (default_execs (keep_backoff (settle_exception w r)))
              in (if \<not> sd_fast sd then Audited else if rn_raised r = None then Submitted else PassError,
                  write_rows conn w sd r1, rn_wire r))"

text \<open>A call nobody else's call comes between, and the two entries of the module.\<close>

definition sync_broker_account ::
  "string \<Rightarrow> bool \<Rightarrow> world \<Rightarrow> acct \<Rightarrow> sync_result \<times> acct \<times> wire list" where
  "sync_broker_account conn fast w a =
     (case start_sync conn fast w a of
        (Inl res, a1) \<Rightarrow> (res, a1, [])
      | (Inr sd, a1) \<Rightarrow> finish_sync conn w sd a1)"

definition handle_intent ::
  "string \<Rightarrow> (acct \<Rightarrow> acct \<times> wire list) \<Rightarrow> world \<Rightarrow> acct \<Rightarrow> sync_result option \<times> acct \<times> wire list" where
  "handle_intent conn full_pass w a =
     (case sync_broker_account conn True w a of
        (res, a1, ws) \<Rightarrow>
          if res = Submitted then (None, a1, ws)
          else case full_pass a1 of (a2, ws') \<Rightarrow> (Some res, a2, ws @ ws'))"

section \<open>The quote-driven exit\<close>

text \<open>\<open>execute_quote_breach_exit\<close>: a market exit outside the sweep, the locks, the journal and the book; its own
  recorded row is what keeps it from going out twice.\<close>

definition qb_recent :: "brow list \<Rightarrow> string \<Rightarrow> string \<Rightarrow> sym \<Rightarrow> int \<Rightarrow> bool" where
  "qb_recent bs conn dep k now \<longleftrightarrow>
     list_ex (\<lambda>b. br_conn b = conn \<and> br_dep b = Some dep \<and> br_sym b = k \<and> br_action b = ''submit''
                  \<and> (case br_cid b of None \<Rightarrow> False | Some c \<Rightarrow> starts_with c ''sl-qb-'')
                  \<and> now - QB_COOLDOWN_US \<le> br_at b) bs"

definition qb_entry :: "sym \<Rightarrow> pyfloat \<Rightarrow> string \<Rightarrow> string \<Rightarrow> string \<Rightarrow> string option \<Rightarrow> bentry" where
  "qb_entry k q side cid dep rule =
     mk_entry ''submit'' k q side ''market'' None [] cid [] (Some dep) rule"

definition qb_args :: "sym \<Rightarrow> pyfloat \<Rightarrow> string \<Rightarrow> string \<Rightarrow> sub_args" where
  "qb_args k q side cid =
     \<lparr>sa_sym = k, sa_qty = q, sa_side = side, sa_type = ''market'', sa_tif = ''day'', sa_limit = None,
      sa_stop = None, sa_trail = None, sa_ext = False, sa_cid = Some cid, sa_opens_short = False\<rparr>"

definition execute_quote_breach_exit ::
  "string \<Rightarrow> world \<Rightarrow> bool \<Rightarrow> string \<Rightarrow> sym \<Rightarrow> pyfloat \<Rightarrow> string option \<Rightarrow> acct
     \<Rightarrow> bentry option outcome \<times> acct \<times> wire list" where
  "execute_quote_breach_exit conn w confirmed dep symbol q rule a =
     (let k = upper symbol; ra = rails_from (wo_settings w) (wo_mode w) confirmed
      in if \<bar>q\<bar> \<le> 0 \<or> \<not> wo_creds w \<or> ac_status a \<in> {''reconnect_needed'', ''error'', ''pending''}
         then (Done None, a, [])
         else case wo_venue w of
                None \<Rightarrow> (Done None, a, [])
              | Some v \<Rightarrow>
                  let qty = round_step \<bar>q\<bar> (cp_qty_step (vc_caps v));
                      side = (if q < 0 then ''sell'' else ''buy'');
                      cid = ''sl-qb-'' @ k @ ''-'' @ take 8 dep @ ''-'' @ take 8 (wo_uuid w 0);
                      e = qb_entry k qty side cid dep rule;
                      wire = WSubmit (qb_args k qty side cid);
                      store = (\<lambda>e. a\<lparr>ac_orders := ac_orders a @ [broker_order_row conn (wo_us w) e]\<rparr>)
                  in if ra_paused ra \<or> \<not> ra_live ra \<or> qb_recent (ac_orders a) conn dep k (wo_us w) \<or> qty \<le> 0
                     then (Done None, a, [])
                     else if ra_dry_run ra
                     then let e' = e\<lparr>be_status := ''dry_run''\<rparr> in (Done (Some e'), store e', [])
                     else case vc_call v [] wire of
                            Done out \<Rightarrow> let e' = acked e out in (Done (Some e'), store e', [wire])
                          | BrokerRejected m \<Rightarrow>
                              let e' = e\<lparr>be_action := ''refused'', be_status := take 120 m\<rparr>
                              in (Done (Some e'), store e', [wire])
                          | BrokerUnavailable m \<Rightarrow> (BrokerUnavailable m, a, [wire])
                          | Raised m \<Rightarrow> (Raised m, a, [wire]))"

section \<open>Health counters\<close>

record journal_counts =
  jc_open :: nat
  jc_unresolved :: nat
  jc_abandoned :: nat

definition journal_health :: "jrow list \<Rightarrow> int \<Rightarrow> int \<Rightarrow> journal_counts" where
  "journal_health js now today0 =
     \<lparr>jc_open = length (filter (\<lambda>r. j_open (jr_state r)) js),
      jc_unresolved = length (filter (\<lambda>r. jr_state r = JSending \<and> j_age_over now r ACK_DEADLINE_S) js),
      jc_abandoned = length (filter (\<lambda>r. jr_state r = JAbandoned
         \<and> (case jr_created r of None \<Rightarrow> False | Some c \<Rightarrow> today0 \<le> c)) js)\<rparr>"

end
