(* ===== verification/AccountProps.thy ===== *)
theory AccountProps
  imports Account
begin

text \<open>
  What a connection promises over any interleaving of its calls.  A \<open>machine\<close> is the connection with the
  calls that wait for its lock; each step starts a call or finishes a waiting one.  Per call: when it may
  transmit, what a fast pass leaves of the last poll, what pacing lets in.  Over runs: every client id
  goes out once, and audits keep their distance.
\<close>

section \<open>Frames of the locked steps\<close>

definition akeys :: "acct \<Rightarrow> (string \<times> string) list" where
  "akeys a = map jkey (ac_journal a)"

named_theorems acct_frames \<open>what a step of a call leaves alone\<close>

lemma gates_read_keys: "map jkey (snd (journal_gates_read js conn tm start now side)) = map jkey js"
proof -
  have "map jkey (fst (foldl (lift_fold conn side) (js, g) xs)) = map jkey js" for g xs
    by (induction xs arbitrary: js g) (simp_all add: lift_fold_def split: prod.split)
  then show ?thesis
    by (auto simp: journal_gates_read_def Let_def split: prod.split) (metis fst_conv)
qed

lemma store_keys: "map jkey (fst (snd (store bs h conn now (es, js) rows))) = map jkey js"
proof -
  obtain new where "store bs h conn now (es, js) rows
      = (es @ new, foldl (\<lambda>j e. fold_execution j conn (er_cid e) (er_boid e) (er_qty e)) js new, new)"
    by (rule store_rows)
  moreover have "map jkey (foldl (\<lambda>j e. fold_execution j conn (er_cid e) (er_boid e) (er_qty e)) js new)
      = map jkey js" for new :: "erow list"
    by (induction new arbitrary: js) simp_all
  ultimately show ?thesis by simp
qed

lemma store_keysD: "store bs h conn now (es, js) rows = (es', js', new) \<Longrightarrow> map jkey js' = map jkey js"
  using store_keys [of bs h conn now es js rows] by simp

lemma poll_keys: "map jkey (po_journal (snd (poll fetch bs h conn now p))) = map jkey (po_journal p)"
  by (auto simp: poll_def dest: store_keysD split: sum.split prod.split)

lemma recover_keys:
  "map jkey (po_journal (snd (snd (snd (recover_earlier_fills c look h conn oo now t0 asked bs p)))))
     = map jkey (po_journal p)"
  by (auto simp: recover_earlier_fills_def Let_def dest: store_keysD
      split: option.split sum.split prod.split)

lemma report_frames [simp]:
  "rn_acct (on_report f r) = rn_acct r" "rn_wire (on_report f r) = rn_wire r"
  "rn_raised (on_report f r) = rn_raised r" "rn_records (on_report f r) = rn_records r"
  "rn_acct (note_line t r) = rn_acct r" "rn_wire (note_line t r) = rn_wire r"
  "rn_acct (note_error t r) = rn_acct r" "rn_wire (note_error t r) = rn_wire r"
  "rn_acct (on_acct g r) = g (rn_acct r)" "rn_wire (on_acct g r) = rn_wire r"
  by (simp_all add: on_report_def on_acct_def note_line_def note_error_def)

text \<open>Every step but the pass itself leaves the journal's keys and the wire alone.\<close>

definition quiet :: "(run \<Rightarrow> run) \<Rightarrow> bool" where
  "quiet f \<longleftrightarrow> (\<forall>r. akeys (rn_acct (f r)) = akeys (rn_acct r) \<and> rn_wire (f r) = rn_wire r)"

lemma read_gates_keys: "akeys (snd (read_gates conn w side a)) = akeys a"
  using gates_read_keys by (auto simp: read_gates_def akeys_def split: prod.split) (metis snd_conv)

lemma poll_into_quiet: "quiet (poll_into conn w sd)"
  using poll_keys by (auto simp: quiet_def poll_into_def akeys_def split_beta Let_def)

lemma refresh_quiet: "quiet (refresh_rails conn w sd)"
  using read_gates_keys by (auto simp: quiet_def refresh_rails_def akeys_def split_beta Let_def)

lemma early_poll_quiet: "quiet (early_poll conn w sd)"
  using refresh_quiet poll_into_quiet by (simp add: quiet_def early_poll_def Let_def)

lemma late_poll_quiet: "quiet (late_poll conn w sd)"
  using poll_into_quiet by (simp add: quiet_def late_poll_def)

lemma session_quiet: "quiet (session_step w sd)"
  by (auto simp: quiet_def session_step_def akeys_def Let_def split: option.split)

lemma allocate_quiet: "quiet (allocate_into w sd)"
  by (auto simp: quiet_def allocate_into_def split: sum.split)

lemma heal_quiet: "quiet (kept_self_heal w sd)"
  unfolding quiet_def
proof
  fix r
  show "akeys (rn_acct (kept_self_heal w sd r)) = akeys (rn_acct r)
      \<and> rn_wire (kept_self_heal w sd r) = rn_wire r"
    unfolding kept_self_heal_def Let_def by (simp add: akeys_def split: sum.split)
qed

lemma recovery_quiet: "quiet (journal_recovery conn w sd)"
  using resolve_keys by (simp add: quiet_def journal_recovery_def akeys_def split_beta)

lemma tail_quiet:
  "quiet (settle_exception w)" "quiet keep_backoff" "quiet default_execs" "quiet (rate_step conn w)"
  by (simp_all add: quiet_def settle_exception_def keep_backoff_def default_execs_def rate_step_def akeys_def
      Let_def split_beta split: option.split)

lemma recover_quiet: "quiet (recover_into conn w sd)"
proof -
  have "akeys (rn_acct (recover_into conn w sd r)) = akeys (rn_acct r)
      \<and> rn_wire (recover_into conn w sd r) = rn_wire r" for r
  proof -
    let ?x = "recover_earlier_fills (vc_caps (sd_venue sd)) (vc_look (sd_venue sd)) (wo_held w) conn
      (rn_orders r) (wo_us w) (wo_today0 w) (ac_asked (rn_acct r)) (ac_orders (rn_acct r))
      \<lparr>po_execs = ac_execs (rn_acct r), po_journal = ac_journal (rn_acct r), po_book = ac_book (rn_acct r)\<rparr>"
    obtain res asked bs p where x: "?x = (res, asked, bs, p)" using prod_cases4 by blast
    then have "map jkey (po_journal p) = akeys (rn_acct r)"
      using recover_keys [of "vc_caps (sd_venue sd)" "vc_look (sd_venue sd)" "wo_held w" conn "rn_orders r"
          "wo_us w" "wo_today0 w" "ac_asked (rn_acct r)" "ac_orders (rn_acct r)"] by (metis akeys_def polled.select_convs(2) snd_conv)
    then show ?thesis
      by (auto simp: recover_into_def x akeys_def Let_def split: sum.split option.split)
  qed
  then show ?thesis by (simp add: quiet_def)
qed

section \<open>What the pass does to the journal\<close>

text \<open>A pass without a connection, the read-only audit, writes no journal row.\<close>

definition unlogged :: "ctx \<Rightarrow> jrow list \<Rightarrow> string list \<Rightarrow> pass \<Rightarrow> bool" where
  "unlogged cx js ks s \<longleftrightarrow> (cx_conn cx = None \<longrightarrow> ps_journal s = js)"

lemma unlogged_fire: "cx_conn cx = None \<Longrightarrow> ps_journal (snd (perform cx m e s)) = ps_journal s"
  by (simp add: perform_def journal_before_def after_call_def journal_after_def journal_cancel_def Let_def
      core_simps split_beta split: outcome.split)

interpretation unlogged: pass_law cx "unlogged cx js" for cx js
  by unfold_locales (auto simp: unlogged_def same_core_def unlogged_fire)

lemma sweep_unlogged:
  assumes "pool_ok cx" and "cx_conn cx = None"
  shows "ps_journal (sweep cx desired exits mocs entries js refused) = js"
proof -
  have "unlogged cx js [] (sweep_orders cx desired exits mocs entries (armed cx js refused))"
    by (rule unlogged.sweep_keeps [OF assms(1)]) (simp add: unlogged_def core_simps)
  then show ?thesis
    using sweep_core [of cx desired exits mocs entries js refused] assms(2)
    by (auto simp: unlogged_def same_core_def)
qed

lemma sweep_sent:
  assumes "pool_ok cx" and "cx_conn cx = Some conn" and "journal_ok js"
  shows "sent_once conn (map jkey js) [] (sweep cx desired exits mocs entries js refused)"
proof -
  have "sent_once_if cx (map jkey js) [] (sweep_orders cx desired exits mocs entries (armed cx js refused))"
    by (rule once.sweep_keeps [OF assms(1)])
      (use assms(3) in \<open>simp add: sent_once_if_def sent_once_def core_simps\<close>)
  then show ?thesis
    using sweep_core [of cx desired exits mocs entries js refused] assms(2,3)
    by (auto simp: sent_once_if_def sent_once_def same_core_def)
qed

lemma fetch_fails_core:
  "ps_wire (fetch_fails cx msg (start_pass js refused)) = []"
  "ps_journal (fetch_fails cx msg (start_pass js refused)) = js"
  by (simp_all add: fetch_fails_def enter_backoff_def core_simps split: option.split)

text \<open>A pool runs every order of a wave once.\<close>

definition fair_pool :: "world \<Rightarrow> bool" where
  "fair_pool w \<longleftrightarrow> (\<forall>n. mset (wo_order w n) = mset [0..<n])"

lemma pass_ctx_simps:
  "pool_ok (pass_ctx conn w sd r st kept actual orders) = fair_pool w"
  "cx_conn (pass_ctx conn w sd r st kept actual orders) = (if sd_owner_fast sd then None else Some conn)"
  "cx_rails (pass_ctx conn w sd r st kept actual orders) = sync_rails (sd_world sd)"
  by (simp_all add: pass_ctx_def kept_view_def Let_def pool_ok_def fair_pool_def)

lemma reconcile_pass_sent:
  assumes "fair_pool w" and "reconcile_pass conn w sd r st kept = (s, pos, orders)"
  shows "sd_owner_fast sd \<Longrightarrow> ps_journal s = ac_journal (rn_acct r)"
    and "\<not> sd_owner_fast sd \<Longrightarrow> journal_ok (ac_journal (rn_acct r))
      \<Longrightarrow> sent_once conn (akeys (rn_acct r)) [] s"
proof -
  let ?js = "ac_journal (rn_acct r)" and ?rf = "refused_of (wo_date w) (ac_refused (rn_acct r))"
  consider (swept) actual oo where "s = sweep (pass_ctx conn w sd r st kept actual oo)
      (demanded (sd_world sd) st) (ds_exits st) (ds_closes st) (ds_entries st) ?js ?rf"
    | (failed) actual msg where "s = fetch_fails (pass_ctx conn w sd r st kept actual []) msg (start_pass ?js ?rf)"
    using assms(2) unfolding reconcile_pass_def Let_def by (auto split: if_splits outcome.splits)
  note cases = this
  show "ps_journal s = ?js" if "sd_owner_fast sd"
    using cases by cases (use that assms(1) in \<open>simp_all add: sweep_unlogged pass_ctx_simps fetch_fails_core\<close>)
  show "sent_once conn (akeys (rn_acct r)) [] s" if "\<not> sd_owner_fast sd" "journal_ok ?js"
    using cases
  proof cases
    case swept
    show ?thesis
      unfolding swept akeys_def by (rule sweep_sent) (use that assms(1) in \<open>simp_all add: pass_ctx_simps\<close>)
  next
    case failed
    then show ?thesis using that by (simp add: akeys_def fetch_fails_core sent_once_def)
  qed
qed

definition call_ok :: "string \<Rightarrow> (string \<times> string) list \<Rightarrow> acct \<Rightarrow> wire list \<Rightarrow> bool" where
  "call_ok conn old a ws \<longleftrightarrow>
     distinct (akeys a) \<and> distinct (wire_cids ws) \<and> set old \<subseteq> set (akeys a)
     \<and> (\<forall>c \<in> set (wire_cids ws). (conn, c) \<in> set (akeys a) \<and> (conn, c) \<notin> set old)"

lemma decide_sends:
  assumes "fair_pool w" and "distinct (akeys (rn_acct r))" and "rn_wire r = []"
  shows "call_ok conn (akeys (rn_acct r)) (rn_acct (decide conn w sd r)) (rn_wire (decide conn w sd r))"
proof (cases "sync_inputs (sd_world sd)")
  case (Inl e)
  then show ?thesis using assms by (simp add: decide_def call_ok_def akeys_def)
next
  case st: (Inr st)
  show ?thesis
  proof (cases "wo_kept (sd_world sd)")
    case None
    then show ?thesis using st assms by (simp add: decide_def call_ok_def akeys_def)
  next
    case (Some kept)
    obtain s pos orders where p: "reconcile_pass conn w sd r st kept = (s, pos, orders)"
      using prod_cases3 by blast
    have "akeys (rn_acct (decide conn w sd r)) = map jkey (ps_journal s)"
      "rn_wire (decide conn w sd r) = (if sd_owner_fast sd then [] else ps_wire s)"
      by (simp_all add: decide_def st Some p akeys_def Let_def split_beta)
    then show ?thesis
      using reconcile_pass_sent [OF assms(1) p] assms(2)
      by (cases "sd_owner_fast sd") (auto simp: call_ok_def sent_once_def journal_ok_def akeys_def)
  qed
qed

section \<open>A call sends each id once\<close>

lemma call_ok_quiet:
  assumes "call_ok conn old (rn_acct r) (rn_wire r)" and "quiet f"
  shows "call_ok conn old (rn_acct (f r)) (rn_wire (f r))"
  using assms by (simp add: call_ok_def quiet_def)

lemma unless_raised_quiet: "quiet f \<Longrightarrow> quiet (unless_raised f)"
  by (simp add: quiet_def unless_raised_def)

lemma call_ok_steps:
  assumes "call_ok conn old (rn_acct r) (rn_wire r)" and "list_all quiet fs"
  shows "call_ok conn old (rn_acct (foldl (\<lambda>r f. unless_raised f r) r fs))
    (rn_wire (foldl (\<lambda>r f. unless_raised f r) r fs))"
  using assms
  by (induction fs arbitrary: r) (simp_all add: call_ok_quiet unless_raised_quiet)

lemmas all_quiet =
  session_quiet early_poll_quiet late_poll_quiet recover_quiet allocate_quiet heal_quiet recovery_quiet
  tail_quiet

lemma locked_run_sends:
  assumes "fair_pool w" and "distinct (akeys a)"
  shows "call_ok conn (akeys a) (rn_acct (locked_run conn w sd a)) (rn_wire (locked_run conn w sd a))"
proof -
  let ?r0 = "start_run sd a"
  let ?r1 = "unless_raised (early_poll conn w sd) (unless_raised (session_step w sd) ?r0)"
  have q: "akeys (rn_acct ?r1) = akeys a" "rn_wire ?r1 = []"
    using unless_raised_quiet [OF early_poll_quiet, of conn w sd] unless_raised_quiet [OF session_quiet, of w sd]
    by (simp_all add: quiet_def start_run_def)
  have "call_ok conn (akeys a) (rn_acct (unless_raised (decide conn w sd) ?r1))
      (rn_wire (unless_raised (decide conn w sd) ?r1))"
    using decide_sends [OF assms(1), of ?r1 conn sd] assms(2) q
    by (auto simp: unless_raised_def call_ok_def)
  then have "call_ok conn (akeys a) (rn_acct (foldl (\<lambda>r f. unless_raised f r)
        (unless_raised (decide conn w sd) ?r1) (drop 3 (locked_steps conn w sd))))
      (rn_wire (foldl (\<lambda>r f. unless_raised f r)
        (unless_raised (decide conn w sd) ?r1) (drop 3 (locked_steps conn w sd))))"
    by (rule call_ok_steps) (simp add: locked_steps_def all_quiet)
  then show ?thesis by (simp add: locked_run_def locked_steps_def)
qed

text \<open>A call that got the lock ends with the tail over its locked run; any other leaves at most a frozen book.\<close>

abbreviation tail_of :: "string \<Rightarrow> world \<Rightarrow> run \<Rightarrow> run" where
  "tail_of conn w r \<equiv> rate_step conn w (default_execs (keep_backoff (settle_exception w r)))"

lemma finish_cases:
  assumes "finish_sync conn w sd a = (res, a', ws)"
  obtains (out) b where "ws = []" "a' = a\<lparr>ac_book := b\<rparr>" "res \<in> {FellBack, Skipped}"
  | (run) b where "wo_locked w" "ws = rn_wire (locked_run conn w sd (a\<lparr>ac_book := b\<rparr>))"
      "a' = write_rows conn w sd (tail_of conn w (locked_run conn w sd (a\<lparr>ac_book := b\<rparr>)))"
      "if sd_fast sd then fst (fast_path_ok (wo_seam w) (ac_book a) (wo_now w)) = FastOk else b = ac_book a"
proof -
  obtain v b where vb: "(if sd_fast sd then fast_path_ok (wo_seam w) (ac_book a) (wo_now w)
      else (FastOk, ac_book a)) = (v, b)" by fastforce
  consider "\<not> wo_locked w" | "wo_locked w" "v \<noteq> FastOk" | "wo_locked w" "v = FastOk" by blast
  then show thesis
  proof cases
    case 1
    show thesis by (rule out [of "ac_book a"]) (use assms 1 in \<open>auto simp: finish_sync_def Let_def vb split: if_splits\<close>)
  next
    case 2
    show thesis by (rule out [of b]) (use assms 2 in \<open>auto simp: finish_sync_def Let_def vb\<close>)
  next
    case 3
    have "if sd_fast sd then fst (fast_path_ok (wo_seam w) (ac_book a) (wo_now w)) = FastOk else b = ac_book a"
      using vb 3 by (auto split: if_splits)
    then show thesis
      by (intro run [of b]) (use assms 3 in \<open>auto simp: finish_sync_def Let_def vb\<close>)
  qed
qed

lemma write_rows_keys: "akeys (write_rows conn w sd r) = akeys (rn_acct r)"
  by (simp add: write_rows_def put_reports_def akeys_def)

lemma finish_sends:
  assumes "fair_pool w" and "distinct (akeys a)" and "finish_sync conn w sd a = (res, a', ws)"
  shows "call_ok conn (akeys a) a' ws"
  using assms(3)
proof (cases rule: finish_cases)
  case (out b)
  then show ?thesis using assms(2) by (simp add: call_ok_def akeys_def)
next
  case (run b)
  have k: "akeys (a\<lparr>ac_book := b\<rparr>) = akeys a" by (simp add: akeys_def)
  have "call_ok conn (akeys a) (rn_acct (locked_run conn w sd (a\<lparr>ac_book := b\<rparr>)))
      (rn_wire (locked_run conn w sd (a\<lparr>ac_book := b\<rparr>)))"
    using locked_run_sends [OF assms(1), of "a\<lparr>ac_book := b\<rparr>" conn sd] assms(2) k by simp
  moreover have "akeys (rn_acct (tail_of conn w r)) = akeys (rn_acct r)" for r
    using tail_quiet by (simp add: quiet_def)
  ultimately show ?thesis by (simp add: call_ok_def run write_rows_keys)
qed

lemma gather_keys: "akeys (snd (gather conn fast w side a)) = akeys a"
  using read_gates_keys [of conn w side a]
  by (auto simp: gather_def gather_fresh_def akeys_def Let_def split_beta split: option.split)

lemma start_keys: "akeys (snd (start_sync conn fast w a)) = akeys a"
proof -
  obtain r a1 where ad: "admit fast w a = (r, a1)" by fastforce
  then have a1: "akeys a1 = akeys a"
    by (auto simp: admit_def akeys_def Let_def split_beta split: if_splits)
  show ?thesis
    using gather_keys [of conn fast w _ a1] a1
    by (auto simp: start_sync_def ad put_reports_def Let_def split_beta akeys_def split: option.split)
qed

section \<open>Interleaved calls\<close>

record machine =
  mc_acct :: acct
  mc_waiting :: "started list"
  mc_wire :: "wire list"
  mc_audits :: "(pyfloat \<times> bool) list"

text \<open>The calls of one connection: any may start while others wait for the lock, and they finish one at a time
  in any order.  \<open>mc_audits\<close> records when an audit was let in, and whether inside the close window.\<close>

definition begin_call :: "string \<Rightarrow> bool \<Rightarrow> world \<Rightarrow> machine \<Rightarrow> machine" where
  "begin_call conn fast w m =
     (case start_sync conn fast w (mc_acct m) of (res, a) \<Rightarrow>
        m\<lparr>mc_acct := a, mc_waiting := mc_waiting m @ (case res of Inl _ \<Rightarrow> [] | Inr sd \<Rightarrow> [sd]),
          mc_audits := mc_audits m @
            (if \<not> fast \<and> fst (admit fast w (mc_acct m)) = None
             then [(wo_now w, in_close_window (wo_wall w))] else [])\<rparr>)"

definition end_call :: "string \<Rightarrow> nat \<Rightarrow> world \<Rightarrow> machine \<Rightarrow> machine" where
  "end_call conn k w m =
     (case finish_sync conn w (mc_waiting m ! k) (mc_acct m) of (res, a, ws) \<Rightarrow>
        m\<lparr>mc_acct := a, mc_waiting := take k (mc_waiting m) @ drop (Suc k) (mc_waiting m),
          mc_wire := mc_wire m @ ws\<rparr>)"

inductive runs :: "string \<Rightarrow> machine \<Rightarrow> bool" for conn where
  boot: "\<lbrakk>distinct (akeys a); ac_last a = 0\<rbrakk>
    \<Longrightarrow> runs conn \<lparr>mc_acct = a, mc_waiting = [], mc_wire = [], mc_audits = []\<rparr>"
| start: "runs conn m \<Longrightarrow> runs conn (begin_call conn fast w m)"
| finish: "\<lbrakk>runs conn m; k < length (mc_waiting m); fair_pool w\<rbrakk> \<Longrightarrow> runs conn (end_call conn k w m)"


section \<open>When a call may transmit\<close>

lemma early_frames:
  "ac_backoff (rn_acct (session_step w sd r)) = ac_backoff (rn_acct r)"
  "ac_backoff (rn_acct (early_poll conn w sd r)) = ac_backoff (rn_acct r)"
  by (auto simp: session_step_def early_poll_def poll_into_def refresh_rails_def read_gates_def Let_def
      split_beta split: option.split)

lemma quiet_fold:
  "list_all quiet fs \<Longrightarrow> rn_wire (foldl (\<lambda>r f. unless_raised f r) r fs) = rn_wire r"
  by (induction fs arbitrary: r) (simp_all add: quiet_def unless_raised_def)

lemma locked_wire_pass:
  "rn_wire (locked_run conn w sd a) =
     rn_wire (unless_raised (decide conn w sd)
       (unless_raised (early_poll conn w sd) (unless_raised (session_step w sd) (start_run sd a))))"
  using quiet_fold [of "drop 3 (locked_steps conn w sd)"]
  by (simp add: locked_run_def locked_steps_def all_quiet)

lemma locked_wire:
  assumes "rn_wire (locked_run conn w sd a) \<noteq> []"
  obtains r where "ac_backoff (rn_acct r) = ac_backoff a" "rn_raised r = None"
    "rn_wire (locked_run conn w sd a) = rn_wire (decide conn w sd r)" "rn_wire r = []"
    "outcome_error (vc_session (sd_venue sd)) = None
      \<or> (sd_fast sd \<and> ac_creds_at a \<noteq> 0 \<and> fsub (wo_now w) (ac_creds_at a) < 60)"
proof -
  let ?s = "unless_raised (session_step w sd) (start_run sd a)"
  let ?r1 = "unless_raised (early_poll conn w sd) ?s"
  have w: "rn_wire (locked_run conn w sd a) = rn_wire (unless_raised (decide conn w sd) ?r1)"
    by (rule locked_wire_pass)
  have r1: "rn_wire ?r1 = []"
    using unless_raised_quiet [OF early_poll_quiet, of conn w sd] unless_raised_quiet [OF session_quiet, of w sd]
    by (simp add: quiet_def start_run_def)
  have ok: "rn_raised ?r1 = None" using w r1 assms by (auto simp: unless_raised_def split: if_splits)
  then have "rn_raised ?s = None" by (auto simp: unless_raised_def split: if_splits)
  then have "outcome_error (vc_session (sd_venue sd)) = None
      \<or> (sd_fast sd \<and> ac_creds_at a \<noteq> 0 \<and> fsub (wo_now w) (ac_creds_at a) < 60)"
    by (auto simp: unless_raised_def start_run_def session_step_def Let_def split: option.splits if_splits)
  moreover have "ac_backoff (rn_acct ?r1) = ac_backoff a"
    by (simp add: early_frames unless_raised_def start_run_def)
  ultimately show thesis using that [of ?r1] w r1 ok by (simp add: unless_raised_def)
qed

text \<open>What a pass that reached the wire was allowed by.\<close>

definition may_send :: "started \<Rightarrow> wire list \<Rightarrow> bool" where
  "may_send sd ws \<longleftrightarrow>
     \<not> sd_owner_fast sd \<and> wo_kept (sd_world sd) \<noteq> None
     \<and> \<not> ra_paused (sync_rails (sd_world sd)) \<and> ra_live (sync_rails (sd_world sd))
     \<and> \<not> ra_dry_run (sync_rails (sd_world sd))
     \<and> int (length ws) \<le> ra_max_orders (sync_rails (sd_world sd))"

text \<open>The budget as a law that also holds of a negative limit, which lets nothing through.\<close>

definition spent :: "int \<Rightarrow> string list \<Rightarrow> pass \<Rightarrow> bool" where
  "spent N ks s \<longleftrightarrow>
     int (length (ps_wire s)) + int (length ks) + max 0 (ps_budget s) \<le> max 0 N"

interpretation spent: pass_law cx "spent N" for cx N
proof
  fix e :: bentry and m ks s
  assume "spent N (be_action e # ks) s"
  moreover have "length (sent_by m) \<le> 1" by (simp add: sent_by_def split: mutation.split)
  ultimately show "spent N ks (snd (perform cx m e s))"
    by (auto simp: spent_def perform_core)
qed (auto simp: spent_def same_core_def)

lemma sweep_budget:
  assumes "pool_ok cx" and "ps_wire (sweep cx desired exits mocs entries js refused) \<noteq> []"
  shows "\<not> ra_paused (cx_rails cx) \<and> ra_live (cx_rails cx) \<and> \<not> ra_dry_run (cx_rails cx)
    \<and> int (length (ps_wire (sweep cx desired exits mocs entries js refused))) \<le> ra_max_orders (cx_rails cx)
    \<and> ((\<exists>u why. cx_backoff cx = Some (u, why) \<and> cx_wall cx < u) \<longrightarrow>
        list_all is_cancel (ps_wire (sweep cx desired exits mocs entries js refused)))"
proof -
  let ?s = "sweep cx desired exits mocs entries js refused"
  let ?o = "sweep_orders cx desired exits mocs entries (armed cx js refused)"
  have core: "\<not> ra_paused (cx_rails cx)" "ra_live (cx_rails cx)" "same_core ?o ?s"
    using sweep_core [of cx desired exits mocs entries js refused] assms(2) by auto
  have d: "unheard cx [] [] ?o"
    by (rule dry.sweep_keeps [OF assms(1)]) (simp add: unheard_def core_simps)
  have c: "only_cancels [] ?o" if "cx_backoff cx = Some (u, why)" "cx_wall cx < u" for u why
    by (rule closed.sweep_keeps [OF assms(1)]) (use that in \<open>simp add: only_cancels_def core_simps\<close>)
  have "spent (ra_max_orders (cx_rails cx)) [] ?o"
    by (rule spent.sweep_keeps [OF assms(1)]) (simp add: spent_def core_simps)
  then have b: "int (length (ps_wire ?o)) \<le> max 0 (ra_max_orders (cx_rails cx))"
    by (simp add: spent_def)
  have ne: "0 < length (ps_wire ?o)" using assms(2) core(3) by (simp add: same_core_def)
  have "int (length (ps_wire ?s)) \<le> ra_max_orders (cx_rails cx)"
    using b ne core(3) by (auto simp: same_core_def max_def split: if_splits)
  then show ?thesis
    using core d c assms(2) by (auto simp: same_core_def unheard_def only_cancels_def)
qed

lemma reconcile_pass_may:
  assumes "fair_pool w" and "reconcile_pass conn w sd r st kept = (s, pos, orders)" and "ps_wire s \<noteq> []"
  shows "\<not> ra_paused (sync_rails (sd_world sd)) \<and> ra_live (sync_rails (sd_world sd))
    \<and> \<not> ra_dry_run (sync_rails (sd_world sd))
    \<and> int (length (ps_wire s)) \<le> ra_max_orders (sync_rails (sd_world sd))
    \<and> ((\<exists>u why. ac_backoff (rn_acct r) = Some (u, why) \<and> wo_wall w < u) \<longrightarrow> list_all is_cancel (ps_wire s))"
proof -
  let ?js = "ac_journal (rn_acct r)" and ?rf = "refused_of (wo_date w) (ac_refused (rn_acct r))"
  consider (swept) actual oo where "s = sweep (pass_ctx conn w sd r st kept actual oo)
      (demanded (sd_world sd) st) (ds_exits st) (ds_closes st) (ds_entries st) ?js ?rf"
    | (failed) actual msg where "s = fetch_fails (pass_ctx conn w sd r st kept actual []) msg (start_pass ?js ?rf)"
    using assms(2) unfolding reconcile_pass_def Let_def by (auto split: if_splits outcome.splits)
  then show ?thesis
  proof cases
    case swept
    let ?cx = "pass_ctx conn w sd r st kept actual oo"
    have "cx_backoff ?cx = ac_backoff (rn_acct r)" "cx_wall ?cx = wo_wall w"
      by (simp_all add: pass_ctx_def kept_view_def Let_def)
    then show ?thesis
      using sweep_budget [of ?cx "demanded (sd_world sd) st" "ds_exits st" "ds_closes st" "ds_entries st" ?js ?rf]
        assms(1,3) unfolding swept [symmetric] by (simp add: pass_ctx_simps)
  next
    case failed
    then show ?thesis using assms(3) by (simp add: fetch_fails_core)
  qed
qed

text \<open>C25: a call puts something on the wire only when it holds the sweep lock, the fast path does not own the
connection or the call is the fast path and its book is fit at that moment, the session and the kept
shares could be read, and the connection is neither paused nor unconfirmed nor in a dry run; it then
makes at most the budgeted number of calls, and only cancels while a stored backoff lasts.\<close>
theorem call_transmits_only_when_allowed:
  assumes "fair_pool w" and "finish_sync conn w sd a = (res, a', ws)" and "ws \<noteq> []"
  shows "wo_locked w \<and> may_send sd ws
    \<and> (sd_fast sd \<longrightarrow> fst (fast_path_ok (wo_seam w) (ac_book a) (wo_now w)) = FastOk)
    \<and> (outcome_error (vc_session (sd_venue sd)) = None
        \<or> sd_fast sd \<and> fsub (wo_now w) (ac_creds_at a) < 60)
    \<and> ((\<exists>u why. ac_backoff a = Some (u, why) \<and> wo_wall w < u) \<longrightarrow> list_all is_cancel ws)"
  using assms(2)
proof (cases rule: finish_cases)
  case (out b)
  then show ?thesis using assms(3) by simp
next
  case (run b)
  then have "rn_wire (locked_run conn w sd (a\<lparr>ac_book := b\<rparr>)) \<noteq> []" using assms(3) by simp
  then obtain r where r: "rn_raised r = None" "ws = rn_wire (decide conn w sd r)" "rn_wire r = []"
      "ac_backoff (rn_acct r) = ac_backoff a"
    and session: "outcome_error (vc_session (sd_venue sd)) = None
      \<or> (sd_fast sd \<and> ac_creds_at (a\<lparr>ac_book := b\<rparr>) \<noteq> 0
           \<and> fsub (wo_now w) (ac_creds_at (a\<lparr>ac_book := b\<rparr>)) < 60)"
    by (rule locked_wire) (use run in auto)
  obtain st where st: "sync_inputs (sd_world sd) = Inr st"
    using r assms(3) by (cases "sync_inputs (sd_world sd)") (auto simp: decide_def)
  obtain kept where k: "wo_kept (sd_world sd) = Some kept"
    using r st assms(3) by (cases "wo_kept (sd_world sd)") (auto simp: decide_def)
  obtain s pos orders where p: "reconcile_pass conn w sd r st kept = (s, pos, orders)"
    using prod_cases3 by blast
  have "ws = (if sd_owner_fast sd then [] else ps_wire s)"
    unfolding r(2) by (simp add: decide_def st k p Let_def split_beta)
  then have "\<not> sd_owner_fast sd" "ws = ps_wire s" using assms(3) by (auto split: if_splits)
  then have "may_send sd ws"
    "(\<exists>u why. ac_backoff a = Some (u, why) \<and> wo_wall w < u) \<longrightarrow> list_all is_cancel ws"
    using reconcile_pass_may [OF assms(1) p] assms(3) k r(4) by (simp_all add: may_send_def)
  then show ?thesis using run session by auto
qed

section \<open>Pacing and reports\<close>

text \<open>No step under the lock touches the pacing or the stored reports.\<close>

definition steady :: "(run \<Rightarrow> run) \<Rightarrow> bool" where
  "steady f \<longleftrightarrow> (\<forall>r. ac_last (rn_acct (f r)) = ac_last (rn_acct r)
     \<and> ac_reports (rn_acct (f r)) = ac_reports (rn_acct r))"

lemma poll_refresh_steady: "steady (poll_into conn w sd)" "steady (refresh_rails conn w sd)"
  by (simp_all add: steady_def poll_into_def refresh_rails_def read_gates_def Let_def split_beta)

lemma decide_steady: "steady (decide conn w sd)"
  unfolding steady_def decide_def Let_def by (simp add: split_beta split: sum.split option.split)

lemma recover_steady: "steady (recover_into conn w sd)"
  by (simp add: steady_def recover_into_def Let_def split_beta split: sum.split option.split)

lemma heal_steady: "steady (kept_self_heal w sd)"
  by (simp add: steady_def kept_self_heal_def Let_def split: sum.split)

lemma steady_steps: "list_all steady (locked_steps conn w sd)"
proof -
  have "steady (session_step w sd)" "steady (allocate_into w sd)" "steady (journal_recovery conn w sd)"
    by (simp_all add: steady_def session_step_def allocate_into_def journal_recovery_def Let_def split_beta
        split: sum.split option.split)
  moreover have "steady (early_poll conn w sd)" "steady (late_poll conn w sd)"
    using poll_refresh_steady by (simp_all add: steady_def early_poll_def late_poll_def Let_def)
  ultimately show ?thesis
    by (simp add: locked_steps_def decide_steady recover_steady heal_steady)
qed

lemma tail_steady:
  "ac_last (rn_acct (tail_of conn w r)) = ac_last (rn_acct r)"
  "ac_reports (rn_acct (tail_of conn w r)) = ac_reports (rn_acct r)"
  by (simp_all add: settle_exception_def keep_backoff_def default_execs_def rate_step_def Let_def
      split_beta split: option.split)

lemma locked_steady:
  "ac_last (rn_acct (locked_run conn w sd a)) = ac_last a"
  "ac_reports (rn_acct (locked_run conn w sd a)) = ac_reports a"
proof -
  have "ac_last (rn_acct (foldl (\<lambda>r f. unless_raised f r) r fs)) = ac_last (rn_acct r)
      \<and> ac_reports (rn_acct (foldl (\<lambda>r f. unless_raised f r) r fs)) = ac_reports (rn_acct r)"
    if "list_all steady fs" for r fs
    using that by (induction fs arbitrary: r) (simp_all add: steady_def unless_raised_def)
  from this [OF steady_steps]
  show "ac_last (rn_acct (locked_run conn w sd a)) = ac_last a"
    "ac_reports (rn_acct (locked_run conn w sd a)) = ac_reports a"
    by (simp_all add: locked_run_def start_run_def)
qed

lemma finish_last: "finish_sync conn w sd a = (res, a', ws) \<Longrightarrow> ac_last a' = ac_last a"
  by (erule finish_cases) (simp_all add: write_rows_def put_reports_def tail_steady locked_steady)

definition keeps_verdict :: "verdict_of_poll \<Rightarrow> report option \<Rightarrow> bool" where
  "keeps_verdict v p \<longleftrightarrow> (\<exists>p'. p = Some p' \<and> rp_execs p' = Some v)"

lemma stored_keeps:
  assumes "keeps_verdict v (dget d dep)"
  shows "keeps_verdict v (dget (foldl (\<lambda>d k. dput d k (stored_report True rep (dget d k))) d deps) dep)"
  using assms
proof (induction deps arbitrary: d)
  case (Cons k deps)
  have "keeps_verdict v (dget (dput d k (stored_report True rep (dget d k))) dep)"
    using Cons.prems by (auto simp: keeps_verdict_def dget_dput_iff stored_report_def)
  then show ?case using Cons.IH by simp
qed simp

text \<open>A fast pass never erases what the last audit learned from the venue: a deployment whose report
carries a poll verdict, in particular a poll error that makes fills unknown, carries the same verdict
after the pass, whatever the pass did.\<close>
theorem fast_pass_keeps_poll_verdict:
  assumes "sd_fast sd" and "finish_sync conn w sd a = (res, a', ws)"
    and "dget (ac_reports a) dep = Some p" and "rp_execs p = Some v"
  shows "\<exists>p'. dget (ac_reports a') dep = Some p' \<and> rp_execs p' = Some v"
  using assms(2)
proof (cases rule: finish_cases)
  case (out b)
  then show ?thesis using assms(3,4) by simp
next
  case (run b)
  have "keeps_verdict v (dget (ac_reports a) dep)" using assms(3,4) by (simp add: keeps_verdict_def)
  then have "keeps_verdict v (dget (ac_reports a') dep)"
    unfolding run(3) write_rows_def put_reports_def
    using assms(1) by (simp add: tail_steady locked_steady stored_keeps)
  then show ?thesis by (simp add: keeps_verdict_def)
qed

definition paced :: "(pyfloat \<times> bool) list \<Rightarrow> bool" where
  "paced = successively (\<lambda>x y. snd y \<or> SYNC_FLOOR_S \<le> fsub (fst y) (fst x))"

lemma start_last:
  assumes "start_sync conn fast w a = (res, a')"
  shows "ac_last a' = (if \<not> fast \<and> fst (admit fast w a) = None then wo_now w else ac_last a)"
proof -
  obtain r a1 where ad: "admit fast w a = (r, a1)" by fastforce
  then have a1: "ac_last a1 = (if \<not> fast \<and> r = None then wo_now w else ac_last a)"
    by (auto simp: admit_def Let_def split_beta split: if_splits)
  have g: "ac_last (snd (gather conn fast w side a1)) = ac_last a1" for side
    by (auto simp: gather_def gather_fresh_def read_gates_def Let_def split_beta split: option.split)
  have "ac_last (snd (start_sync conn fast w a)) = ac_last a1"
    using g by (simp add: start_sync_def ad put_reports_def Let_def split_beta split: option.split)
  then show ?thesis using assms a1 ad by simp
qed

text \<open>Audits keep their distance: of the audits let in on a connection, however calls overlap, each one
outside the close window starts at least ten seconds after the one before it.\<close>
theorem audits_are_paced:
  assumes "runs conn m"
  shows "paced (mc_audits m)"
proof -
  have "paced (mc_audits m)
      \<and> (mc_audits m = [] \<or> ac_last (mc_acct m) = fst (last (mc_audits m)))"
    using assms
  proof induction
    case (boot a)
    then show ?case by (simp add: paced_def)
  next
    case (start m fast w)
    obtain res a where st: "start_sync conn fast w (mc_acct m) = (res, a)" by fastforce
    have m: "mc_acct (begin_call conn fast w m) = a"
      "mc_audits (begin_call conn fast w m) = mc_audits m @
        (if \<not> fast \<and> fst (admit fast w (mc_acct m)) = None
         then [(wo_now w, in_close_window (wo_wall w))] else [])"
      by (simp_all add: begin_call_def st)
    show ?case
    proof (cases "\<not> fast \<and> fst (admit fast w (mc_acct m)) = None")
      case True
      then have adm: "in_close_window (wo_wall w) \<or> SYNC_FLOOR_S \<le> fsub (wo_now w) (ac_last (mc_acct m))"
        by (auto simp: admit_def not_less split: if_splits)
      show ?thesis
        using start.IH adm start_last [OF st, unfolded if_P [OF True]]
        unfolding m if_P [OF True] by (auto simp: paced_def successively_append_iff)
    next
      case False
      have "ac_last a = ac_last (mc_acct m)"
        using start_last [OF st] unfolding if_not_P [OF False] .
      then show ?thesis using start.IH unfolding m if_not_P [OF False] by simp
    qed
  next
    case (finish m k w)
    obtain res a ws where "finish_sync conn w (mc_waiting m ! k) (mc_acct m) = (res, a, ws)"
      using prod_cases3 by blast
    then show ?case using finish.IH finish_last by (simp add: end_call_def)
  qed
  then show ?thesis ..
qed

section \<open>The quote-driven exit\<close>

text \<open>A quote-driven exit that reached the venue is not repeated: while ninety seconds have not passed, no
burst of quotes sends another for that deployment and symbol, from any account that still has the
first one's row.\<close>
theorem quote_exit_once:
  assumes "execute_quote_breach_exit conn w confirmed dep k q rule a = (Done (Some e), a1, ws)"
    and "be_action e = ''submit''" and "set (ac_orders a1) \<subseteq> set (ac_orders a2)"
    and "wo_us w2 \<le> wo_us w + QB_COOLDOWN_US"
  shows "snd (snd (execute_quote_breach_exit conn w2 confirmed2 dep k q2 rule2 a2)) = []"
proof -
  let ?cid = "''sl-qb-'' @ upper k @ ''-'' @ take 8 dep @ ''-'' @ take 8 (wo_uuid w 0)"
  have "broker_order_row conn (wo_us w) e \<in> set (ac_orders a1)
      \<and> be_dep e = Some dep \<and> be_sym e = upper k \<and> be_cid e = ?cid"
    using assms(1,2)
    by (auto simp: execute_quote_breach_exit_def qb_entry_def mk_entry_def acked_def Let_def
        split: option.splits if_splits outcome.splits)
  then have b: "broker_order_row conn (wo_us w) e \<in> set (ac_orders a2)"
    "be_dep e = Some dep" "be_sym e = upper k" "be_cid e = ?cid" using assms(3) by auto
  have "qb_recent (ac_orders a2) conn dep (upper k) (wo_us w2)"
    unfolding qb_recent_def list_ex_iff
    by (rule bexI [OF _ b(1)])
      (use assms(2,4) b in \<open>simp add: broker_order_row_def none_if_empty_def starts_with_def\<close>)
  then show ?thesis by (simp add: execute_quote_breach_exit_def Let_def split: option.split)
qed

section \<open>A concrete connection\<close>

text \<open>Ten o'clock on a session day; the one deployment wants ten shares the account does not hold.\<close>

definition demo_conn :: venue_conn where
  "demo_conn =
     \<lparr>vc_caps = stock_caps, vc_session = Done (), vc_positions = Done [], vc_orders = Done [],
      vc_call = (\<lambda>_ _. Done (Some (Some ''o1'', Some ''accepted''))),
      vc_fetch = (\<lambda>_. Inr ([], 0)), vc_look = (\<lambda>_. Inr None)\<rparr>"

definition demo_payload :: payload where
  "demo_payload =
     \<lparr>pl_holdings = Some [\<lparr>ho_sym = Some ''A'', ho_qty = 10, ho_last = Some 100\<rparr>], pl_symbol = None,
      pl_qty = 0, pl_last = None, pl_last_prices = None, pl_open = [], pl_close = [], pl_entry = []\<rparr>"

definition demo_settings :: settings where
  "demo_settings =
     \<lparr>se_order_notional = None, se_position_notional = None, se_max_orders = None, se_price_band = None,
      se_cross_tol = None, se_stop_band = None, se_paused = False, se_dry_run = False\<rparr>"

definition demo_world :: "pyfloat \<Rightarrow> world" where
  "demo_world now =
     \<lparr>wo_now = now, wo_us = 0, wo_wall = 739164 * 86400 + 36000, wo_today0 = 0, wo_date = ''2024-10-02'',
      wo_seam = True, wo_creds = True, wo_locked = True, wo_venue = Some demo_conn,
      wo_settings = demo_settings, wo_mode = ''paper'', wo_truth = ''off'', wo_cash = None,
      wo_equity = None, wo_deps = [(demo_dep, demo_payload, [''A''])], wo_running = [],
      wo_stamp = (\<lambda>_. None), wo_allocs = [], wo_held = lone_held, wo_kept = Some [], wo_liq = [],
      wo_combiner = None, wo_allocate = (\<lambda>_ _. Inr ([], [])), wo_write_down = (\<lambda>_. Inr []),
      wo_expired = (\<lambda>_. False), wo_uuid = (\<lambda>_. ''0123456789abcdef''), wo_sha1_8 = (\<lambda>s. take 8 s),
      wo_show = (\<lambda>_. ''10''), wo_show_int = (\<lambda>_. ''0''), wo_pool = 1, wo_order = (\<lambda>n. [0..<n])\<rparr>"

definition demo_acct :: acct where
  "demo_acct =
     \<lparr>ac_last = 0, ac_cooldown = 0, ac_creds_at = 0, ac_book = new_livebook, ac_cache = None,
      ac_backoff = None, ac_retry = [], ac_asked = None, ac_orders = [], ac_execs = [], ac_journal = [],
      ac_refused = ([], []), ac_status = ''connected'', ac_reports = [], ac_kept_since = []\<rparr>"



definition demo_started :: started where
  "demo_started = \<lparr>sd_fast = False, sd_world = demo_world 1000, sd_venue = demo_conn,
     sd_model = [(''A'', 10)], sd_side = [(''A'', [(''buy'', 10), (''sell'', 0)])],
     sd_gather = \<lparr>ga_moc = [], ga_refusals = [], ga_qb = [], ga_exe = [], ga_known = [], ga_late = [],
       ga_gates = empty_gates\<rparr>, sd_owner_fast = False\<rparr>"
definition demo_begun :: acct where
  "demo_begun = demo_acct\<lparr>ac_last := 1000, ac_cache := Some
     \<lparr>ca_at = 1000, ca_moc = [], ca_refusals = [], ca_qb = [], ca_exe = None, ca_known = [], ca_late = [],
      ca_gates = empty_gates\<rparr>\<rparr>"

definition demo_run :: run where
  "demo_run =
     unless_raised (early_poll ''c1'' (demo_world 1000) demo_started)
       (unless_raised (session_step (demo_world 1000) demo_started) (start_run demo_started demo_begun))"

definition demo_state :: dstate where
  "demo_state = desired_from_payload ''d1'' demo_payload [''A'']"

definition demo_pass_ctx :: ctx where
  "demo_pass_ctx = pass_ctx ''c1'' (demo_world 1000) demo_started demo_run demo_state [] [] []"

lemma demo_verdict: "delta_verdict demo_pass_ctx [] [] [] ''A'' 10 = (Send 10 False, False)"
  by code_simp

lemma demo_inputs:
  "sync_inputs (demo_world 1000) = Inr demo_state" "demanded (demo_world 1000) demo_state = [(''A'', 10)]"
  "ds_exits demo_state = []" "ds_closes demo_state = []" "ds_entries demo_state = []"
  "ra_paused (sync_rails (demo_world 1000)) = False" "ra_live (sync_rails (demo_world 1000)) = True"
  "rn_raised demo_run = None" "ac_journal (rn_acct demo_run) = []" "ac_refused (rn_acct demo_run) = ([], [])"
  by code_simp+

lemma demo_ctx_facts:
  "ra_dry_run (cx_rails demo_pass_ctx) = False" "ra_paused (cx_rails demo_pass_ctx) = False"
  "ra_live (cx_rails demo_pass_ctx) = True" "ra_max_orders (cx_rails demo_pass_ctx) = 20"
  "cx_conn demo_pass_ctx = Some ''c1''" "cx_pool demo_pass_ctx = 1" "cx_backoff demo_pass_ctx = None"
  "preflight_refuses demo_pass_ctx [(''A'', 10)] = False" "our_orders demo_pass_ctx = []"
  "proven_buys demo_pass_ctx [] = False" "dget_or (cx_px demo_pass_ctx) ''A'' 0 = 100" "cx_now demo_pass_ctx = 0"
  "fst (mkt_cid demo_pass_ctx ''A'' 10 s) = ''sl-mkt-A-c1|2024-''"
  by code_simp+

lemma demo_cid: "mkt_cid demo_pass_ctx ''A'' 10 s = (''sl-mkt-A-c1|2024-'', s)"
  using demo_ctx_facts(13) [of s] by (simp add: mkt_cid_def demo_ctx_facts(5))

lemma demo_call: "ad_call (cx_ad demo_pass_ctx) ws x = Done (Some (Some ''o1'', Some ''accepted''))"
  by (simp add: demo_pass_ctx_def pass_ctx_def kept_view_def Let_def wrapped_call_def demo_started_def demo_conn_def)

definition demo_wire :: wire where
  "demo_wire = WSubmit (mkt_args ''A'' 10 ''sl-mkt-A-c1|2024-'' False)"

lemma demo_sweep: "ps_wire (sweep demo_pass_ctx [(''A'', 10)] [] [] [] [] []) = [demo_wire]"
  by (simp add: reconcile_def demo_ctx_facts Let_def sweep_orders_def release_pass_def enter_backoff_def
      delta_pass_def delta_step_def demo_verdict demo_cid start_pass_def gate_def launch_market_batch_def
      waves_of_def mkt_entry_def mk_entry_def side_of_def run_wave_def run_one_def perform_def journal_before_def
      journal_entry_def record_sending_def run_call_def demo_call after_call_def log_entry_def say_def
      demo_wire_def proven_buys_def)

lemma demo_reads:
  "fst (admit False (demo_world 1000) demo_acct) = None"
  "fst (folded_today ''c1'' (demo_world 1000)) = [(''A'', 10)]"
  "snd (folded_today ''c1'' (demo_world 1000)) = [(''A'', [(''buy'', 10), (''sell'', 0)])]"
  "journal_gates_read [] ''c1'' ''off'' 0 0 side = (empty_gates, [])"
  "fst (fast_path_ok True new_livebook 1000) \<noteq> FastOk" "snd (fast_path_ok True new_livebook 1000) = new_livebook"
  by code_simp+

lemma demo_start:
  "start_sync ''c1'' False (demo_world 1000) demo_acct = (Inr demo_started, demo_begun)"
proof -
  have "admit False (demo_world 1000) demo_acct = (None, demo_acct\<lparr>ac_last := 1000\<rparr>)"
    using demo_reads(1) by (simp add: admit_def demo_world_def split: if_splits)
  moreover have "folded_today ''c1'' (demo_world 1000) = ([(''A'', 10)], [(''A'', [(''buy'', 10), (''sell'', 0)])])"
    using demo_reads(2,3) by (simp add: prod_eq_iff)
  ultimately show ?thesis
    using demo_reads(4-6)
    by (simp add: start_sync_def demo_world_def demo_acct_def gather_def usable_cache_def gather_fresh_def
        read_gates_def Let_def moc_done_def recent_submits_def recent_refusals_def qb_cooldown_def read_exe_def
        read_late_def polls_def known_symbols_def split_beta demo_started_def demo_begun_def map_filter_def)
qed

lemma demo_locked_wire: "rn_wire (locked_run ''c1'' (demo_world 1000) demo_started demo_begun) = [demo_wire]"
proof -
  have sd: "sd_world demo_started = demo_world 1000" "sd_fast demo_started = False"
    "sd_owner_fast demo_started = False" "sd_venue demo_started = demo_conn"
    by (simp_all add: demo_started_def)
  have "fst (reconcile_pass ''c1'' (demo_world 1000) demo_started demo_run demo_state [])
      = sweep demo_pass_ctx [(''A'', 10)] [] [] [] [] []"
    by (simp add: reconcile_pass_def sd demo_inputs Let_def wrapped_positions_def wrapped_orders_def demo_conn_def
        refused_of_def flip: demo_pass_ctx_def)
  then have "rn_wire (decide ''c1'' (demo_world 1000) demo_started demo_run) = [demo_wire]"
    by (simp add: decide_def sd demo_inputs Let_def split_beta demo_world_def [THEN arg_cong [of _ _ wo_kept]]
        demo_sweep)
  then show ?thesis
    by (simp add: locked_wire_pass unless_raised_def [of "decide _ _ _"] demo_inputs flip: demo_run_def)
qed

lemma demo_fair: "fair_pool (demo_world now)"
  by (simp add: fair_pool_def demo_world_def)

lemma demo_end: "\<exists>a. finish_sync ''c1'' (demo_world 1000) demo_started demo_begun = (Audited, a, [demo_wire])"
proof -
  have "sd_fast demo_started = False" "wo_locked (demo_world 1000) = True" "demo_begun\<lparr>ac_book := ac_book demo_begun\<rparr> = demo_begun"
    by (simp_all add: demo_started_def demo_world_def)
  then show ?thesis by (simp add: finish_sync_def Let_def demo_locked_wire)
qed

lemma call_transmits_only_when_allowed_witness: "may_send demo_started [demo_wire]"
proof -
  obtain a where "finish_sync ''c1'' (demo_world 1000) demo_started demo_begun = (Audited, a, [demo_wire])"
    using demo_end by blast
  then show ?thesis using call_transmits_only_when_allowed [OF demo_fair] by blast
qed

definition demo_machine :: machine where
  "demo_machine = end_call ''c1'' 0 (demo_world 1000) (begin_call ''c1'' False (demo_world 1000)
     \<lparr>mc_acct = demo_acct, mc_waiting = [], mc_wire = [], mc_audits = []\<rparr>)"

lemma demo_runs: "runs ''c1'' demo_machine" "mc_wire demo_machine = [demo_wire]" "mc_audits demo_machine = [(1000, False)]"
proof -
  let ?m = "begin_call ''c1'' False (demo_world 1000) \<lparr>mc_acct = demo_acct, mc_waiting = [], mc_wire = [], mc_audits = []\<rparr>"
  have m: "mc_waiting ?m = [demo_started]" "mc_acct ?m = demo_begun" "mc_wire ?m = []" "mc_audits ?m = [(1000, False)]"
    using demo_reads(1) by (simp_all add: begin_call_def demo_start) (code_simp)
  have "runs ''c1'' \<lparr>mc_acct = demo_acct, mc_waiting = [], mc_wire = [], mc_audits = []\<rparr>"
    by (rule runs.boot) (simp_all add: demo_acct_def akeys_def)
  then have r: "runs ''c1'' ?m" by (rule runs.start)
  show "runs ''c1'' demo_machine"
    unfolding demo_machine_def by (rule runs.finish [OF r]) (simp_all add: m demo_fair)
  obtain a where "finish_sync ''c1'' (demo_world 1000) demo_started demo_begun = (Audited, a, [demo_wire])"
    using demo_end by blast
  then show "mc_wire demo_machine = [demo_wire]" "mc_audits demo_machine = [(1000, False)]"
    by (simp_all add: demo_machine_def end_call_def m)
qed


lemma audits_are_paced_witness: "paced (mc_audits demo_machine)"
  by (rule audits_are_paced [OF demo_runs(1)])

text \<open>A fast pass over a fit book, after an audit that could not poll.\<close>

definition blind_acct :: acct where
  "blind_acct = demo_begun\<lparr>
     ac_book := new_livebook\<lparr>bk_frozen := None, bk_reconciled := 990\<rparr>,
     ac_reports := [(''d1'', (new_report False)\<lparr>rp_execs := Some no_poll\<rparr>)]\<rparr>"

lemma fast_pass_keeps_poll_verdict_witness:
  "\<exists>p'. dget (ac_reports (fst (snd (finish_sync ''c1'' (demo_world 1000) (demo_started\<lparr>sd_fast := True\<rparr>)
      blind_acct)))) ''d1'' = Some p' \<and> rp_execs p' = Some no_poll"
proof -
  obtain res a' ws where f: "finish_sync ''c1'' (demo_world 1000) (demo_started\<lparr>sd_fast := True\<rparr>) blind_acct
      = (res, a', ws)" using prod_cases3 by blast
  have "dget (ac_reports blind_acct) ''d1'' = Some ((new_report False)\<lparr>rp_execs := Some no_poll\<rparr>)"
    by (simp add: blind_acct_def dget_def)
  from fast_pass_keeps_poll_verdict [OF _ f this] show ?thesis by (simp add: f)
qed

definition quote_exit :: "venue_conn \<Rightarrow> int \<Rightarrow> acct \<Rightarrow> bentry option outcome \<times> acct \<times> wire list" where
  "quote_exit v us a =
     execute_quote_breach_exit ''c1'' ((demo_world 1000)\<lparr>wo_venue := Some v, wo_us := us\<rparr>) True ''d1'' ''A'' (- 5)
       None a"

lemma demo_quote_exit:
  "(case quote_exit demo_conn 0 demo_acct of
      (Done (Some e), _, ws) \<Rightarrow> be_action e = ''submit'' \<and> length ws = 1 | _ \<Rightarrow> False)"
  by code_simp

lemma quote_exit_once_witness:
  "snd (snd (quote_exit demo_conn 1000000 (fst (snd (quote_exit demo_conn 0 demo_acct))))) = []"
proof -
  obtain e a1 ws where q: "quote_exit demo_conn 0 demo_acct = (Done (Some e), a1, ws)" "be_action e = ''submit''"
    using demo_quote_exit by (auto split: prod.splits outcome.splits option.splits)
  show ?thesis
    using quote_exit_once [OF q(1) [unfolded quote_exit_def] q(2) subset_refl,
        of "(demo_world 1000)\<lparr>wo_venue := Some demo_conn, wo_us := 1000000\<rparr>" True "- 5" None]
    by (simp add: q(1)) (simp add: quote_exit_def QB_COOLDOWN_US_def demo_world_def)
qed

text \<open>Only a submit the venue answered counts: when the answer is lost the order may be live, no row is
  written, and the next quote sends a second exit.  A refused exit is repeated with every quote too.\<close>

definition deaf_conn :: "venue_out outcome \<Rightarrow> venue_conn" where
  "deaf_conn x = demo_conn\<lparr>vc_call := (\<lambda>_ _. x)\<rparr>"

lemma quote_exit_repeats_after_timeout:
  "length (snd (snd (quote_exit (deaf_conn (BrokerUnavailable ''read timed out'')) 1000000
     (fst (snd (quote_exit (deaf_conn (BrokerUnavailable ''read timed out'')) 0 demo_acct)))))) = 1"
  "length (snd (snd (quote_exit (deaf_conn (BrokerRejected ''no'')) 1000000
     (fst (snd (quote_exit (deaf_conn (BrokerRejected ''no'')) 0 demo_acct)))))) = 1"
  by code_simp+

text \<open>A would-be replacement is recorded without its symbol, so it is never counted as drift.\<close>

lemma replacements_are_no_drift: "drift (u\<lparr>au_recorded := map WouldReplace oids\<rparr>) settle = []"
  by (simp add: drift_def would_sym_def filter_empty_conv)

end
