(* ===== verification/Expr.thy ===== *)
theory Expr
  imports PyBase
begin

text \<open>
  The expression evaluator of the strategy IR, \<open>dqengine/runtime/core/exprs.py\<close>.  A JSON node is an
  \<open>expr\<close>, an indicator node carries its own arguments; what a strategy can see (indicators, position,
  sleeve) is the record \<open>sight\<close> of callbacks, which may raise; a position reader is also told the node's \<open>basis\<close>.  A value is a number, a truth value or
  \<open>NotReady\<close>; the operand trace of the journal is threaded through, also past an exception.
\<close>

section \<open>Nodes and values\<close>

datatype cmp = Gt | Gte | Lt | Lte | Eq | Ne

datatype arith = Add | Sub | Mul | Div

text \<open>An argument of an indicator: a number, or a reference to a strategy parameter.\<close>

datatype arg = ArgNum pyfloat | ArgParam string

datatype expr =
    Num pyfloat
  | Truth bool
  | Param string
  | Ind ind
  | Pos string "sym option" "string option"
  | SleeveRef string
  | AllOf "expr list"
  | AnyOf "expr list"
  | Not expr
  | Cmp cmp expr expr
  | Arith arith "expr list"
  | If expr expr expr
  | Cases "(expr \<times> expr) list" expr
  | BadNode
and ind =
    IndNode (in_name: string) (in_sym: "sym option") (in_window: "arg option") (in_wilder: bool)
      (in_lookback: "arg option") (in_min_obs: "arg option") (in_field: "string option") (in_today: bool)
      (in_of: "expr option")

datatype val = V pyfloat | B bool | NotReady

definition as_num :: "val \<Rightarrow> pyfloat" where
  "as_num v = (case v of V x \<Rightarrow> x | B b \<Rightarrow> (if b then 1 else 0) | NotReady \<Rightarrow> 0)"

definition as_bool :: "val \<Rightarrow> bool" where
  "as_bool v = (case v of V x \<Rightarrow> x \<noteq> 0 | B b \<Rightarrow> b | NotReady \<Rightarrow> False)"

section \<open>What an expression can see\<close>

record sight =
  si_params :: "(string, pyfloat) dict"
  si_default :: "sym option"
  si_ind :: "ind \<Rightarrow> sym \<Rightarrow> val res"
  si_pos :: "string \<Rightarrow> string option \<Rightarrow> sym \<Rightarrow> val res"
  si_sleeve :: "string \<Rightarrow> val res"

datatype mark =
    SawInd string sym val
  | SawPos string sym val
  | SawSleeve string val
  | CmpNotReady cmp
  | DivByZero

type_synonym marks = "mark list"

definition param_of :: "sight \<Rightarrow> string \<Rightarrow> pyfloat res" where
  "param_of cx p = (case dget (si_params cx) p of None \<Rightarrow> Inl KeyError | Some x \<Rightarrow> Inr x)"

definition symbol_of :: "sight \<Rightarrow> sym option \<Rightarrow> sym res" where
  "symbol_of cx s =
     (let k = str_or (opt_or s (si_default cx))
      in if k = [] then Inl (ValueError ''no symbol'') else Inr k)"

definition compare :: "cmp \<Rightarrow> pyfloat \<Rightarrow> pyfloat \<Rightarrow> bool" where
  "compare c x y =
     (case c of Gt \<Rightarrow> y < x | Gte \<Rightarrow> y \<le> x | Lt \<Rightarrow> x < y | Lte \<Rightarrow> x \<le> y | Eq \<Rightarrow> x = y | Ne \<Rightarrow> x \<noteq> y)"

definition arith1 :: "arith \<Rightarrow> pyfloat \<Rightarrow> pyfloat \<Rightarrow> pyfloat" where
  "arith1 f x y = (case f of Add \<Rightarrow> fadd x y | Sub \<Rightarrow> fsub x y | Mul \<Rightarrow> fmul x y | Div \<Rightarrow> fdiv x y)"

text \<open>The fold over the operands after the first; a zero divisor makes the whole node not ready.\<close>

fun arith_fold :: "arith \<Rightarrow> val \<Rightarrow> val list \<Rightarrow> val \<times> marks" where
  "arith_fold f acc [] = (acc, [])"
| "arith_fold f acc (v # vs) =
     (if f = Div \<and> as_num v = 0 then (NotReady, [DivByZero])
      else arith_fold f (V (arith1 f (as_num acc) (as_num v))) vs)"

text \<open>\<open>andthen r f\<close> goes on with the value of \<open>r\<close> unless evaluating it raised.\<close>

type_synonym 'a ev = "'a res \<times> marks"

definition andthen :: "'a ev \<Rightarrow> ('a \<Rightarrow> marks \<Rightarrow> 'b ev) \<Rightarrow> 'b ev" where
  "andthen r f = (case fst r of Inl x \<Rightarrow> (Inl x, snd r) | Inr v \<Rightarrow> f v (snd r))"

lemma andthen_cong [fundef_cong]:
  "r = s \<Longrightarrow> (\<And>v tr. s = (Inr v, tr) \<Longrightarrow> f v tr = g v tr) \<Longrightarrow> andthen r f = andthen s g"
  by (cases s) (simp add: andthen_def split: sum.split)

lemma andthen_simps [simp]:
  "andthen (Inl x, tr) f = (Inl x, tr)" "andthen (Inr v, tr) f = f v tr"
  by (simp_all add: andthen_def)

definition seen :: "(val \<Rightarrow> mark) \<Rightarrow> val res \<Rightarrow> marks \<Rightarrow> val ev" where
  "seen f r tr = andthen (r, tr) (\<lambda>v tr1. (Inr v, tr1 @ [f v]))"

definition leaf :: "sight \<Rightarrow> sym option \<Rightarrow> (sym \<Rightarrow> val res) \<Rightarrow> (sym \<Rightarrow> val \<Rightarrow> mark) \<Rightarrow> marks \<Rightarrow> val ev"
where
  "leaf cx s look f tr = andthen (symbol_of cx s, tr) (\<lambda>k. seen (f k) (look k))"

definition param_val :: "sight \<Rightarrow> string \<Rightarrow> marks \<Rightarrow> val ev" where
  "param_val cx p tr = andthen (param_of cx p, tr) (\<lambda>x tr1. (Inr (V x), tr1))"

definition compared :: "cmp \<Rightarrow> val \<Rightarrow> val \<Rightarrow> marks \<Rightarrow> val ev" where
  "compared c v w tr =
     (if v = NotReady \<or> w = NotReady then (Inr (B False), tr @ [CmpNotReady c])
      else (Inr (B (compare c (as_num v) (as_num w))), tr))"

definition folded_vals :: "arith \<Rightarrow> val list \<Rightarrow> marks \<Rightarrow> val ev" where
  "folded_vals f vs tr =
     (if NotReady \<in> set vs then (Inr NotReady, tr)
      else if vs = [] then (Inl IndexError, tr)
      else let r = arith_fold f (hd vs) (tl vs) in (Inr (fst r), tr @ snd r))"

section \<open>Evaluation\<close>

text \<open>
  The loops over sub-expressions take what evaluates each of them, so that a later one is evaluated
  only when the loop reaches it.
\<close>

fun eval_all :: "(marks \<Rightarrow> val ev) list \<Rightarrow> marks \<Rightarrow> val ev" where
  "eval_all [] tr = (Inr (B True), tr)"
| "eval_all (e # es) tr =
     andthen (e tr) (\<lambda>v tr1. if as_bool v then eval_all es tr1 else (Inr (B False), tr1))"

fun eval_any :: "(marks \<Rightarrow> val ev) list \<Rightarrow> marks \<Rightarrow> val ev" where
  "eval_any [] tr = (Inr (B False), tr)"
| "eval_any (e # es) tr =
     andthen (e tr) (\<lambda>v tr1. if as_bool v then (Inr (B True), tr1) else eval_any es tr1)"

fun eval_list :: "(marks \<Rightarrow> val ev) list \<Rightarrow> marks \<Rightarrow> val list ev" where
  "eval_list [] tr = (Inr [], tr)"
| "eval_list (e # es) tr =
     andthen (e tr) (\<lambda>v tr1. andthen (eval_list es tr1) (\<lambda>vs tr2. (Inr (v # vs), tr2)))"

fun eval_cases ::
  "((marks \<Rightarrow> val ev) \<times> (marks \<Rightarrow> val ev)) list \<Rightarrow> (marks \<Rightarrow> val ev) \<Rightarrow> marks \<Rightarrow> val ev" where
  "eval_cases [] d tr = d tr"
| "eval_cases ((c, e) # cs) d tr =
     andthen (c tr) (\<lambda>v tr1. if as_bool v then e tr1 else eval_cases cs d tr1)"

lemma size_case [termination_simp]:
  "p \<in> set cs \<Longrightarrow> size (fst p) < Suc (size_list (\<lambda>q. Suc (size (fst q) + size (snd q))) cs + n)"
  "p \<in> set cs \<Longrightarrow> size (snd p) < Suc (size_list (\<lambda>q. Suc (size (fst q) + size (snd q))) cs + n)"
  by (induction cs) auto

function (sequential) evaluate :: "sight \<Rightarrow> expr \<Rightarrow> marks \<Rightarrow> val ev" where
  "evaluate cx (Num x) tr = (Inr (V x), tr)"
| "evaluate cx (Truth b) tr = (Inr (B b), tr)"
| "evaluate cx (Param p) tr = param_val cx p tr"
| "evaluate cx (Ind n) tr = leaf cx (in_sym n) (si_ind cx n) (SawInd (in_name n)) tr"
| "evaluate cx (Pos p s b) tr = leaf cx s (si_pos cx p b) (SawPos p) tr"
| "evaluate cx (SleeveRef p) tr = seen (SawSleeve p) (si_sleeve cx p) tr"
| "evaluate cx (AllOf es) tr = eval_all (map (evaluate cx) es) tr"
| "evaluate cx (AnyOf es) tr = eval_any (map (evaluate cx) es) tr"
| "evaluate cx (Not e) tr = andthen (evaluate cx e tr) (\<lambda>v tr1. (Inr (B (\<not> as_bool v)), tr1))"
| "evaluate cx (Cmp c e f) tr =
     andthen (evaluate cx e tr) (\<lambda>v tr1. andthen (evaluate cx f tr1) (\<lambda>w tr2. compared c v w tr2))"
| "evaluate cx (Arith f es) tr =
     andthen (eval_list (map (evaluate cx) es) tr) (\<lambda>vs tr1. folded_vals f vs tr1)"
| "evaluate cx (If c e f) tr =
     andthen (evaluate cx c tr)
       (\<lambda>v tr1. if as_bool v then evaluate cx e tr1 else evaluate cx f tr1)"
| "evaluate cx (Cases cs d) tr =
     eval_cases (map (\<lambda>p. (evaluate cx (fst p), evaluate cx (snd p))) cs) (evaluate cx d) tr"
| "evaluate cx BadNode tr = (Inl (ValueError ''unknown expression node''), tr)"
  by pat_completeness auto

termination
  by (relation "measure (\<lambda>(cx, e, tr). size e)") (auto simp: termination_simp size_prod_simp)

definition evaluate_bool :: "sight \<Rightarrow> expr \<Rightarrow> marks \<Rightarrow> bool ev" where
  "evaluate_bool cx e tr = andthen (evaluate cx e tr) (\<lambda>v tr1. (Inr (as_bool v), tr1))"

section \<open>Types\<close>

datatype ty = TNum | TBool

text \<open>A number may be missing, a truth value never is.\<close>

definition has_ty :: "val \<Rightarrow> ty \<Rightarrow> bool" where
  "has_ty v t \<longleftrightarrow> (case v of V _ \<Rightarrow> t = TNum | B _ \<Rightarrow> t = TBool | NotReady \<Rightarrow> t = TNum)"

text \<open>
  \<open>pt\<close> types the position readers, \<open>ps\<close> are the declared parameters, \<open>df\<close> tells whether there is a
  default symbol.
\<close>

fun all_some :: "'a option list \<Rightarrow> bool" where
  "all_some [] = True"
| "all_some (x # xs) = (x \<noteq> None \<and> all_some xs)"

function (sequential) type_of :: "(string \<Rightarrow> ty) \<Rightarrow> string list \<Rightarrow> bool \<Rightarrow> expr \<Rightarrow> ty option" where
  "type_of pt ps df (Num x) = Some TNum"
| "type_of pt ps df (Truth b) = Some TBool"
| "type_of pt ps df (Param p) = (if p \<in> set ps then Some TNum else None)"
| "type_of pt ps df (Ind n) = (if truthy (in_sym n) \<or> df then Some TNum else None)"
| "type_of pt ps df (Pos p s b) = (if truthy s \<or> df then Some (pt p) else None)"
| "type_of pt ps df (SleeveRef p) = Some TNum"
| "type_of pt ps df (AllOf es) = (if all_some (map (type_of pt ps df) es) then Some TBool else None)"
| "type_of pt ps df (AnyOf es) = (if all_some (map (type_of pt ps df) es) then Some TBool else None)"
| "type_of pt ps df (Not e) = (if type_of pt ps df e = None then None else Some TBool)"
| "type_of pt ps df (Cmp c e f) =
     (if type_of pt ps df e = Some TNum \<and> type_of pt ps df f = Some TNum then Some TBool else None)"
| "type_of pt ps df (Arith f es) =
     (if es \<noteq> [] \<and> (\<forall>e\<in>set es. type_of pt ps df e = Some TNum) then Some TNum else None)"
| "type_of pt ps df (If c e f) =
     (if type_of pt ps df c \<noteq> None \<and> type_of pt ps df e = type_of pt ps df f
      then type_of pt ps df e else None)"
| "type_of pt ps df (Cases cs d) =
     (if (\<forall>p\<in>set cs. type_of pt ps df (fst p) \<noteq> None \<and> type_of pt ps df (snd p) = type_of pt ps df d)
      then type_of pt ps df d else None)"
| "type_of pt ps df BadNode = None"
  by pat_completeness auto

termination
  by (relation "measure (\<lambda>(pt, ps, df, e). size e)") (auto simp: termination_simp size_prod_simp)

section \<open>Well-typed expressions evaluate\<close>

definition sight_ok :: "(string \<Rightarrow> ty) \<Rightarrow> string list \<Rightarrow> bool \<Rightarrow> sight \<Rightarrow> bool" where
  "sight_ok pt ps df cx \<longleftrightarrow>
     (\<forall>p\<in>set ps. dget (si_params cx) p \<noteq> None) \<and> (df \<longrightarrow> truthy (si_default cx)) \<and>
     (\<forall>n k. \<exists>v. si_ind cx n k = Inr v \<and> has_ty v TNum) \<and>
     (\<forall>p b k. \<exists>v. si_pos cx p b k = Inr v \<and> has_ty v (pt p)) \<and>
     (\<forall>p. \<exists>v. si_sleeve cx p = Inr v \<and> has_ty v TNum)"

text \<open>\<open>yields r t tr\<close>: the evaluation \<open>r\<close> returned a value of type \<open>t\<close> and only added to the trace.\<close>

definition yields :: "val ev \<Rightarrow> ty \<Rightarrow> marks \<Rightarrow> bool" where
  "yields r t tr \<longleftrightarrow> (\<exists>v more. r = (Inr v, tr @ more) \<and> has_ty v t)"

lemma has_ty_simps [simp]:
  "has_ty (V x) t = (t = TNum)" "has_ty (B b) t = (t = TBool)" "has_ty NotReady t = (t = TNum)"
  by (simp_all add: has_ty_def)

lemma yields_Inr [simp]: "yields (Inr v, tr2) t tr \<longleftrightarrow> has_ty v t \<and> (\<exists>more. tr2 = tr @ more)"
  by (auto simp: yields_def)

lemma yields_Inl [simp]: "\<not> yields (Inl x, tr2) t tr"
  by (simp add: yields_def)

lemma yields_andthen:
  assumes "yields r s tr"
    and "\<And>v more. r = (Inr v, tr @ more) \<Longrightarrow> has_ty v s \<Longrightarrow> yields (f v (tr @ more)) t (tr @ more)"
  shows "yields (andthen r f) t tr"
proof -
  obtain v more where r: "r = (Inr v, tr @ more)" "has_ty v s" using assms(1) by (auto simp: yields_def)
  then show ?thesis using assms(2) [of v more] by (auto simp: yields_def)
qed

lemma symbol_ok:
  "truthy s \<or> df \<Longrightarrow> df \<longrightarrow> truthy (si_default cx) \<Longrightarrow> \<exists>k. symbol_of cx s = Inr k"
  by (auto simp: symbol_of_def opt_or_def truthy_def str_or_def Let_def split: option.splits)

lemma yields_leaf:
  assumes "truthy s \<or> df" "df \<longrightarrow> truthy (si_default cx)" "\<And>k. \<exists>v. look k = Inr v \<and> has_ty v t"
  shows "yields (leaf cx s look f tr) t tr"
  proof -
  obtain k where "symbol_of cx s = Inr k" using symbol_ok [OF assms(1,2)] by blast
  moreover obtain v where "look k = Inr v" "has_ty v t" using assms(3) by blast
  ultimately show ?thesis by (auto simp: leaf_def seen_def yields_def)
qed

lemma yields_all:
  "\<forall>e\<in>set es. \<forall>tr. \<exists>s. yields (e tr) s tr \<Longrightarrow> yields (eval_all es tr) TBool tr"
proof (induction es arbitrary: tr)
  case (Cons e es)
  then obtain s where s: "yields (e tr) s tr" by fastforce
  have "yields (eval_all es tr1) TBool tr1" for tr1 using Cons by simp
  then show ?case unfolding eval_all.simps by (auto intro!: yields_andthen [OF s])
qed auto

lemma yields_any:
  "\<forall>e\<in>set es. \<forall>tr. \<exists>s. yields (e tr) s tr \<Longrightarrow> yields (eval_any es tr) TBool tr"
proof (induction es arbitrary: tr)
  case (Cons e es)
  then obtain s where s: "yields (e tr) s tr" by fastforce
  have "yields (eval_any es tr1) TBool tr1" for tr1 using Cons by simp
  then show ?case unfolding eval_any.simps by (auto intro!: yields_andthen [OF s])
qed auto

lemma eval_list_yields:
  assumes "\<forall>e\<in>set es. \<forall>tr. yields (e tr) t tr"
  shows "\<exists>vs more. eval_list es tr = (Inr vs, tr @ more) \<and> length vs = length es \<and> (\<forall>v\<in>set vs. has_ty v t)"
  using assms
proof (induction es arbitrary: tr)
  case (Cons e es)
  then obtain v m where v: "e tr = (Inr v, tr @ m)" "has_ty v t" by (force simp: yields_def)
  obtain vs n where "eval_list es (tr @ m) = (Inr vs, (tr @ m) @ n)" "length vs = length es"
      "\<forall>v\<in>set vs. has_ty v t"
    using Cons.IH [of "tr @ m"] Cons.prems by (meson list.set_intros(2))
  then show ?case using v by auto
qed auto

lemma arith_fold_ty: "has_ty acc TNum \<Longrightarrow> has_ty (fst (arith_fold f acc vs)) TNum"
  by (induction f acc vs rule: arith_fold.induct) auto

lemma yields_folded:
  assumes "es \<noteq> []" "\<forall>e\<in>set es. \<forall>tr. yields (e tr) TNum tr"
  shows "yields (andthen (eval_list es tr) (folded_vals f)) TNum tr"
proof -
  obtain vs m where r: "eval_list es tr = (Inr vs, tr @ m)"
    and vs: "length vs = length es" "\<forall>v\<in>set vs. has_ty v TNum"
    using eval_list_yields [OF assms(2)] by blast
  then have "vs \<noteq> []" "has_ty (hd vs) TNum" using assms(1) by (cases vs; auto)+
  then show ?thesis using r arith_fold_ty by (auto simp: folded_vals_def Let_def yields_def)
qed

lemma yields_cases:
  assumes "\<forall>p\<in>set cs. (\<forall>tr. \<exists>s. yields (fst p tr) s tr) \<and> (\<forall>tr. yields (snd p tr) t tr)"
    and "\<forall>tr. yields (d tr) t tr"
  shows "yields (eval_cases cs d tr) t tr"
  using assms
proof (induction cs d tr rule: eval_cases.induct)
  case (2 c e cs d tr)
  then obtain s where s: "yields (c tr) s tr" by fastforce
  have "yields (e tr1) t tr1" for tr1 using "2.prems" by simp
  then show ?case unfolding eval_cases.simps using 2 by (auto intro!: yields_andthen [OF s])
qed auto

lemma all_some_map: "all_some (map g es) = (\<forall>e\<in>set es. \<exists>t. g e = Some t)"
  by (induction es) auto

lemma well_typed_yields:
  assumes "type_of pt ps df e = Some t" "sight_ok pt ps df cx"
  shows "yields (evaluate cx e tr) t tr"
  using assms
proof (induction cx e tr arbitrary: t rule: evaluate.induct)
  case (3 cx p tr)
  then show ?case
    by (auto simp: param_val_def param_of_def sight_ok_def yields_def split: if_splits option.splits)
next
  case (4 cx n tr)
  then show ?case by (auto simp: sight_ok_def split: if_splits intro!: yields_leaf [of _ df])
next
  case (5 cx p s b tr)
  then show ?case by (auto simp: sight_ok_def split: if_splits intro!: yields_leaf [of _ df])
next
  case (6 cx p tr)
  then obtain v where "si_sleeve cx p = Inr v" "has_ty v TNum" unfolding sight_ok_def by blast
  then show ?case using 6 by (auto simp: seen_def yields_def)
next
  case (7 cx es tr)
  then show ?case by (auto simp: all_some_map split: if_splits intro!: yields_all) blast+
next
  case (8 cx es tr)
  then show ?case by (auto simp: all_some_map split: if_splits intro!: yields_any) blast+
next
  case (9 cx e tr)
  then obtain s where s: "type_of pt ps df e = Some s" "t = TBool" by (auto split: if_splits)
  then have "yields (evaluate cx e tr) s tr" using 9 by simp
  then show ?case unfolding evaluate.simps by (rule yields_andthen) (simp add: s)
next
  case (10 cx c e f tr)
  then have t: "type_of pt ps df e = Some TNum" "type_of pt ps df f = Some TNum" "t = TBool"
    by (auto split: if_splits)
  have e: "yields (evaluate cx e tr) TNum tr" using 10 t by simp
  have f: "yields (evaluate cx f tr1) TNum tr1" if "evaluate cx e tr = (Inr v, tr1)" for v tr1
    using 10 t that by blast
  show ?case unfolding evaluate.simps
    by (intro yields_andthen [OF e] yields_andthen [OF f]) (auto simp: compared_def t)
next
  case (11 cx f es tr)
  then show ?case by (auto split: if_splits intro!: yields_folded)
next
  case (12 cx c e f tr)
  then obtain s where s: "type_of pt ps df c = Some s" by (auto split: if_splits)
  then have "yields (evaluate cx c tr) s tr" using 12 by simp
  then show ?case unfolding evaluate.simps
    by (rule yields_andthen) (use 12 in \<open>auto split: if_splits\<close>)
next
  case (13 cx cs d tr)
  then have ty: "type_of pt ps df d = Some t"
      "\<forall>p\<in>set cs. (\<exists>s. type_of pt ps df (fst p) = Some s) \<and> type_of pt ps df (snd p) = Some t"
    by (auto split: if_splits)
  have "yields (evaluate cx d tr1) t tr1" for tr1 using 13 ty by blast
  moreover have "\<exists>s. yields (evaluate cx (fst p) tr1) s tr1" "yields (evaluate cx (snd p) tr1) t tr1"
    if "p \<in> set cs" for p tr1
    using 13 ty that by blast+
  ultimately show ?case unfolding evaluate.simps by (intro yields_cases) auto
qed auto


section \<open>Missing data\<close>

text \<open>
  A condition without \<open>not\<close>, \<open>if\<close> and \<open>cases\<close>: connectives over comparisons of arithmetic.  One sight
  is less ready than another when it answers the same or \<open>NotReady\<close>.
\<close>

fun operand :: "expr \<Rightarrow> bool" where
  "operand (Arith f es) = (\<forall>e\<in>set es. operand e)"
| "operand (Num x) = True"
| "operand (Param p) = True"
| "operand (Ind n) = True"
| "operand (Pos p s b) = True"
| "operand (SleeveRef p) = True"
| "operand e = False"

fun positive :: "expr \<Rightarrow> bool" where
  "positive (Truth b) = True"
| "positive (AllOf es) = (\<forall>e\<in>set es. positive e)"
| "positive (AnyOf es) = (\<forall>e\<in>set es. positive e)"
| "positive (Cmp c e f) = (operand e \<and> operand f)"
| "positive e = operand e"

definition less_ready :: "val res \<Rightarrow> val res \<Rightarrow> bool" where
  "less_ready r s \<longleftrightarrow> r = s \<or> r = Inr NotReady"

definition sees_less :: "sight \<Rightarrow> sight \<Rightarrow> bool" where
  "sees_less cx dx \<longleftrightarrow>
     si_params cx = si_params dx \<and> si_default cx = si_default dx \<and>
     (\<forall>n k. less_ready (si_ind cx n k) (si_ind dx n k)) \<and>
     (\<forall>p b k. less_ready (si_pos cx p b k) (si_pos dx p b k)) \<and>
     (\<forall>p. less_ready (si_sleeve cx p) (si_sleeve dx p))"

lemma fst_andthen: "fst (andthen r f) = (case fst r of Inl x \<Rightarrow> Inl x | Inr v \<Rightarrow> fst (f v (snd r)))"
  by (simp add: andthen_def split: sum.split)

lemma fst_leaf: "fst (leaf cx s look f tr) = bind_res (symbol_of cx s) look"
  by (simp add: leaf_def seen_def fst_andthen bind_res_def split: sum.split)

lemma leaf_less:
  assumes "si_default cx = si_default dx" "\<And>k. less_ready (look k) (look' k)"
  shows "less_ready (fst (leaf cx s look f tr)) (fst (leaf dx s look' f tr'))"
proof -
  have "symbol_of cx s = symbol_of dx s" using assms(1) by (simp add: symbol_of_def)
  then show ?thesis using assms(2) by (cases "symbol_of dx s") (auto simp: fst_leaf less_ready_def)
qed

text \<open>Operands evaluate to the same, or to \<open>NotReady\<close> where less is seen, unless one raises.\<close>

definition no_raise :: "(marks \<Rightarrow> 'a ev) \<Rightarrow> bool" where
  "no_raise g \<longleftrightarrow> (\<forall>tr. \<not> isl (fst (g tr)))"

lemma no_raise_Inr: "no_raise g \<Longrightarrow> (\<And>v tr1. g tr = (Inr v, tr1) \<Longrightarrow> thesis) \<Longrightarrow> thesis"
  unfolding no_raise_def by (metis isl_def obj_sumE prod.collapse)

lemma eval_list_less:
  assumes "\<forall>e\<in>set es. no_raise (evaluate cx e) \<and> no_raise (evaluate dx e) \<and>
             (\<forall>tr tr'. less_ready (fst (evaluate cx e tr)) (fst (evaluate dx e tr')))"
  shows "\<exists>vs ws. fst (eval_list (map (evaluate cx) es) tr) = Inr vs \<and>
           fst (eval_list (map (evaluate dx) es) tr') = Inr ws \<and> length vs = length es \<and>
           (NotReady \<in> set vs \<or> vs = ws)"
  using assms
proof (induction es arbitrary: tr tr')
  case (Cons e es)
  have ok: "no_raise (evaluate cx e)" "no_raise (evaluate dx e)" using Cons.prems by simp_all
  obtain v tr1 where v: "evaluate cx e tr = (Inr v, tr1)" using no_raise_Inr [OF ok(1)] .
  obtain w tr2 where w: "evaluate dx e tr' = (Inr w, tr2)" using no_raise_Inr [OF ok(2)] .
  have "less_ready (fst (evaluate cx e tr)) (fst (evaluate dx e tr'))" using Cons.prems by simp
  then have "v = NotReady \<or> v = w" using v w by (auto simp: less_ready_def)
  moreover obtain vs ws where "fst (eval_list (map (evaluate cx) es) tr1) = Inr vs"
      "fst (eval_list (map (evaluate dx) es) tr2) = Inr ws" "length vs = length es"
      "NotReady \<in> set vs \<or> vs = ws"
    using Cons.IH [of tr1 tr2] Cons.prems by auto
  ultimately show ?case using v w by (auto simp: fst_andthen)
qed auto

lemma fst_folded: "fst (folded_vals f vs tr) =
   (if NotReady \<in> set vs then Inr NotReady else if vs = [] then Inl IndexError
    else Inr (fst (arith_fold f (hd vs) (tl vs))))"
  by (simp add: folded_vals_def Let_def)

lemma well_typed_no_raise:
  "type_of pt ps df e = Some t \<Longrightarrow> sight_ok pt ps df cx \<Longrightarrow> no_raise (evaluate cx e)"
proof (unfold no_raise_def, rule allI)
  fix tr assume "type_of pt ps df e = Some t" "sight_ok pt ps df cx"
  from well_typed_yields [OF this, of tr] show "\<not> isl (fst (evaluate cx e tr))" by (auto simp: yields_def)
qed

lemma operand_less:
  assumes "operand e" "type_of pt ps df e = Some t" "sight_ok pt ps df cx" "sight_ok pt ps df dx"
    and "sees_less cx dx"
  shows "less_ready (fst (evaluate cx e tr)) (fst (evaluate dx e tr'))"
  using assms
proof (induction e arbitrary: t tr tr' rule: operand.induct)
  case (1 f es)
  have ty: "type_of pt ps df e = Some TNum" if "e \<in> set es" for e
    using that "1.prems" by (auto split: if_splits)
  have all: "\<forall>e\<in>set es. no_raise (evaluate cx e) \<and> no_raise (evaluate dx e) \<and>
             (\<forall>tr tr'. less_ready (fst (evaluate cx e tr)) (fst (evaluate dx e tr')))"
    using ty 1 by (auto intro: well_typed_no_raise)
  show ?case using eval_list_less [OF all, of tr tr']
    by (auto simp: fst_andthen fst_folded less_ready_def)
next
  case (4 n)
  then show ?case by (auto simp: sees_less_def intro!: leaf_less)
next
  case (5 p s b)
  then show ?case by (auto simp: sees_less_def intro!: leaf_less)
next
  case (6 p)
  have "fst (seen f x m) = x" for f x m by (simp add: seen_def fst_andthen split: sum.split)
  then show ?case using 6 by (simp add: sees_less_def)
qed (auto simp: sees_less_def param_val_def param_of_def fst_andthen less_ready_def split: option.split)

definition fires :: "val ev \<Rightarrow> bool" where
  "fires r \<longleftrightarrow> (case fst r of Inl x \<Rightarrow> False | Inr v \<Rightarrow> as_bool v)"

lemma fires_simps [simp]: "fires (Inr v, tr) = as_bool v" "\<not> fires (Inl x, tr)"
  by (simp_all add: fires_def)

lemma eval_all_fires:
  assumes "\<forall>e\<in>set es. \<forall>tr tr'. fires (g e tr) \<longrightarrow> fires (h e tr')" "fires (eval_all (map g es) tr)"
  shows "fires (eval_all (map h es) tr')"
  using assms
proof (induction es arbitrary: tr tr')
  case (Cons e es)
  then have g: "fires (g e tr)"
    by (cases "g e tr"; cases "fst (g e tr)") (auto split: if_splits simp: as_bool_def)
  moreover have "fires (h e tr')" using g Cons.prems by fastforce
  ultimately show ?case using Cons
    by (cases "g e tr"; cases "fst (g e tr)"; cases "h e tr'"; cases "fst (h e tr')") auto
qed (simp add: as_bool_def)

lemma eval_any_fires:
  assumes "\<forall>e\<in>set es. no_raise (h e) \<and> (\<forall>tr tr'. fires (g e tr) \<longrightarrow> fires (h e tr'))"
    and "fires (eval_any (map g es) tr)"
  shows "fires (eval_any (map h es) tr')"
  using assms
proof (induction es arbitrary: tr tr')
  case (Cons e es)
  then have "\<not> isl (fst (h e tr'))" "fires (g e tr) \<Longrightarrow> fires (h e tr')"
    by (auto simp: no_raise_def)
  then show ?case using Cons
    by (cases "g e tr"; cases "fst (g e tr)"; cases "h e tr'"; cases "fst (h e tr')")
      (auto split: if_splits simp: as_bool_def)
qed (simp add: as_bool_def)

lemma compared_fires: "fires (compared c v w tr) \<longleftrightarrow> v \<noteq> NotReady \<and> w \<noteq> NotReady \<and> compare c (as_num v) (as_num w)"
  by (simp add: compared_def as_bool_def)

lemma less_fires: "less_ready (fst r) (fst s) \<Longrightarrow> fires r \<Longrightarrow> fires s"
  by (auto simp: less_ready_def fires_def as_bool_def)

lemma operand_fires:
  assumes "fires (evaluate cx e tr)" "type_of pt ps df e = Some t" "operand e"
    and "sight_ok pt ps df cx" "sight_ok pt ps df dx" "sees_less cx dx"
  shows "fires (evaluate dx e tr')"
  using less_fires [OF operand_less] assms by blast

lemma positive_fires:
  assumes "positive e" "type_of pt ps df e = Some t" "sight_ok pt ps df cx" "sight_ok pt ps df dx"
    and "sees_less cx dx" "fires (evaluate cx e tr)"
  shows "fires (evaluate dx e tr')"
  using assms
proof (induction e arbitrary: t tr tr' rule: positive.induct)
  case (2 es)
  have "\<exists>s. type_of pt ps df e = Some s" if "e \<in> set es" for e
    using that "2.prems" by (auto simp: all_some_map split: if_splits)
  then have "\<forall>e\<in>set es. \<forall>tr tr'. fires (evaluate cx e tr) \<longrightarrow> fires (evaluate dx e tr')"
    using "2.IH" "2.prems"(1,3-5) by (metis positive.simps(2))
  then show ?case using 2 eval_all_fires by auto
next
  case (3 es)
  have "\<exists>s. type_of pt ps df e = Some s" if "e \<in> set es" for e
    using that "3.prems" by (auto simp: all_some_map split: if_splits)
  then have "\<forall>e\<in>set es. no_raise (evaluate dx e) \<and>
      (\<forall>tr tr'. fires (evaluate cx e tr) \<longrightarrow> fires (evaluate dx e tr'))"
    using "3.IH" "3.prems"(1,3-5) by (metis positive.simps(3) well_typed_no_raise)
  then show ?case using 3 eval_any_fires by auto
next
  case (4 c e f)
  then have ty: "type_of pt ps df e = Some TNum" "type_of pt ps df f = Some TNum" "operand e" "operand f"
    by (auto split: if_splits)
  have le: "less_ready (fst (evaluate cx x tr1)) (fst (evaluate dx x tr2))" if "x = e \<or> x = f" for x tr1 tr2
    using that ty 4 operand_less by blast
  obtain v m where v: "evaluate cx e tr = (Inr v, m)"
    using well_typed_yields [OF ty(1) "4.prems"(3), of tr] by (auto simp: yields_def)
  obtain w n where w: "evaluate cx f m = (Inr w, n)"
    using well_typed_yields [OF ty(2) "4.prems"(3), of m] by (auto simp: yields_def)
  obtain v' m' where v': "evaluate dx e tr' = (Inr v', m')"
    using well_typed_yields [OF ty(1) "4.prems"(4), of tr'] by (auto simp: yields_def)
  obtain w' n' where w': "evaluate dx f m' = (Inr w', n')"
    using well_typed_yields [OF ty(2) "4.prems"(4), of m'] by (auto simp: yields_def)
  show ?case using "4.prems"(6) le [of e tr tr'] le [of f m m'] v w v' w'
    by (auto simp: compared_fires less_ready_def)
qed (simp, (erule operand_fires, assumption, simp, assumption+)+)

text \<open>Missing data never makes a rule fire: whatever a condition without \<open>not\<close>, \<open>if\<close> and \<open>cases\<close>
  answers when some indicators are not ready, it can only have fired if it also fires with them.\<close>

theorem missing_data_never_fires:
  assumes "positive e" "type_of pt ps df e = Some t" "sight_ok pt ps df cx" "sight_ok pt ps df dx"
    and "sees_less cx dx" "fst (evaluate_bool cx e tr) = Inr True"
  shows "fst (evaluate_bool dx e tr') = Inr True"
proof -
  have eq: "fst (evaluate_bool zx e tr1) = Inr True \<longleftrightarrow> fires (evaluate zx e tr1)" for zx tr1
    by (simp add: evaluate_bool_def fst_andthen fires_def split: sum.split)
  show ?thesis using assms positive_fires by (simp add: eq)
qed

text \<open>Under \<open>not\<close> it is the other way round: a comparison on missing data then answers true.\<close>

lemma not_fires_on_missing_data:
  assumes "evaluate cx e tr = (Inr NotReady, tr1)" "evaluate cx f tr1 = (Inr w, tr2)"
  shows "fst (evaluate_bool cx (Not (Cmp c e f)) tr) = Inr True"
  using assms by (simp add: evaluate_bool_def compared_def as_bool_def)

section \<open>A concrete condition\<close>

definition demo_cond :: expr where
  "demo_cond =
     AnyOf [Cmp Gt (Arith Div [Ind (IndNode ''sma'' None (Some (ArgNum 20)) False None None None True
                                      None), Param ''k'']) (Num 1),
            AllOf [Cmp Lt (SleeveRef ''equity'') (Num 5), Truth True]]"

definition demo_sight :: "val \<Rightarrow> sight" where
  "demo_sight v = \<lparr>si_params = [(''k'', 2)], si_default = Some ''SPY'', si_ind = (\<lambda>n k. Inr v),
     si_pos = (\<lambda>p b k. Inr (V 0)), si_sleeve = (\<lambda>p. Inr (V 4))\<rparr>"

lemma demo_facts_expr:
  "type_of (\<lambda>p. TNum) [''k''] True demo_cond = Some TBool" "positive demo_cond"
  "has_ty v TNum \<Longrightarrow> sight_ok (\<lambda>p. TNum) [''k''] True (demo_sight v)"
  "sees_less (demo_sight NotReady) (demo_sight (V 3))"
  "fst (evaluate_bool (demo_sight NotReady) demo_cond []) = Inr True"
  by (auto simp: demo_cond_def demo_sight_def sight_ok_def sees_less_def less_ready_def truthy_def
      dget_def evaluate_bool_def leaf_def seen_def symbol_of_def opt_or_def str_or_def param_val_def
      param_of_def folded_vals_def compared_def as_bool_def as_num_def compare_def)


lemma missing_data_never_fires_witness:
  "fst (evaluate_bool (demo_sight (V 3)) demo_cond []) = Inr True"
  by (rule missing_data_never_fires [OF demo_facts_expr(2,1) demo_facts_expr(3) demo_facts_expr(3)
        demo_facts_expr(4,5)]) simp_all

end
