(* ===== verification/PyList.thy ===== *)
theory PyList
  imports PyBase
begin

text \<open>
  What the numeric code uses of Python's lists and of \<open>math\<close>: slices with any integer bound, \<open>sum\<close>
  as the left fold it is up to Python 3.11, \<open>max\<close> and \<open>min\<close> of a list, \<open>math.sqrt\<close> as the correctly
  rounded square root, bounded deques, stable sorting by a key.
\<close>

named_theorems fl_sign \<open>signs of rounded operations\<close>

section \<open>Slices\<close>

text \<open>The position a slice bound \<open>i\<close> means in a list of length \<open>n\<close>: negative bounds count from the end.\<close>

definition slice_pos :: "nat \<Rightarrow> int \<Rightarrow> nat" where
  "slice_pos n i = (if i < 0 then nat (int n + i) else min n (nat i))"

definition slice_from :: "'a list \<Rightarrow> int \<Rightarrow> 'a list" where
  "slice_from xs i = drop (slice_pos (length xs) i) xs"

definition slice_to :: "'a list \<Rightarrow> int \<Rightarrow> 'a list" where
  "slice_to xs i = take (slice_pos (length xs) i) xs"

definition slice :: "'a list \<Rightarrow> int \<Rightarrow> int \<Rightarrow> 'a list" where
  "slice xs i j = drop (slice_pos (length xs) i) (take (slice_pos (length xs) j) xs)"

definition nth_res :: "'a list \<Rightarrow> int \<Rightarrow> 'a res" where
  "nth_res xs i =
     (if i < - int (length xs) \<or> int (length xs) \<le> i then Inl IndexError
      else Inr (xs ! nat (if i < 0 then int (length xs) + i else i)))"

definition last_n :: "nat \<Rightarrow> 'a list \<Rightarrow> 'a list" where
  "last_n n xs = drop (length xs - n) xs"

lemma length_last_n [simp]: "length (last_n n xs) = min n (length xs)"
  by (simp add: last_n_def)

lemma slice_from_neg: "0 < w \<Longrightarrow> slice_from xs (- int w) = last_n w xs"
  by (simp add: slice_from_def slice_pos_def last_n_def nat_diff_distrib')

lemma last_n_append1: "last_n (Suc n) (xs @ [x]) = last_n n xs @ [x]"
  by (simp add: last_n_def)

lemma last_n_all [simp]: "length xs \<le> n \<Longrightarrow> last_n n xs = xs"
  by (simp add: last_n_def)

lemma last_n_last_n [simp]: "last_n m (last_n n xs) = last_n (min m n) xs"
proof (cases "length xs \<le> n")
  case False
  then have "length xs - (length xs - n + m) + (length xs - n) = length xs - m" if "m \<le> n"
    using that by linarith
  with False show ?thesis by (auto simp: last_n_def min_def)
qed (auto simp: last_n_def min_def)

lemma set_last_n: "set (last_n n xs) \<subseteq> set xs"
  by (simp add: last_n_def set_drop_subset)

text \<open>\<open>deque(maxlen=n)\<close> after an append.\<close>

definition push :: "nat \<Rightarrow> 'a list \<Rightarrow> 'a \<Rightarrow> 'a list" where
  "push n xs x = last_n n (xs @ [x])"

lemma push_last_n: "push n (last_n n xs) x = last_n n (xs @ [x])"
proof (cases n)
  case (Suc m)
  then show ?thesis by (simp add: push_def last_n_append1)
qed (simp add: push_def last_n_def)

lemma fold_push: "foldl (push n) (last_n n xs) ys = last_n n (xs @ ys)"
proof (induction ys arbitrary: xs)
  case (Cons y ys)
  from Cons.IH [of "xs @ [y]"] show ?case by (simp add: push_last_n)
qed simp

lemma push_window: "foldl (push n) [] xs = last_n n xs"
  using fold_push [of n "[]" xs] by (simp add: last_n_def)

section \<open>Sums, extremes\<close>

definition fsum :: "pyfloat list \<Rightarrow> pyfloat" where
  "fsum = foldl fadd 0"

definition fmax :: "pyfloat list \<Rightarrow> pyfloat" where
  "fmax xs = foldl max (hd xs) (tl xs)"

definition fmin :: "pyfloat list \<Rightarrow> pyfloat" where
  "fmin xs = foldl min (hd xs) (tl xs)"

text \<open>\<open>max(xs)\<close> and \<open>min(xs)\<close> raise on an empty list.\<close>

definition max_res :: "pyfloat list \<Rightarrow> pyfloat res" where
  "max_res xs = (if xs = [] then Inl (ValueError ''max() arg is an empty sequence'') else Inr (fmax xs))"

definition min_res :: "pyfloat list \<Rightarrow> pyfloat res" where
  "min_res xs = (if xs = [] then Inl (ValueError ''min() arg is an empty sequence'') else Inr (fmin xs))"

definition div_res :: "pyfloat \<Rightarrow> pyfloat \<Rightarrow> pyfloat res" where
  "div_res x y = (if y = 0 then Inl ZeroDivisionError else Inr (fdiv x y))"

lemma foldl_max_ge: "(a::pyfloat) \<le> foldl max a xs" "x \<in> set xs \<Longrightarrow> x \<le> foldl max a xs"
proof (induction xs arbitrary: a)
  case (Cons y ys)
  { case 1 show ?case using Cons(1) [of "max a y"] by simp }
  { case 2 then show ?case using Cons(1) [of "max a y"] Cons(2) [of "max a y"] by auto }
qed auto

lemma foldl_min_le: "foldl min (a::pyfloat) xs \<le> a" "x \<in> set xs \<Longrightarrow> foldl min a xs \<le> x"
proof (induction xs arbitrary: a)
  case (Cons y ys)
  { case 1 show ?case using Cons(1) [of "min a y"] by simp }
  { case 2 then show ?case using Cons(1) [of "min a y"] Cons(2) [of "min a y"] by auto }
qed auto

lemma fmax_ge: "x \<in> set xs \<Longrightarrow> x \<le> fmax xs"
  by (cases xs) (auto simp: fmax_def intro: foldl_max_ge)

lemma fmin_le: "x \<in> set xs \<Longrightarrow> fmin xs \<le> x"
  by (cases xs) (auto simp: fmin_def intro: foldl_min_le)

lemma foldl_max_in: "foldl max (a::pyfloat) xs \<in> insert a (set xs)"
proof (induction xs arbitrary: a)
  case (Cons x xs)
  from Cons [of "max a x"] show ?case by (auto simp: max_def split: if_splits)
qed simp

lemma foldl_min_in: "foldl min (a::pyfloat) xs \<in> insert a (set xs)"
proof (induction xs arbitrary: a)
  case (Cons x xs)
  from Cons [of "min a x"] show ?case by (auto simp: min_def split: if_splits)
qed simp

lemma fmax_in: "xs \<noteq> [] \<Longrightarrow> fmax xs \<in> set xs"
  using foldl_max_in by (cases xs) (auto simp: fmax_def)

lemma fmin_in: "xs \<noteq> [] \<Longrightarrow> fmin xs \<in> set xs"
  using foldl_min_in by (cases xs) (auto simp: fmin_def)

section \<open>Signs\<close>

lemma fadd_nonneg [fl_sign]: "0 \<le> a \<Longrightarrow> 0 \<le> b \<Longrightarrow> 0 \<le> fadd a b"
  by (simp add: fadd_def fl_nonneg)

lemma fmul_nonneg [fl_sign]: "0 \<le> a \<Longrightarrow> 0 \<le> b \<Longrightarrow> 0 \<le> fmul a b"
  by (simp add: fmul_def fl_nonneg)

lemma fdiv_nonneg [fl_sign]: "0 \<le> a \<Longrightarrow> 0 \<le> b \<Longrightarrow> 0 \<le> fdiv a b"
  by (simp add: fdiv_def fl_nonneg)

lemma fsub_nonneg [fl_sign]: "b \<le> a \<Longrightarrow> 0 \<le> fsub a b"
  by (simp add: fsub_def fl_nonneg)

lemma foldl_fadd_nonneg: "0 \<le> a \<Longrightarrow> \<forall>x\<in>set xs. 0 \<le> x \<Longrightarrow> 0 \<le> foldl fadd a xs"
  by (induction xs arbitrary: a) (auto intro: fl_sign)

lemma fsum_nonneg [fl_sign]: "\<forall>x\<in>set xs. 0 \<le> x \<Longrightarrow> 0 \<le> fsum xs"
  unfolding fsum_def by (rule foldl_fadd_nonneg) auto

lemma fl_le_100: "x \<le> 100 \<Longrightarrow> fl x \<le> 100"
  using fl_mono [of x 100] by simp

lemma fl_le_1: "x \<le> 1 \<Longrightarrow> fl x \<le> 1"
  using fl_mono [of x 1] by simp

text \<open>The last line of every relative strength index.\<close>

definition strength :: "pyfloat \<Rightarrow> pyfloat \<Rightarrow> pyfloat" where
  "strength g l = fsub 100 (fdiv 100 (fadd 1 (fdiv g l)))"

lemma strength_bounds:
  assumes "0 \<le> g" "0 < l"
  shows "0 \<le> strength g l" "strength g l \<le> 100"
proof -
  have "1 \<le> fadd 1 (fdiv g l)"
    using fl_mono [of 1 "1 + fdiv g l"] assms by (simp add: fadd_def fdiv_nonneg)
  then have "100 / fadd 1 (fdiv g l) \<le> 100" "0 \<le> 100 / fadd 1 (fdiv g l)"
    by (simp_all add: divide_le_eq)
  then have "fdiv 100 (fadd 1 (fdiv g l)) \<le> 100" "0 \<le> fdiv 100 (fadd 1 (fdiv g l))"
    by (simp_all add: fdiv_def fl_le_100 fl_nonneg)
  then show "0 \<le> strength g l" "strength g l \<le> 100"
    by (simp_all add: strength_def fsub_def fl_nonneg fl_le_100)
qed

section \<open>Square roots\<close>

text \<open>The integer square root, one binary digit of the result at a time.\<close>

function isqrt :: "nat \<Rightarrow> nat" where
  "isqrt n =
     (if n = 0 then 0
      else let r = 2 * isqrt (n div 4) in if (r + 1) * (r + 1) \<le> n then r + 1 else r)"
  by auto

termination by (relation "measure id") auto

declare isqrt.simps [simp del]

lemma isqrt_spec: "isqrt n * isqrt n \<le> n \<and> n < (isqrt n + 1) * (isqrt n + 1)"
proof (induction n rule: isqrt.induct)
  case (1 n)
  show ?case
  proof (cases "n = 0")
    case False
    let ?m = "n div 4" and ?q = "isqrt (n div 4)"
    have q: "?q * ?q \<le> ?m" "?m + 1 \<le> (?q + 1) * (?q + 1)" using 1 False by auto
    have m: "4 * ?m \<le> n" "n \<le> 4 * ?m + 3" by linarith+
    have "(2 * ?q) * (2 * ?q) \<le> n" using q(1) m(1) by linarith
    moreover have "n < (2 * ?q + 2) * (2 * ?q + 2)" using q(2) m(2) by (simp add: algebra_simps)
    ultimately show ?thesis using False by (subst (1 2 3 4) isqrt.simps) (auto simp: Let_def)
  qed (simp add: isqrt.simps)
qed

lemma isqrt_unique: "r * r \<le> n \<Longrightarrow> n < (r + 1) * (r + 1) \<Longrightarrow> isqrt n = r"
proof -
  assume r: "r * r \<le> n" "n < (r + 1) * (r + 1)"
  have "isqrt n < r + 1"
    using isqrt_spec [of n] r(2) by (metis le_less_trans mult_le_mono nat_neq_iff not_less)
  moreover have "r < isqrt n + 1"
    using isqrt_spec [of n] r(1) by (metis le_less_trans mult_le_mono nat_neq_iff not_less)
  ultimately show ?thesis by simp
qed

text \<open>
  \<open>math.sqrt\<close> rounds the exact root to nearest: on the grid of the result, the root is \<open>s\<close> or \<open>s + 1\<close>
  steps, whichever is closer (a 53-bit number never has a root halfway).
\<close>

definition sqrt_grid :: "pyfloat \<Rightarrow> int" where
  "sqrt_grid x = fexp x div 2 - 52"

definition fsqrt :: "pyfloat \<Rightarrow> pyfloat" where
  "fsqrt x =
     (if x \<le> 0 then 0
      else let g = 2 powi sqrt_grid x; y = x / (g * g); s = int (isqrt (nat \<lfloor>y\<rfloor>))
           in of_int (if of_int (s * s + s) + 1 / 4 < y then s + 1 else s) * g)"

lemma fsqrt_0 [simp]: "fsqrt 0 = 0"
  by (simp add: fsqrt_def)

lemma fsqrt_nonneg [fl_sign]: "0 \<le> fsqrt x"
  by (simp add: fsqrt_def Let_def)

end
