(* ===== verification/DailyInd.thy ===== *)
theory DailyInd
  imports Expr PyList
begin

text \<open>
  The daily indicator engine, \<open>dqengine/runtime/core/indicators.py\<close>: per-symbol daily series, the
  indicators computed on them, the derived series (an expression evaluated as of each past session)
  and the cache of one value per symbol, node and session.  Volatility rounds like \<open>math.sqrt\<close>.
\<close>

section \<open>Daily series\<close>

record series =
  s_closes :: "pyfloat list"
  s_returns :: "pyfloat list"
  s_highs :: "pyfloat list"
  s_lows :: "pyfloat list"

definition new_series :: series where
  "new_series = \<lparr>s_closes = [], s_returns = [], s_highs = [], s_lows = []\<rparr>"

definition opt_px :: "pyfloat option \<Rightarrow> pyfloat \<Rightarrow> pyfloat" where
  "opt_px x c = (case x of None \<Rightarrow> c | Some v \<Rightarrow> v)"

definition ret :: "pyfloat \<Rightarrow> pyfloat \<Rightarrow> pyfloat" where
  "ret c prev = fsub (fdiv c prev) 1"

definition series_close :: "series \<Rightarrow> pyfloat \<Rightarrow> pyfloat option \<Rightarrow> pyfloat option \<Rightarrow> series" where
  "series_close s c hi lo =
     \<lparr>s_closes = s_closes s @ [c],
      s_returns = s_returns s @
        (if s_closes s \<noteq> [] \<and> 0 < List.last (s_closes s) then [ret c (List.last (s_closes s))] else []),
      s_highs = s_highs s @ [opt_px hi c], s_lows = s_lows s @ [opt_px lo c]\<rparr>"

definition take_series :: "series \<Rightarrow> nat \<Rightarrow> series" where
  "take_series s u =
     \<lparr>s_closes = take u (s_closes s), s_returns = take (u - 1) (s_returns s),
      s_highs = take u (s_highs s), s_lows = take u (s_lows s)\<rparr>"

section \<open>Arguments of a node\<close>

type_synonym params = "(string, pyfloat) dict"

definition param_res :: "params \<Rightarrow> string \<Rightarrow> pyfloat res" where
  "param_res ps p = (case dget ps p of None \<Rightarrow> Inl KeyError | Some x \<Rightarrow> Inr x)"

definition arg_res :: "params \<Rightarrow> arg \<Rightarrow> pyfloat res" where
  "arg_res ps a = (case a of ArgNum x \<Rightarrow> Inr x | ArgParam p \<Rightarrow> param_res ps p)"

text \<open>\<open>int(arg(key, default))\<close>; without a default a missing key is \<open>int(None)\<close>.\<close>

definition int_arg :: "params \<Rightarrow> arg option \<Rightarrow> int option \<Rightarrow> int res" where
  "int_arg ps a d =
     (case a of
        None \<Rightarrow> (case d of None \<Rightarrow> Inl TypeError | Some n \<Rightarrow> Inr n)
      | Some x \<Rightarrow> bind_res (arg_res ps x) (\<lambda>v. Inr (py_int v)))"

section \<open>The indicators of one series\<close>

definition sqrt_res :: "pyfloat \<Rightarrow> pyfloat res" where
  "sqrt_res x = (if x < 0 then Inl (ValueError ''math domain error'') else Inr (fsqrt x))"

definition square :: "pyfloat \<Rightarrow> pyfloat" where
  "square x = fmul x x"

definition mean_res :: "pyfloat list \<Rightarrow> int \<Rightarrow> pyfloat res" where
  "mean_res xs w = div_res (fsum xs) (fint w)"

definition pstdev :: "pyfloat list \<Rightarrow> int \<Rightarrow> pyfloat res" where
  "pstdev xs w =
     bind_res (mean_res xs w) (\<lambda>m. bind_res (mean_res (map (\<lambda>x. square (fsub x m)) xs) w) sqrt_res)"

definition ready_if :: "bool \<Rightarrow> pyfloat res \<Rightarrow> val res" where
  "ready_if b r = (if b then bind_res r (\<lambda>x. Inr (V x)) else Inr NotReady)"

definition smooth :: "pyfloat \<Rightarrow> pyfloat \<Rightarrow> pyfloat \<Rightarrow> pyfloat" where
  "smooth k ema c = fadd (fmul c k) (fmul ema (fsub 1 k))"

text \<open>The mean of the first \<open>w\<close> values seeds the exponential average of the others.\<close>

definition ema_res :: "pyfloat list \<Rightarrow> int \<Rightarrow> pyfloat res" where
  "ema_res xs w =
     bind_res (div_res 2 (fint (w + 1))) (\<lambda>k.
     bind_res (mean_res (slice_to xs w) w) (\<lambda>seed.
     Inr (foldl (smooth k) seed (slice_from xs w))))"

definition gain_of :: "pyfloat \<Rightarrow> pyfloat" where
  "gain_of d = (if 0 < d then d else 0)"

definition loss_of :: "pyfloat \<Rightarrow> pyfloat" where
  "loss_of d = (if d < 0 then - d else 0)"

definition diffs :: "pyfloat list \<Rightarrow> pyfloat list" where
  "diffs p = map2 fsub (tl p) p"

definition wilder_step :: "int \<Rightarrow> pyfloat \<Rightarrow> pyfloat \<Rightarrow> pyfloat" where
  "wilder_step w a x = fdiv (fadd (fmul a (fint (w - 1))) x) (fint w)"

definition rsi_of :: "pyfloat \<Rightarrow> pyfloat \<Rightarrow> pyfloat res" where
  "rsi_of g l =
     (if l = 0 then Inr 100
      else bind_res (div_res g l) (\<lambda>rs. bind_res (div_res 100 (fadd 1 rs)) (\<lambda>q. Inr (fsub 100 q))))"

definition wilder_rsi :: "pyfloat list \<Rightarrow> int \<Rightarrow> pyfloat res" where
  "wilder_rsi p w =
     (let ds = diffs p; first = take (nat w) ds; later = drop (nat w) ds;
          avg = (\<lambda>f. foldl (wilder_step w) (fdiv (fsum (map f first)) (fint w)) (map f later))
      in rsi_of (avg gain_of) (avg loss_of))"

definition simple_rsi :: "pyfloat list \<Rightarrow> int \<Rightarrow> pyfloat res" where
  "simple_rsi rs w =
     (let win = slice_from rs (- w)
      in bind_res (mean_res (filter (\<lambda>r. 0 < r) win) w) (\<lambda>g.
         bind_res (mean_res (map uminus (filter (\<lambda>r. r < 0) win)) w) (\<lambda>l. rsi_of g l)))"

fun drawdown_loop :: "pyfloat list \<Rightarrow> pyfloat \<Rightarrow> pyfloat \<Rightarrow> pyfloat res" where
  "drawdown_loop [] peak worst = Inr worst"
| "drawdown_loop (c # cs) peak worst =
     (let p = max peak c
      in bind_res (div_res c p) (\<lambda>q. drawdown_loop cs p (min worst (fsub q 1))))"

definition drawdown_res :: "pyfloat list \<Rightarrow> pyfloat res" where
  "drawdown_res win = (if win = [] then Inl IndexError else drawdown_loop win (hd win) 0)"

definition true_range :: "series \<Rightarrow> nat \<Rightarrow> pyfloat" where
  "true_range s i =
     (let pc = s_closes s ! (i - 1)
      in max (max (fsub (s_highs s ! i) (s_lows s ! i)) \<bar>fsub (s_highs s ! i) pc\<bar>)
           \<bar>fsub (s_lows s ! i) pc\<bar>)"

definition true_ranges :: "series \<Rightarrow> int \<Rightarrow> pyfloat list" where
  "true_ranges s w =
     (let n = length (s_closes s) in map (true_range s) [nat (int n - w) ..< n])"

definition have_closes :: "series \<Rightarrow> int \<Rightarrow> bool" where
  "have_closes s w \<longleftrightarrow> w \<le> int (length (s_closes s))"

definition have_returns :: "series \<Rightarrow> int \<Rightarrow> bool" where
  "have_returns s w \<longleftrightarrow> w \<le> int (length (s_returns s))"

definition window_ind :: "string \<Rightarrow> bool \<Rightarrow> series \<Rightarrow> int \<Rightarrow> val res" where
  "window_ind name wilder s w =
     (let cs = s_closes s; win = slice_from cs (- w)
      in if name = ''sma'' then ready_if (have_closes s w) (mean_res win w)
      else if name = ''ema'' then ready_if (have_closes s w) (ema_res cs w)
      else if name = ''rsi'' then
        (if wilder then ready_if (1 \<le> w \<and> have_closes s (w + 1)) (wilder_rsi cs w)
         else ready_if (have_returns s w) (simple_rsi (s_returns s) w))
      else if name = ''realized_vol'' then
        ready_if (have_returns s w) (pstdev (slice_from (s_returns s) (- w)) w)
      else if name = ''highest'' then ready_if (have_closes s w) (max_res win)
      else if name = ''lowest'' then ready_if (have_closes s w) (min_res win)
      else if name = ''cum_return'' then
        ready_if (have_closes s (w + 1))
          (bind_res (nth_res cs (- 1)) (\<lambda>a. bind_res (nth_res cs (- w - 1)) (\<lambda>b.
           bind_res (div_res a b) (\<lambda>q. Inr (fsub q 1)))))
      else if name = ''drawdown'' then ready_if (have_closes s w) (drawdown_res win)
      else if name = ''std'' then ready_if (have_closes s w) (pstdev win w)
      else ready_if (have_closes s (w + 1)) (mean_res (true_ranges s w) w))"

definition WINDOW_INDS :: "string list" where
  "WINDOW_INDS = [''sma'', ''ema'', ''rsi'', ''realized_vol'', ''highest'', ''lowest'', ''cum_return'',
     ''drawdown'', ''std'', ''atr'']"

definition base_compute :: "params \<Rightarrow> series \<Rightarrow> ind \<Rightarrow> val res" where
  "base_compute ps s n =
     (if in_name n \<in> set WINDOW_INDS
      then bind_res (int_arg ps (in_window n) None) (window_ind (in_name n) (in_wilder n) s)
      else Inl (ValueError ''unknown indicator''))"

section \<open>Expressions as of a past session\<close>

fun arith_fold_res :: "arith \<Rightarrow> pyfloat \<Rightarrow> pyfloat list \<Rightarrow> pyfloat res" where
  "arith_fold_res f acc [] = Inr acc"
| "arith_fold_res f acc (v # vs) =
     (if f = Div \<and> v = 0 then Inl ZeroDivisionError else arith_fold_res f (arith1 f acc v) vs)"

fun all_res :: "'a res list \<Rightarrow> 'a list res" where
  "all_res [] = Inr []"
| "all_res (r # rs) = bind_res r (\<lambda>x. bind_res (all_res rs) (\<lambda>xs. Inr (x # xs)))"

definition arith_vals :: "arith \<Rightarrow> val list \<Rightarrow> val res" where
  "arith_vals f vs =
     (if NotReady \<in> set vs then Inr NotReady
      else if vs = [] then Inl IndexError
      else bind_res (arith_fold_res f (as_num (hd vs)) (map as_num (tl vs))) (\<lambda>x. Inr (V x)))"

definition DERIVED :: "string list" where
  "DERIVED = [''series_ema'', ''series_sma'', ''pct_rank'']"

definition asof_ind :: "params \<Rightarrow> sym \<Rightarrow> series \<Rightarrow> ind \<Rightarrow> val res" where
  "asof_ind ps k sl n =
     (if in_sym n \<noteq> None \<and> in_sym n \<noteq> Some k then Inl (ValueError ''another ticker'')
      else if in_name n \<in> set DERIVED then Inl (ValueError ''already smoothed'')
      else if in_name n = ''price''
        then Inr (if s_closes sl = [] then NotReady else V (List.last (s_closes sl)))
      else if in_name n = ''prior_close''
        then Inr (if length (s_closes sl) < 2 then NotReady
                  else V (s_closes sl ! (length (s_closes sl) - 2)))
      else base_compute ps sl n)"

function (sequential) asof :: "params \<Rightarrow> sym \<Rightarrow> series \<Rightarrow> expr \<Rightarrow> val res" where
  "asof ps k sl (Num x) = Inr (V x)"
| "asof ps k sl (Truth b) = Inl (ValueError ''needs a number'')"
| "asof ps k sl (Param p) = bind_res (param_res ps p) (\<lambda>x. Inr (V x))"
| "asof ps k sl (Ind n) = asof_ind ps k sl n"
| "asof ps k sl (Arith f es) = bind_res (all_res (map (asof ps k sl) es)) (arith_vals f)"
| "asof ps k sl (Pos p s b) = Inl (ValueError ''only market data'')"
| "asof ps k sl (SleeveRef p) = Inl (ValueError ''only market data'')"
| "asof ps k sl e = Inl (ValueError ''unsupported expression'')"
  by pat_completeness auto

termination by (relation "measure (\<lambda>(ps, k, sl, e). size e)") (auto simp: termination_simp)

text \<open>The value at each of the last sessions; a session without one restarts the list.\<close>

fun history_loop :: "(nat \<Rightarrow> val res) \<Rightarrow> nat list \<Rightarrow> pyfloat list \<Rightarrow> pyfloat list res" where
  "history_loop f [] vals = Inr vals"
| "history_loop f (u # us) vals =
     bind_res (f u) (\<lambda>v. history_loop f us (if v = NotReady then [] else vals @ [as_num v]))"

definition some_unless_empty :: "'a list \<Rightarrow> 'a list option" where
  "some_unless_empty xs = (if xs = [] then None else Some xs)"

definition past_days :: "series \<Rightarrow> int \<Rightarrow> nat list" where
  "past_days s len =
     (let n = length (s_closes s) in [nat (max 1 (int n - len + 1)) ..< n + 1])"

definition expr_history :: "params \<Rightarrow> sym \<Rightarrow> series \<Rightarrow> expr \<Rightarrow> int \<Rightarrow> pyfloat list option res" where
  "expr_history ps k s e len =
     (if s_closes s = [] then Inr None
      else bind_res (history_loop (\<lambda>u. asof ps k (take_series s u) e) (past_days s len) [])
             (\<lambda>vs. Inr (some_unless_empty vs)))"

text \<open>The closed form of a volatility inner: one window of returns per session.\<close>

definition vol_history :: "params \<Rightarrow> series \<Rightarrow> ind \<Rightarrow> int \<Rightarrow> pyfloat list option res" where
  "vol_history ps s n lookback =
     bind_res (int_arg ps (in_window n) None) (\<lambda>w.
       let rets = s_returns s; m = int (length rets)
       in if m < w then Inr None
          else bind_res (all_res (map (\<lambda>hi. pstdev (slice rets (hi - w) hi) w)
                           [max w (m - lookback + 1) .. m]))
                 (\<lambda>vs. Inr (some_unless_empty vs)))"

definition inner_history :: "params \<Rightarrow> sym \<Rightarrow> series \<Rightarrow> expr \<Rightarrow> int \<Rightarrow> pyfloat list option res" where
  "inner_history ps k s e lookback =
     (case e of
        Ind n \<Rightarrow> if in_name n = ''realized_vol'' then vol_history ps s n lookback
                 else expr_history ps k s e lookback
      | Num x \<Rightarrow> Inl AttributeError
      | Truth b \<Rightarrow> Inl AttributeError
      | _ \<Rightarrow> expr_history ps k s e lookback)"

section \<open>Percentile rank and smoothed series\<close>

definition rank_index :: "pyfloat \<Rightarrow> pyfloat list \<Rightarrow> int" where
  "rank_index v srt =
     foldl (\<lambda>idx i. if srt ! i \<le> v then int i else idx) (- 1) [0 ..< length srt]"

definition pct_rank :: "pyfloat list \<Rightarrow> pyfloat" where
  "pct_rank hist =
     (let srt = sort hist; n = length srt
      in if n \<le> 1 then 1
         else min 1 (fdiv (fint (rank_index (List.last hist) srt + 1)) (fint (int n - 1))))"

definition of_res :: "ind \<Rightarrow> expr res" where
  "of_res n = (case in_of n of None \<Rightarrow> Inl KeyError | Some e \<Rightarrow> Inr e)"

definition pct_rank_ind :: "params \<Rightarrow> sym \<Rightarrow> series \<Rightarrow> ind \<Rightarrow> val res" where
  "pct_rank_ind ps k live n =
     bind_res (of_res n) (\<lambda>inner.
     bind_res (int_arg ps (in_lookback n) None) (\<lambda>lookback.
     bind_res (int_arg ps (in_min_obs n) (Some 60)) (\<lambda>min_obs.
     bind_res (inner_history ps k live inner lookback) (\<lambda>h.
       case h of None \<Rightarrow> Inr NotReady
       | Some hist \<Rightarrow> if int (length hist) < min_obs then Inr NotReady else Inr (V (pct_rank hist))))))"

definition smoothed_ind :: "params \<Rightarrow> sym \<Rightarrow> series \<Rightarrow> ind \<Rightarrow> val res" where
  "smoothed_ind ps k live n =
     bind_res (int_arg ps (in_window n) None) (\<lambda>w.
     bind_res (of_res n) (\<lambda>inner.
     bind_res (expr_history ps k live inner (w * 3 + 10)) (\<lambda>h.
       case h of None \<Rightarrow> Inr NotReady
       | Some hist \<Rightarrow>
           ready_if (w \<le> int (length hist))
             (if in_name n = ''series_sma'' then mean_res (slice_from hist (- w)) w
              else ema_res hist w))))"

text \<open>\<open>_compute\<close>: the derived indicators read the live series, the others the series they are given.\<close>

definition compute :: "params \<Rightarrow> sym \<Rightarrow> series \<Rightarrow> series \<Rightarrow> ind \<Rightarrow> val res" where
  "compute ps k live s n =
     (if in_name n = ''pct_rank'' then pct_rank_ind ps k live n
      else if in_name n \<in> {''series_ema'', ''series_sma''} then smoothed_ind ps k live n
      else base_compute ps s n)"

section \<open>The engine\<close>

text \<open>
  The key of the cache: the node and the values of the parameters it mentions anywhere, in the order
  it mentions them (which is what the frozen tree of the code tells apart).
\<close>

type_synonym ckey = "sym \<times> ind \<times> pyfloat list"

record ind_engine =
  ie_daily :: "(sym, series) dict"
  ie_last :: "(sym, pyfloat) dict"
  ie_prior :: "(sym, pyfloat) dict"
  ie_cache :: "(ckey, int \<times> val) dict"
  ie_version :: "(sym, int) dict"

definition new_engine :: ind_engine where
  "new_engine = \<lparr>ie_daily = [], ie_last = [], ie_prior = [], ie_cache = [], ie_version = []\<rparr>"

definition series_of :: "ind_engine \<Rightarrow> sym \<Rightarrow> series" where
  "series_of g k = dget_or (ie_daily g) k new_series"

definition session_close ::
  "ind_engine \<Rightarrow> sym \<Rightarrow> pyfloat \<Rightarrow> pyfloat option \<Rightarrow> pyfloat option \<Rightarrow> ind_engine" where
  "session_close g k c hi lo =
     g\<lparr>ie_daily := dput (ie_daily g) k (series_close (series_of g k) c hi lo),
       ie_version := dput (ie_version g) k (dget_or (ie_version g) k 0 + 1)\<rparr>"

definition args_params :: "arg option \<Rightarrow> string list" where
  "args_params a = (case a of Some (ArgParam p) \<Rightarrow> [p] | _ \<Rightarrow> [])"

function (sequential) params_in :: "expr \<Rightarrow> string list" where
  "params_in (Param p) = [p]"
| "params_in (Ind (IndNode nm sy w wi lb mo fd td None)) = args_params w @ args_params lb @ args_params mo"
| "params_in (Ind (IndNode nm sy w wi lb mo fd td (Some e))) =
     args_params w @ args_params lb @ args_params mo @ params_in e"
| "params_in (AllOf es) = concat (map params_in es)"
| "params_in (AnyOf es) = concat (map params_in es)"
| "params_in (Not e) = params_in e"
| "params_in (Cmp c e f) = params_in e @ params_in f"
| "params_in (Arith f es) = concat (map params_in es)"
| "params_in (If c e f) = params_in c @ params_in e @ params_in f"
| "params_in (Cases cs d) =
     concat (map (\<lambda>p. params_in (fst p) @ params_in (snd p)) cs) @ params_in d"
| "params_in e = []"
  by pat_completeness auto

termination by (relation "measure size") (auto simp: termination_simp size_prod_simp)

definition freeze_params :: "params \<Rightarrow> ind \<Rightarrow> pyfloat list res" where
  "freeze_params ps n = all_res (map (param_res ps) (params_in (Ind n)))"

definition series_with_today :: "ind_engine \<Rightarrow> sym \<Rightarrow> series" where
  "series_with_today g k =
     (let s = series_of g k
      in case dget (ie_last g) k of
           None \<Rightarrow> s
         | Some lp \<Rightarrow>
             if lp = 0 then s
             else \<lparr>s_closes = s_closes s @ [lp],
                   s_returns = s_returns s @
                     (if s_closes s \<noteq> [] \<and> List.last (s_closes s) \<noteq> 0
                      then [ret lp (List.last (s_closes s))] else []),
                   s_highs = s_highs s @ [lp], s_lows = s_lows s @ [lp]\<rparr>)"

definition opt_val :: "pyfloat option \<Rightarrow> val" where
  "opt_val x = (case x of None \<Rightarrow> NotReady | Some v \<Rightarrow> V v)"

definition price_ind :: "ind_engine \<Rightarrow> sym \<Rightarrow> string option \<Rightarrow> val res" where
  "price_ind g k fld =
     (let f = (case fld of None \<Rightarrow> ''last'' | Some f \<Rightarrow> f)
      in if f = ''last'' then Inr (opt_val (dget (ie_last g) k))
         else if f = ''close'' then Inr (opt_val (dget (ie_prior g) k))
         else Inl (ValueError ''price field is not available''))"

definition cached :: "ind_engine \<Rightarrow> params \<Rightarrow> sym \<Rightarrow> ind \<Rightarrow> val res \<times> ind_engine" where
  "cached g ps k n =
     (case freeze_params ps n of
        Inl e \<Rightarrow> (Inl e, g)
      | Inr vals \<Rightarrow>
          let key = (k, n, vals); ver = dget_or (ie_version g) k 0
          in case dget (ie_cache g) key of
               Some (v0, v) \<Rightarrow>
                 if v0 = ver then (Inr v, g)
                 else (case compute ps k (series_of g k) (series_of g k) n of
                         Inl e \<Rightarrow> (Inl e, g)
                       | Inr v \<Rightarrow> (Inr v, g\<lparr>ie_cache := dput (ie_cache g) key (ver, v)\<rparr>))
             | None \<Rightarrow>
                 (case compute ps k (series_of g k) (series_of g k) n of
                    Inl e \<Rightarrow> (Inl e, g)
                  | Inr v \<Rightarrow> (Inr v, g\<lparr>ie_cache := dput (ie_cache g) key (ver, v)\<rparr>)))"

definition ind_value :: "ind_engine \<Rightarrow> params \<Rightarrow> sym \<Rightarrow> ind \<Rightarrow> val res \<times> ind_engine" where
  "ind_value g ps k n =
     (if in_name n = ''price'' then (price_ind g k (in_field n), g)
      else if in_name n = ''prior_close'' then (Inr (opt_val (dget (ie_prior g) k)), g)
      else if in_today n then (compute ps k (series_of g k) (series_with_today g k) n, g)
      else cached g ps k n)"

end
