(* ===== verification/DailyIndProps.thy ===== *)
theory DailyIndProps
  imports DailyInd
begin

text \<open>
  What the daily indicator engine promises: the cache never changes an answer, a derived series holds
  exactly the values the inner expression had on the past days, the closed form of the volatility
  history is the general one, and the indicators stay in their ranges.
\<close>

section \<open>The key determines the answer\<close>

lemma param_res_freeze:
  assumes "all_res (map (param_res ps) xs) = Inr vs" "all_res (map (param_res qs) xs) = Inr vs" "p \<in> set xs"
  shows "param_res ps p = param_res qs p"
  using assms
proof (induction xs arbitrary: vs)
  case (Cons x xs)
  then show ?case by (auto simp: bind_res_Inr_iff)
qed simp

lemma args_in_params:
  "set (args_params (in_window n)) \<subseteq> set (params_in (Ind n))"
  "set (args_params (in_lookback n)) \<subseteq> set (params_in (Ind n))"
  "set (args_params (in_min_obs n)) \<subseteq> set (params_in (Ind n))"
  "in_of n = Some e \<Longrightarrow> set (params_in e) \<subseteq> set (params_in (Ind n))"
  by (cases n; cases "in_of n"; auto)+

definition same_params :: "params \<Rightarrow> params \<Rightarrow> string list \<Rightarrow> bool" where
  "same_params ps qs xs \<longleftrightarrow> (\<forall>p\<in>set xs. param_res ps p = param_res qs p)"

lemma same_params_mono: "same_params ps qs xs \<Longrightarrow> set ys \<subseteq> set xs \<Longrightarrow> same_params ps qs ys"
  by (auto simp: same_params_def)

lemma int_arg_same: "same_params ps qs (args_params a) \<Longrightarrow> int_arg ps a d = int_arg qs a d"
  by (auto simp: int_arg_def arg_res_def same_params_def args_params_def split: option.split arg.split)

lemma base_same:
  "same_params ps qs (params_in (Ind n)) \<Longrightarrow> base_compute ps s n = base_compute qs s n"
  using int_arg_same [OF same_params_mono [OF _ args_in_params(1)]] by (simp add: base_compute_def)

lemma asof_same: "same_params ps qs (params_in e) \<Longrightarrow> asof ps k s e = asof qs k s e"
proof (induction ps k s e rule: asof.induct)
  case (4 ps k s n)
  then show ?case using base_same by (simp add: asof_ind_def)
next
  case (5 ps k s f es)
  then have "map (asof ps k s) es = map (asof qs k s) es"
    by (intro map_cong) (auto simp: same_params_def)
  then show ?case unfolding asof.simps by (simp only:)
qed (auto simp: same_params_def)

lemma history_same:
  "same_params ps qs (params_in e) \<Longrightarrow> expr_history ps k s e len = expr_history qs k s e len"
  using asof_same by (simp add: expr_history_def)

lemma vol_same: "same_params ps qs (params_in (Ind n)) \<Longrightarrow> vol_history ps s n l = vol_history qs s n l"
  using int_arg_same [OF same_params_mono [OF _ args_in_params(1)]] by (simp add: vol_history_def)

lemma inner_same:
  "same_params ps qs (params_in e) \<Longrightarrow> inner_history ps k s e l = inner_history qs k s e l"
  using history_same vol_same by (cases e) (auto simp: inner_history_def)

lemma compute_same:
  assumes "same_params ps qs (params_in (Ind n))"
  shows "compute ps k live s n = compute qs k live s n"
proof -
  have a: "int_arg ps (in_window n) d = int_arg qs (in_window n) d"
      "int_arg ps (in_lookback n) d = int_arg qs (in_lookback n) d"
      "int_arg ps (in_min_obs n) d = int_arg qs (in_min_obs n) d" for d
    by (rule int_arg_same [OF same_params_mono [OF assms args_in_params(1)]]
          int_arg_same [OF same_params_mono [OF assms args_in_params(2)]]
          int_arg_same [OF same_params_mono [OF assms args_in_params(3)]])+
  have inner: "same_params ps qs (params_in e)" if "of_res n = Inr e" for e
    using that same_params_mono [OF assms args_in_params(4)] by (auto simp: of_res_def split: option.splits)
  have "pct_rank_ind ps k live n = pct_rank_ind qs k live n"
    using inner_same [OF inner] by (cases "of_res n") (simp_all add: pct_rank_ind_def a)
  moreover have "smoothed_ind ps k live n = smoothed_ind qs k live n"
    using history_same [OF inner] by (cases "of_res n") (simp_all add: smoothed_ind_def a)
  moreover have "base_compute ps s n = base_compute qs s n" by (rule base_same [OF assms])
  ultimately show ?thesis by (simp add: compute_def)
qed

lemma freeze_same: "freeze_params ps n = Inr vs \<Longrightarrow> freeze_params qs n = Inr vs \<Longrightarrow> same_params ps qs (params_in (Ind n))"
  unfolding freeze_params_def same_params_def by (blast intro: param_res_freeze)

section \<open>The cache\<close>

definition cache_ok :: "ind_engine \<Rightarrow> bool" where
  "cache_ok g \<longleftrightarrow>
     (\<forall>k n vals ver v. dget (ie_cache g) (k, n, vals) = Some (ver, v) \<longrightarrow>
        ver \<le> dget_or (ie_version g) k 0 \<and>
        (ver = dget_or (ie_version g) k 0 \<longrightarrow>
          (\<forall>ps. freeze_params ps n = Inr vals \<longrightarrow> compute ps k (series_of g k) (series_of g k) n = Inr v)))"

lemma cache_okD:
  assumes "cache_ok g" "dget (ie_cache g) (k, n, vals) = Some (dget_or (ie_version g) k 0, v)"
    and "freeze_params ps n = Inr vals"
  shows "compute ps k (series_of g k) (series_of g k) n = Inr v"
  using assms by (auto simp: cache_ok_def)

lemma cache_ok_store:
  assumes ok: "cache_ok g" and fr: "freeze_params ps n = Inr vals"
    and v: "compute ps k (series_of g k) (series_of g k) n = Inr v"
  shows "cache_ok (g\<lparr>ie_cache := dput (ie_cache g) (k, n, vals) (dget_or (ie_version g) k 0, v)\<rparr>)"
proof -
  have "compute qs k (series_of g k) (series_of g k) n = Inr v" if "freeze_params qs n = Inr vals" for qs
    using compute_same [OF freeze_same [OF fr that]] v by simp
  then show ?thesis using ok by (auto simp: cache_ok_def series_of_def dict_simps)
qed

text \<open>What an indicator is, without the cache.\<close>

definition value_ref :: "ind_engine \<Rightarrow> params \<Rightarrow> sym \<Rightarrow> ind \<Rightarrow> val res" where
  "value_ref g ps k n =
     (if in_name n = ''price'' then price_ind g k (in_field n)
      else if in_name n = ''prior_close'' then Inr (opt_val (dget (ie_prior g) k))
      else if in_today n then compute ps k (series_of g k) (series_with_today g k) n
      else bind_res (freeze_params ps n) (\<lambda>_. compute ps k (series_of g k) (series_of g k) n))"

lemma cached_ref:
  assumes "cache_ok g"
  shows "fst (cached g ps k n) = bind_res (freeze_params ps n) (\<lambda>_. compute ps k (series_of g k) (series_of g k) n)"
    and "cache_ok (snd (cached g ps k n))"
  using cache_okD [OF assms] cache_ok_store [OF assms] assms
  by (auto simp: cached_def Let_def split: sum.splits option.splits)

text \<open>The calls the engine takes, and the prices its user writes into it.\<close>

datatype ind_call =
    Close sym pyfloat "pyfloat option" "pyfloat option"
  | SetLast sym pyfloat
  | SetPrior sym pyfloat
  | Read params sym ind

definition ind_step :: "ind_engine \<Rightarrow> ind_call \<Rightarrow> ind_engine" where
  "ind_step g c =
     (case c of
        Close k x hi lo \<Rightarrow> session_close g k x hi lo
      | SetLast k x \<Rightarrow> g\<lparr>ie_last := dput (ie_last g) k x\<rparr>
      | SetPrior k x \<Rightarrow> g\<lparr>ie_prior := dput (ie_prior g) k x\<rparr>
      | Read ps k n \<Rightarrow> snd (ind_value g ps k n))"

lemma cache_ok_close: "cache_ok g \<Longrightarrow> cache_ok (session_close g k x hi lo)"
  by (fastforce simp: cache_ok_def session_close_def series_of_def dict_simps)

lemma cache_ok_step: "cache_ok g \<Longrightarrow> cache_ok (ind_step g c)"
  using cached_ref(2)
  by (cases c) (auto simp: ind_step_def cache_ok_close ind_value_def, auto simp: cache_ok_def series_of_def)

interpretation ind: stepwise ind_step cache_ok
  by unfold_locales (rule cache_ok_step)

lemma cache_ok_new: "cache_ok new_engine"
  by (simp add: cache_ok_def new_engine_def dict_simps)

text \<open>C27: the cache is invisible: after any calls an indicator answers what computing it afresh from
  the series answers, for any parameters, also when other parameters asked before.\<close>

theorem cache_is_transparent:
  "fst (ind_value (foldl ind_step new_engine cs) ps k n) = value_ref (foldl ind_step new_engine cs) ps k n"
  using cached_ref(1) [OF ind.run_inv [OF cache_ok_new]] by (simp add: ind_value_def value_ref_def)

section \<open>Derived series are past values\<close>

type_synonym day_bar = "pyfloat \<times> pyfloat option \<times> pyfloat option"

definition series_after :: "day_bar list \<Rightarrow> series" where
  "series_after = foldl (\<lambda>s (c, hi, lo). series_close s c hi lo) new_series"

definition priced_bars :: "day_bar list \<Rightarrow> bool" where
  "priced_bars bars \<longleftrightarrow> (\<forall>b\<in>set bars. 0 < fst b)"

lemma series_after_snoc:
  "series_after (bars @ [b]) = series_close (series_after bars) (fst b) (fst (snd b)) (snd (snd b))"
  by (simp add: series_after_def split_beta)

lemma series_after_closes [simp]: "s_closes (series_after bars) = map fst bars"
  by (induction bars rule: rev_induct)
    (simp_all add: series_after_snoc series_close_def, simp add: series_after_def new_series_def)

lemma series_after_lengths:
  "length (s_highs (series_after bars)) = length bars" "length (s_lows (series_after bars)) = length bars"
  by (induction bars rule: rev_induct)
    (simp_all add: series_after_snoc series_close_def, simp_all add: series_after_def new_series_def)

lemma series_after_returns:
  "priced_bars bars \<Longrightarrow> length (s_returns (series_after bars)) = length bars - 1"
proof (induction bars rule: rev_induct)
  case (snoc b bars)
  then have "0 < List.last (map fst bars)" if "bars \<noteq> []"
    using that by (simp add: priced_bars_def last_map)
  then have "length (s_returns (series_after (bars @ [b])))
      = length (s_returns (series_after bars)) + (if bars = [] then 0 else 1)"
    unfolding series_after_snoc by (simp add: series_close_def)
  moreover have "length (s_returns (series_after bars)) = length bars - 1"
    using snoc by (simp add: priced_bars_def)
  ultimately show ?case by (cases bars) simp_all
qed (simp add: series_after_def new_series_def)

lemma take_series_after:
  "priced_bars bars \<Longrightarrow> take_series (series_after bars) u = series_after (take u bars)"
proof (induction bars arbitrary: u rule: rev_induct)
  case (snoc b bars)
  then have p: "priced_bars bars" by (simp add: priced_bars_def)
  note len = series_after_lengths [of bars] series_after_returns [OF p]
  show ?case
  proof (cases "u \<le> length bars")
    case True
    have "take_series (series_after (bars @ [b])) u = take_series (series_after bars) u"
      using True len by (auto simp: take_series_def series_after_snoc series_close_def)
    then show ?thesis using snoc.IH [OF p] True by simp
  next
    case False
    then show ?thesis using series_after_lengths [of "bars @ [b]"] series_after_returns [OF snoc.prems]
      by (simp add: take_series_def)
  qed
qed (simp add: take_series_def series_after_def new_series_def)

text \<open>
  The reference: what an expression was worth on each of the last \<open>len\<close> days, computed on the days up
  to that one and nothing later; the trailing run of days on which it was worth something.
\<close>

definition past_values :: "(day_bar list \<Rightarrow> val res) \<Rightarrow> day_bar list \<Rightarrow> int \<Rightarrow> pyfloat list option res" where
  "past_values f bars len =
     bind_res (history_loop (\<lambda>u. f (take u bars)) [nat (max 1 (int (length bars) - len + 1)) ..< length bars + 1] [])
       (\<lambda>vs. Inr (some_unless_empty vs))"

text \<open>No look-ahead: the derived series of a series of priced days consists of the values the inner
  expression had on the days themselves, computed from the days up to then only.\<close>

theorem derived_series_are_past_values:
  assumes "priced_bars bars"
  shows "expr_history ps k (series_after bars) e len = past_values (\<lambda>past. asof ps k (series_after past) e) bars len"
proof (cases "bars = []")
  case True
  have "history_loop f [nat (max 1 (1 - len))..<Suc 0] [] = Inr []" for f
    by (cases "nat (max 1 (1 - len)) < Suc 0") auto
  then show ?thesis using True
    by (simp add: expr_history_def past_values_def some_unless_empty_def)
next
  case False
  then show ?thesis using assms
    by (simp add: expr_history_def past_values_def past_days_def take_series_after Let_def del: upt_Suc)
qed

section \<open>The closed form of the volatility history\<close>

definition sd :: "pyfloat list \<Rightarrow> int \<Rightarrow> pyfloat" where
  "sd xs w = (let m = fdiv (fsum xs) (fint w)
              in fsqrt (fdiv (fsum (map (\<lambda>x. square (fsub x m)) xs)) (fint w)))"

lemma fint_pos: "1 \<le> w \<Longrightarrow> 0 < fint w"
  using fl_mono [of 1 "of_int w"] by (simp add: fint_def)

lemma square_nonneg [fl_sign]: "0 \<le> square x"
  by (simp add: square_def fmul_def fl_nonneg)

lemma pstdev_total: "1 \<le> w \<Longrightarrow> pstdev xs w = Inr (sd xs w)"
proof -
  assume w: "1 \<le> w"
  have "0 \<le> fdiv (fsum (map (\<lambda>x. square (fsub x m)) xs)) (fint w)" for m
    using fint_pos [OF w] by (intro fl_sign) (auto intro: fl_sign)
  then show ?thesis using fint_pos [OF w]
    by (simp add: pstdev_def mean_res_def div_res_def sd_def sqrt_res_def Let_def not_less [symmetric])
qed

lemma all_res_Inr [simp]: "all_res (map (\<lambda>x. Inr (f x)) xs) = Inr (map f xs)"
  by (induction xs) auto

lemma history_loop_ready:
  "history_loop (\<lambda>u. Inr (V (g u))) us vs = Inr (vs @ map g us)"
  by (induction us arbitrary: vs) (auto simp: as_num_def)

lemma history_loop_from:
  "history_loop (\<lambda>u. Inr (if u < a then NotReady else V (g u))) [b ..< c] [] = Inr (map g [max a b ..< c])"
proof (induction "c - b" arbitrary: b)
  case (Suc d)
  show ?case
  proof (cases "b < a")
    case True
    with Suc have "history_loop (\<lambda>u. Inr (if u < a then NotReady else V (g u))) [Suc b ..< c] []
        = Inr (map g [max a (Suc b) ..< c])" by auto
    moreover have "max a (Suc b) = max a b" using True by simp
    ultimately show ?thesis using Suc(2) True by (simp add: upt_rec)
  next
    case False
    have "history_loop (\<lambda>u. Inr (if u < a then NotReady else V (g u))) us vs = Inr (vs @ map g us)"
      if "\<forall>u\<in>set us. \<not> u < a" for us vs
      using that by (induction us arbitrary: vs) (auto simp: as_num_def)
    with False show ?thesis by simp
  qed
qed simp

lemma history_loop_cong:
  "(\<And>u. u \<in> set us \<Longrightarrow> f u = g u) \<Longrightarrow> history_loop f us vs = history_loop g us vs"
  by (induction us arbitrary: vs) auto

lemma upto_upt: "[int a - 1 .. int b - 1] = map (\<lambda>u. int u - 1) [a ..< b + 1]"
proof (induction b)
  case (Suc b)
  show ?case
  proof (cases "a \<le> Suc b")
    case True
    then have "[int a - 1 .. int (Suc b) - 1] = [int a - 1 .. int b - 1] @ [int b]"
      using upto_rec2 [of "int a - 1" "int b"] by simp
    then show ?thesis using Suc True by simp
  qed simp
qed (cases a; simp)

text \<open>The closed form of \<open>pct_rank\<close> over a volatility is the general history, bit for bit, on a
  series of priced days and a window of at least one session.\<close>

theorem closed_form_history:
  assumes n: "in_name n = ''realized_vol''" "in_sym n = None \<or> in_sym n = Some k"
    and w: "int_arg ps (in_window n) None = Inr w" "1 \<le> w" and p: "priced_bars bars"
  shows "vol_history ps (series_after bars) n l = expr_history ps k (series_after bars) (Ind n) l"
proof (cases "bars = []")
  case True
  then show ?thesis using w by (simp add: vol_history_def expr_history_def series_after_def new_series_def)
next
  case False
  let ?s = "series_after bars" and ?N = "length bars"
  let ?r = "s_returns ?s" and ?w = "nat w"
  let ?h = "\<lambda>u. sd (drop (u - 1 - ?w) (take (u - 1) ?r)) w"
  let ?b = "nat (max 1 (int ?N - l + 1))"
  have len: "length ?r = ?N - 1" by (rule series_after_returns [OF p])
  have N: "1 \<le> ?N" using False by (cases bars) auto
  have past: "asof ps k (take_series ?s u) (Ind n) = Inr (if u < ?w + 1 then NotReady else V (?h u))"
    if "u \<in> set [?b ..< ?N + 1]" for u
  proof -
    have u: "1 \<le> u" "u \<le> ?N" using that by auto
    then have "length (take (u - 1) ?r) = u - 1" using len by simp
    moreover have "slice_from (take (u - 1) ?r) (- w) = drop (u - 1 - ?w) (take (u - 1) ?r)"
      using slice_from_neg [of ?w "take (u - 1) ?r"] w(2) u len by (simp add: last_n_def)
    moreover have "u < ?w + 1 \<longleftrightarrow> \<not> w \<le> int (u - 1)" using u w(2) by linarith
    ultimately show ?thesis using n w u
      by (simp add: asof_ind_def DERIVED_def base_compute_def WINDOW_INDS_def window_ind_def Let_def
          have_returns_def take_series_def ready_if_def pstdev_total)
  qed
  have "history_loop (\<lambda>u. asof ps k (take_series ?s u) (Ind n)) [?b ..< ?N + 1] []
      = Inr (map ?h [max (?w + 1) ?b ..< ?N + 1])"
    by (rule trans [OF history_loop_cong [OF past] history_loop_from])
  then have hist: "expr_history ps k ?s (Ind n) l
      = Inr (some_unless_empty (map ?h [max (?w + 1) ?b ..< ?N + 1]))"
    using False by (simp add: expr_history_def past_days_def Let_def del: upt_Suc)
  show ?thesis
  proof (cases "int (length ?r) < w")
    case True
    then have "[max (?w + 1) ?b ..< ?N + 1] = []" using len N by simp
    then show ?thesis using hist True w by (simp add: vol_history_def some_unless_empty_def)
  next
    case False
    let ?a = "max (?w + 1) ?b"
    have a: "int ?a - 1 = max w (int (length ?r) - l + 1)" using len N w(2) by linarith
    have h: "pstdev (slice ?r (hi - w) hi) w = Inr (?h (nat (hi + 1)))"
      if "w \<le> hi" "hi \<le> int (length ?r)" for hi
      using that w(2) by (simp add: pstdev_total slice_def slice_pos_def nat_diff_distrib nat_add_distrib min_def)
    have "map (\<lambda>hi. pstdev (slice ?r (hi - w) hi) w) [int ?a - 1 .. int (length ?r)]
        = map (\<lambda>hi. Inr (?h (nat (hi + 1)))) [int ?a - 1 .. int (length ?r)]"
      using a by (intro map_cong [OF refl] h) auto
    moreover have "map (\<lambda>hi. ?h (nat (hi + 1))) [int ?a - 1 .. int (length ?r)] = map ?h [?a ..< ?N + 1]"
    proof -
      have "int (length ?r) = int ?N - 1" using len N by simp
      then show ?thesis using upto_upt [of ?a ?N] by (simp add: o_def del: upt_Suc)
    qed
    ultimately have "all_res (map (\<lambda>hi. pstdev (slice ?r (hi - w) hi) w)
          [max w (int (length ?r) - l + 1) .. int (length ?r)]) = Inr (map ?h [?a ..< ?N + 1])"
      unfolding a [symmetric] by (simp only: all_res_Inr)
    then show ?thesis using False
      unfolding vol_history_def w(1) bind_res_simps Let_def hist by (simp del: upt_Suc)
  qed
qed

section \<open>Ranges\<close>

lemma rank_index_bounds: "- 1 \<le> rank_index v srt"
proof -
  have "- 1 \<le> foldl (\<lambda>idx i. if srt ! i \<le> v then int i else idx) a us" if "- 1 \<le> a" for a us
    using that by (induction us arbitrary: a) auto
  then show ?thesis by (simp add: rank_index_def)
qed

lemma pct_rank_bounds: "0 \<le> pct_rank hist" "pct_rank hist \<le> 1"
proof -
  have "0 \<le> fint (rank_index v srt + 1)" for v srt
    using rank_index_bounds [of v srt] by (simp add: fint_def fl_nonneg)
  moreover have "0 \<le> fint (int n - 1)" if "\<not> n \<le> 1" for n using that by (simp add: fint_def fl_nonneg)
  ultimately show "0 \<le> pct_rank hist" "pct_rank hist \<le> 1"
    by (simp_all add: pct_rank_def Let_def fdiv_nonneg)
qed

lemma strength_of: "0 \<le> g \<Longrightarrow> 0 \<le> l \<Longrightarrow> rsi_of g l = Inr (if l = 0 then 100 else strength g l)"
proof -
  assume g: "0 \<le> g" "0 \<le> l"
  have "1 \<le> fadd 1 (fdiv g l)"
    using fl_mono [of 1 "1 + fdiv g l"] fdiv_nonneg [OF g] by (simp add: fadd_def)
  then show ?thesis by (auto simp: rsi_of_def div_res_def strength_def)
qed

lemma rsi_bounds:
  assumes "0 \<le> g" "0 \<le> l" "rsi_of g l = Inr x"
  shows "0 \<le> x \<and> x \<le> 100"
  using strength_of [OF assms(1,2)] strength_bounds [of g l] assms by auto

lemma wilder_avg_nonneg:
  assumes "1 \<le> w" "\<forall>x\<in>set xs. 0 \<le> x" "0 \<le> a"
  shows "0 \<le> foldl (wilder_step w) a xs"
proof -
  have "0 \<le> fint (w - 1)" "0 \<le> fint w" using assms(1) by (simp_all add: fint_def fl_nonneg)
  then have "0 \<le> wilder_step w b x" if "0 \<le> b" "0 \<le> x" for b x
    using that by (simp add: wilder_step_def fl_sign)
  then show ?thesis using assms(2,3) by (induction xs arbitrary: a) auto
qed

lemma gain_loss_nonneg: "0 \<le> gain_of d" "0 \<le> loss_of d"
  by (simp_all add: gain_of_def loss_of_def)

lemma wilder_rsi_bounds:
  assumes w: "1 \<le> w" and x: "wilder_rsi p w = Inr x"
  shows "0 \<le> x \<and> x \<le> 100"
proof -
  have avg: "0 \<le> foldl (wilder_step w) (fdiv (fsum (map f ds)) (fint w)) (map f es)"
    if "\<And>d. 0 \<le> f d" for f ds es
    using that fint_pos [OF w] by (intro wilder_avg_nonneg [OF w] fl_sign) (auto intro: less_imp_le)
  show ?thesis using x unfolding wilder_rsi_def Let_def
    by (intro rsi_bounds [OF avg avg]) (auto simp: gain_loss_nonneg)
qed

lemma simple_rsi_bounds:
  assumes w: "1 \<le> w" and x: "simple_rsi rs w = Inr x"
  shows "0 \<le> x \<and> x \<le> 100"
proof -
  let ?win = "slice_from rs (- w)"
  have "0 \<le> fdiv (fsum (filter (\<lambda>r. 0 < r) ?win)) (fint w)"
    "0 \<le> fdiv (fsum (map uminus (filter (\<lambda>r. r < 0) ?win))) (fint w)"
    using fint_pos [OF w] by (intro fl_sign; auto)+
  then show ?thesis using x fint_pos [OF w]
    by (auto simp: simple_rsi_def mean_res_def div_res_def Let_def dest: rsi_bounds [rotated 2])
qed

lemma drawdown_loop_le: "worst \<le> 0 \<Longrightarrow> drawdown_loop cs peak worst = Inr x \<Longrightarrow> x \<le> 0"
  by (induction cs peak worst rule: drawdown_loop.induct)
    (auto simp: Let_def bind_res_Inr_iff min_le_iff_disj)

text \<open>C28: an indicator over a window of at least one session keeps to its range: both strength indices
  to 0..100, volatility and deviation to the non-negative numbers, drawdown to the non-positive ones,
  and the extremes bound the closes of the window; a percentile rank is between 0 and 1.\<close>

theorem indicator_ranges:
  assumes w: "int_arg ps (in_window n) None = Inr w" "1 \<le> w" and x: "base_compute ps s n = Inr (V x)"
  shows "(in_name n = ''rsi'' \<longrightarrow> 0 \<le> x \<and> x \<le> 100) \<and>
    (in_name n \<in> {''realized_vol'', ''std''} \<longrightarrow> 0 \<le> x) \<and>
    (in_name n = ''drawdown'' \<longrightarrow> x \<le> 0) \<and>
    (in_name n = ''highest'' \<longrightarrow> (\<forall>c\<in>set (last_n (nat w) (s_closes s)). c \<le> x)) \<and>
    (in_name n = ''lowest'' \<longrightarrow> (\<forall>c\<in>set (last_n (nat w) (s_closes s)). x \<le> c)) \<and>
    0 \<le> pct_rank hist \<and> pct_rank hist \<le> 1"
proof -
  have win: "slice_from xs (- w) = last_n (nat w) xs" for xs :: "pyfloat list"
    using slice_from_neg [of "nat w" xs] w(2) by simp
  note facts = base_compute_def WINDOW_INDS_def window_ind_def Let_def ready_if_def win bind_res_Inr_iff
  have "in_name n = ''rsi'' \<longrightarrow> 0 \<le> x \<and> x \<le> 100"
    using x w wilder_rsi_bounds simple_rsi_bounds by (auto simp: facts split: if_splits)
  moreover have "in_name n \<in> {''realized_vol'', ''std''} \<longrightarrow> 0 \<le> x"
    using x w by (auto simp: facts pstdev_total sd_def fsqrt_nonneg split: if_splits)
  moreover have "in_name n = ''drawdown'' \<longrightarrow> x \<le> 0"
    using x w drawdown_loop_le by (auto simp: facts drawdown_res_def split: if_splits)
  moreover have "in_name n = ''highest'' \<longrightarrow> (\<forall>c\<in>set (last_n (nat w) (s_closes s)). c \<le> x)"
    using x w fmax_ge by (auto simp: facts max_res_def split: if_splits)
  moreover have "in_name n = ''lowest'' \<longrightarrow> (\<forall>c\<in>set (last_n (nat w) (s_closes s)). x \<le> c)"
    using x w fmin_le by (auto simp: facts min_res_def split: if_splits)
  ultimately show ?thesis using pct_rank_bounds [of hist] by blast
qed

text \<open>
  The module says the rank reproduces the test \<open>v >= srt[int(0.9 * (n - 1))]\<close> as \<open>rank >= 0.9\<close>.  When
  \<open>0.9 * (n - 1)\<close> is an integer it does not: with eleven values the ninth smallest passes.
\<close>

lemma rank_gate_differs_on_grid:
  "let hist = map of_nat ([0 ..< 8] @ [9, 10, 8]); q = fl (9 / 10)
   in q \<le> pct_rank hist \<and> List.last hist < sort hist ! nat (py_int (fmul q 10))"
  by code_simp

section \<open>A concrete series\<close>

definition demo_bars :: "day_bar list" where
  "demo_bars = [(10, None, None), (11, Some 12, Some 9), (9, None, None)]"

definition demo_node :: "string \<Rightarrow> ind" where
  "demo_node name = IndNode name None (Some (ArgNum 2)) False None None None False None"

lemma demo_node_facts:
  "in_name (demo_node x) = x" "in_sym (demo_node x) = None"
  "int_arg ps (in_window (demo_node x)) None = Inr 2"
  by (simp_all add: demo_node_def int_arg_def arg_res_def py_int_def)

lemma derived_series_are_past_values_witness:
  "expr_history [] ''SPY'' (series_after demo_bars) (Ind (demo_node ''sma'')) 5
     = past_values (\<lambda>past. asof [] ''SPY'' (series_after past) (Ind (demo_node ''sma''))) demo_bars 5"
  by (rule derived_series_are_past_values) (simp add: priced_bars_def demo_bars_def)

lemma closed_form_history_witness:
  "vol_history [] (series_after demo_bars) (demo_node ''realized_vol'') 5
     = expr_history [] ''SPY'' (series_after demo_bars) (Ind (demo_node ''realized_vol'')) 5"
  by (rule closed_form_history [OF _ _ demo_node_facts(3)])
    (simp_all add: demo_node_facts priced_bars_def demo_bars_def)

lemma indicator_ranges_witness:
  "list_all (\<lambda>c. c \<le> 11) (last_n 2 (s_closes (series_after demo_bars)))"
proof -
  have "base_compute [] (series_after demo_bars) (demo_node ''highest'') = Inr (V 11)" by code_simp
  from indicator_ranges [OF demo_node_facts(3) _ this] show ?thesis by (simp add: demo_node_facts list_all_iff)
qed

end
