(* ===== verification/Payload.thy ===== *)
theory Payload
  imports Orders Calendar PyList "HOL-Library.List_Lexorder" "HOL-Library.Char_ord"
begin

text \<open>
  The orders and holdings a tick hands the executor: \<open>project_orders\<close> and \<open>daily_preview\<close> of
  \<open>dqengine/live/driver/engine.py\<close>.  A moment is a day and the milliseconds since its midnight; the
  lines of the journal are data instead of formatted text.
\<close>

section \<open>What the engine returns\<close>

record open_row =
  oo_sym :: string
  oo_qty :: int
  oo_type :: "string option"
  oo_id :: "int option"
  oo_tag :: string
  oo_limit :: "pyfloat option"
  oo_stop :: "pyfloat option"
  oo_trail :: "pyfloat option"
  oo_created :: "day option"

record held_row =
  h_sym :: sym
  h_qty :: int
  h_px :: pyfloat
  h_value :: pyfloat
  h_entry :: pyfloat

record run_fill =
  rf_day :: day
  rf_ms :: ms
  rf_sym :: string
  rf_qty :: int
  rf_px :: pyfloat
  rf_tag :: string
  rf_fees :: pyfloat
  rf_model :: "pyfloat option"
  rf_confirmed :: bool
  rf_at_open :: bool

record daily_live =
  dl_today :: day
  dl_bar_applied :: bool
  dl_next_fire :: "ms option"

datatype daily_note =
    FillsAtEdge sym int string
  | NoChannelYet sym "string option"
  | NoOrderId sym string
  | NoTrailPct sym
  | AtCloseNow sym int bool
  | AtOpenNow sym int
  | HeldOut sym int day

record exit_row =
  xo_type :: string
  xo_sym :: sym
  xo_price :: "pyfloat option"
  xo_stop :: "pyfloat option"
  xo_trail :: "pyfloat option"
  xo_rule :: string
  xo_side :: string
  xo_qty :: int

record entry_row =
  eo_type :: string
  eo_sym :: sym
  eo_qty :: int
  eo_price :: "pyfloat option"
  eo_stop :: "pyfloat option"
  eo_rule :: string
  eo_side :: string

record close_row =
  co_sym :: sym
  co_qty :: int
  co_rule :: "string option"

section \<open>Resting orders\<close>

definition EXIT_TYPE :: "(string, string) dict" where
  "EXIT_TYPE = [(''limit'', ''limit_sell''), (''stop'', ''stop''), (''stop_limit'', ''stop_limit''),
     (''trailing_stop'', ''trailing_stop'')]"

definition ENTRY_TYPE :: "(string, string) dict" where
  "ENTRY_TYPE = [(''limit'', ''limit''), (''stop'', ''stop''), (''stop_limit'', ''stop_limit''),
     (''trailing_stop'', ''trailing_stop'')]"

definition NEVER_RESTS :: "string list" where "NEVER_RESTS = [''market'']"

definition DAILY_EDGE :: "string list" where "DAILY_EDGE = [''market_on_close'', ''market_on_open'']"

text \<open>\<open>intent_id\<close> of an order whose id may be missing.\<close>

definition rule_of :: "sym \<Rightarrow> int option \<Rightarrow> string \<Rightarrow> string" where
  "rule_of s oid tag =
     (case oid of
        Some i \<Rightarrow> intent_id s i tag
      | None \<Rightarrow> if starts_with tag GENERATED_TAG_PREFIX then drop (length GENERATED_TAG_PREFIX) tag
                else ''py:'' @ upper s @ '':None'')"

definition held_of :: "held_row list \<Rightarrow> (sym, int) dict" where
  "held_of hs = foldl (\<lambda>d h. dput d (h_sym h) (h_qty h)) [] hs"

definition reduces :: "int \<Rightarrow> int \<Rightarrow> bool" where
  "reduces prev q \<longleftrightarrow> \<bar>prev + q\<bar> < \<bar>prev\<bar>"

datatype projected = NoLine | Exit exit_row | Entry entry_row | Deferred daily_note

definition side_word :: "int \<Rightarrow> string" where
  "side_word q = (if 0 < q then ''buy'' else ''sell'')"

definition project_one :: "bool \<Rightarrow> (sym, int) dict \<Rightarrow> open_row \<Rightarrow> projected" where
  "project_one daily held r =
     (let s = upper (oo_sym r); q = oo_qty r
      in if s = [] \<or> q = 0 then NoLine
         else case oo_type r of
           None \<Rightarrow> Deferred (NoChannelYet s None)
         | Some k \<Rightarrow>
             (case dget ENTRY_TYPE k of
                None \<Rightarrow>
                  if daily \<and> k \<in> set DAILY_EDGE then Deferred (FillsAtEdge s q k)
                  else if k \<notin> set NEVER_RESTS then Deferred (NoChannelYet s (Some k))
                  else NoLine
              | Some entry_type \<Rightarrow>
                  (case oo_id r of
                     None \<Rightarrow> Deferred (NoOrderId s k)
                   | Some i \<Rightarrow>
                       if k = ''trailing_stop'' \<and> num_or0 (oo_trail r) = 0 then Deferred (NoTrailPct s)
                       else if reduces (dget_or held s 0) q
                       then Exit \<lparr>xo_type = dget_or EXIT_TYPE k [], xo_sym = s, xo_price = oo_limit r,
                              xo_stop = oo_stop r, xo_trail = oo_trail r,
                              xo_rule = intent_id s i (oo_tag r), xo_side = side_word q, xo_qty = \<bar>q\<bar>\<rparr>
                       else Entry \<lparr>eo_type = entry_type, eo_sym = s, eo_qty = \<bar>q\<bar>, eo_price = oo_limit r,
                              eo_stop = oo_stop r, eo_rule = intent_id s i (oo_tag r),
                              eo_side = side_word q\<rparr>)))"

definition collect :: "projected \<Rightarrow> exit_row list \<times> entry_row list \<times> daily_note list
    \<Rightarrow> exit_row list \<times> entry_row list \<times> daily_note list" where
  "collect p acc =
     (case acc of (xs, es, ds) \<Rightarrow>
       (case p of
          NoLine \<Rightarrow> (xs, es, ds)
        | Exit x \<Rightarrow> (xs @ [x], es, ds)
        | Entry e \<Rightarrow> (xs, es @ [e], ds)
        | Deferred d \<Rightarrow> (xs, es, ds @ [d])))"

definition project_orders ::
  "open_row list \<Rightarrow> held_row list \<Rightarrow> bool \<Rightarrow> exit_row list \<times> entry_row list \<times> daily_note list" where
  "project_orders rows hs daily =
     foldl (\<lambda>acc r. collect (project_one daily (held_of hs) r) acc) ([], [], []) rows"

section \<open>The daily preview\<close>

definition OPEN_PREVIEW_MS :: ms where "OPEN_PREVIEW_MS = (9 * 3600 + 31 * 60) * 1000"

definition CLOSE_PREVIEW_LEAD_MS :: ms where "CLOSE_PREVIEW_LEAD_MS = 60000"

definition NATIVE_MOC_CUTOFF_LEAD_MS :: ms where "NATIVE_MOC_CUTOFF_LEAD_MS = 12 * 60000"

definition session_close_ms :: "day \<Rightarrow> ms option" where
  "session_close_ms d = (if 5 \<le> weekday d \<or> is_market_holiday d then None else Some (close_time_ms d))"

text \<open>The resting tickets of one edge, per symbol: the net quantity and the rules, in order.\<close>

definition add_ticket ::
  "(sym, int \<times> string list) dict \<Rightarrow> open_row \<Rightarrow> (sym, int \<times> string list) dict" where
  "add_ticket d r =
     (let s = upper (oo_sym r); q = oo_qty r
      in if oo_type r \<noteq> Some ''market_on_close'' \<or> s = [] \<or> q = 0 then d
         else let (net, rules) = dget_or d s (0, [])
              in dput d s (net + q, rules @ [rule_of s (oo_id r) (oo_tag r)]))"

definition close_tickets :: "open_row list \<Rightarrow> (sym, int \<times> string list) dict" where
  "close_tickets rows = foldl add_ticket [] rows"

definition bump :: "(sym, int) dict \<Rightarrow> sym \<Rightarrow> int \<Rightarrow> (sym, int) dict" where
  "bump d s q = dput d s (dget_or d s 0 + q)"

record preview =
  pv_add :: "(sym, int) dict"
  pv_close :: "close_row list"
  pv_notes :: "daily_note list"

definition at_close_step :: "bool \<Rightarrow> preview \<Rightarrow> sym \<times> int \<times> string list \<Rightarrow> preview" where
  "at_close_step publish p e =
     (case e of (s, net, rules) \<Rightarrow>
       if net = 0 then p
       else p\<lparr>pv_add := bump (pv_add p) s net,
              pv_close := pv_close p @ (if publish
                then [\<lparr>co_sym = s, co_qty = net, co_rule = (if length rules = 1 then Some (hd rules) else None)\<rparr>]
                else []),
              pv_notes := pv_notes p @ [AtCloseNow s net publish]\<rparr>)"

definition native_window :: "bool \<Rightarrow> ms \<Rightarrow> ms \<Rightarrow> bool" where
  "native_window native now close \<longleftrightarrow> native \<and> now < close - NATIVE_MOC_CUTOFF_LEAD_MS"

definition emulation_window :: "ms \<Rightarrow> ms \<Rightarrow> bool" where
  "emulation_window now close \<longleftrightarrow> close - CLOSE_PREVIEW_LEAD_MS \<le> now"

definition by_symbol :: "(sym, 'v) dict \<Rightarrow> (sym \<times> 'v) list" where
  "by_symbol d = sort_key fst d"

text \<open>Two at-close tickets on one symbol cannot go to a broker as one order.\<close>

definition at_close :: "bool \<Rightarrow> bool \<Rightarrow> ms \<Rightarrow> ms \<Rightarrow> open_row list \<Rightarrow> preview \<Rightarrow> preview res" where
  "at_close broker native now close rows p =
     (if native_window native now close \<or> emulation_window now close
      then let d = by_symbol (close_tickets rows); publish = native_window native now close \<or> \<not> native
           in if broker \<and> (\<exists>e\<in>set d. 1 < length (snd (snd e)))
              then Inl (RuntimeError ''DailyEdgeCollision'')
              else Inr (foldl (at_close_step publish) p d)
      else Inr p)"

definition at_open_step :: "day \<Rightarrow> preview \<Rightarrow> open_row \<Rightarrow> preview" where
  "at_open_step today p r =
     (let s = upper (oo_sym r); q = oo_qty r
      in if oo_type r \<noteq> Some ''market_on_open'' \<or> s = [] \<or> q = 0 then p
         else case oo_created r of
                None \<Rightarrow> p
              | Some c \<Rightarrow>
                  if today \<le> c then p
                  else p\<lparr>pv_add := bump (pv_add p) s q, pv_notes := pv_notes p @ [AtOpenNow s q]\<rparr>)"

definition at_open :: "day \<Rightarrow> ms \<Rightarrow> open_row list \<Rightarrow> preview \<Rightarrow> preview" where
  "at_open today now rows p =
     (if OPEN_PREVIEW_MS \<le> now then foldl (at_open_step today) p rows else p)"

text \<open>A fill the model booked at or after a close on its own authority, while the market stays shut.\<close>

definition held_fill :: "day \<Rightarrow> bool \<Rightarrow> run_fill \<Rightarrow> bool" where
  "held_fill today released f \<longleftrightarrow>
     \<not> rf_confirmed f \<and>
     (case session_close_ms (rf_day f) of None \<Rightarrow> False | Some c \<Rightarrow> c \<le> rf_ms f) \<and>
     \<not> (rf_day f < today \<and> released)"

definition recent_fills :: "day \<Rightarrow> run_fill list \<Rightarrow> run_fill list" where
  "recent_fills today fs = takeWhile (\<lambda>f. today - rf_day f \<le> 10) (rev fs)"

definition held_fills :: "day \<Rightarrow> bool \<Rightarrow> run_fill list \<Rightarrow> run_fill list" where
  "held_fills today released fs = filter (held_fill today released) (recent_fills today fs)"

definition hold_step ::
  "preview \<times> (sym, int) dict \<Rightarrow> run_fill \<Rightarrow> preview \<times> (sym, int) dict" where
  "hold_step pd f =
     (case pd of (p, held) \<Rightarrow>
       let s = upper (rf_sym f)
       in (p\<lparr>pv_add := bump (pv_add p) s (- rf_qty f),
             pv_notes := pv_notes p @ [HeldOut s (rf_qty f) (rf_day f)]\<rparr>,
           bump held s (rf_qty f)))"

text \<open>
  The published holdings: each position with what is added to its symbol, a position that becomes
  zero left out, then the symbols the model does not hold.
\<close>

definition cents :: "pyfloat \<Rightarrow> pyfloat" where "cents x = py_round x 2"

definition worth :: "int \<Rightarrow> pyfloat \<Rightarrow> pyfloat" where "worth q px = cents (fmul (fint q) px)"

definition restate_step :: "held_row list \<times> (sym, int) dict \<Rightarrow> held_row \<Rightarrow> held_row list \<times> (sym, int) dict" where
  "restate_step acc h =
     (case acc of (out, add) \<Rightarrow>
       let s = upper (h_sym h); q = h_qty h + dget_or add s 0
       in ((if q = 0 then out else out @ [h\<lparr>h_qty := q, h_value := worth q (h_px h)\<rparr>]), ddel add s))"

definition unheld_row :: "(sym, pyfloat) dict \<Rightarrow> sym \<times> int \<Rightarrow> held_row list" where
  "unheld_row lasts e =
     (if snd e = 0 then []
      else let px = dget_or lasts (fst e) 0
           in [\<lparr>h_sym = fst e, h_qty = snd e, h_px = cents px, h_value = worth (snd e) px, h_entry = 0\<rparr>])"

definition restate :: "(sym, pyfloat) dict \<Rightarrow> (sym, int) dict \<Rightarrow> held_row list \<Rightarrow> held_row list" where
  "restate lasts add hs =
     (if add = [] then hs
      else let (out, rest) = foldl restate_step ([], add) hs
           in out @ concat (map (unheld_row lasts) (by_symbol rest)))"

record previewed =
  pr_holdings :: "held_row list"
  pr_close :: "close_row list"
  pr_notes :: "daily_note list"
  pr_ticket_add :: "(sym, int) dict"
  pr_held_out :: "(sym, int) dict"

definition no_preview :: preview where
  "no_preview = \<lparr>pv_add = [], pv_close = [], pv_notes = []\<rparr>"

definition tickets_ahead ::
  "daily_live \<Rightarrow> open_row list \<Rightarrow> day \<Rightarrow> ms \<Rightarrow> bool \<Rightarrow> bool \<Rightarrow> preview res" where
  "tickets_ahead dl rows today now broker native =
     (case session_close_ms today of
        Some close \<Rightarrow>
          if dl_today dl = today \<and> \<not> dl_bar_applied dl
          then bind_res (at_close broker native now close rows no_preview)
                 (\<lambda>p. Inr (at_open today now rows p))
          else Inr no_preview
      | None \<Rightarrow> Inr no_preview)"

definition daily_preview ::
  "daily_live \<Rightarrow> run_fill list \<Rightarrow> (sym, pyfloat) dict \<Rightarrow> held_row list \<Rightarrow> open_row list \<Rightarrow>
   day \<Rightarrow> ms \<Rightarrow> bool \<Rightarrow> bool \<Rightarrow> previewed res" where
  "daily_preview dl fs lasts hs rows today now broker native =
     bind_res (tickets_ahead dl rows today now broker native) (\<lambda>p.
       let released = session_close_ms today \<noteq> None \<and> OPEN_PREVIEW_MS \<le> now;
           (q, held) = foldl hold_step (p, []) (held_fills today released fs)
       in Inr \<lparr>pr_holdings = restate lasts (pv_add q) hs, pr_close = pv_close q, pr_notes = pv_notes q,
               pr_ticket_add = filter (\<lambda>e. snd e \<noteq> 0) (pv_add p), pr_held_out = held\<rparr>)"

end
