(* ===== verification/PayloadProps.thy ===== *)
theory PayloadProps
  imports Payload
begin

text \<open>
  The published target of a daily deployment, symbol by symbol: the model's holding, plus the tickets
  the broker is being asked for now, minus the fills the model booked at a close and the broker has
  not confirmed.  And what becomes of each resting order.
\<close>

section \<open>Adding up quantities\<close>

lemma upper_empty [simp]: "upper s = [] \<longleftrightarrow> s = []" "[] = upper s \<longleftrightarrow> s = []"
  by (auto simp: upper_def)

definition net_qty :: "held_row list \<Rightarrow> sym \<Rightarrow> int" where
  "net_qty hs s = sum_list (map h_qty (filter (\<lambda>h. upper (h_sym h) = s) hs))"

lemma net_qty_append [simp]: "net_qty (hs @ ks) s = net_qty hs s + net_qty ks s"
  by (simp add: net_qty_def)

lemma net_qty_Nil [simp]: "net_qty [] s = 0"
  by (simp add: net_qty_def)

lemma net_qty_Cons: "net_qty (h # hs) s = (if upper (h_sym h) = s then h_qty h else 0) + net_qty hs s"
  by (simp add: net_qty_def)

definition upper_keys :: "(sym, 'v) dict \<Rightarrow> bool" where
  "upper_keys d \<longleftrightarrow> dict_ok d \<and> (\<forall>k\<in>set (dkeys d). upper k = k)"

lemma set_dkeys_dput: "set (dkeys (dput d k v)) = insert k (set (dkeys d))"
  by (auto simp: dkeys_def dput_def dom_update)

lemma set_dkeys_ddel: "set (dkeys (ddel d k)) \<subseteq> set (dkeys d)"
  by (auto simp: dkeys_def ddel_def AList.delete_eq)

lemma upper_keys_intros:
  "upper_keys []" "upper_keys d \<Longrightarrow> upper_keys (dput d (upper k) v)" "upper_keys d \<Longrightarrow> upper_keys (ddel d j)"
  using set_dkeys_ddel [of d j]
  by (auto simp: upper_keys_def set_dkeys_dput) (auto simp: dkeys_def)

lemma dget_or_empty: "dget_or [] s v = v"
  by (simp add: dget_or_def)

lemma bump_get: "dget_or (bump d k q) s 0 = dget_or d s 0 + (if k = s then q else 0)"
  by (simp add: bump_def dict_simps)

lemma upper_keys_bump: "upper_keys d \<Longrightarrow> upper k = k \<Longrightarrow> upper_keys (bump d k q)"
  using upper_keys_intros(2) [of d k] by (simp add: bump_def)

section \<open>Restating the holdings\<close>

lemma restate_fold:
  assumes "foldl restate_step (out, add) hs = (out', add')"
  shows "net_qty out' s + dget_or add' s 0 = net_qty out s + dget_or add s 0 + net_qty hs s"
    and "upper_keys add \<Longrightarrow> upper_keys add'"
proof -
  have "net_qty out' s + dget_or add' s 0 = net_qty out s + dget_or add s 0 + net_qty hs s
      \<and> (upper_keys add \<longrightarrow> upper_keys add')"
    using assms
  proof (induction hs arbitrary: out add)
    case (Cons h hs)
    obtain o1 a1 where s1: "restate_step (out, add) h = (o1, a1)" by (cases "restate_step (out, add) h")
    then have "net_qty o1 s + dget_or a1 s 0 = net_qty out s + dget_or add s 0
        + (if upper (h_sym h) = s then h_qty h else 0)" "upper_keys add \<longrightarrow> upper_keys a1"
      by (auto simp: restate_step_def Let_def net_qty_Cons dict_simps upper_keys_intros split: if_splits)
    moreover have "foldl restate_step (o1, a1) hs = (out', add')" using Cons.prems s1 by simp
    ultimately show ?case using Cons.IH [of o1 a1] by (simp add: net_qty_Cons)
  qed simp
  then show "net_qty out' s + dget_or add' s 0 = net_qty out s + dget_or add s 0 + net_qty hs s"
    "upper_keys add \<Longrightarrow> upper_keys add'" by auto
qed

lemma unheld_rows:
  assumes "upper_keys d"
  shows "net_qty (concat (map (unheld_row lasts) (by_symbol d))) s = dget_or d s 0"
proof -
  have one: "net_qty (unheld_row lasts e) s = (if fst e = s then snd e else 0)" if "upper (fst e) = fst e" for e
    using that by (auto simp: unheld_row_def net_qty_Cons Let_def)
  have "net_qty (concat (map (unheld_row lasts) es)) s = sum_list (map (\<lambda>e. if fst e = s then snd e else 0) es)"
    if "\<forall>e\<in>set es. upper (fst e) = fst e" for es
    using that by (induction es) (simp_all add: one)
  moreover have "\<forall>e\<in>set (by_symbol d). upper (fst e) = fst e"
    using assms by (auto simp: upper_keys_def by_symbol_def dkeys_def)
  moreover have "sum_list (map g (by_symbol d)) = sum_list (map g d)" for g :: "sym \<times> int \<Rightarrow> int"
    by (metis by_symbol_def mset_map mset_sort sum_mset_sum_list)
  moreover have "sum_list (map (\<lambda>e. if fst e = s then snd e else 0) d) = dget_or d s 0"
    using assms
  proof (induction d)
    case (Cons e d)
    then have d: "upper_keys d" by (auto simp: upper_keys_def dict_ok_def dkeys_def)
    have "dget d (fst e) = None" using Cons.prems by (auto simp: upper_keys_def dict_ok_def dget_None_keys dkeys_def)
    then show ?case using Cons.IH [OF d] by (cases e) (auto simp: dget_or_def dget_def)
  qed (simp add: dict_simps)
  ultimately show ?thesis by simp
qed

lemma restate_net:
  assumes "upper_keys add"
  shows "net_qty (restate lasts add hs) s = net_qty hs s + dget_or add s 0"
proof (cases "add = []")
  case False
  obtain out rest where f: "foldl restate_step ([], add) hs = (out, rest)" by fastforce
  show ?thesis using False restate_fold [OF f] unheld_rows [of rest lasts s] assms
    by (simp add: restate_def f)
qed (simp add: restate_def dict_simps)

section \<open>The tickets ahead of the model\<close>

definition ticket_qty :: "(open_row \<Rightarrow> bool) \<Rightarrow> open_row list \<Rightarrow> sym \<Rightarrow> int" where
  "ticket_qty P rows s = sum_list (map oo_qty (filter (\<lambda>r. P r \<and> upper (oo_sym r) = s) rows))"

lemma ticket_qty_simps [simp]:
  "ticket_qty P [] s = 0"
  "ticket_qty P (r # rows) s = (if P r \<and> upper (oo_sym r) = s then oo_qty r else 0) + ticket_qty P rows s"
  by (simp_all add: ticket_qty_def)

definition net_of :: "(sym, int \<times> string list) dict \<Rightarrow> sym \<Rightarrow> int" where
  "net_of d s = fst (dget_or d s (0, []))"

definition is_moc :: "open_row \<Rightarrow> bool" where
  "is_moc r \<longleftrightarrow> oo_type r = Some ''market_on_close''"

definition is_moo :: "day \<Rightarrow> open_row \<Rightarrow> bool" where
  "is_moo today r \<longleftrightarrow>
     oo_type r = Some ''market_on_open'' \<and> (case oo_created r of None \<Rightarrow> False | Some c \<Rightarrow> c < today)"

lemma add_ticket_net:
  "s \<noteq> [] \<Longrightarrow> net_of (add_ticket d r) s = net_of d s + (if is_moc r \<and> upper (oo_sym r) = s then oo_qty r else 0)"
  "upper_keys d \<Longrightarrow> upper_keys (add_ticket d r)"
  by (auto simp: add_ticket_def net_of_def is_moc_def Let_def dict_simps split_beta upper_keys_intros)

lemma close_tickets_net:
  "s \<noteq> [] \<Longrightarrow> net_of (foldl add_ticket d rows) s = net_of d s + ticket_qty is_moc rows s"
  "upper_keys d \<Longrightarrow> upper_keys (foldl add_ticket d rows)"
  by (induction rows arbitrary: d) (auto simp: add_ticket_net)

lemma at_close_fold:
  "dget_or (pv_add (foldl (at_close_step b) p es)) s 0
     = dget_or (pv_add p) s 0 + sum_list (map (\<lambda>e. if fst e = s then fst (snd e) else 0) es)"
  "upper_keys (pv_add p) \<Longrightarrow> \<forall>e\<in>set es. upper (fst e) = fst e \<Longrightarrow>
     upper_keys (pv_add (foldl (at_close_step b) p es))"
  by (induction es arbitrary: p) (auto simp: at_close_step_def bump_get upper_keys_bump split_beta)

lemma sum_by_symbol:
  assumes "dict_ok d"
  shows "sum_list (map (\<lambda>e. if fst e = s then fst (snd e) else 0) (by_symbol d)) = net_of d s"
proof -
  have "sum_list (map g (by_symbol d)) = sum_list (map g d)" for g :: "sym \<times> int \<times> string list \<Rightarrow> int"
    by (metis by_symbol_def mset_map mset_sort sum_mset_sum_list)
  moreover have "sum_list (map (\<lambda>e. if fst e = s then fst (snd e) else 0) d) = net_of d s"
    using assms
  proof (induction d)
    case (Cons e d)
    then have d: "dict_ok d" by (auto simp: dict_ok_def)
    have "dget d (fst e) = None" using Cons.prems by (auto simp: dict_ok_def dget_None_keys dkeys_def)
    then show ?case using Cons.IH [OF d] by (cases e) (auto simp: net_of_def dget_or_def dget_def)
  qed (simp add: net_of_def dict_simps)
  ultimately show ?thesis by simp
qed

lemma at_open_fold:
  "s \<noteq> [] \<Longrightarrow> dget_or (pv_add (foldl (at_open_step today) p rows)) s 0
     = dget_or (pv_add p) s 0 + ticket_qty (is_moo today) rows s"
  "upper_keys (pv_add p) \<Longrightarrow> upper_keys (pv_add (foldl (at_open_step today) p rows))"
proof (induction rows arbitrary: p)
  case (Cons r rows)
  have step: "dget_or (pv_add (at_open_step today p r)) s 0
      = dget_or (pv_add p) s 0 + (if is_moo today r \<and> upper (oo_sym r) = s then oo_qty r else 0)" if "s \<noteq> []" for p
    using that by (auto simp: at_open_step_def Let_def bump_get is_moo_def split: option.splits)
  { case 1 then show ?case using Cons.IH(1) step by simp }
  { case 2 then show ?case using Cons.IH(2)
      by (auto simp: at_open_step_def Let_def upper_keys_bump split: option.splits) }
qed simp_all

text \<open>The tickets due now: at the close inside its window, at the open from 09:31 of the day after.\<close>

definition close_window :: "bool \<Rightarrow> day \<Rightarrow> ms \<Rightarrow> bool" where
  "close_window native today now \<longleftrightarrow>
     (case session_close_ms today of None \<Rightarrow> False
      | Some c \<Rightarrow> native_window native now c \<or> emulation_window now c)"

definition due_now :: "daily_live \<Rightarrow> bool \<Rightarrow> day \<Rightarrow> ms \<Rightarrow> open_row \<Rightarrow> bool" where
  "due_now dl native today now r \<longleftrightarrow>
     session_close_ms today \<noteq> None \<and> dl_today dl = today \<and> \<not> dl_bar_applied dl \<and>
     (is_moc r \<and> close_window native today now \<or> is_moo today r \<and> OPEN_PREVIEW_MS \<le> now)"

lemma ticket_qty_False [simp]: "ticket_qty (\<lambda>r. False) rows s = 0"
  by (induction rows) auto

lemma ticket_qty_or:
  "(\<And>r. \<not> (P r \<and> Q r)) \<Longrightarrow> ticket_qty (\<lambda>r. P r \<or> Q r) rows s = ticket_qty P rows s + ticket_qty Q rows s"
  by (induction rows) auto

lemma ticket_qty_if: "ticket_qty (\<lambda>r. P r \<and> b) rows s = (if b then ticket_qty P rows s else 0)"
  by simp

lemma at_close_net:
  assumes "at_close broker native now c rows no_preview = Inr p" "s \<noteq> []"
  shows "dget_or (pv_add p) s 0
      = (if native_window native now c \<or> emulation_window now c then ticket_qty is_moc rows s else 0)"
    and "upper_keys (pv_add p)"
proof -
  let ?d = "close_tickets rows"
  have k: "upper_keys ?d" unfolding close_tickets_def by (rule close_tickets_net(2)) (rule upper_keys_intros)
  then have up: "\<forall>e\<in>set (by_symbol ?d). upper (fst e) = fst e"
    by (auto simp: upper_keys_def by_symbol_def dkeys_def)
  have n: "net_of ?d s = ticket_qty is_moc rows s"
    unfolding close_tickets_def using close_tickets_net(1) [OF assms(2), of "[]"] by (simp add: net_of_def dget_or_empty)
  show "dget_or (pv_add p) s 0
      = (if native_window native now c \<or> emulation_window now c then ticket_qty is_moc rows s else 0)"
    using assms(1) k n sum_by_symbol [of ?d s]
    by (auto simp: at_close_def Let_def at_close_fold(1) upper_keys_def no_preview_def dget_or_empty split: if_splits)
  show "upper_keys (pv_add p)"
    using assms(1) at_close_fold(2) [OF _ up] upper_keys_intros(1)
    by (auto simp: at_close_def Let_def no_preview_def split: if_splits)
qed

lemma tickets_ahead_net:
  assumes "tickets_ahead dl rows today now broker native = Inr p" "s \<noteq> []"
  shows "dget_or (pv_add p) s 0 = ticket_qty (due_now dl native today now) rows s" "upper_keys (pv_add p)"
proof -
  have "dget_or (pv_add p) s 0 = ticket_qty (due_now dl native today now) rows s \<and> upper_keys (pv_add p)"
  proof (cases "session_close_ms today \<noteq> None \<and> dl_today dl = today \<and> \<not> dl_bar_applied dl")
    case False
    then have "p = no_preview" using assms(1) by (auto simp: tickets_ahead_def split: option.splits if_splits)
    moreover have "due_now dl native today now = (\<lambda>r. False)" using False by (auto simp: due_now_def fun_eq_iff)
    ultimately show ?thesis by (simp add: no_preview_def dget_or_empty upper_keys_intros)
  next
    case True
    then obtain c p0 where c: "session_close_ms today = Some c"
      and p0: "at_close broker native now c rows no_preview = Inr p0" and p: "p = at_open today now rows p0"
      using assms(1) by (auto simp: tickets_ahead_def bind_res_Inr_iff)
    have due: "due_now dl native today now = (\<lambda>r. (is_moc r \<and> close_window native today now)
        \<or> (is_moo today r \<and> OPEN_PREVIEW_MS \<le> now))"
      using True by (auto simp: due_now_def fun_eq_iff)
    have "ticket_qty (due_now dl native today now) rows s
        = (if close_window native today now then ticket_qty is_moc rows s else 0)
          + (if OPEN_PREVIEW_MS \<le> now then ticket_qty (is_moo today) rows s else 0)"
      unfolding due by (subst ticket_qty_or, simp add: is_moc_def is_moo_def, simp add: ticket_qty_if)
    moreover have "close_window native today now \<longleftrightarrow> native_window native now c \<or> emulation_window now c"
      by (simp add: close_window_def c)
    ultimately show ?thesis using p at_close_net [OF p0 assms(2)] at_open_fold(1) [of s today p0 rows]
      at_open_fold(2) [of p0 today rows] assms(2)
      by (auto simp: at_open_def)
  qed
  then show "dget_or (pv_add p) s 0 = ticket_qty (due_now dl native today now) rows s" "upper_keys (pv_add p)"
    by auto
qed

section \<open>The fills held out\<close>

definition fill_qty :: "run_fill list \<Rightarrow> sym \<Rightarrow> int" where
  "fill_qty fs s = sum_list (map rf_qty (filter (\<lambda>f. upper (rf_sym f) = s) fs))"

lemma hold_fold:
  assumes "foldl hold_step (p, held) fs = (q, held')"
  shows "dget_or (pv_add q) s 0 = dget_or (pv_add p) s 0 - fill_qty fs s \<and>
    dget_or held' s 0 = dget_or held s 0 + fill_qty fs s \<and> (upper_keys (pv_add p) \<longrightarrow> upper_keys (pv_add q))"
  using assms
proof (induction fs arbitrary: p held)
  case (Cons f fs)
  obtain p1 h1 where s1: "hold_step (p, held) f = (p1, h1)" by fastforce
  then have "foldl hold_step (p1, h1) fs = (q, held')" using Cons.prems by simp
  from Cons.IH [OF this] s1 show ?case
    by (auto simp: hold_step_def Let_def bump_get fill_qty_def upper_keys_bump)
qed (simp add: fill_qty_def)

definition held_now :: "run_fill list \<Rightarrow> day \<Rightarrow> ms \<Rightarrow> run_fill list" where
  "held_now fs today now = held_fills today (session_close_ms today \<noteq> None \<and> OPEN_PREVIEW_MS \<le> now) fs"

lemma daily_preview_cases:
  assumes "daily_preview dl fs lasts hs rows today now broker native = Inr r"
  obtains p q held where "tickets_ahead dl rows today now broker native = Inr p"
    "foldl hold_step (p, []) (held_now fs today now) = (q, held)"
    "r = \<lparr>pr_holdings = restate lasts (pv_add q) hs, pr_close = pv_close q, pr_notes = pv_notes q,
          pr_ticket_add = filter (\<lambda>e. snd e \<noteq> 0) (pv_add p), pr_held_out = held\<rparr>"
proof -
  obtain p where p: "tickets_ahead dl rows today now broker native = Inr p"
    using assms by (auto simp: daily_preview_def bind_res_Inr_iff)
  obtain q held where q: "foldl hold_step (p, []) (held_now fs today now) = (q, held)" by fastforce
  show ?thesis using assms p q by (intro that [OF p q]) (simp add: daily_preview_def held_now_def Let_def)
qed

text \<open>A quiet morning of 5 March 2024: an at-close ticket of the venue, yesterday's close fill unconfirmed.\<close>

definition demo_row :: open_row where
  "demo_row = \<lparr>oo_sym = ''AAPL'', oo_qty = 10, oo_type = Some ''market_on_close'', oo_id = Some 4, oo_tag = ''exit'',
     oo_limit = None, oo_stop = None, oo_trail = None, oo_created = Some 738949\<rparr>"

definition demo_stop :: open_row where
  "demo_stop = demo_row\<lparr>oo_qty := - 2, oo_type := Some ''stop'', oo_stop := Some 90\<rparr>"

definition demo_preview :: "previewed res" where
  "demo_preview = daily_preview \<lparr>dl_today = 738950, dl_bar_applied = False, dl_next_fire = None\<rparr>
     [\<lparr>rf_day = 738949, rf_ms = 57600000, rf_sym = ''AAPL'', rf_qty = 3,
     rf_px = 90, rf_tag = [], rf_fees = 0, rf_model = None, rf_confirmed = False, rf_at_open = False\<rparr>] []
     [\<lparr>h_sym = ''AAPL'', h_qty = 5, h_px = 100, h_value = 500, h_entry = 90\<rparr>] [demo_row, demo_stop]
     738950 32400000 True True"

lemma demo_preview_runs:
  "case demo_preview of Inl _ \<Rightarrow> False
   | Inr r \<Rightarrow> pr_close r = [\<lparr>co_sym = ''AAPL'', co_qty = 10, co_rule = Some ''py:AAPL:4''\<rparr>]"
  by code_simp

text \<open>C29: the published target of a daily deployment is, for every symbol, the model's holding plus the
  tickets due at this moment minus the unconfirmed close fills held out; both parts are reported as such.\<close>

theorem daily_target_is_model_plus_due:
  assumes r: "daily_preview dl fs lasts hs rows today now broker native = Inr r" and s: "s \<noteq> []"
  shows "net_qty (pr_holdings r) s
      = net_qty hs s + ticket_qty (due_now dl native today now) rows s - fill_qty (held_now fs today now) s \<and>
    dget_or (pr_ticket_add r) s 0 = ticket_qty (due_now dl native today now) rows s \<and>
    dget_or (pr_held_out r) s 0 = fill_qty (held_now fs today now) s"
proof -
  obtain p q held where p: "tickets_ahead dl rows today now broker native = Inr p"
    and q: "foldl hold_step (p, []) (held_now fs today now) = (q, held)"
    and r: "r = \<lparr>pr_holdings = restate lasts (pv_add q) hs, pr_close = pv_close q, pr_notes = pv_notes q,
          pr_ticket_add = filter (\<lambda>e. snd e \<noteq> 0) (pv_add p), pr_held_out = held\<rparr>"
    by (rule daily_preview_cases [OF r])
  have nz: "dget_or (filter (\<lambda>e. snd e \<noteq> 0) d) s 0 = dget_or d s (0::int)" if "dict_ok d" for d
    using that
  proof (induction d)
    case (Cons e d)
    then have "dget_or (filter (\<lambda>e. snd e \<noteq> 0) d) (fst e) 0 = (0::int)"
      by (auto simp: dget_or_def dict_ok_def split: option.split dest!: map_of_SomeD intro: image_eqI [rotated])
    with Cons show ?case by (cases e) (auto simp: dget_or_def dict_ok_def)
  qed (simp add: dget_or_empty)
  from tickets_ahead_net [OF p s] hold_fold [OF q, of s] show ?thesis
    by (simp add: r restate_net nz upper_keys_def dget_or_empty)
qed

theorem daily_target_is_model_plus_due_witness:
  "\<exists>r. demo_preview = Inr r \<and> net_qty (pr_holdings r) ''AAPL'' = 12"
proof -
  obtain r where r: "demo_preview = Inr r" using demo_preview_runs by (auto split: sum.splits)
  let ?hs = "[\<lparr>h_sym = ''AAPL'', h_qty = 5, h_px = 100, h_value = 500, h_entry = 90\<rparr>]"
  let ?dl = "\<lparr>dl_today = 738950, dl_bar_applied = False, dl_next_fire = None\<rparr>"
  let ?fs = "[\<lparr>rf_day = 738949, rf_ms = 57600000, rf_sym = ''AAPL'', rf_qty = 3,
     rf_px = 90, rf_tag = [], rf_fees = 0, rf_model = None, rf_confirmed = False, rf_at_open = False\<rparr>]"
  have "net_qty ?hs ''AAPL'' + ticket_qty (due_now ?dl True 738950 32400000) [demo_row, demo_stop] ''AAPL''
      - fill_qty (held_now ?fs 738950 32400000) ''AAPL'' = 12"
    by code_simp
  then show ?thesis
    using daily_target_is_model_plus_due [OF r [unfolded demo_preview_def], of "''AAPL''"] r by auto
qed

section \<open>At-close orders\<close>

lemma at_close_fold_rows:
  "pv_close (foldl (at_close_step b) p es) = pv_close p @
     (if b then map (\<lambda>(s, net, rules). \<lparr>co_sym = s, co_qty = net,
                  co_rule = (if length rules = 1 then Some (hd rules) else None)\<rparr>)
                (filter (\<lambda>(s, net, rules). net \<noteq> 0) es) else [])"
  by (induction es arbitrary: p) (auto simp: at_close_step_def split_beta)

lemma at_open_close [simp]: "pv_close (foldl (at_open_step today) p rows) = pv_close p"
  by (induction rows arbitrary: p) (auto simp: at_open_step_def Let_def split: option.split)

lemma hold_close [simp]: "foldl hold_step (p, held) fs = (q, held') \<Longrightarrow> pv_close q = pv_close p"
  by (induction fs arbitrary: p held) (auto simp: hold_step_def Let_def)

lemma add_ticket_rules:
  "s \<noteq> [] \<Longrightarrow> snd (dget_or (add_ticket d r) s (0, []))
     = snd (dget_or d s (0, [])) @ (if is_moc r \<and> upper (oo_sym r) = s \<and> oo_qty r \<noteq> 0
                                    then [rule_of s (oo_id r) (oo_tag r)] else [])"
  by (auto simp: add_ticket_def is_moc_def Let_def dict_simps split_beta)

definition moc_rules :: "open_row list \<Rightarrow> sym \<Rightarrow> string list" where
  "moc_rules rows s = map (\<lambda>r. rule_of s (oo_id r) (oo_tag r))
     (filter (\<lambda>r. is_moc r \<and> upper (oo_sym r) = s \<and> oo_qty r \<noteq> 0) rows)"

lemma close_tickets_rules:
  "s \<noteq> [] \<Longrightarrow> snd (dget_or (close_tickets rows) s (0, [])) = moc_rules rows s"
proof -
  assume s: "s \<noteq> []"
  have "snd (dget_or (foldl add_ticket d rows) s (0, [])) = snd (dget_or d s (0, [])) @ moc_rules rows s" for d
    by (induction rows arbitrary: d) (simp_all add: add_ticket_rules [OF s] moc_rules_def)
  then show ?thesis by (simp add: close_tickets_def dget_or_empty)
qed

lemma close_tickets_nonempty: "[] \<notin> set (dkeys (close_tickets rows))"
proof -
  have step: "[] \<notin> set (dkeys d) \<Longrightarrow> [] \<notin> set (dkeys (add_ticket d r))" for d r
    by (simp add: add_ticket_def Let_def split_beta set_dkeys_dput)
  have "[] \<notin> set (dkeys d) \<Longrightarrow> [] \<notin> set (dkeys (foldl add_ticket d rows))" for d
    by (induction rows arbitrary: d) (simp_all add: step)
  then show ?thesis by (simp add: close_tickets_def dkeys_def)
qed

lemma dict_ok_by_symbol: "dict_ok d \<Longrightarrow> dict_ok (by_symbol d)"
proof -
  assume "dict_ok d"
  then have "distinct d" "inj_on fst (set d)" by (auto simp: dict_ok_def distinct_map)
  then show ?thesis by (simp add: dict_ok_def by_symbol_def distinct_map)
qed

text \<open>C30: an at-close order is published only for a session whose bar has not landed, inside the window
  of the venue: before the exchange's cutoff where the venue takes it itself, in the last minute where
  it is emulated; one order per symbol, for the net of the tickets; and where a broker is behind the
  deployment each is the order of exactly one ticket.\<close>

theorem close_orders_keep_the_window:
  assumes r: "daily_preview dl fs lasts hs rows today now broker native = Inr r" and c: "c \<in> set (pr_close r)"
  shows "\<exists>close. session_close_ms today = Some close \<and> dl_today dl = today \<and> \<not> dl_bar_applied dl \<and>
    (if native then now < close - NATIVE_MOC_CUTOFF_LEAD_MS else close - CLOSE_PREVIEW_LEAD_MS \<le> now) \<and>
    distinct (map co_sym (pr_close r)) \<and> co_qty c \<noteq> 0 \<and> co_qty c = ticket_qty is_moc rows (co_sym c) \<and>
    (broker \<longrightarrow> (\<exists>rule. moc_rules rows (co_sym c) = [rule] \<and> co_rule c = Some rule))"
proof -
  obtain p q held where p: "tickets_ahead dl rows today now broker native = Inr p"
    and q: "foldl hold_step (p, []) (held_now fs today now) = (q, held)" and close: "pr_close r = pv_close q"
    by (rule daily_preview_cases [OF r]) simp
  have cp: "c \<in> set (pv_close p)" "pr_close r = pv_close p" using c close q by simp_all
  then have "p \<noteq> no_preview" by (auto simp: no_preview_def)
  with p obtain t p0 where t: "session_close_ms today = Some t" "dl_today dl = today" "\<not> dl_bar_applied dl"
    and p0: "at_close broker native now t rows no_preview = Inr p0" and "p = at_open today now rows p0"
    by (auto simp: tickets_ahead_def bind_res_Inr_iff split: option.splits if_splits)
  then have cp0: "c \<in> set (pv_close p0)" "pr_close r = pv_close p0" using cp by (auto simp: at_open_def split: if_splits)
  let ?d = "close_tickets rows"
  let ?es = "filter (\<lambda>(s, net, rules). net \<noteq> 0) (by_symbol ?d)"
  let ?publish = "native_window native now t \<or> \<not> native"
  have win: "native_window native now t \<or> emulation_window now t"
    and one: "broker \<longrightarrow> (\<forall>e\<in>set (by_symbol ?d). \<not> 1 < length (snd (snd e)))"
    and pub: "?publish" "pv_close p0 = map (\<lambda>(s, net, rules). \<lparr>co_sym = s, co_qty = net,
                  co_rule = (if length rules = 1 then Some (hd rules) else None)\<rparr>) ?es"
    using p0 cp0(1) by (auto simp: at_close_def Let_def at_close_fold_rows no_preview_def split: if_splits)
  obtain s net rules where e: "(s, net, rules) \<in> set ?es"
    and ce: "c = \<lparr>co_sym = s, co_qty = net, co_rule = (if length rules = 1 then Some (hd rules) else None)\<rparr>"
    using cp0(1) pub(2) by auto
  have ok: "upper_keys ?d" unfolding close_tickets_def by (rule close_tickets_net(2)) (rule upper_keys_intros)
  then have dok: "dict_ok ?d" "dict_ok (by_symbol ?d)" by (auto simp: upper_keys_def dict_ok_by_symbol)
  have in_d: "(s, net, rules) \<in> set ?d" using e by (auto simp: by_symbol_def)
  then have get: "dget_or ?d s (0, []) = (net, rules)" using dok(1) by (simp add: dget_in_set dict_simps)
  have s: "s \<noteq> []" using in_d close_tickets_nonempty by (force simp: dkeys_def)
  have net: "net = ticket_qty is_moc rows s"
    using close_tickets_net(1) [OF s, of "[]" rows] get by (simp add: net_of_def close_tickets_def dget_or_empty)
  have rules: "rules = moc_rules rows s" using close_tickets_rules [OF s, of rows] get by simp
  have "rules \<noteq> []" if "broker"
  proof
    assume "rules = []"
    then have "filter (\<lambda>r. is_moc r \<and> upper (oo_sym r) = s \<and> oo_qty r \<noteq> 0) rows = []"
      using rules by (simp add: moc_rules_def)
    then have "ticket_qty is_moc rows s = 0"
      by (induction rows) (auto split: if_splits)
    then show False using net e by auto
  qed
  then have single: "broker \<longrightarrow> length rules = 1" using one e by (cases rules) fastforce+
  have "distinct (map co_sym (pv_close p0))"
  proof -
    have "distinct (map fst ?es)" using dok(2) unfolding dict_ok_def by (rule distinct_map_filter)
    moreover have "map co_sym (pv_close p0) = map fst ?es" unfolding pub(2) by (simp add: split_beta)
    ultimately show ?thesis by simp
  qed
  moreover have "if native then now < t - NATIVE_MOC_CUTOFF_LEAD_MS else t - CLOSE_PREVIEW_LEAD_MS \<le> now"
    using win pub(1) by (auto simp: native_window_def emulation_window_def)
  moreover have "broker \<longrightarrow> (\<exists>rule. moc_rules rows (co_sym c) = [rule] \<and> co_rule c = Some rule)"
    using single rules ce by (auto simp: length_Suc_conv)
  ultimately show ?thesis using t cp0(2) net e ce by auto
qed

theorem close_orders_keep_the_window_witness:
  "\<exists>r. demo_preview = Inr r \<and> map co_qty (pr_close r) = [10] \<and>
     moc_rules [demo_row, demo_stop] ''AAPL'' = [''py:AAPL:4'']"
proof -
  obtain r where r: "demo_preview = Inr r"
    and c: "pr_close r = [\<lparr>co_sym = ''AAPL'', co_qty = 10, co_rule = Some ''py:AAPL:4''\<rparr>]"
    using demo_preview_runs by (auto split: sum.splits)
  then show ?thesis
    using close_orders_keep_the_window [OF r [unfolded demo_preview_def], of "hd (pr_close r)"] by auto
qed

section \<open>What becomes of a resting order\<close>

definition exit_row_of :: "(sym, int) dict \<Rightarrow> open_row \<Rightarrow> exit_row \<Rightarrow> bool" where
  "exit_row_of held r x \<longleftrightarrow>
     (let h = dget_or held (xo_sym x) 0
      in xo_sym x = upper (oo_sym r) \<and> xo_qty x = \<bar>oo_qty r\<bar> \<and> \<bar>h + oo_qty r\<bar> < \<bar>h\<bar> \<and>
         xo_side x = (if 0 < h then ''sell'' else ''buy'') \<and> xo_price x = oo_limit r \<and> xo_stop x = oo_stop r \<and>
         (\<exists>i. oo_id r = Some i \<and> xo_rule x = intent_id (xo_sym x) i (oo_tag r)))"

definition entry_row_of :: "(sym, int) dict \<Rightarrow> open_row \<Rightarrow> entry_row \<Rightarrow> bool" where
  "entry_row_of held r x \<longleftrightarrow>
     (let h = dget_or held (eo_sym x) 0
      in eo_sym x = upper (oo_sym r) \<and> eo_qty x = \<bar>oo_qty r\<bar> \<and> \<bar>h\<bar> \<le> \<bar>h + oo_qty r\<bar> \<and>
         eo_side x = side_word (oo_qty r) \<and> eo_price x = oo_limit r \<and> eo_stop x = oo_stop r \<and>
         (\<exists>i. oo_id r = Some i \<and> eo_rule x = intent_id (eo_sym x) i (oo_tag r)))"

definition carried :: "open_row \<Rightarrow> bool" where
  "carried r \<longleftrightarrow> oo_sym r \<noteq> [] \<and> oo_qty r \<noteq> 0 \<and> oo_type r \<noteq> Some ''market''"

definition sendable :: "open_row \<Rightarrow> bool" where
  "sendable r \<longleftrightarrow> carried r \<and> oo_id r \<noteq> None \<and>
     (\<exists>k. oo_type r = Some k \<and> k \<in> set (dkeys ENTRY_TYPE) \<and> (k = ''trailing_stop'' \<longrightarrow> num_or0 (oo_trail r) \<noteq> 0))"

lemma entry_type_cases: "dget ENTRY_TYPE k = None \<longleftrightarrow> k \<notin> set (dkeys ENTRY_TYPE)"
  by (rule dget_None_keys)

lemma project_one_cases:
  "case project_one daily held r of
     NoLine \<Rightarrow> \<not> carried r
   | Exit x \<Rightarrow> carried r \<and> sendable r \<and> exit_row_of held r x
   | Entry e \<Rightarrow> carried r \<and> sendable r \<and> entry_row_of held r e
   | Deferred d \<Rightarrow> carried r \<and> \<not> sendable r"
proof -
  have m: "''market'' \<notin> set (dkeys ENTRY_TYPE)" "''market'' \<notin> set DAILY_EDGE"
    by (simp_all add: ENTRY_TYPE_def dkeys_def DAILY_EDGE_def)
  have side: "side_word (oo_qty r) = (if 0 < h then ''sell'' else ''buy'')" if "reduces h (oo_qty r)" for h
    using that by (auto simp: reduces_def side_word_def)
  have sent: "k \<in> set (dkeys ENTRY_TYPE)" if "dget ENTRY_TYPE k = Some t" for k t
    using that entry_type_cases [of k] by auto
  show ?thesis
    using m by (auto simp: project_one_def Let_def carried_def sendable_def NEVER_RESTS_def exit_row_of_def entry_row_of_def
        entry_type_cases side sent reduces_def not_less split: option.splits if_splits)
qed

lemma collect_fold:
  assumes "foldl (\<lambda>acc r. collect (project_one b held r) acc) (xs0, es0, ds0) rows = (xs, es, ds)"
  shows "\<exists>xs1 es1 ds1. xs = xs0 @ xs1 \<and> es = es0 @ es1 \<and> ds = ds0 @ ds1 \<and>
    (\<forall>x\<in>set xs1. \<exists>r\<in>set rows. exit_row_of held r x) \<and> (\<forall>e\<in>set es1. \<exists>r\<in>set rows. entry_row_of held r e) \<and>
    (\<forall>r\<in>set rows. sendable r \<longrightarrow> (\<exists>x\<in>set xs1. exit_row_of held r x) \<or> (\<exists>e\<in>set es1. entry_row_of held r e)) \<and>
    length xs1 + length es1 + length ds1 = length (filter carried rows)"
  using assms
proof (induction rows arbitrary: xs0 es0 ds0)
  case (Cons r rows)
  obtain xs2 es2 ds2 where c: "collect (project_one b held r) (xs0, es0, ds0) = (xs2, es2, ds2)"
    by (metis prod_cases3)
  from Cons.prems c have "foldl (\<lambda>acc r. collect (project_one b held r) acc) (xs2, es2, ds2) rows = (xs, es, ds)"
    by simp
  from Cons.IH [OF this] obtain xs1 es1 ds1 where ih: "xs = xs2 @ xs1" "es = es2 @ es1" "ds = ds2 @ ds1"
    "\<forall>x\<in>set xs1. \<exists>r\<in>set rows. exit_row_of held r x" "\<forall>e\<in>set es1. \<exists>r\<in>set rows. entry_row_of held r e"
    "\<forall>r\<in>set rows. sendable r \<longrightarrow> (\<exists>x\<in>set xs1. exit_row_of held r x) \<or> (\<exists>e\<in>set es1. entry_row_of held r e)"
    "length xs1 + length es1 + length ds1 = length (filter carried rows)" by blast
  show ?case
  proof (cases "project_one b held r")
    case NoLine
    then have "xs2 = xs0" "es2 = es0" "ds2 = ds0" using c by (simp_all add: collect_def)
    then show ?thesis using ih project_one_cases [where daily = b and held = held and r = r] NoLine
      by (intro exI [of _ xs1] exI [of _ es1] exI [of _ ds1]) (auto simp: sendable_def)
  next
    case (Exit x)
    then have "xs2 = xs0 @ [x]" "es2 = es0" "ds2 = ds0" using c by (simp_all add: collect_def)
    then show ?thesis using ih project_one_cases [where daily = b and held = held and r = r] Exit
      by (intro exI [of _ "x # xs1"] exI [of _ es1] exI [of _ ds1]) auto
  next
    case (Entry e)
    then have "xs2 = xs0" "es2 = es0 @ [e]" "ds2 = ds0" using c by (simp_all add: collect_def)
    then show ?thesis using ih project_one_cases [where daily = b and held = held and r = r] Entry
      by (intro exI [of _ xs1] exI [of _ "e # es1"] exI [of _ ds1]) auto
  next
    case (Deferred d)
    then have "xs2 = xs0" "es2 = es0" "ds2 = ds0 @ [d]" using c by (simp_all add: collect_def)
    then show ?thesis using ih project_one_cases [where daily = b and held = held and r = r] Deferred
      by (intro exI [of _ xs1] exI [of _ es1] exI [of _ "d # ds1"]) auto
  qed
qed simp

text \<open>No resting order is lost: every order with a symbol and a quantity, a plain market order apart,
  becomes exactly one exit, entry or journal line; a supported order with an id is always carried; exits
  are on the closing side of the holding and shrink it, entries never do; levels and rule ids are kept.\<close>

theorem resting_orders_are_classified:
  assumes "project_orders rows hs daily = (xs, es, ds)"
  shows "(\<forall>x\<in>set xs. \<exists>r\<in>set rows. exit_row_of (held_of hs) r x) \<and>
    (\<forall>e\<in>set es. \<exists>r\<in>set rows. entry_row_of (held_of hs) r e) \<and>
    (\<forall>r\<in>set rows. sendable r \<longrightarrow>
       (\<exists>x\<in>set xs. exit_row_of (held_of hs) r x) \<or> (\<exists>e\<in>set es. entry_row_of (held_of hs) r e)) \<and>
    length xs + length es + length ds = length (filter carried rows)"
  using collect_fold [OF assms [unfolded project_orders_def]] by auto

theorem resting_orders_are_classified_witness:
  "case project_orders [demo_row, demo_stop]
       [\<lparr>h_sym = ''AAPL'', h_qty = 5, h_px = 100, h_value = 500, h_entry = 90\<rparr>] True of
     (xs, es, ds) \<Rightarrow> length xs + length es + length ds = 2"
proof -
  obtain xs es ds where p: "project_orders [demo_row, demo_stop]
       [\<lparr>h_sym = ''AAPL'', h_qty = 5, h_px = 100, h_value = 500, h_entry = 90\<rparr>] True = (xs, es, ds)"
    by (metis prod_cases3)
  then show ?thesis
    using resting_orders_are_classified [OF p] by (simp add: carried_def demo_stop_def demo_row_def)
qed

end
