(* ===== verification/Stats.thy ===== *)
theory Stats
  imports PyList
begin

text \<open>
  The figures of an equity curve: \<open>dqengine/runtime/core/stats.py\<close>.  \<open>pw\<close> is the floating power of the
  C library (\<open>x ** y\<close>), which may raise; every other operation is binary64.
\<close>

type_synonym pow_fun = "pyfloat \<Rightarrow> pyfloat \<Rightarrow> pyfloat res"

type_synonym stats = "(string, pyfloat option) dict"

section \<open>Time-weighted returns\<close>

definition flow_return :: "pyfloat \<Rightarrow> pyfloat \<Rightarrow> pyfloat \<Rightarrow> pyfloat" where
  "flow_return prev e f =
     (let base = fadd prev f in if 0 < base then fsub (fdiv e base) 1 else 0)"

fun flow_adjusted_returns :: "pyfloat list \<Rightarrow> pyfloat list \<Rightarrow> pyfloat \<Rightarrow> pyfloat list" where
  "flow_adjusted_returns (e # es) (f # fs) prev = flow_return prev e f # flow_adjusted_returns es fs e"
| "flow_adjusted_returns _ _ prev = []"

fun growth_of :: "pyfloat \<Rightarrow> pyfloat list \<Rightarrow> pyfloat list" where
  "growth_of g [] = []"
| "growth_of g (x # xs) = (let g' = fmul g (fadd 1 x) in g' # growth_of g' xs)"

section \<open>Drawdown\<close>

fun drawdown_scan :: "pyfloat \<Rightarrow> pyfloat \<Rightarrow> pyfloat list \<Rightarrow> pyfloat res" where
  "drawdown_scan peak dd [] = Inr dd"
| "drawdown_scan peak dd (v # vs) =
     (let top = max peak v
      in bind_res (div_res v top) (\<lambda>q. drawdown_scan top (min dd (fsub q 1)) vs))"

definition max_drawdown :: "pyfloat list \<Rightarrow> pyfloat res" where
  "max_drawdown vs = (case vs of [] \<Rightarrow> Inl IndexError | v # _ \<Rightarrow> drawdown_scan v 0 vs)"

fun ratios :: "pyfloat \<Rightarrow> pyfloat list \<Rightarrow> pyfloat list res" where
  "ratios prev [] = Inr []"
| "ratios prev (v # vs) =
     bind_res (div_res v prev) (\<lambda>q. bind_res (ratios v vs) (\<lambda>rs. Inr (fsub q 1 # rs)))"

section \<open>The figures\<close>

record curve =
  cv_cagr :: pyfloat
  cv_drawdown :: pyfloat
  cv_returns :: "pyfloat list"
  cv_profit :: pyfloat

definition years_of :: "day list \<Rightarrow> pyfloat" where
  "years_of ds = max (fdiv (fint (last ds - hd ds)) (fl (36525 / 100))) (fl (1 / 1000000000))"

definition weighted_curve :: "pow_fun \<Rightarrow> pyfloat \<Rightarrow> pyfloat list \<Rightarrow> pyfloat list \<Rightarrow> pyfloat \<Rightarrow> curve res" where
  "weighted_curve pw years eq flows start =
     (let r = flow_adjusted_returns eq flows start;
          growth = growth_of 1 r;
          end_g = last growth
      in if growth = [] then Inl IndexError
         else bind_res (if 0 < end_g
                        then bind_res (pw end_g (fdiv 1 years)) (\<lambda>p. Inr (fsub p 1)) else Inr (- 1))
           (\<lambda>cagr. bind_res (max_drawdown growth)
           (\<lambda>dd. Inr \<lparr>cv_cagr = cagr, cv_drawdown = dd, cv_returns = tl r,
                      cv_profit = fmul (fsub end_g 1) 100\<rparr>)))"

definition plain_curve :: "pow_fun \<Rightarrow> pyfloat \<Rightarrow> pyfloat list \<Rightarrow> pyfloat \<Rightarrow> curve res" where
  "plain_curve pw years eq start =
     bind_res (if 0 < last eq
               then bind_res (div_res (last eq) start)
                      (\<lambda>q. bind_res (pw q (fdiv 1 years)) (\<lambda>p. Inr (fsub p 1))) else Inr (- 1))
       (\<lambda>cagr. bind_res (max_drawdown eq)
       (\<lambda>dd. bind_res (ratios (hd eq) (tl eq))
       (\<lambda>rets. bind_res (div_res (last eq) start)
       (\<lambda>q. Inr \<lparr>cv_cagr = cagr, cv_drawdown = dd, cv_returns = rets, cv_profit = fmul (fsub q 1) 100\<rparr>))))"

definition sharpe_of :: "pow_fun \<Rightarrow> pyfloat list \<Rightarrow> pyfloat res" where
  "sharpe_of pw rets =
     bind_res (div_res (fsum rets) (fint (int (length rets))))
       (\<lambda>mean. bind_res (div_res (fsum (map (\<lambda>r. fmul (fsub r mean) (fsub r mean)) rets))
                          (fint (max (int (length rets) - 1) 1)))
       (\<lambda>var. if 0 < var
              then bind_res (pw var (fl (1 / 2))) (\<lambda>sd. bind_res (pw 252 (fl (1 / 2)))
                     (\<lambda>ann. bind_res (div_res mean sd) (\<lambda>q. Inr (fmul q ann))))
              else Inr 0))"

definition stats_from_equity ::
  "pow_fun \<Rightarrow> day list \<Rightarrow> pyfloat list \<Rightarrow> pyfloat list \<Rightarrow> pyfloat \<Rightarrow> stats res" where
  "stats_from_equity pw ds eq flows start =
     (if length eq < 2 then Inr []
      else let contributed = fsum flows; years = years_of ds
           in bind_res (if contributed \<noteq> 0 then weighted_curve pw years eq flows start
                        else plain_curve pw years eq start)
             (\<lambda>c. bind_res (sharpe_of pw (cv_returns c))
             (\<lambda>sharpe. Inr
               ([(''start_equity'', Some start), (''end_equity'', Some (py_round (last eq) 2)),
                 (''net_profit_pct'', Some (py_round (cv_profit c) 2)),
                 (''cagr_pct'', Some (py_round (fmul (cv_cagr c) 100) 2)),
                 (''max_drawdown_pct'', Some (py_round (fmul (- cv_drawdown c) 100) 2)),
                 (''sharpe'', Some (py_round sharpe 3)), (''days'', Some (fint (int (length eq))))]
                @ (if contributed \<noteq> 0
                   then [(''contributed'', Some (py_round contributed 2)),
                         (''invested'', Some (py_round (fadd start contributed) 2))] else [])))))"

section \<open>A deposit is not a gain\<close>

lemma fdiv_self [simp]: "x \<noteq> 0 \<Longrightarrow> fdiv x x = 1"
  by (simp add: fdiv_def)

text \<open>A day on which nothing but cash moved returns nothing, whatever the deposits were.\<close>

fun only_cash :: "pyfloat \<Rightarrow> pyfloat list \<Rightarrow> pyfloat list \<Rightarrow> bool" where
  "only_cash prev (e # es) (f # fs) \<longleftrightarrow> e = fadd prev f \<and> only_cash e es fs"
| "only_cash prev _ _ \<longleftrightarrow> True"

lemma flow_return_cash: "e = fadd prev f \<Longrightarrow> flow_return prev e f = 0"
  by (simp add: flow_return_def Let_def fsub_def)

theorem deposits_are_no_gain:
  "only_cash start eq flows \<Longrightarrow> \<forall>r\<in>set (flow_adjusted_returns eq flows start). r = 0"
  by (induction eq flows start rule: flow_adjusted_returns.induct) (auto simp: flow_return_cash)

theorem deposits_are_no_gain_witness:
  "list_all (\<lambda>r. r = 0) (flow_adjusted_returns [1000, 2000, 1500] [0, 1000, - 500] 1000)"
proof -
  have "only_cash 1000 [1000, 2000, 1500] [0, 1000, - 500]"
    by (simp add: fadd_def fl_of_int [of 1000, simplified] fl_of_int [of 2000, simplified] fl_of_int [of 1500, simplified])
  from deposits_are_no_gain [OF this] show ?thesis by (simp only: list_all_iff)
qed

section \<open>Drawdown stays between nothing and everything\<close>

lemma drawdown_scan_bounds:
  "0 < peak \<Longrightarrow> - 1 \<le> dd \<Longrightarrow> dd \<le> 0 \<Longrightarrow> \<forall>v\<in>set vs. 0 \<le> v \<Longrightarrow>
   \<exists>r. drawdown_scan peak dd vs = Inr r \<and> - 1 \<le> r \<and> r \<le> dd"
proof (induction vs arbitrary: peak dd)
  case (Cons v vs)
  let ?t = "max peak v"
  have t: "0 < ?t" "v \<le> ?t" "0 \<le> v" using Cons.prems by auto
  then have q: "0 \<le> fdiv v ?t" by (simp add: fdiv_nonneg)
  then have "- 1 \<le> fsub (fdiv v ?t) 1"
    using fl_mono [of "- 1" "fdiv v ?t - 1"] fl_minus [of 1] by (simp add: fsub_def)
  then have d: "- 1 \<le> min dd (fsub (fdiv v ?t) 1)" "min dd (fsub (fdiv v ?t) 1) \<le> 0"
    using Cons.prems by auto
  obtain r where "drawdown_scan ?t (min dd (fsub (fdiv v ?t) 1)) vs = Inr r" "- 1 \<le> r"
      "r \<le> min dd (fsub (fdiv v ?t) 1)"
    using Cons.IH [OF t(1) d] Cons.prems by auto
  then show ?case using t(1) by (auto simp: Let_def div_res_def)
qed simp

theorem drawdown_bounds:
  "vs \<noteq> [] \<Longrightarrow> 0 < hd vs \<Longrightarrow> \<forall>v\<in>set vs. 0 \<le> v \<Longrightarrow>
   \<exists>r. max_drawdown vs = Inr r \<and> - 1 \<le> r \<and> r \<le> 0"
  using drawdown_scan_bounds [of "hd vs" 0 vs] by (cases vs) (auto simp: max_drawdown_def)

section \<open>Deposits that cancel out\<close>

text \<open>
  The branch is chosen by the sum of the flows, so a deposit that is withdrawn again counts as a gain
  and then as a drawdown: here nothing but cash moves, and the curve reports a fifty per cent drawdown.
\<close>

lemma cancelled_deposit_counts_as_gain:
  "only_cash 1000 [1000, 2000, 1000] [0, 1000, - 1000] \<and>
   (case plain_curve (\<lambda>x y. Inr 1) (years_of [1, 2, 3]) [1000, 2000, 1000] 1000 of
      Inl e \<Rightarrow> False | Inr c \<Rightarrow> cv_drawdown c = - (1 / 2) \<and> cv_returns c = [1, - (1 / 2)]) \<and>
   fsum [0, 1000, - 1000] = 0"
  by code_simp

end
