(* ===== verification/Publish.thy ===== *)
theory Publish
  imports Payload Stats
begin

text \<open>
  From the result of a run to the payload the executor reads: \<open>_payload_from_result\<close> of
  \<open>dqengine/live/driver/engine.py\<close>, the fingerprint of \<open>dqengine/live/determinism.py\<close>, the cash figures
  of \<open>dqengine/live/driver/deployment.py\<close> and the quotes a fire is priced by.  The digest of the
  fingerprint (truncated SHA-256) is a parameter; a key a payload may lack is an option.
\<close>

section \<open>Cash events\<close>

record cash_event =
  ev_kind :: string
  ev_amount :: pyfloat
  ev_day :: day
  ev_sells :: "(sym, int) dict"

definition CASH_EVENT_KINDS :: "string list" where "CASH_EVENT_KINDS = [''deposit'', ''withdraw'']"

definition signed_cash :: "cash_event \<Rightarrow> pyfloat" where
  "signed_cash e =
     (if ev_kind e = ''deposit'' then ev_amount e else if ev_kind e = ''withdraw'' then - ev_amount e else 0)"

definition deposit_count :: "cash_event list \<Rightarrow> nat" where
  "deposit_count es = length (filter (\<lambda>e. ev_kind e \<in> set CASH_EVENT_KINDS) es)"

definition sleeve_equity_now :: "pyfloat list \<Rightarrow> day list \<Rightarrow> pyfloat \<Rightarrow> cash_event list \<Rightarrow> pyfloat" where
  "sleeve_equity_now vs ds start es =
     (let pending = fsum (map signed_cash (filter (\<lambda>e. ev_kind e \<in> set CASH_EVENT_KINDS
            \<and> (ds = [] \<or> last ds < ev_day e)) es));
          base = (if vs = [] then start else last vs)
      in fadd base pending)"

type_synonym cash_row = "day \<times> pyfloat \<times> (sym, int) dict"

definition cash_events :: "cash_event list \<Rightarrow> cash_row list" where
  "cash_events es = map (\<lambda>e. (ev_day e, signed_cash e, ev_sells e))
     (filter (\<lambda>e. ev_kind e \<in> set [''deposit'', ''withdraw'']) es)"

section \<open>What a run returns\<close>

record run_position =
  rp_cash :: pyfloat
  rp_holdings :: "held_row list"
  rp_lasts :: "(sym, pyfloat) dict"
  rp_open :: "open_row list"

record log_counts =
  lc_fills :: nat
  lc_equity :: nat
  lc_logs :: "nat \<times> nat \<times> nat"

text \<open>The three sources of a log, with the data of each line in place of its text.\<close>

datatype log_line = Algo string | Refused refusal | Missed "day \<times> sym \<times> int \<times> string"

type_synonym log_parts = "log_line list \<times> log_line list \<times> log_line list"

record snapshot =
  sn_stats :: stats
  sn_position :: "run_position option"
  sn_days :: "day list"
  sn_equity :: "pyfloat list"
  sn_flows :: "pyfloat list"
  sn_fills :: "run_fill list"
  sn_parts :: log_parts
  sn_logs :: "log_line list option"
  sn_counts :: log_counts
  sn_resolution :: "string option"
  sn_live :: "daily_live option"

datatype tick_error = Unavailable string | Fault string

type_synonym 'a attempt = "tick_error + 'a"

definition bind_attempt :: "'a attempt \<Rightarrow> ('a \<Rightarrow> 'b attempt) \<Rightarrow> 'b attempt" where
  "bind_attempt r f = (case r of Inl e \<Rightarrow> Inl e | Inr x \<Rightarrow> f x)"

lemma bind_attempt_simps [simp]:
  "bind_attempt (Inl e) f = Inl e" "bind_attempt (Inr x) f = f x"
  by (simp_all add: bind_attempt_def)

lemma bind_attempt_Inr_iff: "bind_attempt r f = Inr y \<longleftrightarrow> (\<exists>x. r = Inr x \<and> f x = Inr y)"
  by (cases r) auto

section \<open>The settled history\<close>

definition settled_rows :: "day list \<Rightarrow> pyfloat list \<Rightarrow> day \<Rightarrow> (day \<times> pyfloat) list" where
  "settled_rows ds vs today = map (\<lambda>(d, v). (d, py_round v 4)) (takeWhile (\<lambda>(d, v). d < today) (zip ds vs))"

definition history_fingerprint ::
  "((day \<times> pyfloat) list \<Rightarrow> 'h) \<Rightarrow> day list \<Rightarrow> pyfloat list \<Rightarrow> day \<Rightarrow> 'h" where
  "history_fingerprint digest ds vs today = digest (settled_rows ds vs today)"

section \<open>The payload\<close>

text \<open>What a wall-clock fire reported: the engine's part, the symbols priced off a midpoint, the staleness.\<close>

record primed_info =
  pi_fire :: string
  pi_mid :: "sym list"
  pi_stale :: "ms option"

datatype audit = AuditOk | AuditDiff string | AuditFailed string

record 'h position =
  po_symbol :: sym
  po_qty :: int
  po_last :: pyfloat
  po_value :: pyfloat
  po_cash :: pyfloat
  po_entry :: pyfloat
  po_holdings :: "held_row list"
  po_lasts :: "(sym, pyfloat) dict"
  po_exits :: "exit_row list"
  po_entries :: "entry_row list"
  po_close :: "close_row list"
  po_ticket_add :: "(sym, int) dict"
  po_held_out :: "(sym, int) dict"
  po_primed :: "primed_info option"
  po_fp :: "'h option"
  po_fp_day :: "day option"
  po_engine :: "string option"
  po_audit :: "audit option"
  po_execution :: "string option"

datatype journal_line = LogLine log_line | NoteLine daily_note

record 'h tick_payload =
  pl_stats :: stats
  pl_days :: "day list"
  pl_values :: "pyfloat list"
  pl_position :: "'h position"
  pl_fills :: "run_fill list"
  pl_journal :: "journal_line list"

record 'h deployment =
  dp_resolution :: string
  dp_universe :: "sym list"
  dp_cash :: pyfloat
  dp_conn :: "string option"
  dp_paused :: "day option"
  dp_position :: "'h position option"
  dp_fills :: "run_fill list"

text \<open>The moment of a tick, and whether the deployment's venue takes an on-close order itself.\<close>

record clock =
  ck_day :: day
  ck_ms :: ms
  ck_native :: bool

definition the_day :: "('h, 'a) deployment_scheme \<Rightarrow> clock \<Rightarrow> day" where
  "the_day dep ck = (case dp_paused dep of Some d \<Rightarrow> d | None \<Rightarrow> ck_day ck)"

definition primary_of :: "sym \<Rightarrow> held_row list \<Rightarrow> held_row option" where
  "primary_of s hs = find (\<lambda>h. h_sym h = s) hs"

definition stats_block :: "stats \<Rightarrow> pyfloat \<Rightarrow> pyfloat \<Rightarrow> stats" where
  "stats_block st worth_now contributed =
     foldl (\<lambda>d (k, v). dput d k v) st
       [(''end_equity'', Some (cents worth_now)), (''contributed'', Some (cents contributed)),
        (''pnl'', Some (cents (fsub worth_now contributed))),
        (''return_pct'', Some (if 0 < contributed
            then cents (fmul (fsub (fdiv worth_now contributed) 1) 100) else 0))]"

definition fp_moved ::
  "((day \<times> pyfloat) list \<Rightarrow> 'h) \<Rightarrow> 'h position option \<Rightarrow> snapshot \<Rightarrow> bool" where
  "fp_moved digest prev res =
     (case prev of
        None \<Rightarrow> False
      | Some p \<Rightarrow>
          (case (po_fp p, po_fp_day p) of
             (Some fp, Some d) \<Rightarrow> history_fingerprint digest (sn_days res) (sn_equity res) d \<noteq> fp
           | _ \<Rightarrow> False))"

definition preview_of ::
  "('h, 'a) deployment_scheme \<Rightarrow> clock \<Rightarrow> snapshot \<Rightarrow> run_position \<Rightarrow> previewed attempt" where
  "preview_of dep ck res rp =
     (if dp_resolution dep \<noteq> ''daily''
      then Inr \<lparr>pr_holdings = rp_holdings rp, pr_close = [], pr_notes = [], pr_ticket_add = [],
                pr_held_out = []\<rparr>
      else case sn_live res of
             None \<Rightarrow> Inl (Fault ''not a daily live run'')
           | Some dl \<Rightarrow>
               (case daily_preview dl (sn_fills res) (rp_lasts rp) (rp_holdings rp) (rp_open rp)
                       (ck_day ck) (ck_ms ck) (truthy (dp_conn dep)) (truthy (dp_conn dep) \<and> ck_native ck) of
                  Inl e \<Rightarrow> Inl (Fault ''DailyEdgeCollision'')
                | Inr p \<Rightarrow> Inr p))"

definition position_block ::
  "((day \<times> pyfloat) list \<Rightarrow> 'h) \<Rightarrow> ('h, 'a) deployment_scheme \<Rightarrow> clock \<Rightarrow> snapshot \<Rightarrow> run_position \<Rightarrow> previewed
   \<Rightarrow> 'h position" where
  "position_block digest dep ck res rp p =
     (let s = (case dp_universe dep of [] \<Rightarrow> [] | x # xs \<Rightarrow> x);
          primary = primary_of s (pr_holdings p);
          q = (case primary of None \<Rightarrow> 0 | Some h \<Rightarrow> h_qty h);
          px = dget_or (rp_lasts rp) s 0;
          (exits, entries, notes) = project_orders (rp_open rp) (rp_holdings rp) (dp_resolution dep = ''daily'')
      in \<lparr>po_symbol = s, po_qty = q, po_last = px, po_value = worth q px, po_cash = rp_cash rp,
          po_entry = (case primary of None \<Rightarrow> 0 | Some h \<Rightarrow> h_entry h),
          po_holdings = pr_holdings p, po_lasts = rp_lasts rp, po_exits = exits, po_entries = entries,
          po_close = pr_close p, po_ticket_add = pr_ticket_add p, po_held_out = pr_held_out p,
          po_primed = None,
          po_fp = Some (history_fingerprint digest (sn_days res) (sn_equity res) (the_day dep ck)),
          po_fp_day = Some (the_day dep ck), po_engine = None, po_audit = None, po_execution = None\<rparr>)"

definition journal_block :: "('h, 'a) deployment_scheme \<Rightarrow> snapshot \<Rightarrow> run_position \<Rightarrow> previewed \<Rightarrow> journal_line list" where
  "journal_block dep res rp p =
     (case project_orders (rp_open rp) (rp_holdings rp) (dp_resolution dep = ''daily'') of
        (exits, entries, notes) \<Rightarrow>
          map LogLine (last_n 300 (case sn_logs res of None \<Rightarrow> [] | Some l \<Rightarrow> l))
          @ map NoteLine (notes @ pr_notes p))"

definition payload_from_result ::
  "((day \<times> pyfloat) list \<Rightarrow> 'h) \<Rightarrow> ('h, 'a) deployment_scheme \<Rightarrow> clock \<Rightarrow> cash_event list \<Rightarrow> snapshot
   \<Rightarrow> 'h tick_payload attempt" where
  "payload_from_result digest dep ck es res =
     (case sn_position res of
        None \<Rightarrow> Inl (Fault ''no position block'')
      | Some rp \<Rightarrow>
          if dp_resolution dep = ''daily'' \<and> (sn_resolution res \<noteq> Some ''daily'' \<or> sn_live res = None)
          then Inl (Fault ''not a daily live run'')
          else bind_attempt (preview_of dep ck res rp) (\<lambda>p.
            if fp_moved digest (dp_position dep) res then Inl (Fault ''settled history changed'')
            else let contributed = fadd (dp_cash dep) (fsum (map signed_cash es));
                     worth_now = sleeve_equity_now (sn_equity res) (sn_days res) (dp_cash dep) es
                 in Inr \<lparr>pl_stats = stats_block (sn_stats res) worth_now contributed,
                         pl_days = sn_days res, pl_values = map cents (sn_equity res),
                         pl_position = position_block digest dep ck res rp p,
                         pl_fills = last_n 200 (sn_fills res),
                         pl_journal = journal_block dep res rp p\<rparr>))"

text \<open>The fire a daily deployment records, also when the payload is refused after it.\<close>

definition daily_fire :: "('h, 'a) deployment_scheme \<Rightarrow> snapshot \<Rightarrow> ms option option \<Rightarrow> ms option option" where
  "daily_fire dep res old =
     (if dp_resolution dep = ''daily'' \<and> sn_position res \<noteq> None \<and> sn_resolution res = Some ''daily''
      then (case sn_live res of None \<Rightarrow> old | Some dl \<Rightarrow> Some (dl_next_fire dl)) else old)"

datatype run_reply = Failed string string | Ran snapshot

definition replay_python_deployment ::
  "((day \<times> pyfloat) list \<Rightarrow> 'h) \<Rightarrow> ('h, 'a) deployment_scheme \<Rightarrow> clock \<Rightarrow> cash_event list \<Rightarrow> run_reply
   \<Rightarrow> 'h tick_payload attempt" where
  "replay_python_deployment digest dep ck es reply =
     (case reply of
        Failed kind msg \<Rightarrow> Inl (if kind = ''RunnerUnavailable'' then Unavailable msg else Fault (kind @ '': '' @ msg))
      | Ran res \<Rightarrow> payload_from_result digest dep ck es res)"

section \<open>Quotes\<close>

record quote =
  qt_last :: "pyfloat option"
  qt_at :: "pyfloat option"
  qt_bid :: "pyfloat option"
  qt_ask :: "pyfloat option"
  qt_quote_at :: "pyfloat option"

record price_row =
  px_last :: pyfloat
  px_at :: "pyfloat option"
  px_mid :: bool

definition QUOTE_MAX_AGE_MS :: ms where "QUOTE_MAX_AGE_MS = 5 * 60000"
definition MID_MAX_AGE_MS :: ms where "MID_MAX_AGE_MS = 60000"
definition MID_MAX_SPREAD :: pyfloat where "MID_MAX_SPREAD = fl (1 / 100)"

definition usable_last :: "pyfloat option \<Rightarrow> bool" where
  "usable_last x = (case x of None \<Rightarrow> False | Some v \<Rightarrow> 0 < v)"

definition mid_price :: "quote \<Rightarrow> ms \<Rightarrow> price_row option" where
  "mid_price v now =
     (case (qt_bid v, qt_ask v, qt_quote_at v) of
        (Some bid, Some ask, stamp) \<Rightarrow>
          if \<not> (0 < bid \<and> 0 < ask) \<or> ask < bid then None
          else (case stamp of
                  None \<Rightarrow> None
                | Some a \<Rightarrow>
                    if MID_MAX_AGE_MS < now - py_int a then None
                    else let mid = fdiv (fadd bid ask) 2
                         in if MID_MAX_SPREAD < fdiv (fsub ask bid) mid then None
                            else Some \<lparr>px_last = mid, px_at = Some (fint (py_int a)), px_mid = True\<rparr>)
      | _ \<Rightarrow> None)"

definition too_old :: "quote \<Rightarrow> ms \<Rightarrow> bool" where
  "too_old v now = (case qt_at v of None \<Rightarrow> False | Some a \<Rightarrow> QUOTE_MAX_AGE_MS < now - py_int a)"

definition quote_price :: "quote \<Rightarrow> ms \<Rightarrow> price_row option" where
  "quote_price v now =
     (if usable_last (qt_last v) \<and> \<not> too_old v now
      then Some \<lparr>px_last = the (qt_last v), px_at = qt_at v, px_mid = False\<rparr>
      else mid_price v now)"

text \<open>The snapshot is \<open>None\<close> when the bus, the key or its JSON is missing.\<close>

definition quote_prices :: "sym list \<Rightarrow> (sym, quote) dict option \<Rightarrow> ms \<Rightarrow> (sym, price_row) dict" where
  "quote_prices syms snap now =
     (case snap of
        None \<Rightarrow> []
      | Some d \<Rightarrow> foldl (\<lambda>out (s, v). if s \<notin> set syms then out
            else case quote_price v now of None \<Rightarrow> out | Some p \<Rightarrow> dput out s p) [] d)"

definition ages :: "(sym, price_row) dict \<Rightarrow> ms \<Rightarrow> (sym \<times> ms) list" where
  "ages px now = concat (map (\<lambda>(s, p). case px_at p of None \<Rightarrow> [] | Some a \<Rightarrow> [(s, now - py_int a)]) px)"

definition max_stale_ms :: "(sym, price_row) dict \<Rightarrow> ms \<Rightarrow> ms option" where
  "max_stale_ms px now =
     (case map snd (ages px now) of [] \<Rightarrow> None | a # as \<Rightarrow> Some (foldl max a as))"

definition primed_block :: "string option \<Rightarrow> (sym, price_row) dict \<Rightarrow> ms \<Rightarrow> primed_info option" where
  "primed_block fire px now =
     map_option (\<lambda>f. \<lparr>pi_fire = f, pi_mid = sort (map fst (filter (\<lambda>(s, p). px_mid p) px)),
                      pi_stale = max_stale_ms px now\<rparr>) fire"

definition stalest :: "(sym, price_row) dict \<Rightarrow> ms \<Rightarrow> (sym \<times> ms) option" where
  "stalest px now =
     foldl (\<lambda>best e. case best of None \<Rightarrow> Some e | Some b \<Rightarrow> if snd b < snd e then Some e else best)
       None (ages px now)"

end
