(* ===== verification/Schedule.thy ===== *)
theory Schedule
  imports Calendar PyFloat
begin

text \<open>
  The session calendar a run asks about weeks and months (\<open>SessionCalendar\<close> and
  \<open>_scheduled_session_earlier_in\<close> of \<open>dqengine/runtime/core/data.py\<close>), the exchange hours of
  \<open>dqengine/runtime/symbol.py\<close>, and the schedule of \<open>dqengine/runtime/scheduling.py\<close>: date rules, time
  rules and the events a day has due.  ISO weeks are CPython's \<open>isocalendar\<close>, shown to be the weeks
  that begin on Mondays.
\<close>

section \<open>ISO weeks\<close>

definition iso_week1_monday :: "int \<Rightarrow> day" where
  "iso_week1_monday y =
     (let firstday = mk_date y 1 1; firstweekday = (firstday + 6) mod 7; monday = firstday - firstweekday
      in if 3 < firstweekday then monday + 7 else monday)"

definition isocalendar :: "day \<Rightarrow> int \<times> int" where
  "isocalendar n =
     (let y = year_of n; m = iso_week1_monday y; week = (n - m) div 7
      in if week < 0 then (y - 1, (n - iso_week1_monday (y - 1)) div 7 + 1)
         else if 52 \<le> week \<and> iso_week1_monday (y + 1) \<le> n then (y + 1, 1)
         else (y, week + 1))"

definition week_key :: "day \<Rightarrow> int" where
  "week_key d = (case isocalendar d of (y, w) \<Rightarrow> y * 100 + w)"

section \<open>The calendar of a run\<close>

type_synonym session_calendar = "day list"

definition mk_calendar :: "day list \<Rightarrow> session_calendar" where
  "mk_calendar days = sort (remdups days)"

definition index_of :: "session_calendar \<Rightarrow> day \<Rightarrow> nat res" where
  "index_of cal d = (if d \<in> set cal then Inr (length (takeWhile (\<lambda>x. x \<noteq> d) cal)) else Inl KeyError)"

datatype cal_unit = Week | Month

definition same_unit :: "cal_unit \<Rightarrow> day \<Rightarrow> day \<Rightarrow> bool" where
  "same_unit u x d =
     (case u of Week \<Rightarrow> isocalendar x = isocalendar d
      | Month \<Rightarrow> (year_of x, month_of x) = (year_of d, month_of d))"

text \<open>The loop with a bound on its steps; \<open>earlier_in_exact\<close> shows that forty days are enough.\<close>

fun earlier_in :: "nat \<Rightarrow> cal_unit \<Rightarrow> day \<Rightarrow> day \<Rightarrow> bool option" where
  "earlier_in 0 u d x = None"
| "earlier_in (Suc k) u d x =
     (if \<not> same_unit u x d then Some False
      else if weekday x < 5 \<and> \<not> is_market_holiday x then Some True
      else earlier_in k u d (x - 1))"

definition scheduled_session_earlier_in :: "day \<Rightarrow> cal_unit \<Rightarrow> bool" where
  "scheduled_session_earlier_in d u = (earlier_in 40 u d (d - 1) = Some True)"

definition is_first_of_week :: "session_calendar \<Rightarrow> day \<Rightarrow> bool res" where
  "is_first_of_week cal d =
     bind_res (index_of cal d) (\<lambda>i.
       if i = 0 then Inr (\<not> scheduled_session_earlier_in d Week)
       else Inr (week_key (cal ! (i - 1)) \<noteq> week_key d))"

definition is_last_of_week :: "session_calendar \<Rightarrow> day \<Rightarrow> bool res" where
  "is_last_of_week cal d =
     bind_res (index_of cal d) (\<lambda>i.
       if i + 1 = length cal then Inr True
       else Inr (week_key (cal ! (i + 1)) \<noteq> week_key d))"

definition is_day_before_last_of_week :: "session_calendar \<Rightarrow> day \<Rightarrow> bool res" where
  "is_day_before_last_of_week cal d =
     bind_res (index_of cal d) (\<lambda>i.
       if length cal \<le> i + 1 then Inr False
       else let nxt = cal ! (i + 1)
            in if week_key nxt \<noteq> week_key d then Inr False else is_last_of_week cal nxt)"

definition is_first_of_month :: "session_calendar \<Rightarrow> day \<Rightarrow> bool res" where
  "is_first_of_month cal d =
     bind_res (index_of cal d) (\<lambda>i.
       if i = 0 then Inr (\<not> scheduled_session_earlier_in d Month)
       else Inr (month_of (cal ! (i - 1)) \<noteq> month_of d))"

definition is_last_of_month :: "session_calendar \<Rightarrow> day \<Rightarrow> bool res" where
  "is_last_of_month cal d =
     bind_res (index_of cal d) (\<lambda>i.
       Inr (i + 1 = length cal \<or> month_of (cal ! (i + 1)) \<noteq> month_of d))"

definition cal_matches :: "session_calendar \<Rightarrow> day \<Rightarrow> string \<Rightarrow> bool res" where
  "cal_matches cal d sel =
     (if sel = ''all'' then Inr True
      else if sel = ''first_of_week'' then is_first_of_week cal d
      else if sel = ''last_of_week'' then is_last_of_week cal d
      else if sel = ''day_before_last_of_week'' then is_day_before_last_of_week cal d
      else if sel = ''first_of_month'' then is_first_of_month cal d
      else if sel = ''last_of_month'' then is_last_of_month cal d
      else Inl (ValueError ''unknown days selector''))"

text \<open>\<open>ExchangeHours.get_next_trading_day\<close>: the calendar while it lasts, then the holiday rules.\<close>

definition get_next_trading_day :: "session_calendar option \<Rightarrow> day \<Rightarrow> day option" where
  "get_next_trading_day cal d =
     (case cal of
        None \<Rightarrow> next_scheduled_session d
      | Some ds \<Rightarrow>
          let i = length (filter (\<lambda>x. x \<le> d) ds)
          in if i < length ds then Some (ds ! i) else next_scheduled_session d)"

section \<open>Rules and events\<close>

datatype date_rule = EveryDay | Every "int list" | WeekStart | WeekEnd | MonthStart | MonthEnd

fun rule_matches :: "date_rule \<Rightarrow> day \<Rightarrow> session_calendar \<Rightarrow> bool res" where
  "rule_matches EveryDay d cal = Inr True"
| "rule_matches (Every ds) d cal = Inr (weekday d \<in> set ds)"
| "rule_matches WeekStart d cal = is_first_of_week cal d"
| "rule_matches WeekEnd d cal = is_last_of_week cal d"
| "rule_matches MonthStart d cal = is_first_of_month cal d"
| "rule_matches MonthEnd d cal = is_last_of_month cal d"

definition day_names :: "(string, int) dict" where
  "day_names = [(''monday'', 0), (''tuesday'', 1), (''wednesday'', 2), (''thursday'', 3), (''friday'', 4),
     (''saturday'', 5), (''sunday'', 6)]"

datatype day_arg = DayNumber int | DayName string

fun day_index :: "day_arg \<Rightarrow> int res" where
  "day_index (DayNumber n) = Inr n"
| "day_index (DayName s) = (case dget day_names (lower s) of None \<Rightarrow> Inl KeyError | Some n \<Rightarrow> Inr n)"

fun map_res :: "('a \<Rightarrow> 'b res) \<Rightarrow> 'a list \<Rightarrow> 'b list res" where
  "map_res f [] = Inr []"
| "map_res f (x # xs) = bind_res (f x) (\<lambda>y. bind_res (map_res f xs) (\<lambda>ys. Inr (y # ys)))"

definition date_every :: "day_arg list \<Rightarrow> date_rule res" where
  "date_every ds = bind_res (map_res day_index ds) (\<lambda>ns. Inr (Every ns))"

definition no_offset :: "int \<Rightarrow> date_rule \<Rightarrow> date_rule res" where
  "no_offset days_offset r =
     (if days_offset \<noteq> 0 then Inl (UnsupportedApiError ''date_rules with days_offset'') else Inr r)"

datatype time_rule = TimeAt ms | AfterOpen pyfloat | BeforeClose pyfloat

fun rule_fire_ms :: "time_rule \<Rightarrow> ms \<Rightarrow> ms \<Rightarrow> ms" where
  "rule_fire_ms (TimeAt t) op cl = t"
| "rule_fire_ms (AfterOpen m) op cl = py_int (fadd (fint op) (fmul m 60000))"
| "rule_fire_ms (BeforeClose m) op cl = py_int (fsub (fint cl) (fmul m 60000))"

definition time_at :: "int \<Rightarrow> int \<Rightarrow> int \<Rightarrow> time_rule" where
  "time_at hour minute second = TimeAt ((hour * 3600 + minute * 60 + second) * 1000)"

text \<open>The callback is user code: it is known to the model by its number.\<close>

record sched_event =
  se_date :: date_rule
  se_time :: time_rule
  se_cb :: nat
  se_name :: string

definition schedule_on :: "date_rule \<Rightarrow> time_rule \<Rightarrow> nat \<Rightarrow> string option \<Rightarrow> string \<Rightarrow> sched_event list \<Rightarrow> sched_event list" where
  "schedule_on dr tr cb name cb_name evs =
     evs @ [\<lparr>se_date = dr, se_time = tr, se_cb = cb, se_name = str_or (opt_or name (Some cb_name))\<rparr>]"

definition fire_of :: "day \<Rightarrow> sched_event \<Rightarrow> ms" where
  "fire_of d ev = rule_fire_ms (se_time ev) REG_OPEN_MS (close_time_ms d)"

fun events_for :: "session_calendar \<Rightarrow> day \<Rightarrow> sched_event list \<Rightarrow> (ms \<times> sched_event) list res" where
  "events_for cal d [] = Inr []"
| "events_for cal d (ev # evs) =
     bind_res (rule_matches (se_date ev) d cal) (\<lambda>hit.
     bind_res (events_for cal d evs) (\<lambda>rest. Inr (if hit then (fire_of d ev, ev) # rest else rest)))"

text \<open>\<open>sorted((ms, ev) ...)\<close> without a key: two entries at one time compare their events, which have
  equality and no order.\<close>

definition sorted_events :: "(ms \<times> sched_event) list \<Rightarrow> (ms \<times> sched_event) list res" where
  "sorted_events es =
     (if \<exists>a\<in>set es. \<exists>b\<in>set es. fst a = fst b \<and> snd a \<noteq> snd b then Inl TypeError
      else Inr (sort_key fst es))"

section \<open>Weeks begin on Mondays\<close>

definition monday_of :: "day \<Rightarrow> day" where
  "monday_of d = d - weekday d"

lemma mk_date_new_year: "mk_date y 1 1 = days_before_year y + 1"
  by (simp add: mk_date_def days_before_month_def)

lemma week1_bounds:
  "days_before_year y - 2 \<le> iso_week1_monday y \<and> iso_week1_monday y \<le> days_before_year y + 4
   \<and> (iso_week1_monday y + 6) mod 7 = 0"
proof -
  let ?f = "days_before_year y + 1"
  let ?w = "(?f + 6) mod 7"
  have w: "0 \<le> ?w" "?w < 7" by simp_all
  have "(?f - ?w + 6) mod 7 = 0"
    by presburger
  moreover from this have "(?f - ?w + 7 + 6) mod 7 = 0" by presburger
  moreover have "iso_week1_monday y = (if 3 < ?w then ?f - ?w + 7 else ?f - ?w)"
    by (simp add: iso_week1_monday_def mk_date_new_year Let_def)
  ultimately show ?thesis using w by (cases "3 < ?w") auto
qed

lemma week1_step: "iso_week1_monday y + 364 \<le> iso_week1_monday (y + 1)"
proof -
  have "days_before_year y + 365 \<le> days_before_year (y + 1)"
    using days_before_year_step [of y] by simp
  moreover have "(iso_week1_monday y + 6) mod 7 = 0" "(iso_week1_monday (y + 1) + 6) mod 7 = 0"
    using week1_bounds by blast+
  ultimately show ?thesis
    using week1_bounds [of y] week1_bounds [of "y + 1"] by presburger
qed

lemma week1_short: "iso_week1_monday (y + 1) \<le> iso_week1_monday y + 371"
proof -
  have "days_before_year (y + 1) \<le> days_before_year y + 366"
    using days_before_year_step [of y] by simp
  moreover have "(iso_week1_monday y + 6) mod 7 = 0" "(iso_week1_monday (y + 1) + 6) mod 7 = 0"
    using week1_bounds by blast+
  ultimately show ?thesis
    using week1_bounds [of y] week1_bounds [of "y + 1"] by presburger
qed

lemma week1_mono: "y < z \<Longrightarrow> iso_week1_monday y < iso_week1_monday z"
proof (induction "nat (z - y)" arbitrary: z)
  case (Suc k)
  have "iso_week1_monday (z - 1) < iso_week1_monday z"
    using week1_step [of "z - 1"] by simp
  moreover have "k = nat (z - 1 - y)" using Suc(2) by simp
  ultimately show ?case using Suc(1) [of "z - 1"] Suc(3) by (cases "y = z - 1") auto
qed simp

text \<open>The ISO year holds the date between the first Mondays of its own and the next week years.\<close>

lemma isocalendar_spec:
  assumes "isocalendar n = (y, w)"
  shows "iso_week1_monday y \<le> n \<and> n < iso_week1_monday (y + 1) \<and> w = (n - iso_week1_monday y) div 7 + 1"
proof -
  let ?y = "year_of n"
  note b = year_of_bounds [of n] week1_bounds [of ?y] week1_bounds [of "?y + 1"] week1_bounds [of "?y - 1"]
    week1_step [of ?y] week1_step [of "?y - 1"] week1_step [of "?y + 1"]
  have prev: "days_before_year (?y - 1) + 365 \<le> days_before_year ?y"
    using days_before_year_step [of "?y - 1"] by simp
  show ?thesis
  proof (cases "(n - iso_week1_monday ?y) div 7 < 0")
    case True
    then have "n < iso_week1_monday ?y" by presburger
    with True b prev assms show ?thesis by (auto simp: isocalendar_def Let_def)
  next
    case False
    then have ge: "iso_week1_monday ?y \<le> n" by presburger
    show ?thesis
    proof (cases "52 \<le> (n - iso_week1_monday ?y) div 7 \<and> iso_week1_monday (?y + 1) \<le> n")
      case True
      with False assms have yw: "y = ?y + 1" "w = 1" by (auto simp: isocalendar_def Let_def)
      have "n - iso_week1_monday (?y + 1) < 7" using b by linarith
      with True have "(n - iso_week1_monday (?y + 1)) div 7 = 0" by simp
      with True yw b show ?thesis by auto
    next
      case hi: False
      with False assms have yw: "y = ?y" "w = (n - iso_week1_monday ?y) div 7 + 1"
        by (auto simp: isocalendar_def Let_def)
      have "n < iso_week1_monday (?y + 1)"
      proof (cases "52 \<le> (n - iso_week1_monday ?y) div 7")
        case True
        with hi show ?thesis by simp
      next
        case False
        then have "n - iso_week1_monday ?y < 364" by presburger
        with b show ?thesis by linarith
      qed
      with yw ge show ?thesis by simp
    qed
  qed
qed

lemma monday_floor: "(m + 6) mod 7 = 0 \<Longrightarrow> m \<le> monday_of n \<longleftrightarrow> m \<le> (n :: int)"
  unfolding monday_of_def weekday_def by presburger

lemma monday_weeks: "(m + 6) mod 7 = 0 \<Longrightarrow> monday_of n = m + 7 * ((n - m) div 7)"
  unfolding monday_of_def weekday_def by presburger

lemma week1_monday: "(iso_week1_monday y + 6) mod 7 = 0"
  using week1_bounds by blast

lemma same_monday_same_year:
  assumes "isocalendar a = (y, w)" "isocalendar b = (z, v)" "monday_of a = monday_of b"
  shows "\<not> y < z"
proof
  assume "y < z"
  then have "iso_week1_monday (y + 1) \<le> iso_week1_monday z"
    using week1_mono [of "y + 1" z] by (cases "y + 1 = z") auto
  also have "\<dots> \<le> b" using isocalendar_spec [OF assms(2)] by simp
  finally have "iso_week1_monday (y + 1) \<le> a"
    using assms(3) monday_floor [OF week1_monday, of "y + 1"] by metis
  then show False using isocalendar_spec [OF assms(1)] by simp
qed

lemma isocalendar_iff: "isocalendar a = isocalendar b \<longleftrightarrow> monday_of a = monday_of b"
proof -
  obtain y w where a: "isocalendar a = (y, w)" by (cases "isocalendar a")
  obtain z v where b: "isocalendar b = (z, v)" by (cases "isocalendar b")
  have m: "monday_of a = iso_week1_monday y + 7 * (w - 1)" "monday_of b = iso_week1_monday z + 7 * (v - 1)"
    using isocalendar_spec [OF a] isocalendar_spec [OF b] monday_weeks [OF week1_monday] by simp_all
  moreover have "y = z" if "monday_of a = monday_of b"
    using same_monday_same_year [OF a b] same_monday_same_year [OF b a] that by linarith
  ultimately show ?thesis by (auto simp: a b)
qed

lemma iso_week_range: "isocalendar n = (y, w) \<Longrightarrow> 1 \<le> w \<and> w \<le> 53"
proof -
  assume "isocalendar n = (y, w)"
  note s = isocalendar_spec [OF this]
  have "0 \<le> n - iso_week1_monday y" "n - iso_week1_monday y < 371"
    using s week1_short [of y] by linarith+
  then have "0 \<le> (n - iso_week1_monday y) div 7" "(n - iso_week1_monday y) div 7 < 53" by presburger+
  with s show ?thesis by simp
qed

lemma week_number_split:
  fixes y z w v :: int
  assumes "1 \<le> w" "w \<le> 53" "1 \<le> v" "v \<le> 53"
  shows "y * 100 + w = z * 100 + v \<longleftrightarrow> y = z \<and> w = v"
proof -
  consider "y = z" | "y + 1 \<le> z" | "z + 1 \<le> y" by linarith
  then show ?thesis using assms by cases auto
qed

lemma week_key_iff: "week_key a = week_key b \<longleftrightarrow> monday_of a = monday_of b"
proof -
  obtain y w where a: "isocalendar a = (y, w)" by (cases "isocalendar a")
  obtain z v where b: "isocalendar b = (z, v)" by (cases "isocalendar b")
  show ?thesis
    using iso_week_range [OF a] iso_week_range [OF b] isocalendar_iff [of a b]
    by (simp add: week_key_def a b week_number_split)
qed

section \<open>Months\<close>

lemma day_in_a_month:
  assumes "0 \<le> r" "r < (if leap y then 366 else 365)"
  shows "\<exists>m. 1 \<le> m \<and> m \<le> 12 \<and> days_before_month y m \<le> r \<and> r < days_before_month y m + days_in_month y m"
proof (rule ccontr)
  assume no: "\<not> ?thesis"
  have m: "days_before_month y m \<le> r \<Longrightarrow> days_before_month y m + days_in_month y m \<le> r"
    if "1 \<le> m" "m \<le> 12" for m
    using no that by force
  show False
    using assms m [of 1] m [of 2] m [of 3] m [of 4] m [of 5] m [of 6] m [of 7] m [of 8] m [of 9] m [of 10]
      m [of 11] m [of 12]
    by (cases "leap y") (simp_all add: days_before_month_def days_in_month_def)
qed

lemma ord2ymd_valid:
  obtains y m d where "ord2ymd n = (y, m, d)" "1 \<le> m" "m \<le> 12" "1 \<le> d" "d \<le> days_in_month y m"
    "n = mk_date y m d"
proof -
  let ?y = "year_of n" and ?r = "n - 1 - days_before_year (year_of n)"
  have "0 \<le> ?r" "?r < (if leap ?y then 366 else 365)"
    using year_of_bounds [of n] days_before_year_step [of ?y] by (auto split: if_splits)
  then obtain m where m: "1 \<le> m" "m \<le> 12" and r: "days_before_month ?y m \<le> ?r"
    "?r < days_before_month ?y m + days_in_month ?y m"
    using day_in_a_month [of ?r ?y] by blast
  let ?d = "?r - days_before_month ?y m + 1"
  have d: "1 \<le> ?d" "?d \<le> days_in_month ?y m" using r by linarith+
  have n: "n = mk_date ?y m ?d" by (simp add: mk_date_def)
  have "ord2ymd n = (?y, m, ?d)" using ymd_roundtrip [OF m d] n by metis
  then show thesis using that m d n by blast
qed

lemma same_month_iff:
  assumes "x \<le> d"
  shows "same_unit Month x d \<longleftrightarrow> mk_date (year_of d) (month_of d) 1 \<le> x"
proof -
  obtain y m k where d: "ord2ymd d = (y, m, k)" "1 \<le> m" "m \<le> 12" "1 \<le> k" "k \<le> days_in_month y m" "d = mk_date y m k"
    by (rule ord2ymd_valid)
  obtain y' m' k' where x: "ord2ymd x = (y', m', k')" "1 \<le> m'" "m' \<le> 12" "1 \<le> k'" "k' \<le> days_in_month y' m'"
    "x = mk_date y' m' k'"
    by (rule ord2ymd_valid)
  have dd: "year_of d = y" "month_of d = m" and xx: "year_of x = y'" "month_of x = m'"
    using d(1) x(1) by (simp_all add: year_of_def month_of_def)
  have "y' = y \<and> m' = m" if le: "mk_date y m 1 \<le> x"
  proof -
    let ?k = "x - mk_date y m 1 + 1"
    have "1 \<le> ?k" "?k \<le> days_in_month y m" "x = mk_date y m ?k"
      using le assms d by (simp_all add: mk_date_def)
    then have "ord2ymd x = (y, m, ?k)" using ymd_roundtrip [OF d(2,3)] by metis
    then show ?thesis using x(1) by simp
  qed
  moreover have "mk_date y m 1 \<le> x" if "y' = y" "m' = m"
    using that x by (simp add: mk_date_def)
  ultimately show ?thesis by (auto simp: same_unit_def dd xx)
qed

text \<open>The first day of a unit.\<close>

definition unit_start :: "cal_unit \<Rightarrow> day \<Rightarrow> day" where
  "unit_start u d = (case u of Week \<Rightarrow> monday_of d | Month \<Rightarrow> mk_date (year_of d) (month_of d) 1)"

lemma same_unit_iff: "x \<le> d \<Longrightarrow> same_unit u x d \<longleftrightarrow> unit_start u d \<le> x"
proof (cases u)
  case Week
  have "x \<le> d \<Longrightarrow> monday_of x = monday_of d \<longleftrightarrow> monday_of d \<le> x"
    unfolding monday_of_def weekday_def by presburger
  then show "x \<le> d \<Longrightarrow> ?thesis" by (simp add: Week same_unit_def unit_start_def isocalendar_iff)
next
  case Month
  then show "x \<le> d \<Longrightarrow> ?thesis" by (simp add: same_month_iff unit_start_def)
qed

lemma unit_start_near: "d - 31 < unit_start u d \<and> unit_start u d \<le> d"
proof (cases u)
  case Week
  have "d - 31 < monday_of d \<and> monday_of d \<le> d" unfolding monday_of_def weekday_def by presburger
  then show ?thesis by (simp add: Week unit_start_def)
next
  case Month
  obtain y m k where d: "ord2ymd d = (y, m, k)" "1 \<le> m" "m \<le> 12" "1 \<le> k" "k \<le> days_in_month y m" "d = mk_date y m k"
    by (rule ord2ymd_valid)
  have dd: "year_of d = y" "month_of d = m" using d(1) by (simp_all add: year_of_def month_of_def)
  have "days_in_month y m \<le> 31" using d(2,3) by (cases rule: month_cases) (auto simp: days_in_month_def)
  moreover have "mk_date y m k = mk_date y m 1 + k - 1" by (simp add: mk_date_def)
  moreover have "unit_start u d = mk_date y m 1" by (simp add: Month unit_start_def dd)
  ultimately show ?thesis using d(4-6) by linarith
qed

lemma earlier_in_exact:
  assumes "x < d" "x - unit_start u d + 2 \<le> int k" "0 < k"
  shows "earlier_in k u d x = Some (\<exists>z. unit_start u d \<le> z \<and> z \<le> x \<and> weekday z < 5 \<and> \<not> is_market_holiday z)"
  using assms
proof (induction k arbitrary: x)
  case (Suc k)
  show ?case
  proof (cases "unit_start u d \<le> x")
    case False
    then show ?thesis using Suc.prems by (auto simp: same_unit_iff)
  next
    case True
    note IH = Suc.IH [of "x - 1"]
    have "z \<le> x \<longleftrightarrow> z = x \<or> z \<le> x - 1" for z :: int by linarith
    then show ?thesis using True Suc.prems IH by (auto simp: same_unit_iff)
  qed
qed simp

lemma scheduled_session_earlier_iff:
  "scheduled_session_earlier_in d u \<longleftrightarrow>
     (\<exists>z. unit_start u d \<le> z \<and> z < d \<and> weekday z < 5 \<and> \<not> is_market_holiday z)"
proof -
  have "d - 1 - unit_start u d + 2 \<le> int 40" using unit_start_near [of d u] by simp
  then show ?thesis
    unfolding scheduled_session_earlier_in_def by (simp add: earlier_in_exact)
qed

section \<open>The selectors mean what they say\<close>

lemma monday_mono: "x \<le> y \<Longrightarrow> monday_of x \<le> monday_of y"
  unfolding monday_of_def weekday_def by presburger

lemma index_of_split: "d \<notin> set xs \<Longrightarrow> index_of (xs @ d # ys) d = Inr (length xs)"
proof -
  assume "d \<notin> set xs"
  then have "takeWhile (\<lambda>x. x \<noteq> d) (xs @ d # ys) = xs @ takeWhile (\<lambda>x. x \<noteq> d) (d # ys)"
    by (intro takeWhile_append2) auto
  then show ?thesis by (simp add: index_of_def)
qed

lemma calendar_split:
  assumes "sorted_wrt (<) cal" "d \<in> set cal"
  obtains xs ys where "cal = xs @ d # ys" "\<forall>x\<in>set xs. x < d" "\<forall>y\<in>set ys. d < y"
    "index_of cal d = Inr (length xs)"
proof -
  obtain xs ys where cal: "cal = xs @ d # ys" using assms(2) by (meson split_list)
  have lt: "\<forall>x\<in>set xs. x < d" "\<forall>y\<in>set ys. d < y"
    using assms(1) by (auto simp: cal sorted_wrt_append)
  then have "d \<notin> set xs" by auto
  with that cal lt index_of_split show thesis by blast
qed

lemma mk_calendar_sorted: "sorted_wrt (<) (mk_calendar days)" "set (mk_calendar days) = set days"
  by (simp_all add: mk_calendar_def strict_sorted_iff)

lemma last_below: "xs \<noteq> [] \<Longrightarrow> sorted_wrt (<) xs \<Longrightarrow> x \<in> set xs \<Longrightarrow> x \<le> last (xs :: int list)"
  by (induction xs rule: rev_induct) (auto simp: sorted_wrt_append)

theorem week_start_is_the_first:
  assumes "sorted_wrt (<) cal" "d \<in> set cal"
  shows "is_first_of_week cal d = Inr
    ((\<forall>x\<in>set cal. x < d \<longrightarrow> monday_of x \<noteq> monday_of d)
     \<and> (d = hd cal \<longrightarrow> \<not> (\<exists>z. monday_of d \<le> z \<and> z < d \<and> weekday z < 5 \<and> \<not> is_market_holiday z)))"
proof -
  obtain xs ys where s: "cal = xs @ d # ys" "\<forall>x\<in>set xs. x < d" "\<forall>y\<in>set ys. d < y"
    "index_of cal d = Inr (length xs)"
    using assms by (rule calendar_split)
  show ?thesis
  proof (cases "xs = []")
    case True
    then show ?thesis
      using s by (auto simp: is_first_of_week_def scheduled_session_earlier_iff unit_start_def)
  next
    case False
    have prev: "cal ! (length xs - 1) = last xs" using False s(1) by (simp add: nth_append last_conv_nth)
    have hd: "d \<noteq> hd cal" using False s by (cases xs) auto
    have "monday_of (last xs) \<noteq> monday_of d \<longleftrightarrow> (\<forall>x\<in>set xs. monday_of x \<noteq> monday_of d)"
    proof
      assume ne: "monday_of (last xs) \<noteq> monday_of d"
      have "sorted_wrt (<) xs" using assms(1) s(1) by (simp add: sorted_wrt_append)
      moreover have "last xs < d" using s(2) False by simp
      ultimately show "\<forall>x\<in>set xs. monday_of x \<noteq> monday_of d"
        using ne last_below [OF False] monday_mono [of _ "last xs"] monday_mono [of "last xs" d] by fastforce
    qed (use False in simp)
    then show ?thesis
      using s False hd prev by (auto simp: is_first_of_week_def week_key_iff)
  qed
qed

theorem week_end_is_the_last:
  assumes "sorted_wrt (<) cal" "d \<in> set cal"
  shows "is_last_of_week cal d = Inr (\<forall>x\<in>set cal. d < x \<longrightarrow> monday_of x \<noteq> monday_of d)"
proof -
  obtain xs ys where s: "cal = xs @ d # ys" "\<forall>x\<in>set xs. x < d" "\<forall>y\<in>set ys. d < y"
    "index_of cal d = Inr (length xs)"
    using assms by (rule calendar_split)
  show ?thesis
  proof (cases ys)
    case Nil
    then show ?thesis using s by (auto simp: is_last_of_week_def)
  next
    case (Cons y zs)
    have nxt: "cal ! (length xs + 1) = y" using s(1) Cons by (simp add: nth_append)
    have "sorted_wrt (<) (y # zs)" using assms(1) s(1) Cons by (simp add: sorted_wrt_append)
    then have "\<forall>x\<in>set ys. y \<le> x" using Cons by auto
    moreover have "d < y" using s(3) Cons by simp
    ultimately have "monday_of y \<noteq> monday_of d \<longleftrightarrow> (\<forall>x\<in>set ys. monday_of x \<noteq> monday_of d)"
      using monday_mono [of y] monday_mono [of d y] Cons by fastforce
    then show ?thesis
      using s nxt Cons by (auto simp: is_last_of_week_def week_key_iff)
  qed
qed

text \<open>Hence a weekly rule is due on exactly one session of each week the calendar knows.\<close>

lemma one_week_end:
  assumes "sorted_wrt (<) cal" "d \<in> set cal"
  shows "\<exists>!e. e \<in> set cal \<and> monday_of e = monday_of d \<and> is_last_of_week cal e = Inr True"
proof -
  let ?W = "{x \<in> set cal. monday_of x = monday_of d}"
  have W: "finite ?W" "?W \<noteq> {}" using assms(2) by auto
  have "Max ?W \<in> ?W" using W by (rule Max_in)
  moreover have "\<forall>x\<in>set cal. Max ?W < x \<longrightarrow> monday_of x \<noteq> monday_of d"
    using Max_ge [OF W(1)] by (force simp: not_le [symmetric])
  ultimately have "Max ?W \<in> set cal \<and> monday_of (Max ?W) = monday_of d \<and> is_last_of_week cal (Max ?W) = Inr True"
    using week_end_is_the_last [OF assms(1)] by simp
  moreover have "e = f"
    if "e \<in> set cal \<and> monday_of e = monday_of d \<and> is_last_of_week cal e = Inr True"
      "f \<in> set cal \<and> monday_of f = monday_of d \<and> is_last_of_week cal f = Inr True" for e f
  proof (rule linorder_cases [of e f])
    assume "e < f" with that show "e = f" using week_end_is_the_last [OF assms(1), of e] by auto
  next
    assume "f < e" with that show "e = f" using week_end_is_the_last [OF assms(1), of f] by auto
  qed
  ultimately show ?thesis by blast
qed

end
