(* ===== verification/Bars.thy ===== *)
theory Bars
  imports Schedule PyList
begin

text \<open>
  The bars of a symbol and a day: \<open>DayBars\<close>, \<open>day_bars_from_scaled\<close> and \<open>derive_daily_row\<close> of
  \<open>dqengine/runtime/core/data.py\<close>, the fill-forward day and the session span of
  \<open>dqengine/runtime/backtester.py\<close>, \<open>TradeBar\<close> of \<open>dqengine/runtime/bars.py\<close> and the consolidator of
  \<open>dqengine/runtime/consolidators.py\<close>.  The aligned columns of \<open>DayBars\<close> are a list of bars, times are
  a day and milliseconds since its midnight, spans are milliseconds.
\<close>

section \<open>A symbol's day\<close>

record bar =
  b_start :: ms
  b_open :: pyfloat
  b_high :: pyfloat
  b_low :: pyfloat
  b_close :: pyfloat
  b_volume :: pyfloat

type_synonym day_bars = "bar list"
type_synonym scaled_row = "ms \<times> pyfloat \<times> pyfloat \<times> pyfloat \<times> pyfloat \<times> pyfloat"

definition SCALE :: pyfloat where "SCALE = 10000"

definition scaled_bar :: "scaled_row \<Rightarrow> bar" where
  "scaled_bar r =
     (case r of (t, op, h, l, c, v) \<Rightarrow>
        \<lparr>b_start = t, b_open = fdiv op SCALE, b_high = fdiv h SCALE, b_low = fdiv l SCALE,
         b_close = fdiv c SCALE, b_volume = v\<rparr>)"

definition day_bars_from_scaled :: "day \<Rightarrow> scaled_row list \<Rightarrow> day_bars option" where
  "day_bars_from_scaled d rows =
     (let kept = filter (\<lambda>r. REG_OPEN_MS \<le> fst r \<and> fst r < close_time_ms d) rows
      in if kept = [] then None else Some (map scaled_bar kept))"

definition day_open :: "day_bars \<Rightarrow> pyfloat" where
  "day_open b = b_open (b ! 0)"

definition day_close :: "day_bars \<Rightarrow> pyfloat" where
  "day_close b = b_close (last b)"

definition highest :: "day_bars \<Rightarrow> pyfloat" where
  "highest b = fmax (map b_high b)"

definition lowest :: "day_bars \<Rightarrow> pyfloat" where
  "lowest b = fmin (map b_low b)"

definition total_volume :: "day_bars \<Rightarrow> pyfloat" where
  "total_volume b = fsum (map b_volume b)"

text \<open>\<open>float(f"{x:g}")\<close>: six significant digits, read back.\<close>

fun ilog10 :: "nat \<Rightarrow> nat" where
  "ilog10 n = (if n < 10 then 0 else Suc (ilog10 (n div 10)))"

definition dec_exponent :: "pyfloat \<Rightarrow> int" where
  "dec_exponent x =
     (if 1 \<le> x then int (ilog10 (nat \<lfloor>x\<rfloor>)) else - int (Suc (ilog10 (nat (\<lceil>1 / x\<rceil> - 1)))))"

definition ten_to :: "int \<Rightarrow> rat" where
  "ten_to e = (if 0 \<le> e then 10 ^ nat e else 1 / 10 ^ nat (- e))"

definition six_digits :: "pyfloat \<Rightarrow> pyfloat" where
  "six_digits x =
     (if x = 0 then 0
      else let u = ten_to (dec_exponent \<bar>x\<bar> - 5) in fl (of_int (rnd_even (x / u)) * u))"

type_synonym daily_row = "pyfloat \<times> pyfloat \<times> pyfloat \<times> pyfloat \<times> pyfloat"

definition derive_daily_row :: "day_bars option \<Rightarrow> daily_row res" where
  "derive_daily_row bars =
     (case bars of
        None \<Rightarrow> Inl (ValueError ''no bars to derive a daily row from'')
      | Some b \<Rightarrow>
          if b = [] then Inl (ValueError ''no bars to derive a daily row from'')
          else Inr (day_open b, highest b, lowest b, day_close b, six_digits (total_volume b)))"

section \<open>Bars of a session\<close>

definition minute_starts :: "ms \<Rightarrow> ms list" where
  "minute_starts close_ms = map (\<lambda>i. REG_OPEN_MS + 60000 * int i) [0..<nat ((close_ms - REG_OPEN_MS + 59999) div 60000)]"

definition fill_forward_day :: "pyfloat \<Rightarrow> ms \<Rightarrow> day_bars" where
  "fill_forward_day px close_ms =
     map (\<lambda>t. \<lparr>b_start = t, b_open = px, b_high = px, b_low = px, b_close = px, b_volume = 0\<rparr>)
       (minute_starts close_ms)"

definition daily_bar :: "daily_row \<Rightarrow> bar" where
  "daily_bar r =
     (case r of (op, h, l, c, v) \<Rightarrow>
        \<lparr>b_start = REG_OPEN_MS, b_open = op, b_high = h, b_low = l, b_close = c, b_volume = v\<rparr>)"

fun gaps :: "int list \<Rightarrow> int list" where
  "gaps (x # y # xs) = (y - x) # gaps (y # xs)"
| "gaps _ = []"

fun min_list_int :: "int list \<Rightarrow> int option" where
  "min_list_int [] = None"
| "min_list_int (x # xs) = (case min_list_int xs of None \<Rightarrow> Some x | Some m \<Rightarrow> Some (min x m))"

definition finest_gap :: "(sym, day_bars) dict \<Rightarrow> int option" where
  "finest_gap bars =
     min_list_int (concat (map (\<lambda>(s, b).
       case min_list_int (gaps (map b_start b)) of None \<Rightarrow> [] | Some g \<Rightarrow> if 0 < g then [g] else []) bars))"

definition session_span :: "int \<Rightarrow> (sym, day_bars) dict \<Rightarrow> int" where
  "session_span bar_ms bars =
     (case finest_gap bars of None \<Rightarrow> bar_ms | Some g \<Rightarrow> min bar_ms g)"

record trade_bar =
  tb_sym :: sym
  tb_time :: "day \<times> ms"
  tb_end :: "day \<times> ms"
  tb_open :: pyfloat
  tb_high :: pyfloat
  tb_low :: pyfloat
  tb_close :: pyfloat
  tb_volume :: pyfloat

definition trade_bar_of :: "sym \<Rightarrow> day \<Rightarrow> ms \<Rightarrow> ms \<Rightarrow> bar \<Rightarrow> trade_bar" where
  "trade_bar_of s d t sp b =
     \<lparr>tb_sym = s, tb_time = (d, t - sp), tb_end = (d, t), tb_open = b_open b, tb_high = b_high b,
      tb_low = b_low b, tb_close = b_close b, tb_volume = b_volume b\<rparr>"

section \<open>Consolidation\<close>

record consolidator =
  co_span :: ms
  co_handlers :: "nat list"
  co_out :: "trade_bar option"
  co_work :: "trade_bar option"
  co_bucket :: "int option"

datatype bar_size = DAILY | MINUTE | SECOND

datatype period = Span ms | Sized bar_size

fun span_of :: "period \<Rightarrow> ms" where
  "span_of (Span s) = s"
| "span_of (Sized SECOND) = 1000"
| "span_of (Sized MINUTE) = 60000"
| "span_of (Sized DAILY) = 86400000"

definition mk_consolidator :: "period \<Rightarrow> consolidator" where
  "mk_consolidator p = \<lparr>co_span = span_of p, co_handlers = [], co_out = None, co_work = None, co_bucket = None\<rparr>"

definition add_handler :: "nat \<Rightarrow> consolidator \<Rightarrow> consolidator" where
  "add_handler h c = c\<lparr>co_handlers := co_handlers c @ [h]\<rparr>"

definition bucket_of :: "consolidator \<Rightarrow> day \<times> ms \<Rightarrow> int" where
  "bucket_of c t = (if 86400000 \<le> co_span c then 0 else snd t div co_span c)"

definition bucket_changed :: "trade_bar \<Rightarrow> consolidator \<Rightarrow> bool" where
  "bucket_changed b c = (case co_bucket c of None \<Rightarrow> False | Some k \<Rightarrow> bucket_of c (tb_end b) \<noteq> k)"

text \<open>\<open>scan\<close> up to its handlers, and the rest of \<open>update\<close> after it.\<close>

definition co_emit :: "consolidator \<Rightarrow> consolidator" where
  "co_emit c =
     (case co_work c of None \<Rightarrow> c | Some w \<Rightarrow> c\<lparr>co_out := Some w, co_work := None, co_bucket := None\<rparr>)"

definition widen :: "trade_bar \<Rightarrow> trade_bar \<Rightarrow> trade_bar" where
  "widen w b =
     \<lparr>tb_sym = tb_sym w, tb_time = tb_time w, tb_end = tb_end b, tb_open = tb_open w,
      tb_high = max (tb_high w) (tb_high b), tb_low = min (tb_low w) (tb_low b), tb_close = tb_close b,
      tb_volume = fadd (tb_volume w) (tb_volume b)\<rparr>"

definition co_absorb :: "trade_bar \<Rightarrow> consolidator \<Rightarrow> consolidator" where
  "co_absorb b c =
     c\<lparr>co_bucket := Some (bucket_of c (tb_end b)),
       co_work := Some (case co_work c of None \<Rightarrow> b | Some w \<Rightarrow> widen w b)\<rparr>"

section \<open>What a consolidator emits\<close>

text \<open>\<open>update\<close> and the final \<open>scan\<close> without the handlers: the consolidator and the bars it emitted.\<close>

definition co_feed :: "consolidator \<times> trade_bar list \<Rightarrow> trade_bar \<Rightarrow> consolidator \<times> trade_bar list" where
  "co_feed cb b =
     (case cb of (c, out) \<Rightarrow>
        if bucket_changed b c
        then (co_absorb b (co_emit c), out @ (case co_work c of None \<Rightarrow> [] | Some w \<Rightarrow> [w]))
        else (co_absorb b c, out))"

definition co_run :: "consolidator \<Rightarrow> trade_bar list \<Rightarrow> trade_bar list" where
  "co_run c bs =
     (case foldl co_feed (c, []) bs of
        (c', out) \<Rightarrow> out @ (case co_work c' of None \<Rightarrow> [] | Some w \<Rightarrow> [w]))"

text \<open>The reference: runs of bars of one bucket, each as one bar.\<close>

fun bucket_runs :: "('a \<Rightarrow> int) \<Rightarrow> 'a list \<Rightarrow> 'a list list" where
  "bucket_runs k [] = []"
| "bucket_runs k (x # xs) =
     (case bucket_runs k xs of
        (y # ys) # rs \<Rightarrow> if k x = k y then (x # y # ys) # rs else [x] # (y # ys) # rs
      | _ \<Rightarrow> [[x]])"

definition whole_bar :: "trade_bar list \<Rightarrow> trade_bar" where
  "whole_bar bs =
     \<lparr>tb_sym = tb_sym (hd bs), tb_time = tb_time (hd bs), tb_end = tb_end (last bs), tb_open = tb_open (hd bs),
      tb_high = fmax (map tb_high bs), tb_low = fmin (map tb_low bs), tb_close = tb_close (last bs),
      tb_volume = foldl fadd (tb_volume (hd bs)) (map tb_volume (tl bs))\<rparr>"

lemma whole_bar_one: "whole_bar [b] = b"
  by (simp add: whole_bar_def fmax_def fmin_def)

lemma whole_bar_snoc: "bs \<noteq> [] \<Longrightarrow> whole_bar (bs @ [b]) = widen (whole_bar bs) b"
  by (cases bs) (simp_all add: whole_bar_def widen_def fmax_def fmin_def)

text \<open>The same runs, collected from the left.\<close>

definition add_to_runs :: "('a \<Rightarrow> int) \<Rightarrow> 'a list list \<Rightarrow> 'a \<Rightarrow> 'a list list" where
  "add_to_runs k rs x =
     (if rs = [] then [[x]]
      else if k (hd (last rs)) = k x then butlast rs @ [last rs @ [x]] else rs @ [[x]])"

definition runs_ok :: "('a \<Rightarrow> int) \<Rightarrow> 'a list list \<Rightarrow> bool" where
  "runs_ok k rs \<longleftrightarrow> (\<forall>r\<in>set rs. r \<noteq> [] \<and> (\<forall>x\<in>set r. k x = k (hd r)))"

lemma runs_ok_simps [simp]:
  "runs_ok k []" "runs_ok k (r # rs) \<longleftrightarrow> r \<noteq> [] \<and> (\<forall>x\<in>set r. k x = k (hd r)) \<and> runs_ok k rs"
  by (simp_all add: runs_ok_def)

lemma bucket_runs_ok: "runs_ok k (bucket_runs k xs) \<and> (bucket_runs k xs = [] \<longleftrightarrow> xs = [])"
proof (induction xs)
  case (Cons x xs)
  show ?case
  proof (cases "bucket_runs k xs")
    case (Cons r rs)
    then show ?thesis using Cons.IH by (cases r) simp_all
  qed simp
qed simp

lemma bucket_runs_snoc: "bucket_runs k (xs @ [x]) = add_to_runs k (bucket_runs k xs) x"
proof (induction xs)
  case Nil
  then show ?case by (simp add: add_to_runs_def)
next
  case (Cons y xs)
  note ok = bucket_runs_ok [of k xs]
  show ?case
  proof (cases "bucket_runs k xs")
    case Nil
    then show ?thesis using Cons ok by (auto simp: add_to_runs_def)
  next
    case (Cons r rs)
    then obtain z zs where r: "r = z # zs" using ok by (cases r) (auto simp: runs_ok_def)
    show ?thesis
    proof (cases "rs = []")
      case True
      then show ?thesis
        using Cons Cons.IH r ok by (auto simp: add_to_runs_def runs_ok_def)
    next
      case False
      then show ?thesis
        using Cons Cons.IH r by (auto simp: add_to_runs_def)
    qed
  qed
qed

lemma bucket_of_frame [simp]:
  "bucket_of (c\<lparr>co_out := x, co_work := y, co_bucket := z\<rparr>) = bucket_of c"
  by (simp add: bucket_of_def fun_eq_iff)

definition co_inv :: "consolidator \<Rightarrow> trade_bar list list \<Rightarrow> trade_bar list \<Rightarrow> consolidator \<Rightarrow> bool" where
  "co_inv c0 rs out c \<longleftrightarrow>
     co_span c = co_span c0
     \<and> (if rs = [] then out = [] \<and> co_work c = None \<and> co_bucket c = None
        else out = map whole_bar (butlast rs) \<and> co_work c = Some (whole_bar (last rs))
             \<and> co_bucket c = Some (bucket_of c0 (tb_end (hd (last rs)))))"

lemma co_feed_inv:
  assumes "co_inv c0 rs out c" "runs_ok (\<lambda>b. bucket_of c0 (tb_end b)) rs"
  shows "(case co_feed (c, out) b of (c', out') \<Rightarrow>
    co_inv c0 (add_to_runs (\<lambda>b. bucket_of c0 (tb_end b)) rs b) out' c')"
proof -
  have sp: "bucket_of c = bucket_of c0" using assms(1) by (auto simp: co_inv_def bucket_of_def)
  have bk: "bucket_of (co_emit c) = bucket_of c0"
    using assms(1) by (auto simp: co_inv_def bucket_of_def co_emit_def split: option.splits)
  show ?thesis
  proof (cases "rs = []")
    case True
    then show ?thesis
      using assms(1) by (auto simp: co_inv_def co_feed_def bucket_changed_def co_absorb_def add_to_runs_def
          sp whole_bar_one)
  next
    case False
    then have last: "last rs \<noteq> []" using assms(2) by (auto simp: runs_ok_def)
    have rs: "map whole_bar rs = map whole_bar (butlast rs) @ [whole_bar (last rs)]"
      using False by (metis append_butlast_last_id list.simps(8,9) map_append)
    show ?thesis
      using assms(1) False last rs
      by (auto simp: co_inv_def co_feed_def bucket_changed_def co_absorb_def add_to_runs_def sp bk
          whole_bar_one whole_bar_snoc co_emit_def split: if_splits)
  qed
qed

lemma co_run_inv:
  assumes "co_work c = None" "co_bucket c = None"
  shows "case foldl co_feed (c, []) bs of (c', out) \<Rightarrow>
    co_inv c (bucket_runs (\<lambda>b. bucket_of c (tb_end b)) bs) out c'"
proof (induction bs rule: rev_induct)
  case Nil
  then show ?case using assms by (simp add: co_inv_def)
next
  case (snoc b bs)
  obtain c' out where s: "foldl co_feed (c, []) bs = (c', out)" by (cases "foldl co_feed (c, []) bs")
  show ?case
    using snoc
    by (simp add: s bucket_runs_snoc co_feed_inv bucket_runs_ok)
qed

lemma map_snoc_last: "rs \<noteq> [] \<Longrightarrow> map f (butlast rs) @ [f (last rs)] = map f rs"
  by (metis append_butlast_last_id list.simps(8,9) map_append)

lemma co_inv_flush:
  assumes "co_inv c0 rs out c"
  shows "out @ (case co_work c of None \<Rightarrow> [] | Some w \<Rightarrow> [w]) = map whole_bar rs"
proof (cases "rs = []")
  case False
  then have "out = map whole_bar (butlast rs)" "co_work c = Some (whole_bar (last rs))"
    using assms by (simp_all add: co_inv_def)
  then show ?thesis by (simp only: option.case map_snoc_last [OF False])
qed (use assms in \<open>simp add: co_inv_def\<close>)

text \<open>C11: A consolidator loses no bar and invents none: fed any bars and closed at the end, it emits one bar for
  each maximal stretch of consecutive bars with the same bucket, in order, with the first open, the highest
  high, the lowest low, the last close and the summed volume of exactly those bars.\<close>

theorem consolidation_is_exact:
  assumes "co_work c = None" "co_bucket c = None"
  shows "co_run c bs = map whole_bar (bucket_runs (\<lambda>b. bucket_of c (tb_end b)) bs)"
proof -
  obtain c' out where s: "foldl co_feed (c, []) bs = (c', out)" by (cases "foldl co_feed (c, []) bs")
  have "co_inv c (bucket_runs (\<lambda>b. bucket_of c (tb_end b)) bs) out c'"
    using co_run_inv [OF assms, of bs] unfolding s prod.case .
  from co_inv_flush [OF this] show ?thesis unfolding co_run_def s prod.case .
qed

definition demo_bar :: "ms \<Rightarrow> pyfloat \<Rightarrow> trade_bar" where
  "demo_bar t px =
     \<lparr>tb_sym = ''SPY'', tb_time = (738000, t - 60000), tb_end = (738000, t), tb_open = px, tb_high = px + 1,
      tb_low = px - 1, tb_close = px, tb_volume = 5\<rparr>"

theorem consolidation_is_exact_witness:
  "map (\<lambda>b. (tb_high b, tb_close b)) (co_run (mk_consolidator (Span 300000)) [demo_bar 34260000 10, demo_bar 34320000 12, demo_bar 34500000 9])
    = [(13, 12), (10, 9)]"
  by (subst consolidation_is_exact)
     (simp_all add: mk_consolidator_def bucket_of_def demo_bar_def whole_bar_def fmax_def fmin_def)

text \<open>The bucket is read from a bar's end, so the minute that ends on the hour is the first of the next
  hour, not the last of its own; and a span of a day or more has one bucket, closed by the session.\<close>

lemma hour_ends_a_minute_early:
  fixes c :: consolidator
  assumes "co_span c = 3600000"
  shows "bucket_of c (tb_end (trade_bar_of s d (10 * 3600000) 60000 b)) = 10"
  using assms by (simp add: bucket_of_def trade_bar_of_def)

lemma long_spans_have_one_bucket: "86400000 \<le> co_span c \<Longrightarrow> bucket_of c t = bucket_of c u"
  by (simp add: bucket_of_def)

end
