(* ===== verification/Snapshot.thy ===== *)
theory Snapshot
  imports Publish Orders Bars "HOL-Library.Sublist"
begin

text \<open>
  The snapshot of a run and its deltas: \<open>Backtester._result\<close> of \<open>dqengine/runtime/backtester.py\<close>, and
  \<open>_since\<close> and \<open>_merge_snapshot\<close> of \<open>dqengine/live/driver/engine.py\<close>.  The state is the order book of
  \<open>Orders\<close> with the lists only a run keeps; what \<open>_result\<close> copies through unread is left out.
\<close>

section \<open>State\<close>

record run_engine =
  re_book :: obook
  re_algo_logs :: "string list"
  re_days :: "day list"
  re_equity :: "pyfloat list"
  re_flows :: "pyfloat list"
  re_pending_flow :: pyfloat
  re_start :: pyfloat
  re_syms :: "sym list"
  re_resolutions :: "bar_size list"
  re_live :: "daily_live option"
  re_cache :: "((nat \<times> nat \<times> nat \<times> pyfloat) \<times> stats) option"

definition res_name :: "bar_size list \<Rightarrow> string" where
  "res_name rs = (if set rs = {DAILY} then ''daily'' else if SECOND \<in> set rs then ''second'' else ''minute'')"

section \<open>What a run appends\<close>

definition MAX_LOG_LINES :: nat where "MAX_LOG_LINES = 10000"

definition algo_log :: "string \<Rightarrow> 'a run_engine_scheme \<Rightarrow> 'a run_engine_scheme" where
  "algo_log msg e =
     (if length (re_algo_logs e) < MAX_LOG_LINES then e\<lparr>re_algo_logs := re_algo_logs e @ [msg]\<rparr>
      else if length (re_algo_logs e) = MAX_LOG_LINES
      then e\<lparr>re_algo_logs := re_algo_logs e @ [''...log truncated'']\<rparr>
      else e)"

text \<open>The mark of a session that is not part of the warm-up.\<close>

definition mark_equity :: "day \<Rightarrow> 'a run_engine_scheme \<Rightarrow> 'a run_engine_scheme" where
  "mark_equity day e =
     e\<lparr>re_days := re_days e @ [day],
       re_equity := re_equity e @ [equity (ob_sleeve (re_book e)) (prices (re_book e))],
       re_flows := re_flows e @ [re_pending_flow e], re_pending_flow := 0\<rparr>"

section \<open>Rows\<close>

definition run_fill_row :: "fill_rec \<Rightarrow> run_fill" where
  "run_fill_row f =
     \<lparr>rf_day = fr_day f, rf_ms = fr_time f, rf_sym = fr_sym f, rf_qty = fr_qty f, rf_px = py_round (fr_price f) 4,
      rf_tag = (if starts_with (fr_tag f) GENERATED_TAG_PREFIX then drop 3 (fr_tag f) else fr_tag f),
      rf_fees = py_round (fr_fees f) 4, rf_model = map_option (\<lambda>p. py_round p 4) (fr_model_price f),
      rf_confirmed = fr_confirmed f, rf_at_open = (fr_kind f = ''market_on_open'')\<rparr>"

definition exposure :: "(sym, pyfloat) dict \<Rightarrow> sym \<times> int \<Rightarrow> pyfloat" where
  "exposure px e = \<bar>fmul (fint (snd e)) (dget_or px (fst e) 0)\<bar>"

definition holding_rows :: "sleeve \<Rightarrow> (sym, pyfloat) dict \<Rightarrow> held_row list" where
  "holding_rows s px =
     map (\<lambda>(k, q). \<lparr>h_sym = k, h_qty = q, h_px = cents (dget_or px k 0), h_value = worth q (dget_or px k 0),
                    h_entry = py_round (num_or0 (get_entry_price s k)) 4\<rparr>)
       (filter (\<lambda>e. snd e \<noteq> 0) (sort_key (\<lambda>e. - exposure px e) (qty s)))"

definition open_ticket_row :: "bool \<Rightarrow> ticket \<Rightarrow> open_row" where
  "open_ticket_row live t =
     \<lparr>oo_sym = tk_sym t, oo_qty = tk_qty t, oo_type = Some (type_value (tk_type t)), oo_id = Some (tk_id t),
      oo_tag = tk_tag t, oo_limit = tk_limit t, oo_stop = tk_stop t,
      oo_trail = (if tk_trail_pct t then tk_trail t else None),
      oo_created = (if live then Some (fst (tk_created t)) else None)\<rparr>"

definition position_rows :: "'a run_engine_scheme \<Rightarrow> run_position" where
  "position_rows e =
     (let b = re_book e; px = prices b
      in \<lparr>rp_cash = cents (cash (ob_sleeve b)), rp_holdings = holding_rows (ob_sleeve b) px,
          rp_lasts = concat (map (\<lambda>s. if 0 < dget_or px s 0 then [(s, cents (dget_or px s 0))] else []) (re_syms e)),
          rp_open = map (\<lambda>i. open_ticket_row (re_live e \<noteq> None) (tk b i)) (open_ids b)\<rparr>)"

section \<open>The snapshot\<close>

definition cache_key :: "'a run_engine_scheme \<Rightarrow> nat \<times> nat \<times> nat \<times> pyfloat" where
  "cache_key e = (length (re_days e), length (re_equity e), length (re_flows e), re_start e)"

definition cached_stats :: "pow_fun \<Rightarrow> 'a run_engine_scheme \<Rightarrow> (stats \<times> 'a run_engine_scheme) res" where
  "cached_stats pw e =
     (let miss = bind_res (stats_from_equity pw (re_days e) (re_equity e) (re_flows e) (re_start e))
            (\<lambda>st. Inr (st, e\<lparr>re_cache := Some (cache_key e, st)\<rparr>))
      in case re_cache e of
           None \<Rightarrow> miss
         | Some (k, st) \<Rightarrow> if k = cache_key e then Inr (st, e) else miss)"

definition all_parts :: "'a run_engine_scheme \<Rightarrow> log_parts" where
  "all_parts e = (map Algo (re_algo_logs e), map Refused (refused_log (re_book e)),
     map Missed (unfilled_log (re_book e)))"

definition part_counts :: "log_parts \<Rightarrow> nat \<times> nat \<times> nat" where
  "part_counts p = (case p of (a, r, m) \<Rightarrow> (length a, length r, length m))"

definition counts_of :: "'a run_engine_scheme \<Rightarrow> log_counts" where
  "counts_of e = \<lparr>lc_fills = length (fills_log (ob_sleeve (re_book e))), lc_equity = length (re_equity e),
     lc_logs = part_counts (all_parts e)\<rparr>"

definition flat_parts :: "log_parts \<Rightarrow> log_line list" where
  "flat_parts p = (case p of (a, r, m) \<Rightarrow> a @ r @ m)"

definition drop_parts :: "nat \<times> nat \<times> nat \<Rightarrow> log_parts \<Rightarrow> log_parts" where
  "drop_parts n p = (case (n, p) of ((i, j, k), (a, r, m)) \<Rightarrow> (drop i a, drop j r, drop k m))"

definition add_parts :: "log_parts \<Rightarrow> log_parts \<Rightarrow> log_parts" where
  "add_parts p p' = (case (p, p') of ((a, r, m), (a', r', m')) \<Rightarrow> (a @ a', r @ r', m @ m'))"

definition no_counts :: log_counts where
  "no_counts = \<lparr>lc_fills = 0, lc_equity = 0, lc_logs = (0, 0, 0)\<rparr>"

definition since_or_start :: "log_counts option \<Rightarrow> log_counts" where
  "since_or_start since = (case since of None \<Rightarrow> no_counts | Some c \<Rightarrow> c)"

definition stats_fields :: "stats \<Rightarrow> 'a run_engine_scheme \<Rightarrow> stats" where
  "stats_fields st e =
     dput (dput st ''fills'' (Some (fint (int (length (fills_log (ob_sleeve (re_book e))))))))
       ''orders'' (Some (fint (int (length (orders_log (ob_sleeve (re_book e)))))))"

definition run_result :: "pow_fun \<Rightarrow> log_counts option \<Rightarrow> 'a run_engine_scheme \<Rightarrow> (snapshot \<times> 'a run_engine_scheme) res" where
  "run_result pw since e =
     bind_res (cached_stats pw e) (\<lambda>(st, e1).
       let c = since_or_start since; n = counts_of e
       in if lc_fills n < lc_fills c \<or> lc_equity n < lc_equity c then Inl (ValueError ''snapshot since'')
          else Inr
            (\<lparr>sn_stats = stats_fields st e, sn_position = Some (position_rows e),
              sn_days = drop (lc_equity c) (re_days e), sn_equity = drop (lc_equity c) (re_equity e),
              sn_flows = drop (lc_equity c) (re_flows e),
              sn_fills = map run_fill_row (drop (lc_fills c) (fills_log (ob_sleeve (re_book e)))),
              sn_parts = drop_parts (lc_logs c) (all_parts e),
              sn_logs = (if since = None then Some (flat_parts (all_parts e)) else None),
              sn_counts = n, sn_resolution = Some (res_name (re_resolutions e)), sn_live = re_live e\<rparr>, e1))"

section \<open>The driver's copy\<close>

definition since_of :: "snapshot option \<Rightarrow> log_counts option" where
  "since_of full = map_option sn_counts full"

definition merge_snapshot :: "snapshot option \<Rightarrow> snapshot \<Rightarrow> snapshot attempt" where
  "merge_snapshot full delta =
     (case full of
        None \<Rightarrow> if sn_logs delta = None then Inl (Fault ''first snapshot from an engine was a delta'') else Inr delta
      | Some f \<Rightarrow>
          let parts = add_parts (sn_parts f) (sn_parts delta);
              out = delta\<lparr>sn_fills := sn_fills f @ sn_fills delta, sn_days := sn_days f @ sn_days delta,
                 sn_equity := sn_equity f @ sn_equity delta, sn_flows := sn_flows f @ sn_flows delta,
                 sn_parts := parts, sn_logs := Some (flat_parts parts)\<rparr>
          in if \<lparr>lc_fills = length (sn_fills out), lc_equity = length (sn_equity out),
                 lc_logs = part_counts parts\<rparr> = sn_counts delta
             then Inr out else Inl (Fault ''snapshot merge does not reconcile''))"

end
