(* ===== verification/SnapshotProps.thy ===== *)
theory SnapshotProps
  imports Snapshot OrderProps
begin

text \<open>
  The driver keeps one full snapshot and asks for deltas.  Its copy refines the engine: after any number
  of deltas it is the full snapshot of the engine as it stands, statistics included, although the
  statistics come from a cache.
\<close>

section \<open>A run only appends\<close>

definition grows :: "'a run_engine_scheme \<Rightarrow> 'a run_engine_scheme \<Rightarrow> bool" where
  "grows e e' \<longleftrightarrow>
     prefix (fills_log (ob_sleeve (re_book e))) (fills_log (ob_sleeve (re_book e'))) \<and>
     prefix (refused_log (re_book e)) (refused_log (re_book e')) \<and>
     prefix (unfilled_log (re_book e)) (unfilled_log (re_book e')) \<and>
     prefix (re_algo_logs e) (re_algo_logs e') \<and> prefix (re_days e) (re_days e') \<and>
     prefix (re_equity e) (re_equity e') \<and> prefix (re_flows e) (re_flows e') \<and>
     re_start e' = re_start e \<and> re_cache e' = re_cache e"

text \<open>The session close appends to the three equity lists together.\<close>

definition aligned :: "'a run_engine_scheme \<Rightarrow> bool" where
  "aligned e \<longleftrightarrow> length (re_days e) = length (re_equity e) \<and> length (re_flows e) = length (re_equity e)"

section \<open>The statistics cache\<close>

definition cache_valid :: "pow_fun \<Rightarrow> 'a run_engine_scheme \<Rightarrow> bool" where
  "cache_valid pw e \<longleftrightarrow>
     (case re_cache e of
        None \<Rightarrow> True
      | Some ((i, j, k, c), st) \<Rightarrow>
          i \<le> length (re_days e) \<and> j \<le> length (re_equity e) \<and> k \<le> length (re_flows e) \<and>
          stats_from_equity pw (take i (re_days e)) (take j (re_equity e)) (take k (re_flows e)) c = Inr st)"

lemma take_prefix: "prefix xs ys \<Longrightarrow> n \<le> length xs \<Longrightarrow> take n ys = take n xs"
  by (auto simp: prefix_def)

lemma cache_valid_grows: "cache_valid pw e \<Longrightarrow> grows e e' \<Longrightarrow> cache_valid pw e'"
  unfolding cache_valid_def grows_def
  by (auto simp: take_prefix split: option.splits dest: prefix_length_le)

definition true_stats :: "pow_fun \<Rightarrow> 'a run_engine_scheme \<Rightarrow> stats res" where
  "true_stats pw e = stats_from_equity pw (re_days e) (re_equity e) (re_flows e) (re_start e)"

lemma cached_stats_true:
  assumes "cache_valid pw e" "cached_stats pw e = Inr (st, e1)"
  shows "true_stats pw e = Inr st \<and> cache_valid pw e1 \<and> e1 = e\<lparr>re_cache := re_cache e1\<rparr>"
proof (cases "\<exists>st'. re_cache e = Some (cache_key e, st')")
  case True
  with assms show ?thesis
    by (auto simp: cached_stats_def Let_def cache_valid_def cache_key_def true_stats_def)
next
  case False
  then have "cached_stats pw e = bind_res (true_stats pw e) (\<lambda>st. Inr (st, e\<lparr>re_cache := Some (cache_key e, st)\<rparr>))"
    by (auto simp: cached_stats_def Let_def true_stats_def split: option.splits)
  with assms(2) have "true_stats pw e = Inr st" "e1 = e\<lparr>re_cache := Some (cache_key e, st)\<rparr>"
    by (auto simp: bind_res_Inr_iff)
  then show ?thesis by (simp add: cache_valid_def cache_key_def true_stats_def)
qed

section \<open>The abstract snapshot\<close>

definition full_snapshot :: "pow_fun \<Rightarrow> 'a run_engine_scheme \<Rightarrow> snapshot res" where
  "full_snapshot pw e =
     bind_res (true_stats pw e) (\<lambda>st. Inr
       \<lparr>sn_stats = stats_fields st e, sn_position = Some (position_rows e), sn_days = re_days e,
        sn_equity = re_equity e, sn_flows = re_flows e,
        sn_fills = map run_fill_row (fills_log (ob_sleeve (re_book e))), sn_parts = all_parts e,
        sn_logs = Some (flat_parts (all_parts e)), sn_counts = counts_of e,
        sn_resolution = Some (res_name (re_resolutions e)), sn_live = re_live e\<rparr>)"

lemma result_without_since:
  assumes "cache_valid pw e" "run_result pw None e = Inr (res, e1)"
  shows "full_snapshot pw e = Inr res"
proof -
  obtain st where st: "cached_stats pw e = Inr (st, e1)"
    using assms(2) by (auto simp: run_result_def bind_res_Inr_iff Let_def split: if_splits)
  then show ?thesis
    using assms(2) cached_stats_true [OF assms(1) st]
    by (cases "all_parts e")
      (auto simp: run_result_def full_snapshot_def Let_def since_or_start_def no_counts_def drop_parts_def)
qed

lemma prefix_drop: "prefix xs ys \<Longrightarrow> xs @ drop (length xs) ys = ys"
  by (auto simp: prefix_def)

lemma counts_fields:
  "lc_fills (counts_of e) = length (fills_log (ob_sleeve (re_book e)))" "lc_equity (counts_of e) = length (re_equity e)"
  "lc_logs (counts_of e) = part_counts (all_parts e)"
  by (simp_all add: counts_of_def)

lemma add_drop_parts:
  "grows e e' \<Longrightarrow> add_parts (all_parts e) (drop_parts (part_counts (all_parts e)) (all_parts e')) = all_parts e'"
  unfolding grows_def all_parts_def part_counts_def
  by (simp add: add_parts_def drop_parts_def drop_map prefix_drop flip: map_append)

text \<open>One delta: the driver holds the full snapshot of \<open>e\<close>, the engine has moved on to \<open>e'\<close>.\<close>

lemma one_delta:
  assumes g: "grows e e'" and al: "aligned e" and v: "cache_valid pw e'"
    and full: "full_snapshot pw e = Inr f" and d: "run_result pw (since_of (Some f)) e' = Inr (delta, e1)"
  shows "\<exists>m. merge_snapshot (Some f) delta = Inr m \<and> full_snapshot pw e' = Inr m"
proof -
  obtain st where st: "cached_stats pw e' = Inr (st, e1)"
    using d by (auto simp: run_result_def bind_res_Inr_iff Let_def split: if_splits)
  have ts: "true_stats pw e' = Inr st" using cached_stats_true [OF v st] by simp
  have cf: "sn_counts f = counts_of e" "sn_parts f = all_parts e" "sn_days f = re_days e" "sn_equity f = re_equity e"
    "sn_flows f = re_flows e" "sn_fills f = map run_fill_row (fills_log (ob_sleeve (re_book e)))"
    using full by (auto simp: full_snapshot_def bind_res_Inr_iff)
  have len: "length (fills_log (ob_sleeve (re_book e))) \<le> length (fills_log (ob_sleeve (re_book e')))"
    "length (re_equity e) \<le> length (re_equity e')"
    using g by (auto simp: grows_def dest: prefix_length_le)
  have dd: "delta = \<lparr>sn_stats = stats_fields st e', sn_position = Some (position_rows e'),
      sn_days = drop (length (re_days e)) (re_days e'), sn_equity = drop (length (re_equity e)) (re_equity e'),
      sn_flows = drop (length (re_flows e)) (re_flows e'),
      sn_fills = map run_fill_row (drop (length (fills_log (ob_sleeve (re_book e)))) (fills_log (ob_sleeve (re_book e')))),
      sn_parts = drop_parts (part_counts (all_parts e)) (all_parts e'), sn_logs = None, sn_counts = counts_of e',
      sn_resolution = Some (res_name (re_resolutions e')), sn_live = re_live e'\<rparr>"
    using d st len al by (auto simp: run_result_def Let_def since_of_def since_or_start_def cf counts_fields aligned_def)
  have pre: "re_days e @ drop (length (re_days e)) (re_days e') = re_days e'"
    "re_equity e @ drop (length (re_equity e)) (re_equity e') = re_equity e'"
    "re_flows e @ drop (length (re_flows e)) (re_flows e') = re_flows e'"
    "fills_log (ob_sleeve (re_book e)) @ drop (length (fills_log (ob_sleeve (re_book e))))
       (fills_log (ob_sleeve (re_book e'))) = fills_log (ob_sleeve (re_book e'))"
    using g by (simp_all add: grows_def prefix_drop)
  have m: "merge_snapshot (Some f) delta = Inr
     \<lparr>sn_stats = stats_fields st e', sn_position = Some (position_rows e'), sn_days = re_days e',
      sn_equity = re_equity e', sn_flows = re_flows e',
      sn_fills = map run_fill_row (fills_log (ob_sleeve (re_book e'))), sn_parts = all_parts e',
      sn_logs = Some (flat_parts (all_parts e')), sn_counts = counts_of e',
      sn_resolution = Some (res_name (re_resolutions e')), sn_live = re_live e'\<rparr>"
    unfolding merge_snapshot_def dd
    by (simp add: cf pre add_drop_parts [OF g] Let_def counts_of_def del: map_append flip: map_append)
  then show ?thesis using ts by (simp add: full_snapshot_def)
qed

section \<open>Any number of deltas\<close>

text \<open>
  The engine runs between two calls (any growth), then answers one; the driver merges the answer.
  \<open>moves\<close> gives what the engine does between the calls.
\<close>

fun follow :: "pow_fun \<Rightarrow> ('a run_engine_scheme \<Rightarrow> 'a run_engine_scheme) list \<Rightarrow> snapshot option \<Rightarrow> 'a run_engine_scheme
    \<Rightarrow> (snapshot option \<times> 'a run_engine_scheme) attempt" where
  "follow pw [] full e = Inr (full, e)"
| "follow pw (f # fs) full e =
     (case run_result pw (since_of full) (f e) of
        Inl x \<Rightarrow> Inl (Fault ''engine'')
      | Inr (d, e1) \<Rightarrow> bind_attempt (merge_snapshot full d) (\<lambda>m. follow pw fs (Some m) e1))"

definition appends :: "('a run_engine_scheme \<Rightarrow> 'a run_engine_scheme) \<Rightarrow> bool" where
  "appends f \<longleftrightarrow> (\<forall>e. aligned e \<longrightarrow> grows e (f e) \<and> aligned (f e))"

lemma full_snapshot_cache [simp]:
  "full_snapshot pw (e\<lparr>re_cache := c\<rparr>) = full_snapshot pw e" "aligned (e\<lparr>re_cache := c\<rparr>) = aligned e"
  by (simp_all add: full_snapshot_def true_stats_def stats_fields_def position_rows_def all_parts_def counts_of_def
      aligned_def)

lemma result_engine:
  assumes "cache_valid pw e" "run_result pw since e = Inr (res, e1)"
  shows "cache_valid pw e1 \<and> e1 = e\<lparr>re_cache := re_cache e1\<rparr>"
proof -
  obtain st where "cached_stats pw e = Inr (st, e1)"
    using assms(2) by (auto simp: run_result_def bind_res_Inr_iff Let_def split: if_splits)
  from cached_stats_true [OF assms(1) this] show ?thesis by simp
qed

lemma follow_refines:
  assumes "\<forall>f\<in>set fs. appends f" "cache_valid pw e" "aligned e"
    "case full of None \<Rightarrow> fs \<noteq> [] | Some m \<Rightarrow> full_snapshot pw e = Inr m"
  shows "case follow pw fs full e of Inl x \<Rightarrow> x = Fault ''engine''
     | Inr (full', e') \<Rightarrow> \<exists>m. full' = Some m \<and> full_snapshot pw e' = Inr m"
  using assms
proof (induction fs arbitrary: full e)
  case (Cons f fs)
  show ?case
  proof (cases "run_result pw (since_of full) (f e)")
    case (Inr r)
    obtain d e1 where d: "run_result pw (since_of full) (f e) = Inr (d, e1)" using Inr by (cases r) simp
    have g: "grows e (f e)" "aligned (f e)" using Cons.prems by (auto simp: appends_def)
    have v: "cache_valid pw (f e)" using Cons.prems(2) g(1) by (rule cache_valid_grows)
    have e1: "cache_valid pw e1" "e1 = (f e)\<lparr>re_cache := re_cache e1\<rparr>" using result_engine [OF v d] by auto
    have "\<exists>m. merge_snapshot full d = Inr m \<and> full_snapshot pw (f e) = Inr m"
    proof (cases full)
      case None
      then have r: "run_result pw None (f e) = Inr (d, e1)" using d by (simp add: since_of_def)
      then have "full_snapshot pw (f e) = Inr d" by (rule result_without_since [OF v])
      moreover from this have "sn_logs d \<noteq> None" by (auto simp: full_snapshot_def bind_res_Inr_iff)
      ultimately show ?thesis using None by (simp add: merge_snapshot_def)
    next
      case (Some f0)
      then show ?thesis using one_delta [OF g(1) Cons.prems(3) v _ d [unfolded Some]] Cons.prems(4) by auto
    qed
    then obtain m where m: "merge_snapshot full d = Inr m" "full_snapshot pw (f e) = Inr m" by blast
    have "full_snapshot pw e1 = Inr m" "aligned e1" by (subst e1(2), simp add: g m)+
    then show ?thesis using Cons.IH [of e1 "Some m"] Cons.prems(1) e1(1) d m(1) by simp
  qed simp
qed (simp split: option.splits)

lemma grows_trans: "grows a b \<Longrightarrow> grows b c \<Longrightarrow> grows a c"
  unfolding grows_def by (auto intro: prefix_order.trans)

lemma appends_ops:
  "appends (algo_log msg)" "appends (mark_equity day)" "appends (\<lambda>e. e)" "appends f \<Longrightarrow> appends g \<Longrightarrow> appends (g \<circ> f)"
proof -
  show "appends (algo_log msg)" "appends (mark_equity day)" "appends (\<lambda>e. e)"
    by (auto simp: appends_def grows_def aligned_def algo_log_def mark_equity_def)
  show "appends (g \<circ> f)" if "appends f" "appends g"
    using that by (auto simp: appends_def intro: grows_trans)
qed

text \<open>C31: the driver's copy of a run refines the run: whatever the engine appends between the calls, every
  merge reconciles (only the engine itself can raise), and the copy is the full snapshot of the engine as
  it stands, with the statistics of the whole curve.\<close>

theorem merged_copy_is_the_engine:
  assumes "\<forall>g\<in>set (f # fs). appends g" "re_cache e = None" "aligned e"
  shows "case follow pw (f # fs) None e of Inl x \<Rightarrow> x = Fault ''engine''
     | Inr (full, e') \<Rightarrow> \<exists>m. full = Some m \<and> full_snapshot pw e' = Inr m"
  by (rule follow_refines) (use assms in \<open>auto simp: cache_valid_def\<close>)

definition demo_engine :: run_engine where
  "demo_engine = \<lparr>re_book = new_book (new_sleeve 1000 1 ''last_fill'') (738950, 34200000) NoLedger, re_algo_logs = [], re_days = [], re_equity = [],
     re_flows = [], re_pending_flow = 0, re_start = 1000, re_syms = [''AAPL''], re_resolutions = [MINUTE],
     re_live = None, re_cache = None\<rparr>"

definition demo_moves :: "(run_engine \<Rightarrow> run_engine) list" where
  "demo_moves = [algo_log ''started'', mark_equity 738950, algo_log ''second day'']"

lemma demo_follow:
  "case follow (\<lambda>x y. Inr 1) demo_moves None demo_engine of Inl x \<Rightarrow> False
   | Inr (full, e') \<Rightarrow> map_option sn_equity full = Some [1000]
       \<and> map_option sn_logs full = Some (Some [Algo ''started'', Algo ''second day''])"
  by (simp add: demo_moves_def demo_engine_def algo_log_def mark_equity_def run_result_def cached_stats_def Let_def
      stats_from_equity_def cache_key_def since_of_def since_or_start_def no_counts_def counts_of_def part_counts_def
      all_parts_def drop_parts_def flat_parts_def merge_snapshot_def add_parts_def new_book_def new_sleeve_def
      MAX_LOG_LINES_def equity_def position_value_def fadd_def)

theorem merged_copy_is_the_engine_witness:
  "\<exists>m e'. follow (\<lambda>x y. Inr 1) demo_moves None demo_engine = Inr (Some m, e') \<and> sn_equity m = [1000] \<and>
     full_snapshot (\<lambda>x y. Inr 1) e' = Inr m"
proof -
  have "case follow (\<lambda>x y. Inr 1) demo_moves None demo_engine of Inl x \<Rightarrow> x = Fault ''engine''
     | Inr (full, e') \<Rightarrow> \<exists>m. full = Some m \<and> full_snapshot (\<lambda>x y. Inr 1) e' = Inr m"
    unfolding demo_moves_def
    by (rule merged_copy_is_the_engine) (simp_all add: appends_ops demo_engine_def aligned_def)
  with demo_follow show ?thesis by (auto split: sum.splits)
qed

end
