(* ===== verification/Truth.thy ===== *)
theory Truth
  imports Executions Ledger "HOL-Library.List_Lexorder" "HOL-Library.Char_ord"
begin

text \<open>
  Broker truth for one deployment: \<open>build_ledger\<close>, \<open>_unknown_symbols\<close> and what they call in
  \<open>dqengine/live/deployment_store.py\<close>, the rows the ledger crosses the sandbox boundary as
  (\<open>_ledger_payload\<close> of \<open>driver/engine.py\<close>) and its reconstruction in \<open>runtime/sandbox_entry.py\<close>.  \<open>et\<close> turns
  an instant in microseconds into its New York day and the milliseconds since its midnight.
\<close>

section \<open>Rows\<close>

record alloc_row =
  al_dep :: "string option"
  al_sym :: sym
  al_qty :: pyfloat
  al_price :: pyfloat
  al_fees :: "pyfloat option"
  al_at :: int
  al_group :: "string option"

type_synonym et_clock = "int \<Rightarrow> day \<times> ms"

definition allocation_time_ms :: "et_clock \<Rightarrow> int \<Rightarrow> ms" where
  "allocation_time_ms et t = snd (et t) div 1000 * 1000"

definition allocation_fill :: "et_clock \<Rightarrow> alloc_row \<Rightarrow> ledger_fill" where
  "allocation_fill et a =
     mk_fill (fst (et (al_at a))) (allocation_time_ms et (al_at a)) (Some (al_sym a)) (rnd_even (al_qty a))
       (al_price a) (num_or0 (al_fees a)) None (al_group a)"

definition execution_fill :: "et_clock \<Rightarrow> erow \<Rightarrow> ledger_fill" where
  "execution_fill et r =
     mk_fill (fst (et (er_at r))) (snd (et (er_at r)) div 1000 * 1000) (Some (er_sym r)) (rnd_even (er_qty r))
       (er_price r) (er_fees r) (er_tag r) (er_boid r)"

section \<open>What cannot be vouched for\<close>

definition shared_symbols :: "(string, sym list) dict \<Rightarrow> (string, sym list) dict \<Rightarrow> (sym, string list) dict" where
  "shared_symbols extra universes =
     (let owned = foldl (\<lambda>d (k, v). dput d k v) extra universes;
          by_sym = foldl (\<lambda>d (dep, syms). foldl (\<lambda>d s. dput d s (dget_or d s [] @ [dep])) d syms) [] owned
      in filter (\<lambda>(s, deps). 2 \<le> length deps) by_sym)"

definition shared_with_others :: "(sym, string list) dict option \<Rightarrow> string \<Rightarrow> sym list" where
  "shared_with_others shared dep =
     (case shared of None \<Rightarrow> [] | Some d \<Rightarrow> map fst (filter (\<lambda>(s, owners). dep \<in> set owners) d))"

definition DEAD_STATUSES :: "string list" where
  "DEAD_STATUSES = [''filled'', ''canceled'', ''rejected'', ''expired'']"

text \<open>SQL compares NULL to nothing: a row without a status is in neither side of \<open>notin_\<close>.\<close>

definition still_open :: "brow \<Rightarrow> bool" where
  "still_open b = (case br_status b of None \<Rightarrow> False | Some st \<Rightarrow> st \<notin> set DEAD_STATUSES)"

definition may_concern :: "string \<Rightarrow> string \<Rightarrow> sym list \<Rightarrow> brow \<Rightarrow> bool" where
  "may_concern dep conn syms b \<longleftrightarrow>
     br_dep b = Some dep \<or> br_dep b = None \<and> br_conn b = conn \<and> upper (br_sym b) \<in> set syms"

definition pending_orders :: "string \<Rightarrow> string \<Rightarrow> sym list \<Rightarrow> int \<Rightarrow> brow list \<Rightarrow> brow list" where
  "pending_orders dep conn syms start bs =
     filter (\<lambda>b. may_concern dep conn syms b \<and> br_action b = ''submit'' \<and> start \<le> br_at b \<and> still_open b) bs"

definition named :: "string option \<Rightarrow> string list \<Rightarrow> bool" where
  "named x ids \<longleftrightarrow> truthy x \<and> the x \<in> set ids"

definition ids_of :: "(brow \<Rightarrow> string option) \<Rightarrow> brow list \<Rightarrow> string list" where
  "ids_of f bs = map (\<lambda>b. the (f b)) (filter (\<lambda>b. truthy (f b)) bs)"

text \<open>The order ids and the client ids with a cancel or an execution.\<close>

definition resolving_rows ::
  "string \<Rightarrow> brow list \<Rightarrow> brow list \<Rightarrow> erow list \<Rightarrow> (string option \<times> string option) list" where
  "resolving_rows conn orders bs es =
     (let oids = ids_of br_boid orders; cids = ids_of br_cid orders
      in map (\<lambda>b. (br_boid b, br_cid b)) (filter (\<lambda>b. br_conn b = conn \<and> br_action b = ''cancel''
           \<and> (named (br_boid b) oids \<or> named (br_cid b) cids)) bs)
         @ map (\<lambda>r. (er_boid r, er_cid r)) (filter (\<lambda>r. er_conn r = conn
           \<and> (named (er_boid r) oids \<or> named (er_cid r) cids)) es))"

definition resolved_by :: "(string option \<times> string option) list \<Rightarrow> brow \<Rightarrow> bool" where
  "resolved_by rows b \<longleftrightarrow>
     (truthy (br_boid b) \<and> br_boid b \<in> set (map fst rows)) \<or>
     (truthy (br_cid b) \<and> br_cid b \<in> set (map snd rows))"

definition unresolved_symbols ::
  "string \<Rightarrow> string \<Rightarrow> sym list \<Rightarrow> bool \<Rightarrow> int \<Rightarrow> brow list \<Rightarrow> erow list \<Rightarrow> sym list" where
  "unresolved_symbols dep conn syms poll_error start bs es =
     (if poll_error then map upper syms
      else let orders = pending_orders dep conn (map upper syms) start bs;
               rows = resolving_rows conn orders bs es
           in map (\<lambda>b. upper (br_sym b)) (filter (\<lambda>b. \<not> resolved_by rows b) orders))"

section \<open>The ledger of a deployment\<close>

record truth_inputs =
  ti_dep :: string
  ti_conn :: "string option"
  ti_mode :: "string option"
  ti_syms :: "sym list"
  ti_poll_error :: bool
  ti_reconciled :: "day option"
  ti_shared :: "(sym, string list) dict option"
  ti_orders :: "brow list"
  ti_execs :: "erow list"
  ti_allocs :: "alloc_row list"
  ti_today :: day
  ti_start :: int

definition unknown_symbols :: "truth_inputs \<Rightarrow> string \<Rightarrow> sym list" where
  "unknown_symbols i conn =
     shared_with_others (ti_shared i) (ti_dep i)
     @ unresolved_symbols (ti_dep i) conn (ti_syms i) (ti_poll_error i) (ti_start i) (ti_orders i) (ti_execs i)"

definition ledger_rows :: "et_clock \<Rightarrow> truth_inputs \<Rightarrow> ledger_fill list" where
  "ledger_rows et i =
     map (execution_fill et) (sort_key er_at (filter (\<lambda>r. er_dep r = Some (ti_dep i)) (ti_execs i)))
     @ map (allocation_fill et) (sort_key al_at (filter (\<lambda>a. al_dep a = Some (ti_dep i)) (ti_allocs i)))"

text \<open>\<open>ti_mode\<close> is the connection's \<open>execution_truth\<close>, \<open>None\<close> when the row is gone or the column empty.\<close>

definition build_ledger :: "et_clock \<Rightarrow> truth_inputs \<Rightarrow> ledger_view" where
  "build_ledger et i =
     (if \<not> truthy (ti_conn i) \<or> ti_mode i \<noteq> Some ''enforce'' then NoLedger
      else Ledger (mk_ledger (ledger_rows et i) (set (unknown_symbols i (the (ti_conn i))))
             (ti_reconciled i) (Some (ti_today i))))"

text \<open>\<open>_tick_python\<close> caps it: until a day is decidable its missing rows are unknown.\<close>

definition POST_CLOSE_DECIDABLE_S :: int where "POST_CLOSE_DECIDABLE_S = 600"

definition capped_live_from :: "day \<Rightarrow> ms \<Rightarrow> ms \<Rightarrow> bool \<Rightarrow> day" where
  "capped_live_from today now_ms close_ms is_weekday =
     (if is_weekday \<and> close_ms + POST_CLOSE_DECIDABLE_S * 1000 \<le> now_ms div 1000 * 1000 then today + 1
      else today)"

definition cap_view :: "day \<Rightarrow> ledger_view \<Rightarrow> ledger_view" where
  "cap_view from_day v = (case v of Ledger l \<Rightarrow> LiveCapped l from_day | _ \<Rightarrow> v)"

section \<open>Across the sandbox boundary\<close>

record wire_fill =
  wf_day :: day
  wf_ms :: ms
  wf_sym :: sym
  wf_qty :: int
  wf_px :: pyfloat
  wf_fees :: pyfloat
  wf_tag :: "string option"
  wf_boid :: "string option"

record wire_ledger =
  wl_fills :: "wire_fill list"
  wl_unknown :: "sym list"
  wl_reconciled :: "day option"
  wl_unknown_from :: "day option"
  wl_live_from :: "day option"

definition wire_of_fill :: "ledger_fill \<Rightarrow> wire_fill" where
  "wire_of_fill f =
     \<lparr>wf_day = lf_day f, wf_ms = lf_time f, wf_sym = lf_sym f, wf_qty = lf_qty f, wf_px = lf_price f,
      wf_fees = lf_fees f, wf_tag = lf_tag f, wf_boid = lf_boid f\<rparr>"

definition wire_rows :: "ledger \<Rightarrow> day option \<Rightarrow> wire_ledger" where
  "wire_rows l from_day =
     \<lparr>wl_fills = map wire_of_fill (fills l), wl_unknown = sorted_list_of_set (unknown l),
      wl_reconciled = reconciled_from l, wl_unknown_from = unknown_from l, wl_live_from = from_day\<rparr>"

definition ledger_payload :: "ledger_view \<Rightarrow> wire_ledger option" where
  "ledger_payload v =
     (case v of NoLedger \<Rightarrow> None | Ledger l \<Rightarrow> Some (wire_rows l None)
      | LiveCapped l d \<Rightarrow> Some (wire_rows l (Some d)))"

definition fill_of_wire :: "wire_fill \<Rightarrow> ledger_fill" where
  "fill_of_wire w = mk_fill (wf_day w) (wf_ms w) (Some (wf_sym w)) (wf_qty w) (wf_px w) (wf_fees w) (wf_tag w) (wf_boid w)"

definition rebuild_ledger :: "wire_ledger option \<Rightarrow> ledger_view" where
  "rebuild_ledger w =
     (case w of
        None \<Rightarrow> NoLedger
      | Some r \<Rightarrow>
          let l = mk_ledger (map fill_of_wire (wl_fills r)) (set (wl_unknown r)) (wl_reconciled r) (wl_unknown_from r)
          in case wl_live_from r of None \<Rightarrow> Ledger l | Some d \<Rightarrow> LiveCapped l d)"

end
