(* ===== verification/TruthProps.thy ===== *)
theory TruthProps
  imports Truth
begin

text \<open>
  The ledger reaches the strategy's process unchanged, and an order that is still in flight is never
  read as an order the broker did not fill.
\<close>

section \<open>The boundary\<close>

lemma mk_fill_idem [simp]:
  "fill_of_wire (wire_of_fill (mk_fill d t s q p f tag boid)) = mk_fill d t s q p f tag boid"
  by (cases s) (simp_all add: fill_of_wire_def wire_of_fill_def mk_fill_def norm_sym_def)

definition normal_fill :: "ledger_fill \<Rightarrow> bool" where
  "normal_fill f \<longleftrightarrow> fill_of_wire (wire_of_fill f) = f"

lemma ledger_rows_normal: "\<forall>f\<in>set (ledger_rows et i). normal_fill f"
  by (auto simp: ledger_rows_def normal_fill_def execution_fill_def allocation_fill_def)

lemma rebuild_rows:
  assumes "\<forall>f\<in>set fs. normal_fill f" "finite u"
  shows "mk_ledger (map fill_of_wire (map wire_of_fill (fills (mk_ledger fs u rf uf))))
      (set (sorted_list_of_set (unknown (mk_ledger fs u rf uf)))) rf uf = mk_ledger fs u rf uf"
proof -
  let ?k = "\<lambda>f. (lf_day f, lf_time f)"
  have "map fill_of_wire (map wire_of_fill (sort_key ?k fs)) = sort_key ?k fs"
    using assms(1) by (auto simp: normal_fill_def intro!: map_idI)
  moreover have "sort_key ?k (sort_key ?k fs) = sort_key ?k fs"
    by (rule sort_key_id_if_sorted) (rule sorted_sort_key)
  moreover have "norm_sym (Some (norm_sym (Some s))) = norm_sym (Some s)" for s
    by (simp add: norm_sym_def)
  ultimately show ?thesis using assms(2) by (simp add: mk_ledger_def image_image)
qed

text \<open>C32: the ledger a run reads is the one the driver built, rows, order, unknown symbols and cap
  included, although it crosses the sandbox boundary as plain rows.\<close>

theorem ledger_crosses_the_boundary:
  "rebuild_ledger (ledger_payload (build_ledger et i)) = build_ledger et i \<and>
   rebuild_ledger (ledger_payload (cap_view d (build_ledger et i))) = cap_view d (build_ledger et i)"
  using rebuild_rows [OF ledger_rows_normal [of et i]]
  by (auto simp: build_ledger_def ledger_payload_def rebuild_ledger_def cap_view_def wire_rows_def Let_def mk_ledger_def)

section \<open>Orders in flight\<close>

definition same_id :: "string option \<Rightarrow> string option \<Rightarrow> bool" where
  "same_id x y \<longleftrightarrow> truthy x \<and> x = y"

text \<open>Submitted today with an acknowledged status that is not final, and no cancel and no execution of
  the connection names its order id or its client id.\<close>

definition in_flight :: "truth_inputs \<Rightarrow> string \<Rightarrow> brow \<Rightarrow> bool" where
  "in_flight i conn b \<longleftrightarrow>
     b \<in> set (ti_orders i) \<and> may_concern (ti_dep i) conn (map upper (ti_syms i)) b \<and> br_action b = ''submit'' \<and>
     ti_start i \<le> br_at b \<and> still_open b \<and>
     (\<forall>b'\<in>set (ti_orders i). br_conn b' = conn \<and> br_action b' = ''cancel'' \<longrightarrow>
        \<not> same_id (br_boid b) (br_boid b') \<and> \<not> same_id (br_cid b) (br_cid b')) \<and>
     (\<forall>r\<in>set (ti_execs i). er_conn r = conn \<longrightarrow>
        \<not> same_id (br_boid b) (er_boid r) \<and> \<not> same_id (br_cid b) (er_cid r))"

lemma in_flight_unresolved:
  assumes "in_flight i conn b" "\<not> ti_poll_error i"
  shows "upper (br_sym b) \<in> set (unknown_symbols i conn)"
proof -
  let ?orders = "pending_orders (ti_dep i) conn (map upper (ti_syms i)) (ti_start i) (ti_orders i)"
  have "b \<in> set ?orders" using assms(1) by (simp add: in_flight_def pending_orders_def)
  moreover have "\<not> resolved_by (resolving_rows conn ?orders (ti_orders i) (ti_execs i)) b"
    using assms(1) by (auto simp: resolved_by_def resolving_rows_def Let_def in_flight_def same_id_def)
  ultimately show ?thesis
    using assms(2) by (auto simp: unknown_symbols_def unresolved_symbols_def Let_def)
qed

lemma unknown_never_empty:
  assumes "norm_sym (Some s) \<in> unknown l" "unknown_from l = Some u" "u \<le> d"
  shows "fst (take_fills l d s rule side) \<noteq> Some []"
  using assms by (simp add: take_three_valued absence_unknown_def)


definition demo_order :: brow where
  "demo_order = \<lparr>br_conn = ''c'', br_dep = None, br_boid = Some ''o1'', br_cid = Some ''x1'', br_sym = ''AAPL'', br_qty = 5,
     br_side = ''buy'', br_type = ''market'', br_limit = None, br_status = Some ''accepted'', br_action = ''submit'',
     br_at = 100, br_tag = None\<rparr>"

definition demo_truth :: truth_inputs where
  "demo_truth = \<lparr>ti_dep = ''d'', ti_conn = Some ''c'', ti_mode = Some ''enforce'', ti_syms = [''aapl''],
     ti_poll_error = False, ti_reconciled = Some 7, ti_shared = None, ti_orders = [demo_order], ti_execs = [],
     ti_allocs = [], ti_today = 10, ti_start = 50\<rparr>"

lemma demo_in_flight: "in_flight demo_truth ''c'' demo_order"
  by code_simp


text \<open>
  An acknowledgement without a status is stored as NULL, and SQL compares NULL to nothing: such an order
  is not seen as in flight, and the ledger answers that the broker did not fill it.
\<close>

lemma in_flight_without_status_reads_as_no_fill:
  "let i = demo_truth\<lparr>ti_orders := [demo_order\<lparr>br_status := None\<rparr>]\<rparr>
   in fst (view_take (build_ledger (\<lambda>t. (10, 0)) i) 10 ''AAPL'' None None) = Some []"
  by (simp add: demo_truth_def demo_order_def build_ledger_def truthy_def unknown_symbols_def shared_with_others_def
      unresolved_symbols_def pending_orders_def still_open_def view_take_def mk_ledger_def ledger_rows_def
      take_fills_def unreconciled_def take_avail_def untaken_def absence_unknown_def Let_def)

end
