(* ===== verification/Warm.thy ===== *)
theory Warm
  imports Snapshot Truth
begin

text \<open>
  One tick of a deployment: \<open>warm_tick_python\<close>, its audit and the registry entry of
  \<open>dqengine/live/driver/engine.py\<close>, \<open>_tick_python\<close> and \<open>tick_deployment\<close> of \<open>driver/tick.py\<close>, and the two
  commits of \<open>deployment_store.py\<close>.  The engine in its container is the other side of the calls in the
  trace; its answers, the store's and the clock are the arguments of a tick.  One tick of a deployment
  runs at a time (\<open>_tick_lock_for\<close>), so the registry is the entry of that deployment.
\<close>

section \<open>Calls and answers\<close>

type_synonym bar_row = "ms \<times> pyfloat \<times> pyfloat \<times> pyfloat \<times> pyfloat \<times> pyfloat"

record pushed_bars =
  pb_first :: ms
  pb_total :: nat
  pb_rows :: "bar_row list"

record tick_args =
  ta_now :: ms
  ta_today :: day
  ta_roll :: bool
  ta_bars :: "(sym, pushed_bars) dict"
  ta_since :: "log_counts option"
  ta_prices :: "(sym, price_row) dict"

record tick_reply =
  tr_rolled :: bool
  tr_open :: bool
  tr_pushed :: "(sym, ms) dict"
  tr_next_fire :: "ms option"
  tr_primed :: "string option"
  tr_snapshot :: snapshot

record engine_cfg =
  ec_serve :: bool
  ec_start :: day
  ec_end :: day
  ec_cash :: pyfloat
  ec_events :: "cash_row list"
  ec_resolution :: string
  ec_bar_ms :: ms
  ec_ledger :: "wire_ledger option"
  ec_generated :: bool
  ec_live_now :: "ms option"

datatype rpc =
    Export day bool | Start engine_cfg | WarmTo day | Tick tick_args | Ask | Probe | Stop | Replay engine_cfg

section \<open>The registry entry\<close>

record warm_entry =
  we_deposits :: nat
  we_day_open :: bool
  we_completed :: "day option"
  we_rows :: "(sym, bar_row list) dict"
  we_pushed :: "(sym, ms) dict"
  we_full :: "snapshot option"
  we_transport :: string
  we_next_fire :: "ms option"
  we_snapshot :: "snapshot option"
  we_audit :: "audit option"

record driver =
  dv_entry :: "warm_entry option"
  dv_fire :: "ms option option"
  dv_pending :: "day option"
  dv_defers :: bool
  dv_trace :: "rpc list"

record tick_world =
  wd_clock :: clock
  wd_epoch_ms :: ms
  wd_close_ms :: ms
  wd_weekday :: bool
  wd_marker :: "string option"
  wd_alive :: bool
  wd_rows :: "(sym, bar_row list) dict"
  wd_live_rows :: "(sym, bar_row list) dict"
  wd_quotes :: "(sym, quote) dict option"
  wd_start :: "string attempt"
  wd_warm :: "unit attempt"
  wd_tick :: "tick_args \<Rightarrow> tick_reply attempt"
  wd_ask :: "snapshot attempt"
  wd_replay :: "engine_cfg \<Rightarrow> run_reply"
  wd_truth :: "ledger_view attempt"
  wd_code :: "string attempt"
  wd_stamp :: int

definition call :: "rpc \<Rightarrow> driver \<Rightarrow> driver" where
  "call c d = d\<lparr>dv_trace := dv_trace d @ [c]\<rparr>"

definition drop_engine :: "driver \<Rightarrow> driver" where
  "drop_engine d = call Stop (d\<lparr>dv_entry := None\<rparr>)"

definition next_fire_ms :: "driver \<Rightarrow> ms option" where
  "next_fire_ms d =
     (case dv_entry d of
        Some e \<Rightarrow> we_next_fire e
      | None \<Rightarrow> (case dv_fire d of None \<Rightarrow> None | Some f \<Rightarrow> f))"

section \<open>Configurations\<close>

text \<open>A row of \<open>deployments\<close>; \<open>dr_ir_symbols\<close> is \<open>collect_ir_symbols\<close> of its strategy document, if that expands.\<close>

record 'h row = "'h deployment" +
  dr_start :: day
  dr_blocks :: bool
  dr_ir_symbols :: "sym list option"
  dr_status :: string
  dr_stats :: stats
  dr_equity :: "day list \<times> pyfloat list"
  dr_journal :: "journal_line list"
  dr_error :: "string option"
  dr_last_tick :: "int option"
  dr_clean_tick :: "int option"

definition live_now_ms :: "day \<Rightarrow> clock \<Rightarrow> ms" where
  "live_now_ms end_day ck = (if end_day \<noteq> ck_day ck then 86400000 else ck_ms ck)"

definition run_cfg ::
  "'h row \<Rightarrow> clock \<Rightarrow> cash_event list \<Rightarrow> ledger_view \<Rightarrow> bool \<Rightarrow> day \<Rightarrow> engine_cfg" where
  "run_cfg dep ck es v srv end_day =
     \<lparr>ec_serve = srv, ec_start = dr_start dep, ec_end = end_day, ec_cash = dp_cash dep, ec_events = cash_events es,
      ec_resolution = dp_resolution dep, ec_bar_ms = (if dp_resolution dep = ''second'' then 1000 else 60000),
      ec_ledger = ledger_payload v, ec_generated = srv \<and> dr_blocks dep,
      ec_live_now = (if \<not> srv \<and> dp_resolution dep = ''daily'' then Some (live_now_ms end_day ck) else None)\<rparr>"

section \<open>Bars to push\<close>

definition REG_MASK :: "bar_row \<Rightarrow> bool" where
  "REG_MASK r \<longleftrightarrow> REG_OPEN_MS \<le> fst r \<and> fst r < REG_CLOSE_MS"

definition push_of :: "(sym, ms) dict \<Rightarrow> sym \<times> bar_row list \<Rightarrow> (sym \<times> pushed_bars) list" where
  "push_of pushed e =
     (case e of (s, rows0) \<Rightarrow>
       let rows = filter REG_MASK rows0
       in if length rows < 2 then []
          else [(s, \<lparr>pb_first = fst (hd rows), pb_total = length rows,
                     pb_rows = filter (\<lambda>r. dget_or pushed s (- 1) < fst r) rows\<rparr>)])"

definition bars_to_push :: "warm_entry \<Rightarrow> (sym, pushed_bars) dict" where
  "bars_to_push e = concat (map (push_of (we_pushed e)) (we_rows e))"

section \<open>The replay\<close>

definition replay_tick ::
  "((day \<times> pyfloat) list \<Rightarrow> 'h) \<Rightarrow> 'h row \<Rightarrow> cash_event list \<Rightarrow> tick_world \<Rightarrow> ledger_view \<Rightarrow> driver
   \<Rightarrow> 'h tick_payload attempt \<times> driver" where
  "replay_tick digest dep es w v d =
     (let ck = wd_clock w; end_day = the_day dep ck;
          cfg = run_cfg dep ck es v False end_day;
          d1 = call (Replay cfg) (call (Export end_day False) d)
      in case wd_replay w cfg of
           Failed kind msg \<Rightarrow> (replay_python_deployment digest dep ck es (Failed kind msg), d1)
         | Ran res \<Rightarrow>
             (payload_from_result digest dep ck es res,
              d1\<lparr>dv_fire := daily_fire dep res (dv_fire d1)\<rparr>))"

section \<open>The audit\<close>

definition same_dict :: "('k, 'v) dict \<Rightarrow> ('k, 'v) dict \<Rightarrow> bool" where
  "same_dict a b \<longleftrightarrow> set a = set b"

definition cent_apart :: "pyfloat \<Rightarrow> pyfloat \<Rightarrow> bool" where
  "cent_apart x y \<longleftrightarrow> fl (1 / 100) < \<bar>fsub x y\<bar>"

definition audit_diff :: "'h tick_payload \<Rightarrow> 'h tick_payload \<Rightarrow> string option" where
  "audit_diff warm replay =
     (let a = pl_position warm; b = pl_position replay;
          va = last_n 5 (pl_values warm); vb = last_n 5 (pl_values replay)
      in if \<not> same_dict (held_of (po_holdings a)) (held_of (po_holdings b)) then Some ''holdings''
         else if cent_apart (po_cash a) (po_cash b) then Some ''cash''
         else if last_n 5 (pl_days warm) \<noteq> last_n 5 (pl_days replay) then Some ''equity days''
         else if length va \<noteq> length vb \<or> list_ex (\<lambda>(x, y). cent_apart x y) (zip va vb) then Some ''equity tail''
         else None)"

definition with_audit :: "audit option \<Rightarrow> 'h tick_payload \<Rightarrow> 'h tick_payload" where
  "with_audit a p = p\<lparr>pl_position := (pl_position p)\<lparr>po_audit := a\<rparr>\<rparr>"

definition with_engine :: "string \<Rightarrow> primed_info option \<Rightarrow> 'h tick_payload \<Rightarrow> 'h tick_payload" where
  "with_engine name primed p = p\<lparr>pl_position := (pl_position p)\<lparr>po_engine := Some name, po_primed := primed\<rparr>\<rparr>"

definition set_audit :: "audit \<Rightarrow> driver \<Rightarrow> driver" where
  "set_audit a d = d\<lparr>dv_entry := map_option (\<lambda>e. e\<lparr>we_audit := Some a\<rparr>) (dv_entry d)\<rparr>"

definition audit_and_retire ::
  "((day \<times> pyfloat) list \<Rightarrow> 'h) \<Rightarrow> 'h row \<Rightarrow> cash_event list \<Rightarrow> tick_world \<Rightarrow> 'h tick_payload \<Rightarrow> driver
   \<Rightarrow> 'h tick_payload attempt \<times> driver" where
  "audit_and_retire digest dep es w p d =
     (case (case wd_truth w of Inl x \<Rightarrow> (Inl x, d) | Inr v \<Rightarrow> replay_tick digest dep es w v d) of
        (Inl (Unavailable m), d1) \<Rightarrow> (Inl (Unavailable m), d1)
      | (Inl (Fault m), d1) \<Rightarrow>
          let a = AuditFailed m in (Inr (with_audit (Some a) p), call Stop (set_audit a d1))
      | (Inr r, d1) \<Rightarrow>
          (case audit_diff p r of
             Some m \<Rightarrow> (Inr (with_audit (Some (AuditDiff m)) r), drop_engine d1)
           | None \<Rightarrow> (Inr (with_audit (Some AuditOk) p), call Stop (set_audit AuditOk d1))))"

section \<open>One warm tick\<close>

text \<open>A tick of a completed day serves the last payload and never advances the engine.\<close>

definition settled_tick ::
  "((day \<times> pyfloat) list \<Rightarrow> 'h) \<Rightarrow> 'h row \<Rightarrow> cash_event list \<Rightarrow> tick_world \<Rightarrow> warm_entry \<Rightarrow> driver
   \<Rightarrow> 'h tick_payload attempt \<times> driver" where
  "settled_tick digest dep es w e d =
     (let (r, d1) = (case we_snapshot e of
            Some res \<Rightarrow> (Inr res, d)
          | None \<Rightarrow>
              (case wd_ask w of
                 Inl x \<Rightarrow> (Inl x, call Ask d)
               | Inr res \<Rightarrow> (Inr res, (call Ask d)\<lparr>dv_entry := Some (e\<lparr>we_snapshot := Some res\<rparr>)\<rparr>)))
      in case bind_attempt r (payload_from_result digest dep (wd_clock w) es) of
           Inl x \<Rightarrow> (Inl x, d1)
         | Inr p0 \<Rightarrow>
             let p = p0\<lparr>pl_position := (pl_position p0)\<lparr>po_engine := Some ''warm''\<rparr>\<rparr>
             in case we_audit e of
                  None \<Rightarrow> audit_and_retire digest dep es w p d1
                | Some a \<Rightarrow> (Inr (with_audit (Some a) p), d1))"

definition live_transport :: "string \<Rightarrow> bool" where
  "live_transport t \<longleftrightarrow> t = ''socket'' \<or> t = ''inproc''"

definition probe :: "tick_world \<Rightarrow> warm_entry \<Rightarrow> driver \<Rightarrow> warm_entry option \<times> driver" where
  "probe w e d =
     (if live_transport (we_transport e) then (Some e, d)
      else if wd_alive w then (Some e, call Probe d) else (None, call Probe (d\<lparr>dv_entry := None\<rparr>)))"

definition fresh_entry :: "cash_event list \<Rightarrow> tick_world \<Rightarrow> string \<Rightarrow> warm_entry" where
  "fresh_entry es w transport =
     \<lparr>we_deposits = deposit_count es, we_day_open = False, we_completed = None, we_rows = wd_rows w, we_pushed = [],
      we_full = None, we_transport = transport, we_next_fire = None, we_snapshot = None, we_audit = None\<rparr>"

definition build_engine ::
  "'h row \<Rightarrow> cash_event list \<Rightarrow> tick_world \<Rightarrow> ledger_view \<Rightarrow> driver \<Rightarrow> warm_entry attempt \<times> driver" where
  "build_engine dep es w v d =
     (let today = ck_day (wd_clock w);
          d1 = call (Start (run_cfg dep (wd_clock w) es v True today)) (call (Export today False) d)
      in case wd_start w of
           Inl x \<Rightarrow> (Inl x, d1)
         | Inr transport \<Rightarrow>
             let d2 = call (WarmTo (today - 1)) d1
             in case wd_warm w of
                  Inl x \<Rightarrow> (Inl x, d2)
                | Inr _ \<Rightarrow> (Inr (fresh_entry es w transport), d2\<lparr>dv_entry := Some (fresh_entry es w transport)\<rparr>))"

definition refresh_rows :: "tick_world \<Rightarrow> warm_entry \<Rightarrow> driver \<Rightarrow> warm_entry attempt \<times> driver" where
  "refresh_rows w e d =
     (let e' = (if wd_live_rows w \<noteq> [] then e\<lparr>we_rows := wd_live_rows w\<rparr> else e)
      in (Inr e', d\<lparr>dv_entry := Some e'\<rparr>))"

definition want_roll :: "tick_world \<Rightarrow> bool" where
  "want_roll w \<longleftrightarrow> wd_close_ms w + 60000 \<le> ck_ms (wd_clock w)"

definition tick_symbols :: "'h row \<Rightarrow> sym list" where
  "tick_symbols dep =
     (case dr_ir_symbols dep of
        Some syms \<Rightarrow> if dr_blocks dep then sort (remdups (map upper syms)) else map upper (dp_universe dep)
      | None \<Rightarrow> map upper (dp_universe dep))"

definition tick_prices :: "'h row \<Rightarrow> tick_world \<Rightarrow> (sym, price_row) dict" where
  "tick_prices dep w = quote_prices (tick_symbols dep) (wd_quotes w) (wd_epoch_ms w)"

definition tick_args_of :: "'h row \<Rightarrow> tick_world \<Rightarrow> warm_entry \<Rightarrow> tick_args" where
  "tick_args_of dep w e =
     \<lparr>ta_now = max 0 (ck_ms (wd_clock w)), ta_today = ck_day (wd_clock w), ta_roll = want_roll w,
      ta_bars = bars_to_push e, ta_since = since_of (we_full e),
      ta_prices = tick_prices dep w\<rparr>"

definition has_fills_of :: "day \<Rightarrow> run_fill list \<Rightarrow> bool" where
  "has_fills_of today fs \<longleftrightarrow> list_ex (\<lambda>f. rf_day f = today) fs"

definition rolled :: "tick_world \<Rightarrow> tick_reply \<Rightarrow> bool" where
  "rolled w t \<longleftrightarrow> tr_rolled t \<or> want_roll w \<and> \<not> tr_open t"

text \<open>
  The engine has not opened today's session although the stored payload already has fills of today: its
  snapshot is yesterday's and is refused.
\<close>

definition behind :: "'h row \<Rightarrow> tick_world \<Rightarrow> tick_reply \<Rightarrow> bool" where
  "behind dep w t \<longleftrightarrow> \<not> tr_open t \<and> \<not> rolled w t \<and> has_fills_of (ck_day (wd_clock w)) (dp_fills dep)"

definition noted_entry :: "tick_world \<Rightarrow> tick_reply \<Rightarrow> warm_entry \<Rightarrow> warm_entry" where
  "noted_entry w t e =
     e\<lparr>we_day_open := tr_open t, we_pushed := tr_pushed t, we_next_fire := tr_next_fire t,
       we_completed := (if rolled w t then Some (ck_day (wd_clock w)) else we_completed e)\<rparr>"

definition export_after :: "tick_world \<Rightarrow> bool \<Rightarrow> driver \<Rightarrow> driver" where
  "export_after w fresh d =
     (let today = ck_day (wd_clock w)
      in if fresh then d
         else if dv_defers d then d\<lparr>dv_pending := Some today\<rparr>
         else call (Export today True) d)"

definition take_reply ::
  "((day \<times> pyfloat) list \<Rightarrow> 'h) \<Rightarrow> 'h row \<Rightarrow> cash_event list \<Rightarrow> tick_world \<Rightarrow> bool \<Rightarrow> warm_entry \<Rightarrow> tick_reply
   \<Rightarrow> driver \<Rightarrow> 'h tick_payload attempt \<times> driver" where
  "take_reply digest dep es w fresh e t d =
     (if behind dep w t then (Inl (Fault ''not opened today''), drop_engine d)
      else let e1 = noted_entry w t e; d1 = d\<lparr>dv_entry := Some e1\<rparr>
           in case merge_snapshot (we_full e1) (tr_snapshot t) of
                Inl x \<Rightarrow> (Inl x, d1)
              | Inr res \<Rightarrow>
                  let e2 = e1\<lparr>we_full := Some res\<rparr>; d2 = d1\<lparr>dv_entry := Some e2\<rparr>
                  in case payload_from_result digest dep (wd_clock w) es res of
                       Inl x \<Rightarrow> (Inl x, d2)
                     | Inr p0 \<Rightarrow>
                         let p = with_engine (''warm:'' @ we_transport e2)
                                  (primed_block (tr_primed t) (tick_prices dep w) (wd_epoch_ms w)) p0;
                             d3 = export_after w fresh d2
                         in if rolled w t
                            then audit_and_retire digest dep es w p
                                   (d3\<lparr>dv_entry := Some (e2\<lparr>we_snapshot := Some res\<rparr>)\<rparr>)
                            else (Inr p, d3))"

definition advance_engine ::
  "((day \<times> pyfloat) list \<Rightarrow> 'h) \<Rightarrow> 'h row \<Rightarrow> cash_event list \<Rightarrow> tick_world \<Rightarrow> bool \<Rightarrow> warm_entry \<Rightarrow> driver
   \<Rightarrow> 'h tick_payload attempt \<times> driver" where
  "advance_engine digest dep es w fresh e d =
     (let args = tick_args_of dep w e; d1 = call (Tick args) d; today = ck_day (wd_clock w)
      in case wd_tick w args of
           Inl x \<Rightarrow> (Inl x, if fresh then d1 else (call (Export today True) d1)\<lparr>dv_pending := None\<rparr>)
         | Inr t \<Rightarrow> take_reply digest dep es w fresh e t d1)"

definition step_engine ::
  "((day \<times> pyfloat) list \<Rightarrow> 'h) \<Rightarrow> 'h row \<Rightarrow> cash_event list \<Rightarrow> tick_world \<Rightarrow> ledger_view \<Rightarrow> warm_entry option
   \<Rightarrow> driver \<Rightarrow> 'h tick_payload attempt \<times> driver" where
  "step_engine digest dep es w v entry d =
     (case (case entry of None \<Rightarrow> build_engine dep es w v d | Some e \<Rightarrow> refresh_rows w e d) of
        (Inl x, d1) \<Rightarrow> (Inl x, d1)
      | (Inr e, d1) \<Rightarrow> advance_engine digest dep es w (entry = None) e d1)"

definition yesterdays :: "tick_world \<Rightarrow> driver \<Rightarrow> driver" where
  "yesterdays w d =
     (case dv_entry d of
        Some e \<Rightarrow>
          (case we_completed e of
             Some c \<Rightarrow> if c < ck_day (wd_clock w) then d\<lparr>dv_entry := None\<rparr> else d
           | None \<Rightarrow> d)
      | None \<Rightarrow> d)"

definition warm_tick_python ::
  "((day \<times> pyfloat) list \<Rightarrow> 'h) \<Rightarrow> 'h row \<Rightarrow> cash_event list \<Rightarrow> tick_world \<Rightarrow> ledger_view \<Rightarrow> driver
   \<Rightarrow> 'h tick_payload attempt \<times> driver" where
  "warm_tick_python digest dep es w v d0 =
     (if wd_marker w \<noteq> None then (Inl (Fault ''stale marker''), drop_engine d0)
      else let d = yesterdays w d0
           in case dv_entry d of
                None \<Rightarrow> step_engine digest dep es w v None d
              | Some e \<Rightarrow>
                  if we_deposits e \<noteq> deposit_count es then (Inl (Fault ''cash event since warm-up''), drop_engine d)
                  else if we_completed e = Some (ck_day (wd_clock w)) then settled_tick digest dep es w e d
                  else let (entry, d1) = probe w e d in step_engine digest dep es w v entry d1)"

section \<open>One tick of the deployment\<close>

text \<open>\<open>{**old, **new}\<close>: what the replay never writes survives from the stored position.\<close>

definition merge_position :: "'h position option \<Rightarrow> 'h position \<Rightarrow> 'h position" where
  "merge_position old new =
     (case old of
        None \<Rightarrow> new
      | Some p \<Rightarrow> new\<lparr>po_engine := (case po_engine new of None \<Rightarrow> po_engine p | x \<Rightarrow> x),
          po_audit := (case po_audit new of None \<Rightarrow> po_audit p | x \<Rightarrow> x),
          po_execution := (case po_execution new of None \<Rightarrow> po_execution p | x \<Rightarrow> x)\<rparr>)"

definition commit_payload :: "int \<Rightarrow> 'h tick_payload \<Rightarrow> 'h row \<Rightarrow> 'h row" where
  "commit_payload now p dep =
     dep\<lparr>dr_stats := pl_stats p, dr_equity := (pl_days p, pl_values p), dp_position := Some (pl_position p),
       dp_fills := pl_fills p, dr_journal := pl_journal p, dr_error := None, dr_last_tick := Some now,
       dr_clean_tick := Some now\<rparr>"

definition commit_error :: "int \<Rightarrow> string \<Rightarrow> 'h row \<Rightarrow> 'h row" where
  "commit_error now text dep = dep\<lparr>dr_error := Some text, dr_last_tick := Some now\<rparr>"

definition tick_python ::
  "((day \<times> pyfloat) list \<Rightarrow> 'h) \<Rightarrow> 'h row \<Rightarrow> cash_event list \<Rightarrow> tick_world \<Rightarrow> driver
   \<Rightarrow> 'h tick_payload attempt \<times> driver" where
  "tick_python digest dep es w d =
     (case wd_truth w of
        Inl x \<Rightarrow> (Inl x, d)
      | Inr v0 \<Rightarrow>
          let v = cap_view (capped_live_from (ck_day (wd_clock w)) (ck_ms (wd_clock w)) (wd_close_ms w) (wd_weekday w)) v0
          in if dp_paused dep = None \<and> dp_resolution dep \<noteq> ''daily''
             then (case warm_tick_python digest dep es w v d of
                     (Inr p, d1) \<Rightarrow> (Inr p, d1)
                   | (Inl (Unavailable m), d1) \<Rightarrow> (Inl (Unavailable m), d1)
                   | (Inl (Fault m), d1) \<Rightarrow> replay_tick digest dep es w v (drop_engine d1))
             else replay_tick digest dep es w v d)"

definition tick_deployment ::
  "((day \<times> pyfloat) list \<Rightarrow> 'h) \<Rightarrow> cash_event list \<Rightarrow> tick_world \<Rightarrow> 'h row \<times> driver \<Rightarrow> 'h row \<times> driver" where
  "tick_deployment digest es w sd =
     (case sd of (dep, d) \<Rightarrow>
       if dr_status dep = ''stopped'' then (dep, d)
       else case wd_code w of
              Inl (Unavailable m) \<Rightarrow> (commit_error (wd_stamp w) m dep, d)
            | Inl (Fault m) \<Rightarrow> (commit_error (wd_stamp w) m dep, d)
            | Inr _ \<Rightarrow>
                (case tick_python digest dep es w d of
                   (Inr p, d1) \<Rightarrow>
                     (commit_payload (wd_stamp w)
                        (p\<lparr>pl_position := merge_position (dp_position dep) (pl_position p)\<rparr>) dep, d1)
                 | (Inl (Unavailable m), d1) \<Rightarrow> (dep, d1)
                 | (Inl (Fault m), d1) \<Rightarrow> (commit_error (wd_stamp w) m dep, d1)))"

section \<open>Exports owed\<close>

definition flush_deferred_export :: "driver \<Rightarrow> driver" where
  "flush_deferred_export d =
     (case dv_pending d of None \<Rightarrow> d | Some day \<Rightarrow> call (Export day True) (d\<lparr>dv_pending := None\<rparr>))"

definition undefer_exports :: "driver \<Rightarrow> driver" where
  "undefer_exports d = d\<lparr>dv_defers := False, dv_pending := None\<rparr>"

end
