(* ===== verification/WarmProps.thy ===== *)
theory WarmProps
  imports Warm
begin

text \<open>
  What a tick may write.  Whatever path served it, a published payload is \<open>payload_from_result\<close> of one
  snapshot up to the labels of the path; a tick that fails writes no payload; the settled history of
  the published payloads never moves; a completed day is not advanced and its payload is audited.
\<close>

section \<open>Payloads up to their labels\<close>

definition unlabelled :: "'h position \<Rightarrow> 'h position" where
  "unlabelled p = p\<lparr>po_engine := None, po_audit := None, po_primed := None, po_execution := None\<rparr>"

definition same_payload :: "'h tick_payload \<Rightarrow> 'h tick_payload \<Rightarrow> bool" where
  "same_payload p q \<longleftrightarrow>
     p\<lparr>pl_position := unlabelled (pl_position p)\<rparr> = q\<lparr>pl_position := unlabelled (pl_position q)\<rparr>"

lemma same_payload_refl [simp]: "same_payload p p"
  by (simp add: same_payload_def)

lemma same_payload_labels [simp]:
  "same_payload (with_audit a p) q = same_payload p q" "same_payload (with_engine n pr p) q = same_payload p q"
  "same_payload p (with_audit a q) = same_payload p q" "same_payload p (with_engine n pr q) = same_payload p q"
  "same_payload (p\<lparr>pl_position := (pl_position p)\<lparr>po_engine := x\<rparr>\<rparr>) q = same_payload p q"
  by (simp_all add: same_payload_def with_audit_def with_engine_def unlabelled_def)

lemma same_payload_fields:
  assumes "same_payload p q"
  shows "po_fp (pl_position p) = po_fp (pl_position q)" "po_fp_day (pl_position p) = po_fp_day (pl_position q)"
    "po_holdings (pl_position p) = po_holdings (pl_position q)" "pl_stats p = pl_stats q" "pl_days p = pl_days q"
    "pl_values p = pl_values q" "pl_fills p = pl_fills q" "pl_journal p = pl_journal q"
proof -
  have "unlabelled (pl_position p) = unlabelled (pl_position q)"
    using assms unfolding same_payload_def by (metis tick_payload.select_convs(4) tick_payload.surjective tick_payload.update_convs(4))
  then show "po_fp (pl_position p) = po_fp (pl_position q)" "po_fp_day (pl_position p) = po_fp_day (pl_position q)"
    "po_holdings (pl_position p) = po_holdings (pl_position q)"
    by (cases "pl_position p"; cases "pl_position q"; simp add: unlabelled_def)+
  show "pl_stats p = pl_stats q" "pl_days p = pl_days q" "pl_values p = pl_values q" "pl_fills p = pl_fills q"
    "pl_journal p = pl_journal q"
    using assms by (cases p; cases q; simp add: same_payload_def)+
qed

definition published :: "((day \<times> pyfloat) list \<Rightarrow> 'h) \<Rightarrow> 'h row \<Rightarrow> cash_event list \<Rightarrow> tick_world \<Rightarrow> 'h tick_payload \<Rightarrow> bool" where
  "published digest dep es w p \<longleftrightarrow>
     (\<exists>res p0. payload_from_result digest dep (wd_clock w) es res = Inr p0 \<and> same_payload p p0)"

lemma published_labels [simp]:
  "published digest dep es w (with_audit a p) = published digest dep es w p"
  "published digest dep es w (with_engine n pr p) = published digest dep es w p"
  "published digest dep es w (p\<lparr>pl_position := (pl_position p)\<lparr>po_engine := x\<rparr>\<rparr>) = published digest dep es w p"
  by (simp_all add: published_def)

lemma publishedI: "payload_from_result digest dep (wd_clock w) es res = Inr p \<Longrightarrow> published digest dep es w p"
  unfolding published_def by (blast intro: same_payload_refl)

lemma replay_published:
  "replay_tick digest dep es w v d = (Inr p, d') \<Longrightarrow> published digest dep es w p"
  by (auto simp: replay_tick_def Let_def replay_python_deployment_def intro: publishedI split: run_reply.splits if_splits)

lemma audit_published:
  assumes "audit_and_retire digest dep es w p d = (Inr q, d')" "published digest dep es w p"
  shows "published digest dep es w q"
proof -
  let ?r = "case wd_truth w of Inl x \<Rightarrow> (Inl x, d) | Inr v \<Rightarrow> replay_tick digest dep es w v d"
  have "published digest dep es w r" if "?r = (Inr r, d1)" for r d1
    using that by (auto intro: replay_published split: sum.splits)
  then show ?thesis using assms
    by (auto simp: audit_and_retire_def Let_def split: prod.splits sum.splits tick_error.splits option.splits)
qed

lemma audit_labelled:
  "audit_and_retire digest dep es w (with_engine n pr p0) d = (Inr q, d') \<Longrightarrow>
     payload_from_result digest dep (wd_clock w) es res = Inr p0 \<Longrightarrow> published digest dep es w q"
  "audit_and_retire digest dep es w (p0\<lparr>pl_position := (pl_position p0)\<lparr>po_engine := x\<rparr>\<rparr>) d = (Inr q, d') \<Longrightarrow>
     payload_from_result digest dep (wd_clock w) es res = Inr p0 \<Longrightarrow> published digest dep es w q"
  using audit_published publishedI published_labels by metis+

lemma settled_published:
  "settled_tick digest dep es w e d = (Inr p, d') \<Longrightarrow> published digest dep es w p"
  by (auto simp: settled_tick_def Let_def bind_attempt_def dest: publishedI audit_labelled
      split: prod.splits sum.splits option.splits)

lemma take_reply_published:
  "take_reply digest dep es w fresh e t d = (Inr p, d') \<Longrightarrow> published digest dep es w p"
  by (auto simp: take_reply_def Let_def dest: publishedI audit_labelled split: if_splits sum.splits)

lemma step_published:
  "step_engine digest dep es w v entry d = (Inr p, d') \<Longrightarrow> published digest dep es w p"
  by (auto simp: step_engine_def advance_engine_def Let_def dest: take_reply_published split: prod.splits sum.splits)

lemma warm_published:
  "warm_tick_python digest dep es w v d = (Inr p, d') \<Longrightarrow> published digest dep es w p"
  by (auto simp: warm_tick_python_def Let_def dest: step_published settled_published
      split: if_splits option.splits prod.splits)

lemma tick_published:
  assumes "tick_python digest dep es w d = (Inr p, d')"
  shows "published digest dep es w p"
  using assms unfolding tick_python_def
  by (auto simp: Let_def dest: warm_published replay_published
      split: sum.splits if_splits prod.splits tick_error.splits)

section \<open>What a tick may write\<close>

definition payload_part ::
  "'h row \<Rightarrow> stats \<times> (day list \<times> pyfloat list) \<times> 'h position option \<times> run_fill list \<times> journal_line list" where
  "payload_part dep = (dr_stats dep, dr_equity dep, dp_position dep, dp_fills dep, dr_journal dep)"

lemma tick_deployment_cases:
  assumes "tick_deployment digest es w (dep, d) = (dep', d')"
  obtains (same) "dep' = dep"
    | (error) m where "dep' = commit_error (wd_stamp w) m dep"
    | (payload) p where "published digest dep es w p"
        "dep' = commit_payload (wd_stamp w) (p\<lparr>pl_position := merge_position (dp_position dep) (pl_position p)\<rparr>) dep"
proof (cases "dr_status dep = ''stopped'' \<or> (\<exists>x. wd_code w = Inl x)")
  case True
  then show ?thesis using assms same error by (auto simp: tick_deployment_def split: if_splits tick_error.splits)
next
  case False
  obtain r d1 where r: "tick_python digest dep es w d = (r, d1)" by fastforce
  show ?thesis
  proof (cases r)
    case (Inl x)
    then show ?thesis using assms False r same error
      by (cases x) (auto simp: tick_deployment_def split: sum.splits)
  next
    case (Inr p)
    then show ?thesis using assms False r payload [OF tick_published [OF r [unfolded Inr]]]
      by (auto simp: tick_deployment_def split: sum.splits)
  qed
qed

text \<open>C34: a tick writes a payload only when the run it stands for produced one: the stored position then has
  the holdings of \<open>payload_from_result\<close> of one snapshot; in every other case the statistics, curve,
  position, fills and journal stay as they are, and the error column changes only for a failure of the
  strategy, not of the runner.\<close>

theorem failed_tick_keeps_the_payload:
  assumes "tick_deployment digest es w (dep, d) = (dep', d')"
  shows "payload_part dep' = payload_part dep \<and> (dr_error dep' \<noteq> None \<or> dep' = dep) \<or>
    (\<exists>res p0. payload_from_result digest dep (wd_clock w) es res = Inr p0 \<and> dr_error dep' = None \<and>
       dr_stats dep' = pl_stats p0 \<and> dr_equity dep' = (pl_days p0, pl_values p0) \<and> dp_fills dep' = pl_fills p0 \<and>
       (\<exists>q. dp_position dep' = Some q \<and> po_holdings q = po_holdings (pl_position p0)))"
  using assms
proof (cases rule: tick_deployment_cases)
  case (payload p)
  then obtain res p0 where p0: "payload_from_result digest dep (wd_clock w) es res = Inr p0" "same_payload p p0"
    by (auto simp: published_def)
  moreover have "po_holdings (merge_position o' q) = po_holdings q" for o' :: "'a position option" and q
    by (cases o') (simp_all add: merge_position_def)
  ultimately show ?thesis
    using payload(2) same_payload_fields [OF p0(2)] by (intro disjI2 exI [of _ res] exI [of _ p0]) (simp add: commit_payload_def)
qed (simp_all add: payload_part_def commit_error_def)

section \<open>The settled history\<close>

lemma takeWhile_takeWhile:
  "(\<And>x. P x \<Longrightarrow> Q x) \<Longrightarrow> takeWhile P (takeWhile Q xs) = takeWhile P xs"
  by (induction xs) auto

lemma settled_rows_prefix:
  assumes "d \<le> d'"
  shows "takeWhile (\<lambda>r. fst r < d) (settled_rows ds vs d') = settled_rows ds vs d"
proof -
  let ?f = "\<lambda>(d, v). (d, py_round v 4)"
  have "takeWhile (\<lambda>r. fst r < d) (map ?f xs) = map ?f (takeWhile (\<lambda>(e, v). e < d) xs)" for xs :: "(day \<times> pyfloat) list"
    by (induction xs) auto
  moreover have "takeWhile (\<lambda>(e, v). e < d) (takeWhile (\<lambda>(e, v). e < d') xs) = takeWhile (\<lambda>(e, v). e < d) xs"
    for xs :: "(day \<times> pyfloat) list"
    using assms by (intro takeWhile_takeWhile) auto
  ultimately show ?thesis by (simp add: settled_rows_def)
qed

text \<open>The settled rows a stored position vouches for.\<close>

definition vouches :: "((day \<times> pyfloat) list \<Rightarrow> 'h) \<Rightarrow> 'h row \<Rightarrow> day \<Rightarrow> (day \<times> pyfloat) list \<Rightarrow> bool" where
  "vouches digest dep d rows \<longleftrightarrow>
     (\<exists>p. dp_position dep = Some p \<and> po_fp p = Some (digest rows) \<and> po_fp_day p = Some d)"

lemma payload_fp:
  assumes "payload_from_result digest dep ck es res = Inr p"
  shows "po_fp (pl_position p) = Some (digest (settled_rows (sn_days res) (sn_equity res) (the_day dep ck)))"
    "po_fp_day (pl_position p) = Some (the_day dep ck)" "\<not> fp_moved digest (dp_position dep) res"
  using assms
  by (auto simp: payload_from_result_def bind_attempt_Inr_iff Let_def position_block_def history_fingerprint_def
      split: option.splits if_splits prod.splits)

lemma tick_keeps_history:
  assumes inj: "inj digest" and v: "vouches digest dep d rows"
    and t: "tick_deployment digest es w (dep, dv) = (dep', dv')" and later: "d \<le> the_day dep (wd_clock w)"
  shows "vouches digest dep' d rows \<or>
    (\<exists>rows'. vouches digest dep' (the_day dep (wd_clock w)) rows' \<and> takeWhile (\<lambda>r. fst r < d) rows' = rows)"
  using t
proof (cases rule: tick_deployment_cases)
  case (payload p)
  then obtain res p0 where p0: "payload_from_result digest dep (wd_clock w) es res = Inr p0" "same_payload p p0"
    by (auto simp: published_def)
  let ?rows = "settled_rows (sn_days res) (sn_equity res)"
  have "po_fp (pl_position p) = Some (digest (?rows (the_day dep (wd_clock w))))"
    "po_fp_day (pl_position p) = Some (the_day dep (wd_clock w))"
    using payload_fp [OF p0(1)] same_payload_fields [OF p0(2)] by simp_all
  moreover have "po_fp (merge_position o' q) = po_fp q" "po_fp_day (merge_position o' q) = po_fp_day q"
    for o' :: "'a position option" and q by (cases o'; simp add: merge_position_def)+
  ultimately have "vouches digest dep' (the_day dep (wd_clock w)) (?rows (the_day dep (wd_clock w)))"
    using payload(2) by (simp add: vouches_def commit_payload_def)
  moreover have "digest (?rows d) = digest rows"
    using payload_fp(3) [OF p0(1)] v by (auto simp: fp_moved_def vouches_def history_fingerprint_def)
  then have "?rows d = rows" using inj by (simp add: inj_def)
  then have "takeWhile (\<lambda>r. fst r < d) (?rows (the_day dep (wd_clock w))) = rows"
    using settled_rows_prefix [OF later] by simp
  ultimately show ?thesis by blast
qed (use v in \<open>simp_all add: vouches_def commit_error_def\<close>)

text \<open>A run of ticks: each with the cash events and the world it meets.\<close>

fun run_ticks ::
  "((day \<times> pyfloat) list \<Rightarrow> 'h) \<Rightarrow> (cash_event list \<times> tick_world) list \<Rightarrow> 'h row \<times> driver \<Rightarrow> 'h row \<times> driver" where
  "run_ticks digest [] sd = sd"
| "run_ticks digest ((es, w) # ts) sd = run_ticks digest ts (tick_deployment digest es w sd)"

definition days_of :: "'h row \<Rightarrow> (cash_event list \<times> tick_world) list \<Rightarrow> day list" where
  "days_of dep ts = map (\<lambda>(es, w). the_day dep (wd_clock w)) ts"

lemma tick_paused:
  assumes "tick_deployment digest es w (dep, dv) = (dep', dv')" shows "dp_paused dep' = dp_paused dep"
  using assms by (cases rule: tick_deployment_cases) (simp_all add: commit_error_def commit_payload_def)

text \<open>C35: the settled history of a deployment never moves: over any run of ticks on days that do not go
  back, whichever path serves them and whichever of them fail, the rows a stored position vouches for stay
  the settled prefix of every position stored later.\<close>

theorem settled_history_never_moves:
  assumes "inj digest" "vouches digest dep d rows" "run_ticks digest ts (dep, dv) = (dep', dv')"
    "sorted (d # days_of dep ts)" "takeWhile (\<lambda>r. fst r < d) rows = rows"
  shows "\<exists>d' rows'. d \<le> d' \<and> vouches digest dep' d' rows' \<and> takeWhile (\<lambda>r. fst r < d) rows' = rows"
proof -
  have "\<exists>e' rows'. d \<le> e' \<and> vouches digest dep' e' rows' \<and> takeWhile (\<lambda>r. fst r < d) rows' = rows"
    if "vouches digest dep e rows1" "takeWhile (\<lambda>r. fst r < d) rows1 = rows" "d \<le> e"
      "sorted (e # days_of dep ts)" for e rows1
    using assms(3) that
  proof (induction ts arbitrary: dep dv e rows1)
    case (Cons t ts)
    obtain es w where t: "t = (es, w)" by (cases t)
    obtain dep1 dv1 where step: "tick_deployment digest es w (dep, dv) = (dep1, dv1)" by fastforce
    have run: "run_ticks digest ts (dep1, dv1) = (dep', dv')" using Cons.prems(1) t step by simp
    have dd: "days_of dep1 ts = days_of dep ts"
      using tick_paused [OF step] by (simp add: days_of_def the_day_def split: option.split)
    let ?today = "the_day dep (wd_clock w)"
    have le: "e \<le> ?today" "sorted (?today # days_of dep ts)" "sorted (e # days_of dep ts)"
      using Cons.prems(5) by (auto simp: t days_of_def)
    from tick_keeps_history [OF assms(1) Cons.prems(2) step le(1)]
    consider "vouches digest dep1 e rows1"
      | rows2 where "vouches digest dep1 ?today rows2" "takeWhile (\<lambda>r. fst r < e) rows2 = rows1" by blast
    then show ?case
    proof cases
      case 1
      from Cons.IH [OF run this Cons.prems(3,4)] show ?thesis using le dd by simp
    next
      case 2
      have "takeWhile (\<lambda>r. fst r < d) rows2 = takeWhile (\<lambda>r. fst r < d) (takeWhile (\<lambda>r. fst r < e) rows2)"
        using Cons.prems(4) by (intro takeWhile_takeWhile [symmetric]) auto
      then have "takeWhile (\<lambda>r. fst r < d) rows2 = rows" using 2(2) Cons.prems(3) by simp
      from Cons.IH [OF run 2(1) this] show ?thesis using le dd Cons.prems(4) by simp
    qed
  qed auto
  then show ?thesis using assms(2,4,5) by blast
qed

section \<open>A completed day\<close>

fun advancing :: "rpc \<Rightarrow> bool" where
  "advancing (Tick a) = True"
| "advancing (Start c) = True"
| "advancing (WarmTo d) = True"
| "advancing c = False"

definition advances :: "rpc list \<Rightarrow> bool" where "advances tr \<longleftrightarrow> list_ex advancing tr"

lemma advances_simps [simp]:
  "advances (xs @ ys) \<longleftrightarrow> advances xs \<or> advances ys" "\<not> advances []"
  "advances (c # xs) \<longleftrightarrow> advancing c \<or> advances xs"
  by (simp_all add: advances_def)

lemma call_trace [simp]: "dv_trace (call c d) = dv_trace d @ [c]" "dv_entry (call c d) = dv_entry d"
  by (simp_all add: call_def)

lemma replay_trace:
  assumes "replay_tick digest dep es w v d = (r, d')"
  shows "advances (dv_trace d') \<longleftrightarrow> advances (dv_trace d)" "dv_entry d' = dv_entry d"
  using assms by (auto simp: replay_tick_def Let_def split: run_reply.splits)

lemma audit_trace:
  assumes "audit_and_retire digest dep es w p d = (r, d')"
  shows "advances (dv_trace d') \<longleftrightarrow> advances (dv_trace d)"
proof -
  obtain x d1 where x: "(case wd_truth w of Inl x \<Rightarrow> (Inl x, d) | Inr v \<Rightarrow> replay_tick digest dep es w v d) = (x, d1)"
    by fastforce
  then have "advances (dv_trace d1) \<longleftrightarrow> advances (dv_trace d)"
    by (auto dest: replay_trace split: sum.splits)
  then show ?thesis using assms x
    by (cases x) (auto simp: audit_and_retire_def Let_def set_audit_def drop_engine_def
        split: tick_error.splits option.splits)
qed

text \<open>The verdict of the audit that a payload published after the close carries.\<close>

lemma audit_verdict:
  assumes "audit_and_retire digest dep es w p d = (r, d')"
  shows "(\<exists>m. r = Inl (Unavailable m)) \<or> (\<exists>q. r = Inr q \<and> po_audit (pl_position q) \<noteq> None)"
proof -
  obtain x d1 where x: "(case wd_truth w of Inl x \<Rightarrow> (Inl x, d) | Inr v \<Rightarrow> replay_tick digest dep es w v d) = (x, d1)"
    by fastforce
  show ?thesis using assms x
    by (cases x) (auto simp: audit_and_retire_def Let_def with_audit_def split: tick_error.splits option.splits)
qed

lemma audit_unavailable_keeps:
  assumes "audit_and_retire digest dep es w p d = (Inl x, d')"
  shows "dv_entry d' = dv_entry d"
proof -
  obtain y d1 where y: "(case wd_truth w of Inl x \<Rightarrow> (Inl x, d) | Inr v \<Rightarrow> replay_tick digest dep es w v d) = (y, d1)"
    by fastforce
  then have "dv_entry d1 = dv_entry d" by (auto dest: replay_trace split: sum.splits)
  then show ?thesis using assms y
    by (cases y) (auto simp: audit_and_retire_def Let_def split: tick_error.splits option.splits)
qed

text \<open>An engine that completed the day is not advanced, warmed or rebuilt for it again; every payload
  served for that day carries the verdict of an audit; and an audit the runner could not run leaves the
  entry without a verdict, so that the next tick runs it again.\<close>

theorem completed_day_is_settled:
  assumes "warm_tick_python digest dep es w v d = (r, d')" "dv_entry d = Some e"
    "we_completed e = Some (ck_day (wd_clock w))"
  shows "(advances (dv_trace d') \<longleftrightarrow> advances (dv_trace d)) \<and>
    (\<forall>p. r = Inr p \<longrightarrow> po_audit (pl_position p) \<noteq> None) \<and>
    (\<forall>m. r = Inl (Unavailable m) \<longrightarrow> (\<exists>e'. dv_entry d' = Some e' \<and> we_audit e' = we_audit e))"
proof (cases "wd_marker w \<noteq> None \<or> we_deposits e \<noteq> deposit_count es")
  case True
  then show ?thesis using assms
    by (auto simp: warm_tick_python_def yesterdays_def Let_def drop_engine_def split: if_splits)
next
  case False
  then have s: "settled_tick digest dep es w e d = (r, d')"
    using assms by (simp add: warm_tick_python_def yesterdays_def Let_def)
  obtain x d1 where x: "(case we_snapshot e of
            Some res \<Rightarrow> (Inr res, d)
          | None \<Rightarrow>
              (case wd_ask w of
                 Inl x \<Rightarrow> (Inl x, call Ask d)
               | Inr res \<Rightarrow> (Inr res, (call Ask d)\<lparr>dv_entry := Some (e\<lparr>we_snapshot := Some res\<rparr>)\<rparr>))) = (x, d1)"
    by fastforce
  then have d1: "advances (dv_trace d1) \<longleftrightarrow> advances (dv_trace d)"
    "\<exists>e'. dv_entry d1 = Some e' \<and> we_audit e' = we_audit e"
    using assms(2) by (auto split: option.splits sum.splits)
  show ?thesis
  proof (cases "bind_attempt x (payload_from_result digest dep (wd_clock w) es)")
    case (Inl y)
    then show ?thesis using s x d1 by (auto simp: settled_tick_def)
  next
    case (Inr p0)
    let ?p = "p0\<lparr>pl_position := (pl_position p0)\<lparr>po_engine := Some ''warm''\<rparr>\<rparr>"
    show ?thesis
    proof (cases "we_audit e")
      case (Some a)
      then show ?thesis using s x d1 Inr by (auto simp: settled_tick_def with_audit_def)
    next
      case None
      then have "audit_and_retire digest dep es w ?p d1 = (r, d')"
        using s x Inr by (simp add: settled_tick_def)
      from audit_trace [OF this] audit_verdict [OF this] audit_unavailable_keeps [of digest dep es w ?p d1] this d1
      show ?thesis by auto
    qed
  qed
qed

section \<open>Two things a tick writes that it did not see\<close>

lemma fresh_position_labels:
  "payload_from_result digest dep ck es res = Inr p \<Longrightarrow>
     po_engine (pl_position p) = None \<and> po_audit (pl_position p) = None \<and> po_execution (pl_position p) = None"
  by (auto simp: payload_from_result_def bind_attempt_Inr_iff Let_def position_block_def
      split: option.splits if_splits prod.splits)

text \<open>
  A replay never writes \<open>position["engine"]\<close> and \<open>position["warm_audit"]\<close>, so they survive its merge: a
  replay tick after a warm one is stored under the name of the warm engine, with its audit.
\<close>

lemma replay_keeps_the_warm_label:
  assumes "replay_tick digest dep es w v d = (Inr p, d')" "dp_position dep = Some q"
  shows "po_engine (merge_position (dp_position dep) (pl_position p)) = po_engine q \<and>
    po_audit (merge_position (dp_position dep) (pl_position p)) = po_audit q"
proof -
  obtain res where "payload_from_result digest dep (wd_clock w) es res = Inr p"
    using assms(1) by (auto simp: replay_tick_def Let_def replay_python_deployment_def split: run_reply.splits if_splits)
  from fresh_position_labels [OF this] show ?thesis by (simp add: assms(2) merge_position_def)
qed

text \<open>
  The position is merged from the row as the tick loaded it, up to a replay earlier; the commit writes the
  whole column.  A report the broker sweep stored in between is overwritten by the one before it.
\<close>

definition commit_over :: "'h row \<Rightarrow> 'h row \<Rightarrow> 'h row" where
  "commit_over written stored =
     stored\<lparr>dr_stats := dr_stats written, dr_equity := dr_equity written, dp_position := dp_position written,
       dp_fills := dp_fills written, dr_journal := dr_journal written, dr_error := dr_error written,
       dr_last_tick := dr_last_tick written, dr_clean_tick := dr_clean_tick written\<rparr>"

lemma sweep_report_lost_during_a_replay:
  assumes "replay_tick digest loaded es w v d = (Inr p, d')" "dp_position loaded = Some q"
  shows "map_option po_execution (dp_position (commit_over
      (commit_payload now (p\<lparr>pl_position := merge_position (dp_position loaded) (pl_position p)\<rparr>) loaded) stored))
    = Some (po_execution q)"
proof -
  obtain res where "payload_from_result digest loaded (wd_clock w) es res = Inr p"
    using assms(1) by (auto simp: replay_tick_def Let_def replay_python_deployment_def split: run_reply.splits if_splits)
  from fresh_position_labels [OF this] show ?thesis
    by (simp add: assms(2) merge_position_def commit_over_def commit_payload_def)
qed

section \<open>A concrete deployment\<close>

definition demo_position :: "(day \<times> pyfloat) list position" where
  "demo_position = \<lparr>po_symbol = ''A'', po_qty = 0, po_last = 0, po_value = 0, po_cash = 100, po_entry = 0,
     po_holdings = [], po_lasts = [], po_exits = [], po_entries = [], po_close = [], po_ticket_add = [],
     po_held_out = [], po_primed = None, po_fp = Some [(5, 100)], po_fp_day = Some 6, po_engine = Some ''warm:socket'',
     po_audit = None, po_execution = None\<rparr>"

definition demo_dep :: "(day \<times> pyfloat) list row" where
  "demo_dep = \<lparr>dp_resolution = ''minute'', dp_universe = [''A''], dp_cash = 100, dp_conn = None, dp_paused = None,
     dp_position = Some demo_position, dp_fills = [], dr_start = 1, dr_blocks = False, dr_ir_symbols = None,
     dr_status = ''running'', dr_stats = [], dr_equity = ([], []), dr_journal = [], dr_error = None,
     dr_last_tick = None, dr_clean_tick = None\<rparr>"

definition demo_snap :: snapshot where
  "demo_snap = \<lparr>sn_stats = [], sn_position = Some \<lparr>rp_cash = 110, rp_holdings = [], rp_lasts = [], rp_open = []\<rparr>,
     sn_days = [5, 6], sn_equity = [100, 110], sn_flows = [0, 0], sn_fills = [], sn_parts = ([], [], []),
     sn_logs = Some [], sn_counts = no_counts, sn_resolution = None, sn_live = None\<rparr>"

definition demo_world :: "day \<Rightarrow> run_reply \<Rightarrow> tick_world" where
  "demo_world today reply = \<lparr>wd_clock = \<lparr>ck_day = today, ck_ms = 58000000, ck_native = False\<rparr>, wd_epoch_ms = 0,
     wd_close_ms = 57600000, wd_weekday = True, wd_marker = Some ''executions'', wd_alive = True, wd_rows = [],
     wd_live_rows = [], wd_quotes = None, wd_start = Inl (Fault ''no''), wd_warm = Inl (Fault ''no''),
     wd_tick = (\<lambda>a. Inl (Fault ''no'')), wd_ask = Inr demo_snap, wd_replay = (\<lambda>c. reply), wd_truth = Inr NoLedger,
     wd_code = Inr ''code'', wd_stamp = 1\<rparr>"

definition demo_driver :: driver where
  "demo_driver = \<lparr>dv_entry = None, dv_fire = None, dv_pending = None, dv_defers = False, dv_trace = []\<rparr>"

lemma demo_round: "py_round 100 4 = 100"
  by code_simp

lemma demo_publishes:
  "map_option po_fp_day (dp_position (fst (run_ticks id [([], demo_world 6 (Failed ''Error'' ''boom'')),
     ([], demo_world 7 (Ran demo_snap))] (demo_dep, demo_driver)))) = Some (Some 7)"
  by (simp add: demo_dep_def demo_world_def demo_driver_def tick_deployment_def tick_python_def warm_tick_python_def
      drop_engine_def replay_tick_def replay_python_deployment_def Let_def call_def run_cfg_def commit_error_def
      payload_from_result_def demo_snap_def preview_of_def fp_moved_def demo_position_def history_fingerprint_def
      settled_rows_def commit_payload_def merge_position_def position_block_def project_orders_def the_day_def demo_round)

theorem settled_history_never_moves_witness:
  "\<exists>d' rows'. 6 \<le> d' \<and> vouches id (fst (run_ticks id [([], demo_world 6 (Failed ''Error'' ''boom'')),
     ([], demo_world 7 (Ran demo_snap))] (demo_dep, demo_driver))) d' rows' \<and> takeWhile (\<lambda>r. fst r < 6) rows' = [(5, 100)]"
  using demo_publishes
    settled_history_never_moves [of id demo_dep 6 "[(5, 100)]" "[([], demo_world 6 (Failed ''Error'' ''boom'')),
     ([], demo_world 7 (Ran demo_snap))]" demo_driver _ "snd (run_ticks id [([], demo_world 6 (Failed ''Error'' ''boom'')),
     ([], demo_world 7 (Ran demo_snap))] (demo_dep, demo_driver))", OF _ _ prod.collapse [symmetric]]
  by (simp add: vouches_def demo_dep_def demo_position_def days_of_def the_day_def demo_world_def)

theorem failed_tick_keeps_the_payload_witness:
  "payload_part (fst (tick_deployment id [] (demo_world 6 (Failed ''Error'' ''boom'')) (demo_dep, demo_driver)))
     = payload_part demo_dep"
proof -
  have "dr_error (fst (tick_deployment id [] (demo_world 6 (Failed ''Error'' ''boom'')) (demo_dep, demo_driver))) \<noteq> None"
    by (simp add: demo_dep_def demo_world_def demo_driver_def tick_deployment_def tick_python_def warm_tick_python_def
      drop_engine_def replay_tick_def replay_python_deployment_def Let_def call_def run_cfg_def commit_error_def)
  then show ?thesis
    using failed_tick_keeps_the_payload [of id "[]" "demo_world 6 (Failed ''Error'' ''boom'')" demo_dep demo_driver,
        OF prod.collapse [symmetric]]
    by auto
qed

definition demo_done :: driver where
  "demo_done = demo_driver\<lparr>dv_entry := Some ((fresh_entry [] (demo_world 7 (Ran demo_snap)) ''socket'')
     \<lparr>we_completed := Some 7\<rparr>)\<rparr>"

theorem completed_day_is_settled_witness:
  "\<not> advances (dv_trace (snd (warm_tick_python id demo_dep [] ((demo_world 7 (Ran demo_snap))\<lparr>wd_marker := None\<rparr>)
     NoLedger demo_done)))"
  using completed_day_is_settled [of id demo_dep "[]" "(demo_world 7 (Ran demo_snap))\<lparr>wd_marker := None\<rparr>" NoLedger
      demo_done, OF prod.collapse [symmetric]]
  by (simp add: demo_done_def demo_driver_def demo_world_def)

end
