(* ===== verification/Engine.thy ===== *)
theory Engine
  imports Snapshot
begin

text \<open>
  The session loop of \<open>dqengine/runtime/backtester.py\<close>: \<open>_begin_session\<close>, \<open>_step_bar\<close>, \<open>_end_session\<close>
  and everything they call, and \<open>_run\<close>'s walk over the sessions.  \<open>algo\<close> is what user code can reach:
  the order book with its sleeve, prices and securities, the clock, the indicators, the consolidators
  and the attributes the strategy gave itself (\<open>al_user\<close>).  \<open>backtest\<close> adds what only the driver holds.
  User code is \<open>hooks\<close>, arbitrary functions on \<open>algo\<close>.  An indicator object is what it was fed: its
  state is a function of that.
\<close>

section \<open>What user code reaches\<close>

datatype sample =
    CloseAt "day \<times> ms" pyfloat
  | BarAt "day \<times> ms" pyfloat pyfloat pyfloat pyfloat pyfloat
  | LegAt sym "day \<times> ms option" pyfloat

datatype ind_kind = Plain | BarBased | Paired

record indicator =
  in_kind :: ind_kind
  in_fed :: "sample list"

record sec_quote =
  qu_open :: pyfloat
  qu_high :: pyfloat
  qu_low :: pyfloat
  qu_close :: pyfloat
  qu_volume :: pyfloat

record 'u algo = run_engine +
  al_now :: "day \<times> ms"
  al_quotes :: "(sym, sec_quote) dict"
  al_invested :: "(sym, bool) dict"
  al_regs :: "(sym, (bar_size \<times> nat) list) dict"
  al_inds :: "(nat, indicator) dict"
  al_cons :: "(sym, consolidator list) dict"
  al_events :: "sched_event list"
  al_slice :: "(sym, trade_bar) dict"
  al_warming :: bool
  al_market_open :: bool
  al_quit :: bool
  al_user :: 'u

text \<open>\<open>on_end_of_day\<close> is written with or without a symbol; the call without one raises \<open>TypeError\<close> for
  the former, which is how the engine finds out.\<close>

datatype 'u eod_hook =
    EodPlain "'u algo \<Rightarrow> 'u algo res"
  | EodPerSymbol "sym \<Rightarrow> 'u algo \<Rightarrow> 'u algo res"

record 'u hooks =
  hk_on_data :: "('u algo \<Rightarrow> 'u algo res) option"
  hk_event :: "nat \<Rightarrow> 'u algo \<Rightarrow> 'u algo res"
  hk_bar :: "nat \<Rightarrow> trade_bar \<Rightarrow> 'u algo \<Rightarrow> 'u algo res"
  hk_order :: callback
  hk_warmup_finished :: "'u algo \<Rightarrow> 'u algo res"
  hk_time_step :: "'u algo \<Rightarrow> 'u algo res"
  hk_end_of_day :: "'u eod_hook"
  hk_end_of_algorithm :: "'u algo \<Rightarrow> 'u algo res"

section \<open>The driver's state\<close>

record 'u backtest =
  bt_algo :: "'u algo"
  bt_syms :: "sym list"
  bt_start :: day
  bt_cal :: session_calendar
  bt_sessions :: "day list"
  bt_live :: bool
  bt_live_today :: "day option"
  bt_live_now :: "ms option"
  bt_partial_day :: "day option"
  bt_daily_mode :: bool
  bt_daily_lean :: bool
  bt_lean_edges :: bool
  bt_bar_ms :: int
  bt_daily_map :: "(sym, (day, daily_row) dict) dict"
  bt_fast_on :: bool
  bt_fast_sessions :: nat
  bt_deposits :: "(day, pyfloat) dict"
  bt_sells :: "(day, (sym, int) dict) dict"
  bt_sells_due :: "(sym, int) dict"
  bt_day_bars :: "(sym, day_bars) dict"
  bt_spans :: "(sym, int) dict"
  bt_slice :: "(sym, trade_bar) dict"
  bt_day_events :: "(ms \<times> sched_event) list"
  bt_pre_events :: "(ms \<times> sched_event) list"
  bt_prev_t :: ms
  bt_primed :: ms
  bt_first_done :: bool
  bt_warm :: bool
  bt_carried :: bool
  bt_partial :: bool
  bt_bar_applied :: bool

type_synonym minute_store = "sym \<Rightarrow> day \<Rightarrow> day_bars option"
type_synonym entries = "(sym \<times> nat) list"

section \<open>Running code on a part of the state\<close>

definition book_of :: "'u backtest \<Rightarrow> obook" where
  "book_of e = re_book (bt_algo e)"

definition on_algo :: "('u algo \<Rightarrow> 'u algo res) \<Rightarrow> 'u backtest \<Rightarrow> 'u backtest res" where
  "on_algo f e = bind_res (f (bt_algo e)) (\<lambda>a. Inr (e\<lparr>bt_algo := a\<rparr>))"

definition book_algo :: "(obook \<Rightarrow> obook res) \<Rightarrow> 'u algo \<Rightarrow> 'u algo res" where
  "book_algo f a = bind_res (f (re_book a)) (\<lambda>b. Inr (a\<lparr>re_book := b\<rparr>))"

definition set_book :: "(obook \<Rightarrow> obook) \<Rightarrow> 'u algo \<Rightarrow> 'u algo" where
  "set_book f a = a\<lparr>re_book := f (re_book a)\<rparr>"

definition upd_algo :: "('u algo \<Rightarrow> 'u algo) \<Rightarrow> 'u backtest \<Rightarrow> 'u backtest" where
  "upd_algo f e = e\<lparr>bt_algo := f (bt_algo e)\<rparr>"

definition unless_quit :: "('u backtest \<Rightarrow> 'u backtest res) \<Rightarrow> 'u backtest \<Rightarrow> 'u backtest res" where
  "unless_quit f e = (if al_quit (bt_algo e) then Inr e else f e)"

fun fold_res :: "('a \<Rightarrow> 'b \<Rightarrow> 'b res) \<Rightarrow> 'a list \<Rightarrow> 'b \<Rightarrow> 'b res" where
  "fold_res f [] s = Inr s"
| "fold_res f (x # xs) s = bind_res (f x s) (fold_res f xs)"

text \<open>\<open>_ms\<close> and \<open>algo.time\<close>; the book's clock reads \<open>(_day, _ms)\<close>.\<close>

definition set_ms :: "day \<Rightarrow> ms \<Rightarrow> 'u algo \<Rightarrow> 'u algo" where
  "set_ms d t a = (set_book (\<lambda>b. b\<lparr>clock := (fst (clock b), t)\<rparr>) a)\<lparr>al_now := (d, t)\<rparr>"

definition set_day :: "day \<Rightarrow> 'u algo \<Rightarrow> 'u algo" where
  "set_day d = set_book (\<lambda>b. b\<lparr>clock := (d, snd (clock b))\<rparr>)"

section \<open>Bars into the algorithm\<close>

definition bar_at :: "'u backtest \<Rightarrow> sym \<times> nat \<Rightarrow> bar res" where
  "bar_at e si =
     (case dget (bt_day_bars e) (fst si) of
        None \<Rightarrow> Inl KeyError
      | Some b \<Rightarrow> if snd si < length b then Inr (b ! snd si) else Inl IndexError)"

definition span_at :: "'u backtest \<Rightarrow> sym \<Rightarrow> int res" where
  "span_at e s = (case dget (bt_spans e) s of None \<Rightarrow> Inl KeyError | Some n \<Rightarrow> Inr n)"

definition quote_bar :: "sym \<Rightarrow> bar \<Rightarrow> 'u algo \<Rightarrow> 'u algo res" where
  "quote_bar s b a =
     (case dget (securities (re_book a)) s of
        None \<Rightarrow> Inl KeyError
      | Some sec \<Rightarrow>
          Inr ((set_book (\<lambda>k. k\<lparr>securities := dput (securities k) s (sec\<lparr>sec_price := b_close b\<rparr>),
                                prices := dput (prices k) s (b_close b)\<rparr>) a)
               \<lparr>al_quotes := dput (al_quotes a) s
                  \<lparr>qu_open = b_open b, qu_high = b_high b, qu_low = b_low b, qu_close = b_close b,
                   qu_volume = b_volume b\<rparr>\<rparr>))"

definition feed :: "nat \<Rightarrow> sample \<Rightarrow> 'u algo \<Rightarrow> 'u algo" where
  "feed i x a =
     (case dget (al_inds a) i of
        None \<Rightarrow> a
      | Some ind \<Rightarrow> a\<lparr>al_inds := dput (al_inds a) i (ind\<lparr>in_fed := in_fed ind @ [x]\<rparr>)\<rparr>)"

definition kind_of :: "'u algo \<Rightarrow> nat \<Rightarrow> ind_kind" where
  "kind_of a i = (case dget (al_inds a) i of None \<Rightarrow> Plain | Some ind \<Rightarrow> in_kind ind)"

definition minute_sample :: "sym \<Rightarrow> trade_bar \<Rightarrow> bar_size \<Rightarrow> ind_kind \<Rightarrow> sample option" where
  "minute_sample s b sz kind =
     (case kind of
        Paired \<Rightarrow> Some (LegAt s (fst (tb_end b), Some (snd (tb_end b))) (tb_close b))
      | BarBased \<Rightarrow> if sz = DAILY then None
          else Some (BarAt (tb_end b) (tb_high b) (tb_low b) (tb_close b) (tb_volume b) (tb_open b))
      | Plain \<Rightarrow> if sz = DAILY then None else Some (CloseAt (tb_end b) (tb_close b)))"

definition daily_sample :: "sym \<Rightarrow> day \<Rightarrow> day_bars \<Rightarrow> bar_size \<Rightarrow> ind_kind \<Rightarrow> sample option" where
  "daily_sample s d b sz kind =
     (case kind of
        Paired \<Rightarrow> Some (LegAt s (d, None) (day_close b))
      | BarBased \<Rightarrow> if sz \<noteq> DAILY then None
          else Some (BarAt (d, close_time_ms d) (highest b) (lowest b) (day_close b) (total_volume b) (day_open b))
      | Plain \<Rightarrow> if sz \<noteq> DAILY then None else Some (CloseAt (d, close_time_ms d) (day_close b)))"

definition feed_indicators :: "(bar_size \<Rightarrow> ind_kind \<Rightarrow> sample option) \<Rightarrow> sym \<Rightarrow> 'u algo \<Rightarrow> 'u algo" where
  "feed_indicators smp s a =
     foldl (\<lambda>a (sz, i). case smp sz (kind_of a i) of None \<Rightarrow> a | Some x \<Rightarrow> feed i x a)
       a (dget_or (al_regs a) s [])"

text \<open>The consolidators of a symbol, by their place in its list.  A handler may change the list.\<close>

definition con_at :: "'u algo \<Rightarrow> sym \<Rightarrow> nat \<Rightarrow> consolidator option" where
  "con_at a s i =
     (let cs = dget_or (al_cons a) s [] in if i < length cs then Some (cs ! i) else None)"

definition put_con :: "sym \<Rightarrow> nat \<Rightarrow> consolidator \<Rightarrow> 'u algo \<Rightarrow> 'u algo" where
  "put_con s i c a = a\<lparr>al_cons := dput (al_cons a) s ((dget_or (al_cons a) s [])[i := c])\<rparr>"

definition con_scan :: "'u hooks \<Rightarrow> sym \<Rightarrow> nat \<Rightarrow> 'u algo \<Rightarrow> 'u algo res" where
  "con_scan hk s i a =
     (case con_at a s i of
        None \<Rightarrow> Inr a
      | Some c \<Rightarrow>
          case co_work c of
            None \<Rightarrow> Inr a
          | Some w \<Rightarrow> fold_res (\<lambda>h. hk_bar hk h w) (co_handlers c) (put_con s i (co_emit c) a))"

definition con_update :: "'u hooks \<Rightarrow> sym \<Rightarrow> trade_bar \<Rightarrow> nat \<Rightarrow> 'u algo \<Rightarrow> 'u algo res" where
  "con_update hk s b i a =
     (case con_at a s i of
        None \<Rightarrow> Inr a
      | Some c \<Rightarrow>
          bind_res (if bucket_changed b c then con_scan hk s i a else Inr a) (\<lambda>a1.
          case con_at a1 s i of None \<Rightarrow> Inr a1 | Some c1 \<Rightarrow> Inr (put_con s i (co_absorb b c1) a1)))"

definition feed_consolidators :: "'u hooks \<Rightarrow> sym \<Rightarrow> trade_bar \<Rightarrow> 'u algo \<Rightarrow> 'u algo res" where
  "feed_consolidators hk s b a =
     fold_res (con_update hk s b) [0..<length (dget_or (al_cons a) s [])] a"

definition flush_consolidators :: "'u hooks \<Rightarrow> sym \<Rightarrow> 'u algo \<Rightarrow> 'u algo res" where
  "flush_consolidators hk s a =
     fold_res (con_scan hk s) [0..<length (dget_or (al_cons a) s [])] a"

section \<open>Opening a session\<close>

text \<open>Cash and share sales whose day has come; the keys are compared as dates.\<close>

definition land_cash :: "day \<Rightarrow> 'u backtest \<Rightarrow> 'u backtest" where
  "land_cash d e =
     (let due = map snd (filter (\<lambda>k. fst k \<le> d) (bt_deposits e))
      in e\<lparr>bt_deposits := filter (\<lambda>k. \<not> fst k \<le> d) (bt_deposits e),
           bt_algo := (set_book (\<lambda>b. b\<lparr>ob_sleeve := (ob_sleeve b)\<lparr>cash := foldl fadd (cash (ob_sleeve b)) due\<rparr>\<rparr>) (bt_algo e))
             \<lparr>re_pending_flow := foldl fadd (re_pending_flow (bt_algo e)) due\<rparr>\<rparr>)"

definition add_due :: "(sym, int) dict \<Rightarrow> sym \<times> int \<Rightarrow> (sym, int) dict" where
  "add_due d kv = dput d (fst kv) (dget_or d (fst kv) 0 + snd kv)"

definition land_sells :: "day \<Rightarrow> 'u backtest \<Rightarrow> 'u backtest" where
  "land_sells d e =
     e\<lparr>bt_sells_due := foldl (foldl add_due) (bt_sells_due e) (map snd (filter (\<lambda>k. fst k \<le> d) (bt_sells e))),
       bt_sells := filter (\<lambda>k. \<not> fst k \<le> d) (bt_sells e)\<rparr>"

definition leave_warmup :: "'u hooks \<Rightarrow> bool \<Rightarrow> 'u backtest \<Rightarrow> 'u backtest res" where
  "leave_warmup hk warm e =
     (if al_warming (bt_algo e) \<and> \<not> warm
      then on_algo (hk_warmup_finished hk)
             (upd_algo (\<lambda>a. (set_book (\<lambda>b. b\<lparr>allow_orders := True\<rparr>) a)\<lparr>al_warming := False\<rparr>) e)
      else Inr e)"

definition loaded_bars ::
  "minute_store \<Rightarrow> (sym, day_bars) dict option \<Rightarrow> day \<Rightarrow> 'u backtest \<Rightarrow> (sym, day_bars) dict" where
  "loaded_bars store preloaded d e =
     (case preloaded of
        Some bars \<Rightarrow> filter (\<lambda>(s, b). s \<in> set (bt_syms e) \<and> b \<noteq> []) bars
      | None \<Rightarrow>
          concat (map (\<lambda>s.
            if bt_daily_mode e
            then (case dget (dget_or (bt_daily_map e) s []) d of None \<Rightarrow> [] | Some r \<Rightarrow> [(s, [daily_bar r])])
            else (case store s d of None \<Rightarrow> [] | Some b \<Rightarrow> if b = [] then [] else [(s, b)])) (bt_syms e)))"

definition carried_bars :: "day \<Rightarrow> 'u backtest \<Rightarrow> (sym, day_bars) dict" where
  "carried_bars d e =
     concat (map (\<lambda>s. case dget (prices (book_of e)) s of
         None \<Rightarrow> [] | Some px \<Rightarrow> [(s, fill_forward_day px (close_time_ms d))]) (bt_syms e))"

definition session_spans :: "day \<Rightarrow> (sym, day_bars) dict \<Rightarrow> 'u backtest \<Rightarrow> (sym, int) dict" where
  "session_spans d bars e =
     map (\<lambda>(s, b). (s, if bt_daily_mode e then close_time_ms d - b_start (b ! 0)
                       else session_span (bt_bar_ms e) bars)) bars"

definition reset_session :: "bool \<Rightarrow> (sym, day_bars) dict \<Rightarrow> bool \<Rightarrow> day \<Rightarrow> 'u backtest \<Rightarrow> 'u backtest" where
  "reset_session warm bars fresh d e =
     e\<lparr>bt_warm := warm, bt_day_bars := bars, bt_carried := \<not> fresh, bt_pre_events := [], bt_prev_t := - 1,
       bt_primed := - 1, bt_first_done := False, bt_partial := False,
       bt_bar_applied := (if bt_daily_mode e \<and> bt_live e \<and> Some d = bt_live_today e then bars \<noteq> []
                          else bt_bar_applied e)\<rparr>"

definition day_schedule :: "day \<Rightarrow> 'u backtest \<Rightarrow> (ms \<times> sched_event) list res" where
  "day_schedule d e = events_for (bt_cal e) d (al_events (bt_algo e))"

definition before_close :: "day \<Rightarrow> (ms \<times> sched_event) list \<Rightarrow> (ms \<times> sched_event) list" where
  "before_close d evs = filter (\<lambda>x. fst x < close_time_ms d) evs"

definition open_without_bar :: "day \<Rightarrow> 'u backtest \<Rightarrow> 'u backtest res" where
  "open_without_bar d e =
     (if Some d = bt_partial_day e \<and> \<not> bt_warm e
      then bind_res (day_schedule d e) (\<lambda>evs. bind_res (sorted_events (before_close d evs)) (\<lambda>pre.
             Inr (upd_algo (\<lambda>a. set_book (\<lambda>b. b\<lparr>carried := False, after_close_to_moo := True\<rparr>) (set_day d a))
               (e\<lparr>bt_partial := True, bt_day_events := [], bt_pre_events := pre\<rparr>))))
      else Inr e)"

definition open_with_bars :: "day \<Rightarrow> 'u backtest \<Rightarrow> 'u backtest res" where
  "open_with_bars d e =
     bind_res (if bt_warm e then Inr [] else day_schedule d e) (\<lambda>evs.
     bind_res (if bt_daily_lean e then sorted_events (before_close d evs) else Inr (bt_pre_events e)) (\<lambda>pre.
     Inr (upd_algo (\<lambda>a. set_book (\<lambda>b. b\<lparr>carried := bt_carried e,
              after_close_to_moo := \<not> bt_warm e \<and> (\<not> bt_live e \<or> bt_daily_lean e)\<rparr>) (set_day d a))
       (e\<lparr>bt_spans := session_spans d (bt_day_bars e) e, bt_pre_events := pre,
          bt_day_events := (if bt_daily_lean e then filter (\<lambda>x. close_time_ms d \<le> fst x) evs else evs)\<rparr>))))"

definition begin_session ::
  "'u hooks \<Rightarrow> minute_store \<Rightarrow> (sym, day_bars) dict option \<Rightarrow> day \<Rightarrow> 'u backtest \<Rightarrow> 'u backtest res" where
  "begin_session hk store preloaded d e =
     (let warm = (d < bt_start e)
      in bind_res (leave_warmup hk warm e) (\<lambda>e1.
         let e2 = (if warm then e1 else land_sells d (land_cash d e1));
             real_bars = loaded_bars store preloaded d e2;
             bars = (if real_bars = [] \<and> \<not> bt_daily_mode e2 then carried_bars d e2 else real_bars);
             e3 = reset_session warm bars (real_bars \<noteq> []) d e2
         in if bars = [] then open_without_bar d e3 else open_with_bars d e3))"

section \<open>One bar end\<close>

definition withdraw_sell :: "callback \<Rightarrow> sym \<times> int \<Rightarrow> obook \<Rightarrow> obook res" where
  "withdraw_sell cb sq b =
     (let held = pos (ob_sleeve b) (fst sq);
          q = (if 0 < held then min (snd sq) held else 0);
          px = dget_or (prices b) (fst sq) 0
      in if q \<le> 0 \<or> px \<le> 0 then Inr (notice b)
         else bind_res (market cb b (fst sq) (- q) px ''withdraw'') (\<lambda>(_, b'). Inr b'))"

definition place_withdraw_sells :: "'u hooks \<Rightarrow> 'u backtest \<Rightarrow> 'u backtest res" where
  "place_withdraw_sells hk e =
     on_algo (book_algo (fold_res (withdraw_sell (hk_order hk)) (bt_sells_due e))) (e\<lparr>bt_sells_due := []\<rparr>)"

fun run_due :: "'u hooks \<Rightarrow> day \<Rightarrow> ms option \<Rightarrow> (ms \<times> sched_event) list \<Rightarrow> 'u backtest \<Rightarrow> 'u backtest res" where
  "run_due hk d limit_ms [] e = Inr e"
| "run_due hk d limit_ms ((t, ev) # evs) e =
     (if (case limit_ms of None \<Rightarrow> False | Some u \<Rightarrow> u < t) then Inr e
      else bind_res (on_algo (hk_event hk (se_cb ev)) (upd_algo (set_ms d t) e)) (\<lambda>e'.
           unless_quit (run_due hk d limit_ms evs) e'))"

definition run_pre_bar_events :: "'u hooks \<Rightarrow> day \<Rightarrow> ms option \<Rightarrow> 'u backtest \<Rightarrow> 'u backtest res" where
  "run_pre_bar_events hk d limit_ms e =
     (let close_ms = snd (clock (book_of e))
      in bind_res (run_due hk d limit_ms (bt_pre_events e) e)
           (unless_quit (\<lambda>e'. Inr (upd_algo (set_ms d close_ms) e'))))"

definition apply_bar :: "'u hooks \<Rightarrow> day \<Rightarrow> ms \<Rightarrow> sym \<times> nat \<Rightarrow> 'u backtest \<Rightarrow> 'u backtest res" where
  "apply_bar hk d t si e =
     bind_res (bar_at e si) (\<lambda>b. bind_res (span_at e (fst si)) (\<lambda>sp.
       let s = fst si; tb = trade_bar_of s d t sp b
       in on_algo (\<lambda>a. bind_res (quote_bar s b a) (\<lambda>a1.
            let a2 = feed_indicators (minute_sample s tb) s a1;
                a3 = (if bt_daily_lean e
                      then feed_indicators (daily_sample s d (dget_or (bt_day_bars e) s [])) s a2 else a2)
            in feed_consolidators hk s tb a3)) (e\<lparr>bt_slice := dput (bt_slice e) s tb\<rparr>)))"

definition check_bar ::
  "'u hooks \<Rightarrow> (day \<times> ms) option \<Rightarrow> sym \<times> nat \<Rightarrow> 'u backtest \<Rightarrow> 'u backtest res" where
  "check_bar hk exclude si e =
     bind_res (bar_at e si) (\<lambda>b.
       on_algo (book_algo (\<lambda>k. check_resting (hk_order hk) k (fst si) (b_open b) (b_high b) (b_low b) (b_close b) exclude)) e)"

definition session_opens :: "entries \<Rightarrow> 'u backtest \<Rightarrow> (sym, pyfloat) dict res" where
  "session_opens entries e =
     fold_res (\<lambda>si d. bind_res (bar_at e si) (\<lambda>b. Inr (dput d (fst si) (b_open b)))) entries []"

definition fill_market_on_open :: "'u hooks \<Rightarrow> entries \<Rightarrow> 'u backtest \<Rightarrow> 'u backtest res" where
  "fill_market_on_open hk entries e =
     bind_res (session_opens entries e) (\<lambda>opens.
       on_algo (book_algo (\<lambda>b. fill_at_session_edge (hk_order hk) b MARKET_ON_OPEN opens
         (if bt_daily_lean e then Some (fst (clock b)) else None))) e)"

definition fill_edge :: "'u hooks \<Rightarrow> order_type \<Rightarrow> 'u backtest \<Rightarrow> 'u backtest res" where
  "fill_edge hk kind = on_algo (book_algo (\<lambda>b. fill_at_session_edge (hk_order hk) b kind (prices b) None))"

definition call_on_data :: "'u hooks \<Rightarrow> 'u backtest \<Rightarrow> 'u backtest res" where
  "call_on_data hk e =
     (let e1 = upd_algo (\<lambda>a. a\<lparr>al_slice := bt_slice e, al_market_open := True\<rparr>) e
      in case hk_on_data hk of None \<Rightarrow> Inr e1 | Some f \<Rightarrow> on_algo f e1)"

definition due_at :: "ms \<Rightarrow> ms \<Rightarrow> ms \<Rightarrow> (ms \<times> sched_event) list \<Rightarrow> sched_event list" where
  "due_at prev_t primed t evs = map snd (filter (\<lambda>x. prev_t < fst x \<and> fst x \<le> t \<and> primed < fst x) evs)"

definition run_events :: "'u hooks \<Rightarrow> sched_event list \<Rightarrow> 'u backtest \<Rightarrow> 'u backtest res" where
  "run_events hk evs = fold_res (\<lambda>ev. on_algo (hk_event hk (se_cb ev))) evs"

definition mark_invested :: "sym list \<Rightarrow> 'u algo \<Rightarrow> 'u algo" where
  "mark_invested syms a =
     a\<lparr>al_invested := foldl (\<lambda>d s. dput d s (pos (ob_sleeve (re_book a)) s \<noteq> 0)) (al_invested a) syms\<rparr>"

definition when_do :: "bool \<Rightarrow> ('s \<Rightarrow> 's res) \<Rightarrow> 's \<Rightarrow> 's res" where
  "when_do c f s = (if c then f s else Inr s)"

text \<open>Up to and including the handlers of the bar.\<close>

definition take_bars :: "'u hooks \<Rightarrow> day \<Rightarrow> ms \<Rightarrow> entries \<Rightarrow> 'u backtest \<Rightarrow> 'u backtest res" where
  "take_bars hk d t entries e =
     bind_res (fold_res (apply_bar hk d t) entries (e\<lparr>bt_slice := []\<rparr>)) (\<lambda>e1.
     bind_res (when_do (\<not> bt_first_done e1 \<and> \<not> bt_warm e1 \<and> bt_lean_edges e1 \<and> \<not> bt_carried e1)
                 (fill_market_on_open hk entries) e1) (\<lambda>e2.
     bind_res (when_do (\<not> bt_carried e2)
                 (fold_res (check_bar hk (if t \<le> bt_primed e2 then Some (d, t) else None)) entries) e2) (\<lambda>e3.
     bind_res (when_do (bt_daily_lean e3 \<and> \<not> bt_carried e3) (fill_edge hk MARKET_ON_CLOSE) e3)
       (call_on_data hk))))"

text \<open>The scheduled events of the bar and the second look at the resting orders.\<close>

definition after_bars :: "'u hooks \<Rightarrow> day \<Rightarrow> ms \<Rightarrow> entries \<Rightarrow> 'u backtest \<Rightarrow> 'u backtest res" where
  "after_bars hk d t entries e =
     bind_res (when_do (\<not> bt_warm e) (run_events hk (due_at (bt_prev_t e) (bt_primed e) t (bt_day_events e))) e) (\<lambda>e1.
     bind_res (when_do (\<not> bt_carried e1) (fold_res (check_bar hk (Some (d, t))) entries) e1) (\<lambda>e2.
     let e3 = upd_algo (mark_invested (bt_syms e2)) e2
     in bind_res (when_do (\<not> bt_first_done e3 \<and> (bt_warm e3 \<or> \<not> bt_lean_edges e3) \<and> \<not> bt_carried e3)
                    (fill_edge hk MARKET_ON_OPEN) e3) (\<lambda>e4.
        Inr (e4\<lparr>bt_first_done := True, bt_prev_t := t\<rparr>))))"

definition open_events :: "'u hooks \<Rightarrow> day \<Rightarrow> 'u backtest \<Rightarrow> (bool \<times> 'u backtest) res" where
  "open_events hk d e =
     (if bt_daily_lean e \<and> \<not> bt_first_done e \<and> \<not> bt_warm e
      then bind_res (run_pre_bar_events hk d None e) (\<lambda>e'. Inr (al_quit (bt_algo e'), e'))
      else Inr (False, e))"

definition step_bar :: "'u hooks \<Rightarrow> day \<Rightarrow> ms \<Rightarrow> entries \<Rightarrow> 'u backtest \<Rightarrow> 'u backtest res" where
  "step_bar hk d t entries e =
     (let e0 = upd_algo (set_ms d t) e
      in bind_res (when_do (bt_sells_due e0 \<noteq> [] \<and> \<not> bt_warm e0) (place_withdraw_sells hk) e0) (\<lambda>e1.
         bind_res (open_events hk d e1) (\<lambda>(stop, e2).
         if stop then Inr e2
         else bind_res (take_bars hk d t entries e2) (unless_quit (after_bars hk d t entries)))))"

section \<open>Closing a session\<close>

definition close_symbol :: "'u hooks \<Rightarrow> day \<Rightarrow> sym \<times> day_bars \<Rightarrow> 'u backtest \<Rightarrow> 'u backtest res" where
  "close_symbol hk d sb e =
     on_algo (\<lambda>a. bind_res (flush_consolidators hk (fst sb) a) (\<lambda>a1.
       Inr (if bt_daily_lean e then a1
            else feed_indicators (daily_sample (fst sb) d (snd sb)) (fst sb) a1))) e"

definition end_of_day :: "'u hooks \<Rightarrow> sym list \<Rightarrow> 'u algo \<Rightarrow> 'u algo res" where
  "end_of_day hk syms a =
     (case hk_end_of_day hk of EodPlain f \<Rightarrow> f a | EodPerSymbol f \<Rightarrow> fold_res f syms a)"

definition end_session :: "'u hooks \<Rightarrow> day \<Rightarrow> 'u backtest \<Rightarrow> 'u backtest res" where
  "end_session hk d e =
     bind_res (when_do (\<not> bt_carried e \<and> \<not> bt_daily_lean e) (fill_edge hk MARKET_ON_CLOSE) e) (\<lambda>e1.
     bind_res (fold_res (close_symbol hk d) (bt_day_bars e1) e1) (\<lambda>e2.
     bind_res (on_algo (hk_time_step hk) e2) (\<lambda>e3.
     bind_res (on_algo (end_of_day hk (dkeys (bt_day_bars e3))) e3) (\<lambda>e4.
     Inr (upd_algo (\<lambda>a. (if bt_warm e4 then a else mark_equity d a)\<lparr>al_market_open := False\<rparr>) e4)))))"

section \<open>The walk over the sessions\<close>

definition ends_of :: "'u backtest \<Rightarrow> (ms \<times> (sym \<times> nat)) list" where
  "ends_of e =
     concat (map (\<lambda>(s, b). map (\<lambda>i. (b_start (b ! i) + dget_or (bt_spans e) s 0, (s, i))) [0..<length b]) (bt_day_bars e))"

definition timeline :: "(ms \<times> (sym \<times> nat)) list \<Rightarrow> (ms \<times> entries) list" where
  "timeline es = map (\<lambda>t. (t, map snd (filter (\<lambda>x. fst x = t) es))) (sort (remdups (map fst es)))"

fun walk :: "'u hooks \<Rightarrow> day \<Rightarrow> (ms \<times> entries) list \<Rightarrow> 'u backtest \<Rightarrow> 'u backtest res" where
  "walk hk d [] e = Inr e"
| "walk hk d ((t, es) # evs) e =
     bind_res (step_bar hk d t es e) (unless_quit (walk hk d evs))"

definition partial_session :: "'u hooks \<Rightarrow> day \<Rightarrow> 'u backtest \<Rightarrow> 'u backtest res" where
  "partial_session hk d e =
     (case bt_live_now e of
        None \<Rightarrow> Inl TypeError
      | Some now \<Rightarrow> run_pre_bar_events hk d (Some now) (upd_algo (set_ms d now) e))"

definition run_day :: "'u hooks \<Rightarrow> minute_store \<Rightarrow> day \<Rightarrow> 'u backtest \<Rightarrow> 'u backtest res" where
  "run_day hk store d e =
     bind_res (begin_session hk store None d e) (\<lambda>e1.
       if bt_day_bars e1 = [] then (if bt_partial e1 then partial_session hk d e1 else Inr e1)
       else bind_res (walk hk d (timeline (ends_of e1)) (e1\<lparr>bt_prev_t := - 1\<rparr>)) (end_session hk d))"

fun run_days :: "'u hooks \<Rightarrow> minute_store \<Rightarrow> day list \<Rightarrow> 'u backtest \<Rightarrow> 'u backtest res" where
  "run_days hk store [] e = Inr e"
| "run_days hk store (d # ds) e =
     bind_res (run_day hk store d e) (\<lambda>e'.
       if al_quit (bt_algo e') \<and> (bt_day_bars e' \<noteq> [] \<or> bt_partial e') then Inr e' else run_days hk store ds e')"

definition run_all :: "'u hooks \<Rightarrow> minute_store \<Rightarrow> 'u backtest \<Rightarrow> 'u backtest res" where
  "run_all hk store e =
     bind_res (run_days hk store (bt_sessions e) e) (on_algo (hk_end_of_algorithm hk))"

end
