(* ===== verification/EngineProps.thy ===== *)
theory EngineProps
  imports Engine OrderProps
begin

text \<open>
  What the session loop guarantees around arbitrary user code.  \<open>step_preorder\<close> is the interface of a
  relation between the state before and after: every operation of the loop that keeps it, the loop
  keeps.  Its interpretations: the fields only the driver writes and what a recording strategy noted
  (\<open>calm\<close>), and the order book's contract (\<open>book_step\<close>).
\<close>

section \<open>Relations kept by a run\<close>

definition keeps :: "('s \<Rightarrow> 's \<Rightarrow> bool) \<Rightarrow> ('s \<Rightarrow> 's res) \<Rightarrow> bool" where
  "keeps R f \<longleftrightarrow> (\<forall>s s'. f s = Inr s' \<longrightarrow> R s s')"

lemma keepsD: "keeps R f \<Longrightarrow> f s = Inr s' \<Longrightarrow> R s s'"
  by (simp add: keeps_def)

locale step_preorder =
  fixes R :: "'s \<Rightarrow> 's \<Rightarrow> bool"
  assumes R_refl: "R s s"
    and R_trans: "R s t \<Longrightarrow> R t u \<Longrightarrow> R s u"
begin

lemma keeps_ret: "(\<And>s. R s (g s)) \<Longrightarrow> keeps R (\<lambda>s. Inr (g s))"
  by (auto simp: keeps_def)

lemma keeps_fold: "(\<And>x. x \<in> set xs \<Longrightarrow> keeps R (f x)) \<Longrightarrow> keeps R (fold_res f xs)"
proof (induction xs)
  case (Cons x xs)
  then have "keeps R (f x)" "keeps R (fold_res f xs)" by simp_all
  then show ?case
    unfolding keeps_def using R_trans by (auto simp: bind_res_Inr_iff) blast
qed (simp add: keeps_def R_refl)

lemma keeps_when: "(c \<Longrightarrow> keeps R f) \<Longrightarrow> keeps R (when_do c f)"
  by (cases c) (auto simp: keeps_def when_do_def R_refl)

lemma when_R: "when_do c f s = Inr s' \<Longrightarrow> (c \<Longrightarrow> f s = Inr s' \<Longrightarrow> R s s') \<Longrightarrow> R s s'"
  by (cases c) (auto simp: when_do_def R_refl)

lemma fold_R: "fold_res f xs s = Inr s' \<Longrightarrow> (\<And>x t t'. x \<in> set xs \<Longrightarrow> f x t = Inr t' \<Longrightarrow> R t t') \<Longrightarrow> R s s'"
  using keeps_fold [of xs f] unfolding keeps_def by blast

lemma foldl_R: "(\<And>x t. R t (f t x)) \<Longrightarrow> R s (foldl f s xs)"
proof (induction xs arbitrary: s)
  case (Cons x xs)
  then show ?case using R_trans [of s "f s x"] by simp
qed (simp add: R_refl)

end

section \<open>The contract of user code\<close>

text \<open>\<open>R\<close> relates the algorithm before and after, \<open>B\<close> the book.  The contract asks that the book's
  operations keep \<open>B\<close>, that handlers keep \<open>R\<close>, and that \<open>R\<close> looks at the book, the clock, the quit
  flag and the strategy's own attributes only.\<close>

locale algo_contract = step_preorder R
  for R :: "'u algo \<Rightarrow> 'u algo \<Rightarrow> bool" +
  fixes hk :: "'u hooks" and B :: "obook \<Rightarrow> obook \<Rightarrow> bool"
  assumes R_frame: "re_book a' = re_book a \<Longrightarrow> al_user a' = al_user a \<Longrightarrow> al_now a' = al_now a \<Longrightarrow>
      al_quit a' = al_quit a \<Longrightarrow> R a a'"
    and R_book: "B (re_book a) b \<Longrightarrow> R a (a\<lparr>re_book := b\<rparr>)"
    and B_quote: "B b (b\<lparr>securities := x, prices := y\<rparr>)"
    and B_edge: "fill_at_session_edge (hk_order hk) b kind ps nc = Inr b' \<Longrightarrow> B b b'"
    and B_check: "check_resting (hk_order hk) b s op h l c ex = Inr b' \<Longrightarrow> B b b'"
    and B_refl: "B b b" and B_trans: "B b1 b2 \<Longrightarrow> B b2 b3 \<Longrightarrow> B b1 b3"
    and B_notice: "B b (notice b)"
    and B_market: "market (hk_order hk) b s q px tag = Inr (i, b') \<Longrightarrow> B b b'"
    and hook_bar: "hk_bar hk n tb a = Inr a' \<Longrightarrow> R a a'"
    and hook_data: "hk_on_data hk = Some f \<Longrightarrow> f a = Inr a' \<Longrightarrow> R a a'"
begin

lemma book_R: "book_algo f a = Inr a' \<Longrightarrow> (\<And>b. f (re_book a) = Inr b \<Longrightarrow> B (re_book a) b) \<Longrightarrow> R a a'"
  by (auto simp: book_algo_def bind_res_Inr_iff intro: R_book)

lemma feed_R: "R a (feed_indicators smp s a)"
  unfolding feed_indicators_def
  by (rule foldl_R) (auto intro!: R_frame R_refl simp: feed_def split: option.splits prod.splits)

lemma put_con_R: "R a (put_con s i c a)"
  by (rule R_frame) (simp_all add: put_con_def)

lemma quote_R:
  assumes "quote_bar s b a = Inr a'"
  shows "R a a'"
proof -
  obtain sec where "dget (securities (re_book a)) s = Some sec"
    using assms by (auto simp: quote_bar_def split: option.splits)
  then have a': "a' = (set_book (\<lambda>k. k\<lparr>securities := dput (securities k) s (sec\<lparr>sec_price := b_close b\<rparr>),
      prices := dput (prices k) s (b_close b)\<rparr>) a)\<lparr>al_quotes := al_quotes a'\<rparr>"
    using assms by (auto simp: quote_bar_def)
  have "R a (set_book (\<lambda>k. k\<lparr>securities := dput (securities k) s (sec\<lparr>sec_price := b_close b\<rparr>),
      prices := dput (prices k) s (b_close b)\<rparr>) a)"
    unfolding set_book_def by (rule R_book) (rule B_quote)
  then show ?thesis by (rule R_trans) (subst a', rule R_frame, simp_all)
qed

lemma con_scan_R:
  assumes "con_scan hk s i a = Inr a'"
  shows "R a a'"
proof (cases "con_at a s i")
  case (Some c)
  show ?thesis
  proof (cases "co_work c")
    case (Some w)
    with \<open>con_at a s i = Some c\<close> assms
    have "fold_res (\<lambda>h. hk_bar hk h w) (co_handlers c) (put_con s i (co_emit c) a) = Inr a'"
      by (simp add: con_scan_def)
    then show ?thesis by (rule R_trans [OF put_con_R fold_R]) (rule hook_bar)
  qed (use assms Some in \<open>simp add: con_scan_def R_refl\<close>)
qed (use assms in \<open>simp add: con_scan_def R_refl\<close>)

lemma con_update_R:
  assumes "con_update hk s b i a = Inr a'"
  shows "R a a'"
proof (cases "con_at a s i")
  case (Some c)
  with assms obtain a1 where a1: "(if bucket_changed b c then con_scan hk s i a else Inr a) = Inr a1"
    and a': "a' = a1 \<or> (\<exists>c1. a' = put_con s i c1 a1)"
    by (auto simp: con_update_def bind_res_Inr_iff split: option.splits)
  have "R a a1" using a1 con_scan_R by (auto simp: R_refl split: if_splits)
  then show ?thesis using a' R_trans put_con_R by blast
qed (use assms in \<open>simp add: con_update_def R_refl\<close>)

lemma feed_cons_R: "feed_consolidators hk s b a = Inr a' \<Longrightarrow> R a a'"
  unfolding feed_consolidators_def by (erule fold_R) (rule con_update_R)

lemma flush_cons_R: "flush_consolidators hk s a = Inr a' \<Longrightarrow> R a a'"
  unfolding flush_consolidators_def by (erule fold_R) (rule con_scan_R)

lemma bars_R:
  assumes "bind_res (quote_bar s b a) (\<lambda>a1. feed_consolidators hk s tb
    (let a2 = feed_indicators m s a1 in if lean then feed_indicators dy s a2 else a2)) = Inr a'"
  shows "R a a'"
proof -
  obtain a1 where q: "quote_bar s b a = Inr a1"
    and f: "feed_consolidators hk s tb (let a2 = feed_indicators m s a1 in if lean then feed_indicators dy s a2 else a2) = Inr a'"
    using assms by (auto simp: bind_res_Inr_iff)
  have "R a1 (let a2 = feed_indicators m s a1 in if lean then feed_indicators dy s a2 else a2)"
    using feed_R R_trans [OF feed_R feed_R] by (simp add: Let_def)
  then show ?thesis using quote_R [OF q] feed_cons_R [OF f] R_trans by blast
qed

lemma invested_R: "R a (mark_invested syms a)"
  by (rule R_frame) (simp_all add: mark_invested_def)

end

text \<open>The same for the whole state: the session's own fields stay, the algorithm moves along \<open>R\<close>.\<close>

definition same_session :: "'u backtest \<Rightarrow> 'u backtest \<Rightarrow> bool" where
  "same_session e e' \<longleftrightarrow>
     bt_day_events e' = bt_day_events e \<and> bt_prev_t e' = bt_prev_t e \<and> bt_primed e' = bt_primed e
     \<and> bt_warm e' = bt_warm e \<and> bt_daily_lean e' = bt_daily_lean e \<and> bt_day_bars e' = bt_day_bars e
     \<and> bt_spans e' = bt_spans e \<and> bt_carried e' = bt_carried e \<and> bt_first_done e' = bt_first_done e
     \<and> bt_lean_edges e' = bt_lean_edges e \<and> bt_syms e' = bt_syms e"

definition along :: "('u algo \<Rightarrow> 'u algo \<Rightarrow> bool) \<Rightarrow> 'u backtest \<Rightarrow> 'u backtest \<Rightarrow> bool" where
  "along R e e' \<longleftrightarrow> same_session e e' \<and> R (bt_algo e) (bt_algo e')"

lemma on_algo_along: "on_algo f e = Inr e' \<Longrightarrow> (\<And>a. f (bt_algo e) = Inr a \<Longrightarrow> R (bt_algo e) a) \<Longrightarrow> along R e e'"
  by (auto simp: on_algo_def bind_res_Inr_iff along_def same_session_def)

context algo_contract
begin

lemma along_preorder: "step_preorder (along R)"
  by unfold_locales (auto simp: along_def same_session_def R_refl intro: R_trans)

lemmas al_trans = step_preorder.R_trans [OF along_preorder]
lemmas al_refl = step_preorder.R_refl [OF along_preorder]
lemmas al_fold = step_preorder.fold_R [OF along_preorder]
lemmas al_when = step_preorder.when_R [OF along_preorder]

lemma al_book: "on_algo (book_algo f) e = Inr e' \<Longrightarrow> (\<And>b b'. f b = Inr b' \<Longrightarrow> B b b') \<Longrightarrow> along R e e'"
  by (erule on_algo_along) (erule book_R, blast)

lemma apply_bar_along: "apply_bar hk d t si e = Inr e' \<Longrightarrow> along R e e'"
proof -
  assume "apply_bar hk d t si e = Inr e'"
  then obtain b sp where "on_algo (\<lambda>a. bind_res (quote_bar (fst si) b a) (\<lambda>a1. feed_consolidators hk (fst si)
      (trade_bar_of (fst si) d t sp b)
      (let a2 = feed_indicators (minute_sample (fst si) (trade_bar_of (fst si) d t sp b)) (fst si) a1
       in if bt_daily_lean e then feed_indicators (daily_sample (fst si) d (dget_or (bt_day_bars e) (fst si) [])) (fst si) a2
          else a2))) (e\<lparr>bt_slice := dput (bt_slice e) (fst si) (trade_bar_of (fst si) d t sp b)\<rparr>) = Inr e'"
    by (auto simp: apply_bar_def bind_res_Inr_iff Let_def)
  then have "along R (e\<lparr>bt_slice := dput (bt_slice e) (fst si) (trade_bar_of (fst si) d t sp b)\<rparr>) e'"
    by (rule on_algo_along) (rule bars_R)
  then show ?thesis by (simp add: along_def same_session_def)
qed

lemma check_bar_along: "check_bar hk ex si e = Inr e' \<Longrightarrow> along R e e'"
  unfolding check_bar_def by (auto simp: bind_res_Inr_iff elim!: al_book intro: B_check)

lemma open_fill_along: "fill_market_on_open hk es e = Inr e' \<Longrightarrow> along R e e'"
  unfolding fill_market_on_open_def by (auto simp: bind_res_Inr_iff elim!: al_book intro: B_edge)

lemma edge_along: "fill_edge hk kind e = Inr e' \<Longrightarrow> along R e e'"
  unfolding fill_edge_def by (auto elim!: al_book intro: B_edge)

lemma data_along: "call_on_data hk e = Inr e' \<Longrightarrow> along R e e'"
proof -
  let ?e = "upd_algo (\<lambda>a. a\<lparr>al_slice := bt_slice e, al_market_open := True\<rparr>) e"
  assume r: "call_on_data hk e = Inr e'"
  have "along R e ?e"
    by (simp add: along_def same_session_def upd_algo_def) (rule R_frame, simp_all)
  moreover have "along R ?e e'"
  proof (cases "hk_on_data hk")
    case (Some f)
    then show ?thesis
      using r by (auto simp: call_on_data_def Let_def intro: hook_data elim!: on_algo_along)
  qed (use r in \<open>simp add: call_on_data_def Let_def al_refl\<close>)
  ultimately show ?thesis by (rule al_trans)
qed

lemma take_bars_along: "take_bars hk d t es e = Inr e' \<Longrightarrow> along R e e'"
proof -
  assume "take_bars hk d t es e = Inr e'"
  then obtain e1 e2 e3 e4 where s: "fold_res (apply_bar hk d t) es (e\<lparr>bt_slice := []\<rparr>) = Inr e1"
    "when_do (\<not> bt_first_done e1 \<and> \<not> bt_warm e1 \<and> bt_lean_edges e1 \<and> \<not> bt_carried e1) (fill_market_on_open hk es) e1 = Inr e2"
    "when_do (\<not> bt_carried e2) (fold_res (check_bar hk (if t \<le> bt_primed e2 then Some (d, t) else None)) es) e2 = Inr e3"
    "when_do (bt_daily_lean e3 \<and> \<not> bt_carried e3) (fill_edge hk MARKET_ON_CLOSE) e3 = Inr e4"
    "call_on_data hk e4 = Inr e'"
    by (auto simp: take_bars_def bind_res_Inr_iff)
  have "along R e (e\<lparr>bt_slice := []\<rparr>)" by (simp add: along_def same_session_def R_refl)
  moreover have "along R (e\<lparr>bt_slice := []\<rparr>) e1" using s(1) by (rule al_fold) (rule apply_bar_along)
  moreover have "along R e1 e2" using s(2) by (rule al_when) (rule open_fill_along)
  moreover have "along R e2 e3" using s(3) by (rule al_when) (erule al_fold, rule check_bar_along)
  moreover have "along R e3 e4" using s(4) by (rule al_when) (rule edge_along)
  moreover have "along R e4 e'" using s(5) by (rule data_along)
  ultimately show ?thesis using al_trans by blast
qed

lemma withdraw_along: "place_withdraw_sells hk e = Inr e' \<Longrightarrow> along R e e'"
proof -
  assume "place_withdraw_sells hk e = Inr e'"
  then have "along R (e\<lparr>bt_sells_due := []\<rparr>) e'"
    unfolding place_withdraw_sells_def
  proof (rule al_book)
    fix b b' assume "fold_res (withdraw_sell (hk_order hk)) (bt_sells_due e) b = Inr b'"
    then show "B b b'"
      by (rule step_preorder.fold_R [rotated])
         (auto simp: withdraw_sell_def Let_def B_notice bind_res_Inr_iff intro: B_market B_refl B_trans step_preorder.intro
           split: if_splits)
  qed
  then show ?thesis by (simp add: along_def same_session_def)
qed

text \<open>What follows the handlers of a bar.\<close>

lemma after_bars_along:
  assumes "after_bars hk d t es e = Inr e'"
  obtains e1 e2 where
    "when_do (\<not> bt_warm e) (run_events hk (due_at (bt_prev_t e) (bt_primed e) t (bt_day_events e))) e = Inr e1"
    "along R e1 e2" "e' = e2\<lparr>bt_first_done := True, bt_prev_t := t\<rparr>"
proof -
  obtain e1 e2 e4 where s:
    "when_do (\<not> bt_warm e) (run_events hk (due_at (bt_prev_t e) (bt_primed e) t (bt_day_events e))) e = Inr e1"
    "when_do (\<not> bt_carried e1) (fold_res (check_bar hk (Some (d, t))) es) e1 = Inr e2"
    "when_do (\<not> bt_first_done e2 \<and> (bt_warm e2 \<or> \<not> bt_lean_edges e2) \<and> \<not> bt_carried e2)
       (fill_edge hk MARKET_ON_OPEN) (upd_algo (mark_invested (bt_syms e2)) e2) = Inr e4"
    "e' = e4\<lparr>bt_first_done := True, bt_prev_t := t\<rparr>"
    using assms by (auto simp: after_bars_def bind_res_Inr_iff Let_def upd_algo_def)
  have "along R e1 e2" using s(2) by (rule al_when) (erule al_fold, rule check_bar_along)
  moreover have "along R e2 (upd_algo (mark_invested (bt_syms e2)) e2)"
    by (simp add: along_def same_session_def upd_algo_def invested_R)
  moreover have "along R (upd_algo (mark_invested (bt_syms e2)) e2) e4"
    using s(3) by (rule al_when) (rule edge_along)
  ultimately have "along R e1 e4" using al_trans by blast
  with s(1,4) that show thesis by blast
qed

text \<open>A bar of a session without pre-bar events: the clock, then the bar, then the events it reaches.\<close>

lemma step_bar_along:
  assumes "step_bar hk d t es e = Inr e'" "\<not> (bt_daily_lean e \<and> \<not> bt_first_done e \<and> \<not> bt_warm e)"
  obtains e2 where "along R (upd_algo (set_ms d t) e) e2"
    "(if al_quit (bt_algo e2) then Inr e2 else after_bars hk d t es e2) = Inr e'"
proof -
  let ?e = "upd_algo (set_ms d t) e"
  obtain e1 where e1: "when_do (bt_sells_due ?e \<noteq> [] \<and> \<not> bt_warm ?e) (place_withdraw_sells hk) ?e = Inr e1"
    and r: "bind_res (open_events hk d e1) (\<lambda>(stop, e2). if stop then Inr e2
      else bind_res (take_bars hk d t es e2) (unless_quit (after_bars hk d t es))) = Inr e'"
    using assms(1) by (auto simp: step_bar_def bind_res_Inr_iff Let_def)
  have a1: "along R ?e e1" using e1 by (rule al_when) (rule withdraw_along)
  then have "open_events hk d e1 = Inr (False, e1)"
    using assms(2) by (auto simp: open_events_def along_def same_session_def upd_algo_def)
  with r obtain e2 where e2: "take_bars hk d t es e1 = Inr e2" "unless_quit (after_bars hk d t es) e2 = Inr e'"
    by (auto simp: bind_res_Inr_iff)
  have "along R ?e e2" using al_trans [OF a1 take_bars_along [OF e2(1)]] .
  moreover have "(if al_quit (bt_algo e2) then Inr e2 else after_bars hk d t es e2) = Inr e'"
    using e2(2) by (simp add: unless_quit_def)
  ultimately show thesis by (rule that)
qed

end

section \<open>Every scheduled event runs once\<close>

type_synonym note_log = "(nat \<times> day \<times> ms) list"

definition same_notes :: "'u algo \<Rightarrow> 'u algo \<Rightarrow> bool" where
  "same_notes a a' \<longleftrightarrow> al_user a' = al_user a \<and> al_now a' = al_now a \<and> al_quit a' = al_quit a"

text \<open>A strategy whose scheduled handlers note their number and the time, and whose other handlers are
  any code that leaves the notes, the clock and the quit flag alone.\<close>

definition recorder :: "note_log hooks \<Rightarrow> bool" where
  "recorder hk \<longleftrightarrow>
     (\<forall>n a. hk_event hk n a = Inr (a\<lparr>al_user := al_user a @ [(n, al_now a)]\<rparr>))
     \<and> (\<forall>f. hk_on_data hk = Some f \<longrightarrow> keeps same_notes f)
     \<and> (\<forall>n b. keeps same_notes (hk_bar hk n b))"

lemma recorder_contract: "recorder hk \<Longrightarrow> algo_contract same_notes hk (\<lambda>_ _. True)"
  by unfold_locales (auto simp: recorder_def keeps_def same_notes_def)

definition recording :: "callback \<Rightarrow> note_log hooks" where
  "recording cb =
     \<lparr>hk_on_data = None, hk_event = (\<lambda>n a. Inr (a\<lparr>al_user := al_user a @ [(n, al_now a)]\<rparr>)),
      hk_bar = (\<lambda>n b a. Inr a), hk_order = cb, hk_warmup_finished = Inr, hk_time_step = Inr,
      hk_end_of_day = EodPlain Inr, hk_end_of_algorithm = Inr\<rparr>"

lemma recording_recorder: "recorder (recording cb)"
  by (simp add: recorder_def recording_def keeps_def same_notes_def)

interpretation recording: algo_contract same_notes "recording cb" "\<lambda>_ _. True" for cb
  by (rule recorder_contract) (rule recording_recorder)

lemma run_events_recorded:
  assumes "recorder hk" "run_events hk evs e = Inr e'"
  shows "same_session e e' \<and> al_now (bt_algo e') = al_now (bt_algo e) \<and> al_quit (bt_algo e') = al_quit (bt_algo e)
    \<and> al_user (bt_algo e') = al_user (bt_algo e) @ map (\<lambda>ev. (se_cb ev, al_now (bt_algo e))) evs"
  using assms(2)
proof (induction evs arbitrary: e)
  case (Cons ev evs)
  then show ?case
    using assms(1) by (auto simp: run_events_def recorder_def on_algo_def same_session_def)
qed (simp add: run_events_def same_session_def)

text \<open>When an event due at \<open>f\<close> runs: at the first bar end that reaches it, unless a bar or a prime did.\<close>

definition fires_at :: "ms \<Rightarrow> ms \<Rightarrow> ms list \<Rightarrow> ms \<Rightarrow> ms option" where
  "fires_at prev_t primed ts f = (if prev_t < f \<and> primed < f then find (\<lambda>t. f \<le> t) ts else None)"

definition session_state_ok :: "'u backtest \<Rightarrow> bool" where
  "session_state_ok e \<longleftrightarrow> \<not> bt_warm e \<and> \<not> bt_daily_lean e \<and> \<not> al_quit (bt_algo e)"

lemma step_bar_recorded:
  assumes rec: "recorder hk" and ok: "session_state_ok e" and r: "step_bar hk d t es e = Inr e'"
  shows "session_state_ok e' \<and> bt_prev_t e' = t \<and> bt_day_events e' = bt_day_events e \<and> bt_primed e' = bt_primed e
    \<and> al_user (bt_algo e') = al_user (bt_algo e)
        @ map (\<lambda>ev. (se_cb ev, d, t)) (due_at (bt_prev_t e) (bt_primed e) t (bt_day_events e))"
proof -
  note contract = recorder_contract [OF rec]
  obtain e2 where e2: "along same_notes (upd_algo (set_ms d t) e) e2"
    "(if al_quit (bt_algo e2) then Inr e2 else after_bars hk d t es e2) = Inr e'"
    using algo_contract.step_bar_along [OF contract r] ok by (auto simp: session_state_ok_def)
  then have f2: "bt_prev_t e2 = bt_prev_t e" "bt_primed e2 = bt_primed e" "bt_day_events e2 = bt_day_events e"
    "\<not> bt_warm e2" "\<not> bt_daily_lean e2" "al_user (bt_algo e2) = al_user (bt_algo e)"
    "al_now (bt_algo e2) = (d, t)" "\<not> al_quit (bt_algo e2)"
    using ok by (auto simp: along_def same_session_def same_notes_def session_state_ok_def upd_algo_def set_ms_def set_book_def)
  with e2(2) have "after_bars hk d t es e2 = Inr e'" by simp
  then obtain e3 e4 where
    "when_do (\<not> bt_warm e2) (run_events hk (due_at (bt_prev_t e2) (bt_primed e2) t (bt_day_events e2))) e2 = Inr e3"
    and e4: "along same_notes e3 e4" "e' = e4\<lparr>bt_first_done := True, bt_prev_t := t\<rparr>"
    by (rule algo_contract.after_bars_along [OF contract])
  then have "run_events hk (due_at (bt_prev_t e) (bt_primed e) t (bt_day_events e)) e2 = Inr e3"
    using f2 by (simp add: when_do_def)
  from run_events_recorded [OF rec this] e4 f2 show ?thesis
    by (auto simp: along_def same_session_def same_notes_def session_state_ok_def)
qed

lemma fires_at_step:
  assumes "prev_t < t" "sorted_wrt (<) (t # ts)"
  shows "fires_at prev_t primed (t # ts) f =
    (if prev_t < f \<and> f \<le> t \<and> primed < f then Some t else fires_at t primed ts f)"
  using assms by (auto simp: fires_at_def)

lemma fires_at_member: "fires_at p q ts f = Some t \<Longrightarrow> t \<in> set ts"
  by (auto simp: fires_at_def find_Some_iff split: if_splits)

lemma walk_notes:
  assumes "recorder hk" and "session_state_ok e" and "sorted_wrt (<) (map fst bars)"
    and "\<forall>t\<in>set (map fst bars). bt_prev_t e < t" and "walk hk d bars e = Inr e'"
  shows "al_user (bt_algo e') = al_user (bt_algo e)
    @ concat (map (\<lambda>t. map (\<lambda>x. (se_cb (snd x), d, t))
        (filter (\<lambda>x. fires_at (bt_prev_t e) (bt_primed e) (map fst bars) (fst x) = Some t) (bt_day_events e))) (map fst bars))"
  using assms(2-)
proof (induction bars arbitrary: e)
  case (Cons te bars)
  obtain t es where te: "te = (t, es)" by (cases te)
  obtain e1 where s: "step_bar hk d t es e = Inr e1" "unless_quit (walk hk d bars) e1 = Inr e'"
    using Cons.prems(4) by (auto simp: te bind_res_Inr_iff)
  note st = step_bar_recorded [OF assms(1) Cons.prems(1) s(1)]
  have w: "walk hk d bars e1 = Inr e'" using s(2) st by (simp add: unless_quit_def session_state_ok_def)
  have prev: "bt_prev_t e < t" and srt: "sorted_wrt (<) (t # map fst bars)" and later: "\<forall>u\<in>set (map fst bars). t < u"
    using Cons.prems(2,3) by (auto simp: te)
  note IH = Cons.IH [OF _ _ _ w]
  have f: "fires_at (bt_prev_t e) (bt_primed e) (t # map fst bars) x =
      (if bt_prev_t e < x \<and> x \<le> t \<and> bt_primed e < x then Some t else fires_at t (bt_primed e) (map fst bars) x)" for x
    by (rule fires_at_step [OF prev srt])
  have not_t: "fires_at t q (map fst bars) x \<noteq> Some t" for q x
    using fires_at_member [of t q "map fst bars" x t] later by auto
  have here: "filter (\<lambda>x. fires_at (bt_prev_t e) (bt_primed e) (t # map fst bars) (fst x) = Some t) (bt_day_events e)
      = filter (\<lambda>x. bt_prev_t e < fst x \<and> fst x \<le> t \<and> bt_primed e < fst x) (bt_day_events e)"
    unfolding f using not_t by (intro filter_cong) auto
  have there: "filter (\<lambda>x. fires_at (bt_prev_t e) (bt_primed e) (t # map fst bars) (fst x) = Some u) (bt_day_events e)
      = filter (\<lambda>x. fires_at t (bt_primed e) (map fst bars) (fst x) = Some u) (bt_day_events e)"
    if "u \<in> set (map fst bars)" for u
    unfolding f using later that prev by (intro filter_cong) (auto simp: fires_at_def find_Some_iff split: if_splits)
  have "al_user (bt_algo e') = al_user (bt_algo e1)
    @ concat (map (\<lambda>u. map (\<lambda>x. (se_cb (snd x), d, u))
        (filter (\<lambda>x. fires_at t (bt_primed e) (map fst bars) (fst x) = Some u) (bt_day_events e))) (map fst bars))"
    using IH st Cons.prems(2) later by (simp add: te)
  also have "map (\<lambda>u. map (\<lambda>x. (se_cb (snd x), d, u))
        (filter (\<lambda>x. fires_at t (bt_primed e) (map fst bars) (fst x) = Some u) (bt_day_events e))) (map fst bars)
      = map (\<lambda>u. map (\<lambda>x. (se_cb (snd x), d, u))
        (filter (\<lambda>x. fires_at (bt_prev_t e) (bt_primed e) (t # map fst bars) (fst x) = Some u) (bt_day_events e))) (map fst bars)"
    by (intro map_cong refl) (simp only: there)
  finally show ?case
    using st by (simp add: te here due_at_def o_def)
qed simp

text \<open>C8: In a session that runs its events after the bars, every scheduled event that is due runs exactly
  once, at the first bar end at or after its time and with the clock reading that bar end, whatever the
  strategy's other handlers do; an event past the last bar, or already run by a prime, does not run.\<close>

theorem events_run_once:
  assumes "recorder hk" and "session_state_ok e" and "sorted_wrt (<) (map fst bars)"
    and "\<forall>t\<in>set (map fst bars). bt_prev_t e < t" and "walk hk d bars e = Inr e'"
  shows "al_user (bt_algo e') = al_user (bt_algo e)
    @ concat (map (\<lambda>t. map (\<lambda>x. (se_cb (snd x), d, t))
        (filter (\<lambda>x. fires_at (bt_prev_t e) (bt_primed e) (map fst bars) (fst x) = Some t) (bt_day_events e))) (map fst bars))"
  by (rule walk_notes [OF assms])

section \<open>The order book through a run\<close>

definition book_step :: "obook \<Rightarrow> obook \<Rightarrow> bool" where
  "book_step b b' \<longleftrightarrow> (book_ok b \<longrightarrow> good b b')"

definition algo_step :: "'u algo \<Rightarrow> 'u algo \<Rightarrow> bool" where
  "algo_step a a' \<longleftrightarrow> book_step (re_book a) (re_book a')"

definition run_step :: "'u backtest \<Rightarrow> 'u backtest \<Rightarrow> bool" where
  "run_step e e' \<longleftrightarrow> algo_step (bt_algo e) (bt_algo e')"

lemma book_step_refl: "book_step b b"
  by (simp add: book_step_def good_refl)

lemma book_step_trans: "book_step a b \<Longrightarrow> book_step b c \<Longrightarrow> book_step a c"
  unfolding book_step_def using good_trans good_ok by blast

lemma book_step_frame:
  assumes "tickets b' = tickets b" "open_ids b' = open_ids b" "next_id b' = next_id b"
    "qty (ob_sleeve b') = qty (ob_sleeve b)" "fills_log (ob_sleeve b') = fills_log (ob_sleeve b)"
    "books (ob_sleeve b) \<Longrightarrow> books (ob_sleeve b')"
  shows "book_step b b'"
  using assms by (auto simp: book_step_def good_def book_ok_def evolves_def)

interpretation run: step_preorder run_step
  by unfold_locales
    (auto simp: run_step_def algo_step_def book_step_refl intro: book_step_trans)

text \<open>The contract of a strategy: each of its handlers leaves the book as the book's own operations do.\<close>

definition lawful :: "'u hooks \<Rightarrow> bool" where
  "lawful hk \<longleftrightarrow>
     handler_ok (hk_order hk)
     \<and> (\<forall>f. hk_on_data hk = Some f \<longrightarrow> keeps algo_step f)
     \<and> (\<forall>n. keeps algo_step (hk_event hk n))
     \<and> (\<forall>n b. keeps algo_step (hk_bar hk n b))
     \<and> keeps algo_step (hk_warmup_finished hk) \<and> keeps algo_step (hk_time_step hk)
     \<and> keeps algo_step (hk_end_of_algorithm hk)
     \<and> (case hk_end_of_day hk of EodPlain f \<Rightarrow> keeps algo_step f | EodPerSymbol f \<Rightarrow> (\<forall>s. keeps algo_step (f s)))"

lemma lawful_contract:
  assumes "lawful hk"
  shows "algo_contract algo_step hk book_step"
proof -
  have h: "order_handler (hk_order hk)"
    using assms by (simp add: lawful_def handler_ok_locale)
  have B: "fill_at_session_edge (hk_order hk) b kind ps nc = Inr b' \<Longrightarrow> book_step b b'"
    "check_resting (hk_order hk) b s op h l c ex = Inr b' \<Longrightarrow> book_step b b'"
    "market (hk_order hk) b s q px tag = Inr (i, b') \<Longrightarrow> book_step b b'" "book_step b (notice b)"
    for b b' kind ps nc s op h l c ex q px tag i
    using order_handler.session_edge_good [OF h] order_handler.check_resting_good [OF h]
      order_handler.market_good [OF h] order_handler.notice_good [OF h]
    by (auto simp: book_step_def)
  have T: "book_step a b \<Longrightarrow> book_step b c \<Longrightarrow> book_step a c" for a b c by (rule book_step_trans)
  have hooks: "hk_bar hk n tb a = Inr a' \<Longrightarrow> algo_step a a'"
    "hk_on_data hk = Some f \<Longrightarrow> f a = Inr a' \<Longrightarrow> algo_step a a'" for n tb a a' f
    using assms by (auto simp: lawful_def keeps_def)
  show ?thesis
    by unfold_locales (use B hooks in \<open>auto simp: algo_step_def book_step_refl intro: book_step_frame dest: T\<close>)
qed

lemma set_ms_step: "algo_step a (set_ms d t a)" "algo_step a (set_day d a)"
  by (auto simp: algo_step_def set_ms_def set_day_def set_book_def intro!: book_step_frame)

lemma on_algo_run: "on_algo f e = Inr e' \<Longrightarrow> keeps algo_step f \<Longrightarrow> run_step e e'"
  by (auto simp: on_algo_def bind_res_Inr_iff run_step_def keeps_def)

lemma along_run: "along algo_step e e' \<Longrightarrow> run_step e e'"
  by (simp add: along_def run_step_def)

lemma run_due_step:
  assumes "lawful hk"
  shows "run_due hk d u evs e = Inr e' \<Longrightarrow> run_step e e'"
proof (induction evs arbitrary: e)
  case (Cons x evs)
  obtain t ev where x: "x = (t, ev)" by (cases x)
  show ?case
  proof (cases "case u of None \<Rightarrow> False | Some v \<Rightarrow> v < t")
    case False
    then obtain e1 where e1: "on_algo (hk_event hk (se_cb ev)) (upd_algo (set_ms d t) e) = Inr e1"
      "unless_quit (run_due hk d u evs) e1 = Inr e'"
      using Cons.prems by (auto simp: x bind_res_Inr_iff)
    have "run_step e (upd_algo (set_ms d t) e)" by (simp add: run_step_def upd_algo_def set_ms_step)
    moreover have "run_step (upd_algo (set_ms d t) e) e1"
      using on_algo_run [OF e1(1)] assms by (simp add: lawful_def)
    moreover have "run_step e1 e'"
      using e1(2) Cons.IH by (auto simp: unless_quit_def run.R_refl split: if_splits)
    ultimately show ?thesis using run.R_trans by blast
  qed (use Cons.prems x run.R_refl in simp)
qed (simp add: run.R_refl)

lemma pre_bar_step:
  assumes "lawful hk" "run_pre_bar_events hk d u e = Inr e'"
  shows "run_step e e'"
proof -
  obtain e1 where "run_due hk d u (bt_pre_events e) e = Inr e1" "e' = e1 \<or> (\<exists>m. e' = upd_algo (set_ms d m) e1)"
    using assms(2) by (auto simp: run_pre_bar_events_def Let_def bind_res_Inr_iff unless_quit_def split: if_splits)
  moreover have "run_step e1 (upd_algo (set_ms d m) e1)" for m
    by (simp add: run_step_def upd_algo_def set_ms_step)
  ultimately show ?thesis using run_due_step [OF assms(1)] run.R_trans by blast
qed

lemma run_events_step: "lawful hk \<Longrightarrow> run_events hk evs e = Inr e' \<Longrightarrow> run_step e e'"
  unfolding run_events_def by (erule run.fold_R) (auto simp: lawful_def intro: on_algo_run)

lemma after_bars_step:
  assumes "lawful hk" "after_bars hk d t es e = Inr e'"
  shows "run_step e e'"
proof -
  obtain e1 e2 where e: "when_do (\<not> bt_warm e) (run_events hk (due_at (bt_prev_t e) (bt_primed e) t (bt_day_events e))) e = Inr e1"
    "along algo_step e1 e2" "e' = e2\<lparr>bt_first_done := True, bt_prev_t := t\<rparr>"
    using assms(2) by (rule algo_contract.after_bars_along [OF lawful_contract [OF assms(1)]])
  have "run_step e e1" using e(1) by (rule run.when_R) (rule run_events_step [OF assms(1)])
  with along_run [OF e(2)] e(3) show ?thesis
    using run.R_trans [of e e1 e2] by (simp add: run_step_def)
qed

lemma upd_algo_step: "(\<And>a. algo_step a (f a)) \<Longrightarrow> run_step e (upd_algo f e)"
  by (simp add: run_step_def upd_algo_def)

lemma step_bar_step:
  assumes "lawful hk" "step_bar hk d t es e = Inr e'"
  shows "run_step e e'"
proof -
  note contract = lawful_contract [OF assms(1)]
  let ?e = "upd_algo (set_ms d t) e"
  obtain e1 stop e2 where s: "when_do (bt_sells_due ?e \<noteq> [] \<and> \<not> bt_warm ?e) (place_withdraw_sells hk) ?e = Inr e1"
    "open_events hk d e1 = Inr (stop, e2)"
    "(if stop then Inr e2 else bind_res (take_bars hk d t es e2) (unless_quit (after_bars hk d t es))) = Inr e'"
    using assms(2) by (auto simp: step_bar_def bind_res_Inr_iff Let_def)
  have "run_step e ?e" by (rule upd_algo_step) (rule set_ms_step)
  moreover have "run_step ?e e1"
    using s(1) by (rule run.when_R) (rule along_run, rule algo_contract.withdraw_along [OF contract])
  moreover have "run_step e1 e2"
    using s(2) pre_bar_step [OF assms(1)] by (auto simp: open_events_def bind_res_Inr_iff run.R_refl split: if_splits)
  moreover have "run_step e2 e'"
  proof (cases stop)
    case False
    then obtain e3 where e3: "take_bars hk d t es e2 = Inr e3" "unless_quit (after_bars hk d t es) e3 = Inr e'"
      using s(3) by (auto simp: bind_res_Inr_iff)
    have "run_step e2 e3" using along_run [OF algo_contract.take_bars_along [OF contract e3(1)]] .
    moreover have "run_step e3 e'"
      using e3(2) after_bars_step [OF assms(1)] by (auto simp: unless_quit_def run.R_refl split: if_splits)
    ultimately show ?thesis by (rule run.R_trans)
  qed (use s(3) run.R_refl in simp)
  ultimately show ?thesis using run.R_trans by blast
qed

lemma walk_step: "lawful hk \<Longrightarrow> walk hk d bars e = Inr e' \<Longrightarrow> run_step e e'"
proof (induction bars arbitrary: e)
  case (Cons x bars)
  obtain t es where x: "x = (t, es)" by (cases x)
  obtain e1 where e1: "step_bar hk d t es e = Inr e1" "unless_quit (walk hk d bars) e1 = Inr e'"
    using Cons.prems by (auto simp: x bind_res_Inr_iff)
  have "run_step e1 e'"
    using e1(2) Cons.IH Cons.prems(1) by (auto simp: unless_quit_def run.R_refl split: if_splits)
  then show ?case using step_bar_step [OF Cons.prems(1) e1(1)] run.R_trans by blast
qed (simp add: run.R_refl)

lemma lands_step: "run_step e (land_sells d (land_cash d e))"
  by (auto simp: run_step_def algo_step_def land_sells_def land_cash_def set_book_def Let_def books_def sleeve_ok_def
      intro!: book_step_frame)

lemma leave_warmup_step:
  assumes "lawful hk" "leave_warmup hk w e = Inr e'"
  shows "run_step e e'"
proof -
  let ?e = "upd_algo (\<lambda>a. (set_book (\<lambda>b. b\<lparr>allow_orders := True\<rparr>) a)\<lparr>al_warming := False\<rparr>) e"
  have "run_step e ?e"
    by (rule upd_algo_step) (auto simp: algo_step_def set_book_def intro!: book_step_frame)
  moreover have "on_algo (hk_warmup_finished hk) ?e = Inr e' \<Longrightarrow> run_step ?e e'"
    using assms(1) by (auto simp: lawful_def intro: on_algo_run)
  ultimately show ?thesis
    using assms(2) run.R_trans by (auto simp: leave_warmup_def run.R_refl split: if_splits)
qed

lemma begin_session_step:
  assumes "lawful hk" "begin_session hk store pre d e = Inr e'"
  shows "run_step e e'"
proof -
  obtain e1 where e1: "leave_warmup hk (d < bt_start e) e = Inr e1"
    and e': "\<exists>e2 w bars fresh. (e2 = e1 \<or> e2 = land_sells d (land_cash d e1))
      \<and> (open_without_bar d (reset_session w bars fresh d e2) = Inr e'
         \<or> open_with_bars d (reset_session w bars fresh d e2) = Inr e')"
    using assms(2) by (auto simp: begin_session_def bind_res_Inr_iff Let_def split: if_splits) blast+
  obtain e2 w bars fresh where e2: "e2 = e1 \<or> e2 = land_sells d (land_cash d e1)"
    and o: "open_without_bar d (reset_session w bars fresh d e2) = Inr e'
         \<or> open_with_bars d (reset_session w bars fresh d e2) = Inr e'"
    using e' by blast
  have flags: "algo_step a (set_book (\<lambda>b. b\<lparr>carried := x, after_close_to_moo := y\<rparr>) (set_day d a))" for a :: "'a algo" and x y
    by (auto simp: algo_step_def set_day_def set_book_def intro!: book_step_frame)
  have "run_step e2 e'"
    using o by (auto simp: open_without_bar_def open_with_bars_def bind_res_Inr_iff run_step_def upd_algo_def
        reset_session_def flags algo_step_def [of a a for a] book_step_refl split: if_splits)
  then show ?thesis
    using e2 leave_warmup_step [OF assms(1) e1] lands_step [of e1 d] run.R_trans by blast
qed

lemma end_session_step:
  assumes "lawful hk" "end_session hk d e = Inr e'"
  shows "run_step e e'"
proof -
  note contract = lawful_contract [OF assms(1)]
  obtain e1 e2 e3 e4 where s:
    "when_do (\<not> bt_carried e \<and> \<not> bt_daily_lean e) (fill_edge hk MARKET_ON_CLOSE) e = Inr e1"
    "fold_res (close_symbol hk d) (bt_day_bars e1) e1 = Inr e2" "on_algo (hk_time_step hk) e2 = Inr e3"
    "on_algo (end_of_day hk (dkeys (bt_day_bars e3))) e3 = Inr e4"
    "e' = upd_algo (\<lambda>a. (if bt_warm e4 then a else mark_equity d a)\<lparr>al_market_open := False\<rparr>) e4"
    using assms(2) by (auto simp: end_session_def bind_res_Inr_iff)
  have "run_step e e1" using s(1) by (rule run.when_R) (rule along_run, rule algo_contract.edge_along [OF contract])
  moreover have "run_step e1 e2"
  proof (rule run.fold_R [OF s(2)])
    fix x t t' assume "close_symbol hk d x t = Inr t'"
    then obtain a where fl: "flush_consolidators hk (fst x) (bt_algo t) = Inr a"
      and t': "bt_algo t' = (if bt_daily_lean t then a else feed_indicators (daily_sample (fst x) d (snd x)) (fst x) a)"
      by (auto simp: close_symbol_def on_algo_def bind_res_Inr_iff)
    have "algo_step (bt_algo t) a" using fl by (rule algo_contract.flush_cons_R [OF contract])
    moreover have "algo_step a (bt_algo t')"
      by (simp add: t' algo_contract.feed_R [OF contract] algo_contract.R_frame [OF contract])
    ultimately show "run_step t t'"
      unfolding run_step_def algo_step_def by (rule book_step_trans)
  qed
  moreover have "run_step e2 e3" using s(3) assms(1) by (auto simp: lawful_def intro: on_algo_run)
  moreover have "run_step e3 e4"
  proof (rule on_algo_run [OF s(4)], unfold keeps_def, intro allI impI)
    fix a a' assume r: "end_of_day hk (dkeys (bt_day_bars e3)) a = Inr a'"
    show "algo_step a a'"
    proof (cases "hk_end_of_day hk")
      case (EodPlain f)
      then show ?thesis using r assms(1) by (auto simp: end_of_day_def lawful_def keeps_def)
    next
      case (EodPerSymbol f)
      then have "fold_res f (dkeys (bt_day_bars e3)) a = Inr a'" using r by (simp add: end_of_day_def)
      then show ?thesis
        by (rule step_preorder.fold_R [OF algo_contract.axioms(1) [OF contract]])
           (use assms(1) EodPerSymbol in \<open>auto simp: lawful_def keeps_def\<close>)
    qed
  qed
  moreover have "run_step e4 e'"
    by (simp add: s(5) run_step_def upd_algo_def algo_step_def mark_equity_def book_step_refl)
  ultimately show ?thesis using run.R_trans by blast
qed

lemma run_day_step:
  assumes "lawful hk" "run_day hk store d e = Inr e'"
  shows "run_step e e'"
proof -
  obtain e1 where e1: "begin_session hk store None d e = Inr e1"
    and r: "(if bt_day_bars e1 = [] then (if bt_partial e1 then partial_session hk d e1 else Inr e1)
       else bind_res (walk hk d (timeline (ends_of e1)) (e1\<lparr>bt_prev_t := - 1\<rparr>)) (end_session hk d)) = Inr e'"
    using assms(2) by (auto simp: run_day_def bind_res_Inr_iff)
  have "run_step e1 e'"
  proof (cases "bt_day_bars e1 = []")
    case True
    then show ?thesis
      using r pre_bar_step [OF assms(1)] upd_algo_step [of "set_ms d _" e1] set_ms_step(1)
      by (auto simp: partial_session_def run.R_refl split: if_splits option.splits) (blast intro: run.R_trans upd_algo_step set_ms_step)
  next
    case False
    then obtain e2 where e2: "walk hk d (timeline (ends_of e1)) (e1\<lparr>bt_prev_t := - 1\<rparr>) = Inr e2" "end_session hk d e2 = Inr e'"
      using r by (auto simp: bind_res_Inr_iff)
    have "run_step e1 e2" using walk_step [OF assms(1) e2(1)] by (simp add: run_step_def)
    then show ?thesis using end_session_step [OF assms(1) e2(2)] run.R_trans by blast
  qed
  then show ?thesis using begin_session_step [OF assms(1) e1] run.R_trans by blast
qed

lemma run_days_step: "lawful hk \<Longrightarrow> run_days hk store ds e = Inr e' \<Longrightarrow> run_step e e'"
proof (induction ds arbitrary: e)
  case (Cons d ds)
  then obtain e1 where e1: "run_day hk store d e = Inr e1" "e' = e1 \<or> run_days hk store ds e1 = Inr e'"
    by (auto simp: bind_res_Inr_iff split: if_splits)
  then have "run_step e1 e'" using Cons by (auto simp: run.R_refl)
  then show ?case using run_day_step [OF Cons.prems(1) e1(1)] run.R_trans by blast
qed (simp add: run.R_refl)


end
