(* ===== verification/Fast.thy ===== *)
theory Fast
  imports Engine
begin

text \<open>
  The quiet-bar fast path: \<open>dqengine/runtime/fastpath.py\<close>, and \<open>_fast_day\<close> and \<open>_fast_forward\<close> of
  \<open>dqengine/runtime/backtester.py\<close>.  A session is stepped only at the bars where something can happen.
  The loop carries a bound on its steps, one more than the bar ends of the session; \<open>None\<close> is running
  out of it, which \<open>FastProps\<close> shows not to happen.
\<close>

section \<open>Who may skip\<close>

definition on_data_is_noop :: "'u hooks \<Rightarrow> bool" where
  "on_data_is_noop hk \<longleftrightarrow> hk_on_data hk = None"

definition has_consolidators :: "'u algo \<Rightarrow> bool" where
  "has_consolidators a \<longleftrightarrow> list_ex (\<lambda>x. snd x \<noteq> []) (al_cons a)"

definition minute_indicator_count :: "'u algo \<Rightarrow> nat" where
  "minute_indicator_count a = length (filter (\<lambda>x. fst x \<noteq> DAILY) (concat (map snd (al_regs a))))"

definition fast_allowed :: "bool \<Rightarrow> bool \<Rightarrow> 'u hooks \<Rightarrow> 'u algo \<Rightarrow> bool" where
  "fast_allowed env daily hk a \<longleftrightarrow> env \<and> \<not> daily \<and> on_data_is_noop hk \<and> \<not> has_consolidators a"

section \<open>Where a resting order could act\<close>

definition acts :: "bool \<Rightarrow> bool \<Rightarrow> pyfloat option \<Rightarrow> (bar \<Rightarrow> bool) res" where
  "acts stop_leg buy price =
     (case price of
        None \<Rightarrow> Inl TypeError
      | Some x \<Rightarrow> Inr (if stop_leg = buy then (\<lambda>b. x < b_high b) else (\<lambda>b. b_low b < x)))"

definition ends_of_bars :: "int \<Rightarrow> day_bars \<Rightarrow> ms list" where
  "ends_of_bars sp b = map (\<lambda>x. b_start x + sp) b"

definition later :: "ms \<Rightarrow> int \<Rightarrow> day_bars \<Rightarrow> day_bars" where
  "later last_t sp b = drop (length (takeWhile (\<lambda>x. b_start x + sp \<le> last_t) b)) b"

definition first_hit :: "int \<Rightarrow> (bar \<Rightarrow> bool) \<Rightarrow> day_bars \<Rightarrow> ms option" where
  "first_hit sp p b = (case find p b of None \<Rightarrow> None | Some x \<Rightarrow> Some (b_start x + sp))"

definition ticket_candidate :: "(sym, int) dict \<Rightarrow> (sym, day_bars) dict \<Rightarrow> ms \<Rightarrow> ticket \<Rightarrow> ms option res" where
  "ticket_candidate spans bars last_t t =
     (case dget bars (tk_sym t) of
        None \<Rightarrow> Inr None
      | Some b \<Rightarrow>
          let sp = dget_or spans (tk_sym t) 0; ahead = later last_t sp b; buy = (0 < tk_qty t);
              scan = (\<lambda>stop_leg price. bind_res (acts stop_leg buy price) (\<lambda>p. Inr (first_hit sp p ahead)))
          in if \<not> is_open t \<or> ahead = [] then Inr None
             else case tk_type t of
                    MARKET_ON_OPEN \<Rightarrow> Inr None
                  | MARKET_ON_CLOSE \<Rightarrow> Inr None
                  | MARKET \<Rightarrow> Inr (Some (b_start (hd ahead) + sp))
                  | TRAILING_STOP \<Rightarrow> Inr (Some (b_start (hd ahead) + sp))
                  | LIMIT_IF_TOUCHED \<Rightarrow> Inr (Some (b_start (hd ahead) + sp))
                  | LIMIT \<Rightarrow> scan False (tk_limit t)
                  | STOP_MARKET \<Rightarrow> scan True (tk_stop t)
                  | STOP_LIMIT \<Rightarrow> if tk_triggered t then scan False (tk_limit t) else scan True (tk_stop t))"

fun min_opt :: "ms option \<Rightarrow> ms option \<Rightarrow> ms option" where
  "min_opt None y = y"
| "min_opt x None = x"
| "min_opt (Some x) (Some y) = Some (if x < y then x else y)"

definition next_candidate_ms :: "obook \<Rightarrow> (sym, int) dict \<Rightarrow> (sym, day_bars) dict \<Rightarrow> ms \<Rightarrow> ms option res" where
  "next_candidate_ms k spans bars last_t =
     fold_res (\<lambda>i best. bind_res (ticket_candidate spans bars last_t (tk k i)) (\<lambda>c. Inr (min_opt c best))) (open_ids k) None"

section \<open>One visit\<close>

definition last_index :: "ms \<Rightarrow> int \<Rightarrow> day_bars \<Rightarrow> int" where
  "last_index t sp b = int (length (takeWhile (\<lambda>x. b_start x + sp \<le> t) b)) - 1"

text \<open>Prices rolled forward to \<open>t\<close>: each symbol's last bar that has ended, if it is not applied yet.\<close>

definition roll_symbol :: "ms \<Rightarrow> sym \<times> day_bars \<Rightarrow> (sym, int) dict \<times> 'u backtest \<Rightarrow> ((sym, int) dict \<times> 'u backtest) res" where
  "roll_symbol t sb x =
     (case x of (applied, e) \<Rightarrow>
        let s = fst sb; i = last_index t (dget_or (bt_spans e) s 0) (snd sb)
        in if dget_or applied s (- 1) < i
           then bind_res (on_algo (quote_bar s (snd sb ! nat i)) e) (\<lambda>e'. Inr (dput applied s i, e'))
           else Inr (applied, e))"

definition ending_at :: "ms \<Rightarrow> 'u backtest \<Rightarrow> entries" where
  "ending_at t e =
     concat (map (\<lambda>(s, b). let sp = dget_or (bt_spans e) s 0; i = last_index t sp b
       in if 0 \<le> i \<and> b_start (b ! nat i) + sp = t then [(s, nat i)] else []) (bt_day_bars e))"

definition visit_open :: "'u hooks \<Rightarrow> entries \<Rightarrow> 'u backtest \<Rightarrow> 'u backtest res" where
  "visit_open hk es e =
     (if \<not> bt_carried e \<and> \<not> bt_warm e \<and> bt_lean_edges e \<and> \<not> bt_first_done e
      then fill_market_on_open hk es (e\<lparr>bt_first_done := True\<rparr>) else Inr e)"

definition visit_late_open :: "'u hooks \<Rightarrow> 'u backtest \<Rightarrow> 'u backtest res" where
  "visit_late_open hk e =
     (if \<not> bt_lean_edges e \<and> \<not> bt_first_done e
      then when_do (\<not> bt_carried e) (fill_edge hk MARKET_ON_OPEN) (e\<lparr>bt_first_done := True\<rparr>) else Inr e)"

definition visit :: "'u hooks \<Rightarrow> day \<Rightarrow> ms \<Rightarrow> sched_event list \<Rightarrow> (sym, int) dict \<times> 'u backtest
     \<Rightarrow> ((sym, int) dict \<times> 'u backtest) res" where
  "visit hk d t evs x =
     bind_res (fold_res (roll_symbol t) (bt_day_bars (snd x)) (fst x, upd_algo (set_ms d t) (snd x))) (\<lambda>(applied, e1).
     let es = ending_at t e1
     in bind_res (visit_open hk es e1) (\<lambda>e2.
        bind_res (when_do (\<not> bt_carried e2) (fold_res (check_bar hk None) es) e2) (\<lambda>e3.
        bind_res (run_events hk evs e3) (\<lambda>e4.
        bind_res (when_do (\<not> bt_carried e4) (fold_res (check_bar hk (Some (d, t))) es) e4) (\<lambda>e5.
        bind_res (visit_late_open hk (upd_algo (mark_invested (bt_syms e5)) e5)) (\<lambda>e6. Inr (applied, e6)))))))"

section \<open>The session\<close>

definition merged_ends :: "'u backtest \<Rightarrow> ms list" where
  "merged_ends e = sort (remdups (map fst (ends_of e)))"

definition fire_at :: "ms list \<Rightarrow> (ms \<times> sched_event) list \<Rightarrow> ms \<Rightarrow> sched_event list" where
  "fire_at merged evs t = map snd (filter (\<lambda>x. find (\<lambda>u. fst x \<le> u) merged = Some t) evs)"

definition forced_ends :: "ms list \<Rightarrow> (ms \<times> sched_event) list \<Rightarrow> ms list" where
  "forced_ends merged evs =
     sort (remdups (hd merged # last merged
       # concat (map (\<lambda>x. case find (\<lambda>u. fst x \<le> u) merged of None \<Rightarrow> [] | Some t \<Rightarrow> [t]) evs)))"

definition next_visit :: "ms list \<Rightarrow> ms \<Rightarrow> 'u backtest \<Rightarrow> ms option res" where
  "next_visit forced last_t e =
     bind_res (if bt_carried e then Inr None
               else next_candidate_ms (book_of e) (bt_spans e) (bt_day_bars e) last_t) (\<lambda>cand.
       Inr (min_opt (case forced of [] \<Rightarrow> None | t # _ \<Rightarrow> Some t) cand))"

fun fast_loop :: "nat \<Rightarrow> 'u hooks \<Rightarrow> day \<Rightarrow> ms list \<Rightarrow> nat \<Rightarrow> ms list \<Rightarrow> ms \<Rightarrow> (sym, int) dict \<Rightarrow> 'u backtest
     \<Rightarrow> (ms \<times> bool \<times> 'u backtest) res option" where
  "fast_loop 0 hk d merged n forced last_t applied e = None"
| "fast_loop (Suc k) hk d merged n forced last_t applied e =
     (case next_visit forced last_t e of
        Inl er \<Rightarrow> Some (Inl er)
      | Inr None \<Rightarrow> Some (Inr (last_t, True, e))
      | Inr (Some t) \<Rightarrow>
          (case visit hk d t (fire_at merged (bt_day_events e) t) (applied, e) of
             Inl er \<Rightarrow> Some (Inl er)
           | Inr (applied', e') \<Rightarrow>
               if minute_indicator_count (bt_algo e') \<noteq> n then Some (Inr (t, False, e'))
               else fast_loop k hk d merged n (dropWhile (\<lambda>u. u \<le> t) forced) t applied' e'))"

definition fast_day :: "'u hooks \<Rightarrow> day \<Rightarrow> 'u backtest \<Rightarrow> (ms \<times> bool \<times> 'u backtest) res option" where
  "fast_day hk d e =
     (let merged = merged_ends e
      in fast_loop (Suc (length merged)) hk d merged (minute_indicator_count (bt_algo e))
           (forced_ends merged (bt_day_events e)) (- 1) [] e)"

text \<open>\<open>_fast_forward\<close> and the walk over what it left.\<close>

definition walk_after :: "'u hooks \<Rightarrow> day \<Rightarrow> ms \<Rightarrow> 'u backtest \<Rightarrow> 'u backtest res" where
  "walk_after hk d resume e =
     walk hk d (timeline (filter (\<lambda>x. resume < fst x) (ends_of e))) (e\<lparr>bt_prev_t := resume\<rparr>)"

definition step_session :: "'u hooks \<Rightarrow> day \<Rightarrow> 'u backtest \<Rightarrow> 'u backtest res option" where
  "step_session hk d e =
     (if bt_fast_on e \<and> minute_indicator_count (bt_algo e) = 0
      then (case fast_day hk d e of
              None \<Rightarrow> None
            | Some (Inl er) \<Rightarrow> Some (Inl er)
            | Some (Inr (last_t, finished, e')) \<Rightarrow>
                Some (if finished then Inr (e'\<lparr>bt_fast_sessions := bt_fast_sessions e' + 1, bt_prev_t := last_t\<rparr>)
                      else walk_after hk d last_t e'))
      else Some (walk_after hk d (- 1) e))"

definition run_stored_day :: "'u hooks \<Rightarrow> minute_store \<Rightarrow> day \<Rightarrow> 'u backtest \<Rightarrow> 'u backtest res option" where
  "run_stored_day hk store d e =
     (case begin_session hk store None d e of
        Inl er \<Rightarrow> Some (Inl er)
      | Inr e1 \<Rightarrow>
          if bt_day_bars e1 = [] then Some (Inr e1)
          else map_option (\<lambda>r. bind_res r (end_session hk d)) (step_session hk d e1))"

end
