(* ===== verification/Setup.thy ===== *)
theory Setup
  imports EngineProps
begin

text \<open>
  How a run is set up: \<open>_setup\<close>, \<open>_drop_unsettled_today\<close> and \<open>_partial_session_day\<close> of
  \<open>dqengine/runtime/backtester.py\<close> and \<open>RunOverrides\<close>.  \<open>declared\<close> is the algorithm as its \<open>initialize\<close>
  left it, the stores are functions, and the state the sessions share is the \<open>backtest\<close> of \<open>Engine\<close>.
  The book's clock has no day before the first session; the model starts it at day 0.
\<close>

section \<open>What the caller and the strategy say\<close>

record cash_entry =
  ce_day :: day
  ce_amount :: pyfloat
  ce_sells :: "(string, int) dict"

record overrides =
  ov_start :: "day option"
  ov_end :: "day option"
  ov_cash :: "pyfloat option"
  ov_project :: bool
  ov_cash_events :: "cash_entry list"
  ov_live_today :: "day option"
  ov_live_now :: "ms option"

record 'u declared =
  de_algo :: "'u algo"
  de_start :: "day option"
  de_end :: "day option"
  de_cash :: pyfloat
  de_warmup :: nat
  de_resolutions :: "(sym, bar_size) dict"
  de_leverage :: "(sym, pyfloat option) dict"
  de_account :: "pyfloat option"

record stores =
  st_minute_days :: "sym \<Rightarrow> day list"
  st_daily :: "sym \<Rightarrow> (day, daily_row) dict option"

definition or_default :: "pyfloat option \<Rightarrow> pyfloat \<Rightarrow> pyfloat" where
  "or_default x d = (case x of None \<Rightarrow> d | Some v \<Rightarrow> if v = 0 then d else v)"

definition effective_leverage :: "'u declared \<Rightarrow> pyfloat" where
  "effective_leverage dc =
     (let default = or_default (de_account dc) 1;
          levs = map (\<lambda>x. or_default (snd x) default) (de_leverage dc)
      in max 1 (if levs = [] then default else fmax levs))"

section \<open>The days of a run\<close>

definition all_daily :: "'u declared \<Rightarrow> bool" where
  "all_daily dc \<longleftrightarrow> list_all (\<lambda>x. snd x = DAILY) (de_resolutions dc)"

definition lean_order :: "bool \<Rightarrow> overrides \<Rightarrow> bool" where
  "lean_order daily ov \<longleftrightarrow> daily \<and> (\<not> ov_project ov \<or> ov_live_today ov \<noteq> None)"

definition still_open_today :: "overrides \<Rightarrow> day option" where
  "still_open_today ov =
     (case (ov_project ov, ov_live_today ov, ov_live_now ov) of
        (True, Some today, Some now) \<Rightarrow> if close_time_ms today + 60000 \<le> now then None else Some today
      | _ \<Rightarrow> None)"

definition drop_unsettled_today :: "overrides \<Rightarrow> (sym, (day, daily_row) dict) dict \<Rightarrow> (sym, (day, daily_row) dict) dict" where
  "drop_unsettled_today ov m =
     (case still_open_today ov of None \<Rightarrow> m | Some today \<Rightarrow> map (\<lambda>(s, rows). (s, ddel rows today)) m)"

definition partial_session_day :: "overrides \<Rightarrow> bool \<Rightarrow> day list \<Rightarrow> day \<Rightarrow> day option" where
  "partial_session_day ov lean store_days last_day =
     (case (ov_live_today ov, ov_live_now ov) of
        (Some today, Some now) \<Rightarrow>
          if ov_project ov \<and> lean \<and> today \<notin> set store_days \<and> today \<le> last_day \<and> REG_OPEN_MS \<le> now
             \<and> project_sessions (today - 1) today = [today]
          then Some today else None
      | _ \<Rightarrow> None)"

definition run_calendar :: "overrides \<Rightarrow> day list \<Rightarrow> day option \<Rightarrow> session_calendar" where
  "run_calendar ov store_days partial =
     (let known = (if ov_project ov then store_days @ project_sessions (last store_days) (last store_days + 14)
                   else store_days)
      in mk_calendar (case partial of None \<Rightarrow> known | Some d \<Rightarrow> if d \<in> set known then known else sort (remdups (d # known))))"

definition calendar_holes :: "day list \<Rightarrow> day list" where
  "calendar_holes store_days =
     filter (\<lambda>d. d \<notin> set store_days) (project_sessions (hd store_days) (last store_days))"

definition run_sessions :: "nat \<Rightarrow> day \<Rightarrow> day \<Rightarrow> day list \<Rightarrow> day option \<Rightarrow> day list" where
  "run_sessions warmup start last_day store_days partial =
     (let first_idx = length (takeWhile (\<lambda>d. d < start) store_days)
      in filter (\<lambda>d. d \<le> last_day) (drop (first_idx - warmup) store_days)
         @ (case partial of None \<Rightarrow> [] | Some d \<Rightarrow> [d]))"

definition add_cash :: "(day, pyfloat) dict \<Rightarrow> cash_entry \<Rightarrow> (day, pyfloat) dict" where
  "add_cash m ev = dput m (ce_day ev) (fadd (dget_or m (ce_day ev) 0) (ce_amount ev))"

definition add_sells :: "(day, (sym, int) dict) dict \<Rightarrow> cash_entry \<Rightarrow> (day, (sym, int) dict) dict" where
  "add_sells m ev =
     foldl (\<lambda>m kv. dput m (ce_day ev) (add_due (dget_or m (ce_day ev) []) (upper (fst kv), snd kv))) m (ce_sells ev)"

section \<open>The state before the first session\<close>

definition setup_book :: "ledger_view \<Rightarrow> bool \<Rightarrow> bool \<Rightarrow> bool \<Rightarrow> bool \<Rightarrow> pyfloat \<Rightarrow> 'u declared \<Rightarrow> obook" where
  "setup_book v gen is_live lean warming cash0 dc =
     (new_book ((new_sleeve cash0 (effective_leverage dc) ''last_fill'')
        \<lparr>margin_provider := Some (\<lambda>_. effective_leverage dc)\<rparr>) (0, 0) v)
       \<lparr>securities := securities (re_book (de_algo dc)), prices := prices (re_book (de_algo dc)),
        generated := gen, daily_conversion := lean, cancel_edge_on_no_fill := is_live \<and> lean, notice_out := True,
        allow_orders := \<not> warming\<rparr>"

definition setup_algo :: "obook \<Rightarrow> pyfloat \<Rightarrow> bool \<Rightarrow> 'u declared \<Rightarrow> 'u algo" where
  "setup_algo b cash0 warming dc =
     (de_algo dc)\<lparr>re_book := b, re_days := [], re_equity := [], re_flows := [], re_pending_flow := 0,
        re_start := cash0, re_syms := dkeys (de_resolutions dc), re_resolutions := map snd (de_resolutions dc),
        al_warming := warming\<rparr>"

definition store_days_of :: "stores \<Rightarrow> bool \<Rightarrow> sym list \<Rightarrow> (sym, (day, daily_row) dict) dict \<Rightarrow> day list" where
  "store_days_of st daily syms m =
     mk_calendar (if daily then concat (map (\<lambda>x. dkeys (snd x)) m) else concat (map (st_minute_days st) syms))"

definition default_bar_ms :: "int option \<Rightarrow> 'u declared \<Rightarrow> int" where
  "default_bar_ms bar_ms dc =
     (let own = (if SECOND \<in> set (map snd (de_resolutions dc)) then 1000 else 60000)
      in case bar_ms of None \<Rightarrow> own | Some k \<Rightarrow> if k = 0 then own else k)"

definition setup_state ::
  "overrides \<Rightarrow> ledger_view \<Rightarrow> bool \<Rightarrow> int option \<Rightarrow> bool \<Rightarrow> 'u declared \<Rightarrow> day \<Rightarrow> day
     \<Rightarrow> (sym, (day, daily_row) dict) dict \<Rightarrow> day list \<Rightarrow> 'u backtest" where
  "setup_state ov v gen bar_ms fast dc start last_day m store_days =
     (let daily = all_daily dc; is_live = ov_project ov; lean = lean_order daily ov;
          cash0 = (case ov_cash ov of None \<Rightarrow> de_cash dc | Some c \<Rightarrow> c);
          partial = partial_session_day ov lean store_days last_day;
          sessions = run_sessions (de_warmup dc) start last_day store_days partial;
          warming = (0 < de_warmup dc \<and> sessions \<noteq> [] \<and> hd sessions < start)
      in \<lparr>bt_algo = setup_algo (setup_book v gen is_live lean warming cash0 dc) cash0 warming dc,
          bt_syms = dkeys (de_resolutions dc), bt_start = start, bt_cal = run_calendar ov store_days partial,
          bt_sessions = sessions, bt_live = is_live, bt_live_today = ov_live_today ov, bt_live_now = ov_live_now ov,
          bt_partial_day = partial, bt_daily_mode = daily, bt_daily_lean = lean,
          bt_lean_edges = (\<not> is_live \<or> lean), bt_bar_ms = default_bar_ms bar_ms dc, bt_daily_map = m,
          bt_fast_on = (fast \<and> \<not> daily), bt_fast_sessions = 0,
          bt_deposits = foldl add_cash [] (ov_cash_events ov), bt_sells = foldl add_sells [] (ov_cash_events ov),
          bt_sells_due = [], bt_day_bars = [], bt_spans = [], bt_slice = [], bt_day_events = [], bt_pre_events = [],
          bt_prev_t = - 1, bt_primed = - 1, bt_first_done = False, bt_warm = False, bt_carried = False,
          bt_partial = False, bt_bar_applied = False\<rparr>)"

definition daily_rows_of :: "stores \<Rightarrow> overrides \<Rightarrow> 'u declared \<Rightarrow> (sym, (day, daily_row) dict) dict" where
  "daily_rows_of st ov dc =
     (if all_daily dc
      then drop_unsettled_today ov
             (map (\<lambda>s. (s, case st_daily st s of None \<Rightarrow> [] | Some rows \<Rightarrow> rows)) (dkeys (de_resolutions dc)))
      else [])"

definition setup_run ::
  "stores \<Rightarrow> overrides \<Rightarrow> ledger_view \<Rightarrow> bool \<Rightarrow> int option \<Rightarrow> bool \<Rightarrow> 'u declared \<Rightarrow> 'u backtest res" where
  "setup_run st ov v gen bar_ms fast dc =
     (case (if ov_start ov = None then de_start dc else ov_start ov, if ov_end ov = None then de_end dc else ov_end ov) of
        (Some start, Some last_day) \<Rightarrow>
          if de_resolutions dc = [] then Inl (ValueError ''no securities subscribed'')
          else if ov_project ov \<and> all_daily dc \<and> (ov_live_today ov = None \<or> ov_live_now ov = None)
          then Inl (ValueError ''a live daily run needs the clock'')
          else let m = daily_rows_of st ov dc;
                   store_days = store_days_of st (all_daily dc) (dkeys (de_resolutions dc)) m
               in if store_days = [] then Inl (ValueError ''no data available'')
                  else Inr (setup_state ov v gen bar_ms fast dc start last_day m store_days)
      | _ \<Rightarrow> Inl (ValueError ''set_start_date/set_end_date required''))"

section \<open>The sessions that run\<close>

lemma store_days_sorted: "sorted_wrt (<) (store_days_of st daily syms m)"
  by (simp add: store_days_of_def mk_calendar_sorted)

lemma setup_cases:
  assumes "setup_run st ov v gen bar_ms fast dc = Inr e"
  obtains start last_day m store_days where
    "e = setup_state ov v gen bar_ms fast dc start last_day m store_days"
    "store_days = store_days_of st (all_daily dc) (dkeys (de_resolutions dc)) m" "store_days \<noteq> []"
proof (cases "if ov_start ov = None then de_start dc else ov_start ov";
    cases "if ov_end ov = None then de_end dc else ov_end ov")
  fix start last_day
  assume "(if ov_start ov = None then de_start dc else ov_start ov) = Some start"
    "(if ov_end ov = None then de_end dc else ov_end ov) = Some last_day"
  then show thesis
    using assms that unfolding setup_run_def Let_def by (simp only: prod.case option.case split: if_split_asm) auto
qed (use assms in \<open>simp_all add: setup_run_def del: if_split_asm\<close>)

lemma setup_fields [simp]:
  "bt_start (setup_state ov v gen k fast dc start last_day m ds) = start"
  "bt_daily_map (setup_state ov v gen k fast dc start last_day m ds) = m"
  "bt_syms (setup_state ov v gen k fast dc start last_day m ds) = dkeys (de_resolutions dc)"
  "bt_sessions (setup_state ov v gen k fast dc start last_day m ds) = run_sessions (de_warmup dc) start last_day ds
     (bt_partial_day (setup_state ov v gen k fast dc start last_day m ds))"
  "bt_cal (setup_state ov v gen k fast dc start last_day m ds)
     = run_calendar ov ds (bt_partial_day (setup_state ov v gen k fast dc start last_day m ds))"
  by (simp_all add: setup_state_def Let_def)

lemma index_total: "d \<in> set cal \<Longrightarrow> \<exists>i. index_of cal d = Inr i \<and> i < length cal"
proof -
  assume "d \<in> set cal"
  then obtain xs ys where "cal = xs @ d # ys" "d \<notin> set xs" by (metis split_list_first)
  then show ?thesis by (simp add: index_of_split)
qed

lemma week_end_total: "d \<in> set cal \<Longrightarrow> \<exists>x. is_last_of_week cal d = Inr x"
  using index_total [of d cal] by (auto simp: is_last_of_week_def)

lemma rule_total: "d \<in> set cal \<Longrightarrow> \<exists>x. rule_matches r d cal = Inr x"
  using index_total [of d cal] week_end_total [of d cal]
  by (cases r) (auto simp: is_first_of_week_def is_first_of_month_def is_last_of_month_def)

lemma events_total: "d \<in> set cal \<Longrightarrow> \<exists>x. events_for cal d evs = Inr x"
proof (induction evs)
  case (Cons ev evs)
  then show ?case using rule_total [of d cal "se_date ev"] by auto
qed simp

lemma calendar_has:
  assumes "d \<in> set ds \<or> partial = Some d"
  shows "d \<in> set (run_calendar ov ds partial)"
  using assms by (auto simp: run_calendar_def Let_def mk_calendar_sorted set_insort_key split: option.splits)

lemma before_start:
  fixes xs :: "int list"
  assumes "sorted_wrt (<) xs"
  shows "length (filter (\<lambda>d. d < s) (drop (length (takeWhile (\<lambda>d. d < s) xs) - w) xs)) \<le> (w :: nat)"
proof -
  let ?k = "length (takeWhile (\<lambda>d. d < s) xs)"
  have "filter (\<lambda>d. d < s) (dropWhile (\<lambda>d. d < s) ys) = []" if "sorted_wrt (<) ys" for ys
    using that
  proof (induction ys)
    case (Cons y ys)
    show ?case
    proof (cases "y < s")
      case False
      then have "\<forall>z\<in>set (y # ys). \<not> z < s" using Cons.prems by force
      with False show ?thesis by (simp only: dropWhile.simps if_False filter_empty_conv)
    qed (use Cons in simp)
  qed simp
  from this [OF assms] have "filter (\<lambda>d. d < s) (dropWhile (\<lambda>d. d < s) xs) = []" .
  then have none: "filter (\<lambda>d. d < s) (drop ?k xs) = []"
    by (simp only: dropWhile_eq_drop)
  have "drop (?k - w) xs = drop (?k - w) (take ?k xs) @ drop ?k xs"
    using drop_append [of "?k - w" "take ?k xs" "drop ?k xs"] by (simp add: length_takeWhile_le)
  then have "filter (\<lambda>d. d < s) (drop (?k - w) xs) = filter (\<lambda>d. d < s) (drop (?k - w) (take ?k xs))"
    using none by (simp only: filter_append append_Nil2)
  also have "length \<dots> \<le> length (drop (?k - w) (take ?k xs))" by (rule length_filter_le)
  finally show ?thesis by simp
qed

text \<open>The sessions a run steps are days the store has data for, in order, and at most as many of them
  before the start as the warm-up asks, plus, in a live daily run, today; scheduled days projected past the
  data only shape the calendar and are never run.\<close>

theorem only_stored_days_run:
  assumes "setup_run st ov v gen bar_ms fast dc = Inr e"
  shows "\<exists>days. bt_sessions e = days @ (case bt_partial_day e of None \<Rightarrow> [] | Some d \<Rightarrow> [d])
    \<and> set days \<subseteq> set (store_days_of st (all_daily dc) (bt_syms e) (bt_daily_map e))
    \<and> sorted_wrt (<) days \<and> length (filter (\<lambda>d. d < bt_start e) days) \<le> de_warmup dc"
proof -
  obtain start last_day m ds where e: "e = setup_state ov v gen bar_ms fast dc start last_day m ds"
    and ds: "ds = store_days_of st (all_daily dc) (dkeys (de_resolutions dc)) m"
    using assms by (rule setup_cases)
  have srt: "sorted_wrt (<) ds" by (simp add: ds store_days_sorted)
  let ?kept = "drop (length (takeWhile (\<lambda>d. d < start) ds) - de_warmup dc) ds"
  let ?days = "filter (\<lambda>d. d \<le> last_day) ?kept"
  have "length (filter (\<lambda>d. d < start) ?days) = length (filter (\<lambda>d. d \<le> last_day) (filter (\<lambda>d. d < start) ?kept))"
    by (simp add: conj_commute)
  also have "\<dots> \<le> length (filter (\<lambda>d. d < start) ?kept)" by (rule length_filter_le)
  also have "\<dots> \<le> de_warmup dc" using srt by (rule before_start)
  finally have "length (filter (\<lambda>d. d < start) ?days) \<le> de_warmup dc" .
  moreover have "sorted_wrt (<) ?days" using srt by (simp add: sorted_wrt_filter sorted_wrt_drop)
  moreover have "set ?days \<subseteq> set ds" by (auto dest: in_set_dropD)
  moreover have "bt_sessions e = ?days @ (case bt_partial_day e of None \<Rightarrow> [] | Some d \<Rightarrow> [d])"
    by (simp add: e run_sessions_def Let_def)
  ultimately show ?thesis by (intro exI [of _ ?days]) (simp add: e ds)
qed

text \<open>The date rules of every scheduled event have an answer on every session that runs: the calendar of
  the run holds that day, today's partial session included.\<close>

theorem schedules_never_miss_the_calendar:
  assumes "setup_run st ov v gen bar_ms fast dc = Inr e" and "d \<in> set (bt_sessions e)"
  shows "\<exists>due. events_for (bt_cal e) d evs = Inr due"
proof -
  obtain start last_day m ds where e: "e = setup_state ov v gen bar_ms fast dc start last_day m ds"
    using assms(1) by (rule setup_cases)
  have "d \<in> set ds \<or> bt_partial_day e = Some d"
    using assms(2) by (auto simp: e run_sessions_def Let_def dest!: in_set_dropD split: option.splits)
  then have "d \<in> set (bt_cal e)" unfolding e setup_fields by (rule calendar_has)
  then show ?thesis by (rule events_total)
qed

end
