(* ===== verification/WarmEngine.thy ===== *)
theory WarmEngine
  imports Fast Setup
begin

text \<open>
  The long-lived engine of a live deployment: \<open>WarmPyEngine\<close> of \<open>dqengine/runtime/warm.py\<close>, with
  \<open>late_bar_refusal\<close> and \<open>_absorb_late_bars\<close> of \<open>dqengine/runtime/backtester.py\<close>.  An operation is a
  function from the engine to its outcome and the engine; an exception leaves the engine dead, and a
  dead engine is never stepped again, so what an interrupted step had already written is left out.
  The texts of the reasons are shortened.
\<close>

section \<open>The engine\<close>

record 'u warm_engine =
  we_bt :: "'u backtest"
  we_dead :: "string option"
  we_warmed :: bool
  we_day :: "day option"
  we_completed :: "day option"
  we_last_end :: "(sym, ms) dict"
  we_first_ms :: "(sym, ms) dict"
  we_frontier :: ms
  we_stepped :: nat
  we_late :: nat
  we_joined :: "sym list"
  we_bar_ms :: int

definition open_grace_ms :: ms where "open_grace_ms = 120000"

definition fresh_engine :: "int \<Rightarrow> 'u backtest \<Rightarrow> 'u warm_engine" where
  "fresh_engine bar_ms bt =
     \<lparr>we_bt = bt, we_dead = None, we_warmed = False, we_day = None, we_completed = None, we_last_end = [],
      we_first_ms = [], we_frontier = - 1, we_stepped = 0, we_late = 0, we_joined = [], we_bar_ms = bar_ms\<rparr>"

definition session_is_open :: "'u warm_engine \<Rightarrow> bool" where
  "session_is_open w \<longleftrightarrow> we_day w \<noteq> None"

definition stale :: "string \<Rightarrow> 'u warm_engine \<Rightarrow> 'u warm_engine" where
  "stale reason w = (case we_dead w of None \<Rightarrow> w\<lparr>we_dead := Some reason\<rparr> | Some _ \<Rightarrow> w)"

text \<open>\<open>stale(...)\<close> and \<open>raise RuntimeError(self.dead)\<close>.\<close>

definition die :: "string \<Rightarrow> 'u warm_engine \<Rightarrow> 'a res \<times> 'u warm_engine" where
  "die reason w = (Inl (RuntimeError reason), stale reason w)"

definition refuse_dead :: "'u warm_engine \<Rightarrow> string \<Rightarrow> 'a res \<times> 'u warm_engine" where
  "refuse_dead w why = (Inl (RuntimeError why), w)"

section \<open>Warming up\<close>

fun warm_days ::
  "'u hooks \<Rightarrow> minute_store \<Rightarrow> day \<Rightarrow> day list \<Rightarrow> 'u warm_engine \<Rightarrow> ((unit res) \<times> 'u warm_engine) option" where
  "warm_days hk store through [] w = Some (Inr (), w)"
| "warm_days hk store through (d # ds) w =
     (if through < d then Some (Inr (), w)
      else case run_stored_day hk store d (we_bt w) of
             None \<Rightarrow> None
           | Some (Inl er) \<Rightarrow> Some (Inl er, stale ''warm failed'' w)
           | Some (Inr bt) \<Rightarrow>
               let w1 = w\<lparr>we_bt := bt, we_completed := Some d\<rparr>
               in if al_quit (bt_algo bt) then Some (die ''strategy called quit()'' w1)
                  else warm_days hk store through ds w1)"

definition DAILY_REFUSAL :: string where
  "DAILY_REFUSAL = ''a daily-resolution strategy cannot run on a warm engine''"

definition setup_or_refuse_daily :: "bool \<Rightarrow> 'u backtest res \<Rightarrow> 'u backtest res" where
  "setup_or_refuse_daily daily r =
     (case r of
        Inl er \<Rightarrow> if daily then Inl (RuntimeError DAILY_REFUSAL) else Inl er
      | Inr bt \<Rightarrow> if bt_daily_mode bt then Inl (RuntimeError DAILY_REFUSAL) else Inr bt)"

definition warm_up ::
  "'u hooks \<Rightarrow> minute_store \<Rightarrow> bool \<Rightarrow> 'u backtest res \<Rightarrow> day \<Rightarrow> 'u warm_engine \<Rightarrow> ((unit res) \<times> 'u warm_engine) option" where
  "warm_up hk store daily setup_result through w =
     (if we_warmed w then Some (Inr (), w)
      else case we_dead w of
             Some why \<Rightarrow> Some (refuse_dead w why)
           | None \<Rightarrow>
               (case setup_or_refuse_daily daily setup_result of
                  Inl er \<Rightarrow> Some (Inl er, stale ''warm failed'' w)
                | Inr bt \<Rightarrow>
                    (case warm_days hk store through (bt_sessions bt) (w\<lparr>we_bt := bt\<rparr>) of
                       None \<Rightarrow> None
                     | Some (Inl er, w1) \<Rightarrow> Some (Inl er, w1)
                     | Some (Inr _, w1) \<Rightarrow> Some (Inr (), w1\<lparr>we_warmed := True\<rparr>))))"

section \<open>Today's bars\<close>

record bar_push =
  pu_first_ms :: ms
  pu_total :: nat
  pu_rows :: "scaled_row list"

definition store_bars :: "minute_store \<Rightarrow> day \<Rightarrow> 'u warm_engine \<Rightarrow> (sym, day_bars) dict" where
  "store_bars store d w =
     concat (map (\<lambda>s. case store s d of None \<Rightarrow> [] | Some b \<Rightarrow> if 2 \<le> length b then [(s, b)] else []) (bt_syms (we_bt w)))"

text \<open>One symbol of a push against what the engine holds: a reason to die, or its bars.\<close>

definition pushed_symbol :: "day \<Rightarrow> day_bars option \<Rightarrow> bar_push option \<Rightarrow> string + day_bars option" where
  "pushed_symbol today held p =
     (case p of
        None \<Rightarrow> Inr held
      | Some p \<Rightarrow>
          let delta = (case day_bars_from_scaled today (pu_rows p) of None \<Rightarrow> [] | Some b \<Rightarrow> b)
          in case held of
               None \<Rightarrow> if length delta \<noteq> pu_total p then Inl ''push out of sync''
                       else Inr (if 2 \<le> length delta then Some delta else None)
             | Some old \<Rightarrow>
                 if pu_first_ms p \<noteq> b_start (old ! 0) then Inl ''history changed''
                 else if length old + length delta \<noteq> pu_total p then Inl ''push out of sync''
                 else if delta = [] then Inr (Some old)
                 else if b_start (delta ! 0) \<le> b_start (last old) then Inl ''pushed bar is not after the last held bar''
                 else Inr (Some (old @ delta)))"

fun with_pushed :: "day \<Rightarrow> (sym, bar_push) dict \<Rightarrow> (sym, day_bars) dict \<Rightarrow> sym list \<Rightarrow> string + (sym, day_bars) dict" where
  "with_pushed today ps held [] = Inr []"
| "with_pushed today ps held (s # ss) =
     (case pushed_symbol today (dget held s) (dget ps s) of
        Inl why \<Rightarrow> Inl why
      | Inr b \<Rightarrow>
          (case with_pushed today ps held ss of
             Inl why \<Rightarrow> Inl why
           | Inr out \<Rightarrow> Inr (case b of None \<Rightarrow> out | Some x \<Rightarrow> (s, x) # out)))"

section \<open>Late bars\<close>

definition late_bar_refusal :: "'u hooks \<Rightarrow> sym \<Rightarrow> 'u backtest \<Rightarrow> string option" where
  "late_bar_refusal hk s e =
     (if \<not> on_data_is_noop hk then Some ''the strategy has an on_data handler''
      else if has_consolidators (bt_algo e) then Some ''the strategy uses consolidators''
      else if list_ex (\<lambda>x. kind_of (bt_algo e) (snd x) = Paired) (dget_or (al_regs (bt_algo e)) s [])
      then Some ''a two-symbol indicator reads the symbol''
      else if open_tickets (book_of e) (Some s) \<noteq> [] then Some ''a resting order is open on the symbol''
      else None)"

definition absorb_bar :: "day \<Rightarrow> ms \<Rightarrow> sym \<times> nat \<Rightarrow> 'u backtest \<Rightarrow> 'u backtest res" where
  "absorb_bar d t si e =
     bind_res (bar_at e si) (\<lambda>b. bind_res (span_at e (fst si)) (\<lambda>sp.
       on_algo (\<lambda>a. bind_res (quote_bar (fst si) b a) (\<lambda>a1.
         Inr (feed_indicators (minute_sample (fst si) (trade_bar_of (fst si) d t sp b)) (fst si) a1))) e))"

definition absorb_late_bars :: "day \<Rightarrow> ms \<Rightarrow> entries \<Rightarrow> 'u backtest \<Rightarrow> 'u backtest res" where
  "absorb_late_bars d t = fold_res (absorb_bar d t)"

section \<open>Advancing\<close>

text \<open>The session opens: the batch driver's \<open>_begin_session\<close>, on real bars only.\<close>

definition open_today ::
  "'u hooks \<Rightarrow> minute_store \<Rightarrow> bool \<Rightarrow> day \<Rightarrow> (sym, day_bars) dict \<Rightarrow> 'u warm_engine \<Rightarrow> (bool res) \<times> 'u warm_engine" where
  "open_today hk store pushed today bars w =
     (case begin_session hk store (if pushed then Some bars else None) today (we_bt w) of
        Inl er \<Rightarrow> (Inl er, stale ''exception in advance'' w)
      | Inr bt \<Rightarrow>
          if bt_day_bars bt = [] \<or> bt_carried bt
          then if pushed then die ''pushed bars but the session opened with no data'' (w\<lparr>we_bt := bt\<rparr>)
               else (Inr False, w\<lparr>we_bt := bt\<lparr>bt_day_bars := []\<rparr>\<rparr>)
          else (Inr True, w\<lparr>we_bt := bt\<lparr>bt_prev_t := - 1\<rparr>, we_day := Some today, we_last_end := [],
                  we_first_ms := map (\<lambda>(s, b). (s, b_start (b ! 0))) (bt_day_bars bt)\<rparr>))"

definition extend_symbol :: "'u warm_engine \<Rightarrow> sym \<times> day_bars \<Rightarrow> string option" where
  "extend_symbol w sb =
     (let old = dget_or (bt_day_bars (we_bt w)) (fst sb) []
      in if b_start (snd sb ! 0) \<noteq> dget_or (we_first_ms w) (fst sb) 0 then Some ''history changed''
         else if length (snd sb) < length old then Some ''history shrank'' else None)"

definition join_late :: "(sym, day_bars) dict \<Rightarrow> 'u warm_engine \<Rightarrow> 'u warm_engine" where
  "join_late joined w =
     w\<lparr>we_bt := (we_bt w)\<lparr>bt_day_bars := bt_day_bars (we_bt w) @ joined\<rparr>,
       we_first_ms := foldl (\<lambda>m (s, b). dput m s (b_start (b ! 0))) (we_first_ms w) joined,
       we_joined := we_joined w @ map fst joined\<rparr>"

fun extend_all :: "(sym, day_bars) dict \<Rightarrow> 'u warm_engine \<Rightarrow> (bool res) \<times> 'u warm_engine" where
  "extend_all [] w = (Inr True, w)"
| "extend_all (sb # bars) w =
     (case extend_symbol w sb of
        Some why \<Rightarrow> die why w
      | None \<Rightarrow> extend_all bars (w\<lparr>we_bt := (we_bt w)\<lparr>bt_day_bars := dput (bt_day_bars (we_bt w)) (fst sb) (snd sb)\<rparr>\<rparr>))"

definition extend_today :: "'u hooks \<Rightarrow> (sym, day_bars) dict \<Rightarrow> 'u warm_engine \<Rightarrow> (bool res) \<times> 'u warm_engine" where
  "extend_today hk bars w =
     (let joined = sort_key fst (filter (\<lambda>x. dget (bt_day_bars (we_bt w)) (fst x) = None) bars)
      in if list_ex (\<lambda>x. late_bar_refusal hk (fst x) (we_bt w) \<noteq> None) joined
         then die ''symbols joined mid-session'' w
         else extend_all bars (join_late joined w))"

definition fill_spans :: "int \<Rightarrow> 'u backtest \<Rightarrow> 'u backtest" where
  "fill_spans bar_ms e =
     e\<lparr>bt_spans := foldl (\<lambda>m s. case dget m s of Some _ \<Rightarrow> m
         | None \<Rightarrow> dput m s (case min_list_int (map snd m) of None \<Rightarrow> bar_ms | Some k \<Rightarrow> k))
       (bt_spans e) (dkeys (bt_day_bars e))\<rparr>"

text \<open>The bar ends of a symbol that have closed and were not processed, up to the first that has not closed.\<close>

definition closed_ends :: "ms \<Rightarrow> ms \<Rightarrow> int \<Rightarrow> sym \<times> day_bars \<Rightarrow> (ms \<times> (sym \<times> nat)) list" where
  "closed_ends now done sp sb =
     filter (\<lambda>x. done < fst x)
       (takeWhile (\<lambda>x. fst x \<le> now) (map (\<lambda>i. (b_start (snd sb ! i) + sp, (fst sb, i))) [0..<length (snd sb)]))"

definition unprocessed :: "ms \<Rightarrow> 'u warm_engine \<Rightarrow> (ms \<times> (sym \<times> nat)) list" where
  "unprocessed now w =
     concat (map (\<lambda>sb. closed_ends now (dget_or (we_last_end w) (fst sb) (- 1)) (dget_or (bt_spans (we_bt w)) (fst sb) 0) sb)
       (bt_day_bars (we_bt w)))"

definition note_ends :: "ms \<Rightarrow> entries \<Rightarrow> 'u warm_engine \<Rightarrow> 'u warm_engine" where
  "note_ends t es w =
     w\<lparr>we_last_end := foldl (\<lambda>m si. dput m (fst si) t) (we_last_end w) es, we_stepped := we_stepped w + length es\<rparr>"

fun absorb_all :: "day \<Rightarrow> (ms \<times> entries) list \<Rightarrow> 'u warm_engine \<Rightarrow> (unit res) \<times> 'u warm_engine" where
  "absorb_all d [] w = (Inr (), w)"
| "absorb_all d ((t, es) # late) w =
     (case absorb_late_bars d t es (we_bt w) of
        Inl er \<Rightarrow> (Inl er, stale ''exception in advance'' w)
      | Inr bt \<Rightarrow> absorb_all d late ((note_ends t es (w\<lparr>we_bt := bt\<rparr>))\<lparr>we_late := we_late w + length es\<rparr>))"

fun step_all :: "'u hooks \<Rightarrow> day \<Rightarrow> (ms \<times> entries) list \<Rightarrow> 'u warm_engine \<Rightarrow> (unit res) \<times> 'u warm_engine" where
  "step_all hk d [] w = (Inr (), w)"
| "step_all hk d ((t, es) # ends) w =
     (case step_bar hk d t es (we_bt w) of
        Inl er \<Rightarrow> (Inl er, stale ''exception in advance'' w)
      | Inr bt \<Rightarrow>
          let w1 = (note_ends t es (w\<lparr>we_bt := bt\<rparr>))\<lparr>we_frontier := t\<rparr>
          in if al_quit (bt_algo bt) then die ''strategy called quit()'' w1 else step_all hk d ends w1)"

definition process_bars :: "'u hooks \<Rightarrow> ms \<Rightarrow> day \<Rightarrow> 'u warm_engine \<Rightarrow> (bool res) \<times> 'u warm_engine" where
  "process_bars hk now today w0 =
     (let w = w0\<lparr>we_bt := fill_spans (we_bar_ms w0) (we_bt w0)\<rparr>;
          todo = unprocessed now w;
          late = filter (\<lambda>x. fst x \<le> we_frontier w) todo;
          ends = filter (\<lambda>x. we_frontier w < fst x) todo
      in if list_ex (\<lambda>x. late_bar_refusal hk (fst (snd x)) (we_bt w) \<noteq> None) late
         then die ''a bar arrived behind the frontier'' w
         else case absorb_all today (timeline late) w of
                (Inl er, w1) \<Rightarrow> (Inl er, w1)
              | (Inr _, w1) \<Rightarrow>
                  (case step_all hk today (timeline ends) w1 of
                     (Inl er, w2) \<Rightarrow> (Inl er, w2)
                   | (Inr _, w2) \<Rightarrow> (Inr (todo \<noteq> []), w2)))"

definition then_do :: "(bool res) \<times> 'w \<Rightarrow> ('w \<Rightarrow> (bool res) \<times> 'w) \<Rightarrow> (bool res) \<times> 'w" where
  "then_do r f = (case r of (Inr True, w) \<Rightarrow> f w | _ \<Rightarrow> r)"

definition advance_bars ::
  "'u hooks \<Rightarrow> minute_store \<Rightarrow> bool \<Rightarrow> ms \<Rightarrow> day \<Rightarrow> (sym, day_bars) dict \<Rightarrow> 'u warm_engine \<Rightarrow> (bool res) \<times> 'u warm_engine" where
  "advance_bars hk store pushed now today bars w =
     (if bars = [] then (Inr False, w)
      else case we_day w of
             None \<Rightarrow>
               if (\<exists>s\<in>set (bt_syms (we_bt w)). dget bars s = None) \<and> now < REG_OPEN_MS + open_grace_ms
               then (Inr False, w)
               else then_do (open_today hk store pushed today bars w) (process_bars hk now today)
           | Some _ \<Rightarrow> then_do (extend_today hk bars w) (process_bars hk now today))"

definition advance_open ::
  "'u hooks \<Rightarrow> minute_store \<Rightarrow> ms \<Rightarrow> day \<Rightarrow> (sym, bar_push) dict option \<Rightarrow> 'u warm_engine \<Rightarrow> (bool res) \<times> 'u warm_engine" where
  "advance_open hk store now today fed w =
     (if al_quit (bt_algo (we_bt w)) then die ''strategy called quit()'' w
      else if (case we_completed w of None \<Rightarrow> False | Some c \<Rightarrow> today \<le> c) then die ''day is already completed'' w
      else if (case we_day w of None \<Rightarrow> False | Some d \<Rightarrow> d \<noteq> today) then die ''session rolled without end_session'' w
      else case fed of
             None \<Rightarrow> advance_bars hk store False now today (store_bars store today w) w
           | Some ps \<Rightarrow>
               (case with_pushed today ps (if we_day w = None then [] else bt_day_bars (we_bt w)) (bt_syms (we_bt w)) of
                  Inl why \<Rightarrow> die why w
                | Inr bars \<Rightarrow> advance_bars hk store True now today bars w))"

definition advance ::
  "'u hooks \<Rightarrow> minute_store \<Rightarrow> ms \<Rightarrow> day \<Rightarrow> (sym, bar_push) dict option \<Rightarrow> 'u warm_engine \<Rightarrow> (bool res) \<times> 'u warm_engine" where
  "advance hk store now today fed w =
     (case we_dead w of
        Some why \<Rightarrow> refuse_dead w why
      | None \<Rightarrow> if \<not> we_warmed w then die ''advance before warm'' w else advance_open hk store now today fed w)"

section \<open>Waking at the clock\<close>

definition cursor :: "'u backtest \<Rightarrow> ms" where
  "cursor e = max (bt_prev_t e) (bt_primed e)"

definition due_events :: "ms \<Rightarrow> 'u backtest \<Rightarrow> (ms \<times> sched_event) list" where
  "due_events now e = sort_key fst (filter (\<lambda>x. cursor e < fst x \<and> fst x \<le> now) (bt_day_events e))"

definition engine_next_fire :: "'u warm_engine \<Rightarrow> ms option" where
  "engine_next_fire w =
     (if we_day w = None \<or> we_dead w \<noteq> None then None
      else min_list_int (filter (\<lambda>f. cursor (we_bt w) < f) (map fst (bt_day_events (we_bt w)))))"

definition usable_quotes :: "(sym, pyfloat) dict \<Rightarrow> sym list \<Rightarrow> (sym, pyfloat) dict" where
  "usable_quotes ps syms = concat (map (\<lambda>s. case dget ps s of None \<Rightarrow> [] | Some px \<Rightarrow> if 0 < px then [(s, px)] else []) syms)"

definition price_symbol :: "sym \<times> pyfloat \<Rightarrow> 'u algo \<Rightarrow> 'u algo res" where
  "price_symbol sp a =
     (case dget (securities (re_book a)) (fst sp) of
        None \<Rightarrow> Inl KeyError
      | Some sec \<Rightarrow>
          Inr (set_book (\<lambda>k. k\<lparr>securities := dput (securities k) (fst sp) (sec\<lparr>sec_price := snd sp\<rparr>),
                               prices := dput (prices k) (fst sp) (snd sp)\<rparr>) a))"

record primed =
  pm_fired :: "(string \<times> ms) list"
  pm_priced :: nat
  pm_unpriced :: "sym list"

fun fire_due :: "'u hooks \<Rightarrow> day \<Rightarrow> (ms \<times> sched_event) list \<Rightarrow> 'u warm_engine \<Rightarrow> (unit res) \<times> 'u warm_engine" where
  "fire_due hk d [] w = (Inr (), w)"
| "fire_due hk d ((t, ev) # evs) w =
     (case on_algo (hk_event hk (se_cb ev)) (upd_algo (set_ms d t) (we_bt w)) of
        Inl er \<Rightarrow> (Inl er, stale ''exception in prime'' w)
      | Inr bt \<Rightarrow>
          if al_quit (bt_algo bt) then die ''strategy called quit()'' (w\<lparr>we_bt := bt\<rparr>)
          else fire_due hk d evs (w\<lparr>we_bt := bt\<rparr>))"

definition prime ::
  "'u hooks \<Rightarrow> ms \<Rightarrow> day \<Rightarrow> (sym, pyfloat) dict \<Rightarrow> 'u warm_engine \<Rightarrow> ((primed option) res) \<times> 'u warm_engine" where
  "prime hk now today ps w =
     (case we_dead w of
        Some why \<Rightarrow> refuse_dead w why
      | None \<Rightarrow>
          if \<not> we_warmed w \<or> we_day w \<noteq> Some today then (Inr None, w)
          else let due = due_events now (we_bt w); usable = usable_quotes ps (bt_syms (we_bt w))
               in if due = [] then (Inr None, w)
                  else case on_algo (fold_res price_symbol usable) (we_bt w) of
                         Inl er \<Rightarrow> (Inl er, w)
                       | Inr bt \<Rightarrow>
                           (case fire_due hk today due (w\<lparr>we_bt := upd_algo (\<lambda>a. a\<lparr>al_market_open := True\<rparr>) bt\<rparr>) of
                              (Inl er, w1) \<Rightarrow> (Inl er, w1)
                            | (Inr _, w1) \<Rightarrow>
                                (Inr (Some \<lparr>pm_fired = map (\<lambda>x. (se_name (snd x), fst x)) due, pm_priced = length usable,
                                   pm_unpriced = filter (\<lambda>s. dget usable s = None) (bt_syms (we_bt w))\<rparr>),
                                 w1\<lparr>we_bt := (we_bt w1)\<lparr>bt_primed := max (bt_primed (we_bt w1)) now\<rparr>\<rparr>)))"

section \<open>Ending the session, state for the driver\<close>

definition end_live_session :: "'u hooks \<Rightarrow> day \<Rightarrow> 'u warm_engine \<Rightarrow> (unit res) \<times> 'u warm_engine" where
  "end_live_session hk today w =
     (case we_dead w of
        Some why \<Rightarrow> refuse_dead w why
      | None \<Rightarrow>
          if we_day w \<noteq> Some today then die ''end_session but another day is open'' w
          else case end_session hk today (we_bt w) of
                 Inl er \<Rightarrow> (Inl er, stale ''exception in end_session'' w)
               | Inr bt \<Rightarrow> (Inr (), w\<lparr>we_bt := bt, we_day := None, we_completed := Some today, we_last_end := [],
                              we_first_ms := [], we_frontier := - 1\<rparr>))"

definition pushed_state :: "'u warm_engine \<Rightarrow> (sym, ms) dict" where
  "pushed_state w =
     (if we_day w = None then []
      else concat (map (\<lambda>(s, b). if b = [] then [] else [(s, b_start (last b))]) (bt_day_bars (we_bt w))))"

definition engine_snapshot :: "pow_fun \<Rightarrow> log_counts option \<Rightarrow> 'u warm_engine \<Rightarrow> (snapshot res) \<times> 'u warm_engine" where
  "engine_snapshot pw since w =
     (case we_dead w of
        Some why \<Rightarrow> (Inl (RuntimeError (''engine dead: '' @ why)), w)
      | None \<Rightarrow>
          (case run_result pw since (bt_algo (we_bt w)) of
             Inl er \<Rightarrow> (Inl er, w)
           | Inr (snap, a) \<Rightarrow> (Inr snap, w\<lparr>we_bt := (we_bt w)\<lparr>bt_algo := a\<rparr>\<rparr>)))"

end
