(* ===== verification/DailyProps.thy ===== *)
theory DailyProps
  imports Setup
begin

text \<open>
  Daily runs: what a scheduled handler of a daily session can know (\<open>no_look_ahead\<close>), that a live
  partial session decides as the backtest of the day does (\<open>partial_session_decides_the_same\<close>), the
  sort that two events of one time break, and inputs at which the theorems of the session loop hold.
\<close>

section \<open>Nothing of the day's bar is seen before the close\<close>

text \<open>A session of a daily run up to the handlers that are due before its bar.\<close>

definition decision_state ::
  "'u hooks \<Rightarrow> minute_store \<Rightarrow> day \<Rightarrow> ms \<Rightarrow> 'u backtest \<Rightarrow> (bool \<times> 'u algo) res" where
  "decision_state hk store d t e =
     bind_res (begin_session hk store None d e) (\<lambda>e1.
     bind_res (when_do (bt_sells_due e1 \<noteq> [] \<and> \<not> bt_warm e1) (place_withdraw_sells hk) (upd_algo (set_ms d t) e1)) (\<lambda>e2.
     bind_res (open_events hk d e2) (\<lambda>(stop, e3). Inr (stop, bt_algo e3))))"

definition with_bars :: "(sym, (day, daily_row) dict) dict \<Rightarrow> (sym, day_bars) dict \<Rightarrow> 'u backtest \<Rightarrow> 'u backtest" where
  "with_bars m bars e = e\<lparr>bt_daily_map := m, bt_day_bars := bars\<rparr>"

fun lift_res :: "('a \<Rightarrow> 'b) \<Rightarrow> 'a res \<Rightarrow> 'b res" where
  "lift_res h (Inl x) = Inl x"
| "lift_res h (Inr y) = Inr (h y)"

lemma lift_bind: "lift_res h (bind_res r f) = bind_res r (\<lambda>x. lift_res h (f x))"
  by (cases r) simp_all

lemma bind_lift: "bind_res (lift_res h r) f = bind_res r (\<lambda>x. f (h x))"
  by (cases r) simp_all

lemma lift_if: "lift_res h (if c then x else y) = (if c then lift_res h x else lift_res h y)"
  by simp

definition blind :: "('u backtest \<Rightarrow> 'u backtest res) \<Rightarrow> bool" where
  "blind f \<longleftrightarrow> (\<forall>m bars e. f (with_bars m bars e) = lift_res (with_bars m bars) (f e))"

lemma blindD: "blind f \<Longrightarrow> f (with_bars m bars e) = lift_res (with_bars m bars) (f e)"
  by (simp add: blind_def)

lemma with_bars_fields [simp]:
  "bt_algo (with_bars m bs e) = bt_algo e" "bt_daily_lean (with_bars m bs e) = bt_daily_lean e"
  "bt_first_done (with_bars m bs e) = bt_first_done e" "bt_warm (with_bars m bs e) = bt_warm e"
  "bt_pre_events (with_bars m bs e) = bt_pre_events e" "bt_sells_due (with_bars m bs e) = bt_sells_due e"
  "book_of (with_bars m bs e) = book_of e" "bt_cal (with_bars m bs e) = bt_cal e"
  "bt_partial_day (with_bars m bs e) = bt_partial_day e" "bt_live (with_bars m bs e) = bt_live e"
  "bt_carried (with_bars m bs e) = bt_carried e" "bt_day_bars (with_bars m bs e) = bs"
  "bt_daily_mode (with_bars m bs e) = bt_daily_mode e" "bt_bar_ms (with_bars m bs e) = bt_bar_ms e"
  by (simp_all add: with_bars_def book_of_def)

lemma with_bars_upd [simp]:
  "(with_bars m bs e)\<lparr>bt_algo := a\<rparr> = with_bars m bs (e\<lparr>bt_algo := a\<rparr>)"
  "(with_bars m bs e)\<lparr>bt_sells_due := x\<rparr> = with_bars m bs (e\<lparr>bt_sells_due := x\<rparr>)"
  "upd_algo f (with_bars m bs e) = with_bars m bs (upd_algo f e)"
  "(with_bars m bs e)\<lparr>bt_partial := u, bt_day_events := v, bt_pre_events := w\<rparr>
    = with_bars m bs (e\<lparr>bt_partial := u, bt_day_events := v, bt_pre_events := w\<rparr>)"
  "(with_bars m bs e)\<lparr>bt_spans := y, bt_pre_events := w, bt_day_events := v\<rparr>
    = with_bars m bs (e\<lparr>bt_spans := y, bt_pre_events := w, bt_day_events := v\<rparr>)"
  by (cases e, simp add: with_bars_def upd_algo_def)+

lemma on_algo_blind: "blind (on_algo f)"
  by (simp add: blind_def on_algo_def lift_bind)

lemma place_blind: "blind (place_withdraw_sells hk)"
  by (simp add: blind_def place_withdraw_sells_def blindD [OF on_algo_blind])

lemma run_due_blind: "blind (run_due hk d u evs)"
proof -
  have "run_due hk d u evs (with_bars m bs e) = lift_res (with_bars m bs) (run_due hk d u evs e)" for m bs e
  proof (induction evs arbitrary: e)
    case (Cons x evs)
    obtain t ev where x: "x = (t, ev)" by (cases x)
    show ?case
      using Cons.IH by (simp add: x blindD [OF on_algo_blind] bind_lift lift_bind unless_quit_def lift_if cong: if_cong)
  qed simp
  then show ?thesis by (simp add: blind_def)
qed

lemma pre_bar_blind: "blind (run_pre_bar_events hk d u)"
  by (simp add: blind_def run_pre_bar_events_def Let_def blindD [OF run_due_blind] bind_lift lift_bind
      unless_quit_def lift_if cong: if_cong)

lemma open_events_blind:
  "open_events hk d (with_bars m bs e) = lift_res (map_prod id (with_bars m bs)) (open_events hk d e)"
  by (simp add: open_events_def blindD [OF pre_bar_blind] bind_lift lift_bind)

lemma leave_warmup_blind: "blind (leave_warmup hk w)"
  by (simp add: blind_def leave_warmup_def blindD [OF on_algo_blind])

text \<open>Opening the session: the same symbols have a bar, so the two states differ in the bars only.\<close>

definition same_days :: "day \<Rightarrow> sym list \<Rightarrow> (sym, (day, daily_row) dict) dict \<Rightarrow> (sym, (day, daily_row) dict) dict \<Rightarrow> bool" where
  "same_days d syms m m' \<longleftrightarrow>
     list_all (\<lambda>s. (dget (dget_or m s []) d = None) = (dget (dget_or m' s []) d = None)) syms"

definition days_only :: "'u backtest \<Rightarrow> (sym, (day, daily_row) dict) dict \<Rightarrow> 'u backtest" where
  "days_only e m = e\<lparr>bt_daily_map := m\<rparr>"

lemma map_concat_cong: "(\<And>s. s \<in> set xs \<Longrightarrow> map h (f s) = map h (g s)) \<Longrightarrow> map h (concat (map f xs)) = map h (concat (map g xs))"
  by (induction xs) auto

lemma loaded_names:
  assumes "bt_daily_mode e" "same_days d (bt_syms e) (bt_daily_map e) m"
  shows "map fst (loaded_bars store None d (e\<lparr>bt_daily_map := m\<rparr>)) = map fst (loaded_bars store None d e)"
  using assms by (auto simp: loaded_bars_def same_days_def list_all_iff intro!: map_concat_cong split: option.splits)

lemma daily_starts:
  assumes "bt_daily_mode e" "(s, b) \<in> set (loaded_bars store None d e)"
  shows "b_start (b ! 0) = REG_OPEN_MS"
  using assms by (auto simp: loaded_bars_def daily_bar_def split: option.splits prod.splits)

lemma spans_names:
  assumes "bt_daily_mode e"
  shows "session_spans d (loaded_bars store None d e) e
    = map (\<lambda>s. (s, close_time_ms d - REG_OPEN_MS)) (map fst (loaded_bars store None d e))"
  using assms daily_starts [OF assms] by (auto simp: session_spans_def)

lemma open_without_blind: "blind (open_without_bar d)"
  by (simp add: blind_def open_without_bar_def day_schedule_def lift_bind)

lemma session_spans_cong:
  "bt_daily_mode e = bt_daily_mode e' \<Longrightarrow> bt_bar_ms e = bt_bar_ms e' \<Longrightarrow> session_spans d b e = session_spans d b e'"
  by (simp add: session_spans_def case_prod_unfold)

lemma open_with_blind:
  assumes "session_spans d bars e = session_spans d (bt_day_bars e) e"
  shows "open_with_bars d (with_bars m bars e) = lift_res (with_bars m bars) (open_with_bars d e)"
proof -
  have "session_spans d bars (with_bars m bars e) = session_spans d (bt_day_bars e) e"
    unfolding assms [symmetric] by (rule session_spans_cong) simp_all
  then show ?thesis by (simp add: open_with_bars_def lift_bind day_schedule_def)
qed

lemma reset_blind:
  "(bars = []) = (bars' = []) \<Longrightarrow>
    reset_session w bars' f d (e\<lparr>bt_daily_map := m\<rparr>) = with_bars m bars' (reset_session w bars f d e)"
  by (cases e) (simp add: reset_session_def with_bars_def)

lemma reset_fields [simp]:
  "bt_day_bars (reset_session w bars f d e) = bars"
  "session_spans d b (reset_session w bars f d' e) = session_spans d b e"
  by (simp add: reset_session_def) (rule session_spans_cong, simp_all add: reset_session_def)

lemma begin_blind:
  assumes daily: "bt_daily_mode e" and same: "same_days d (bt_syms e) (bt_daily_map e) m"
  shows "\<exists>bars. begin_session hk store None d (e\<lparr>bt_daily_map := m\<rparr>)
    = lift_res (with_bars m bars) (begin_session hk store None d e)"
proof -
  have warm: "leave_warmup hk w (e\<lparr>bt_daily_map := m\<rparr>) = lift_res (\<lambda>e. e\<lparr>bt_daily_map := m\<rparr>) (leave_warmup hk w e)" for w
    by (cases e) (simp add: leave_warmup_def on_algo_def upd_algo_def lift_bind)
  show ?thesis
  proof (cases "leave_warmup hk (d < bt_start e) e")
    case (Inr e1)
    have keep: "bt_daily_mode e1 = bt_daily_mode e" "bt_syms e1 = bt_syms e" "bt_daily_map e1 = bt_daily_map e"
      using Inr by (auto simp: leave_warmup_def on_algo_def upd_algo_def bind_res_Inr_iff split: if_splits)
    define e2 where "e2 = (if d < bt_start e then e1 else land_sells d (land_cash d e1))"
    have keep2: "bt_daily_mode e2" "same_days d (bt_syms e2) (bt_daily_map e2) m"
      using keep daily same by (simp_all add: e2_def land_sells_def land_cash_def Let_def)
    have e2m: "(if d < bt_start e then e1\<lparr>bt_daily_map := m\<rparr> else land_sells d (land_cash d (e1\<lparr>bt_daily_map := m\<rparr>)))
        = e2\<lparr>bt_daily_map := m\<rparr>"
      by (cases e1) (simp add: e2_def land_sells_def land_cash_def Let_def)
    let ?B = "loaded_bars store None d e2" and ?C = "loaded_bars store None d (e2\<lparr>bt_daily_map := m\<rparr>)"
    have names: "map fst ?C = map fst ?B" by (rule loaded_names [OF keep2])
    then have nil: "(?C = []) = (?B = [])" by (metis map_is_Nil_conv)
    have spans: "session_spans d ?C e2 = session_spans d ?B e2"
      using spans_names [OF keep2(1), of d store] spans_names [of "e2\<lparr>bt_daily_map := m\<rparr>" d store] keep2(1) names
      by (simp add: session_spans_def)
    have "begin_session hk store None d (e\<lparr>bt_daily_map := m\<rparr>)
        = (let e3 = reset_session (d < bt_start e) ?C (?C \<noteq> []) d (e2\<lparr>bt_daily_map := m\<rparr>)
           in if ?C = [] then open_without_bar d e3 else open_with_bars d e3)"
      using keep2(1) by (simp add: begin_session_def warm Inr Let_def e2m cong: if_cong)
    moreover have "begin_session hk store None d e
        = (let e3 = reset_session (d < bt_start e) ?B (?B \<noteq> []) d e2
           in if ?B = [] then open_without_bar d e3 else open_with_bars d e3)"
      using keep2(1) by (simp add: begin_session_def Inr Let_def e2_def cong: if_cong)
    moreover have "reset_session w ?C f d (e2\<lparr>bt_daily_map := m\<rparr>) = with_bars m ?C (reset_session w ?B f d e2)" for w f
      by (rule reset_blind) (simp add: nil)
    ultimately show ?thesis
      by (intro exI [of _ ?C]) (simp add: Let_def nil blindD [OF open_without_blind] open_with_blind spans)
  qed (simp add: begin_session_def warm)
qed


section \<open>A partial session decides as the whole day does\<close>

text \<open>The live driver runs today's session without its bar, and only the handlers already due; when the bar has
  landed the same replay runs the whole day.  Both walk the same handlers from the same state.\<close>

lemma run_due_until:
  assumes "sorted_wrt (\<lambda>x y. fst x \<le> fst y) evs"
  shows "run_due hk d (Some now) evs e = run_due hk d None (filter (\<lambda>x. fst x \<le> now) evs) e"
  using assms
proof (induction evs arbitrary: e)
  case (Cons x evs)
  obtain t ev where x: "x = (t, ev)" by (cases x)
  show ?case
  proof (cases "t \<le> now")
    case True
    have "run_due hk d (Some now) evs = run_due hk d None (filter (\<lambda>x. fst x \<le> now) evs)"
      using Cons by (intro ext) simp
    with True show ?thesis by (simp add: x not_less)
  next
    case False
    then have "filter (\<lambda>x. fst x \<le> now) (x # evs) = []"
      using Cons.prems by (auto simp: x filter_empty_conv)
    then show ?thesis using False by (simp add: x)
  qed
qed simp

lemma run_due_append:
  "run_due hk d None (xs @ ys) e
    = bind_res (run_due hk d None xs e) (\<lambda>e'. if al_quit (bt_algo e') \<and> xs \<noteq> [] then Inr e' else run_due hk d None ys e')"
proof (induction xs arbitrary: e)
  case (Cons x xs)
  obtain t ev where x: "x = (t, ev)" by (cases x)
  show ?case
  proof (cases "on_algo (hk_event hk (se_cb ev)) (upd_algo (set_ms d t) e)")
    case (Inr e1)
    then show ?thesis
      using Cons.IH [of e1] by (cases "al_quit (bt_algo e1)"; cases xs) (auto simp: x unless_quit_def)
  qed (simp add: x)
qed simp

lemma sorted_events_sorted: "sorted_events evs = Inr es \<Longrightarrow> sorted_wrt (\<lambda>x y. fst x \<le> fst y) es \<and> mset es = mset evs"
proof -
  assume "sorted_events evs = Inr es"
  then have es: "es = sort_key fst evs" by (auto simp: sorted_events_def split: if_splits)
  have "sorted (map fst es)" by (simp add: es)
  then show ?thesis by (simp add: es sorted_map)
qed

text \<open>A live daily tick with the session open runs exactly the handlers the whole day would have run by
  then, in fire order, and the day later runs the others from the state they left: stopping at the clock and
  continuing is running the list once.\<close>

theorem partial_session_is_a_prefix:
  assumes "sorted_events evs = Inr es"
  shows "run_due hk d None es e = bind_res (run_due hk d (Some now) es e)
    (\<lambda>e'. if al_quit (bt_algo e') \<and> filter (\<lambda>x. fst x \<le> now) es \<noteq> [] then Inr e'
          else run_due hk d None (filter (\<lambda>x. now < fst x) es) e')"
proof -
  note srt = conjunct1 [OF sorted_events_sorted [OF assms]]
  have split: "es = filter (\<lambda>x. fst x \<le> now) es @ filter (\<lambda>x. now < fst x) es"
    using srt
  proof (induction es)
    case (Cons x es)
    show ?case
    proof (cases "fst x \<le> now")
      case False
      then have "filter (\<lambda>x. fst x \<le> now) (x # es) = []" "filter (\<lambda>x. now < fst x) (x # es) = x # es"
        using Cons.prems by (auto simp: filter_empty_conv filter_id_conv)
      then show ?thesis by simp
    qed (use Cons in auto)
  qed simp
  show ?thesis
    by (subst split) (simp only: run_due_append run_due_until [OF srt])
qed

section \<open>What goes wrong\<close>

text \<open>Two handlers due at one time before the close of a daily session: the sort compares the events, which
  have no order, and the run fails.\<close>

lemma two_events_at_one_time_fail:
  assumes "bt_daily_lean e" "\<not> bt_warm e" "day_schedule d e = Inr evs" "(t, a) \<in> set evs" "(t, b) \<in> set evs"
    "a \<noteq> b" "t < close_time_ms d"
  shows "open_with_bars d e = Inl TypeError"
proof -
  have "sorted_events (before_close d evs) = Inl TypeError"
    using assms(4-7) by (force simp: sorted_events_def before_close_def)
  then show ?thesis using assms(1-3) by (simp add: open_with_bars_def)
qed

text \<open>The run's one notice may be spent already: a skipped sale of a withdrawal then leaves no trace.\<close>

lemma second_skipped_sale_is_silent:
  "noticed b \<Longrightarrow> pos (ob_sleeve b) s \<le> 0 \<Longrightarrow> withdraw_sell cb (s, q) b = Inr b"
  by (simp add: withdraw_sell_def notice_def)

text \<open>A two-symbol indicator takes every minute bar, at whatever resolution it was registered.\<close>

lemma daily_pair_eats_minutes: "minute_sample s b DAILY Paired \<noteq> None"
  by (simp add: minute_sample_def)

section \<open>Inputs at which the theorems hold\<close>

definition demo_algo :: "sched_event list \<Rightarrow> note_log algo" where
  "demo_algo evs =
     \<lparr>re_book = (new_book (new_sleeve 10000 1 ''last_fill'') (0, 0) NoLedger)
        \<lparr>securities := [(''SPY'', \<lparr>sec_price = 0, sec_slippage = NullSlippage, sec_fee = NullFee\<rparr>)]\<rparr>,
      re_algo_logs = [], re_days = [], re_equity = [], re_flows = [], re_pending_flow = 0, re_start = 10000,
      re_syms = [''SPY''], re_resolutions = [], re_live = None, re_cache = None, al_now = (0, 0), al_quotes = [],
      al_invested = [], al_regs = [], al_inds = [], al_cons = [], al_events = evs, al_slice = [],
      al_warming = False, al_market_open = False, al_quit = False, al_user = []\<rparr>"

definition demo_event :: "time_rule \<Rightarrow> nat \<Rightarrow> sched_event" where
  "demo_event r n = \<lparr>se_date = EveryDay, se_time = r, se_cb = n, se_name = []\<rparr>"

definition demo_declared :: "bar_size \<Rightarrow> note_log declared" where
  "demo_declared sz =
     \<lparr>de_algo = demo_algo [demo_event (TimeAt 34300000) 1, demo_event (TimeAt 57600000) 2],
      de_start = Some 738000, de_end = Some 738001, de_cash = 10000, de_warmup = 1,
      de_resolutions = [(''SPY'', sz)], de_leverage = [(''SPY'', None)], de_account = None\<rparr>"

definition demo_stores :: stores where
  "demo_stores = \<lparr>st_minute_days = (\<lambda>_. [737998, 737999, 738000, 738001]),
     st_daily = (\<lambda>_. Some [(737999, (100, 101, 99, 100, 5)), (738000, (100, 103, 98, 102, 7))])\<rparr>"

definition demo_overrides :: overrides where
  "demo_overrides = \<lparr>ov_start = None, ov_end = None, ov_cash = None, ov_project = False, ov_cash_events = [],
     ov_live_today = None, ov_live_now = None\<rparr>"

definition demo_minute_bar :: "ms \<Rightarrow> bar" where
  "demo_minute_bar t = \<lparr>b_start = t, b_open = 100, b_high = 101, b_low = 99, b_close = 100, b_volume = 1\<rparr>"

definition demo_state :: "bar_size \<Rightarrow> note_log backtest" where
  "demo_state sz = (case setup_run demo_stores demo_overrides NoLedger False None True (demo_declared sz) of
     Inr e \<Rightarrow> e | Inl _ \<Rightarrow> undefined)"

lemma demo_setup: "setup_run demo_stores demo_overrides NoLedger False None True (demo_declared MINUTE) = Inr (demo_state MINUTE)"
proof -
  have "\<not> isl (setup_run demo_stores demo_overrides NoLedger False None True (demo_declared MINUTE))"
    by (simp add: setup_run_def demo_stores_def demo_overrides_def demo_declared_def all_daily_def store_days_of_def
        mk_calendar_def daily_rows_of_def dkeys_def Let_def)
  then show ?thesis by (auto simp: demo_state_def split: sum.splits)
qed

theorem only_stored_days_run_witness:
  "\<exists>days. bt_sessions (demo_state MINUTE) = days @ (case bt_partial_day (demo_state MINUTE) of None \<Rightarrow> [] | Some d \<Rightarrow> [d])
    \<and> set days \<subseteq> set (store_days_of demo_stores False [''SPY''] (bt_daily_map (demo_state MINUTE)))
    \<and> sorted_wrt (<) days \<and> length (filter (\<lambda>d. d < bt_start (demo_state MINUTE)) days) \<le> 1"
  using only_stored_days_run [OF demo_setup]
  by (simp add: demo_declared_def all_daily_def demo_state_def setup_run_def demo_overrides_def demo_stores_def
      store_days_of_def mk_calendar_def daily_rows_of_def dkeys_def Let_def)

theorem schedules_never_miss_the_calendar_witness:
  "\<exists>due. events_for (bt_cal (demo_state MINUTE)) 738000 [demo_event (TimeAt 34300000) 1] = Inr due"
proof (rule schedules_never_miss_the_calendar [OF demo_setup])
  show "738000 \<in> set (bt_sessions (demo_state MINUTE))"
    by (simp add: demo_declared_def all_daily_def demo_state_def setup_run_def demo_overrides_def demo_stores_def
      store_days_of_def mk_calendar_def daily_rows_of_def dkeys_def Let_def run_sessions_def setup_state_def
      partial_session_day_def)
qed

definition demo_open :: "note_log backtest" where
  "demo_open = (demo_state MINUTE)
     \<lparr>bt_day_bars := [(''SPY'', [demo_minute_bar 34200000, demo_minute_bar 34260000])], bt_spans := [(''SPY'', 60000)],
      bt_day_events := [(34300000, demo_event (TimeAt 34300000) 1), (57600000, demo_event (TimeAt 57600000) 2)]\<rparr>"

definition demo_timeline :: "(ms \<times> entries) list" where
  "demo_timeline = [(34260000, [(''SPY'', 0)]), (34320000, [(''SPY'', 1)])]"

lemma demo_open_facts:
  "session_state_ok demo_open" "bt_prev_t demo_open = - 1" "bt_primed demo_open = - 1" "al_user (bt_algo demo_open) = []"
  "bt_day_events demo_open = [(34300000, demo_event (TimeAt 34300000) 1), (57600000, demo_event (TimeAt 57600000) 2)]"
  by (simp_all add: demo_open_def demo_declared_def all_daily_def demo_state_def setup_run_def demo_overrides_def demo_stores_def
      store_days_of_def mk_calendar_def daily_rows_of_def dkeys_def Let_def setup_state_def setup_algo_def demo_algo_def
      session_state_ok_def lean_order_def)

lemma demo_walk:
  "\<not> isl (walk (recording quiet) 738000 demo_timeline demo_open)"
  by code_simp

theorem events_run_once_witness:
  "al_user (bt_algo (projr (walk (recording quiet) 738000 demo_timeline demo_open))) = [(1, 738000, 34320000)]"
proof -
  obtain e' where e': "walk (recording quiet) 738000 demo_timeline demo_open = Inr e'"
    using demo_walk by (cases "walk (recording quiet) 738000 demo_timeline demo_open") auto
  have "al_user (bt_algo e') = al_user (bt_algo demo_open)
    @ concat (map (\<lambda>t. map (\<lambda>x. (se_cb (snd x), 738000, t))
        (filter (\<lambda>x. fires_at (bt_prev_t demo_open) (bt_primed demo_open) (map fst demo_timeline) (fst x) = Some t)
          (bt_day_events demo_open))) (map fst demo_timeline))"
    by (rule events_run_once [OF recording_recorder demo_open_facts(1) _ _ e'])
       (simp_all add: demo_timeline_def demo_open_facts)
  then have "al_user (bt_algo e') = [(1, 738000, 34320000)]"
    by (simp add: demo_open_facts demo_timeline_def fires_at_def demo_event_def)
  then show ?thesis by (simp only: e' sum.sel)
qed

definition demo_bars :: minute_store where
  "demo_bars s d = (if d = 738000 \<or> d = 738001 then Some [demo_minute_bar 34200000, demo_minute_bar 34260000] else None)"

lemma recording_lawful: "lawful (recording quiet)"
  by (simp add: lawful_def recording_def keeps_def algo_step_def book_step_refl handler_ok_def quiet_def good_refl)

lemma demo_run_all: "\<not> isl (run_all (recording quiet) demo_bars (demo_state MINUTE))"
  by code_simp


definition demo_rows :: "(sym, (day, daily_row) dict) dict" where
  "demo_rows = [(''SPY'', [(738000, (7, 8, 6, 7, 1))])]"


definition demo_due :: "(ms \<times> sched_event) list" where
  "demo_due = [(34300000, demo_event (TimeAt 34300000) 1), (56700000, demo_event (TimeAt 56700000) 2)]"

lemma demo_due_sorted: "sorted_events demo_due = Inr demo_due"
  by (simp add: sorted_events_def demo_due_def demo_event_def)

theorem partial_session_is_a_prefix_witness:
  "run_due (recording quiet) 738000 None demo_due demo_open
    = bind_res (run_due (recording quiet) 738000 (Some 40000000) demo_due demo_open)
        (\<lambda>e'. if al_quit (bt_algo e') \<and> filter (\<lambda>x. fst x \<le> 40000000) demo_due \<noteq> [] then Inr e'
              else run_due (recording quiet) 738000 None (filter (\<lambda>x. 40000000 < fst x) demo_due) e')"
  by (rule partial_session_is_a_prefix [OF demo_due_sorted])

end
