(* ===== verification/Timeline.thy ===== *)
theory Timeline
  imports Engine
begin

text \<open>
  The merged timeline of a session and the walk over it in parts, as the live engine and the fast path
  take it.
\<close>

section \<open>The timeline\<close>

lemma timeline_filter: "timeline (filter (\<lambda>x. P (fst x)) es) = filter (\<lambda>x. P (fst x)) (timeline es)"
proof -
  have k: "sort (remdups (map fst (filter (\<lambda>x. P (fst x)) es))) = filter P (sort (remdups (map fst es)))"
    by (simp add: filter_map [unfolded o_def, symmetric] remdups_filter [symmetric] filter_sort)
  show ?thesis
    unfolding timeline_def k by (auto simp: filter_map o_def intro!: map_cong filter_cong)
qed

lemma timeline_times: "map fst (timeline es) = sort (remdups (map fst es))"
  by (simp add: timeline_def o_def)

lemma timeline_sorted: "sorted_wrt (<) (map fst (timeline es))"
  by (simp add: timeline_times strict_sorted_iff)

lemma timeline_entries: "(t, xs) \<in> set (timeline es) \<Longrightarrow> si \<in> set xs \<Longrightarrow> (t, si) \<in> set es"
  by (auto simp: timeline_def)

lemma timeline_has: "(t, si) \<in> set es \<Longrightarrow> \<exists>xs. (t, xs) \<in> set (timeline es) \<and> si \<in> set xs"
  by (force simp: timeline_def)

lemma takeWhile_sorted:
  "sorted_wrt (\<lambda>x y. fst x \<le> fst y) xs \<Longrightarrow> takeWhile (\<lambda>x. fst x \<le> k) xs = filter (\<lambda>x. fst x \<le> (k::int)) xs"
proof (induction xs)
  case (Cons x xs)
  have "\<not> fst x \<le> k \<Longrightarrow> filter (\<lambda>y. fst y \<le> k) xs = []"
    using Cons.prems by (auto simp: filter_empty_conv)
  then show ?case using Cons by auto
qed simp

lemma split_at_time:
  assumes "sorted_wrt (<) (map fst xs)" "(T::int) \<le> now"
  shows "filter (\<lambda>x. fst x \<le> now) xs = filter (\<lambda>x. fst x \<le> T) xs @ filter (\<lambda>x. T < fst x \<and> fst x \<le> now) xs"
  using assms(1)
proof (induction xs)
  case (Cons x xs)
  then have "filter (\<lambda>y. fst y \<le> T) xs = []" if "T < fst x"
    using that by (auto simp: filter_empty_conv)
  then show ?case using Cons assms(2) by auto
qed simp

lemma cut_at_time:
  assumes "sorted_wrt (<) (map fst xs)"
  shows "xs = filter (\<lambda>x. fst x \<le> (k::int)) xs @ filter (\<lambda>x. k < fst x) xs"
  using assms
proof (induction xs)
  case (Cons x xs)
  then have "filter (\<lambda>y. fst y \<le> k) xs = []" if "k < fst x"
    using that by (auto simp: filter_empty_conv)
  then show ?case using Cons by auto
qed simp

section \<open>Walking in parts\<close>

lemma walk_append:
  "\<not> al_quit (bt_algo e) \<Longrightarrow> walk hk d (xs @ ys) e = bind_res (walk hk d xs e) (unless_quit (walk hk d ys))"
proof (induction xs arbitrary: e)
  case (Cons x xs)
  obtain t es where x: "x = (t, es)" by (cases x)
  have "unless_quit (walk hk d (xs @ ys)) e1 = bind_res (unless_quit (walk hk d xs) e1) (unless_quit (walk hk d ys))" for e1
    using Cons.IH [of e1] by (cases "al_quit (bt_algo e1)") (simp_all add: unless_quit_def [abs_def])
  then show ?case by (cases "step_bar hk d t es e") (simp_all add: x)
qed (simp add: unless_quit_def)

lemma walk_parts:
  assumes "walk hk d (xs @ ys) e = Inr e'" "\<not> al_quit (bt_algo e)" "\<not> al_quit (bt_algo e')"
  obtains e1 where "walk hk d xs e = Inr e1" "\<not> al_quit (bt_algo e1)" "walk hk d ys e1 = Inr e'"
  using assms by (auto simp: walk_append bind_res_Inr_iff unless_quit_def split: if_splits)

end
