(* ===== verification/LiveDay.thy ===== *)
theory LiveDay
  imports WarmEngine EngineProps DailyProps Timeline
begin

text \<open>
  The live engine against the batch driver.  \<open>blind_on A B\<close> says that an operation run on a state that
  holds the bars \<open>B\<close> does what it does on the bars \<open>A\<close>; every step of a bar whose entries both hold is
  blind, so a session stepped over growing prefixes of the day ends where the batch walk over the whole
  day ends (\<open>live_session_is_the_batch_session\<close>).
\<close>

section \<open>Operations that do not look at the bars ahead\<close>

definition rebar :: "(sym, day_bars) dict \<Rightarrow> 'u backtest \<Rightarrow> 'u backtest" where
  "rebar B e = e\<lparr>bt_day_bars := B\<rparr>"

lemma rebar_fields [simp]:
  "bt_algo (rebar B e) = bt_algo e" "bt_daily_lean (rebar B e) = bt_daily_lean e"
  "bt_first_done (rebar B e) = bt_first_done e" "bt_warm (rebar B e) = bt_warm e"
  "bt_sells_due (rebar B e) = bt_sells_due e" "book_of (rebar B e) = book_of e"
  "bt_carried (rebar B e) = bt_carried e" "bt_day_bars (rebar B e) = B"
  "bt_spans (rebar B e) = bt_spans e" "bt_prev_t (rebar B e) = bt_prev_t e" "bt_primed (rebar B e) = bt_primed e"
  "bt_lean_edges (rebar B e) = bt_lean_edges e" "bt_syms (rebar B e) = bt_syms e"
  "bt_day_events (rebar B e) = bt_day_events e" "bt_slice (rebar B e) = bt_slice e"
  "bt_daily_mode (rebar B e) = bt_daily_mode e" "bt_bar_ms (rebar B e) = bt_bar_ms e"
  "rebar C (rebar B e) = rebar C e" "rebar (bt_day_bars e) e = e"
  by (simp_all add: rebar_def book_of_def)

lemma rebar_upd [simp]:
  "(rebar B e)\<lparr>bt_algo := a\<rparr> = rebar B (e\<lparr>bt_algo := a\<rparr>)"
  "(rebar B e)\<lparr>bt_sells_due := x\<rparr> = rebar B (e\<lparr>bt_sells_due := x\<rparr>)"
  "(rebar B e)\<lparr>bt_slice := y\<rparr> = rebar B (e\<lparr>bt_slice := y\<rparr>)"
  "(rebar B e)\<lparr>bt_prev_t := v\<rparr> = rebar B (e\<lparr>bt_prev_t := v\<rparr>)"
  "(rebar B e)\<lparr>bt_first_done := z\<rparr> = rebar B (e\<lparr>bt_first_done := z\<rparr>)"
  "(rebar B e)\<lparr>bt_first_done := z, bt_prev_t := v\<rparr> = rebar B (e\<lparr>bt_first_done := z, bt_prev_t := v\<rparr>)"
  "upd_algo f (rebar B e) = rebar B (upd_algo f e)"
  by (cases e, simp add: rebar_def upd_algo_def)+

type_synonym session_frame = "(sym, day_bars) dict \<times> (sym, int) dict \<times> sym list"

definition holds_bars :: "session_frame \<Rightarrow> 'u backtest \<Rightarrow> bool" where
  "holds_bars A e \<longleftrightarrow> (bt_day_bars e, bt_spans e, bt_syms e) = A \<and> \<not> bt_daily_lean e"

lemma holds_upd [simp]:
  "holds_bars A (e\<lparr>bt_algo := a\<rparr>) = holds_bars A e" "holds_bars A (e\<lparr>bt_sells_due := x\<rparr>) = holds_bars A e"
  "holds_bars A (e\<lparr>bt_slice := y\<rparr>) = holds_bars A e" "holds_bars A (upd_algo f e) = holds_bars A e"
  "holds_bars A (e\<lparr>bt_prev_t := v\<rparr>) = holds_bars A e"
  "holds_bars A (e\<lparr>bt_first_done := z\<rparr>) = holds_bars A e"
  "holds_bars A (e\<lparr>bt_first_done := z, bt_prev_t := v\<rparr>) = holds_bars A e"
  by (simp_all add: holds_bars_def upd_algo_def)

definition blind_on :: "session_frame \<Rightarrow> (sym, day_bars) dict \<Rightarrow> ('u backtest \<Rightarrow> 'u backtest res) \<Rightarrow> bool" where
  "blind_on A B f \<longleftrightarrow> (\<forall>e. holds_bars A e \<longrightarrow>
     f (rebar B e) = lift_res (rebar B) (f e) \<and> (\<forall>e'. f e = Inr e' \<longrightarrow> holds_bars A e'))"

lemma blind_onD:
  "blind_on A B f \<Longrightarrow> holds_bars A e \<Longrightarrow> f (rebar B e) = lift_res (rebar B) (f e)"
  "blind_on A B f \<Longrightarrow> holds_bars A e \<Longrightarrow> f e = Inr e' \<Longrightarrow> holds_bars A e'"
  by (simp_all add: blind_on_def)

lemma blind_onI:
  "(\<And>e. holds_bars A e \<Longrightarrow> f (rebar B e) = lift_res (rebar B) (f e)) \<Longrightarrow>
   (\<And>e e'. holds_bars A e \<Longrightarrow> f e = Inr e' \<Longrightarrow> holds_bars A e') \<Longrightarrow> blind_on A B f"
  by (simp add: blind_on_def)

lemma blind_bind:
  assumes "blind_on A B f" "blind_on A B g"
  shows "blind_on A B (\<lambda>e. bind_res (f e) g)"
  unfolding blind_on_def
proof (intro allI impI)
  fix e :: "'a backtest" assume h: "holds_bars A e"
  show "bind_res (f (rebar B e)) g = lift_res (rebar B) (bind_res (f e) g)
    \<and> (\<forall>e'. bind_res (f e) g = Inr e' \<longrightarrow> holds_bars A e')"
    using blind_onD [OF assms(1) h] blind_onD [OF assms(2)] by (cases "f e") auto
qed

lemma blind_fold: "(\<And>x. x \<in> set xs \<Longrightarrow> blind_on A B (f x)) \<Longrightarrow> blind_on A B (fold_res f xs)"
proof (induction xs)
  case (Cons x xs)
  then have "blind_on A B (\<lambda>e. bind_res (f x e) (fold_res f xs))" by (intro blind_bind) simp_all
  then show ?case by simp
qed (simp add: blind_on_def)

lemma blind_when:
  "(\<And>e. c (rebar B e) = c e) \<Longrightarrow> blind_on A B f \<Longrightarrow> blind_on A B (\<lambda>e. when_do (c e) f e)"
  by (auto simp: blind_on_def when_do_def)

lemma blind_quit: "blind_on A B f \<Longrightarrow> blind_on A B (unless_quit f)"
  by (auto simp: blind_on_def unless_quit_def)

lemma blind_algo: "blind_on A B (on_algo f)"
  by (auto simp: blind_on_def on_algo_def lift_bind bind_res_Inr_iff)

lemma blind_upd:
  assumes "blind_on A B f" "\<And>e. g (rebar B e) = g e"
  shows "blind_on A B (\<lambda>e. f (upd_algo (g e) e))"
proof (rule blind_onI)
  fix e e' :: "'a backtest" assume h: "holds_bars A e"
  then have h': "holds_bars A (upd_algo (g e) e)" by simp
  show "f (upd_algo (g (rebar B e)) (rebar B e)) = lift_res (rebar B) (f (upd_algo (g e) e))"
    using blind_onD(1) [OF assms(1) h'] by (simp add: assms(2))
  show "f (upd_algo (g e) e) = Inr e' \<Longrightarrow> holds_bars A e'"
    by (rule blind_onD(2) [OF assms(1) h'])
qed

text \<open>A step whose choice of operation depends on what both states agree on.\<close>

lemma blind_choice:
  assumes "\<And>e. c (rebar B e) = c e" "\<And>e. g (rebar B e) = g e" "\<And>x. blind_on A B (f x)"
  shows "blind_on A B (\<lambda>e. when_do (c e) (f (g e)) e)"
proof (rule blind_onI)
  fix e e' :: "'a backtest" assume h: "holds_bars A e"
  show "when_do (c (rebar B e)) (f (g (rebar B e))) (rebar B e) = lift_res (rebar B) (when_do (c e) (f (g e)) e)"
    by (simp add: when_do_def assms(1,2) blind_onD(1) [OF assms(3) h])
  show "when_do (c e) (f (g e)) e = Inr e' \<Longrightarrow> holds_bars A e'"
    using h blind_onD(2) [OF assms(3) h] by (cases "c e") (simp_all add: when_do_def)
qed

lemma blind_algo_of:
  "(\<And>e. holds_bars A e \<Longrightarrow> F (rebar B e) = F e) \<Longrightarrow> blind_on A B (\<lambda>e. on_algo (F e) e)"
  by (auto simp: blind_on_def on_algo_def lift_bind bind_res_Inr_iff)

text \<open>A value read first, the same under both.\<close>

lemma blind_read:
  assumes "\<And>e. holds_bars A e \<Longrightarrow> r (rebar B e) = r e" "\<And>x. blind_on A B (f x)"
  shows "blind_on A B (\<lambda>e. bind_res (r e) (\<lambda>x. f x e))"
  unfolding blind_on_def
proof (intro allI impI)
  fix e :: "'a backtest" assume h: "holds_bars A e"
  show "bind_res (r (rebar B e)) (\<lambda>x. f x (rebar B e)) = lift_res (rebar B) (bind_res (r e) (\<lambda>x. f x e))
    \<and> (\<forall>e'. bind_res (r e) (\<lambda>x. f x e) = Inr e' \<longrightarrow> holds_bars A e')"
    using assms(1) [OF h] blind_onD [OF assms(2) h] by (cases "r e") auto
qed

text \<open>Both hold the bar.\<close>

definition both_hold :: "(sym, day_bars) dict \<Rightarrow> (sym, day_bars) dict \<Rightarrow> sym \<times> nat \<Rightarrow> bool" where
  "both_hold A B si \<longleftrightarrow> (\<exists>a b. dget A (fst si) = Some a \<and> dget B (fst si) = Some b
     \<and> snd si < length a \<and> snd si < length b \<and> a ! snd si = b ! snd si)"

lemma bar_at_blind: "both_hold (fst A) B si \<Longrightarrow> holds_bars A e \<Longrightarrow> bar_at (rebar B e) si = bar_at e si"
  by (auto simp: both_hold_def holds_bars_def bar_at_def)

lemma span_at_blind: "span_at (rebar B e) s = span_at e s"
  by (simp add: span_at_def)

lemma check_bar_blind: "both_hold (fst A) B si \<Longrightarrow> blind_on A B (check_bar hk ex si)"
  unfolding check_bar_def [abs_def] by (intro blind_read blind_algo bar_at_blind)

lemma apply_bar_blind: "both_hold (fst A) B si \<Longrightarrow> blind_on A B (apply_bar hk d t si)"
proof -
  assume b: "both_hold (fst A) B si"
  have "blind_on A B (\<lambda>e. on_algo (\<lambda>a. bind_res (quote_bar s b a) (\<lambda>a1.
      let a2 = feed_indicators (minute_sample s tb) s a1;
          a3 = (if bt_daily_lean e then feed_indicators (daily_sample s d (dget_or (bt_day_bars e) s [])) s a2 else a2)
      in feed_consolidators hk s tb a3)) (e\<lparr>bt_slice := dput (bt_slice e) s tb\<rparr>))" for s b tb
    by (auto simp: blind_on_def on_algo_def lift_bind bind_res_Inr_iff holds_bars_def)
  then show ?thesis
    unfolding apply_bar_def [abs_def] Let_def
    by (intro blind_read bar_at_blind [OF b] span_at_blind) auto
qed

lemma fold_res_cong: "(\<And>x s. x \<in> set xs \<Longrightarrow> f x s = g x s) \<Longrightarrow> fold_res f xs s = fold_res g xs s"
  by (induction xs arbitrary: s) (auto simp: fun_eq_iff intro!: arg_cong2 [where f = bind_res])

lemma open_fill_blind:
  assumes "\<forall>si\<in>set es. both_hold (fst A) B si"
  shows "blind_on A B (fill_market_on_open hk es)"
proof -
  have "session_opens es (rebar B e) = session_opens es e" if h: "holds_bars A e" for e :: "'u backtest"
  proof -
    have "bar_at (rebar B e) si = bar_at e si" if "si \<in> set es" for si
      using bar_at_blind [OF _ h] assms that by blast
    then show ?thesis unfolding session_opens_def by (intro fold_res_cong) simp
  qed
  moreover have "blind_on A B (\<lambda>e. on_algo (book_algo (\<lambda>b. fill_at_session_edge (hk_order hk) b MARKET_ON_OPEN opens
         (if bt_daily_lean e then Some (fst (clock b)) else None))) e)" for opens
    by (rule blind_algo_of) simp
  ultimately show ?thesis unfolding fill_market_on_open_def [abs_def] by (intro blind_read)
qed

lemma edge_blind: "blind_on A B (fill_edge hk kind)"
  unfolding fill_edge_def by (rule blind_algo)

lemma data_blind: "blind_on A B (call_on_data hk)"
proof -
  have "blind_on A B (\<lambda>e. case hk_on_data hk of None \<Rightarrow> Inr (upd_algo (g (bt_slice e)) e)
      | Some f \<Rightarrow> on_algo f (upd_algo (g (bt_slice e)) e))" for g
    by (cases "hk_on_data hk") (auto simp: blind_on_def on_algo_def lift_bind bind_res_Inr_iff upd_algo_def)
  then show ?thesis unfolding call_on_data_def [abs_def] Let_def .
qed

lemma take_bars_blind:
  assumes "\<forall>si\<in>set es. both_hold (fst A) B si"
  shows "blind_on A B (take_bars hk d t es)"
proof -
  have fold: "blind_on A B (fold_res (check_bar hk ex) es)" for ex
    using assms by (intro blind_fold check_bar_blind) blast
  have checks: "blind_on A B (\<lambda>e. when_do (\<not> bt_carried e)
      (fold_res (check_bar hk (if t \<le> bt_primed e then Some (d, t) else None)) es) e)"
    by (rule blind_choice [where f = "\<lambda>ex. fold_res (check_bar hk ex) es"]) (simp_all add: fold)
  have first: "blind_on A B (\<lambda>e. fold_res (apply_bar hk d t) es (e\<lparr>bt_slice := []\<rparr>))"
  proof (rule blind_onI)
    have f: "blind_on A B (fold_res (apply_bar hk d t) es)"
      using assms by (intro blind_fold apply_bar_blind) blast
    fix e e' :: "'a backtest" assume "holds_bars A e"
    then have h: "holds_bars A (e\<lparr>bt_slice := []\<rparr>)" by simp
    show "fold_res (apply_bar hk d t) es ((rebar B e)\<lparr>bt_slice := []\<rparr>)
        = lift_res (rebar B) (fold_res (apply_bar hk d t) es (e\<lparr>bt_slice := []\<rparr>))"
      using blind_onD(1) [OF f h] by simp
    show "fold_res (apply_bar hk d t) es (e\<lparr>bt_slice := []\<rparr>) = Inr e' \<Longrightarrow> holds_bars A e'"
      by (rule blind_onD(2) [OF f h])
  qed
  have opens: "blind_on A B (\<lambda>e. when_do (\<not> bt_first_done e \<and> \<not> bt_warm e \<and> bt_lean_edges e \<and> \<not> bt_carried e)
      (fill_market_on_open hk es) e)"
    by (rule blind_when [OF _ open_fill_blind [OF assms]]) simp
  have closes: "blind_on A B (\<lambda>e. when_do (bt_daily_lean e \<and> \<not> bt_carried e) (fill_edge hk MARKET_ON_CLOSE) e)"
    by (rule blind_when [OF _ edge_blind]) simp
  show ?thesis
    unfolding take_bars_def [abs_def]
    by (rule blind_bind [OF first blind_bind [OF opens blind_bind [OF checks blind_bind [OF closes data_blind]]]])
qed

lemma run_events_blind: "blind_on A B (run_events hk evs)"
  unfolding run_events_def by (intro blind_fold blind_algo)

lemma after_bars_blind:
  assumes "\<forall>si\<in>set es. both_hold (fst A) B si"
  shows "blind_on A B (after_bars hk d t es)"
proof -
  have evs: "blind_on A B (\<lambda>e. when_do (\<not> bt_warm e) (run_events hk (due_at (bt_prev_t e) (bt_primed e) t (bt_day_events e))) e)"
    by (rule blind_choice [where f = "run_events hk"]) (simp_all add: run_events_blind)
  have checks: "blind_on A B (fold_res (check_bar hk (Some (d, t))) es)"
    using assms by (intro blind_fold check_bar_blind) blast
  have stamp: "blind_on A B (\<lambda>e. Inr (e\<lparr>bt_first_done := True, bt_prev_t := t\<rparr>))"
    by (rule blind_onI) auto
  have open_late: "blind_on A B (\<lambda>e. when_do (\<not> bt_first_done e \<and> (bt_warm e \<or> \<not> bt_lean_edges e) \<and> \<not> bt_carried e)
      (fill_edge hk MARKET_ON_OPEN) e)"
    by (rule blind_when [OF _ edge_blind]) simp
  have last_part: "blind_on A B (\<lambda>e. bind_res (when_do (\<not> bt_first_done (upd_algo (mark_invested (bt_syms e)) e)
        \<and> (bt_warm (upd_algo (mark_invested (bt_syms e)) e) \<or> \<not> bt_lean_edges (upd_algo (mark_invested (bt_syms e)) e))
        \<and> \<not> bt_carried (upd_algo (mark_invested (bt_syms e)) e)) (fill_edge hk MARKET_ON_OPEN) (upd_algo (mark_invested (bt_syms e)) e))
      (\<lambda>e4. Inr (e4\<lparr>bt_first_done := True, bt_prev_t := t\<rparr>)))"
    by (rule blind_upd [OF blind_bind [OF open_late stamp]]) simp
  have checked: "blind_on A B (\<lambda>e. when_do (\<not> bt_carried e) (fold_res (check_bar hk (Some (d, t))) es) e)"
    by (rule blind_when [OF _ checks]) simp
  show ?thesis
    unfolding after_bars_def [abs_def] Let_def
    by (rule blind_bind [OF evs blind_bind [OF checked last_part]])
qed

lemma step_bar_lean:
  assumes "\<not> bt_daily_lean e"
  shows "step_bar hk d t es e =
    (let e0 = upd_algo (set_ms d t) e
     in bind_res (when_do (bt_sells_due e0 \<noteq> [] \<and> \<not> bt_warm e0) (place_withdraw_sells hk) e0) (\<lambda>e1.
        bind_res (take_bars hk d t es e1) (unless_quit (after_bars hk d t es))))"
proof -
  let ?e = "upd_algo (set_ms d t) e"
  have "open_events hk d e1 = Inr (False, e1)"
    if "when_do (bt_sells_due ?e \<noteq> [] \<and> \<not> bt_warm ?e) (place_withdraw_sells hk) ?e = Inr e1" for e1
    using that assms
    by (auto simp: open_events_def when_do_def place_withdraw_sells_def on_algo_def bind_res_Inr_iff upd_algo_def split: if_splits)
  then show ?thesis
    by (cases "when_do (bt_sells_due ?e \<noteq> [] \<and> \<not> bt_warm ?e) (place_withdraw_sells hk) ?e")
       (simp_all add: step_bar_def Let_def)
qed

lemma place_sells_blind: "blind_on A B (place_withdraw_sells hk)"
  by (auto simp: blind_on_def place_withdraw_sells_def on_algo_def lift_bind bind_res_Inr_iff)

lemma step_bar_blind:
  assumes "\<forall>si\<in>set es. both_hold (fst A) B si"
  shows "blind_on A B (step_bar hk d t es)"
proof -
  let ?sells = "\<lambda>e. when_do (bt_sells_due (upd_algo (set_ms d t) e) \<noteq> [] \<and> \<not> bt_warm (upd_algo (set_ms d t) e))
      (place_withdraw_sells hk) (upd_algo (set_ms d t) e)"
  have sells: "blind_on A B ?sells"
    by (rule blind_upd [OF blind_when [OF _ place_sells_blind]]) simp_all
  let ?f = "\<lambda>e. bind_res (?sells e) (\<lambda>e1. bind_res (take_bars hk d t es e1) (unless_quit (after_bars hk d t es)))"
  have f: "blind_on A B ?f"
    by (rule blind_bind [OF sells blind_bind [OF take_bars_blind [OF assms] blind_quit [OF after_bars_blind [OF assms]]]])
  have "step_bar hk d t es e = ?f e" "step_bar hk d t es (rebar B e) = ?f (rebar B e)" if "holds_bars A e" for e :: "'a backtest"
    using that step_bar_lean [of e hk d t es] step_bar_lean [of "rebar B e" hk d t es]
    by (simp_all add: Let_def holds_bars_def)
  then show ?thesis using f by (simp add: blind_on_def)
qed

lemma walk_blind:
  "(\<And>t es si. (t, es) \<in> set bars \<Longrightarrow> si \<in> set es \<Longrightarrow> both_hold (fst A) B si) \<Longrightarrow> blind_on A B (walk hk d bars)"
proof (induction bars)
  case (Cons x bars)
  obtain t es where x: "x = (t, es)" by (cases x)
  have "blind_on A B (\<lambda>e. bind_res (step_bar hk d t es e) (unless_quit (walk hk d bars)))"
    using Cons by (intro blind_bind step_bar_blind blind_quit) (auto simp: x)
  then show ?case by (simp add: x)
qed (simp add: blind_on_def)

section \<open>A day fed bar by bar\<close>

text \<open>The day's bars cut to a number of bars per symbol.\<close>

definition view :: "(sym \<Rightarrow> nat) \<Rightarrow> (sym, day_bars) dict \<Rightarrow> (sym, day_bars) dict" where
  "view n B = map (\<lambda>(s, b). (s, take (n s) b)) B"

definition ends_at :: "int \<Rightarrow> (sym, day_bars) dict \<Rightarrow> (ms \<times> (sym \<times> nat)) list" where
  "ends_at sp B = concat (map (\<lambda>(s, b). map (\<lambda>i. (b_start (b ! i) + sp, (s, i))) [0..<length b]) B)"

text \<open>A whole day of bars at least one bar length apart.\<close>

definition spaced :: "int \<Rightarrow> day_bars \<Rightarrow> bool" where
  "spaced sp b \<longleftrightarrow> sorted_wrt (\<lambda>x y. b_start x + sp \<le> b_start y) b"

definition whole_day :: "int \<Rightarrow> (sym, day_bars) dict \<Rightarrow> bool" where
  "whole_day sp B \<longleftrightarrow> 0 < sp \<and> B \<noteq> [] \<and> distinct (map fst B)
     \<and> (\<forall>x\<in>set B. 2 \<le> length (snd x) \<and> spaced sp (snd x) \<and> (\<forall>y\<in>set (snd x). 0 \<le> b_start y))"

lemma view_keys [simp]: "map fst (view n B) = map fst B"
  by (simp add: view_def case_prod_unfold o_def)

lemma view_nil [simp]: "view n B = [] \<longleftrightarrow> B = []"
  by (simp add: view_def)

lemma dget_view: "dget (view n B) s = map_option (take (n s)) (dget B s)"
  by (induction B) (auto simp: view_def dget_def)

lemma view_all: "(\<And>x. x \<in> set B \<Longrightarrow> n (fst x) = length (snd x)) \<Longrightarrow> view n B = B"
proof (induction B)
  case (Cons x B)
  have "n (fst x) = length (snd x)" "view n B = B" using Cons by simp_all
  then show ?case by (cases x) (simp add: view_def)
qed (simp add: view_def)

lemma dget_in: "distinct (map fst B) \<Longrightarrow> (s, b) \<in> set B \<Longrightarrow> dget B s = Some b"
  by (simp add: dget_def)

lemma dget_set: "dget B s = Some b \<Longrightarrow> (s, b) \<in> set B"
  by (simp add: dget_def map_of_SomeD)

lemma spaced_nth: "spaced sp b \<Longrightarrow> i < j \<Longrightarrow> j < length b \<Longrightarrow> b_start (b ! i) + sp \<le> b_start (b ! j)"
  by (simp add: spaced_def sorted_wrt_iff_nth_less)

lemma closed_ends_view:
  assumes sp: "0 < sp" "spaced sp b" and n: "n \<le> length b" "\<And>i. i < length b \<Longrightarrow> b_start (b ! i) + sp \<le> now \<Longrightarrow> i < n"
    and done_: "\<And>x. x \<in> set b \<Longrightarrow> (b_start x + sp \<le> k) = (b_start x + sp \<le> T)"
  shows "closed_ends now k sp (s, take n b)
    = filter (\<lambda>x. T < fst x \<and> fst x \<le> now) (map (\<lambda>i. (b_start (b ! i) + sp, (s, i))) [0..<length b])"
proof -
  let ?f = "\<lambda>i. (b_start (b ! i) + sp, (s, i))"
  have "map (\<lambda>i. (b_start (take n b ! i) + sp, (s, i))) [0..<length (take n b)] = map ?f [0..<n]"
    using n(1) by (simp add: min_absorb2)
  moreover have "sorted_wrt (\<lambda>x y. fst x \<le> fst y) (map ?f [0..<n])"
    using n(1) spaced_nth [OF sp(2)] sp(1)
    by (force simp: sorted_wrt_map sorted_wrt_iff_nth_less)
  ultimately have "closed_ends now k sp (s, take n b) = filter (\<lambda>x. k < fst x) (filter (\<lambda>x. fst x \<le> now) (map ?f [0..<n]))"
    by (simp only: closed_ends_def fst_conv snd_conv takeWhile_sorted)
  also have "\<dots> = filter (\<lambda>x. T < fst x \<and> fst x \<le> now) (map ?f [0..<n])"
    unfolding filter_filter using done_ n(1) by (intro filter_cong) (auto simp: not_le [symmetric])
  also have "\<dots> = filter (\<lambda>x. T < fst x \<and> fst x \<le> now) (map ?f ([0..<n] @ [n..<length b]))"
    using n(2) by (auto simp: filter_empty_conv not_le [symmetric])
  also have "[0..<n] @ [n..<length b] = [0..<length b]"
    using n(1) upt_add_eq_append [of 0 n "length b - n"] by simp
  finally show ?thesis .
qed

section \<open>Stepping the engine\<close>

text \<open>What stepping the engine over the bars of a walk changes: the driver's state as the walk does, and
  where each symbol and the whole engine stand.\<close>

definition last_of :: "sym \<Rightarrow> (ms \<times> entries) list \<Rightarrow> ms \<Rightarrow> ms" where
  "last_of s bars k = foldl (\<lambda>k x. if s \<in> fst ` set (snd x) then fst x else k) k bars"

definition same_engine :: "'u warm_engine \<Rightarrow> 'u warm_engine \<Rightarrow> bool" where
  "same_engine w w' \<longleftrightarrow> we_dead w' = we_dead w \<and> we_warmed w' = we_warmed w \<and> we_day w' = we_day w
     \<and> we_completed w' = we_completed w \<and> we_first_ms w' = we_first_ms w"

lemma note_ends_last:
  "dget_or (foldl (\<lambda>m si. dput m (fst si) t) m es) s k = (if s \<in> fst ` set es then t else dget_or m s k)"
proof (induction es arbitrary: m)
  case (Cons x es)
  have "dget_or (dput m (fst x) t) s k = (if s = fst x then t else dget_or m s k)"
    by (simp add: dget_or_def dput_def update_conv')
  then show ?case unfolding foldl_Cons Cons.IH by (cases "s = fst x") auto
qed simp

lemma step_all_walk:
  "walk hk d bars (we_bt w) = Inr e' \<Longrightarrow> \<not> al_quit (bt_algo e') \<Longrightarrow>
    \<exists>w'. step_all hk d bars w = (Inr (), w') \<and> we_bt w' = e' \<and> same_engine w w'
      \<and> we_frontier w' = (if bars = [] then we_frontier w else fst (last bars))
      \<and> (\<forall>s. dget_or (we_last_end w') s (- 1) = last_of s bars (dget_or (we_last_end w) s (- 1)))"
proof (induction bars arbitrary: w)
  case (Cons x bars)
  obtain t es where x: "x = (t, es)" by (cases x)
  obtain e1 where e1: "step_bar hk d t es (we_bt w) = Inr e1" "unless_quit (walk hk d bars) e1 = Inr e'"
    using Cons.prems(1) by (auto simp: x bind_res_Inr_iff)
  then have nq: "\<not> al_quit (bt_algo e1)" using Cons.prems(2) by (auto simp: unless_quit_def)
  let ?w = "(note_ends t es (w\<lparr>we_bt := e1\<rparr>))\<lparr>we_frontier := t\<rparr>"
  have "walk hk d bars (we_bt ?w) = Inr e'" using e1(2) nq by (simp add: unless_quit_def note_ends_def)
  from Cons.IH [OF this Cons.prems(2)] obtain w' where
    "step_all hk d bars ?w = (Inr (), w')" "we_bt w' = e'" "same_engine ?w w'"
    "we_frontier w' = (if bars = [] then t else fst (last bars))"
    "\<forall>s. dget_or (we_last_end w') s (- 1) = last_of s bars (dget_or (we_last_end ?w) s (- 1))"
    by auto
  then show ?case
    using e1(1) nq by (auto simp: x Let_def same_engine_def note_ends_def note_ends_last last_of_def)
qed (simp add: same_engine_def last_of_def)

lemma last_of_cases: "last_of s bars k = k \<or> (\<exists>x\<in>set bars. s \<in> fst ` set (snd x) \<and> last_of s bars k = fst x)"
proof (induction bars arbitrary: k)
  case (Cons y bars)
  let ?k = "if s \<in> fst ` set (snd y) then fst y else k"
  have "last_of s (y # bars) k = last_of s bars ?k" by (simp add: last_of_def)
  then show ?case using Cons.IH [of ?k] by (cases "s \<in> fst ` set (snd y)") auto
qed (simp add: last_of_def)

lemma last_of_max:
  "sorted_wrt (<) (map fst bars) \<Longrightarrow> x \<in> set bars \<Longrightarrow> s \<in> fst ` set (snd x) \<Longrightarrow> fst x \<le> last_of s bars k"
proof (induction bars arbitrary: k)
  case (Cons y bars)
  let ?k = "if s \<in> fst ` set (snd y) then fst y else k"
  have l: "last_of s (y # bars) k = last_of s bars ?k" by (simp add: last_of_def)
  show ?case
  proof (cases "x = y")
    case True
    then show ?thesis using last_of_cases [of s bars ?k] Cons.prems by (auto simp: l)
  next
    case False
    then show ?thesis using Cons by (simp add: l)
  qed
qed simp

section \<open>The day's deliveries\<close>

text \<open>One call of \<open>advance\<close>: the clock, the store as it is then, and the rows the driver pushes, if it
  pushes.  \<open>brings\<close> says that the call shows the engine exactly \<open>n\<close> bars of each symbol when it holds
  \<open>m\<close> of them (none before the session is open).\<close>

type_synonym live_call = "ms \<times> minute_store \<times> (sym, bar_push) dict option"

definition pushes :: "day \<Rightarrow> nat \<Rightarrow> nat \<Rightarrow> day_bars \<Rightarrow> bar_push option \<Rightarrow> bool" where
  "pushes today m n b p \<longleftrightarrow>
     (case p of
        None \<Rightarrow> 0 < m \<and> n = m
      | Some p \<Rightarrow> pu_total p = n \<and> pu_first_ms p = b_start (b ! 0)
          \<and> (case day_bars_from_scaled today (pu_rows p) of None \<Rightarrow> [] | Some r \<Rightarrow> r) = drop m (take n b))"

definition brings ::
  "day \<Rightarrow> (sym, day_bars) dict \<Rightarrow> (sym \<Rightarrow> nat) \<Rightarrow> (sym \<Rightarrow> nat) \<Rightarrow> minute_store \<Rightarrow> (sym, bar_push) dict option \<Rightarrow> bool" where
  "brings today B m n store fed \<longleftrightarrow>
     (case fed of
        None \<Rightarrow> list_all (\<lambda>(s, b). store s today = Some (take (n s) b)) B
      | Some ps \<Rightarrow> list_all (\<lambda>(s, b). pushes today (m s) (n s) b (dget ps s)) B)"

text \<open>Calls in order: the clock does not run backwards, nothing that was shown is taken back, and every bar
  that has closed by then is shown.\<close>

definition shows_closed :: "int \<Rightarrow> (sym, day_bars) dict \<Rightarrow> ms \<Rightarrow> (sym \<Rightarrow> nat) \<Rightarrow> (sym \<Rightarrow> nat) \<Rightarrow> bool" where
  "shows_closed sp B now m n \<longleftrightarrow>
     list_all (\<lambda>(s, b). 2 \<le> n s \<and> m s \<le> n s \<and> n s \<le> length b
       \<and> list_all (\<lambda>i. b_start (b ! i) + sp \<le> now \<longrightarrow> i < n s) [0..<length b]) B"

fun fed_in_order ::
  "day \<Rightarrow> int \<Rightarrow> (sym, day_bars) dict \<Rightarrow> (sym \<Rightarrow> nat) \<Rightarrow> ms \<Rightarrow> (live_call \<times> (sym \<Rightarrow> nat)) list \<Rightarrow> bool" where
  "fed_in_order today sp B m T [] = True"
| "fed_in_order today sp B m T (((now, store, fed), n) # cs) =
     (T \<le> now \<and> shows_closed sp B now m n \<and> brings today B m n store fed \<and> fed_in_order today sp B n now cs)"

lemma shows_closedD:
  assumes "shows_closed sp B now m n" "(s, b) \<in> set B"
  shows "2 \<le> n s" "m s \<le> n s" "n s \<le> length b" "i < length b \<Longrightarrow> b_start (b ! i) + sp \<le> now \<Longrightarrow> i < n s"
  using assms by (auto simp: shows_closed_def list_all_iff)

text \<open>What the call reads is the view, pushed or stored.\<close>

lemma view_from_store:
  "list_all (\<lambda>(s, b). store s d = Some (take (n s) b) \<and> P (take (n s) b)) B \<Longrightarrow>
    concat (map (\<lambda>s. case store s d of None \<Rightarrow> [] | Some b \<Rightarrow> if P b then [(s, b)] else []) (map fst B)) = view n B"
  by (induction B) (auto simp: view_def)

lemma pushed_symbol_view:
  assumes p: "pushes today m n b p" and b: "spaced sp b" "0 < sp" "2 \<le> n" "m \<le> n" "n \<le> length b"
    and held: "held = (if m = 0 then None else Some (take m b))"
  shows "pushed_symbol today held p = Inr (Some (take n b))"
proof (cases p)
  case None
  then show ?thesis using p held by (simp add: pushes_def pushed_symbol_def)
next
  case (Some q)
  let ?delta = "drop m (take n b)"
  have q: "pu_total q = n" "pu_first_ms q = b_start (b ! 0)"
    "(case day_bars_from_scaled today (pu_rows q) of None \<Rightarrow> [] | Some r \<Rightarrow> r) = ?delta"
    using p by (simp_all add: Some pushes_def)
  show ?thesis
  proof (cases "m = 0")
    case True
    then show ?thesis using b q by (simp add: Some held pushed_symbol_def Let_def)
  next
    case False
    have joined: "take m b @ ?delta = take n b"
      using b(4) append_take_drop_id [of m "take n b"] by (simp add: min_absorb2)
    have "\<not> b_start (?delta ! 0) \<le> b_start (last (take m b))" if "?delta \<noteq> []"
    proof -
      have mn: "m < n" using that by (cases "m < n") auto
      have "last (take m b) = b ! (m - 1)"
        using False mn b(5) by (subst last_conv_nth) auto
      moreover have "?delta ! 0 = b ! m" using mn b(5) by simp
      ultimately show ?thesis using spaced_nth [OF b(1), of "m - 1" m] False mn b(2,5) by simp
    qed
    moreover have "take m b ! 0 = b ! 0" "length (take m b) + length ?delta = n"
      using False b(4,5) by simp_all
    moreover have "?delta = [] \<longleftrightarrow> m = n" using b(4,5) by auto
    ultimately show ?thesis
      using False q joined by (cases "m = n") (simp_all add: Some held pushed_symbol_def Let_def)
  qed
qed

lemma with_pushed_view:
  "(\<And>s b. (s, b) \<in> set B \<Longrightarrow> pushed_symbol today (dget held s) (dget ps s) = Inr (Some (take (n s) b))) \<Longrightarrow>
    with_pushed today ps held (map fst B) = Inr (view n B)"
proof (induction B)
  case (Cons x B)
  have "pushed_symbol today (dget held (fst x)) (dget ps (fst x)) = Inr (Some (take (n (fst x)) (snd x)))"
    using Cons.prems [of "fst x" "snd x"] by simp
  moreover have "with_pushed today ps held (map fst B) = Inr (view n B)" using Cons by simp
  ultimately show ?case by (simp add: view_def case_prod_unfold)
qed (simp add: view_def)

text \<open>Extending the session with a longer view.\<close>

lemma dput_there: "distinct (map fst (A @ (s, x) # C)) \<Longrightarrow> dput (A @ (s, x) # C) s y = A @ (s, y) # C"
  unfolding dput_def by (induction A) auto

lemma extend_all_view:
  "bt_day_bars (we_bt w) = view n P @ view m S \<Longrightarrow> distinct (map fst (P @ S)) \<Longrightarrow>
   (\<And>s b. (s, b) \<in> set S \<Longrightarrow> 0 < n s \<and> m s \<le> n s \<and> n s \<le> length b \<and> dget_or (we_first_ms w) s 0 = b_start (b ! 0)) \<Longrightarrow>
    extend_all (view n S) w = (Inr True, w\<lparr>we_bt := rebar (view n (P @ S)) (we_bt w)\<rparr>)"
proof (induction S arbitrary: P w)
  case Nil
  then show ?case by (simp add: view_def) (cases w, simp add: rebar_def view_def)
next
  case (Cons x S)
  obtain s b where x: "x = (s, b)" by (cases x)
  let ?w = "w\<lparr>we_bt := (we_bt w)\<lparr>bt_day_bars := dput (bt_day_bars (we_bt w)) s (take (n s) b)\<rparr>\<rparr>"
  have bars: "bt_day_bars (we_bt w) = view n P @ (s, take (m s) b) # view m S"
    using Cons.prems(1) by (simp add: x view_def)
  have dist: "distinct (map fst (view n P @ (s, take (m s) b) # view m S))"
    using Cons.prems(2) by (simp add: x)
  have put: "dput (bt_day_bars (we_bt w)) s (take (n s) b) = view n (P @ [x]) @ view m S"
    unfolding bars dput_there [OF dist] by (simp add: x view_def)
  have old: "dget_or (bt_day_bars (we_bt w)) s [] = take (m s) b"
    using dget_in [OF dist, of s "take (m s) b"] by (simp add: bars dict_simps)
  have ns: "0 < n s" "m s \<le> n s" "n s \<le> length b" "dget_or (we_first_ms w) s 0 = b_start (b ! 0)"
    using Cons.prems(3) [of s b] by (simp_all add: x)
  have "extend_symbol w (s, take (n s) b) = None"
    using ns by (simp add: extend_symbol_def old)
  moreover have "extend_all (view n S) ?w = (Inr True, ?w\<lparr>we_bt := rebar (view n ((P @ [x]) @ S)) (we_bt ?w)\<rparr>)"
    using Cons.prems(2,3) by (intro Cons.IH) (auto simp: put)
  ultimately show ?case by (cases w) (simp add: x view_def rebar_def)
qed

lemma extend_today_view:
  assumes "bt_day_bars (we_bt w) = view m B" "distinct (map fst B)"
    "\<And>s b. (s, b) \<in> set B \<Longrightarrow> 0 < n s \<and> m s \<le> n s \<and> n s \<le> length b \<and> dget_or (we_first_ms w) s 0 = b_start (b ! 0)"
  shows "extend_today hk (view n B) w = (Inr True, w\<lparr>we_bt := rebar (view n B) (we_bt w)\<rparr>)"
proof -
  have "dget (view m B) (fst x) \<noteq> None" if "x \<in> set (view n B)" for x
  proof -
    have "fst x \<in> set (map fst (view n B))" unfolding set_map using that by (rule imageI)
    then have "fst x \<in> fst ` set (view m B)" unfolding view_keys set_map [symmetric] .
    then show ?thesis unfolding dget_def map_of_eq_None_iff by simp
  qed
  then have none: "filter (\<lambda>x. dget (bt_day_bars (we_bt w)) (fst x) = None) (view n B) = []"
    by (simp add: assms(1) filter_empty_conv)
  have j: "join_late [] w = w" by (cases w) (simp add: join_late_def)
  have "extend_all (view n B) w = (Inr True, w\<lparr>we_bt := rebar (view n ([] @ B)) (we_bt w)\<rparr>)"
    by (rule extend_all_view) (use assms in \<open>auto simp: view_def\<close>)
  then show ?thesis unfolding extend_today_def Let_def none by (simp add: j)
qed

section \<open>Opening on a part of the day\<close>

lemma min_list_int_mem: "min_list_int xs = Some m \<Longrightarrow> m \<in> set xs"
  by (induction xs arbitrary: m) (auto split: option.splits if_splits simp: min_def)

lemma gaps_spaced: "spaced sp b \<Longrightarrow> g \<in> set (gaps (map b_start b)) \<Longrightarrow> sp \<le> g"
proof (induction b)
  case (Cons x b)
  then show ?case by (cases b) (auto simp: spaced_def)
qed simp

lemma spaced_span:
  assumes "\<And>x. x \<in> set bars \<Longrightarrow> spaced sp (snd x)"
  shows "session_span sp bars = sp"
proof (cases "finest_gap bars")
  case (Some g)
  then have "g \<in> set (concat (map (\<lambda>(s, b).
      case min_list_int (gaps (map b_start b)) of None \<Rightarrow> [] | Some g \<Rightarrow> if 0 < g then [g] else []) bars))"
    unfolding finest_gap_def by (rule min_list_int_mem)
  then have "\<exists>x\<in>set bars. g \<in> set (gaps (map b_start (snd x)))"
    by (auto split: option.splits if_splits dest!: sym [of "Some g"] min_list_int_mem intro!: bexI)
  then obtain x where "x \<in> set bars" "g \<in> set (gaps (map b_start (snd x)))" by blast
  then have "sp \<le> g" using gaps_spaced [OF assms] by blast
  then show ?thesis by (simp add: session_span_def Some)
qed (simp add: session_span_def)

lemma spaced_take: "spaced sp b \<Longrightarrow> spaced sp (take n b)"
  by (simp add: spaced_def sorted_wrt_take)

lemma view_spaced: "whole_day sp B \<Longrightarrow> x \<in> set (view n B) \<Longrightarrow> spaced sp (snd x)"
  by (force simp: view_def whole_day_def intro: spaced_take)

lemma view_spans:
  assumes "whole_day sp B" "bt_bar_ms e = sp" "\<not> bt_daily_mode e"
  shows "session_spans d (view n B) e = map (\<lambda>x. (fst x, sp)) B"
  using spaced_span [of "view n B" sp] view_spaced [OF assms(1)] assms(2,3)
  by (simp add: session_spans_def) (simp add: view_def case_prod_unfold)

lemma leave_warmup_same:
  "leave_warmup hk w e = Inr e1 \<Longrightarrow> \<exists>a. e1 = e\<lparr>bt_algo := a\<rparr>"
  by (cases e) (auto simp: leave_warmup_def on_algo_def upd_algo_def bind_res_Inr_iff split: if_splits)

definition landed :: "day \<Rightarrow> 'u backtest \<Rightarrow> 'u backtest" where
  "landed d e = (if d < bt_start e then e else land_sells d (land_cash d e))"

lemma landed_fields:
  "bt_syms (landed d e) = bt_syms e" "bt_daily_mode (landed d e) = bt_daily_mode e"
  "bt_daily_lean (landed d e) = bt_daily_lean e" "bt_bar_ms (landed d e) = bt_bar_ms e"
  by (simp_all add: landed_def land_sells_def land_cash_def Let_def)

lemma begin_on:
  fixes e :: "'u backtest"
  assumes "\<not> bt_daily_mode e" "L \<noteq> []"
    and "\<And>e2 :: 'u backtest. bt_syms e2 = bt_syms e \<Longrightarrow> \<not> bt_daily_mode e2 \<Longrightarrow> loaded_bars store pre d e2 = L"
  shows "begin_session hk store pre d e = bind_res (leave_warmup hk (d < bt_start e) e) (\<lambda>e1.
    open_with_bars d (reset_session (d < bt_start e) L True d (landed d e1)))"
proof (cases "leave_warmup hk (d < bt_start e) e")
  case (Inr e1)
  then obtain a where e1: "e1 = e\<lparr>bt_algo := a\<rparr>" using leave_warmup_same by blast
  have "loaded_bars store pre d (landed d e1) = L"
    by (rule assms(3)) (use assms(1) in \<open>simp_all add: landed_fields e1\<close>)
  then show ?thesis using assms(2) by (simp add: begin_session_def Inr Let_def landed_def e1)
qed (simp add: begin_session_def)

lemma open_with_rebar:
  assumes "session_spans d L e = session_spans d L' e" "L \<noteq> []" "L' \<noteq> []"
  shows "open_with_bars d (reset_session w L' True d e) = lift_res (rebar L') (open_with_bars d (reset_session w L True d e))"
proof -
  have r: "reset_session w L' True d e = rebar L' (reset_session w L True d e)"
    using assms(2,3) by (cases e) (simp add: reset_session_def rebar_def)
  have f: "open_with_bars d (rebar L' x) = lift_res (rebar L') (open_with_bars d x)"
    if "session_spans d L' x = session_spans d (bt_day_bars x) x" for x :: "'a backtest"
  proof -
    have s: "session_spans d L' (rebar L' x) = session_spans d (bt_day_bars x) x"
      unfolding that [symmetric] by (rule session_spans_cong) simp_all
    show ?thesis
      by (cases x) (use s in \<open>simp add: open_with_bars_def lift_bind day_schedule_def rebar_def upd_algo_def\<close>)
  qed
  show ?thesis unfolding r by (rule f) (simp add: assms(1))
qed

text \<open>What the opened session holds.\<close>

lemma open_with_frame:
  assumes "open_with_bars d (reset_session w L True d e) = Inr e0"
  shows "bt_day_bars e0 = L" "bt_spans e0 = session_spans d L e" "bt_syms e0 = bt_syms e" "bt_carried e0 = False"
    "bt_daily_lean e0 = bt_daily_lean e"
proof -
  have "session_spans d L (reset_session w L True d e) = session_spans d L e" by simp
  with assms show "bt_day_bars e0 = L" "bt_spans e0 = session_spans d L e" "bt_syms e0 = bt_syms e" "bt_carried e0 = False"
    "bt_daily_lean e0 = bt_daily_lean e"
    by (auto simp: open_with_bars_def bind_res_Inr_iff upd_algo_def reset_session_def split: if_splits)
qed

lemma view_loaded:
  "list_all (\<lambda>(s, b). store s d = Some (take (n s) b) \<and> \<not> take (n s) b = []) B \<Longrightarrow>
    concat (map (\<lambda>s. case store s d of None \<Rightarrow> [] | Some b \<Rightarrow> if b = [] then [] else [(s, b)]) (map fst B)) = view n B"
  by (induction B) (auto simp: view_def)

lemma loaded_view:
  assumes "brings today B m n store fed" "\<And>x. x \<in> set B \<Longrightarrow> 2 \<le> n (fst x) \<and> n (fst x) \<le> length (snd x)"
    "bt_syms e = map fst B" "\<not> bt_daily_mode e"
  shows "loaded_bars store (if fed = None then None else Some (view n B)) today e = view n B"
proof (cases fed)
  case None
  have "list_all (\<lambda>(s, b). store s today = Some (take (n s) b) \<and> \<not> take (n s) b = []) B"
    using assms(1,2) by (force simp: brings_def None list_all_iff)
  from view_loaded [of store today n B, OF this] show ?thesis using assms(3,4) by (simp add: loaded_bars_def None)
next
  case (Some ps)
  have "\<forall>x\<in>set (view n B). fst x \<in> set (bt_syms e) \<and> snd x \<noteq> []"
    using assms(2,3) by (force simp: view_def)
  then show ?thesis by (simp add: loaded_bars_def Some filter_id_conv case_prod_unfold)
qed

section \<open>One call\<close>

lemma ends_at_bars: "(t, (s, i)) \<in> set (ends_at sp B) \<Longrightarrow> \<exists>b. (s, b) \<in> set B \<and> i < length b \<and> t = b_start (b ! i) + sp"
  by (auto simp: ends_at_def)

lemma ends_at_mem:
  assumes "(s, b) \<in> set B" "i < length b"
  shows "(b_start (b ! i) + sp, (s, i)) \<in> set (ends_at sp B)"
proof -
  let ?f = "\<lambda>(s, b). map (\<lambda>i. (b_start (b ! i) + sp, (s, i))) [0..<length b]"
  have "?f (s, b) \<in> set (map ?f B)" unfolding set_map using assms(1) by (rule imageI)
  moreover have "(b_start (b ! i) + sp, (s, i)) \<in> set (?f (s, b))" using assms(2) by simp
  ultimately show ?thesis unfolding ends_at_def set_concat by (rule UN_I)
qed

lemma fill_spans_noop:
  assumes "\<And>s. s \<in> set (dkeys (bt_day_bars e)) \<Longrightarrow> dget (bt_spans e) s \<noteq> None"
  shows "fill_spans k e = e"
proof -
  have "foldl (\<lambda>m s. case dget m s of Some _ \<Rightarrow> m
         | None \<Rightarrow> dput m s (case min_list_int (map snd m) of None \<Rightarrow> k | Some k \<Rightarrow> k)) (bt_spans e) xs = bt_spans e"
    if "\<And>s. s \<in> set xs \<Longrightarrow> dget (bt_spans e) s \<noteq> None" for xs
    using that
  proof (induction xs)
    case (Cons s xs)
    then obtain v where "dget (bt_spans e) s = Some v" by force
    then show ?case using Cons by simp
  qed simp
  from this [OF assms] show ?thesis by (cases e) (simp add: fill_spans_def)
qed

lemma even_spans: "dget (map (\<lambda>x. (fst x, sp)) B) s = (if s \<in> fst ` set B then Some sp else None)"
  by (induction B) (auto simp: dget_def)

text \<open>The engine in the middle of a day: it holds the view \<open>n\<close> and stands where the walk over the bars up
  to \<open>T\<close> stands.\<close>

definition live_at ::
  "'u hooks \<Rightarrow> day \<Rightarrow> int \<Rightarrow> (sym, day_bars) dict \<Rightarrow> 'u backtest \<Rightarrow> (sym \<Rightarrow> nat) \<Rightarrow> ms \<Rightarrow> 'u warm_engine \<Rightarrow> bool" where
  "live_at hk d sp B e0 n T w \<longleftrightarrow>
     we_dead w = None \<and> we_warmed w \<and> we_day w = Some d \<and> (\<forall>c. we_completed w = Some c \<longrightarrow> c < d)
     \<and> (\<exists>e. walk hk d (filter (\<lambda>x. fst x \<le> T) (timeline (ends_at sp B))) e0 = Inr e \<and> \<not> al_quit (bt_algo e)
            \<and> we_bt w = rebar (view n B) e)
     \<and> (\<forall>x\<in>set B. dget_or (we_first_ms w) (fst x) 0 = b_start (snd x ! 0)
          \<and> dget_or (we_last_end w) (fst x) (- 1) \<le> T
          \<and> (\<forall>y\<in>set (snd x). (b_start y + sp \<le> dget_or (we_last_end w) (fst x) (- 1)) = (b_start y + sp \<le> T)))
     \<and> we_frontier w \<le> T \<and> (\<forall>x\<in>set (ends_at sp B). (fst x \<le> we_frontier w) = (fst x \<le> T))"

text \<open>A day the batch walk goes through: the opened session \<open>e0\<close> and its end \<open>e1\<close>, not stopped by quit.\<close>

definition batch_day :: "'u hooks \<Rightarrow> day \<Rightarrow> int \<Rightarrow> (sym, day_bars) dict \<Rightarrow> 'u backtest \<Rightarrow> 'u backtest \<Rightarrow> bool" where
  "batch_day hk d sp B e0 e1 \<longleftrightarrow>
     holds_bars (B, map (\<lambda>x. (fst x, sp)) B, map fst B) e0 \<and> \<not> al_quit (bt_algo e0)
     \<and> walk hk d (timeline (ends_at sp B)) e0 = Inr e1 \<and> \<not> al_quit (bt_algo e1)"

lemma batch_prefix:
  assumes "batch_day hk d sp B e0 e1"
  obtains e where "walk hk d (filter (\<lambda>x. fst x \<le> T) (timeline (ends_at sp B))) e0 = Inr e" "\<not> al_quit (bt_algo e)"
proof -
  have "walk hk d (filter (\<lambda>x. fst x \<le> T) (timeline (ends_at sp B)) @ filter (\<lambda>x. T < fst x) (timeline (ends_at sp B))) e0 = Inr e1"
    using assms cut_at_time [OF timeline_sorted, of "ends_at sp B" T] by (simp add: batch_day_def)
  from walk_parts [OF this] show thesis using assms that by (auto simp: batch_day_def)
qed

lemma unprocessed_view:
  assumes day: "whole_day sp B" and shown: "shows_closed sp B now m n"
    and w: "bt_day_bars (we_bt w) = view n B" "bt_spans (we_bt w) = map (\<lambda>x. (fst x, sp)) B"
    and done_: "\<And>x y. x \<in> set B \<Longrightarrow> y \<in> set (snd x) \<Longrightarrow>
      (b_start y + sp \<le> dget_or (we_last_end w) (fst x) (- 1)) = (b_start y + sp \<le> T)"
  shows "unprocessed now w = filter (\<lambda>x. T < fst x \<and> fst x \<le> now) (ends_at sp B)"
proof -
  have one: "closed_ends now (dget_or (we_last_end w) s (- 1)) (dget_or (bt_spans (we_bt w)) s 0) (s, take (n s) b)
      = filter (\<lambda>x. T < fst x \<and> fst x \<le> now) (map (\<lambda>i. (b_start (b ! i) + sp, (s, i))) [0..<length b])"
    if x: "(s, b) \<in> set B" for s b
  proof -
    have "dget_or (bt_spans (we_bt w)) s 0 = sp"
      using x by (simp only: w dget_or_dget even_spans) force
    moreover have "0 < sp" "spaced sp b" using day x by (force simp: whole_day_def)+
    ultimately show ?thesis
      using closed_ends_view [of sp b "n s" now "dget_or (we_last_end w) s (- 1)" T s] shows_closedD [OF shown x]
        done_ [OF x] by simp
  qed
  show ?thesis
    unfolding unprocessed_def w(1) ends_at_def filter_concat view_def map_map
    by (intro arg_cong [where f = concat] map_cong refl) (auto simp: one)
qed

lemma bars_both_hold:
  assumes "whole_day sp B" "shows_closed sp B now m n"
    and "(t, es) \<in> set (timeline (filter (\<lambda>x. T < fst x \<and> fst x \<le> now) (ends_at sp B)))" "si \<in> set es"
  shows "both_hold B (view n B) si"
proof -
  have "(t, si) \<in> set (ends_at sp B)" "t \<le> now" using timeline_entries [OF assms(3,4)] by auto
  then obtain b where b: "(fst si, b) \<in> set B" "snd si < length b" "b_start (b ! snd si) + sp \<le> now"
    using ends_at_bars [of t "fst si" "snd si" sp B] by auto
  have "dget B (fst si) = Some b" using assms(1) b(1) by (intro dget_in) (simp_all add: whole_day_def)
  moreover have "snd si < n (fst si)" using shows_closedD(4) [OF assms(2) b(1)] b by blast
  ultimately show ?thesis using b(2) by (simp add: both_hold_def dget_view)
qed

lemma last_is_max: "sorted_wrt (<) (map fst xs) \<Longrightarrow> x \<in> set xs \<Longrightarrow> fst x \<le> (fst (last xs) :: int)"
proof (induction xs)
  case (Cons y xs)
  then show ?case by (cases "xs = []") (auto intro: order.strict_implies_order)
qed simp

lemma live_after:
  fixes sp T now B
  defines "new \<equiv> timeline (filter (\<lambda>x. T < fst x \<and> fst x \<le> now) (ends_at sp B))"
  assumes T: "T \<le> now" and w: "live_at hk d sp B e0 n T w"
    and upto: "walk hk d (filter (\<lambda>x. fst x \<le> now) (timeline (ends_at sp B))) e0 = Inr e2" "\<not> al_quit (bt_algo e2)"
    and w': "we_bt w' = rebar (view n B) e2" "same_engine w w'"
      "we_frontier w' = (if new = [] then we_frontier w else fst (last new))"
      "\<And>s. dget_or (we_last_end w') s (- 1) = last_of s new (dget_or (we_last_end w) s (- 1))"
  shows "live_at hk d sp B e0 n now w'"
proof -
  have srt: "sorted_wrt (<) (map fst new)" unfolding new_def by (rule timeline_sorted)
  have range: "T < fst x \<and> fst x \<le> now" if "x \<in> set new" for x
    using that by (auto simp: new_def timeline_def)
  have has: "\<exists>x\<in>set new. fst x = t \<and> si \<in> set (snd x)" if "(t, si) \<in> set (ends_at sp B)" "T < t" "t \<le> now" for t si
    using timeline_has [of t si "filter (\<lambda>x. T < fst x \<and> fst x \<le> now) (ends_at sp B)"] that by (force simp: new_def)
  have ends: "dget_or (we_last_end w') (fst x) (- 1) \<le> now
      \<and> (\<forall>y\<in>set (snd x). (b_start y + sp \<le> dget_or (we_last_end w') (fst x) (- 1)) = (b_start y + sp \<le> now))"
    if x: "x \<in> set B" for x
  proof -
    let ?k = "dget_or (we_last_end w) (fst x) (- 1)"
    let ?l = "last_of (fst x) new ?k"
    have k: "?k \<le> T" "\<And>y. y \<in> set (snd x) \<Longrightarrow> (b_start y + sp \<le> ?k) = (b_start y + sp \<le> T)"
      using w x by (auto simp: live_at_def)
    have l: "?l \<le> now" "?k \<le> ?l"
      using last_of_cases [of "fst x" new ?k] k(1) T range by force+
    have "b_start y + sp \<le> ?l" if y: "y \<in> set (snd x)" "b_start y + sp \<le> now" for y
    proof (cases "b_start y + sp \<le> T")
      case True
      then show ?thesis using k(2) [OF y(1)] l(2) by simp
    next
      case False
      obtain i where "i < length (snd x)" "y = snd x ! i" using y(1) by (auto simp: in_set_conv_nth)
      then have "(b_start y + sp, (fst x, i)) \<in> set (ends_at sp B)"
        using ends_at_mem [of "fst x" "snd x" B i sp] x by simp
      then obtain z where "z \<in> set new" "fst z = b_start y + sp" "(fst x, i) \<in> set (snd z)"
        using has [of "b_start y + sp" "(fst x, i)"] False y(2) by auto
      then show ?thesis using last_of_max [OF srt, of z "fst x" ?k] by force
    qed
    then show ?thesis using l(1) by (auto simp: w'(4))
  qed
  have front: "we_frontier w' \<le> now \<and> (\<forall>x\<in>set (ends_at sp B). (fst x \<le> we_frontier w') = (fst x \<le> now))"
  proof (cases "new = []")
    case True
    then have "\<not> (T < fst x \<and> fst x \<le> now)" if "x \<in> set (ends_at sp B)" for x
      using has [of "fst x" "snd x"] that by auto
    then show ?thesis using w T True by (force simp: live_at_def w'(3))
  next
    case False
    then have f: "T < fst (last new)" "fst (last new) \<le> now" using range by auto
    have "fst x \<le> fst (last new)" if x: "x \<in> set (ends_at sp B)" "fst x \<le> now" for x
    proof (cases "fst x \<le> T")
      case False
      then obtain z where "z \<in> set new" "fst z = fst x" using has [of "fst x" "snd x"] x by auto
      then show ?thesis using last_is_max [OF srt, of z] by simp
    qed (use f in simp)
    then show ?thesis using f False by (force simp: w'(3))
  qed
  show ?thesis
    using w w'(1,2) upto ends front by (auto simp: live_at_def same_engine_def)
qed

lemma walked_frame:
  assumes day: "whole_day sp B" and batch: "batch_day hk d sp B e0 e1"
    and e: "walk hk d (filter P (timeline (ends_at sp B))) e0 = Inr e"
  shows "holds_bars (B, map (\<lambda>x. (fst x, sp)) B, map fst B) e"
proof (rule blind_onD(2) [OF walk_blind _ e])
  let ?F = "(B, map (\<lambda>x. (fst x, sp)) B, map fst B)"
  fix t es si assume "(t, es) \<in> set (filter P (timeline (ends_at sp B)))" and si: "si \<in> set es"
  then have "(t, es) \<in> set (timeline (ends_at sp B))" by simp
  then have "(t, si) \<in> set (ends_at sp B)" using si by (rule timeline_entries)
  then obtain b where "(fst si, b) \<in> set B" "snd si < length b"
    using ends_at_bars [of t "fst si" "snd si" sp B] by auto
  then show "both_hold (fst ?F) B si"
    using dget_in [of B] day by (auto simp: both_hold_def whole_day_def)
qed (use batch in \<open>simp add: batch_day_def\<close>)

lemma process_live:
  assumes day: "whole_day sp B" and batch: "batch_day hk d sp B e0 e1" and shown: "shows_closed sp B now m n"
    and T: "T \<le> now" and w: "live_at hk d sp B e0 n T w"
  shows "\<exists>r w'. process_bars hk now d w = (Inr r, w') \<and> live_at hk d sp B e0 n now w'"
proof -
  let ?TL = "timeline (ends_at sp B)" and ?F = "(B, map (\<lambda>x. (fst x, sp)) B, map fst B)"
  let ?new = "timeline (filter (\<lambda>x. T < fst x \<and> fst x \<le> now) (ends_at sp B))"
  obtain e where e: "walk hk d (filter (\<lambda>x. fst x \<le> T) ?TL) e0 = Inr e" "\<not> al_quit (bt_algo e)"
    and we: "we_bt w = rebar (view n B) e"
    using w by (auto simp: live_at_def)
  have frame: "holds_bars ?F e" by (rule walked_frame [OF day batch e(1)])
  then have fields: "bt_day_bars (we_bt w) = view n B" "bt_spans (we_bt w) = map (\<lambda>x. (fst x, sp)) B"
    by (simp_all add: we holds_bars_def)
  have noop: "fill_spans k (we_bt w) = we_bt w" for k
    by (rule fill_spans_noop) (auto simp: fields dkeys_def even_spans)
  have todo: "unprocessed now w = filter (\<lambda>x. T < fst x \<and> fst x \<le> now) (ends_at sp B)"
    by (rule unprocessed_view [OF day shown fields]) (use w in \<open>auto simp: live_at_def\<close>)
  have front: "(fst x \<le> we_frontier w) = (fst x \<le> T)" if "x \<in> set (ends_at sp B)" for x
    using w that by (auto simp: live_at_def)
  have late: "filter (\<lambda>x. fst x \<le> we_frontier w) (unprocessed now w) = []"
    unfolding todo using front by (auto simp: filter_empty_conv)
  have ahead: "filter (\<lambda>x. we_frontier w < fst x) (unprocessed now w) = unprocessed now w"
    by (rule filter_True) (use front in \<open>auto simp: todo not_le [symmetric]\<close>)
  have new: "?new = filter (\<lambda>x. T < fst x \<and> fst x \<le> now) ?TL"
    by (rule timeline_filter [where P = "\<lambda>t. T < t \<and> t \<le> now"])
  obtain e2 where e2: "walk hk d ?new e = Inr e2" "\<not> al_quit (bt_algo e2)"
    and upto: "walk hk d (filter (\<lambda>x. fst x \<le> now) ?TL) e0 = Inr e2"
  proof -
    obtain e' where e': "walk hk d (filter (\<lambda>x. fst x \<le> now) ?TL) e0 = Inr e'" "\<not> al_quit (bt_algo e')"
      using batch by (rule batch_prefix)
    then have "walk hk d (filter (\<lambda>x. fst x \<le> T) ?TL @ ?new) e0 = Inr e'"
      unfolding new split_at_time [OF timeline_sorted T] by blast
    moreover have "\<not> al_quit (bt_algo e0)" using batch by (simp add: batch_day_def)
    ultimately have "walk hk d ?new e = Inr e'"
      using e by (simp add: walk_append unless_quit_def)
    then show thesis using e' that by blast
  qed
  have "walk hk d ?new (rebar (view n B) e) = lift_res (rebar (view n B)) (walk hk d ?new e)"
    by (rule blind_onD(1) [OF walk_blind frame]) (use bars_both_hold [OF day shown] in auto)
  then have "walk hk d ?new (we_bt w) = Inr (rebar (view n B) e2)" by (simp add: we e2(1))
  from step_all_walk [OF this] e2(2) obtain w' where w': "step_all hk d ?new w = (Inr (), w')"
    "we_bt w' = rebar (view n B) e2" "same_engine w w'"
    "we_frontier w' = (if ?new = [] then we_frontier w else fst (last ?new))"
    "\<And>s. dget_or (we_last_end w') s (- 1) = last_of s ?new (dget_or (we_last_end w) s (- 1))"
    by auto
  have process: "process_bars hk now d w = (Inr (unprocessed now w \<noteq> []), w')"
  proof -
    have same: "w\<lparr>we_bt := fill_spans (we_bar_ms w) (we_bt w)\<rparr> = w" by (simp add: noop)
    have st: "step_all hk d (timeline (unprocessed now w)) w = (Inr (), w')" by (simp only: todo w'(1))
    have nil: "timeline [] = []" by (simp add: timeline_def)
    show ?thesis unfolding process_bars_def Let_def same late ahead nil by (simp add: st)
  qed
  with live_after [OF T w upto e2(2) w'(2-5)] show ?thesis by blast
qed

section \<open>A live day\<close>

text \<open>The calls of a day in order, and the session's end.\<close>

fun live_calls :: "'u hooks \<Rightarrow> day \<Rightarrow> live_call list \<Rightarrow> 'u warm_engine \<Rightarrow> (unit res) \<times> 'u warm_engine" where
  "live_calls hk today [] w = (Inr (), w)"
| "live_calls hk today ((now, store, fed) # cs) w =
     (case advance hk store now today fed w of
        (Inl er, w1) \<Rightarrow> (Inl er, w1)
      | (Inr _, w1) \<Rightarrow> live_calls hk today cs w1)"

definition live_day :: "'u hooks \<Rightarrow> day \<Rightarrow> live_call list \<Rightarrow> 'u warm_engine \<Rightarrow> (unit res) \<times> 'u warm_engine" where
  "live_day hk today cs w =
     (case live_calls hk today cs w of
        (Inl er, w1) \<Rightarrow> (Inl er, w1)
      | (Inr _, w1) \<Rightarrow> end_live_session hk today w1)"

lemma read_bars:
  assumes day: "whole_day sp B" and shown: "shows_closed sp B now m n" and brings: "brings today B m n store fed"
    and syms: "bt_syms (we_bt w) = map fst B"
    and held: "\<And>x. x \<in> set B \<Longrightarrow> dget (if we_day w = None then [] else bt_day_bars (we_bt w)) (fst x)
      = (if m (fst x) = 0 then None else Some (take (m (fst x)) (snd x)))"
  shows "(case fed of None \<Rightarrow> Inr (store_bars store today w)
    | Some ps \<Rightarrow> with_pushed today ps (if we_day w = None then [] else bt_day_bars (we_bt w)) (bt_syms (we_bt w))) = Inr (view n B)"
proof (cases fed)
  case None
  have "list_all (\<lambda>(s, b). store s today = Some (take (n s) b) \<and> 2 \<le> length (take (n s) b)) B"
    using brings shows_closedD(1,3) [OF shown] by (force simp: brings_def None list_all_iff)
  from view_from_store [of store today n "\<lambda>b. 2 \<le> length b" B, OF this] show ?thesis
    by (simp add: None store_bars_def syms)
next
  case (Some ps)
  have "pushed_symbol today (dget (if we_day w = None then [] else bt_day_bars (we_bt w)) s) (dget ps s)
      = Inr (Some (take (n s) b))" if x: "(s, b) \<in> set B" for s b
  proof (rule pushed_symbol_view [where sp = sp])
    show "pushes today (m s) (n s) b (dget ps s)" using brings x by (force simp: brings_def Some list_all_iff)
    show "spaced sp b" "0 < sp" using day x by (force simp: whole_day_def)+
  qed (use shows_closedD(1-3) [OF shown x] held [OF x] in simp_all)
  from with_pushed_view [OF this] show ?thesis by (simp add: Some syms)
qed

lemma live_syms:
  assumes "whole_day sp B" "batch_day hk d sp B e0 e1" "live_at hk d sp B e0 n T w"
  shows "bt_syms (we_bt w) = map fst B" "\<not> al_quit (bt_algo (we_bt w))" "bt_day_bars (we_bt w) = view n B"
proof -
  let ?F = "(B, map (\<lambda>x. (fst x, sp)) B, map fst B)"
  obtain e where e: "walk hk d (filter (\<lambda>x. fst x \<le> T) (timeline (ends_at sp B))) e0 = Inr e" "\<not> al_quit (bt_algo e)"
    "we_bt w = rebar (view n B) e"
    using assms(3) by (auto simp: live_at_def)
  have "holds_bars ?F e" by (rule walked_frame [OF assms(1,2) e(1)])
  then show "bt_syms (we_bt w) = map fst B" "\<not> al_quit (bt_algo (we_bt w))" "bt_day_bars (we_bt w) = view n B"
    using e by (simp_all add: holds_bars_def)
qed

text \<open>A call while the session is open.\<close>

lemma advance_live:
  assumes day: "whole_day sp B" and batch: "batch_day hk d sp B e0 e1" and T: "T \<le> now"
    and shown: "shows_closed sp B now m n" and brings: "brings d B m n store fed"
    and m: "\<And>x. x \<in> set B \<Longrightarrow> 0 < m (fst x)" and w: "live_at hk d sp B e0 m T w"
  shows "\<exists>r w'. advance hk store now d fed w = (Inr r, w') \<and> live_at hk d sp B e0 n now w'"
proof -
  note syms = live_syms [OF day batch w]
  have alive: "we_dead w = None" "we_warmed w" "we_day w = Some d" "\<And>c. we_completed w = Some c \<Longrightarrow> c < d"
    using w by (auto simp: live_at_def)
  have dist: "distinct (map fst B)" using day by (simp add: whole_day_def)
  have held: "dget (if we_day w = None then [] else bt_day_bars (we_bt w)) (fst x)
      = (if m (fst x) = 0 then None else Some (take (m (fst x)) (snd x)))" if "x \<in> set B" for x
    using m [OF that] dget_in [OF dist, of "fst x" "snd x"] that by (simp add: alive(3) syms(3) dget_view)
  note bars = read_bars [OF day shown brings syms(1) held]
  have "advance hk store now d fed w = advance_bars hk store (fed \<noteq> None) now d (view n B) w"
    using bars syms(2) alive by (cases fed) (auto simp: advance_def advance_open_def split: option.splits)
  also have "\<dots> = then_do (extend_today hk (view n B) w) (process_bars hk now d)"
    using day by (simp add: advance_bars_def alive(3) whole_day_def)
  also have "extend_today hk (view n B) w = (Inr True, w\<lparr>we_bt := rebar (view n B) (we_bt w)\<rparr>)"
  proof (rule extend_today_view [OF syms(3) dist])
    fix s b assume x: "(s, b) \<in> set B"
    show "0 < n s \<and> m s \<le> n s \<and> n s \<le> length b \<and> dget_or (we_first_ms w) s 0 = b_start (b ! 0)"
      using shows_closedD [OF shown x] w x by (force simp: live_at_def)
  qed
  finally have "advance hk store now d fed w = process_bars hk now d (w\<lparr>we_bt := rebar (view n B) (we_bt w)\<rparr>)"
    by (simp add: then_do_def)
  moreover have "live_at hk d sp B e0 n T (w\<lparr>we_bt := rebar (view n B) (we_bt w)\<rparr>)"
    using w by (auto simp: live_at_def)
  ultimately show ?thesis using process_live [OF day batch shown T] by simp
qed

lemma calls_live:
  assumes day: "whole_day sp B" and batch: "batch_day hk d sp B e0 e1"
  shows "fed_in_order d sp B m T cs \<Longrightarrow> (\<And>x. x \<in> set B \<Longrightarrow> 0 < m (fst x)) \<Longrightarrow> live_at hk d sp B e0 m T w \<Longrightarrow>
    \<exists>w'. live_calls hk d (map fst cs) w = (Inr (), w')
      \<and> live_at hk d sp B e0 (if cs = [] then m else snd (last cs)) (if cs = [] then T else fst (fst (last cs))) w'"
proof (induction cs arbitrary: m T w)
  case (Cons c cs)
  obtain now store fed n where c: "c = ((now, store, fed), n)" by (metis prod.exhaust)
  have s: "T \<le> now" "shows_closed sp B now m n" "brings d B m n store fed" "fed_in_order d sp B n now cs"
    using Cons.prems(1) by (simp_all add: c)
  obtain r w1 where w1: "advance hk store now d fed w = (Inr r, w1)" "live_at hk d sp B e0 n now w1"
    using advance_live [OF day batch s(1-3) Cons.prems(2,3)] by blast
  have n: "0 < n (fst x)" if "x \<in> set B" for x
    using shows_closedD(1) [OF s(2), of "fst x" "snd x"] that by simp
  show ?case using Cons.IH [OF s(4) n w1(2)] w1(1) by (auto simp: c)
qed simp

text \<open>The call that opens the session.\<close>

definition ready :: "day \<Rightarrow> int \<Rightarrow> (sym, day_bars) dict \<Rightarrow> 'u warm_engine \<Rightarrow> bool" where
  "ready d sp B w \<longleftrightarrow>
     we_dead w = None \<and> we_warmed w \<and> we_day w = None \<and> (case we_completed w of None \<Rightarrow> True | Some c \<Rightarrow> c < d) \<and> we_frontier w = - 1
     \<and> \<not> al_quit (bt_algo (we_bt w)) \<and> \<not> bt_daily_mode (we_bt w) \<and> \<not> bt_daily_lean (we_bt w)
     \<and> bt_bar_ms (we_bt w) = sp \<and> bt_syms (we_bt w) = map fst B"

definition stored :: "minute_store \<Rightarrow> day \<Rightarrow> (sym, day_bars) dict \<Rightarrow> bool" where
  "stored store d B \<longleftrightarrow> list_all (\<lambda>x. store (fst x) d = Some (snd x)) B"

lemma day_store:
  "whole_day sp B \<Longrightarrow> stored store d B \<Longrightarrow> brings d B (\<lambda>_. 0) (\<lambda>s. length (dget_or B s [])) store None"
  by (auto simp: brings_def list_all_iff whole_day_def dget_or_def stored_def)

lemma full_view: "whole_day sp B \<Longrightarrow> view (\<lambda>s. length (dget_or B s [])) B = B"
  by (rule view_all) (auto simp: whole_day_def dget_or_def)

text \<open>Opened on a part of the day, the session is the one opened on the whole day, with that part as its bars.\<close>

lemma begin_part:
  assumes day: "whole_day sp B" and w: "ready d sp B w" and store: "stored storeF d B"
    and n: "\<And>x. x \<in> set B \<Longrightarrow> 2 \<le> n (fst x) \<and> n (fst x) \<le> length (snd x)" and brings: "brings d B m n store fed"
    and e0: "begin_session hk storeF None d (we_bt w) = Inr e0"
  shows "begin_session hk store (if fed = None then None else Some (view n B)) d (we_bt w) = Inr (rebar (view n B) e0)"
    "bt_day_bars e0 = B" "bt_spans e0 = map (\<lambda>x. (fst x, sp)) B" "bt_syms e0 = map fst B" "bt_carried e0 = False" "\<not> bt_daily_lean e0"
proof -
  let ?e = "we_bt w" and ?w = "d < bt_start (we_bt w)"
  have B: "B \<noteq> []" using day by (simp add: whole_day_def)
  have mode: "\<not> bt_daily_mode ?e" "\<not> bt_daily_lean ?e" "bt_bar_ms ?e = sp" "bt_syms ?e = map fst B"
    using w by (simp_all add: ready_def)
  have whole: "begin_session hk storeF None d ?e = bind_res (leave_warmup hk ?w ?e) (\<lambda>e1.
      open_with_bars d (reset_session ?w B True d (landed d e1)))"
  proof (rule begin_on [OF mode(1) B])
    fix e2 :: "'a backtest" assume "bt_syms e2 = bt_syms ?e" "\<not> bt_daily_mode e2"
    then show "loaded_bars storeF None d e2 = B"
      using loaded_view [OF day_store [OF day store]] day full_view [OF day] mode(4)
      by (force simp: whole_day_def dget_or_def)
  qed
  have part: "begin_session hk store (if fed = None then None else Some (view n B)) d ?e
      = bind_res (leave_warmup hk ?w ?e) (\<lambda>e1. open_with_bars d (reset_session ?w (view n B) True d (landed d e1)))"
    by (rule begin_on [OF mode(1)]) (use B loaded_view [OF brings n] mode(4) in auto)
  obtain e1 where e1: "leave_warmup hk ?w ?e = Inr e1" "open_with_bars d (reset_session ?w B True d (landed d e1)) = Inr e0"
    using e0 by (auto simp: whole bind_res_Inr_iff)
  have l: "bt_syms (landed d e1) = map fst B" "\<not> bt_daily_mode (landed d e1)" "\<not> bt_daily_lean (landed d e1)" "bt_bar_ms (landed d e1) = sp"
    using leave_warmup_same [OF e1(1)] mode by (auto simp: landed_fields)
  have spans: "session_spans d (view k B) (landed d e1) = map (\<lambda>x. (fst x, sp)) B" for k
    by (rule view_spans [OF day l(4,2)])
  then have B_spans: "session_spans d B (landed d e1) = map (\<lambda>x. (fst x, sp)) B"
    using full_view [OF day] by metis
  show "begin_session hk store (if fed = None then None else Some (view n B)) d ?e = Inr (rebar (view n B) e0)"
    using open_with_rebar [of d B "landed d e1" "view n B" ?w] spans B_spans B e1 by (simp add: part)
  show "bt_day_bars e0 = B" "bt_spans e0 = map (\<lambda>x. (fst x, sp)) B" "bt_syms e0 = map fst B" "bt_carried e0 = False" "\<not> bt_daily_lean e0"
    using open_with_frame [OF e1(2)] l B_spans by simp_all
qed

lemma ends_positive: "whole_day sp B \<Longrightarrow> x \<in> set (ends_at sp B) \<Longrightarrow> 0 < fst x"
proof -
  assume day: "whole_day sp B" and "x \<in> set (ends_at sp B)"
  then obtain b where b: "(fst (snd x), b) \<in> set B" "snd (snd x) < length b" "fst x = b_start (b ! snd (snd x)) + sp"
    using ends_at_bars [of "fst x" "fst (snd x)" "snd (snd x)" sp B] by auto
  have "0 \<le> b_start (b ! snd (snd x))" using day b(1) nth_mem [OF b(2)] by (force simp: whole_day_def)
  then show "0 < fst x" using day b(3) by (simp add: whole_day_def)
qed

lemma ends_of_even:
  "bt_day_bars e = B \<Longrightarrow> bt_spans e = map (\<lambda>x. (fst x, sp)) B \<Longrightarrow> ends_of e = ends_at sp B"
  unfolding ends_of_def ends_at_def
  by (auto simp: dget_or_dget even_spans intro!: arg_cong [where f = concat] map_cong) force

lemma advance_opens:
  assumes day: "whole_day sp B" and w: "ready d sp B w" and store: "stored storeF d B"
    and e0: "begin_session hk storeF None d (we_bt w) = Inr e0"
    and batch: "batch_day hk d sp B (e0\<lparr>bt_prev_t := - 1\<rparr>) e1"
    and shown: "shows_closed sp B now (\<lambda>_. 0) n" and brings: "brings d B (\<lambda>_. 0) n st fed" and T: "- 1 \<le> now"
  shows "\<exists>r w'. advance hk st now d fed w = (Inr r, w') \<and> live_at hk d sp B (e0\<lparr>bt_prev_t := - 1\<rparr>) n now w'"
proof -
  have n: "\<And>x. x \<in> set B \<Longrightarrow> 2 \<le> n (fst x) \<and> n (fst x) \<le> length (snd x)"
    using shows_closedD(1,3) [OF shown] by force
  note opened = begin_part [OF day w store n brings e0]
  have alive: "we_dead w = None" "we_warmed w" "we_day w = None" "\<And>c. we_completed w = Some c \<Longrightarrow> c < d" "we_frontier w = - 1"
    and bt: "bt_syms (we_bt w) = map fst B" "\<not> al_quit (bt_algo (we_bt w))"
    using w by (auto simp: ready_def split: option.splits)
  have B: "B \<noteq> []" and dist: "distinct (map fst B)" using day by (simp_all add: whole_day_def)
  have "(case fed of None \<Rightarrow> Inr (store_bars st d w)
    | Some ps \<Rightarrow> with_pushed d ps (if we_day w = None then [] else bt_day_bars (we_bt w)) (bt_syms (we_bt w))) = Inr (view n B)"
    by (rule read_bars [OF day shown brings bt(1)]) (simp add: alive(3) dget_def)
  then have "advance hk st now d fed w = advance_bars hk st (fed \<noteq> None) now d (view n B) w"
    using bt(2) alive by (cases fed) (auto simp: advance_def advance_open_def split: option.splits)
  also have "\<dots> = then_do (open_today hk st (fed \<noteq> None) d (view n B) w) (process_bars hk now d)"
  proof -
    have "dget (view n B) s \<noteq> None" if "s \<in> set (bt_syms (we_bt w))" for s
    proof -
      have "s \<in> fst ` set (view n B)" using that unfolding bt(1) set_map [symmetric] view_keys .
      then show ?thesis unfolding dget_def map_of_eq_None_iff by simp
    qed
    then have none: "(\<exists>s\<in>set (bt_syms (we_bt w)). dget (view n B) s = None) = False" by blast
    show ?thesis unfolding advance_bars_def alive(3) none using B by simp
  qed
  also have "open_today hk st (fed \<noteq> None) d (view n B) w = (Inr True, w\<lparr>we_bt := rebar (view n B) (e0\<lparr>bt_prev_t := - 1\<rparr>),
      we_day := Some d, we_last_end := [], we_first_ms := map (\<lambda>(s, b). (s, b_start (b ! 0))) (view n B)\<rparr>)"
    (is "_ = (_, ?w)")
    using opened(1,5) B by (cases fed) (simp_all add: open_today_def)
  finally have adv: "advance hk st now d fed w = process_bars hk now d ?w" by (simp add: then_do_def)
  have first: "dget_or (map (\<lambda>(s, b). (s, b_start (b ! 0))) (view n B)) (fst x) 0 = b_start (snd x ! 0)" if x: "x \<in> set B" for x
  proof -
    have "(fst x, b_start (take (n (fst x)) (snd x) ! 0)) \<in> set (map (\<lambda>(s, b). (s, b_start (b ! 0))) (view n B))"
      using imageI [OF x, of "\<lambda>x. (fst x, b_start (take (n (fst x)) (snd x) ! 0))"]
      by (simp add: view_def case_prod_unfold o_def)
    moreover have "map fst (map (\<lambda>(s, b). (s, b_start (b ! 0))) (view n B)) = map fst B"
      by (simp add: view_def case_prod_unfold o_def)
    ultimately have "map_of (map (\<lambda>(s, b). (s, b_start (b ! 0))) (view n B)) (fst x) = Some (b_start (take (n (fst x)) (snd x) ! 0))"
      using dist by simp
    then show ?thesis using n [OF x] by (simp add: dget_or_def)
  qed
  have none: "filter (\<lambda>x. fst x \<le> - 1) (timeline (ends_at sp B)) = []"
    using ends_positive [OF day] by (force simp: filter_empty_conv timeline_def)
  have early: "\<not> b_start y + sp \<le> - 1" if "x \<in> set B" "y \<in> set (snd x)" for x y
    using day that by (force simp: whole_day_def)
  have "live_at hk d sp B (e0\<lparr>bt_prev_t := - 1\<rparr>) n (- 1) ?w"
    using alive batch first early ends_positive [OF day]
    by (force simp: live_at_def none batch_day_def dget_or_def)
  from process_live [OF day batch shown T this] show ?thesis unfolding adv .
qed


section \<open>Inputs at which the theorems hold\<close>

definition demo_day :: "(sym, day_bars) dict" where
  "demo_day = [(''SPY'', [demo_minute_bar 34200000, demo_minute_bar 34260000, demo_minute_bar 34320000])]"

definition demo_live_store :: minute_store where
  "demo_live_store s d = (if d = 738000 then dget demo_day s else None)"

definition demo_engine :: "note_log warm_engine" where
  "demo_engine = (fresh_engine 60000 (demo_state MINUTE))\<lparr>we_warmed := True, we_completed := Some 737999\<rparr>"

definition demo_scaled :: "ms \<Rightarrow> scaled_row" where
  "demo_scaled t = (t, 1000000, 1010000, 990000, 1000000, 1)"

definition demo_calls :: "(live_call \<times> (sym \<Rightarrow> nat)) list" where
  "demo_calls =
     [((34320000, \<lambda>_ _. None, Some [(''SPY'', \<lparr>pu_first_ms = 34200000, pu_total = 2,
         pu_rows = [demo_scaled 34200000, demo_scaled 34260000]\<rparr>)]), \<lambda>_. 2),
      ((34380000, demo_live_store, None), \<lambda>_. 3)]"

definition demo_opened :: "note_log backtest" where
  "demo_opened = (case begin_session (recording quiet) demo_live_store None 738000 (we_bt demo_engine) of Inr e \<Rightarrow> e | Inl _ \<Rightarrow> undefined)"

definition demo_walked :: "note_log backtest" where
  "demo_walked = (case walk (recording quiet) 738000 (timeline (ends_of demo_opened)) (demo_opened\<lparr>bt_prev_t := - 1\<rparr>) of
     Inr e \<Rightarrow> e | Inl _ \<Rightarrow> undefined)"

definition demo_ended :: "note_log backtest" where
  "demo_ended = (case end_session (recording quiet) 738000 demo_walked of Inr e \<Rightarrow> e | Inl _ \<Rightarrow> undefined)"

lemma not_isl_case: "\<not> isl r \<Longrightarrow> r = Inr (case r of Inr e \<Rightarrow> e | Inl _ \<Rightarrow> undefined)"
  by (cases r) simp_all

lemma demo_day_runs:
  "begin_session (recording quiet) demo_live_store None 738000 (we_bt demo_engine) = Inr demo_opened"
  "walk (recording quiet) 738000 (timeline (ends_of demo_opened)) (demo_opened\<lparr>bt_prev_t := - 1\<rparr>) = Inr demo_walked"
  "end_session (recording quiet) 738000 demo_walked = Inr demo_ended"
  unfolding demo_opened_def demo_walked_def demo_ended_def
  by (rule not_isl_case, code_simp)+

lemma demo_quits: "\<not> al_quit (bt_algo demo_opened)" "\<not> al_quit (bt_algo demo_walked)"
  by code_simp+

lemma demo_ready: "ready 738000 60000 demo_day demo_engine"
  by code_simp

lemma demo_whole: "whole_day 60000 demo_day"
  by (simp add: whole_day_def demo_day_def spaced_def demo_minute_bar_def)

lemma demo_feed: "fed_in_order 738000 60000 demo_day (\<lambda>_. 0) (- 1) demo_calls"
  by code_simp


end
