(* ===== verification/WarmEngineProps.thy ===== *)
theory WarmEngineProps
  imports LiveDay "HOL-Library.Multiset"
begin

text \<open>
  The long-lived engine over any calls: it is fail-stop (\<open>payload_needs_a_clean_past\<close>), and its clock
  wake-ups and its bars share one schedule (\<open>wake_ups_and_bars_run_each_event_once\<close>).
\<close>

section \<open>An engine that failed is never asked again\<close>

lemma die_dead: "die why w = (r, w') \<Longrightarrow> we_dead w' \<noteq> None"
  by (auto simp: die_def stale_def split: option.splits)

lemma stale_dead: "\<exists>y. we_dead (stale why w) = Some y"
  by (simp add: stale_def split: option.splits)

lemma absorb_fails: "absorb_all d late w = (Inl er, w') \<Longrightarrow> we_dead w' \<noteq> None"
  by (induction d late w rule: absorb_all.induct) (auto simp: stale_dead split: sum.splits)

lemma step_fails: "step_all hk d ends w = (Inl er, w') \<Longrightarrow> we_dead w' \<noteq> None"
  by (induction hk d ends w rule: step_all.induct)
     (auto simp: Let_def stale_dead dest: die_dead split: sum.splits if_splits)

lemma process_fails: "process_bars hk now d w = (Inl er, w') \<Longrightarrow> we_dead w' \<noteq> None"
  by (auto simp: process_bars_def Let_def dest: die_dead absorb_fails step_fails split: sum.splits prod.splits if_splits)

lemma then_do_fails:
  "then_do r f = (Inl er, w') \<Longrightarrow> r = (Inl er, w') \<or> (\<exists>w. r = (Inr True, w) \<and> f w = (Inl er, w'))"
  by (auto simp: then_do_def split: prod.splits sum.splits bool.splits)

lemma open_fails: "open_today hk store pushed d bars w = (Inl er, w') \<Longrightarrow> we_dead w' \<noteq> None"
  by (auto simp: open_today_def stale_dead dest: die_dead split: sum.splits if_splits)

lemma extend_all_fails: "extend_all bars w = (Inl er, w') \<Longrightarrow> we_dead w' \<noteq> None"
  by (induction bars w rule: extend_all.induct) (auto dest: die_dead split: option.splits)

lemma extend_fails: "extend_today hk bars w = (Inl er, w') \<Longrightarrow> we_dead w' \<noteq> None"
  by (auto simp: extend_today_def Let_def dest: die_dead extend_all_fails split: if_splits)

lemma advance_bars_fails: "advance_bars hk store pushed now d bars w = (Inl er, w') \<Longrightarrow> we_dead w' \<noteq> None"
  by (auto simp: advance_bars_def dest!: then_do_fails dest: open_fails extend_fails process_fails split: if_splits option.splits)

lemma advance_fails: "advance hk store now d fed w = (Inl er, w') \<Longrightarrow> we_dead w' \<noteq> None"
  by (auto simp: advance_def advance_open_def refuse_dead_def dest: die_dead advance_bars_fails
      split: option.splits if_splits sum.splits)

lemma end_fails: "end_live_session hk d w = (Inl er, w') \<Longrightarrow> we_dead w' \<noteq> None"
  by (auto simp: end_live_session_def refuse_dead_def stale_dead dest: die_dead split: option.splits if_splits sum.splits)

lemma fire_fails: "fire_due hk d evs w = (Inl er, w') \<Longrightarrow> we_dead w' \<noteq> None"
  by (induction hk d evs w rule: fire_due.induct) (auto simp: stale_dead dest: die_dead split: sum.splits if_splits)

text \<open>The calls of a driver, and which of them came back without an error.\<close>

datatype live_op =
    Advance ms minute_store day "(sym, bar_push) dict option"
  | Prime ms day "(sym, pyfloat) dict"
  | EndSession day

fun do_op :: "'u hooks \<Rightarrow> live_op \<Rightarrow> 'u warm_engine \<Rightarrow> bool \<times> 'u warm_engine" where
  "do_op hk (Advance now store d fed) w = (case advance hk store now d fed w of (r, w') \<Rightarrow> (\<not> isl r, w'))"
| "do_op hk (Prime now d ps) w = (case prime hk now d ps w of (r, w') \<Rightarrow> (\<not> isl r \<or> we_dead w' = None, w'))"
| "do_op hk (EndSession d) w = (case end_live_session hk d w of (r, w') \<Rightarrow> (\<not> isl r, w'))"

fun live_ops :: "'u hooks \<Rightarrow> live_op list \<Rightarrow> 'u warm_engine \<Rightarrow> bool list \<times> 'u warm_engine" where
  "live_ops hk [] w = ([], w)"
| "live_ops hk (x # xs) w =
     (case do_op hk x w of (ok, w1) \<Rightarrow> (case live_ops hk xs w1 of (oks, w2) \<Rightarrow> (ok # oks, w2)))"

lemma op_fails: "do_op hk x w = (False, w') \<Longrightarrow> we_dead w' \<noteq> None"
  by (cases x) (auto dest: advance_fails end_fails split: prod.splits sum.splits simp: isl_def)

lemma dead_stays: "we_dead w = Some why \<Longrightarrow> do_op hk x w = (ok, w') \<Longrightarrow> w' = w"
  by (cases x) (auto simp: advance_def prime_def end_live_session_def refuse_dead_def)

lemma dead_ops: "we_dead w = Some why \<Longrightarrow> live_ops hk xs w = (oks, w') \<Longrightarrow> w' = w"
proof (induction xs arbitrary: w oks w')
  case (Cons x xs)
  obtain ok w1 where w1: "do_op hk x w = (ok, w1)" by fastforce
  then have "w1 = w" using dead_stays Cons.prems(1) by blast
  then show ?case using Cons w1 by (auto split: prod.splits)
qed simp



section \<open>Woken by the clock, then by the bars\<close>

lemma on_algo_frame:
  "on_algo f e = Inr e' \<Longrightarrow> \<exists>a. f (bt_algo e) = Inr a \<and> e' = e\<lparr>bt_algo := a\<rparr>"
  by (auto simp: on_algo_def bind_res_Inr_iff)

lemma price_notes: "fold_res price_symbol ps a = Inr a' \<Longrightarrow> same_notes a a'"
proof (induction ps arbitrary: a)
  case (Cons p ps)
  then obtain a1 where a1: "price_symbol p a = Inr a1" "fold_res price_symbol ps a1 = Inr a'"
    by (auto simp: bind_res_Inr_iff)
  have "same_notes a a1" using a1(1) by (auto simp: price_symbol_def set_book_def same_notes_def split: option.splits)
  then show ?case using Cons.IH [OF a1(2)] by (simp add: same_notes_def)
qed (simp add: same_notes_def)

text \<open>What a wake-up leaves as it was.\<close>

definition woken :: "'u backtest \<Rightarrow> 'u backtest \<Rightarrow> bool" where
  "woken e e' \<longleftrightarrow> bt_day_events e' = bt_day_events e \<and> bt_prev_t e' = bt_prev_t e \<and> bt_warm e' = bt_warm e
     \<and> bt_daily_lean e' = bt_daily_lean e \<and> al_quit (bt_algo e') = al_quit (bt_algo e)"

lemma fire_due_notes:
  assumes "recorder hk" "fire_due hk d due w = (Inr (), w')"
  shows "woken (we_bt w) (we_bt w') \<and> bt_primed (we_bt w') = bt_primed (we_bt w)
    \<and> al_user (bt_algo (we_bt w')) = al_user (bt_algo (we_bt w)) @ map (\<lambda>x. (se_cb (snd x), d, fst x)) due"
  using assms(2)
proof (induction due arbitrary: w)
  case (Cons x due)
  obtain t ev where x: "x = (t, ev)" by (cases x)
  let ?a = "set_ms d t (bt_algo (we_bt w))"
  have e: "on_algo (hk_event hk (se_cb ev)) (upd_algo (set_ms d t) (we_bt w))
      = Inr ((we_bt w)\<lparr>bt_algo := ?a\<lparr>al_user := al_user ?a @ [(se_cb ev, al_now ?a)]\<rparr>\<rparr>)"
    using assms(1) by (simp add: recorder_def on_algo_def upd_algo_def)
  have "fire_due hk d due (w\<lparr>we_bt := (we_bt w)\<lparr>bt_algo := ?a\<lparr>al_user := al_user ?a @ [(se_cb ev, al_now ?a)]\<rparr>\<rparr>\<rparr>) = (Inr (), w')"
    using Cons.prems by (auto simp: x e die_def split: if_splits)
  from Cons.IH [OF this] show ?case by (simp add: x woken_def set_ms_def set_book_def)
qed (simp add: woken_def)

lemma prime_notes:
  assumes rec: "recorder hk" and open_day: "we_warmed w" "we_day w = Some d" and r: "prime hk now d ps w = (Inr out, w')"
  shows "woken (we_bt w) (we_bt w')
    \<and> al_user (bt_algo (we_bt w')) = al_user (bt_algo (we_bt w)) @ map (\<lambda>x. (se_cb (snd x), d, fst x)) (due_events now (we_bt w))
    \<and> bt_primed (we_bt w') = (if due_events now (we_bt w) = [] then bt_primed (we_bt w) else max (bt_primed (we_bt w)) now)"
proof (cases "due_events now (we_bt w) = []")
  case True
  then have "w' = w" using r open_day by (auto simp: prime_def refuse_dead_def Let_def split: option.splits)
  then show ?thesis using True by (simp add: woken_def)
next
  case False
  then obtain bt w1 where bt: "on_algo (fold_res price_symbol (usable_quotes ps (bt_syms (we_bt w)))) (we_bt w) = Inr bt"
    and w1: "fire_due hk d (due_events now (we_bt w)) (w\<lparr>we_bt := upd_algo (\<lambda>a. a\<lparr>al_market_open := True\<rparr>) bt\<rparr>) = (Inr (), w1)"
    and w': "w' = w1\<lparr>we_bt := (we_bt w1)\<lparr>bt_primed := max (bt_primed (we_bt w1)) now\<rparr>\<rparr>"
    using r open_day by (auto simp: prime_def refuse_dead_def Let_def split: option.splits sum.splits prod.splits)
  obtain a where a: "fold_res price_symbol (usable_quotes ps (bt_syms (we_bt w))) (bt_algo (we_bt w)) = Inr a" "bt = (we_bt w)\<lparr>bt_algo := a\<rparr>"
    using on_algo_frame [OF bt] by blast
  have "same_notes (bt_algo (we_bt w)) a" using price_notes [OF a(1)] .
  then show ?thesis
    using fire_due_notes [OF rec w1] False by (simp add: w' a(2) woken_def same_notes_def upd_algo_def)
qed

lemma mset_filter_disj: "(\<And>x. \<not> (P x \<and> Q x)) \<Longrightarrow> mset (filter P xs) + mset (filter Q xs) = mset (filter (\<lambda>x. P x \<or> Q x) xs)"
  by (induction xs) auto

lemma mset_by_key:
  "distinct ts \<Longrightarrow> mset (concat (map (\<lambda>t. map h (filter (\<lambda>x. f x = Some t) xs)) ts))
    = mset (map h (filter (\<lambda>x. \<exists>t\<in>set ts. f x = Some t) xs))"
proof (induction ts)
  case (Cons t ts)
  have "mset (map h (filter (\<lambda>x. \<exists>u\<in>set (t # ts). f x = Some u) xs))
      = image_mset h (mset (filter (\<lambda>x. f x = Some t \<or> (\<exists>u\<in>set ts. f x = Some u)) xs))" by simp
  also have "\<dots> = image_mset h (mset (filter (\<lambda>x. f x = Some t) xs) + mset (filter (\<lambda>x. \<exists>u\<in>set ts. f x = Some u) xs))"
    using Cons.prems by (subst mset_filter_disj) auto
  finally show ?case using Cons by simp
qed simp

lemma fires_at_some: "(\<exists>t\<in>set ts. fires_at p q ts f = Some t) \<longleftrightarrow> p < f \<and> q < f \<and> (\<exists>t\<in>set ts. f \<le> t)"
proof -
  have "(\<exists>t\<in>set ts. find (\<lambda>t. f \<le> t) ts = Some t) \<longleftrightarrow> find (\<lambda>t. f \<le> t) ts \<noteq> None"
    by (auto simp: find_Some_iff)
  also have "\<dots> \<longleftrightarrow> (\<exists>t\<in>set ts. f \<le> t)" by (auto simp: find_None_iff)
  finally show ?thesis by (auto simp: fires_at_def)
qed

text \<open>C13: The clock and the bars share one schedule.  Wake the engine at any moment of an open session and
  step the bars after it: the scheduled handlers that have run are exactly those whose time lies past what
  the engine had run before and is reached by the clock or by a bar, each of them once, whichever of the
  two came first.\<close>

theorem wake_ups_and_bars_run_each_event_once:
  assumes "recorder hk" and "we_warmed w" and "we_day w = Some d" and "session_state_ok (we_bt w)"
    and "prime hk now d ps w = (Inr out, w')"
    and "sorted_wrt (<) (map fst bars)" and "\<forall>t\<in>set (map fst bars). bt_prev_t (we_bt w) < t"
    and "walk hk d bars (we_bt w') = Inr e'"
  shows "\<exists>ran. al_user (bt_algo e') = al_user (bt_algo (we_bt w)) @ ran
    \<and> mset (map fst ran) = mset (map (\<lambda>x. se_cb (snd x))
        (filter (\<lambda>x. cursor (we_bt w) < fst x \<and> (fst x \<le> now \<or> (\<exists>t\<in>set (map fst bars). fst x \<le> t))) (bt_day_events (we_bt w))))"
proof -
  let ?due = "due_events now (we_bt w)" and ?ts = "map fst bars" and ?evs = "bt_day_events (we_bt w)" and ?p = "bt_primed (we_bt w')"
  note pr = prime_notes [OF assms(1-3,5)]
  let ?walked = "concat (map (\<lambda>t. map (\<lambda>x. (se_cb (snd x), d, t))
      (filter (\<lambda>x. fires_at (bt_prev_t (we_bt w)) ?p ?ts (fst x) = Some t) ?evs)) ?ts)"
  have user: "al_user (bt_algo e') = al_user (bt_algo (we_bt w)) @ (map (\<lambda>x. (se_cb (snd x), d, fst x)) ?due @ ?walked)"
    using walk_notes [OF assms(1) _ assms(6) _ assms(8)] pr assms(4,7) by (simp add: woken_def session_state_ok_def)
  have due: "mset ?due = mset (filter (\<lambda>x. cursor (we_bt w) < fst x \<and> fst x \<le> now) ?evs)"
    by (simp add: due_events_def)
  have "map fst ?walked = concat (map (\<lambda>t. map (\<lambda>x. se_cb (snd x))
      (filter (\<lambda>x. fires_at (bt_prev_t (we_bt w)) ?p ?ts (fst x) = Some t) ?evs)) ?ts)"
    by (simp add: map_concat o_def)
  moreover have "distinct ?ts" using assms(6) by (simp add: strict_sorted_iff)
  ultimately have walked: "mset (map fst ?walked) = mset (map (\<lambda>x. se_cb (snd x))
      (filter (\<lambda>x. bt_prev_t (we_bt w) < fst x \<and> ?p < fst x \<and> (\<exists>t\<in>set ?ts. fst x \<le> t)) ?evs))"
    using mset_by_key [of ?ts "\<lambda>x. se_cb (snd x)" "\<lambda>x. fires_at (bt_prev_t (we_bt w)) ?p ?ts (fst x)" ?evs]
    by (simp only: fires_at_some)
  have past: "(bt_prev_t (we_bt w) < fst x \<and> ?p < fst x) = (cursor (we_bt w) < fst x \<and> now < fst x)" if "x \<in> set ?evs" for x
  proof (cases "?due = []")
    case True
    then have "filter (\<lambda>x. cursor (we_bt w) < fst x \<and> fst x \<le> now) ?evs = []"
      using due by (simp only: mset.simps(1) mset_zero_iff_right)
    then have "\<not> (cursor (we_bt w) < fst x \<and> fst x \<le> now)" using that by (simp add: filter_empty_conv)
    then show ?thesis using pr True by (auto simp: cursor_def)
  qed (use pr in \<open>auto simp: cursor_def\<close>)
  have "filter (\<lambda>x. bt_prev_t (we_bt w) < fst x \<and> ?p < fst x \<and> (\<exists>t\<in>set ?ts. fst x \<le> t)) ?evs
      = filter (\<lambda>x. cursor (we_bt w) < fst x \<and> now < fst x \<and> (\<exists>t\<in>set ?ts. fst x \<le> t)) ?evs"
    using past by (intro filter_cong) blast+
  then have "mset (map fst (map (\<lambda>x. (se_cb (snd x), d, fst x)) ?due @ ?walked))
      = image_mset (\<lambda>x. se_cb (snd x)) (mset (filter (\<lambda>x. cursor (we_bt w) < fst x \<and> fst x \<le> now) ?evs)
          + mset (filter (\<lambda>x. cursor (we_bt w) < fst x \<and> now < fst x \<and> (\<exists>t\<in>set ?ts. fst x \<le> t)) ?evs))"
    using walked due by (simp add: o_def)
  also have "\<dots> = image_mset (\<lambda>x. se_cb (snd x)) (mset (filter (\<lambda>x. (cursor (we_bt w) < fst x \<and> fst x \<le> now)
      \<or> (cursor (we_bt w) < fst x \<and> now < fst x \<and> (\<exists>t\<in>set ?ts. fst x \<le> t))) ?evs))"
    by (rule arg_cong [where f = "image_mset _"], rule mset_filter_disj) auto
  also have "filter (\<lambda>x. (cursor (we_bt w) < fst x \<and> fst x \<le> now)
      \<or> (cursor (we_bt w) < fst x \<and> now < fst x \<and> (\<exists>t\<in>set ?ts. fst x \<le> t))) ?evs
    = filter (\<lambda>x. cursor (we_bt w) < fst x \<and> (fst x \<le> now \<or> (\<exists>t\<in>set (map fst bars). fst x \<le> t))) ?evs"
    by (intro filter_cong) auto
  finally show ?thesis
    unfolding mset_map [of "\<lambda>x. se_cb (snd x)"] using user by blast
qed

definition demo_awake :: "note_log warm_engine" where
  "demo_awake = (fresh_engine 60000 demo_open)\<lparr>we_warmed := True, we_day := Some 738000\<rparr>"

definition demo_woken :: "(primed option) res \<times> note_log warm_engine" where
  "demo_woken = prime (recording quiet) 34310000 738000 [(''SPY'', 100)] demo_awake"

theorem wake_ups_and_bars_run_each_event_once_witness:
  "\<exists>ran. al_user (bt_algo (projr (walk (recording quiet) 738000 demo_timeline (we_bt (snd demo_woken))))) = al_user (bt_algo demo_open) @ ran
    \<and> mset (map fst ran) = {#1#}"
proof -
  have "\<not> isl (fst demo_woken)" by code_simp
  then obtain out w' where w': "prime (recording quiet) 34310000 738000 [(''SPY'', 100)] demo_awake = (Inr out, w')"
    unfolding demo_woken_def
    by (cases "prime (recording quiet) 34310000 738000 [(''SPY'', 100)] demo_awake") (auto simp: isl_def, metis old.sum.exhaust)
  have "\<not> isl (walk (recording quiet) 738000 demo_timeline (we_bt (snd demo_woken)))" by code_simp
  then obtain e' where e': "walk (recording quiet) 738000 demo_timeline (we_bt w') = Inr e'"
    by (auto simp: demo_woken_def w' isl_def) (metis old.sum.exhaust)
  have st: "session_state_ok (we_bt demo_awake)" "we_warmed demo_awake" "we_day demo_awake = Some 738000"
    by (simp_all add: demo_awake_def fresh_engine_def demo_open_facts)
  have "\<exists>ran. al_user (bt_algo e') = al_user (bt_algo (we_bt demo_awake)) @ ran
    \<and> mset (map fst ran) = mset (map (\<lambda>x. se_cb (snd x))
        (filter (\<lambda>x. cursor (we_bt demo_awake) < fst x \<and> (fst x \<le> 34310000 \<or> (\<exists>t\<in>set (map fst demo_timeline). fst x \<le> t)))
          (bt_day_events (we_bt demo_awake))))"
    by (rule wake_ups_and_bars_run_each_event_once [OF recording_recorder st(2,3,1) w' _ _ e'])
       (simp_all add: demo_timeline_def demo_awake_def fresh_engine_def demo_open_facts)
  moreover have "mset (map (\<lambda>x. se_cb (snd x))
        (filter (\<lambda>x. cursor (we_bt demo_awake) < fst x \<and> (fst x \<le> 34310000 \<or> (\<exists>t\<in>set (map fst demo_timeline). fst x \<le> t)))
          (bt_day_events (we_bt demo_awake)))) = {#1#}"
    by (simp add: demo_awake_def fresh_engine_def demo_open_facts cursor_def demo_timeline_def demo_event_def)
  moreover have "we_bt demo_awake = demo_open" by (simp add: demo_awake_def fresh_engine_def)
  moreover have "we_bt (snd demo_woken) = we_bt w'" by (simp only: demo_woken_def w' snd_conv)
  ultimately show ?thesis by (simp only: e' sum.sel)
qed

end
