(* ===== verification/FastProps.thy ===== *)
theory FastProps
  imports Fast EngineProps
begin

text \<open>
  The quiet-bar fast path always comes to an end (\<open>fast_path_returns\<close>), and the parts of the walk over
  every bar it is compared with: what a visit leaves alone, when a bar cannot matter.  The comparison
  itself is \<open>FastWalk\<close> (one bar) and \<open>FastRun\<close> (a session).
\<close>

section \<open>What a visit leaves alone\<close>

definition fixed_part :: "'u backtest \<Rightarrow> 'u backtest \<Rightarrow> bool" where
  "fixed_part e e' \<longleftrightarrow> e' = e\<lparr>bt_algo := bt_algo e', bt_first_done := bt_first_done e'\<rparr>"

lemma fixed_refl: "fixed_part e e"
  by (simp add: fixed_part_def)

lemma fixed_fields:
  assumes "fixed_part e e'"
  shows "bt_day_bars e' = bt_day_bars e" "bt_spans e' = bt_spans e" "bt_day_events e' = bt_day_events e"
    "bt_carried e' = bt_carried e" "bt_syms e' = bt_syms e" "bt_warm e' = bt_warm e" "bt_lean_edges e' = bt_lean_edges e"
    "bt_daily_lean e' = bt_daily_lean e" "bt_primed e' = bt_primed e" "bt_sells_due e' = bt_sells_due e" "bt_prev_t e' = bt_prev_t e"
  by (subst assms [unfolded fixed_part_def], simp)+

lemma fixed_trans: "fixed_part a b \<Longrightarrow> fixed_part b c \<Longrightarrow> fixed_part a c"
  by (cases a; cases b; cases c) (simp add: fixed_part_def)

lemma fixed_preorder: "step_preorder fixed_part"
  by unfold_locales (rule fixed_refl, erule (1) fixed_trans)

lemmas fixed_fold = step_preorder.fold_R [OF fixed_preorder]
lemmas fixed_when = step_preorder.when_R [OF fixed_preorder]

lemma on_algo_fixed: "on_algo f e = Inr e' \<Longrightarrow> fixed_part e e'"
  by (auto simp: on_algo_def bind_res_Inr_iff fixed_part_def)

lemma check_fixed: "check_bar hk ex si e = Inr e' \<Longrightarrow> fixed_part e e'"
  by (auto simp: check_bar_def bind_res_Inr_iff dest: on_algo_fixed)

lemma checks_fixed: "fold_res (check_bar hk ex) es e = Inr e' \<Longrightarrow> fixed_part e e'"
  by (erule fixed_fold) (rule check_fixed)

lemma open_fixed: "fill_market_on_open hk es e = Inr e' \<Longrightarrow> fixed_part e e'"
  by (auto simp: fill_market_on_open_def bind_res_Inr_iff dest: on_algo_fixed)

lemma edge_fixed: "fill_edge hk kind e = Inr e' \<Longrightarrow> fixed_part e e'"
  unfolding fill_edge_def by (rule on_algo_fixed)

lemma events_fixed: "run_events hk evs e = Inr e' \<Longrightarrow> fixed_part e e'"
  unfolding run_events_def by (erule fixed_fold) (rule on_algo_fixed)

lemma upd_fixed: "fixed_part e (upd_algo f e)"
  by (simp add: fixed_part_def upd_algo_def)

lemma roll_fixed:
  assumes "fold_res (roll_symbol t) bars (ap, e) = Inr (ap', e')"
  shows "fixed_part e e'"
  using assms
proof (induction bars arbitrary: ap e)
  case (Cons sb bars)
  then obtain x1 where x1: "roll_symbol t sb (ap, e) = Inr x1" "fold_res (roll_symbol t) bars x1 = Inr (ap', e')"
    by (auto simp: bind_res_Inr_iff)
  obtain ap1 e1 where x: "x1 = (ap1, e1)" by (cases x1)
  have "fixed_part e e1"
    using x1(1) by (auto simp: x roll_symbol_def Let_def bind_res_Inr_iff fixed_refl dest: on_algo_fixed split: if_splits)
  then show ?case using Cons.IH x1(2) x fixed_trans by blast
qed (simp add: fixed_refl)

lemma visit_cases:
  assumes "visit hk d t evs (ap, e) = Inr (ap', e')"
  obtains e1 e2 e3 e4 e5 where
    "fold_res (roll_symbol t) (bt_day_bars e) (ap, upd_algo (set_ms d t) e) = Inr (ap', e1)"
    "visit_open hk (ending_at t e1) e1 = Inr e2"
    "when_do (\<not> bt_carried e2) (fold_res (check_bar hk None) (ending_at t e1)) e2 = Inr e3"
    "run_events hk evs e3 = Inr e4"
    "when_do (\<not> bt_carried e4) (fold_res (check_bar hk (Some (d, t))) (ending_at t e1)) e4 = Inr e5"
    "visit_late_open hk (upd_algo (mark_invested (bt_syms e5)) e5) = Inr e'"
  using assms by (auto simp: visit_def Let_def bind_res_Inr_iff)

lemma first_fixed: "fixed_part e (e\<lparr>bt_first_done := x\<rparr>)"
  by (simp add: fixed_part_def)

lemma visit_open_fixed: "visit_open hk es e = Inr e' \<Longrightarrow> fixed_part e e'"
  by (auto simp: visit_open_def fixed_refl intro: fixed_trans [OF first_fixed open_fixed] split: if_splits)

lemma visit_late_fixed: "visit_late_open hk e = Inr e' \<Longrightarrow> fixed_part e e'"
  by (auto simp: visit_late_open_def when_do_def fixed_refl intro: first_fixed fixed_trans [OF first_fixed edge_fixed] split: if_splits)

lemma visit_fixed:
  assumes "visit hk d t evs (ap, e) = Inr (ap', e')"
  shows "fixed_part e e'"
proof -
  obtain e1 e2 e3 e4 e5 where v:
    "fold_res (roll_symbol t) (bt_day_bars e) (ap, upd_algo (set_ms d t) e) = Inr (ap', e1)"
    "visit_open hk (ending_at t e1) e1 = Inr e2"
    "when_do (\<not> bt_carried e2) (fold_res (check_bar hk None) (ending_at t e1)) e2 = Inr e3"
    "run_events hk evs e3 = Inr e4"
    "when_do (\<not> bt_carried e4) (fold_res (check_bar hk (Some (d, t))) (ending_at t e1)) e4 = Inr e5"
    "visit_late_open hk (upd_algo (mark_invested (bt_syms e5)) e5) = Inr e'"
    using assms by (rule visit_cases)
  have "fixed_part e e1" using upd_fixed roll_fixed [OF v(1)] by (rule fixed_trans)
  moreover have "fixed_part e1 e2" using v(2) by (rule visit_open_fixed)
  moreover have "fixed_part e2 e3" using v(3) by (rule fixed_when) (rule checks_fixed)
  moreover have "fixed_part e3 e4" using v(4) by (rule events_fixed)
  moreover have "fixed_part e4 e5" using v(5) by (rule fixed_when) (rule checks_fixed)
  moreover have "fixed_part e5 e'" using upd_fixed visit_late_fixed [OF v(6)] by (rule fixed_trans)
  ultimately show ?thesis using fixed_trans by metis
qed

section \<open>Every visit is a later bar end\<close>

definition rising :: "(sym, day_bars) dict \<Rightarrow> bool" where
  "rising bars \<longleftrightarrow> distinct (map fst bars) \<and> list_all (\<lambda>x. sorted_wrt (\<lambda>y z. b_start y < b_start z) (snd x)) bars"

lemma later_dropWhile: "later last_t sp b = dropWhile (\<lambda>x. b_start x + sp \<le> last_t) b"
  by (simp add: later_def dropWhile_eq_drop)

lemma later_after:
  assumes "sorted_wrt (\<lambda>y z. b_start y < b_start z) b" "x \<in> set (later last_t sp b)"
  shows "x \<in> set b \<and> last_t < b_start x + sp"
  using assms unfolding later_dropWhile
proof (induction b)
  case (Cons y b)
  then show ?case by (auto split: if_splits)
qed simp

lemma ends_of_mem:
  assumes "(s, b) \<in> set (bt_day_bars e)" "x \<in> set b"
  shows "b_start x + dget_or (bt_spans e) s 0 \<in> set (merged_ends e)"
proof -
  let ?f = "\<lambda>(s, b). map (\<lambda>i. (b_start (b ! i) + dget_or (bt_spans e) s 0, (s, i))) [0..<length b]"
  obtain i where i: "i < length b" "x = b ! i" using assms(2) by (auto simp: in_set_conv_nth)
  have "?f (s, b) \<in> set (map ?f (bt_day_bars e))" unfolding set_map using assms(1) by (rule imageI)
  moreover have "(b_start x + dget_or (bt_spans e) s 0, (s, i)) \<in> set (?f (s, b))" using i by simp
  ultimately have "(b_start x + dget_or (bt_spans e) s 0, (s, i)) \<in> set (ends_of e)"
    unfolding ends_of_def set_concat by (rule UN_I)
  then show ?thesis unfolding merged_ends_def by force
qed

lemma candidate_end:
  assumes "rising (bt_day_bars e)" "ticket_candidate (bt_spans e) (bt_day_bars e) last_t x = Inr (Some c)"
  shows "c \<in> set (merged_ends e) \<and> last_t < c"
proof (cases "dget (bt_day_bars e) (tk_sym x)")
  case (Some b)
  let ?sp = "dget_or (bt_spans e) (tk_sym x) 0"
  have in_bars: "(tk_sym x, b) \<in> set (bt_day_bars e)" using Some by (simp add: dget_def map_of_SomeD)
  have srt: "sorted_wrt (\<lambda>y z. b_start y < b_start z) b"
    using assms(1) in_bars by (force simp: rising_def list_all_iff)
  have hit: "\<exists>y\<in>set (later last_t ?sp b). c = b_start y + ?sp" if "first_hit ?sp p (later last_t ?sp b) = Some c" for p
    using that by (auto simp: first_hit_def find_Some_iff split: option.splits)
  have "\<exists>y\<in>set (later last_t ?sp b). c = b_start y + ?sp"
    using assms(2) by (auto simp: ticket_candidate_def Let_def Some bind_res_Inr_iff
        intro: hit split: if_splits order_type.splits)
  then obtain y where y: "y \<in> set (later last_t ?sp b)" "c = b_start y + ?sp" by blast
  then show ?thesis using later_after [OF srt y(1)] ends_of_mem [OF in_bars, of y] by simp
qed (use assms(2) in \<open>simp add: ticket_candidate_def\<close>)

lemma min_opt_cases: "min_opt x y = Some c \<Longrightarrow> x = Some c \<or> y = Some c"
  by (cases x; cases y) (auto split: if_splits)

lemma next_candidate_end:
  assumes "rising (bt_day_bars e)" "next_candidate_ms k (bt_spans e) (bt_day_bars e) last_t = Inr (Some c)"
  shows "c \<in> set (merged_ends e) \<and> last_t < c"
proof -
  have "c \<in> set (merged_ends e) \<and> last_t < c"
    if "fold_res (\<lambda>i best. bind_res (ticket_candidate (bt_spans e) (bt_day_bars e) last_t (tk k i)) (\<lambda>c. Inr (min_opt c best))) is best = Inr (Some c)"
      "\<And>c. best = Some c \<Longrightarrow> c \<in> set (merged_ends e) \<and> last_t < c" for "is" best
    using that
  proof (induction "is" arbitrary: best)
    case (Cons i "is")
    then obtain c' where c': "ticket_candidate (bt_spans e) (bt_day_bars e) last_t (tk k i) = Inr c'"
      and r: "fold_res (\<lambda>i best. bind_res (ticket_candidate (bt_spans e) (bt_day_bars e) last_t (tk k i)) (\<lambda>c. Inr (min_opt c best))) is
        (min_opt c' best) = Inr (Some c)"
      by (auto simp: bind_res_Inr_iff)
    show ?case
    proof (rule Cons.IH [OF r])
      fix c0 assume "min_opt c' best = Some c0"
      then show "c0 \<in> set (merged_ends e) \<and> last_t < c0"
        using min_opt_cases [of c' best c0] candidate_end [OF assms(1)] c' Cons.prems(2) by auto
    qed
  qed simp
  from this [of "open_ids k" None] assms(2) show ?thesis by (simp add: next_candidate_ms_def)
qed

lemma next_visit_end:
  assumes "rising (bt_day_bars e)" "next_visit forced last_t e = Inr (Some t)"
    and "\<And>u. u \<in> set forced \<Longrightarrow> u \<in> set (merged_ends e) \<and> last_t < u"
  shows "t \<in> set (merged_ends e) \<and> last_t < t"
proof -
  obtain cand where c: "(if bt_carried e then Inr None else next_candidate_ms (book_of e) (bt_spans e) (bt_day_bars e) last_t) = Inr cand"
    and t: "min_opt (case forced of [] \<Rightarrow> None | t # _ \<Rightarrow> Some t) cand = Some t"
    using assms(2) by (auto simp: next_visit_def bind_res_Inr_iff)
  then show ?thesis
    using min_opt_cases [OF t] assms(3) next_candidate_end [OF assms(1)]
    by (auto split: if_splits list.splits)
qed

section \<open>The fast path returns\<close>

lemma merged_fixed: "fixed_part e e' \<Longrightarrow> merged_ends e' = merged_ends e"
  by (simp add: fixed_fields merged_ends_def ends_of_def)

lemma dropWhile_after: "sorted (xs :: int list) \<Longrightarrow> u \<in> set (dropWhile (\<lambda>u. u \<le> t) xs) \<Longrightarrow> u \<in> set xs \<and> t < u"
  by (induction xs) (auto split: if_splits)

lemma fast_loop_returns:
  assumes "rising (bt_day_bars e)" "sorted forced" "distinct merged" "merged = merged_ends e"
    and "\<And>u. u \<in> set forced \<Longrightarrow> u \<in> set merged \<and> last_t < u"
    and "length (filter (\<lambda>u. last_t < u) merged) < k"
  shows "fast_loop k hk d merged n forced last_t ap e \<noteq> None"
  using assms
proof (induction k arbitrary: e forced last_t ap)
  case (Suc k)
  show ?case
  proof (cases "next_visit forced last_t e")
    case (Inr v)
    show ?thesis
    proof (cases v)
      case (Some t)
      have t: "t \<in> set merged" "last_t < t"
        using next_visit_end [OF Suc.prems(1), of forced last_t t] Inr Some Suc.prems(4,5) by auto
      show ?thesis
      proof (cases "visit hk d t (fire_at merged (bt_day_events e) t) (ap, e)")
        case (Inr x)
        obtain ap' e' where x: "x = (ap', e')" by (cases x)
        have fx: "fixed_part e e'" using Inr x visit_fixed by blast
        have "length (filter (\<lambda>u. t < u) merged) < length (filter (\<lambda>u. last_t < u) merged)"
        proof -
          have "set (filter (\<lambda>u. t < u) merged) \<subset> set (filter (\<lambda>u. last_t < u) merged)" using t by auto
          then have "card (set (filter (\<lambda>u. t < u) merged)) < card (set (filter (\<lambda>u. last_t < u) merged))"
            by (rule psubset_card_mono [rotated]) simp
          then show ?thesis by (simp only: distinct_card distinct_filter Suc.prems(3))
        qed
        then have "fast_loop k hk d merged n (dropWhile (\<lambda>u. u \<le> t) forced) t ap' e' \<noteq> None"
          using Suc.prems fx dropWhile_after [OF Suc.prems(2), of _ t]
          by (intro Suc.IH) (auto simp: fixed_fields [OF fx] merged_fixed [OF fx] intro: sorted_dropWhile)
        then show ?thesis using \<open>next_visit forced last_t e = Inr v\<close> Some Inr x by simp
      qed (use Inr Some in simp)
    qed (use Inr in simp)
  qed simp
qed simp

text \<open>A session with bars: each symbol once, its bars in order, no bar end before midnight.\<close>

definition barred :: "'u backtest \<Rightarrow> bool" where
  "barred e \<longleftrightarrow> rising (bt_day_bars e) \<and> merged_ends e \<noteq> [] \<and> list_all (\<lambda>u. 0 \<le> u) (merged_ends e)"

lemma forced_in_merged: "merged \<noteq> [] \<Longrightarrow> u \<in> set (forced_ends merged evs) \<Longrightarrow> u \<in> set merged"
  unfolding forced_ends_def set_sort set_remdups
  by (auto simp: find_Some_iff find_Some_iff2 split: option.splits)

lemma merged_sorted: "sorted (merged_ends e)" "distinct (merged_ends e)"
  by (simp_all add: merged_ends_def)

text \<open>C36: The fast path of a session always comes back.  Each visit is at a later bar end than the one before,
  so the loop, which has no counter in the code, makes at most one visit per bar end of the session,
  whatever the strategy's handlers do to the orders and the schedule in between.\<close>

theorem fast_path_returns:
  assumes "barred e"
  shows "fast_day hk d e \<noteq> None"
proof -
  have m: "merged_ends e \<noteq> []" "\<And>u. u \<in> set (merged_ends e) \<Longrightarrow> - 1 < u" "rising (bt_day_bars e)"
    using assms by (auto simp: barred_def list_all_iff)
  show ?thesis
    unfolding fast_day_def Let_def
  proof (rule fast_loop_returns [OF m(3) _ merged_sorted(2) refl])
    show "sorted (forced_ends (merged_ends e) (bt_day_events e))" by (simp add: forced_ends_def)
    show "length (filter (\<lambda>u. - 1 < u) (merged_ends e)) < Suc (length (merged_ends e))"
      by (simp add: less_Suc_eq_le)
  qed (use forced_in_merged [OF m(1)] m(2) in auto)
qed

section \<open>What the book's operations leave alone\<close>

definition priced_frame :: "obook \<Rightarrow> obook \<Rightarrow> bool" where
  "priced_frame b b' \<longleftrightarrow> prices b' = prices b \<and> securities b' = securities b
     \<and> (ob_ledger b = NoLedger \<longrightarrow> ob_ledger b' = NoLedger)"

definition frame_cb :: "callback \<Rightarrow> bool" where
  "frame_cb cb \<longleftrightarrow> (\<forall>ev b b'. cb ev b = Inr b' \<longrightarrow> priced_frame b b')"

lemma frame_refl: "priced_frame b b"
  by (simp add: priced_frame_def)

lemma frame_trans: "priced_frame a b \<Longrightarrow> priced_frame b c \<Longrightarrow> priced_frame a c"
  by (simp add: priced_frame_def)

lemma frame_upd:
  "priced_frame b (put_ticket b i x)" "priced_frame b (unrest b i)" "priced_frame b (b\<lparr>ob_sleeve := s\<rparr>)"
  "priced_frame b (b\<lparr>events := ev\<rparr>)" "priced_frame b (b\<lparr>unfilled_log := u\<rparr>)" "priced_frame b (b\<lparr>rejections := r, ob_sleeve := s\<rparr>)"
  by (simp_all add: priced_frame_def put_ticket_def unrest_def)

lemma emit_frame: "frame_cb cb \<Longrightarrow> emit cb b i st px fq msg = Inr b' \<Longrightarrow> priced_frame b b'"
  by (simp add: emit_def Let_def frame_cb_def) (blast intro: frame_trans [OF frame_upd(4)])

lemma reject_frame: "frame_cb cb \<Longrightarrow> reject cb b i why = Inr b' \<Longrightarrow> priced_frame b b'"
  unfolding reject_def Let_def case_prod_unfold
  by (erule frame_trans [OF frame_trans [OF frame_trans [OF frame_upd(6) frame_upd(1)] frame_upd(2)] emit_frame, rotated])

lemma adopt_frame: "frame_cb cb \<Longrightarrow> adopt_rows cb b i mp px0 rows = Inr b' \<Longrightarrow> priced_frame b b'"
  by (auto simp: adopt_rows_def Let_def bind_res_Inr_iff
      intro: frame_trans [OF frame_trans [OF frame_trans [OF frame_upd(3) frame_upd(1)] frame_upd(2)] emit_frame])

lemma decline_frame: "frame_cb cb \<Longrightarrow> decline cb b i = Inr b' \<Longrightarrow> priced_frame b b'"
  by (auto simp: decline_def Let_def frame_upd split: if_splits
      intro: frame_trans [OF frame_trans [OF frame_trans [OF frame_upd(5) frame_upd(2)] frame_upd(1)] emit_frame]
        frame_trans [OF frame_trans [OF frame_upd(5) frame_upd(1)] emit_frame])

lemma model_fill_frame: "frame_cb cb \<Longrightarrow> model_fill cb b i px = Inr (hit, b') \<Longrightarrow> priced_frame b b'"
  by (auto simp: model_fill_def Let_def bind_res_Inr_iff split: if_splits prod.splits
      intro: reject_frame frame_trans [OF frame_trans [OF frame_trans [OF frame_upd(3) frame_upd(1)] frame_upd(2)] emit_frame])

lemma fill_frame:
  assumes "frame_cb cb" "ob_ledger b = NoLedger" "fill cb b i px sl = Inr (hit, b')"
  shows "priced_frame b b'"
proof -
  obtain px' where "model_fill cb (b\<lparr>ob_ledger := NoLedger\<rparr>) i px' = Inr (hit, b')"
    using assms(2,3) by (simp add: fill_def Let_def view_take_def)
  then have "priced_frame (b\<lparr>ob_ledger := NoLedger\<rparr>) b'" by (rule model_fill_frame [OF assms(1)])
  then show ?thesis by (simp add: priced_frame_def assms(2))
qed

text \<open>For runs of such operations on a book without a ledger.\<close>

definition quiet_step :: "(obook \<Rightarrow> obook res) \<Rightarrow> bool" where
  "quiet_step f \<longleftrightarrow> (\<forall>b b'. ob_ledger b = NoLedger \<longrightarrow> f b = Inr b' \<longrightarrow> priced_frame b b')"

lemma scan_quiet: "(\<And>i. quiet_step (f i)) \<Longrightarrow> quiet_step (scan f is)"
proof (induction "is")
  case (Cons i "is")
  then have f: "quiet_step (f i)" "quiet_step (scan f is)" by simp_all
  show ?case
    unfolding quiet_step_def
  proof (intro allI impI)
    fix b b' assume b: "ob_ledger b = NoLedger" "scan f (i # is) b = Inr b'"
    then obtain b1 where b1: "f i b = Inr b1" "scan f is b1 = Inr b'" by (auto simp: bind_res_Inr_iff)
    have "priced_frame b b1" using f(1) b(1) b1(1) by (simp add: quiet_step_def)
    moreover from this have "ob_ledger b1 = NoLedger" using b(1) by (simp add: priced_frame_def)
    then have "priced_frame b1 b'" using f(2) b1(2) unfolding quiet_step_def by blast
    ultimately show "priced_frame b b'" by (rule frame_trans)
  qed
qed (simp add: quiet_step_def frame_refl)

lemma edge_quiet: "frame_cb cb \<Longrightarrow> quiet_step (edge_step cb kind ps nc i)"
  by (auto simp: quiet_step_def edge_step_def Let_def bind_res_Inr_iff frame_refl fill_frame split: if_splits option.splits)

lemma simulate_quiet:
  assumes "frame_cb cb"
  shows "quiet_step (simulate_bar cb op h l c i)"
proof -
  have f: "bind_res (fill cb b i px sl) (\<lambda>(_, b'). Inr b') = Inr b' \<Longrightarrow> ob_ledger b = NoLedger \<Longrightarrow> priced_frame b b'" for b b' px sl
    using fill_frame [OF assms] by (auto simp: bind_res_Inr_iff)
  have g: "bind_res (fill cb (put_ticket b i x) i px sl) (\<lambda>(_, b'). Inr b') = Inr b' \<Longrightarrow> ob_ledger b = NoLedger \<Longrightarrow> priced_frame b b'" for b b' x px sl
    using frame_trans [OF frame_upd(1) f] by (simp add: put_ticket_def)
  show ?thesis
    unfolding quiet_step_def
  proof (intro allI impI)
    fix b b' assume b: "ob_ledger b = NoLedger" "simulate_bar cb op h l c i b = Inr b'"
    show "priced_frame b b'"
      by (cases "tk_type (tk b i)")
         (use b in \<open>auto simp: simulate_bar_def Let_def frame_refl frame_upd intro: f g split: if_splits option.splits\<close>)
  qed
qed

lemma resting_quiet: "frame_cb cb \<Longrightarrow> quiet_step (resting_step cb k op h l c ex i)"
  using simulate_quiet [of cb op h l c i] by (auto simp: quiet_step_def resting_step_def Let_def frame_refl)

lemma check_quiet: "frame_cb cb \<Longrightarrow> quiet_step (\<lambda>b. check_resting cb b s op h l c ex)"
  using scan_quiet [OF resting_quiet] by (simp add: quiet_step_def check_resting_def)

lemma fill_edge_quiet: "frame_cb cb \<Longrightarrow> quiet_step (\<lambda>b. fill_at_session_edge cb b kind ps nc)"
  using scan_quiet [OF edge_quiet] by (simp add: quiet_step_def fill_at_session_edge_def)

end
