(* ===== verification/FastWalk.thy ===== *)
theory FastWalk
  imports FastProps Timeline DailyProps
begin

text \<open>
  The quiet-bar fast path leaves the state the walk over every bar leaves (\<open>fast_path_is_the_walk\<close>).  Bars
  it skips only move prices (\<open>quiet_step\<close> below), prices commute from symbol to symbol, and a visit is
  the step of its bar after prices have been rolled forward.
\<close>

section \<open>Prices move symbol by symbol\<close>

definition knows :: "sym \<Rightarrow> 'u algo \<Rightarrow> bool" where
  "knows s a \<longleftrightarrow> dget (securities (re_book a)) s \<noteq> None \<and> dget (prices (re_book a)) s \<noteq> None \<and> dget (al_quotes a) s \<noteq> None"

definition bar_quote :: "bar \<Rightarrow> sec_quote" where
  "bar_quote b = \<lparr>qu_open = b_open b, qu_high = b_high b, qu_low = b_low b, qu_close = b_close b, qu_volume = b_volume b\<rparr>"

definition quoted :: "sym \<Rightarrow> bar \<Rightarrow> 'u algo \<Rightarrow> 'u algo" where
  "quoted s b a =
     (case dget (securities (re_book a)) s of
        None \<Rightarrow> a
      | Some sec \<Rightarrow>
          (set_book (\<lambda>k. k\<lparr>securities := dput (securities k) s (sec\<lparr>sec_price := b_close b\<rparr>),
                           prices := dput (prices k) s (b_close b)\<rparr>) a)
            \<lparr>al_quotes := dput (al_quotes a) s (bar_quote b)\<rparr>)"

lemma quote_bar_known: "knows s a \<Longrightarrow> quote_bar s b a = Inr (quoted s b a)"
  by (auto simp: knows_def quote_bar_def quoted_def bar_quote_def)

lemma dput_again: "dput (dput d k v) k w = dput d k w"
  unfolding dput_def by (induction d) auto

lemma dput_comm:
  "k \<noteq> k' \<Longrightarrow> dget d k \<noteq> None \<Longrightarrow> dget d k' \<noteq> None \<Longrightarrow> dput (dput d k v) k' w = dput (dput d k' w) k v"
  unfolding dput_def dget_def
  by (induction d) (auto split: if_splits)

lemma quoted_knows [simp]: "knows s a \<Longrightarrow> knows s (quoted s' b a)"
  by (auto simp: knows_def quoted_def set_book_def dict_simps split: option.splits)

lemma quoted_fields [simp]:
  "tickets (re_book (quoted s b a)) = tickets (re_book a)" "open_ids (re_book (quoted s b a)) = open_ids (re_book a)"
  "ob_ledger (re_book (quoted s b a)) = ob_ledger (re_book a)" "ob_sleeve (re_book (quoted s b a)) = ob_sleeve (re_book a)"
  "al_regs (quoted s b a) = al_regs a" "al_cons (quoted s b a) = al_cons a" "al_inds (quoted s b a) = al_inds a"
  "al_quit (quoted s b a) = al_quit a" "al_invested (quoted s b a) = al_invested a"
  by (simp_all add: quoted_def set_book_def split: option.splits)

lemma quoted_again: "knows s a \<Longrightarrow> quoted s b (quoted s b' a) = quoted s b a"
  by (cases a) (auto simp: quoted_def set_book_def knows_def dict_simps dput_again split: option.splits)

lemma quoted_comm: "s \<noteq> s' \<Longrightarrow> knows s a \<Longrightarrow> knows s' a \<Longrightarrow> quoted s b (quoted s' b' a) = quoted s' b' (quoted s b a)"
  by (cases a) (auto simp: quoted_def set_book_def knows_def dict_simps dput_comm split: option.splits)

text \<open>The last bar of each symbol, in any order of symbols.\<close>

definition quote_to :: "(sym \<Rightarrow> bar) \<Rightarrow> sym list \<Rightarrow> 'u algo \<Rightarrow> 'u algo" where
  "quote_to f ss a = fold (\<lambda>s. quoted s (f s)) ss a"

lemma quote_to_simps [simp]:
  "quote_to f [] a = a" "quote_to f (s # ss) a = quote_to f ss (quoted s (f s) a)"
  by (simp_all add: quote_to_def)

lemma quote_to_append: "quote_to f (xs @ ys) a = quote_to f ys (quote_to f xs a)"
  by (simp add: quote_to_def)

lemma quote_to_knows [simp]: "knows s a \<Longrightarrow> knows s (quote_to f ss a)"
  by (induction ss arbitrary: a) simp_all

lemma quote_to_cong: "(\<And>s. s \<in> set ss \<Longrightarrow> f s = g s) \<Longrightarrow> quote_to f ss a = quote_to g ss a"
  by (induction ss arbitrary: a) simp_all

lemma quote_past:
  "s \<notin> set ss \<Longrightarrow> knows s a \<Longrightarrow> (\<And>x. x \<in> set ss \<Longrightarrow> knows x a) \<Longrightarrow>
    quoted s b (quote_to f ss a) = quote_to f ss (quoted s b a)"
  by (induction ss arbitrary: a) (auto simp: quoted_comm)

lemma quote_one_more:
  assumes "distinct S" "s \<in> set S" "\<And>x. x \<in> set S \<Longrightarrow> knows x a" "X \<subseteq> set S"
  shows "quoted s b (quote_to f (filter (\<lambda>x. x \<in> X) S) a) = quote_to (f(s := b)) (filter (\<lambda>x. x \<in> insert s X) S) a"
proof -
  obtain l r where S: "S = l @ s # r" using assms(2) by (meson split_list)
  then have notin: "s \<notin> set l" "s \<notin> set r" using assms(1) by auto
  have fl: "filter (\<lambda>x. x \<in> insert s X) S = filter (\<lambda>x. x \<in> X) l @ s # filter (\<lambda>x. x \<in> X) r"
  proof -
    have "filter (\<lambda>x. x \<in> insert s X) l = filter (\<lambda>x. x \<in> X) l" "filter (\<lambda>x. x \<in> insert s X) r = filter (\<lambda>x. x \<in> X) r"
      using notin by (intro filter_cong; auto)+
    then show ?thesis by (simp add: S)
  qed
  have same: "quote_to (f(s := b)) (filter (\<lambda>x. x \<in> X) l) c = quote_to f (filter (\<lambda>x. x \<in> X) l) c"
    "quote_to (f(s := b)) (filter (\<lambda>x. x \<in> X) r) c = quote_to f (filter (\<lambda>x. x \<in> X) r) c" for c :: "'a algo"
    using notin by (auto intro!: quote_to_cong)
  let ?a = "quote_to f (filter (\<lambda>x. x \<in> X) l) a"
  have k: "knows x ?a" if "x \<in> set S" for x using assms(3) that by simp
  have "quoted s b (quote_to f (filter (\<lambda>x. x \<in> X) S) a)
      = quoted s b (quote_to f (filter (\<lambda>x. x \<in> X) r) (if s \<in> X then quoted s (f s) ?a else ?a))"
    by (simp add: S quote_to_append)
  also have "\<dots> = quote_to f (filter (\<lambda>x. x \<in> X) r) (quoted s b (if s \<in> X then quoted s (f s) ?a else ?a))"
    by (rule quote_past) (use notin k in \<open>auto simp: S\<close>)
  also have "quoted s b (if s \<in> X then quoted s (f s) ?a else ?a) = quoted s b ?a"
    using k [of s] by (simp add: S quoted_again)
  finally show ?thesis unfolding fl by (simp add: quote_to_append same)
qed

text \<open>Any bars in any order come to the last bar of each symbol.\<close>

definition quote_all :: "(sym \<times> bar) list \<Rightarrow> 'u algo \<Rightarrow> 'u algo" where
  "quote_all ps a = fold (\<lambda>p. quoted (fst p) (snd p)) ps a"

lemma quote_all_knows [simp]: "knows s a \<Longrightarrow> knows s (quote_all ps a)"
  unfolding quote_all_def by (induction ps arbitrary: a) simp_all

fun last_bar :: "(sym \<times> bar) list \<Rightarrow> sym \<Rightarrow> bar" where
  "last_bar [] s = undefined"
| "last_bar (p # ps) s = (if s \<in> fst ` set ps then last_bar ps s else snd p)"

lemma last_bar_snoc:
  "s \<in> insert (fst p) (fst ` set ps) \<Longrightarrow> last_bar (ps @ [p]) s = (if s = fst p then snd p else last_bar ps s)"
  by (induction ps) auto

lemma quote_all_to:
  assumes "distinct S" "fst ` set ps \<subseteq> set S" "\<And>x. x \<in> set S \<Longrightarrow> knows x a"
  shows "quote_all ps a = quote_to (last_bar ps) (filter (\<lambda>x. x \<in> fst ` set ps) S) a"
  using assms(2)
proof (induction ps rule: rev_induct)
  case (snoc p ps)
  have "quote_all (ps @ [p]) a = quoted (fst p) (snd p) (quote_to (last_bar ps) (filter (\<lambda>x. x \<in> fst ` set ps) S) a)"
    using snoc by (simp add: quote_all_def)
  also have "\<dots> = quote_to ((last_bar ps)(fst p := snd p)) (filter (\<lambda>x. x \<in> insert (fst p) (fst ` set ps)) S) a"
    using snoc.prems assms by (intro quote_one_more) auto
  also have "\<dots> = quote_to (last_bar (ps @ [p])) (filter (\<lambda>x. x \<in> insert (fst p) (fst ` set ps)) S) a"
    by (rule quote_to_cong) (auto simp: last_bar_snoc)
  finally show ?case by simp
qed (simp add: quote_all_def)

section \<open>Orders that a bar leaves alone\<close>

definition deaf :: "bar \<Rightarrow> sym \<Rightarrow> ticket \<Rightarrow> bool" where
  "deaf y s x \<longleftrightarrow> \<not> is_open x \<or> tk_sym x \<noteq> s \<or>
     (let buy = (0 < tk_qty x) in
      case tk_type x of
        MARKET_ON_OPEN \<Rightarrow> True
      | MARKET_ON_CLOSE \<Rightarrow> True
      | LIMIT \<Rightarrow> limit_fill buy (b_open y) (b_high y) (b_low y) (tk_limit x) = None
      | STOP_MARKET \<Rightarrow> stop_fill buy (b_open y) (b_high y) (b_low y) (tk_stop x) = None
      | STOP_LIMIT \<Rightarrow> if tk_triggered x then limit_fill buy (b_open y) (b_high y) (b_low y) (tk_limit x) = None
          else \<not> stop_triggered buy (b_high y) (b_low y) (tk_stop x)
      | _ \<Rightarrow> False)"

lemma scan_noop: "(\<And>i. i \<in> set is \<Longrightarrow> f i b = Inr b) \<Longrightarrow> scan f is b = Inr b"
  by (induction "is") simp_all

lemma deaf_check:
  assumes "ob_ledger k = NoLedger" "upper s = s" "\<And>i. i \<in> set (open_ids k) \<Longrightarrow> deaf y s (tk k i)"
  shows "check_resting cb k s (b_open y) (b_high y) (b_low y) (b_close y) ex = Inr k"
  unfolding check_resting_def assms(2)
proof (rule scan_noop)
  fix i assume "i \<in> set (open_ids k)"
  then have d: "deaf y s (tk k i)" by (rule assms(3))
  show "resting_step cb s (b_open y) (b_high y) (b_low y) (b_close y) ex i k = Inr k"
    by (cases "tk_type (tk k i)")
       (use d in \<open>auto simp: deaf_def resting_step_def simulate_bar_def Let_def assms(1) split: if_splits\<close>)
qed

text \<open>The scan's predicates are the fill rules: a ticket without a candidate up to a bar is deaf to it.\<close>

lemma first_hit_misses:
  assumes "sorted_wrt (\<lambda>y z. b_start y < b_start z) ahead" "y \<in> set ahead"
    and "case first_hit sp p ahead of None \<Rightarrow> True | Some c \<Rightarrow> b_start y + sp < c"
  shows "\<not> p y"
proof
  assume py: "p y"
  then obtain z where z: "find p ahead = Some z" using assms(2) by (cases "find p ahead") (auto simp: find_None_iff)
  then obtain i where i: "i < length ahead" "z = ahead ! i" "\<And>j. j < i \<Longrightarrow> \<not> p (ahead ! j)" by (auto simp: find_Some_iff)
  obtain k where k: "k < length ahead" "y = ahead ! k" using assms(2) by (auto simp: in_set_conv_nth)
  have "i \<le> k" using i(3) [of k] py k(2) by (metis not_le)
  then have "b_start z \<le> b_start y"
    using assms(1) i k by (cases "i = k") (auto simp: sorted_wrt_iff_nth_less less_le)
  then show False using assms(3) z by (simp add: first_hit_def)
qed

lemma candidate_deaf:
  assumes "rising bars" "(s, b) \<in> set bars" "y \<in> set b" "last_t < b_start y + dget_or spans s 0"
    and c: "ticket_candidate spans bars last_t x = Inr c" "case c of None \<Rightarrow> True | Some c \<Rightarrow> b_start y + dget_or spans s 0 < c"
  shows "deaf y s x"
proof (cases "is_open x \<and> tk_sym x = s")
  case True
  let ?sp = "dget_or spans s 0"
  have b: "dget bars s = Some b" using assms(1,2) by (simp add: rising_def dget_def)
  have srt: "sorted_wrt (\<lambda>y z. b_start y < b_start z) b" using assms(1,2) by (force simp: rising_def list_all_iff)
  have srt': "sorted_wrt (\<lambda>y z. b_start y < b_start z) (later last_t ?sp b)"
    unfolding later_def using srt by (rule sorted_wrt_drop)
  have y: "y \<in> set (later last_t ?sp b)"
    using assms(3,4) unfolding later_dropWhile by (induction b) auto
  then have ne: "later last_t ?sp b \<noteq> []" by auto
  have "b_start (hd (later last_t ?sp b)) \<le> b_start y"
    using srt' y by (cases "later last_t ?sp b") auto
  then have first: "c \<noteq> Some (b_start (hd (later last_t ?sp b)) + ?sp)" using c(2) by auto
  have miss: "\<exists>v. price = Some v \<and> \<not> (if stop_leg = buy then v < b_high y else b_low y < v)"
    if r: "bind_res (acts stop_leg buy price) (\<lambda>p. Inr (first_hit ?sp p (later last_t ?sp b))) = Inr c" for stop_leg buy price
  proof -
    obtain v where v: "price = Some v" using r by (cases price) (simp_all add: acts_def)
    then have "first_hit ?sp (if stop_leg = buy then (\<lambda>b. v < b_high b) else (\<lambda>b. b_low b < v)) (later last_t ?sp b) = c"
      using r by (simp add: acts_def v)
    then have "\<not> (if stop_leg = buy then (\<lambda>b. v < b_high b) else (\<lambda>b. b_low b < v)) y"
      using first_hit_misses [OF srt' y] c(2) by blast
    then show ?thesis using v by (auto split: if_splits)
  qed
  have t: "(case tk_type x of
      MARKET_ON_OPEN \<Rightarrow> Inr None | MARKET_ON_CLOSE \<Rightarrow> Inr None
    | LIMIT \<Rightarrow> bind_res (acts False (0 < tk_qty x) (tk_limit x)) (\<lambda>p. Inr (first_hit ?sp p (later last_t ?sp b)))
    | STOP_MARKET \<Rightarrow> bind_res (acts True (0 < tk_qty x) (tk_stop x)) (\<lambda>p. Inr (first_hit ?sp p (later last_t ?sp b)))
    | STOP_LIMIT \<Rightarrow> if tk_triggered x then bind_res (acts False (0 < tk_qty x) (tk_limit x)) (\<lambda>p. Inr (first_hit ?sp p (later last_t ?sp b)))
        else bind_res (acts True (0 < tk_qty x) (tk_stop x)) (\<lambda>p. Inr (first_hit ?sp p (later last_t ?sp b)))
    | _ \<Rightarrow> Inr (Some (b_start (hd (later last_t ?sp b)) + ?sp))) = Inr c"
    using c(1) True ne by (cases "tk_type x") (simp_all add: ticket_candidate_def b Let_def)
  show ?thesis
    using t first by (cases "tk_type x") (auto simp: deaf_def Let_def fill_defs dest!: miss split: if_splits)
qed (auto simp: deaf_def)

section \<open>A bar that only moves prices\<close>

definition tame_algo :: "sym list \<Rightarrow> 'u algo \<Rightarrow> bool" where
  "tame_algo syms a \<longleftrightarrow> \<not> al_quit a \<and> ob_ledger (re_book a) = NoLedger \<and> (\<forall>s\<in>set syms. knows s a)
     \<and> (\<forall>x\<in>set (al_regs a). \<forall>y\<in>set (snd x). fst y = DAILY \<and> kind_of a (snd y) \<noteq> Paired)
     \<and> (\<forall>x\<in>set (al_cons a). snd x = [])"

definition plain_session :: "'u backtest \<Rightarrow> bool" where
  "plain_session e \<longleftrightarrow>
     barred e \<and> \<not> bt_warm e \<and> \<not> bt_daily_lean e \<and> \<not> bt_carried e \<and> bt_lean_edges e \<and> bt_sells_due e = [] \<and> bt_primed e = - 1
     \<and> (\<forall>s\<in>set (dkeys (bt_day_bars e)). upper s = s \<and> dget (bt_spans e) s \<noteq> None) \<and> (\<forall>x\<in>set (bt_day_events e). 0 \<le> fst x)"

lemma kind_of_frame: "al_inds a' = al_inds a \<Longrightarrow> kind_of a' = kind_of a"
  by (simp add: kind_of_def fun_eq_iff)

lemma quoted_tame: "tame_algo syms a \<Longrightarrow> tame_algo syms (quoted s b a)"
  by (simp add: tame_algo_def kind_of_frame [of "quoted s b a" a])

lemma feed_noop:
  assumes "tame_algo syms a"
  shows "feed_indicators (minute_sample s tb) s a = a"
proof -
  have "minute_sample s tb sz (kind_of a i) = None" if r: "(sz, i) \<in> set (dget_or (al_regs a) s [])" for sz i
  proof -
    have "(s, dget_or (al_regs a) s []) \<in> set (al_regs a)"
      using r by (cases "map_of (al_regs a) s") (auto simp: dget_or_def dest: map_of_SomeD)
    then obtain x where "x \<in> set (al_regs a)" "(sz, i) \<in> set (snd x)" using r by force
    then have "sz = DAILY" "kind_of a i \<noteq> Paired" using assms by (fastforce simp: tame_algo_def)+
    then show ?thesis by (cases "kind_of a i") (simp_all add: minute_sample_def)
  qed
  then have "foldl (\<lambda>a (sz, i). case minute_sample s tb sz (kind_of a i) of None \<Rightarrow> a | Some x \<Rightarrow> feed i x a) a xs = a"
    if "set xs \<subseteq> set (dget_or (al_regs a) s [])" for xs
    using that by (induction xs) auto
  then show ?thesis by (simp add: feed_indicators_def)
qed

lemma cons_noop:
  assumes "tame_algo syms a"
  shows "feed_consolidators hk s tb a = Inr a"
proof -
  have "dget_or (al_cons a) s [] = []"
    using assms by (auto simp: dget_or_def tame_algo_def split: option.splits dest!: map_of_SomeD)
  then show ?thesis by (simp add: feed_consolidators_def)
qed

text \<open>The bars of the entries.\<close>

definition bars_at :: "'u backtest \<Rightarrow> entries \<Rightarrow> (sym \<times> bar) list" where
  "bars_at e es = map (\<lambda>si. (fst si, (dget_or (bt_day_bars e) (fst si) []) ! snd si)) es"

definition has_entry :: "'u backtest \<Rightarrow> sym \<times> nat \<Rightarrow> bool" where
  "has_entry e si \<longleftrightarrow> (\<exists>b. dget (bt_day_bars e) (fst si) = Some b \<and> snd si < length b)"

lemma has_entry_bar: "has_entry e si \<Longrightarrow> bar_at e si = Inr (dget_or (bt_day_bars e) (fst si) [] ! snd si)"
  by (auto simp: has_entry_def bar_at_def dict_simps)

lemma bars_at_upd [simp]: "bars_at (e\<lparr>bt_algo := a\<rparr>) es = bars_at e es" "bars_at (e\<lparr>bt_slice := x\<rparr>) es = bars_at e es"
  by (simp_all add: bars_at_def)

lemma apply_known:
  assumes "has_entry e si" "dget (bt_spans e) (fst si) \<noteq> None" "\<not> bt_daily_lean e" "tame_algo syms (bt_algo e)" "fst si \<in> set syms"
  shows "\<exists>sl. apply_bar hk d t si e
    = Inr (e\<lparr>bt_algo := quoted (fst si) (dget_or (bt_day_bars e) (fst si) [] ! snd si) (bt_algo e), bt_slice := sl\<rparr>)"
proof -
  obtain sp where sp: "dget (bt_spans e) (fst si) = Some sp" using assms(2) by blast
  let ?b = "dget_or (bt_day_bars e) (fst si) [] ! snd si"
  have q: "quote_bar (fst si) ?b (bt_algo e) = Inr (quoted (fst si) ?b (bt_algo e))"
    using assms(4,5) by (intro quote_bar_known) (simp add: tame_algo_def)
  note tame = quoted_tame [OF assms(4), of "fst si" ?b]
  show ?thesis
    using assms(3)
    by (intro exI [of _ "dput (bt_slice e) (fst si) (trade_bar_of (fst si) d t sp ?b)"])
       (simp add: apply_bar_def has_entry_bar [OF assms(1)] span_at_def sp on_algo_def Let_def q
          feed_noop [OF tame] cons_noop [OF tame])
qed

lemma quote_all_simps [simp]:
  "quote_all [] a = a" "quote_all (p # ps) a = quote_all ps (quoted (fst p) (snd p) a)"
  "quote_all (ps @ qs) a = quote_all qs (quote_all ps a)"
  by (simp_all add: quote_all_def)

lemma quote_all_tame: "tame_algo syms a \<Longrightarrow> tame_algo syms (quote_all ps a)"
  by (induction ps arbitrary: a) (simp_all add: quoted_tame)

lemma quote_all_fields [simp]:
  "tickets (re_book (quote_all ps a)) = tickets (re_book a)" "open_ids (re_book (quote_all ps a)) = open_ids (re_book a)"
  "ob_ledger (re_book (quote_all ps a)) = ob_ledger (re_book a)" "ob_sleeve (re_book (quote_all ps a)) = ob_sleeve (re_book a)"
  "al_invested (quote_all ps a) = al_invested a" "al_quit (quote_all ps a) = al_quit a"
  by (induction ps arbitrary: a) simp_all

lemma apply_all_known:
  assumes "\<forall>si\<in>set es. has_entry e si \<and> dget (bt_spans e) (fst si) \<noteq> None \<and> fst si \<in> set syms"
    and "\<not> bt_daily_lean e" "tame_algo syms (bt_algo e)"
  shows "\<exists>sl. fold_res (apply_bar hk d t) es e = Inr (e\<lparr>bt_algo := quote_all (bars_at e es) (bt_algo e), bt_slice := sl\<rparr>)"
  using assms
proof (induction es arbitrary: e)
  case Nil
  show ?case by (rule exI [of _ "bt_slice e"]) (simp add: bars_at_def)
next
  case (Cons si es)
  obtain sl where sl: "apply_bar hk d t si e
      = Inr (e\<lparr>bt_algo := quoted (fst si) (dget_or (bt_day_bars e) (fst si) [] ! snd si) (bt_algo e), bt_slice := sl\<rparr>)" (is "_ = Inr ?e")
    using apply_known [of e si syms hk d t] Cons.prems by auto
  have "\<exists>sl. fold_res (apply_bar hk d t) es ?e = Inr (?e\<lparr>bt_algo := quote_all (bars_at ?e es) (bt_algo ?e), bt_slice := sl\<rparr>)"
    using Cons.prems by (intro Cons.IH) (auto simp: has_entry_def quoted_tame)
  then show ?case by (simp add: sl) (simp add: bars_at_def)
qed

text \<open>The orders the entries' bars leave alone.\<close>

definition deaf_to :: "'u backtest \<Rightarrow> entries \<Rightarrow> obook \<Rightarrow> bool" where
  "deaf_to e es k \<longleftrightarrow> (\<forall>p\<in>set (bars_at e es). \<forall>i\<in>set (open_ids k). deaf (snd p) (fst p) (tk k i))"

lemma checks_noop:
  assumes "\<forall>si\<in>set es. has_entry e si \<and> upper (fst si) = fst si" "ob_ledger (re_book (bt_algo e)) = NoLedger"
    and "deaf_to e es (re_book (bt_algo e))"
  shows "fold_res (check_bar hk ex) es e = Inr e"
  using assms
proof (induction es)
  case (Cons si es)
  let ?b = "dget_or (bt_day_bars e) (fst si) [] ! snd si"
  have "check_resting (hk_order hk) (re_book (bt_algo e)) (fst si) (b_open ?b) (b_high ?b) (b_low ?b) (b_close ?b) ex
      = Inr (re_book (bt_algo e))"
    using Cons.prems by (intro deaf_check) (auto simp: deaf_to_def bars_at_def)
  then have "check_bar hk ex si e = Inr e"
    using Cons.prems(1) by (cases e) (simp add: check_bar_def has_entry_bar on_algo_def book_algo_def)
  moreover have "fold_res (check_bar hk ex) es e = Inr e"
    using Cons by (auto simp: deaf_to_def bars_at_def)
  ultimately show ?case by simp
qed simp

definition marked :: "'u backtest \<Rightarrow> bool" where
  "marked e \<longleftrightarrow> mark_invested (bt_syms e) (bt_algo e) = bt_algo e"

lemma marked_iff: "marked e \<longleftrightarrow>
    foldl (\<lambda>d s. dput d s (pos (ob_sleeve (re_book (bt_algo e))) s \<noteq> 0)) (al_invested (bt_algo e)) (bt_syms e) = al_invested (bt_algo e)"
  unfolding marked_def mark_invested_def by (cases "bt_algo e") simp

text \<open>The whole step of such a bar.\<close>

definition passed :: "day \<Rightarrow> ms \<Rightarrow> entries \<Rightarrow> 'u backtest \<Rightarrow> 'u algo" where
  "passed d u es e = quote_all (bars_at e es) (set_ms d u (bt_algo e))"

lemma set_ms_tame: "tame_algo syms (set_ms d t a) = tame_algo syms a"
  by (simp add: tame_algo_def set_ms_def set_book_def knows_def kind_of_def)

lemma skip_bar:
  assumes plain: "plain_session e" and hk: "hk_on_data hk = None" and tame: "tame_algo (dkeys (bt_day_bars e)) (bt_algo e)"
    and first: "bt_first_done e" and mark: "marked e"
    and es: "\<forall>si\<in>set es. has_entry e si" and deaf: "deaf_to e es (re_book (bt_algo e))"
    and none: "due_at (bt_prev_t e) (- 1) u (bt_day_events e) = []"
  shows "\<exists>sl. step_bar hk d u es e
    = Inr (e\<lparr>bt_algo := (passed d u es e)\<lparr>al_slice := sl, al_market_open := True\<rparr>, bt_slice := sl, bt_prev_t := u\<rparr>)"
proof -
  let ?e0 = "upd_algo (set_ms d u) e"
  have p: "\<not> bt_warm e" "\<not> bt_daily_lean e" "bt_lean_edges e" "bt_sells_due e = []" "bt_primed e = - 1"
    and keys: "\<And>s. s \<in> set (dkeys (bt_day_bars e)) \<Longrightarrow> upper s = s \<and> dget (bt_spans e) s \<noteq> None"
    using plain by (auto simp: plain_session_def)
  have in_keys: "fst si \<in> set (dkeys (bt_day_bars e))" if "si \<in> set es" for si
    using es that by (force simp: has_entry_def dget_def dkeys_def dest: map_of_SomeD)
  have known: "\<forall>si\<in>set es. has_entry e si \<and> dget (bt_spans e) (fst si) \<noteq> None \<and> fst si \<in> set (dkeys (bt_day_bars e))"
    and ups: "\<forall>si\<in>set es. has_entry e si \<and> upper (fst si) = fst si"
    using es keys in_keys by blast+
  let ?e1 = "?e0\<lparr>bt_slice := []\<rparr>"
  have "\<forall>si\<in>set es. has_entry ?e1 si \<and> dget (bt_spans ?e1) (fst si) \<noteq> None \<and> fst si \<in> set (dkeys (bt_day_bars e))"
    using known by (simp add: has_entry_def upd_algo_def)
  from apply_all_known [OF this, of hk d u] tame p(2) obtain sl where
    sl: "fold_res (apply_bar hk d u) es ?e1 = Inr (?e1\<lparr>bt_algo := quote_all (bars_at ?e1 es) (bt_algo ?e1), bt_slice := sl\<rparr>)"
    by (auto simp: upd_algo_def set_ms_tame)
  have bars: "bars_at ?e1 es = bars_at e es" by (simp add: bars_at_def upd_algo_def)
  let ?X = "e\<lparr>bt_algo := passed d u es e, bt_slice := sl\<rparr>"
  have X: "fold_res (apply_bar hk d u) es ?e1 = Inr ?X"
    unfolding sl bars by (simp add: passed_def upd_algo_def)
  have book: "open_ids (re_book (passed d u es e)) = open_ids (re_book (bt_algo e))"
    "tickets (re_book (passed d u es e)) = tickets (re_book (bt_algo e))"
    "ob_ledger (re_book (passed d u es e)) = NoLedger" "\<not> al_quit (passed d u es e)"
    using tame by (simp_all add: passed_def set_ms_def set_book_def tame_algo_def)
  let ?Y = "e\<lparr>bt_algo := (passed d u es e)\<lparr>al_slice := sl, al_market_open := True\<rparr>, bt_slice := sl\<rparr>"
  have checks: "fold_res (check_bar hk ex) es ?X = Inr ?X" "fold_res (check_bar hk ex) es ?Y = Inr ?Y" for ex
    using ups deaf by (auto intro!: checks_noop simp: has_entry_def book deaf_to_def bars_at_def tk_def)
  have take_b: "take_bars hk d u es ?e0 = Inr ?Y"
    unfolding take_bars_def X bind_res_simps
    using p first by (simp add: when_do_def checks call_on_data_def hk Let_def upd_algo_def)
  have inv: "upd_algo (mark_invested (bt_syms e)) ?Y = ?Y"
  proof -
    have "marked ?Y" using mark by (simp add: marked_iff passed_def set_ms_def set_book_def)
    then show ?thesis by (simp add: marked_def upd_algo_def)
  qed
  have after_b: "after_bars hk d u es ?Y = Inr (?Y\<lparr>bt_prev_t := u\<rparr>)"
    using p first none inv by (simp add: after_bars_def when_do_def run_events_def checks Let_def)
  have "open_events hk d ?e0 = Inr (False, ?e0)" using p by (simp add: open_events_def upd_algo_def)
  then have "step_bar hk d u es e = Inr (?Y\<lparr>bt_prev_t := u\<rparr>)"
    using p after_b book(4) by (simp add: step_bar_def Let_def when_do_def upd_algo_def take_b [unfolded upd_algo_def] unless_quit_def)
  then show ?thesis by (intro exI [of _ sl]) simp
qed

section \<open>What only a handler of bars could see\<close>

definition hush_algo :: "'u algo \<Rightarrow> 'u algo" where
  "hush_algo a = a\<lparr>al_slice := [], al_market_open := False\<rparr>"

definition hush :: "'u backtest \<Rightarrow> 'u backtest" where
  "hush e = e\<lparr>bt_algo := hush_algo (bt_algo e), bt_slice := [], bt_prev_t := 0, bt_first_done := True\<rparr>"

lemma hush_algo_sel [simp]:
  "re_book (hush_algo a) = re_book a" "al_quit (hush_algo a) = al_quit a" "al_invested (hush_algo a) = al_invested a"
  "al_quotes (hush_algo a) = al_quotes a" "al_regs (hush_algo a) = al_regs a" "al_cons (hush_algo a) = al_cons a" "al_inds (hush_algo a) = al_inds a"
  "hush_algo (a\<lparr>re_book := b\<rparr>) = (hush_algo a)\<lparr>re_book := b\<rparr>" "hush_algo (a\<lparr>al_slice := sl, al_market_open := m\<rparr>) = hush_algo a"
  by (simp_all add: hush_algo_def)

lemma hush_algo_quoted: "hush_algo (quoted s b a) = quoted s b (hush_algo a)"
  by (cases a) (simp add: quoted_def hush_algo_def set_book_def split: option.splits)

lemma hush_algo_quotes: "hush_algo (quote_all ps a) = quote_all ps (hush_algo a)"
  by (induction ps arbitrary: a) (simp_all add: hush_algo_quoted)

lemma set_ms_quoted: "set_ms d t (quoted s b a) = quoted s b (set_ms d t a)"
  by (cases a) (simp add: quoted_def set_ms_def set_book_def split: option.splits)

lemma set_ms_quotes: "set_ms d t (quote_all ps a) = quote_all ps (set_ms d t a)"
  by (induction ps arbitrary: a) (simp_all add: set_ms_quoted)

lemma hush_algo_ms: "hush_algo (set_ms d t a) = set_ms d t (hush_algo a)" "set_ms d t (set_ms d u a) = set_ms d t a"
  by (cases a, simp add: set_ms_def set_book_def hush_algo_def)+

lemma hush_sel [simp]:
  "bt_algo (hush e) = hush_algo (bt_algo e)" "bt_day_bars (hush e) = bt_day_bars e" "bt_spans (hush e) = bt_spans e"
  "bt_syms (hush e) = bt_syms e" "bt_daily_lean (hush e) = bt_daily_lean e" "bt_carried (hush e) = bt_carried e"
  "hush (e\<lparr>bt_algo := a\<rparr>) = (hush e)\<lparr>bt_algo := hush_algo a\<rparr>" "hush (e\<lparr>bt_first_done := z\<rparr>) = hush e"
  "hush (e\<lparr>bt_slice := sl\<rparr>) = hush e" "hush (e\<lparr>bt_prev_t := v\<rparr>) = hush e" "hush (e\<lparr>bt_first_done := z, bt_prev_t := v\<rparr>) = hush e"
  by (cases e, simp add: hush_def)+

lemma hush_eqD:
  assumes "hush e = hush e'"
  shows "bt_day_bars e = bt_day_bars e'" "bt_spans e = bt_spans e'" "bt_syms e = bt_syms e'" "bt_daily_lean e = bt_daily_lean e'"
    "bt_carried e = bt_carried e'" "hush_algo (bt_algo e) = hush_algo (bt_algo e')" "re_book (bt_algo e) = re_book (bt_algo e')"
    "al_quit (bt_algo e) = al_quit (bt_algo e')"
  using assms by (metis hush_sel(1-6) hush_algo_sel(1,2))+

text \<open>Operations that neither see nor show the difference.\<close>

definition deafened :: "('u backtest \<Rightarrow> 'u backtest res) \<Rightarrow> bool" where
  "deafened f \<longleftrightarrow> (\<forall>e e' r. hush e = hush e' \<longrightarrow> f e = Inr r \<longrightarrow> (\<exists>r'. f e' = Inr r' \<and> hush r = hush r'))"

lemma deafenedD: "deafened f \<Longrightarrow> hush e = hush e' \<Longrightarrow> f e = Inr r \<Longrightarrow> \<exists>r'. f e' = Inr r' \<and> hush r = hush r'"
  by (simp add: deafened_def)

lemma deafened_fold: "(\<And>x. x \<in> set xs \<Longrightarrow> deafened (f x)) \<Longrightarrow> deafened (fold_res f xs)"
proof (induction xs)
  case (Cons x xs)
  show ?case
    unfolding deafened_def
  proof (intro allI impI)
    fix e e' r assume h: "hush e = hush e'" "fold_res f (x # xs) e = Inr r"
    then obtain e1 where e1: "f x e = Inr e1" "fold_res f xs e1 = Inr r" by (auto simp: bind_res_Inr_iff)
    obtain e1' where e1': "f x e' = Inr e1'" "hush e1 = hush e1'"
      using deafenedD [OF Cons.prems h(1) e1(1)] by auto
    have "deafened (fold_res f xs)" using Cons by simp
    from deafenedD [OF this e1'(2) e1(2)] show "\<exists>r'. fold_res f (x # xs) e' = Inr r' \<and> hush r = hush r'"
      using e1'(1) by simp
  qed
qed (simp add: deafened_def)

lemma deafened_algo:
  assumes "\<And>e e'. hush e = hush e' \<Longrightarrow> F e = F e'"
    and "\<And>e a a' r. hush_algo a = hush_algo a' \<Longrightarrow> F e a = Inr r \<Longrightarrow> \<exists>r'. F e a' = Inr r' \<and> hush_algo r = hush_algo r'"
  shows "deafened (\<lambda>e. on_algo (F e) e)"
  unfolding deafened_def
proof (intro allI impI)
  fix e e' r :: "'a backtest" assume h: "hush e = hush e'" and r: "on_algo (F e) e = Inr r"
  then obtain a where a: "F e (bt_algo e) = Inr a" "r = e\<lparr>bt_algo := a\<rparr>" by (auto simp: on_algo_def bind_res_Inr_iff)
  obtain a' where a': "F e (bt_algo e') = Inr a'" "hush_algo a = hush_algo a'"
    using assms(2) [OF hush_eqD(6) [OF h] a(1)] by blast
  then show "\<exists>r'. on_algo (F e') e' = Inr r' \<and> hush r = hush r'"
    using h by (simp add: on_algo_def a(2) assms(1) [OF h, symmetric])
qed

lemma book_deaf: "hush_algo a = hush_algo a' \<Longrightarrow> book_algo f a = Inr r \<Longrightarrow> \<exists>r'. book_algo f a' = Inr r' \<and> hush_algo r = hush_algo r'"
proof -
  assume h: "hush_algo a = hush_algo a'" and r: "book_algo f a = Inr r"
  have "re_book a = re_book a'" using h by (metis hush_algo_sel(1))
  then show ?thesis using h r by (auto simp: book_algo_def bind_res_Inr_iff)
qed

lemma check_deafened: "deafened (check_bar hk ex si)"
proof -
  let ?f = "\<lambda>b. book_algo (\<lambda>k. check_resting (hk_order hk) k (fst si) (b_open b) (b_high b) (b_low b) (b_close b) ex)"
  have d: "deafened (on_algo (?f b))" for b
    by (rule deafened_algo [of "\<lambda>_. ?f b"]) (auto dest: book_deaf)
  show ?thesis
    unfolding deafened_def
  proof (intro allI impI)
    fix e e' r :: "'a backtest" assume h: "hush e = hush e'" and r: "check_bar hk ex si e = Inr r"
    then obtain b where b: "bar_at e si = Inr b" "on_algo (?f b) e = Inr r" by (auto simp: check_bar_def bind_res_Inr_iff)
    moreover have "bar_at e' si = bar_at e si" using hush_eqD(1) [OF h] by (simp add: bar_at_def)
    ultimately show "\<exists>r'. check_bar hk ex si e' = Inr r' \<and> hush r = hush r'"
      using deafenedD [OF d h b(2)] by (simp add: check_bar_def)
  qed
qed

lemma open_deafened: "deafened (fill_market_on_open hk es)"
proof -
  let ?f = "\<lambda>opens. book_algo (\<lambda>b. fill_at_session_edge (hk_order hk) b MARKET_ON_OPEN opens None)"
  let ?g = "\<lambda>opens. book_algo (\<lambda>b. fill_at_session_edge (hk_order hk) b MARKET_ON_OPEN opens (Some (fst (clock b))))"
  have d: "deafened (on_algo (?f x))" "deafened (on_algo (?g x))" for x
    by (rule deafened_algo [of "\<lambda>_. ?f x"], auto dest: book_deaf) (rule deafened_algo [of "\<lambda>_. ?g x"], auto dest: book_deaf)
  show ?thesis
    unfolding deafened_def
  proof (intro allI impI)
    fix e e' r :: "'a backtest" assume h: "hush e = hush e'" and r: "fill_market_on_open hk es e = Inr r"
    have s: "session_opens es e' = session_opens es e"
      using hush_eqD(1) [OF h] by (simp add: session_opens_def bar_at_def)
    show "\<exists>r'. fill_market_on_open hk es e' = Inr r' \<and> hush r = hush r'"
      using r deafenedD [OF d(1) h] deafenedD [OF d(2) h] hush_eqD(4) [OF h]
      by (cases "bt_daily_lean e") (auto simp: fill_market_on_open_def bind_res_Inr_iff s)
  qed
qed

text \<open>A handler that does not look at the slice nor at whether the market is open.\<close>

definition slice_blind :: "('u algo \<Rightarrow> 'u algo res) \<Rightarrow> bool" where
  "slice_blind f \<longleftrightarrow> (\<forall>a a' r. hush_algo a = hush_algo a' \<longrightarrow> f a = Inr r \<longrightarrow> (\<exists>r'. f a' = Inr r' \<and> hush_algo r = hush_algo r'))"

lemma events_deafened:
  assumes "\<And>n. slice_blind (hk_event hk n)"
  shows "deafened (run_events hk evs)"
  unfolding run_events_def
proof (rule deafened_fold)
  fix ev show "deafened (on_algo (hk_event hk (se_cb ev)))"
    using assms [of "se_cb ev"] unfolding slice_blind_def by (intro deafened_algo [of "\<lambda>_. hk_event hk (se_cb ev)"]) blast+
qed

section \<open>The strategies the fast path is for\<close>

definition tame :: "'u hooks \<Rightarrow> sym list \<Rightarrow> bool" where
  "tame hk syms \<longleftrightarrow>
     hk_on_data hk = None \<and> frame_cb (hk_order hk) \<and> (\<forall>n. slice_blind (hk_event hk n))
     \<and> (\<forall>n a a'. tame_algo syms a \<longrightarrow> hk_event hk n a = Inr a' \<longrightarrow> tame_algo syms a')"

definition book_moved :: "'u backtest \<Rightarrow> 'u backtest \<Rightarrow> bool" where
  "book_moved e e' \<longleftrightarrow> (\<exists>b. e' = e\<lparr>bt_algo := (bt_algo e)\<lparr>re_book := b\<rparr>\<rparr>
     \<and> (ob_ledger (re_book (bt_algo e)) = NoLedger \<longrightarrow> priced_frame (re_book (bt_algo e)) b))"

lemma moved_refl: "book_moved e e"
  by (rule book_moved_def [THEN iffD2], rule exI [of _ "re_book (bt_algo e)"]) (simp add: frame_refl)

lemma moved_trans: "book_moved a b \<Longrightarrow> book_moved b c \<Longrightarrow> book_moved a c"
  by (auto simp: book_moved_def priced_frame_def)

lemma moved_preorder: "step_preorder book_moved"
  by unfold_locales (rule moved_refl, erule (1) moved_trans)

lemmas moved_fold = step_preorder.fold_R [OF moved_preorder]
lemmas moved_when = step_preorder.when_R [OF moved_preorder]

lemma on_book_moved: "quiet_step f \<Longrightarrow> on_algo (book_algo f) e = Inr e' \<Longrightarrow> book_moved e e'"
  by (auto simp: on_algo_def book_algo_def bind_res_Inr_iff book_moved_def quiet_step_def)

lemma check_moved: "frame_cb (hk_order hk) \<Longrightarrow> check_bar hk ex si e = Inr e' \<Longrightarrow> book_moved e e'"
  by (auto simp: check_bar_def bind_res_Inr_iff dest: on_book_moved [OF check_quiet])

lemma checks_moved: "frame_cb (hk_order hk) \<Longrightarrow> fold_res (check_bar hk ex) es e = Inr e' \<Longrightarrow> book_moved e e'"
  by (erule moved_fold) (rule check_moved)

lemma open_moved: "frame_cb (hk_order hk) \<Longrightarrow> fill_market_on_open hk es e = Inr e' \<Longrightarrow> book_moved e e'"
proof -
  assume cb: "frame_cb (hk_order hk)" and r: "fill_market_on_open hk es e = Inr e'"
  have "quiet_step (\<lambda>b. fill_at_session_edge (hk_order hk) b MARKET_ON_OPEN opens (if l then Some (fst (clock b)) else None))" for opens l
    using fill_edge_quiet [OF cb] by (auto simp: quiet_step_def)
  note moved = on_book_moved [OF this]
  show ?thesis using r by (auto simp: fill_market_on_open_def bind_res_Inr_iff dest: moved)
qed

lemma moved_tame: "book_moved e e' \<Longrightarrow> tame_algo syms (bt_algo e) \<Longrightarrow> tame_algo syms (bt_algo e')"
proof -
  assume m: "book_moved e e'" and t: "tame_algo syms (bt_algo e)"
  obtain b where b: "bt_algo e' = (bt_algo e)\<lparr>re_book := b\<rparr>"
    "ob_ledger (re_book (bt_algo e)) = NoLedger \<longrightarrow> priced_frame (re_book (bt_algo e)) b"
    using m by (auto simp: book_moved_def)
  have "kind_of (bt_algo e') = kind_of (bt_algo e)" by (rule kind_of_frame) (simp add: b)
  then show "tame_algo syms (bt_algo e')"
    using t b(2) unfolding tame_algo_def knows_def priced_frame_def by (simp add: b(1))
qed

lemma run_events_tame:
  assumes "tame hk syms"
  shows "tame_algo syms (bt_algo e) \<Longrightarrow> run_events hk evs e = Inr e' \<Longrightarrow> tame_algo syms (bt_algo e')"
  unfolding run_events_def
proof (induction evs arbitrary: e)
  case (Cons ev evs)
  then obtain e1 where e1: "on_algo (hk_event hk (se_cb ev)) e = Inr e1" "fold_res (\<lambda>ev. on_algo (hk_event hk (se_cb ev))) evs e1 = Inr e'"
    by (auto simp: bind_res_Inr_iff)
  have "tame_algo syms (bt_algo e1)"
    using e1(1) Cons.prems(1) assms by (auto simp: on_algo_def bind_res_Inr_iff tame_def)
  then show ?case using Cons.IH e1(2) by blast
qed simp

lemma mark_tame: "tame_algo syms (mark_invested ss a) = tame_algo syms a"
  by (simp add: mark_invested_def tame_algo_def knows_def kind_of_def)

lemma dput_same: "dget d k = Some v \<Longrightarrow> dput d k v = d"
  unfolding dget_def dput_def by (induction d) (auto split: if_splits)

lemma put_values:
  "dget (foldl (\<lambda>d s. dput d s (f s)) d ss) k = (if k \<in> set ss then Some (f k) else dget d k)"
  by (induction ss arbitrary: d) (auto simp: dict_simps)

lemma mark_again: "mark_invested ss (mark_invested ss a) = mark_invested ss a"
proof -
  have "foldl (\<lambda>d s. dput d s (f s)) d xs = d" if "\<And>s. s \<in> set xs \<Longrightarrow> dget d s = Some (f s)" for d xs and f :: "sym \<Rightarrow> bool"
    using that by (induction xs) (auto simp: dput_same)
  then show ?thesis by (simp add: mark_invested_def put_values)
qed

lemma mark_hush: "hush_algo (mark_invested ss a) = mark_invested ss (hush_algo a)"
  by (cases a) (simp add: mark_invested_def hush_algo_def)

section \<open>A visit is the step of its bar\<close>

lemma bind_assoc: "bind_res (bind_res r f) g = bind_res r (\<lambda>x. bind_res (f x) g)"
  by (cases r) simp_all

text \<open>The step of a bar after its prices.\<close>

definition rest_of_step :: "'u hooks \<Rightarrow> day \<Rightarrow> ms \<Rightarrow> entries \<Rightarrow> 'u backtest \<Rightarrow> 'u backtest res" where
  "rest_of_step hk d t es x =
     bind_res (when_do (\<not> bt_first_done x) (fill_market_on_open hk es) x) (\<lambda>e2.
     bind_res (fold_res (check_bar hk (if t \<le> - 1 then Some (d, t) else None)) es e2) (\<lambda>e3.
     bind_res (call_on_data hk e3) (unless_quit (after_bars hk d t es))))"

lemma step_bar_rest:
  assumes "plain_session e" "fold_res (apply_bar hk d t) es ((upd_algo (set_ms d t) e)\<lparr>bt_slice := []\<rparr>)
    = Inr (e\<lparr>bt_algo := a, bt_slice := sl\<rparr>)" "frame_cb (hk_order hk)"
  shows "step_bar hk d t es e = rest_of_step hk d t es (e\<lparr>bt_algo := a, bt_slice := sl\<rparr>)"
proof -
  have p: "\<not> bt_warm e" "\<not> bt_daily_lean e" "\<not> bt_carried e" "bt_lean_edges e" "bt_sells_due e = []" "bt_primed e = - 1"
    using assms(1) by (auto simp: plain_session_def)
  let ?X = "e\<lparr>bt_algo := a, bt_slice := sl\<rparr>"
  have o: "open_events hk d (upd_algo (set_ms d t) e) = Inr (False, upd_algo (set_ms d t) e)"
    using p by (simp add: open_events_def upd_algo_def)
  have take: "take_bars hk d t es (upd_algo (set_ms d t) e)
      = bind_res (when_do (\<not> bt_first_done ?X) (fill_market_on_open hk es) ?X) (\<lambda>e2.
        bind_res (fold_res (check_bar hk (if t \<le> - 1 then Some (d, t) else None)) es e2) (call_on_data hk))"
  proof (cases "when_do (\<not> bt_first_done ?X) (fill_market_on_open hk es) ?X")
    case (Inr e2)
    have "book_moved ?X e2" using Inr by (rule moved_when) (rule open_moved [OF assms(3)])
    then have e2: "\<not> bt_carried e2" "bt_primed e2 = - 1" "\<not> bt_daily_lean e2" using p by (auto simp: book_moved_def)
    have e3: "\<not> bt_daily_lean e3" if "fold_res (check_bar hk ex) es e2 = Inr e3" for ex e3
      using checks_moved [OF assms(3) that] e2(3) by (auto simp: book_moved_def)
    have "take_bars hk d t es (upd_algo (set_ms d t) e)
        = bind_res (fold_res (check_bar hk (if t \<le> - 1 then Some (d, t) else None)) es e2) (\<lambda>e3.
            bind_res (when_do (bt_daily_lean e3 \<and> \<not> bt_carried e3) (fill_edge hk MARKET_ON_CLOSE) e3) (call_on_data hk))"
      using Inr p e2 by (simp add: take_bars_def assms(2) when_do_def)
    then show ?thesis
      unfolding Inr bind_res_simps
      using e3 by (cases "fold_res (check_bar hk (if t \<le> - 1 then Some (d, t) else None)) es e2") (simp_all add: when_do_def)
  qed (use p in \<open>simp add: take_bars_def assms(2) when_do_def\<close>)
  show ?thesis
    using p o by (simp add: step_bar_def Let_def when_do_def upd_algo_def [of _ e] take [unfolded upd_algo_def [of _ e]]
        rest_of_step_def bind_assoc)
qed

definition tail_of_visit :: "'u hooks \<Rightarrow> day \<Rightarrow> ms \<Rightarrow> sched_event list \<Rightarrow> entries \<Rightarrow> 'u backtest \<Rightarrow> 'u backtest res" where
  "tail_of_visit hk d t evs es y =
     bind_res (visit_open hk es y) (\<lambda>e2.
     bind_res (when_do (\<not> bt_carried e2) (fold_res (check_bar hk None) es) e2) (\<lambda>e3.
     bind_res (run_events hk evs e3) (\<lambda>e4.
     bind_res (when_do (\<not> bt_carried e4) (fold_res (check_bar hk (Some (d, t))) es) e4) (\<lambda>e5.
     visit_late_open hk (upd_algo (mark_invested (bt_syms e5)) e5)))))"

lemma visit_tail:
  "visit hk d t evs (ap, e) = bind_res (fold_res (roll_symbol t) (bt_day_bars e) (ap, upd_algo (set_ms d t) e)) (\<lambda>(ap', y).
    bind_res (tail_of_visit hk d t evs (ending_at t y) y) (\<lambda>e'. Inr (ap', e')))"
  by (simp add: visit_def tail_of_visit_def Let_def bind_assoc)

definition edge_state :: "'u backtest \<Rightarrow> bool" where
  "edge_state e \<longleftrightarrow> \<not> bt_warm e \<and> \<not> bt_carried e \<and> bt_lean_edges e \<and> bt_primed e = - 1"

lemma edge_fixed_part: "fixed_part e e' \<Longrightarrow> edge_state e' = edge_state e"
  by (simp add: edge_state_def fixed_fields)

lemma hush_upd: "hush (upd_algo f e) = (hush e)\<lparr>bt_algo := hush_algo (f (bt_algo e))\<rparr>"
  by (cases e) (simp add: upd_algo_def hush_def)

lemma mark_hushed:
  assumes "hush e = hush e'"
  shows "hush (upd_algo (mark_invested ss) e) = hush (upd_algo (mark_invested ss) e')"
  by (simp only: hush_upd mark_hush hush_eqD(6) [OF assms] assms)

lemma moved_fixed: "book_moved e e' \<Longrightarrow> fixed_part e e'"
  by (auto simp: book_moved_def fixed_part_def)

lemma events_first: "run_events hk evs e = Inr e' \<Longrightarrow> bt_first_done e' = bt_first_done e"
  unfolding run_events_def
proof (induction evs arbitrary: e)
  case (Cons ev evs)
  then obtain e1 where e1: "on_algo (hk_event hk (se_cb ev)) e = Inr e1" "fold_res (\<lambda>ev. on_algo (hk_event hk (se_cb ev))) evs e1 = Inr e'"
    by (auto simp: bind_res_Inr_iff)
  have "bt_first_done e1 = bt_first_done e" using e1(1) by (auto simp: on_algo_def bind_res_Inr_iff)
  then show ?case using Cons.IH [OF e1(2)] by simp
qed simp

lemma visit_is_step:
  assumes hk: "tame hk syms" and t: "- 1 < t" and h: "hush y = hush x" and first: "bt_first_done x = bt_first_done y"
    and edge: "edge_state x" "edge_state y" and tame_y: "tame_algo syms (bt_algo y)"
    and evs: "evs = due_at (bt_prev_t x) (- 1) t (bt_day_events x)"
    and v: "tail_of_visit hk d t evs es y = Inr y'"
  shows "\<exists>x'. rest_of_step hk d t es x = Inr x' \<and> hush y' = hush x' \<and> bt_first_done x' \<and> bt_prev_t x' = t"
    and "tame_algo syms (bt_algo y')" and "marked y'" and "bt_first_done y'"
proof -
  have cb: "frame_cb (hk_order hk)" and noop: "hk_on_data hk = None" and blind: "\<And>n. slice_blind (hk_event hk n)"
    using hk by (simp_all add: tame_def)
  obtain y2 y3 y4 y5 where s: "visit_open hk es y = Inr y2" "when_do (\<not> bt_carried y2) (fold_res (check_bar hk None) es) y2 = Inr y3"
    "run_events hk evs y3 = Inr y4" "when_do (\<not> bt_carried y4) (fold_res (check_bar hk (Some (d, t))) es) y4 = Inr y5"
    "visit_late_open hk (upd_algo (mark_invested (bt_syms y5)) y5) = Inr y'"
    using v by (auto simp: tail_of_visit_def bind_res_Inr_iff)
  \<comment> \<open>The opening auction.\<close>
  let ?y = "if bt_first_done y then y else y\<lparr>bt_first_done := True\<rparr>"
  have y2: "when_do (\<not> bt_first_done y) (fill_market_on_open hk es) ?y = Inr y2"
    using s(1) edge(2) by (auto simp: visit_open_def edge_state_def when_do_def split: if_splits)
  have m2: "book_moved ?y y2" using y2 by (rule moved_when) (rule open_moved [OF cb])
  have "hush ?y = hush x" using h by simp
  then obtain x2 where x2: "when_do (\<not> bt_first_done x) (fill_market_on_open hk es) x = Inr x2" "hush y2 = hush x2"
    using y2 first deafenedD [OF open_deafened, of ?y x hk es y2] by (cases "bt_first_done y") (auto simp: when_do_def)
  have mx2: "book_moved x x2" using x2(1) by (rule moved_when) (rule open_moved [OF cb])
  have f2: "fixed_part y y2" using m2 first_fixed fixed_trans moved_fixed by (metis (full_types))
  have t2: "tame_algo syms (bt_algo y2)" using moved_tame [OF m2] tame_y by simp
  have e2: "edge_state y2" "edge_state x2" using edge_fixed_part [OF f2] edge_fixed_part [OF moved_fixed [OF mx2]] edge by simp_all
  \<comment> \<open>The first look at resting orders.\<close>
  have y3: "fold_res (check_bar hk None) es y2 = Inr y3" using s(2) e2(1) by (simp add: edge_state_def when_do_def)
  then obtain x3 where x3: "fold_res (check_bar hk None) es x2 = Inr x3" "hush y3 = hush x3"
    using deafenedD [OF deafened_fold [of es "check_bar hk None"] x2(2) y3] check_deafened by blast
  note m3 = checks_moved [OF cb y3] and mx3 = checks_moved [OF cb x3(1)]
  have t3: "tame_algo syms (bt_algo y3)" using moved_tame [OF m3 t2] .
  \<comment> \<open>The handlers.\<close>
  let ?x = "upd_algo (\<lambda>a. a\<lparr>al_slice := bt_slice x3, al_market_open := True\<rparr>) x3"
  have data: "call_on_data hk x3 = Inr ?x" by (simp add: call_on_data_def noop)
  have hx: "hush y3 = hush ?x" using x3(2) by (simp add: upd_algo_def)
  have mxx: "book_moved x x3" using moved_trans [OF mx2 mx3] .
  then have fx3: "fixed_part x ?x" using fixed_trans [OF moved_fixed upd_fixed] by blast
  have quit: "\<not> al_quit (bt_algo ?x)" using hush_eqD(8) [OF hx] t3 by (simp add: tame_algo_def)
  have evs': "evs = due_at (bt_prev_t ?x) (bt_primed ?x) t (bt_day_events ?x)"
    using fixed_fields [OF fx3] edge(1) by (simp add: evs edge_state_def)
  obtain x4 where x4: "run_events hk evs ?x = Inr x4" "hush y4 = hush x4"
    using deafenedD [OF events_deafened [OF blind] hx s(3)] by blast
  have t4: "tame_algo syms (bt_algo y4)" using run_events_tame [OF hk t3 s(3)] .
  have fx4: "fixed_part x x4" using fixed_trans [OF fx3 events_fixed [OF x4(1)]] .
  have fy4: "fixed_part y y4" using fixed_trans [OF fixed_trans [OF f2 moved_fixed [OF m3]] events_fixed [OF s(3)]] .
  have e4: "edge_state y4" "edge_state x4" using edge_fixed_part [OF fy4] edge_fixed_part [OF fx4] edge by simp_all
  \<comment> \<open>The second look, and the positions.\<close>
  have y5: "fold_res (check_bar hk (Some (d, t))) es y4 = Inr y5" using s(4) e4(1) by (simp add: edge_state_def when_do_def)
  then obtain x5 where x5: "fold_res (check_bar hk (Some (d, t))) es x4 = Inr x5" "hush y5 = hush x5"
    using deafenedD [OF deafened_fold [of es "check_bar hk (Some (d, t))"] x4(2) y5] check_deafened by blast
  note m5 = checks_moved [OF cb y5]
  have fx5: "fixed_part x x5" using fixed_trans [OF fx4 checks_fixed [OF x5(1)]] .
  have fy5: "fixed_part y y5" using fixed_trans [OF fy4 checks_fixed [OF y5]] .
  have e5: "edge_state y5" "edge_state x5" using edge_fixed_part [OF fy5] edge_fixed_part [OF fx5] edge by simp_all
  have y': "y' = upd_algo (mark_invested (bt_syms y5)) y5"
    using s(5) e5(1) by (simp add: visit_late_open_def edge_state_def upd_algo_def)
  let ?x' = "(upd_algo (mark_invested (bt_syms x5)) x5)\<lparr>bt_first_done := True, bt_prev_t := t\<rparr>"
  have after_b: "after_bars hk d t es ?x = Inr ?x'"
  proof -
    have ev: "run_events hk (due_at (bt_prev_t z) (bt_primed z) t (bt_day_events z)) z = Inr x4" if "z = ?x" for z
      using x4(1) evs' that by simp
    have "after_bars hk d t es z = Inr ?x'" if z: "z = ?x" for z
      using e4(2) e5(2) fixed_fields(6) [OF fx3] edge(1) x5(1)
      by (simp add: after_bars_def when_do_def ev [OF z] Let_def edge_state_def) (simp add: z upd_algo_def)
    then show ?thesis by simp
  qed
  have "rest_of_step hk d t es x = Inr ?x'"
    using t x2(1) x3(1) data quit after_b by (simp add: rest_of_step_def unless_quit_def)
  moreover have "hush y' = hush ?x'"
    using mark_hushed [OF x5(2)] hush_eqD(3) [OF x5(2)] by (simp add: y')
  ultimately show "\<exists>x'. rest_of_step hk d t es x = Inr x' \<and> hush y' = hush x' \<and> bt_first_done x' \<and> bt_prev_t x' = t"
    by (intro exI [of _ ?x']) simp
  show "tame_algo syms (bt_algo y')"
    using moved_tame [OF m5 t4] by (simp add: y' upd_algo_def mark_tame)
  show "marked y'" by (simp add: marked_def y' upd_algo_def mark_again)
  have "bt_first_done y2" using m2 by (auto simp: book_moved_def)
  moreover have "bt_first_done y4 = bt_first_done y3"
    using s(3) by (rule events_first)
  ultimately show "bt_first_done y'" using m3 m5 by (auto simp: y' book_moved_def upd_algo_def)
qed

section \<open>A session on the fast path\<close>

lemma demo_barred: "barred demo_open"
  by (simp add: barred_def rising_def merged_ends_def ends_of_def demo_open_def demo_minute_bar_def dget_or_def upt_rec)

theorem fast_path_returns_witness: "fast_day (recording quiet) 738000 demo_open \<noteq> None"
  by (rule fast_path_returns [OF demo_barred])

end
