(* ===== verification/FastRun.thy ===== *)
theory FastRun
  imports FastWalk
begin

text \<open>
  The session of the fast path against the walk: what lies between two visits is skipped bars, prices are
  rolled to each symbol's last bar, and the events of the visit are the ones the walk runs there.
\<close>

section \<open>A symbol's last bar that has ended\<close>

abbreviation in_order :: "day_bars \<Rightarrow> bool" where
  "in_order b \<equiv> sorted_wrt (\<lambda>y z. b_start y < b_start z) b"

lemma last_index_bar:
  assumes "0 \<le> last_index t sp b"
  shows "nat (last_index t sp b) < length b \<and> b_start (b ! nat (last_index t sp b)) + sp \<le> t"
proof -
  let ?n = "length (takeWhile (\<lambda>x. b_start x + sp \<le> t) b)"
  have n: "nat (last_index t sp b) = ?n - 1" "0 < ?n" using assms by (auto simp: last_index_def)
  then have "?n - 1 < ?n" by simp
  then have "b_start (b ! (?n - 1)) + sp \<le> t" by (metis nth_mem set_takeWhileD takeWhile_nth)
  moreover have "?n - 1 < length b" using n(2) length_takeWhile_le [of _ b] by (meson diff_less less_le_trans zero_less_one)
  ultimately show ?thesis by (simp add: n)
qed

lemma in_order_le: "in_order b \<Longrightarrow> i \<le> j \<Longrightarrow> j < length b \<Longrightarrow> b_start (b ! i) \<le> b_start (b ! j)"
  by (cases "i = j") (auto simp: sorted_wrt_iff_nth_less less_le)

lemma last_index_max:
  assumes "in_order b" "y \<in> set b" "b_start y + sp \<le> t"
  shows "0 \<le> last_index t sp b \<and> b_start y \<le> b_start (b ! nat (last_index t sp b))"
proof -
  let ?n = "length (takeWhile (\<lambda>x. b_start x + sp \<le> t) b)"
  obtain i where i: "i < length b" "b ! i = y" using assms(2) by (auto simp: in_set_conv_nth)
  have "i < ?n"
  proof (rule ccontr)
    assume "\<not> i < ?n"
    then have le: "?n \<le> i" by simp
    then have "\<not> b_start (b ! ?n) + sp \<le> t" using i(1) by (intro nth_length_takeWhile) simp
    then show False using in_order_le [OF assms(1) le i(1)] i(2) assms(3) by simp
  qed
  then have "0 \<le> last_index t sp b" "i \<le> nat (last_index t sp b)" by (auto simp: last_index_def)
  then show ?thesis using in_order_le [OF assms(1)] last_index_bar i(2) by blast
qed

lemma last_index_moves:
  assumes "in_order b" "T \<le> t"
  shows "last_index T sp b < last_index t sp b \<longleftrightarrow> (\<exists>y\<in>set b. T < b_start y + sp \<and> b_start y + sp \<le> t)"
proof
  assume less: "last_index T sp b < last_index t sp b"
  have ge: "- 1 \<le> last_index T sp b" by (simp add: last_index_def)
  let ?y = "b ! nat (last_index t sp b)"
  have y: "nat (last_index t sp b) < length b" "b_start ?y + sp \<le> t" using last_index_bar [of t sp b] less ge by simp_all
  have "T < b_start ?y + sp"
  proof (rule ccontr)
    assume "\<not> T < b_start ?y + sp"
    then have m: "0 \<le> last_index T sp b" "b_start ?y \<le> b_start (b ! nat (last_index T sp b))"
      using last_index_max [OF assms(1), of ?y sp T] y(1) by simp_all
    have "nat (last_index T sp b) < nat (last_index t sp b)" using less m(1) by simp
    then show False using m(2) assms(1) y(1) by (metis not_le sorted_wrt_iff_nth_less)
  qed
  then show "\<exists>y\<in>set b. T < b_start y + sp \<and> b_start y + sp \<le> t" using y by (meson nth_mem)
next
  assume "\<exists>y\<in>set b. T < b_start y + sp \<and> b_start y + sp \<le> t"
  then obtain y where y: "y \<in> set b" "T < b_start y + sp" "b_start y + sp \<le> t" by blast
  note m = last_index_max [OF assms(1) y(1,3)]
  show "last_index T sp b < last_index t sp b"
  proof (rule ccontr)
    assume "\<not> last_index T sp b < last_index t sp b"
    then have le: "last_index t sp b \<le> last_index T sp b" by simp
    then have T: "nat (last_index T sp b) < length b" "b_start (b ! nat (last_index T sp b)) + sp \<le> T"
      using last_index_bar [of T sp b] m by simp_all
    have "b_start (b ! nat (last_index t sp b)) \<le> b_start (b ! nat (last_index T sp b))"
      using le by (intro in_order_le [OF assms(1) _ T(1)]) simp
    then show False using T(2) m y(2) by simp
  qed
qed

lemma last_bar_latest:
  assumes "sorted_wrt (\<lambda>p q. fst p = fst q \<longrightarrow> b_start (snd p) \<le> b_start (snd q)) ps" "(s, y) \<in> set ps"
  shows "(s, last_bar ps s) \<in> set ps \<and> b_start y \<le> b_start (last_bar ps s)"
  using assms
proof (induction ps arbitrary: y)
  case (Cons p ps)
  show ?case
  proof (cases "s \<in> fst ` set ps")
    case True
    then obtain z where z: "(s, z) \<in> set ps" by force
    have IH: "\<And>z. (s, z) \<in> set ps \<Longrightarrow> (s, last_bar ps s) \<in> set ps \<and> b_start z \<le> b_start (last_bar ps s)"
      using Cons.IH Cons.prems(1) by simp
    have "b_start y \<le> b_start (last_bar ps s)"
    proof (cases "(s, y) \<in> set ps")
      case False
      then have p: "p = (s, y)" using Cons.prems(2) by simp
      have "(s, last_bar ps s) \<in> set ps" using IH [OF z] ..
      then show ?thesis using Cons.prems(1) by (auto simp: p)
    qed (use IH in blast)
    then show ?thesis using True IH [OF z] by simp
  next
    case False
    have "p = (s, y)" using Cons.prems(2) False by force
    then show ?thesis using False by simp
  qed
qed simp


section \<open>The bars between two visits\<close>

definition between :: "'u backtest \<Rightarrow> ms \<Rightarrow> ms \<Rightarrow> (ms \<times> entries) list" where
  "between e T t = filter (\<lambda>x. T < fst x \<and> fst x \<le> t) (timeline (ends_of e))"

definition bars_seen :: "'u backtest \<Rightarrow> (ms \<times> entries) list \<Rightarrow> (sym \<times> bar) list" where
  "bars_seen e us = concat (map (\<lambda>x. bars_at e (snd x)) us)"

lemma ends_of_iff:
  "(t, (s, i)) \<in> set (ends_of e) \<longleftrightarrow>
    (\<exists>b. (s, b) \<in> set (bt_day_bars e) \<and> i < length b \<and> t = b_start (b ! i) + dget_or (bt_spans e) s 0)"
proof -
  have "(t, (s, i)) \<in> set (ends_of e) \<longleftrightarrow>
    (\<exists>x\<in>set (bt_day_bars e). (t, (s, i)) \<in> set (map (\<lambda>i. (b_start (snd x ! i) + dget_or (bt_spans e) (fst x) 0, (fst x, i))) [0..<length (snd x)]))"
    by (simp add: ends_of_def case_prod_unfold)
  also have "\<dots> \<longleftrightarrow> (\<exists>b. (s, b) \<in> set (bt_day_bars e) \<and> i < length b \<and> t = b_start (b ! i) + dget_or (bt_spans e) s 0)"
    by (auto simp: image_iff) (metis fst_conv snd_conv)
  finally show ?thesis .
qed

lemma entry_time:
  assumes "(t, es) \<in> set (timeline (ends_of e))" "(s, i) \<in> set es" "rising (bt_day_bars e)"
  shows "\<exists>b. dget (bt_day_bars e) s = Some b \<and> i < length b \<and> t = b_start (b ! i) + dget_or (bt_spans e) s 0"
proof -
  have "(t, (s, i)) \<in> set (ends_of e)" using assms(1,2) by (rule timeline_entries)
  then obtain b where "(s, b) \<in> set (bt_day_bars e)" "i < length b" "t = b_start (b ! i) + dget_or (bt_spans e) s 0"
    by (auto simp: ends_of_iff)
  then show ?thesis using assms(3) by (auto simp: rising_def dget_def)
qed

lemma bars_seen_iff:
  assumes "rising (bt_day_bars e)"
  shows "(s, y) \<in> set (bars_seen e (between e T t)) \<longleftrightarrow>
    (\<exists>b. dget (bt_day_bars e) s = Some b \<and> y \<in> set b
      \<and> T < b_start y + dget_or (bt_spans e) s 0 \<and> b_start y + dget_or (bt_spans e) s 0 \<le> t)"
    (is "?l \<longleftrightarrow> ?r")
proof
  assume ?l
  then obtain u es i where u: "(u, es) \<in> set (timeline (ends_of e))" "T < u" "u \<le> t" "(s, i) \<in> set es"
    "y = dget_or (bt_day_bars e) s [] ! i"
    by (auto simp: bars_seen_def between_def bars_at_def)
  then show ?r using entry_time [OF u(1,4) assms] by (auto simp: dict_simps)
next
  assume ?r
  then obtain b i where b: "dget (bt_day_bars e) s = Some b" "i < length b" "y = b ! i"
    "T < b_start y + dget_or (bt_spans e) s 0" "b_start y + dget_or (bt_spans e) s 0 \<le> t"
    by (auto simp: in_set_conv_nth)
  have "(b_start y + dget_or (bt_spans e) s 0, (s, i)) \<in> set (ends_of e)"
    using b by (auto simp: ends_of_iff dget_def dest: map_of_SomeD)
  then obtain es where es: "(b_start y + dget_or (bt_spans e) s 0, es) \<in> set (timeline (ends_of e))" "(s, i) \<in> set es"
    using timeline_has by blast
  have "(s, y) \<in> set (bars_at e es)"
    unfolding bars_at_def set_map by (rule image_eqI [OF _ es(2)]) (simp add: b dict_simps)
  then show ?l using es(1) b(4,5) by (force simp: bars_seen_def between_def)
qed

lemma bars_seen_in_order:
  assumes "rising (bt_day_bars e)"
  shows "sorted_wrt (\<lambda>p q. fst p = fst q \<longrightarrow> b_start (snd p) \<le> b_start (snd q)) (bars_seen e (between e T t))"
proof -
  let ?R = "\<lambda>p q :: sym \<times> bar. fst p = fst q \<longrightarrow> b_start (snd p) \<le> b_start (snd q)"
  have time: "u = b_start (snd p) + dget_or (bt_spans e) (fst p) 0"
    if r: "(u, es) \<in> set (timeline (ends_of e))" "p \<in> set (bars_at e es)" for u es p
  proof -
    obtain s i where i: "(s, i) \<in> set es" "p = (s, dget_or (bt_day_bars e) s [] ! i)"
      using r(2) by (auto simp: bars_at_def)
    show ?thesis using entry_time [OF r(1) i(1) assms] by (auto simp: i(2) dict_simps)
  qed
  have "sorted_wrt ?R (bars_seen e us)"
    if "sorted_wrt (<) (map fst us)" "set us \<subseteq> set (timeline (ends_of e))" for us
    using that
  proof (induction us)
    case (Cons x us)
    obtain u es where x: "x = (u, es)" by (cases x)
    have "?R p q" if "p \<in> set (bars_at e es)" "q \<in> set (bars_at e es)" for p q
      using time [of u es p] time [of u es q] that Cons.prems(2) x by auto
    then have "sorted_wrt ?R (bars_at e es)" by (intro sorted_wrt_mono_rel [OF _ sorted_wrt_true]) blast
    moreover have "?R p q" if r: "p \<in> set (bars_at e es)" "q \<in> set (bars_seen e us)" for p q
    proof -
      obtain v fs where v: "(v, fs) \<in> set us" "q \<in> set (bars_at e fs)" using r(2) by (auto simp: bars_seen_def)
      have "u < v" using Cons.prems(1) v(1) by (force simp: x)
      then show ?thesis using time [of u es p] time [of v fs q] Cons.prems(2) r(1) v by (auto simp: x)
    qed
    ultimately show ?case using Cons by (auto simp: bars_seen_def sorted_wrt_append x)
  qed (simp add: bars_seen_def)
  moreover have "sorted_wrt (<) (map fst (between e T t))"
    unfolding between_def using timeline_sorted [of "ends_of e"]
    by (simp add: sorted_wrt_map sorted_wrt_filter)
  ultimately show ?thesis by (simp add: between_def)
qed

lemma last_seen:
  assumes "rising (bt_day_bars e)" "dget (bt_day_bars e) s = Some b" "T \<le> t"
    and sp: "sp = dget_or (bt_spans e) s 0"
  shows "s \<in> fst ` set (bars_seen e (between e T t)) \<longleftrightarrow> last_index T sp b < last_index t sp b"
    and "s \<in> fst ` set (bars_seen e (between e T t)) \<Longrightarrow> last_bar (bars_seen e (between e T t)) s = b ! nat (last_index t sp b)"
proof -
  let ?ps = "bars_seen e (between e T t)"
  have b: "in_order b" using assms(1,2) by (fastforce simp: rising_def list_all_iff dget_def dest: map_of_SomeD)
  have mem: "(s, y) \<in> set ?ps \<longleftrightarrow> y \<in> set b \<and> T < b_start y + sp \<and> b_start y + sp \<le> t" for y
    using assms(2) by (simp add: bars_seen_iff [OF assms(1)] sp)
  then show moved: "s \<in> fst ` set ?ps \<longleftrightarrow> last_index T sp b < last_index t sp b"
    unfolding last_index_moves [OF b assms(3)] by force
  assume "s \<in> fst ` set ?ps"
  then obtain z where z: "(s, z) \<in> set ?ps" by force
  let ?y = "b ! nat (last_index t sp b)"
  have li: "- 1 \<le> last_index T sp b" "last_index T sp b < last_index t sp b"
    using moved z by (force simp: last_index_def)+
  have y: "?y \<in> set b" "b_start ?y + sp \<le> t" using last_index_bar [of t sp b] li by simp_all
  have "b_start z \<le> b_start ?y" using last_index_max [OF b, of z sp t] z mem by simp
  then have "(s, ?y) \<in> set ?ps" using mem z y by simp
  note l = last_bar_latest [OF bars_seen_in_order [OF assms(1)] this]
  then have "last_bar ?ps s \<in> set b" "b_start (last_bar ?ps s) + sp \<le> t" using mem by blast+
  then have "b_start (last_bar ?ps s) = b_start ?y" using last_index_max [OF b] l by force
  then show "last_bar ?ps s = ?y"
    using b \<open>last_bar ?ps s \<in> set b\<close> y(1) by (auto simp: in_set_conv_nth sorted_wrt_iff_nth_less) (metis less_irrefl linorder_neqE_nat)
qed

section \<open>Prices rolled forward\<close>

definition reached :: "'u backtest \<Rightarrow> ms \<Rightarrow> sym \<Rightarrow> int" where
  "reached e t s = last_index t (dget_or (bt_spans e) s 0) (dget_or (bt_day_bars e) s [])"

definition latest_bar :: "'u backtest \<Rightarrow> ms \<Rightarrow> sym \<Rightarrow> bar" where
  "latest_bar e t s = dget_or (bt_day_bars e) s [] ! nat (reached e t s)"

lemma latest_bar_upd [simp]:
  "latest_bar (e\<lparr>bt_algo := a\<rparr>) = latest_bar e" "reached (e\<lparr>bt_algo := a\<rparr>) = reached e"
  by (simp_all add: latest_bar_def reached_def fun_eq_iff)

lemma applied_put: "dget_or (dput ap s v) s' z = (if s = s' then v else dget_or ap s' z)"
  by (simp add: dict_simps)

lemma roll_all:
  assumes "\<forall>x\<in>set Bs. dget (bt_day_bars e) (fst x) = Some (snd x) \<and> knows (fst x) (bt_algo e)" "distinct (map fst Bs)"
  shows "\<exists>ap'. fold_res (roll_symbol t) Bs (ap, e)
      = Inr (ap', e\<lparr>bt_algo := quote_to (latest_bar e t) (filter (\<lambda>s. dget_or ap s (- 1) < reached e t s) (map fst Bs)) (bt_algo e)\<rparr>)
    \<and> (\<forall>s. dget_or ap' s (- 1) = (if s \<in> fst ` set Bs \<and> dget_or ap s (- 1) < reached e t s then reached e t s else dget_or ap s (- 1)))"
  using assms
proof (induction Bs arbitrary: ap e)
  case (Cons x Bs)
  obtain s b where x: "x = (s, b)" by (cases x)
  have i: "last_index t (dget_or (bt_spans e) s 0) b = reached e t s" and y: "b ! nat (reached e t s) = latest_bar e t s"
    using Cons.prems(1) by (simp_all add: x reached_def latest_bar_def dict_simps)
  have notin: "s \<notin> set (map fst Bs)" using Cons.prems(2) by (simp add: x)
  show ?case
  proof (cases "dget_or ap s (- 1) < reached e t s")
    case True
    let ?e1 = "e\<lparr>bt_algo := quoted s (latest_bar e t s) (bt_algo e)\<rparr>" and ?ap1 = "dput ap s (reached e t s)"
    have one: "roll_symbol t x (ap, e) = Inr (?ap1, ?e1)"
      using True Cons.prems(1) by (simp add: roll_symbol_def x Let_def i y on_algo_def quote_bar_known)
    have "\<forall>x\<in>set Bs. dget (bt_day_bars ?e1) (fst x) = Some (snd x) \<and> knows (fst x) (bt_algo ?e1)" "distinct (map fst Bs)"
      using Cons.prems by simp_all
    from Cons.IH [OF this, of ?ap1] obtain ap' where ap': "fold_res (roll_symbol t) Bs (?ap1, ?e1)
        = Inr (ap', e\<lparr>bt_algo := quote_to (latest_bar e t) (filter (\<lambda>s. dget_or ?ap1 s (- 1) < reached e t s) (map fst Bs)) (quoted s (latest_bar e t s) (bt_algo e))\<rparr>)"
      "\<forall>s. dget_or ap' s (- 1) = (if s \<in> fst ` set Bs \<and> dget_or ?ap1 s (- 1) < reached e t s then reached e t s else dget_or ?ap1 s (- 1))"
      by auto
    have "filter (\<lambda>s. dget_or ?ap1 s (- 1) < reached e t s) (map fst Bs) = filter (\<lambda>s. dget_or ap s (- 1) < reached e t s) (map fst Bs)"
      using notin by (intro filter_cong) (auto simp: applied_put)
    then show ?thesis
      using ap' True notin by (intro exI [of _ ap']) (auto simp: one [unfolded x] x applied_put)
  next
    case False
    have one: "roll_symbol t x (ap, e) = Inr (ap, e)"
      using False by (simp add: roll_symbol_def x Let_def i)
    have "\<forall>x\<in>set Bs. dget (bt_day_bars e) (fst x) = Some (snd x) \<and> knows (fst x) (bt_algo e)" "distinct (map fst Bs)"
      using Cons.prems by simp_all
    from Cons.IH [OF this, of ap] show ?thesis using False notin by (auto simp: one [unfolded x] x)
  qed
qed simp

section \<open>The entries of a visit\<close>

lemma filter_upt_one: "filter (\<lambda>j. j = i) [0..<n] = (if i < n then [i] else [])"
  by (induction n) auto

lemma symbol_ending:
  assumes "in_order b"
  shows "map snd (filter (\<lambda>x. fst x = t) (map (\<lambda>i. (b_start (b ! i) + sp, (s, i))) [0..<length b]))
    = (let i = last_index t sp b in if 0 \<le> i \<and> b_start (b ! nat i) + sp = t then [(s, nat i)] else [])"
proof -
  let ?i = "last_index t sp b"
  have inj: "i = j" if "i < length b" "j < length b" "b_start (b ! i) = b_start (b ! j)" for i j
    using that assms by (metis linorder_neqE_nat less_irrefl sorted_wrt_iff_nth_less)
  have l: "map snd (filter (\<lambda>x. fst x = t) (map (\<lambda>i. (b_start (b ! i) + sp, (s, i))) [0..<length b]))
      = map (Pair s) (filter (\<lambda>i. b_start (b ! i) + sp = t) [0..<length b])"
    by (simp add: filter_map o_def)
  show ?thesis
  proof (cases "\<exists>i<length b. b_start (b ! i) + sp = t")
    case True
    then obtain i where i: "i < length b" "b_start (b ! i) + sp = t" by blast
    note m = last_index_max [OF assms, of "b ! i" sp t]
    have li: "0 \<le> ?i" "b_start (b ! i) \<le> b_start (b ! nat ?i)" using m i by simp_all
    note r = last_index_bar [OF li(1)]
    have "b_start (b ! nat ?i) = b_start (b ! i)" using r li i(2) by simp
    then have "nat ?i = i" using inj r i(1) by blast
    moreover have "filter (\<lambda>j. b_start (b ! j) + sp = t) [0..<length b] = filter (\<lambda>j. j = i) [0..<length b]"
      using inj i by (intro filter_cong) auto
    ultimately show ?thesis unfolding l using i li(1) by (simp add: filter_upt_one Let_def)
  next
    case False
    then have "filter (\<lambda>i. b_start (b ! i) + sp = t) [0..<length b] = []" by (auto simp: filter_empty_conv)
    moreover have "\<not> (0 \<le> ?i \<and> b_start (b ! nat ?i) + sp = t)" using False last_index_bar [of t sp b] by auto
    ultimately show ?thesis unfolding l by (auto simp: Let_def)
  qed
qed

lemma ending_entries:
  assumes "rising (bt_day_bars e)" "(t, es) \<in> set (timeline (ends_of e))"
  shows "ending_at t e = es"
proof -
  have one: "map snd (filter (\<lambda>x. fst x = t) (map (\<lambda>i. (b_start (b ! i) + dget_or (bt_spans e) s 0, (s, i))) [0..<length b]))
      = (let sp = dget_or (bt_spans e) s 0; i = last_index t sp b in if 0 \<le> i \<and> b_start (b ! nat i) + sp = t then [(s, nat i)] else [])"
    if "(s, b) \<in> set (bt_day_bars e)" for s b
    using symbol_ending [of b t "dget_or (bt_spans e) s 0" s] assms(1) that by (force simp: rising_def list_all_iff Let_def)
  have "es = map snd (filter (\<lambda>x. fst x = t) (ends_of e))" using assms(2) by (auto simp: timeline_def)
  also have "\<dots> = concat (map (\<lambda>(s, b). map snd (filter (\<lambda>x. fst x = t)
      (map (\<lambda>i. (b_start (b ! i) + dget_or (bt_spans e) s 0, (s, i))) [0..<length b]))) (bt_day_bars e))"
    by (simp add: ends_of_def filter_concat map_concat o_def case_prod_unfold)
  also have "\<dots> = ending_at t e"
    unfolding ending_at_def using one by (intro arg_cong [of _ _ concat] map_cong) auto
  finally show ?thesis ..
qed

section \<open>A run of skipped bars\<close>

lemma bars_seen_simps [simp]: "bars_seen e [] = []" "bars_seen e (x # us) = bars_at e (snd x) @ bars_seen e us" "bars_seen e (us @ vs) = bars_seen e us @ bars_seen e vs"
  by (simp_all add: bars_seen_def)

lemma bars_seen_upd [simp]: "bars_seen (e\<lparr>bt_algo := a, bt_slice := sl, bt_prev_t := v\<rparr>) us = bars_seen e us"
  by (simp add: bars_seen_def bars_at_def)

lemma plain_upd [simp]: "plain_session (e\<lparr>bt_algo := a, bt_slice := sl, bt_prev_t := v\<rparr>) = plain_session e"
  by (simp add: plain_session_def barred_def merged_ends_def ends_of_def)

lemma tame_slice [simp]: "tame_algo syms (a\<lparr>al_slice := sl, al_market_open := m\<rparr>) = tame_algo syms a"
  by (simp add: tame_algo_def knows_def kind_of_def)

lemma passed_tame: "tame_algo syms (passed d u es e) = tame_algo syms (quote_all (bars_at e es) (set_ms d u (bt_algo e)))"
  by (simp add: passed_def)

lemma last_index_mono: "T \<le> t \<Longrightarrow> last_index T sp b \<le> last_index t sp b"
  unfolding last_index_def by (induction b) auto

lemma none_due: "(\<And>x. x \<in> set evs \<Longrightarrow> p < fst x \<Longrightarrow> \<not> fst x \<le> u) \<Longrightarrow> due_at p (- 1) u evs = []"
  by (auto simp: due_at_def filter_empty_conv)

lemma skip_bars:
  assumes "plain_session e" "hk_on_data hk = None" "tame_algo (dkeys (bt_day_bars e)) (bt_algo e)" "bt_first_done e" "marked e"
    and "\<forall>x\<in>set us. (\<forall>si\<in>set (snd x). has_entry e si) \<and> deaf_to e (snd x) (re_book (bt_algo e)) \<and> bt_prev_t e < fst x \<and> fst x < t"
    and "sorted_wrt (<) (map fst us)" and "\<forall>x\<in>set (bt_day_events e). \<forall>y\<in>set us. bt_prev_t e < fst x \<longrightarrow> fst y < fst x" "bt_prev_t e < t"
  shows "\<exists>a sl v. walk hk d us e = Inr (e\<lparr>bt_algo := a, bt_slice := sl, bt_prev_t := v\<rparr>)
    \<and> (\<forall>r. hush_algo (set_ms d r a) = hush_algo (set_ms d r (quote_all (bars_seen e us) (bt_algo e))))
    \<and> tame_algo (dkeys (bt_day_bars e)) a \<and> (\<forall>x\<in>set (bt_day_events e). bt_prev_t e < fst x \<longleftrightarrow> v < fst x)"
  using assms
proof (induction us arbitrary: e)
  case Nil
  show ?case
    by (rule exI [of _ "bt_algo e"], rule exI [of _ "bt_slice e"], rule exI [of _ "bt_prev_t e"]) (use Nil.prems in \<open>cases e, simp\<close>)
next
  case (Cons x us)
  obtain u es where x: "x = (u, es)" by (cases x)
  have "due_at (bt_prev_t e) (- 1) u (bt_day_events e) = []"
    by (rule none_due) (use Cons.prems(6,8) x in force)
  then obtain sl where step: "step_bar hk d u es e
      = Inr (e\<lparr>bt_algo := (passed d u es e)\<lparr>al_slice := sl, al_market_open := True\<rparr>, bt_slice := sl, bt_prev_t := u\<rparr>)"
    using skip_bar [OF Cons.prems(1-5), of es u d] Cons.prems(6) x by auto
  let ?e1 = "e\<lparr>bt_algo := (passed d u es e)\<lparr>al_slice := sl, al_market_open := True\<rparr>, bt_slice := sl, bt_prev_t := u\<rparr>"
  have t1: "tame_algo (dkeys (bt_day_bars e)) (passed d u es e)"
    using Cons.prems(3) by (simp add: passed_tame quote_all_tame set_ms_tame)
  have book: "open_ids (re_book (passed d u es e)) = open_ids (re_book (bt_algo e))"
    "tickets (re_book (passed d u es e)) = tickets (re_book (bt_algo e))"
    by (simp_all add: passed_def set_ms_def set_book_def)
  have "marked ?e1" using Cons.prems(5) by (simp add: marked_iff passed_def set_ms_def set_book_def)
  moreover have "\<forall>y\<in>set us. (\<forall>si\<in>set (snd y). has_entry ?e1 si) \<and> deaf_to ?e1 (snd y) (re_book (bt_algo ?e1)) \<and> bt_prev_t ?e1 < fst y \<and> fst y < t"
    using Cons.prems(6,7) by (auto simp: has_entry_def deaf_to_def bars_at_def tk_def book x)
  ultimately have "\<exists>a sl' v. walk hk d us ?e1 = Inr (?e1\<lparr>bt_algo := a, bt_slice := sl', bt_prev_t := v\<rparr>)
    \<and> (\<forall>r. hush_algo (set_ms d r a) = hush_algo (set_ms d r (quote_all (bars_seen ?e1 us) (bt_algo ?e1))))
    \<and> tame_algo (dkeys (bt_day_bars ?e1)) a \<and> (\<forall>y\<in>set (bt_day_events ?e1). bt_prev_t ?e1 < fst y \<longleftrightarrow> v < fst y)"
    using Cons.prems t1 by (intro Cons.IH) (auto simp: x)
  then obtain a sl' v where a: "walk hk d us ?e1 = Inr (e\<lparr>bt_algo := a, bt_slice := sl', bt_prev_t := v\<rparr>)"
    "\<And>r. hush_algo (set_ms d r a) = hush_algo (set_ms d r (quote_all (bars_seen e us) ((passed d u es e)\<lparr>al_slice := sl, al_market_open := True\<rparr>)))"
    "tame_algo (dkeys (bt_day_bars e)) a" "\<forall>y\<in>set (bt_day_events e). u < fst y \<longleftrightarrow> v < fst y"
    by auto
  have "walk hk d (x # us) e = Inr (e\<lparr>bt_algo := a, bt_slice := sl', bt_prev_t := v\<rparr>)"
    using a(1) t1 by (simp add: x step unless_quit_def tame_algo_def)
  moreover have "hush_algo (set_ms d r a) = hush_algo (set_ms d r (quote_all (bars_seen e (x # us)) (bt_algo e)))" for r
    unfolding a(2) by (simp add: x set_ms_quotes hush_algo_quotes hush_algo_ms passed_def)
  moreover have "\<forall>y\<in>set (bt_day_events e). bt_prev_t e < fst y \<longleftrightarrow> v < fst y"
    using a(4) Cons.prems(6,8) by (force simp: x)
  ultimately show ?case using a(3) by (intro exI [of _ a] exI [of _ sl'] exI [of _ v]) blast
qed

section \<open>What a visit finds\<close>

lemma find_first:
  "sorted xs \<Longrightarrow> find P xs = Some t \<longleftrightarrow> t \<in> set xs \<and> P t \<and> (\<forall>u\<in>set xs. P u \<longrightarrow> t \<le> u)" for t :: int
  by (induction xs) force+

lemma fire_is_due:
  assumes "sorted merged" "t \<in> set merged" "T < t" "\<forall>x\<in>set evs. 0 \<le> fst x" "T = - 1 \<or> T \<in> set merged"
    and here: "\<And>x u. x \<in> set evs \<Longrightarrow> T < fst x \<Longrightarrow> fst x \<le> t \<Longrightarrow> u \<in> set merged \<Longrightarrow> fst x \<le> u \<Longrightarrow> t \<le> u"
  shows "fire_at merged evs t = due_at T (- 1) t evs"
  unfolding fire_at_def due_at_def find_first [OF assms(1)]
proof (intro arg_cong [of _ _ "map snd"] filter_cong refl)
  fix x assume x: "x \<in> set evs"
  show "(t \<in> set merged \<and> fst x \<le> t \<and> (\<forall>u\<in>set merged. fst x \<le> u \<longrightarrow> t \<le> u)) = (T < fst x \<and> fst x \<le> t \<and> - 1 < fst x)"
    using here [OF x] assms(2-5) x by fastforce
qed

lemma candidate_of:
  assumes "next_candidate_ms k spans bars T = Inr cand" "i \<in> set (open_ids k)"
  shows "\<exists>c. ticket_candidate spans bars T (tk k i) = Inr c \<and> (case c of None \<Rightarrow> True | Some c \<Rightarrow> \<exists>m. cand = Some m \<and> m \<le> c)"
proof -
  let ?f = "\<lambda>i best. bind_res (ticket_candidate spans bars T (tk k i)) (\<lambda>c. Inr (min_opt c best))"
  have min: "min_opt c best = Some m \<longrightarrow> (\<forall>b. c = Some b \<or> best = Some b \<longrightarrow> m \<le> b)"
    "min_opt c best = None \<longrightarrow> c = None \<and> best = None" for c best :: "ms option" and m
    by (cases c; cases best; auto)+
  have "(\<forall>b. best = Some b \<longrightarrow> (\<exists>m. cand = Some m \<and> m \<le> b))
      \<and> (\<forall>i\<in>set is. \<exists>c. ticket_candidate spans bars T (tk k i) = Inr c \<and> (case c of None \<Rightarrow> True | Some c \<Rightarrow> \<exists>m. cand = Some m \<and> m \<le> c))"
    if "fold_res ?f is best = Inr cand" for "is" best
    using that
  proof (induction "is" arbitrary: best)
    case (Cons i "is")
    then obtain c where c: "ticket_candidate spans bars T (tk k i) = Inr c" "fold_res ?f is (min_opt c best) = Inr cand"
      by (auto simp: bind_res_Inr_iff)
    note IH = Cons.IH [OF c(2)]
    have le: "\<exists>m. cand = Some m \<and> m \<le> b" if r: "c = Some b \<or> best = Some b" for b
    proof -
      obtain m where m: "min_opt c best = Some m" "m \<le> b" using min [of c best] r by (cases "min_opt c best") auto
      then show ?thesis using IH by fastforce
    qed
    then show ?case using IH c(1) by (auto split: option.splits)
  qed simp
  then show ?thesis using assms by (auto simp: next_candidate_ms_def)
qed

lemma visit_deaf:
  assumes "next_visit forced T y = Inr (Some t)" "\<not> bt_carried y" "rising (bt_day_bars y)"
    and "(u, es) \<in> set (timeline (ends_of y))" "T < u" "u < t"
  shows "deaf_to y es (re_book (bt_algo y))"
  unfolding deaf_to_def
proof (intro ballI)
  fix p i assume p: "p \<in> set (bars_at y es)" and i: "i \<in> set (open_ids (re_book (bt_algo y)))"
  obtain cand where cand: "next_candidate_ms (re_book (bt_algo y)) (bt_spans y) (bt_day_bars y) T = Inr cand"
    and t: "min_opt (case forced of [] \<Rightarrow> None | t # _ \<Rightarrow> Some t) cand = Some t"
    using assms(1,2) by (auto simp: next_visit_def bind_res_Inr_iff book_of_def)
  have m: "t \<le> m" if "cand = Some m" for m using t that by (cases forced) (auto split: if_splits)
  obtain c where c: "ticket_candidate (bt_spans y) (bt_day_bars y) T (tk (re_book (bt_algo y)) i) = Inr c"
    "case c of None \<Rightarrow> True | Some c \<Rightarrow> \<exists>m. cand = Some m \<and> m \<le> c"
    using candidate_of [OF cand i] by blast
  obtain s n where n: "(s, n) \<in> set es" "p = (s, dget_or (bt_day_bars y) s [] ! n)" using p by (auto simp: bars_at_def)
  obtain b where b: "dget (bt_day_bars y) s = Some b" "n < length b" "u = b_start (b ! n) + dget_or (bt_spans y) s 0"
    using entry_time [OF assms(4) n(1) assms(3)] by blast
  have "case c of None \<Rightarrow> True | Some c \<Rightarrow> b_start (b ! n) + dget_or (bt_spans y) s 0 < c"
    using c(2) m assms(6) b(3) by (cases c) fastforce+
  then have "deaf (b ! n) s (tk (re_book (bt_algo y)) i)"
    using candidate_deaf [OF assms(3) _ _ _ c(1), of s b "b ! n"] b assms(5) by (auto simp: dget_def dest: map_of_SomeD)
  then show "deaf (snd p) (fst p) (tk (re_book (bt_algo y)) i)" using b(1) by (simp add: n(2) dict_simps)
qed

section \<open>What the comparison leaves out changes nothing here\<close>

lemma plain_hush: "hush e = hush e' \<Longrightarrow> plain_session e = plain_session e'"
proof -
  have "plain_session (hush e) = plain_session e" for e :: "'b backtest"
    by (cases e) (simp add: plain_session_def hush_def barred_def merged_ends_def ends_of_def)
  then show "hush e = hush e' \<Longrightarrow> plain_session e = plain_session e'" by metis
qed

lemma plain_fixed: "fixed_part e e' \<Longrightarrow> plain_session e' = plain_session e"
  by (simp add: plain_session_def barred_def fixed_fields merged_fixed)

lemma hush_algo_tame: "hush_algo a = hush_algo a' \<Longrightarrow> tame_algo syms a = tame_algo syms a'"
proof -
  have "tame_algo syms (hush_algo a) = tame_algo syms a" for a :: "'b algo"
    by (simp add: tame_algo_def knows_def kind_of_def hush_algo_def)
  then show "hush_algo a = hush_algo a' \<Longrightarrow> tame_algo syms a = tame_algo syms a'" by metis
qed

lemma hush_events: "hush e = hush e' \<Longrightarrow> bt_day_events e = bt_day_events e'"
  by (drule arg_cong [of _ _ bt_day_events]) (simp add: hush_def)

lemma hush_marked: "hush e = hush e' \<Longrightarrow> marked e = marked e'"
proof -
  assume h: "hush e = hush e'"
  have "al_invested (bt_algo e) = al_invested (bt_algo e')"
    using arg_cong [OF hush_eqD(6) [OF h], of al_invested] by simp
  then show "marked e = marked e'" by (simp only: marked_iff hush_eqD(3,7) [OF h])
qed

lemma plain_edge: "plain_session e \<Longrightarrow> edge_state e"
  by (simp add: plain_session_def edge_state_def)

lemma hush_fields: "hush (e\<lparr>bt_algo := a, bt_slice := sl\<rparr>) = (hush e)\<lparr>bt_algo := hush_algo a\<rparr>"
  "hush (e\<lparr>bt_algo := a, bt_slice := sl, bt_prev_t := v\<rparr>) = (hush e)\<lparr>bt_algo := hush_algo a\<rparr>"
  by (cases e, simp add: hush_def)+

lemma hush_quote_to: "hush_algo (quote_to f ss a) = quote_to f ss (hush_algo a)"
  by (induction ss arbitrary: a) (simp_all add: hush_algo_quoted)

section \<open>One visit against the walk\<close>

definition in_step :: "ms \<Rightarrow> 'u backtest \<Rightarrow> 'u backtest \<Rightarrow> bool" where
  "in_step T y w \<longleftrightarrow> hush y = hush w \<and> plain_session w \<and> tame_algo (dkeys (bt_day_bars w)) (bt_algo w)
     \<and> bt_first_done y = bt_first_done w \<and> bt_prev_t w = T
     \<and> (T = - 1 \<or> T \<in> set (merged_ends w) \<and> bt_first_done w \<and> marked w)"

lemma merged_times: "map fst (timeline (ends_of e)) = merged_ends e"
  by (simp add: timeline_times merged_ends_def)

lemma between_split:
  assumes "t \<in> set (merged_ends e)" "T < t"
  obtains es where "(t, es) \<in> set (timeline (ends_of e))"
    "between e T t = filter (\<lambda>x. T < fst x \<and> fst x < t) (timeline (ends_of e)) @ [(t, es)]"
proof -
  let ?L = "timeline (ends_of e)"
  have "t \<in> set (map fst ?L)" using assms(1) by (simp only: merged_times)
  then obtain es where es: "(t, es) \<in> set ?L" by auto
  then obtain l r where L: "?L = l @ (t, es) # r" by (meson split_list)
  have "\<forall>x\<in>set l. fst x < t" "\<forall>x\<in>set r. t < fst x"
    using timeline_sorted [of "ends_of e"] by (auto simp: L sorted_wrt_append)
  then have "filter (\<lambda>x. T < fst x \<and> fst x \<le> t) r = []" "filter (\<lambda>x. T < fst x \<and> fst x < t) r = []"
    "filter (\<lambda>x. T < fst x \<and> fst x \<le> t) l = filter (\<lambda>x. T < fst x \<and> fst x < t) l"
    by (auto simp: filter_empty_conv intro!: filter_cong)
  then have "filter (\<lambda>x. T < fst x \<and> fst x \<le> t) ?L = filter (\<lambda>x. T < fst x \<and> fst x < t) ?L @ [(t, es)]"
    using assms(2) by (simp add: L)
  then show ?thesis using that es by (simp add: between_def)
qed

text \<open>The bars before the visit.\<close>

lemma walk_to_visit:
  assumes "in_step T y w" "hk_on_data hk = None" "next_visit forced T y = Inr (Some t)" "T < t"
    and us: "us = filter (\<lambda>x. T < fst x \<and> fst x < t) (timeline (ends_of w))"
    and first: "T = - 1 \<longrightarrow> (\<forall>u\<in>set (merged_ends w). t \<le> u)"
    and late: "\<And>x u. x \<in> set (bt_day_events w) \<Longrightarrow> T < fst x \<Longrightarrow> u \<in> set (merged_ends w) \<Longrightarrow> fst x \<le> u \<Longrightarrow> t \<le> u"
  shows "\<exists>a sl v. walk hk d us w = Inr (w\<lparr>bt_algo := a, bt_slice := sl, bt_prev_t := v\<rparr>)
    \<and> (\<forall>r. hush_algo (set_ms d r a) = hush_algo (set_ms d r (quote_all (bars_seen w us) (bt_algo w))))
    \<and> tame_algo (dkeys (bt_day_bars w)) a \<and> (\<forall>x\<in>set (bt_day_events w). T < fst x \<longleftrightarrow> v < fst x)"
proof -
  have y: "hush y = hush w" "bt_prev_t w = T" and plain: "plain_session w"
    and tame: "tame_algo (dkeys (bt_day_bars w)) (bt_algo w)" using assms(1) by (simp_all add: in_step_def)
  have in_m: "fst x \<in> set (merged_ends w)" if "x \<in> set us" for x
    using that unfolding merged_times [symmetric] us by auto
  show ?thesis
  proof (cases "T = - 1")
    case True
    have "x \<notin> set us" for x
    proof
      assume x: "x \<in> set us"
      then have "t \<le> fst x" using first True in_m by blast
      then show False using x by (simp add: us)
    qed
    then have "us = []" by (cases us) auto
    then show ?thesis using tame y(2)
      by (intro exI [of _ "bt_algo w"] exI [of _ "bt_slice w"] exI [of _ "bt_prev_t w"]) simp
  next
    case False
    then have w: "bt_first_done w" "marked w" using assms(1) by (auto simp: in_step_def)
    have rise: "rising (bt_day_bars w)" using plain by (simp add: plain_session_def barred_def)
    have same: "bt_day_bars y = bt_day_bars w" "bt_spans y = bt_spans w" "re_book (bt_algo y) = re_book (bt_algo w)" "\<not> bt_carried y"
      using hush_eqD [OF y(1)] plain by (simp_all add: plain_session_def)
    have ends: "ends_of y = ends_of w" "deaf_to y es k = deaf_to w es k" for es k
      by (simp_all add: ends_of_def deaf_to_def bars_at_def same)
    have "has_entry w si" if "(u, es) \<in> set us" "si \<in> set es" for u es si
      using entry_time [of u es w "fst si" "snd si"] that rise by (auto simp: us has_entry_def)
    moreover have "deaf_to w es (re_book (bt_algo w))" if "(u, es) \<in> set us" for u es
      using visit_deaf [OF assms(3) same(4), of u es] that rise by (auto simp: us ends same)
    ultimately have us_ok: "\<forall>x\<in>set us. (\<forall>si\<in>set (snd x). has_entry w si) \<and> deaf_to w (snd x) (re_book (bt_algo w)) \<and> bt_prev_t w < fst x \<and> fst x < t"
      by (auto simp: us y(2))
    have srt: "sorted_wrt (<) (map fst us)"
      using timeline_sorted [of "ends_of w"] by (simp add: us sorted_wrt_map sorted_wrt_filter)
    have "fst u < fst x" if "x \<in> set (bt_day_events w)" "u \<in> set us" "T < fst x" for x u
      using late [OF that(1,3) in_m [OF that(2)]] that(2) by (cases "fst u < fst x") (auto simp: us)
    then show ?thesis
      using skip_bars [OF plain assms(2) tame w us_ok srt] assms(4) y(2) by blast
  qed
qed

text \<open>The visit itself.\<close>

lemma key_of: "dget d s = Some b \<Longrightarrow> s \<in> set (dkeys d)"
  by (force simp: dget_def dkeys_def dest: map_of_SomeD)

lemma visit_matches:
  assumes hk: "tame hk (dkeys (bt_day_bars w))" and st: "in_step T y w" and t: "t \<in> set (merged_ends w)" "T < t" "- 1 \<le> T"
    and next_t: "next_visit forced T y = Inr (Some t)"
    and ap: "\<forall>s. s \<in> set (dkeys (bt_day_bars w)) \<longrightarrow> dget_or ap s (- 1) = reached w T s"
    and first: "T = - 1 \<longrightarrow> (\<forall>u\<in>set (merged_ends w). t \<le> u)"
    and late: "\<And>x u. x \<in> set (bt_day_events w) \<Longrightarrow> T < fst x \<Longrightarrow> u \<in> set (merged_ends w) \<Longrightarrow> fst x \<le> u \<Longrightarrow> t \<le> u"
    and v: "visit hk d t (fire_at (merged_ends w) (bt_day_events y) t) (ap, y) = Inr (ap', y')"
  shows "\<exists>w'. walk hk d (between w T t) w = Inr w' \<and> in_step t y' w' \<and> bt_day_bars w' = bt_day_bars w
    \<and> (\<forall>s. s \<in> set (dkeys (bt_day_bars w')) \<longrightarrow> dget_or ap' s (- 1) = reached w' t s)"
proof -
  let ?K = "dkeys (bt_day_bars w)"
  have y: "hush y = hush w" "bt_prev_t w = T" and plain: "plain_session w" and tame_w: "tame_algo ?K (bt_algo w)"
    using st by (simp_all add: in_step_def)
  have noop: "hk_on_data hk = None" and cb: "frame_cb (hk_order hk)" using hk by (simp_all add: tame_def)
  have rise: "rising (bt_day_bars w)" and zero: "\<forall>x\<in>set (bt_day_events w). 0 \<le> fst x"
    using plain by (simp_all add: plain_session_def barred_def)
  have keys: "distinct ?K" "\<And>s. s \<in> set ?K \<Longrightarrow> knows s (bt_algo w)"
    using rise tame_w unfolding rising_def dkeys_def tame_algo_def by blast+
  have plain_y: "plain_session y" and tame_y: "tame_algo ?K (bt_algo y)"
    using plain_hush [OF y(1)] plain hush_algo_tame [OF hush_eqD(6) [OF y(1)]] tame_w by simp_all
  have same: "bt_day_bars y = bt_day_bars w" "bt_spans y = bt_spans w" using hush_eqD [OF y(1)] by simp_all
  \<comment> \<open>The walk up to the bar.\<close>
  let ?us = "filter (\<lambda>x. T < fst x \<and> fst x < t) (timeline (ends_of w))"
  obtain es where es: "(t, es) \<in> set (timeline (ends_of w))" "between w T t = ?us @ [(t, es)]"
    using t(1,2) by (rule between_split)
  obtain a sl v0 where to: "walk hk d ?us w = Inr (w\<lparr>bt_algo := a, bt_slice := sl, bt_prev_t := v0\<rparr>)"
    "\<And>r. hush_algo (set_ms d r a) = hush_algo (set_ms d r (quote_all (bars_seen w ?us) (bt_algo w)))"
    "tame_algo ?K a" "\<forall>x\<in>set (bt_day_events w). T < fst x \<longleftrightarrow> v0 < fst x"
    using walk_to_visit [OF st noop next_t t(2) refl first, where d = d] late by blast
  let ?w1 = "w\<lparr>bt_algo := a, bt_slice := sl, bt_prev_t := v0\<rparr>"
  have plain1: "plain_session ?w1" using plain by simp
  \<comment> \<open>Its prices.\<close>
  have known: "has_entry w si \<and> dget (bt_spans w) (fst si) \<noteq> None \<and> fst si \<in> set ?K" if r: "si \<in> set es" for si
  proof -
    obtain b where b: "dget (bt_day_bars w) (fst si) = Some b" "snd si < length b"
      using entry_time [OF es(1) _ rise, of "fst si" "snd si"] r by auto
    then show ?thesis using plain key_of [OF b(1)] by (simp add: has_entry_def plain_session_def)
  qed
  let ?e1 = "(upd_algo (set_ms d t) ?w1)\<lparr>bt_slice := []\<rparr>"
  have "\<forall>si\<in>set es. has_entry ?e1 si \<and> dget (bt_spans ?e1) (fst si) \<noteq> None \<and> fst si \<in> set ?K"
    using known by (simp add: has_entry_def upd_algo_def)
  from apply_all_known [OF this, of hk d t] to(3) plain obtain sl' where
    sl': "fold_res (apply_bar hk d t) es ?e1 = Inr (?e1\<lparr>bt_algo := quote_all (bars_at ?e1 es) (bt_algo ?e1), bt_slice := sl'\<rparr>)"
    by (auto simp: upd_algo_def set_ms_tame plain_session_def)
  have bars: "bars_at ?e1 es = bars_at w es" by (simp add: bars_at_def upd_algo_def)
  let ?a = "quote_all (bars_at w es) (set_ms d t a)"
  let ?x = "?w1\<lparr>bt_algo := ?a, bt_slice := sl'\<rparr>"
  have applied: "fold_res (apply_bar hk d t) es ?e1 = Inr ?x"
    unfolding sl' bars by (simp add: upd_algo_def)
  note step = step_bar_rest [OF plain1 applied cb]
  \<comment> \<open>The prices of the visit.\<close>
  let ?y0 = "upd_algo (set_ms d t) y"
  have "\<forall>x\<in>set (bt_day_bars w). dget (bt_day_bars ?y0) (fst x) = Some (snd x) \<and> knows (fst x) (bt_algo ?y0)"
    using rise tame_y by (auto simp: upd_algo_def same rising_def dget_def tame_algo_def dkeys_def knows_def set_ms_def set_book_def)
  moreover have "distinct (map fst (bt_day_bars w))" using rise by (simp add: rising_def)
  moreover have now: "latest_bar ?y0 t = latest_bar w t" "reached ?y0 t = reached w t"
    by (simp_all add: latest_bar_def reached_def upd_algo_def same fun_eq_iff)
  ultimately obtain ap1 where roll: "fold_res (roll_symbol t) (bt_day_bars w) (ap, ?y0) = Inr (ap1, ?y0\<lparr>bt_algo :=
      quote_to (latest_bar w t) (filter (\<lambda>s. dget_or ap s (- 1) < reached w t s) ?K) (bt_algo ?y0)\<rparr>)"
    and ap1: "\<And>s. dget_or ap1 s (- 1) = (if s \<in> set ?K \<and> dget_or ap s (- 1) < reached w t s then reached w t s else dget_or ap s (- 1))"
    using roll_all [of "bt_day_bars w" ?y0 t ap] by (auto simp: dkeys_def)
  let ?adv = "filter (\<lambda>s. dget_or ap s (- 1) < reached w t s) ?K"
  let ?y1 = "?y0\<lparr>bt_algo := quote_to (latest_bar w t) ?adv (bt_algo ?y0)\<rparr>"
  have ps: "quote_all (bars_seen w (between w T t)) a0 = quote_to (latest_bar w t) ?adv a0" if k: "\<And>s. s \<in> set ?K \<Longrightarrow> knows s a0" for a0 :: "'a algo"
  proof -
    let ?ps = "bars_seen w (between w T t)"
    have dom: "fst ` set ?ps \<subseteq> set ?K"
      using bars_seen_iff [OF rise, of _ _ T t] key_of by fastforce
    have last: "(s \<in> fst ` set ?ps) = (dget_or ap s (- 1) < reached w t s)"
      "s \<in> fst ` set ?ps \<Longrightarrow> last_bar ?ps s = latest_bar w t s" if s: "s \<in> set ?K" for s
    proof -
      obtain b where b: "dget (bt_day_bars w) s = Some b" using s rise by (auto simp: dkeys_def rising_def dget_def)
      have bs: "dget_or (bt_day_bars w) s [] = b" using b by (simp add: dict_simps)
      note l = last_seen [OF rise b less_imp_le [OF t(2)] refl]
      show "(s \<in> fst ` set ?ps) = (dget_or ap s (- 1) < reached w t s)"
        unfolding l(1) using ap s by (simp add: reached_def bs)
      show "s \<in> fst ` set ?ps \<Longrightarrow> last_bar ?ps s = latest_bar w t s"
        using l(2) by (simp add: latest_bar_def reached_def bs)
    qed
    have "quote_all ?ps a0 = quote_to (last_bar ?ps) (filter (\<lambda>x. x \<in> fst ` set ?ps) ?K) a0"
      by (rule quote_all_to [OF keys(1) dom k])
    also have "filter (\<lambda>x. x \<in> fst ` set ?ps) ?K = ?adv" using last(1) by (intro filter_cong) auto
    also have "quote_to (last_bar ?ps) ?adv a0 = quote_to (latest_bar w t) ?adv a0"
      using last by (intro quote_to_cong) simp
    finally show ?thesis .
  qed
  have h: "hush ?y1 = hush ?x"
  proof -
    have "hush_algo ?a = quote_all (bars_at w es) (hush_algo (set_ms d t a))" by (simp add: hush_algo_quotes)
    also have "\<dots> = quote_all (bars_seen w (between w T t)) (set_ms d t (hush_algo (bt_algo w)))"
      unfolding to(2) by (simp add: es(2) set_ms_quotes hush_algo_quotes hush_algo_ms)
    also have "\<dots> = quote_to (latest_bar w t) ?adv (set_ms d t (hush_algo (bt_algo w)))"
      using keys(2) by (intro ps) (simp add: knows_def set_ms_def set_book_def)
    also have "\<dots> = hush_algo (quote_to (latest_bar w t) ?adv (bt_algo ?y0))"
      by (simp add: hush_quote_to upd_algo_def hush_algo_ms hush_eqD(6) [OF y(1)])
    finally show ?thesis using y(1) by (simp add: hush_fields hush_upd)
  qed
  \<comment> \<open>The visit.\<close>
  have tail: "tail_of_visit hk d t (fire_at (merged_ends w) (bt_day_events y) t) (ending_at t ?y1) ?y1 = Inr y'" and ap': "ap' = ap1"
    using v roll by (auto simp: visit_tail same bind_res_Inr_iff)
  have "ending_at t ?y1 = ending_at t w" by (simp add: ending_at_def upd_algo_def same)
  then have tail': "tail_of_visit hk d t (fire_at (merged_ends w) (bt_day_events y) t) es ?y1 = Inr y'"
    using tail ending_entries [OF rise es(1)] by simp
  have T: "T = - 1 \<or> T \<in> set (merged_ends w)" using st by (auto simp: in_step_def)
  have evs: "fire_at (merged_ends w) (bt_day_events y) t = due_at (bt_prev_t ?x) (- 1) t (bt_day_events ?x)"
  proof -
    have "fire_at (merged_ends w) (bt_day_events w) t = due_at T (- 1) t (bt_day_events w)"
      using late by (intro fire_is_due [OF merged_sorted(1) t(1,2) zero T]) blast
    also have "\<dots> = due_at v0 (- 1) t (bt_day_events w)"
      using to(4) unfolding due_at_def by (intro arg_cong [of _ _ "map snd"] filter_cong) auto
    finally show ?thesis using hush_events [OF y(1)] by simp
  qed
  have tame1: "tame_algo ?K (bt_algo ?y1)"
    using hush_algo_tame [OF hush_eqD(6) [OF h], of ?K] to(3) by (simp add: quote_all_tame set_ms_tame)
  have edges: "edge_state ?x" "edge_state ?y1"
    using plain_edge [OF plain] plain_edge [OF plain_y] by (simp_all add: edge_state_def upd_algo_def)
  have firsts: "bt_first_done ?x = bt_first_done ?y1" using st by (simp add: in_step_def upd_algo_def)
  have "- 1 < t" using t by simp
  note vs = visit_is_step [OF hk this h firsts edges tame1 evs tail']
  obtain x' where x': "rest_of_step hk d t es ?x = Inr x'" "hush y' = hush x'" "bt_first_done x'" "bt_prev_t x' = t"
    using vs(1) by blast
  have walked: "walk hk d (between w T t) w = Inr x'"
    unfolding es(2) using to(1,3) tame_w step x'(1)
    by (simp add: walk_append tame_algo_def unless_quit_def)
  have fixed: "fixed_part y y'" using v by (rule visit_fixed)
  have bars': "bt_day_bars x' = bt_day_bars w" "bt_spans x' = bt_spans w"
    using hush_eqD(1,2) [OF x'(2)] fixed_fields(1,2) [OF fixed] same by simp_all
  then have m': "merged_ends x' = merged_ends w" by (simp add: merged_ends_def ends_of_def)
  have "in_step t y' x'"
    unfolding in_step_def bars'(1) m'
    using x' vs(2-4) t(1) plain_hush [OF x'(2)] plain_fixed [OF fixed] plain_y hush_marked [OF x'(2)]
      hush_algo_tame [OF hush_eqD(6) [OF x'(2)], of ?K] by simp
  moreover have "dget_or ap' s (- 1) = reached x' t s" if "s \<in> set ?K" for s
  proof -
    have "reached w T s \<le> reached w t s" unfolding reached_def using t(2) by (intro last_index_mono) simp
    then show ?thesis using ap' ap1 [of s] ap that bars' by (auto simp: reached_def)
  qed
  ultimately show ?thesis using walked bars'(1) by auto
qed

section \<open>The whole session\<close>

lemma tame_counts_none: "tame_algo syms a \<Longrightarrow> minute_indicator_count a = 0"
  by (auto simp: tame_algo_def minute_indicator_count_def filter_empty_conv)

lemma next_visit_le:
  assumes "next_visit forced T y = Inr (Some t)" "sorted forced" "u \<in> set forced"
  shows "t \<le> u"
proof -
  obtain f fs where f: "forced = f # fs" using assms(3) by (cases forced) auto
  obtain cand where "min_opt (Some f) cand = Some t" using assms(1) by (auto simp: next_visit_def bind_res_Inr_iff f)
  then have "t \<le> f" by (cases cand) (auto split: if_splits)
  then show ?thesis using assms(2,3) by (auto simp: f)
qed

lemma dropWhile_filter: "sorted xs \<Longrightarrow> dropWhile (\<lambda>u. u \<le> t) xs = filter (\<lambda>u. t < u) xs" for t :: int
proof (induction xs)
  case (Cons x xs)
  have "filter (\<lambda>u. t < u) xs = xs" if "t < x"
    using Cons.prems that by (intro filter_True) auto
  then show ?case using Cons by auto
qed simp

lemma forced_has:
  assumes "merged \<noteq> []"
  shows "hd merged \<in> set (forced_ends merged evs)" "last merged \<in> set (forced_ends merged evs)"
    and "x \<in> set evs \<Longrightarrow> find (\<lambda>u. fst x \<le> u) merged = Some u \<Longrightarrow> u \<in> set (forced_ends merged evs)"
  by (force simp: forced_ends_def)+

lemma sorted_ends: "sorted xs \<Longrightarrow> u \<in> set xs \<Longrightarrow> hd xs \<le> u \<and> u \<le> last xs" for u :: int
  by (induction xs) auto

lemma after_split:
  assumes "T < t"
  shows "filter (\<lambda>x. T < fst x) (timeline (ends_of e)) = between e T t @ filter (\<lambda>x. t < fst x) (timeline (ends_of e))"
proof -
  let ?L = "filter (\<lambda>x. T < fst x) (timeline (ends_of e))"
  have "sorted_wrt (<) (map fst ?L)"
    using timeline_sorted [of "ends_of e"] by (simp add: sorted_wrt_map sorted_wrt_filter)
  note cut = cut_at_time [OF this, of t]
  have a: "filter (\<lambda>x. fst x \<le> t) ?L = between e T t"
    unfolding filter_filter between_def by (intro filter_cong) auto
  have b: "filter (\<lambda>x. t < fst x) ?L = filter (\<lambda>x. t < fst x) (timeline (ends_of e))"
    unfolding filter_filter using assms by (intro filter_cong) auto
  show ?thesis using cut unfolding a b .
qed

lemma forced_sorted: "sorted (forced_ends merged evs)"
  by (simp add: forced_ends_def)

lemma loop_matches:
  assumes hk: "tame hk (dkeys (bt_day_bars w))" and st: "in_step T y w" and T: "- 1 \<le> T"
    and merged: "merged = merged_ends w" and forced: "forced = filter (\<lambda>u. T < u) (forced_ends merged (bt_day_events w))"
    and ap: "\<forall>s. s \<in> set (dkeys (bt_day_bars w)) \<longrightarrow> dget_or ap s (- 1) = reached w T s"
    and run: "fast_loop k hk d merged 0 forced T ap y = Some (Inr (T', fin, y'))"
  shows "fin \<and> (\<exists>w'. walk hk d (filter (\<lambda>x. T < fst x) (timeline (ends_of w))) w = Inr w'
    \<and> hush y' = hush w' \<and> bt_first_done y' = bt_first_done w' \<and> bt_prev_t w' = T')"
  using assms
proof (induction k arbitrary: T y w ap forced)
  case (Suc k)
  note st = Suc.prems(2)
  have y: "hush y = hush w" "bt_prev_t w = T" and plain: "plain_session w" using st by (simp_all add: in_step_def)
  have ne: "merged \<noteq> []" and rise: "rising (bt_day_bars w)" and pos: "\<And>u. u \<in> set merged \<Longrightarrow> - 1 < u"
    using plain Suc.prems(4) by (auto simp: plain_session_def barred_def list_all_iff)
  have same: "bt_day_bars y = bt_day_bars w" "bt_day_events y = bt_day_events w" "merged_ends y = merged"
    using hush_eqD(1,2) [OF y(1)] hush_events [OF y(1)] Suc.prems(4) by (simp_all add: merged_ends_def ends_of_def)
  have srt: "sorted forced" and fsub: "\<And>u. u \<in> set forced \<Longrightarrow> u \<in> set merged \<and> T < u"
    using forced_in_merged [OF ne] sorted_wrt_filter [OF forced_sorted] by (auto simp: Suc.prems(5))
  have in_forced: "u \<in> set forced" if "u \<in> set (forced_ends merged (bt_day_events w))" "T < u" for u
    using that by (simp add: Suc.prems(5))
  obtain v where v: "next_visit forced T y = Inr v" using Suc.prems(7) by (cases "next_visit forced T y") auto
  show ?case
  proof (cases v)
    case None
    have "forced = []" using v None by (cases forced) (auto simp: next_visit_def bind_res_Inr_iff elim: min_opt.elims)
    then have "\<not> T < last merged" using in_forced forced_has(2) [OF ne] by fastforce
    then have "\<not> T < fst x" if "x \<in> set (timeline (ends_of w))" for x
      using sorted_ends [OF merged_sorted(1) [of w], of "fst x"] that Suc.prems(4)
      unfolding merged_times [symmetric] by force
    then have "filter (\<lambda>x. T < fst x) (timeline (ends_of w)) = []" by (simp add: filter_empty_conv)
    then show ?thesis using Suc.prems(7) v None y st by (auto simp: in_step_def)
  next
    case (Some t)
    have t: "t \<in> set merged" "T < t"
      using next_visit_end [of y forced T t] v Some rise fsub by (auto simp: same)
    have le: "t \<le> u" if "u \<in> set forced" for u using next_visit_le [OF _ srt that] v Some by simp
    obtain ap1 y1 where vis: "visit hk d t (fire_at merged (bt_day_events y) t) (ap, y) = Inr (ap1, y1)"
      using Suc.prems(7) v Some by (auto split: sum.splits)
    have first: "T = - 1 \<longrightarrow> (\<forall>u\<in>set merged. t \<le> u)"
    proof (intro impI ballI)
      fix u assume "T = - 1" "u \<in> set merged"
      moreover have "hd merged \<in> set forced"
        using in_forced forced_has(1) [OF ne] pos ne \<open>T = - 1\<close> by simp
      ultimately show "t \<le> u"
        using le sorted_ends [OF merged_sorted(1) [of w]] Suc.prems(4) by (meson order_trans)
    qed
    have late: "t \<le> u" if "x \<in> set (bt_day_events w)" "T < fst x" "u \<in> set merged" "fst x \<le> u" for x u
    proof -
      have "find (\<lambda>u. fst x \<le> u) merged \<noteq> None" using that(3,4) by (auto simp: find_None_iff)
      then obtain u0 where u0: "find (\<lambda>u. fst x \<le> u) merged = Some u0" by auto
      then have "u0 \<le> u" "fst x \<le> u0"
        using that(3,4) find_first [of merged "\<lambda>u. fst x \<le> u" u0] merged_sorted(1) [of w] Suc.prems(4) by auto
      moreover have "t \<le> u0" using le in_forced forced_has(3) [OF ne that(1) u0] that(2) \<open>fst x \<le> u0\<close> by simp
      ultimately show ?thesis by simp
    qed
    obtain w1 where w1: "walk hk d (between w T t) w = Inr w1" "in_step t y1 w1" "bt_day_bars w1 = bt_day_bars w"
      "\<forall>s. s \<in> set (dkeys (bt_day_bars w1)) \<longrightarrow> dget_or ap1 s (- 1) = reached w1 t s"
      using visit_matches [OF Suc.prems(1) st _ t(2) Suc.prems(3) _ Suc.prems(6), of forced d ap1 y1]
        t(1) v Some first late vis Suc.prems(4) by auto
    have h1: "hush y1 = hush w1" and tame1: "tame_algo (dkeys (bt_day_bars w1)) (bt_algo w1)" using w1(2) by (simp_all add: in_step_def)
    note fx = fixed_fields [OF visit_fixed [OF vis]]
    have same1: "bt_spans w1 = bt_spans w" "bt_day_events w1 = bt_day_events w"
      using hush_eqD(2) [OF h1] hush_events [OF h1] hush_eqD(2) [OF y(1)] hush_events [OF y(1)] fx by simp_all
    then have ends: "ends_of w1 = ends_of w" "merged_ends w1 = merged" by (simp_all add: merged_ends_def ends_of_def w1(3) Suc.prems(4))
    have count: "minute_indicator_count (bt_algo y1) = 0"
      using tame_counts_none hush_algo_tame [OF hush_eqD(6) [OF h1]] tame1 by blast
    have more: "fast_loop k hk d merged 0 (dropWhile (\<lambda>u. u \<le> t) forced) t ap1 y1 = Some (Inr (T', fin, y'))"
      using Suc.prems(7) v Some vis count by simp
    have "fin \<and> (\<exists>w'. walk hk d (filter (\<lambda>x. t < fst x) (timeline (ends_of w1))) w1 = Inr w'
      \<and> hush y' = hush w' \<and> bt_first_done y' = bt_first_done w' \<and> bt_prev_t w' = T')"
    proof (rule Suc.IH [OF _ w1(2) _ _ _ w1(4) more])
      show "dropWhile (\<lambda>u. u \<le> t) forced = filter (\<lambda>u. t < u) (forced_ends merged (bt_day_events w1))"
        unfolding dropWhile_filter [OF srt] unfolding Suc.prems(5) same1 filter_filter using t(2) by (intro filter_cong) auto
    qed (use Suc.prems(1,3) t(2) w1(3) ends in simp_all)
    moreover have "\<not> al_quit (bt_algo w)" "\<not> al_quit (bt_algo w1)" using st tame1 by (simp_all add: in_step_def tame_algo_def)
    ultimately show ?thesis
      unfolding after_split [OF t(2)] by (auto simp: walk_append w1(1) unless_quit_def ends)
  qed
qed simp

text \<open>C37: The fast path is the walk.  For a strategy it is meant for, a session on the quiet-bar fast path
  finishes, and the walk over every bar of the session leaves the same state: the same orders, fills,
  holdings, prices, events run and user state.  The comparison leaves out what only a handler of bars
  could see: the current slice and whether the market was open when it last looked.\<close>

theorem fast_path_is_the_walk:
  assumes "tame hk (dkeys (bt_day_bars e))" "plain_session e" "tame_algo (dkeys (bt_day_bars e)) (bt_algo e)"
    and "\<not> bt_first_done e" "bt_fast_on e" "step_session hk d e = Some (Inr e')"
  shows "\<exists>w. walk_after hk d (- 1) e = Inr w
    \<and> hush e' = hush (w\<lparr>bt_fast_sessions := bt_fast_sessions w + 1\<rparr>) \<and> bt_prev_t e' = bt_prev_t w \<and> bt_first_done e' = bt_first_done w"
proof -
  let ?e = "e\<lparr>bt_prev_t := - 1\<rparr>"
  have n: "minute_indicator_count (bt_algo e) = 0" using assms(3) by (rule tame_counts_none)
  obtain T fin y where run: "fast_day hk d e = Some (Inr (T, fin, y))"
    and e': "e' = (if fin then y\<lparr>bt_fast_sessions := bt_fast_sessions y + 1, bt_prev_t := T\<rparr> else e')"
    using assms(5,6) n by (auto simp: step_session_def split: option.splits sum.splits if_splits)
  have b: "barred e" "\<And>u. u \<in> set (merged_ends e) \<Longrightarrow> 0 \<le> u"
    using assms(2) by (auto simp: plain_session_def barred_def list_all_iff)
  have st: "in_step (- 1) e ?e"
    using assms(2-4) by (simp add: in_step_def plain_session_def barred_def merged_ends_def ends_of_def)
  have m: "merged_ends e = merged_ends ?e" by (simp add: merged_ends_def ends_of_def)
  have forced: "forced_ends (merged_ends e) (bt_day_events e) = filter (\<lambda>u. - 1 < u) (forced_ends (merged_ends e) (bt_day_events ?e))"
  proof -
    have "- 1 < u" if "u \<in> set (forced_ends (merged_ends e) (bt_day_events e))" for u
      using forced_in_merged [OF _ that] b by (fastforce simp: barred_def)
    then show ?thesis by (simp add: filter_id_conv)
  qed
  have zero: "reached ?e (- 1) s = - 1" for s
  proof (cases "dget (bt_day_bars e) s")
    case (Some bs)
    have "takeWhile (\<lambda>x. b_start x + dget_or (bt_spans e) s 0 \<le> - 1) bs = []"
    proof (cases bs)
      case (Cons x xs)
      have "(s, bs) \<in> set (bt_day_bars e)" using Some by (simp add: dget_def map_of_SomeD)
      then have "0 \<le> b_start x + dget_or (bt_spans e) s 0" using ends_of_mem [of s bs e x] b(2) Cons by simp
      then show ?thesis by (simp add: Cons)
    qed simp
    moreover have "dget_or (bt_day_bars e) s [] = bs" using Some by (simp add: dict_simps)
    ultimately show ?thesis by (simp add: reached_def last_index_def)
  qed (simp add: reached_def last_index_def dict_simps)
  have loop: "fast_loop (Suc (length (merged_ends e))) hk d (merged_ends e) 0 (forced_ends (merged_ends e) (bt_day_events e)) (- 1) [] e
      = Some (Inr (T, fin, y))"
    using run n by (simp add: fast_day_def Let_def del: fast_loop.simps)
  have "fin \<and> (\<exists>w. walk hk d (filter (\<lambda>x. - 1 < fst x) (timeline (ends_of ?e))) ?e = Inr w
    \<and> hush y = hush w \<and> bt_first_done y = bt_first_done w \<and> bt_prev_t w = T)"
    by (rule loop_matches [OF _ st _ m forced _ loop]) (use assms(1) zero in \<open>simp_all add: dget_or_def dget_def\<close>)
  then obtain w where fin: fin and w: "walk hk d (filter (\<lambda>x. - 1 < fst x) (timeline (ends_of ?e))) ?e = Inr w"
    "hush y = hush w" "bt_first_done y = bt_first_done w" "bt_prev_t w = T" by blast
  have "walk_after hk d (- 1) e = Inr w"
    using w(1) by (simp add: walk_after_def timeline_filter ends_of_def)
  moreover have "hush (y\<lparr>bt_fast_sessions := bt_fast_sessions y + 1, bt_prev_t := T\<rparr>) = hush (w\<lparr>bt_fast_sessions := bt_fast_sessions w + 1\<rparr>)"
  proof -
    have h: "hush (x\<lparr>bt_fast_sessions := bt_fast_sessions x + 1, bt_prev_t := v\<rparr>) = (hush x)\<lparr>bt_fast_sessions := bt_fast_sessions (hush x) + 1\<rparr>"
      "hush (x\<lparr>bt_fast_sessions := bt_fast_sessions x + 1\<rparr>) = (hush x)\<lparr>bt_fast_sessions := bt_fast_sessions (hush x) + 1\<rparr>"
      for x :: "'a backtest" and v by (cases x, simp add: hush_def)+
    show ?thesis unfolding h w(2) ..
  qed
  ultimately show ?thesis using e' fin w(3,4) by (intro exI [of _ w]) simp
qed

text \<open>A session of four minutes with an event in the second: the third bar is skipped.\<close>

definition demo_quick :: "note_log backtest" where
  "demo_quick = demo_open
     \<lparr>bt_day_bars := [(''SPY'', map demo_minute_bar [34200000, 34260000, 34320000, 34380000])],
      bt_algo := (demo_algo [])\<lparr>re_book := (re_book (demo_algo []))\<lparr>prices := [(''SPY'', 100)]\<rparr>,
        al_quotes := [(''SPY'', bar_quote (demo_minute_bar 0))]\<rparr>,
      bt_warm := False, bt_carried := False, bt_sells_due := [], bt_first_done := False, bt_fast_on := True\<rparr>"

definition demo_quick_end :: "note_log backtest" where
  "demo_quick_end = (case step_session (recording quiet) 738000 demo_quick of Some (Inr e) \<Rightarrow> e | _ \<Rightarrow> undefined)"

lemma recording_tame: "tame (recording quiet) syms"
proof -
  have "slice_blind (hk_event (recording quiet) n)" for n
    unfolding slice_blind_def
  proof (intro allI impI)
    fix a a' r :: "note_log algo" assume "hush_algo a = hush_algo a'" "hk_event (recording quiet) n a = Inr r"
    then show "\<exists>r'. hk_event (recording quiet) n a' = Inr r' \<and> hush_algo r = hush_algo r'"
      by (cases a; cases a') (auto simp: recording_def hush_algo_def)
  qed
  then show ?thesis
    by (auto simp: tame_def recording_def frame_cb_def quiet_def frame_refl tame_algo_def knows_def kind_of_def)
qed

lemma demo_quick_facts:
  "plain_session demo_quick" "tame_algo (dkeys (bt_day_bars demo_quick)) (bt_algo demo_quick)" "\<not> bt_first_done demo_quick" "bt_fast_on demo_quick"
  by code_simp+

lemma demo_quick_runs: "step_session (recording quiet) 738000 demo_quick = Some (Inr demo_quick_end)"
proof -
  have "(case step_session (recording quiet) 738000 demo_quick of Some (Inr e) \<Rightarrow> True | _ \<Rightarrow> False)" by code_simp
  then show ?thesis by (auto simp: demo_quick_end_def split: option.splits sum.splits)
qed

theorem fast_path_is_the_walk_witness:
  "\<exists>w. walk_after (recording quiet) 738000 (- 1) demo_quick = Inr w
    \<and> hush demo_quick_end = hush (w\<lparr>bt_fast_sessions := bt_fast_sessions w + 1\<rparr>)
    \<and> bt_prev_t demo_quick_end = bt_prev_t w \<and> bt_first_done demo_quick_end = bt_first_done w"
  by (rule fast_path_is_the_walk [OF recording_tame demo_quick_facts demo_quick_runs])

end
