(* ===== verification/LeanInd.thy ===== *)
theory LeanInd
  imports PyList
begin

text \<open>
  The incremental indicators a strategy constructs: \<open>dqengine/runtime/indicators.py\<close>, base classes and the
  indicators fed with single values.  A class is its initial attributes, its \<open>_step\<close>, its \<open>_value\<close> and its
  \<open>is_ready\<close>; an object is the count of samples, the current value and the attributes.  A composite
  holds the objects it is made of.  Periods are positive (the constructors of a window reject a negative
  one), the time stamp of a data point is passed through and left out, \<open>pw\<close> is Python's floating \<open>**\<close>.
\<close>

section \<open>Objects and classes\<close>

record 's lean =
  le_samples :: nat
  le_current :: pyfloat
  le_state :: 's

record ('x, 's) lean_class =
  lc_new :: 's
  lc_step :: "nat \<Rightarrow> 'x \<Rightarrow> 's \<Rightarrow> 's"
  lc_value :: "'s \<Rightarrow> pyfloat"
  lc_ready :: "nat \<Rightarrow> 's \<Rightarrow> bool"

definition lean_new :: "('x, 's) lean_class \<Rightarrow> 's lean" where
  "lean_new c = \<lparr>le_samples = 0, le_current = 0, le_state = lc_new c\<rparr>"

definition lean_update :: "('x, 's) lean_class \<Rightarrow> 'x \<Rightarrow> 's lean \<Rightarrow> 's lean" where
  "lean_update c x i =
     (let n = Suc (le_samples i); s = lc_step c n x (le_state i)
      in \<lparr>le_samples = n, le_current = lc_value c s, le_state = s\<rparr>)"

definition lean_ready :: "('x, 's) lean_class \<Rightarrow> 's lean \<Rightarrow> bool" where
  "lean_ready c i = lc_ready c (le_samples i) (le_state i)"

definition lean_run :: "('x, 's) lean_class \<Rightarrow> 'x list \<Rightarrow> 's lean" where
  "lean_run c xs = foldl (\<lambda>i x. lean_update c x i) (lean_new c) xs"

text \<open>\<open>is_ready\<close> of the base class.\<close>

definition enough :: "nat \<Rightarrow> nat \<Rightarrow> 's \<Rightarrow> bool" where
  "enough p n s \<longleftrightarrow> p \<le> n"

section \<open>Windows\<close>

definition windowed :: "nat \<Rightarrow> nat \<Rightarrow> (pyfloat list \<Rightarrow> pyfloat) \<Rightarrow> (pyfloat, pyfloat list) lean_class" where
  "windowed m p f = \<lparr>lc_new = [], lc_step = (\<lambda>n v w. push m w v), lc_value = f, lc_ready = enough p\<rparr>"

definition mean_of :: "pyfloat list \<Rightarrow> pyfloat" where
  "mean_of w = (if w = [] then 0 else fdiv (fsum w) (fint (int (length w))))"

definition sma :: "nat \<Rightarrow> (pyfloat, pyfloat list) lean_class" where
  "sma p = windowed p p mean_of"

type_synonym power = "pyfloat \<Rightarrow> pyfloat \<Rightarrow> pyfloat"

definition variance_of :: "power \<Rightarrow> pyfloat list \<Rightarrow> pyfloat" where
  "variance_of pw w =
     (if w = [] then 0
      else let n = fint (int (length w)); m = fdiv (fsum w) n
           in fdiv (fsum (map (\<lambda>x. pw (fsub x m) 2) w)) n)"

definition deviation_of :: "power \<Rightarrow> pyfloat list \<Rightarrow> pyfloat" where
  "deviation_of pw w = (if w = [] then 0 else pw (variance_of pw w) (1 / 2))"

definition std_dev :: "power \<Rightarrow> nat \<Rightarrow> (pyfloat, pyfloat list) lean_class" where
  "std_dev pw p = windowed p p (deviation_of pw)"

definition maximum :: "nat \<Rightarrow> (pyfloat, pyfloat list) lean_class" where
  "maximum p = windowed p p (\<lambda>w. if w = [] then 0 else fmax w)"

definition minimum :: "nat \<Rightarrow> (pyfloat, pyfloat list) lean_class" where
  "minimum p = windowed p p (\<lambda>w. if w = [] then 0 else fmin w)"

definition identity_ind :: "(pyfloat, pyfloat option) lean_class" where
  "identity_ind = \<lparr>lc_new = None, lc_step = (\<lambda>n v s. Some v), lc_value = (\<lambda>s. case s of None \<Rightarrow> 0 | Some v \<Rightarrow> v),
     lc_ready = enough 1\<rparr>"

definition rolling_sum :: "nat \<Rightarrow> (pyfloat, pyfloat list) lean_class" where
  "rolling_sum p = windowed p p fsum"

definition momentum :: "nat \<Rightarrow> (pyfloat, pyfloat list) lean_class" where
  "momentum p = windowed (p + 1) p (\<lambda>w. if 1 < length w then fsub (last w) (hd w) else 0)"

definition change_of :: "pyfloat list \<Rightarrow> pyfloat" where
  "change_of w = (if length w < 2 \<or> hd w = 0 then 0 else fdiv (fsub (last w) (hd w)) (hd w))"

definition rate_of_change :: "nat \<Rightarrow> (pyfloat, pyfloat list) lean_class" where
  "rate_of_change p = windowed (p + 1) p change_of"

definition rate_of_change_percent :: "nat \<Rightarrow> (pyfloat, pyfloat list) lean_class" where
  "rate_of_change_percent p = windowed (p + 1) p (\<lambda>w. fmul (change_of w) 100)"

definition momentum_percent :: "nat \<Rightarrow> (pyfloat, pyfloat list) lean_class" where
  "momentum_percent p = rate_of_change_percent p"

definition rate_of_change_ratio :: "nat \<Rightarrow> (pyfloat, pyfloat list) lean_class" where
  "rate_of_change_ratio p =
     windowed (p + 1) p (\<lambda>w. if length w < 2 \<or> hd w = 0 then 0 else fdiv (last w) (hd w))"

definition log_return :: "(pyfloat \<Rightarrow> pyfloat) \<Rightarrow> nat \<Rightarrow> (pyfloat, pyfloat list) lean_class" where
  "log_return lg p =
     windowed (p + 1) p (\<lambda>w. if length w < 2 \<or> hd w \<le> 0 \<or> last w \<le> 0 then 0 else lg (fdiv (last w) (hd w)))"

definition variance :: "power \<Rightarrow> nat \<Rightarrow> (pyfloat, pyfloat list) lean_class" where
  "variance pw p = windowed p p (variance_of pw)"

definition mean_abs_dev_of :: "pyfloat list \<Rightarrow> pyfloat" where
  "mean_abs_dev_of w =
     (if w = [] then 0
      else let n = fint (int (length w)); m = fdiv (fsum w) n in fdiv (fsum (map (\<lambda>x. \<bar>fsub x m\<bar>) w)) n)"

definition mean_absolute_deviation :: "nat \<Rightarrow> (pyfloat, pyfloat list) lean_class" where
  "mean_absolute_deviation p = windowed p p mean_abs_dev_of"

definition weighted_mean_of :: "pyfloat list \<Rightarrow> pyfloat" where
  "weighted_mean_of w =
     (if w = [] then 0
      else fdiv (fsum (map2 (\<lambda>v i. fmul v (fint (int i + 1))) w [0..<length w]))
             (fdiv (fint (int (length w * (length w + 1)))) 2))"

definition lwma :: "nat \<Rightarrow> (pyfloat, pyfloat list) lean_class" where
  "lwma p = windowed p p weighted_mean_of"

section \<open>Exponential and Wilder smoothing\<close>

record ema_state =
  em_ema :: "pyfloat option"
  em_seed :: "pyfloat list lean"

text \<open>The seed is the mean of the first \<open>p\<close> values; there is an average once it is complete.\<close>

definition ema_step :: "nat \<Rightarrow> nat \<Rightarrow> pyfloat \<Rightarrow> ema_state \<Rightarrow> ema_state" where
  "ema_step p n v s =
     (if n \<le> p
      then let seed = lean_update (sma p) v (em_seed s)
           in \<lparr>em_ema = (if n = p then Some (le_current seed) else em_ema s), em_seed = seed\<rparr>
      else s\<lparr>em_ema := map_option (\<lambda>e. fadd e (fmul (fsub v e) (fdiv 2 (fint (int p + 1))))) (em_ema s)\<rparr>)"

definition ema :: "nat \<Rightarrow> (pyfloat, ema_state) lean_class" where
  "ema p = \<lparr>lc_new = \<lparr>em_ema = None, em_seed = lean_new (sma p)\<rparr>, lc_step = ema_step p,
     lc_value = (\<lambda>s. case em_ema s of None \<Rightarrow> 0 | Some e \<Rightarrow> e), lc_ready = enough p\<rparr>"

text \<open>While it warms up a Wilder average reports the running mean.\<close>

definition wilder_ma_step :: "nat \<Rightarrow> nat \<Rightarrow> pyfloat \<Rightarrow> pyfloat option \<times> pyfloat list lean \<Rightarrow> pyfloat option \<times> pyfloat list lean" where
  "wilder_ma_step p n v s =
     (case s of (a, seed) \<Rightarrow>
        if n \<le> p then let seed' = lean_update (sma p) v seed in (Some (le_current seed'), seed')
        else (map_option (\<lambda>x. fadd x (fdiv (fsub v x) (fint (int p)))) a, seed))"

definition wilder_ma :: "nat \<Rightarrow> (pyfloat, pyfloat option \<times> pyfloat list lean) lean_class" where
  "wilder_ma p = \<lparr>lc_new = (None, lean_new (sma p)), lc_step = wilder_ma_step p,
     lc_value = (\<lambda>s. case fst s of None \<Rightarrow> 0 | Some x \<Rightarrow> x), lc_ready = enough p\<rparr>"

text \<open>\<open>_ma_of\<close>: the moving average named by a \<open>MovingAverageType\<close>.\<close>

datatype ma_kind = Wilders | Exponential | LinearWeighted | Simple

definition ma_kind_of :: "string \<Rightarrow> ma_kind" where
  "ma_kind_of s =
     (let k = lower (rev (takeWhile (\<lambda>c. c \<noteq> CHR ''.'') (rev s)))
      in if k \<in> {''wilders'', ''wilder''} then Wilders
         else if k \<in> {''exponential'', ''ema''} then Exponential
         else if k \<in> {''linearweightedmovingaverage'', ''lwma''} then LinearWeighted else Simple)"

record ma_state =
  ms_wilder :: "pyfloat option \<times> pyfloat list lean"
  ms_ema :: ema_state
  ms_win :: "pyfloat list"

definition ma_of :: "ma_kind \<Rightarrow> nat \<Rightarrow> (pyfloat, ma_state) lean_class" where
  "ma_of k p =
     \<lparr>lc_new = \<lparr>ms_wilder = lc_new (wilder_ma p), ms_ema = lc_new (ema p), ms_win = []\<rparr>,
      lc_step = (\<lambda>n v s. case k of
          Wilders \<Rightarrow> s\<lparr>ms_wilder := lc_step (wilder_ma p) n v (ms_wilder s)\<rparr>
        | Exponential \<Rightarrow> s\<lparr>ms_ema := lc_step (ema p) n v (ms_ema s)\<rparr>
        | _ \<Rightarrow> s\<lparr>ms_win := push p (ms_win s) v\<rparr>),
      lc_value = (\<lambda>s. case k of
          Wilders \<Rightarrow> lc_value (wilder_ma p) (ms_wilder s) | Exponential \<Rightarrow> lc_value (ema p) (ms_ema s)
        | LinearWeighted \<Rightarrow> weighted_mean_of (ms_win s) | Simple \<Rightarrow> mean_of (ms_win s)),
      lc_ready = enough p\<rparr>"

section \<open>Relative strength\<close>

record rsi_state =
  rs_prev :: "pyfloat option"
  rs_gains :: "(pyfloat \<times> pyfloat) list"
  rs_avg :: "(pyfloat \<times> pyfloat) option"

definition rsi_step :: "nat \<Rightarrow> nat \<Rightarrow> pyfloat \<Rightarrow> rsi_state \<Rightarrow> rsi_state" where
  "rsi_step p n v s =
     (case rs_prev s of
        None \<Rightarrow> s\<lparr>rs_prev := Some v\<rparr>
      | Some u \<Rightarrow>
          let ch = fsub v u; gain = max ch 0; loss = max (- ch) 0; s1 = s\<lparr>rs_prev := Some v\<rparr>
          in case rs_avg s of
               None \<Rightarrow>
                 let gs = rs_gains s @ [(gain, loss)]
                 in s1\<lparr>rs_gains := gs,
                      rs_avg := (if length gs = p
                        then Some (fdiv (fsum (map fst gs)) (fint (int p)), fdiv (fsum (map snd gs)) (fint (int p))) else None)\<rparr>
             | Some (ag, al) \<Rightarrow>
                 s1\<lparr>rs_avg := Some (fdiv (fadd (fmul ag (fint (int p - 1))) gain) (fint (int p)),
                                   fdiv (fadd (fmul al (fint (int p - 1))) loss) (fint (int p)))\<rparr>)"

definition rsi_value :: "rsi_state \<Rightarrow> pyfloat" where
  "rsi_value s =
     (case rs_avg s of None \<Rightarrow> 0
      | Some (ag, al) \<Rightarrow> if al = 0 then 100 else fsub 100 (fdiv 100 (fadd 1 (fdiv ag al))))"

definition rsi :: "nat \<Rightarrow> (pyfloat, rsi_state) lean_class" where
  "rsi p = \<lparr>lc_new = \<lparr>rs_prev = None, rs_gains = [], rs_avg = None\<rparr>, lc_step = rsi_step p, lc_value = rsi_value,
     lc_ready = (\<lambda>n s. rs_avg s \<noteq> None)\<rparr>"

section \<open>Composites of moving averages\<close>

definition triangular_legs :: "nat \<Rightarrow> nat \<times> nat" where
  "triangular_legs p = (if p mod 2 = 0 then (p div 2, p div 2 + 1) else ((p + 1) div 2, (p + 1) div 2))"

definition triangular :: "nat \<Rightarrow> (pyfloat, pyfloat list lean \<times> pyfloat list lean) lean_class" where
  "triangular p =
     (case triangular_legs p of (a, b) \<Rightarrow>
       \<lparr>lc_new = (lean_new (sma a), lean_new (sma b)),
        lc_step = (\<lambda>n v (i, o').
          let i' = lean_update (sma a) v i
          in (i', if lean_ready (sma a) i' then lean_update (sma b) (le_current i') o' else o')),
        lc_value = (\<lambda>(i, o'). le_current o'), lc_ready = enough p\<rparr>)"

text \<open>A stage is fed only when the stage before it is ready.\<close>

definition stage :: "nat \<Rightarrow> ema_state lean \<Rightarrow> ema_state lean \<Rightarrow> ema_state lean" where
  "stage p a b = (if lean_ready (ema p) a then lean_update (ema p) (le_current a) b else b)"

definition double_ema :: "nat \<Rightarrow> (pyfloat, ema_state lean \<times> ema_state lean) lean_class" where
  "double_ema p =
     \<lparr>lc_new = (lean_new (ema p), lean_new (ema p)),
      lc_step = (\<lambda>n v (e1, e2). let a = lean_update (ema p) v e1 in (a, stage p a e2)),
      lc_value = (\<lambda>(e1, e2). fsub (fmul 2 (le_current e1)) (le_current e2)), lc_ready = enough p\<rparr>"

definition triple_step :: "nat \<Rightarrow> pyfloat \<Rightarrow> ema_state lean \<times> ema_state lean \<times> ema_state lean
     \<Rightarrow> ema_state lean \<times> ema_state lean \<times> ema_state lean" where
  "triple_step p v s =
     (case s of (e1, e2, e3) \<Rightarrow>
        let a = lean_update (ema p) v e1; b = stage p a e2 in (a, b, stage p b e3))"

definition triple_ema :: "nat \<Rightarrow> (pyfloat, ema_state lean \<times> ema_state lean \<times> ema_state lean) lean_class" where
  "triple_ema p =
     \<lparr>lc_new = (lean_new (ema p), lean_new (ema p), lean_new (ema p)), lc_step = (\<lambda>n. triple_step p),
      lc_value = (\<lambda>(e1, e2, e3). fadd (fsub (fmul 3 (le_current e1)) (fmul 3 (le_current e2))) (le_current e3)),
      lc_ready = enough p\<rparr>"

definition hull_ma :: "nat \<Rightarrow> (pyfloat, pyfloat list lean \<times> pyfloat list lean \<times> pyfloat list lean) lean_class" where
  "hull_ma p =
     (let f = lwma (max 1 (p div 2)); s = lwma p; m = lwma (max 1 (nat (py_int (fsqrt (fint (int p))))))
      in \<lparr>lc_new = (lean_new f, lean_new s, lean_new m),
          lc_step = (\<lambda>n v (a, b, c).
            let a' = lean_update f v a; b' = lean_update s v b
            in (a', b', lean_update m (fsub (fmul 2 (le_current a')) (le_current b')) c)),
          lc_value = (\<lambda>(a, b, c). le_current c), lc_ready = enough p\<rparr>)"

definition zero_lag_ema :: "nat \<Rightarrow> (pyfloat, pyfloat list \<times> ema_state lean) lean_class" where
  "zero_lag_ema p =
     \<lparr>lc_new = ([], lean_new (ema p)),
      lc_step = (\<lambda>n v (w, e). let w' = push ((p - 1) div 2 + 1) w v in (w', lean_update (ema p) (fsub (fmul 2 v) (hd w')) e)),
      lc_value = (\<lambda>(w, e). le_current e), lc_ready = enough p\<rparr>"

type_synonym macd_state = "ma_state lean \<times> ma_state lean \<times> ma_state lean"

definition macd :: "nat \<Rightarrow> nat \<Rightarrow> nat \<Rightarrow> ma_kind \<Rightarrow> (pyfloat, macd_state) lean_class" where
  "macd fp sp gp k =
     \<lparr>lc_new = (lean_new (ma_of k fp), lean_new (ma_of k sp), lean_new (ma_of k gp)),
      lc_step = (\<lambda>n v (f, s, g).
        let f' = lean_update (ma_of k fp) v f; s' = lean_update (ma_of k sp) v s
        in (f', s', if sp \<le> n then lean_update (ma_of k gp) (fsub (le_current f') (le_current s')) g else g)),
      lc_value = (\<lambda>(f, s, g). fsub (le_current f) (le_current s)), lc_ready = enough sp\<rparr>"

definition macd_histogram :: "macd_state lean \<Rightarrow> pyfloat" where
  "macd_histogram i = (case le_state i of (f, s, g) \<Rightarrow> fsub (le_current i) (le_current g))"

type_synonym bands = "pyfloat list lean \<times> pyfloat list lean \<times> pyfloat \<times> pyfloat"

definition bollinger :: "power \<Rightarrow> nat \<Rightarrow> pyfloat \<Rightarrow> (pyfloat, bands) lean_class" where
  "bollinger pw p k =
     \<lparr>lc_new = (lean_new (sma p), lean_new (std_dev pw p), 0, 0),
      lc_step = (\<lambda>n v (m, d, u, l).
        let m' = lean_update (sma p) v m; d' = lean_update (std_dev pw p) v d
        in (m', d', fadd (le_current m') (fmul k (le_current d')), fsub (le_current m') (fmul k (le_current d')))),
      lc_value = (\<lambda>(m, d, u, l). le_current m), lc_ready = enough p\<rparr>"

type_synonym wilder_obj = "(pyfloat option \<times> pyfloat list lean) lean"

definition chande_momentum :: "nat \<Rightarrow> (pyfloat, pyfloat option \<times> wilder_obj \<times> wilder_obj) lean_class" where
  "chande_momentum p =
     \<lparr>lc_new = (None, lean_new (wilder_ma p), lean_new (wilder_ma p)),
      lc_step = (\<lambda>n v (prev, g, l).
        case prev of
          None \<Rightarrow> (Some v, g, l)
        | Some u \<Rightarrow> let d = fsub v u in (Some v, lean_update (wilder_ma p) (max d 0) g, lean_update (wilder_ma p) (max (- d) 0) l)),
      lc_value = (\<lambda>(prev, g, l). let a = le_current g; b = le_current l
        in if fadd a b = 0 then 0 else fmul (fdiv (fsub a b) (fadd a b)) 100),
      lc_ready = enough p\<rparr>"

definition trix :: "nat \<Rightarrow> (pyfloat, (ema_state lean \<times> ema_state lean \<times> ema_state lean) \<times> pyfloat option \<times> pyfloat) lean_class" where
  "trix p =
     \<lparr>lc_new = (lc_new (triple_ema p), None, 0),
      lc_step = (\<lambda>n v (es, prev, out).
        let es' = triple_step p v es; cur = le_current (snd (snd es'))
        in (es', Some cur, case prev of None \<Rightarrow> out
              | Some u \<Rightarrow> if u = 0 then out else fmul (fdiv (fsub cur u) u) 100)),
      lc_value = (\<lambda>(es, prev, out). out), lc_ready = enough p\<rparr>"

type_synonym sma_pair = "pyfloat list lean \<times> pyfloat list lean"

definition absolute_price :: "nat \<Rightarrow> nat \<Rightarrow> (pyfloat, sma_pair) lean_class" where
  "absolute_price fp sp =
     \<lparr>lc_new = (lean_new (sma fp), lean_new (sma sp)),
      lc_step = (\<lambda>n v (f, s). (lean_update (sma fp) v f, lean_update (sma sp) v s)),
      lc_value = (\<lambda>(f, s). fsub (le_current f) (le_current s)), lc_ready = enough sp\<rparr>"

definition percentage_price :: "nat \<Rightarrow> nat \<Rightarrow> (pyfloat, sma_pair) lean_class" where
  "percentage_price fp sp =
     (absolute_price fp sp)\<lparr>lc_value := (\<lambda>(f, s). let m = le_current s
        in if m = 0 then 0 else fmul (fdiv (fsub (le_current f) m) m) 100)\<rparr>"

end
