(* ===== verification/LeanBars.thy ===== *)
theory LeanBars
  imports LeanInd
begin

text \<open>
  The indicators fed whole bars: \<open>BarIndicatorBase\<close> and its subclasses in
  \<open>dqengine/runtime/indicators.py\<close>.  The input is what \<open>update_bar\<close> hands to \<open>_step_bar\<close>, with the open
  that rides on the instance; \<open>hlc\<close> is a call that gives neither volume nor open.
\<close>

section \<open>Bars\<close>

record lean_bar =
  lb_open :: pyfloat
  lb_high :: pyfloat
  lb_low :: pyfloat
  lb_close :: pyfloat
  lb_volume :: pyfloat

definition bar_args :: "pyfloat \<Rightarrow> pyfloat \<Rightarrow> pyfloat \<Rightarrow> pyfloat \<Rightarrow> pyfloat option \<Rightarrow> lean_bar" where
  "bar_args h l c v op = \<lparr>lb_open = (case op of None \<Rightarrow> c | Some x \<Rightarrow> x), lb_high = h, lb_low = l, lb_close = c, lb_volume = v\<rparr>"

definition hlc :: "lean_bar \<Rightarrow> lean_bar" where
  "hlc b = bar_args (lb_high b) (lb_low b) (lb_close b) 0 None"

definition hlcv :: "lean_bar \<Rightarrow> lean_bar" where
  "hlcv b = bar_args (lb_high b) (lb_low b) (lb_close b) (lb_volume b) None"

text \<open>\<open>update\<close> takes a bar and refuses a value.\<close>

definition bar_update :: "(lean_bar, 's) lean_class \<Rightarrow> lean_bar option \<Rightarrow> pyfloat option \<Rightarrow> 's lean \<Rightarrow> 's lean res" where
  "bar_update c bar value i =
     (case (bar, value) of (Some b, None) \<Rightarrow> Inr (lean_update c b i) | _ \<Rightarrow> Inl TypeError)"

definition bar_class :: "nat \<Rightarrow> 's \<Rightarrow> (nat \<Rightarrow> lean_bar \<Rightarrow> 's \<Rightarrow> 's) \<Rightarrow> ('s \<Rightarrow> pyfloat) \<Rightarrow> (lean_bar, 's) lean_class" where
  "bar_class p new f v = \<lparr>lc_new = new, lc_step = f, lc_value = v, lc_ready = enough p\<rparr>"

section \<open>Ranges\<close>

definition range_of_bar :: "pyfloat option \<Rightarrow> lean_bar \<Rightarrow> pyfloat" where
  "range_of_bar prev b =
     (let h = lb_high b; l = lb_low b
      in case prev of
           None \<Rightarrow> fsub h l
         | Some pc \<Rightarrow> max (max (fsub h l) \<bar>fsub h pc\<bar>) \<bar>fsub l pc\<bar>)"

record atr_state =
  at_prev :: "pyfloat option"
  at_trs :: "pyfloat list"
  at_atr :: "pyfloat option"

definition atr_step :: "nat \<Rightarrow> nat \<Rightarrow> lean_bar \<Rightarrow> atr_state \<Rightarrow> atr_state" where
  "atr_step p n b s =
     (let tr = range_of_bar (at_prev s) b; s1 = s\<lparr>at_prev := Some (lb_close b)\<rparr>
      in case at_atr s of
           None \<Rightarrow>
             let trs = at_trs s @ [tr]
             in s1\<lparr>at_trs := trs, at_atr := (if length trs = p then Some (fdiv (fsum trs) (fint (int p))) else None)\<rparr>
         | Some a \<Rightarrow> s1\<lparr>at_atr := Some (fdiv (fadd (fmul a (fint (int p - 1))) tr) (fint (int p)))\<rparr>)"

definition atr :: "nat \<Rightarrow> (lean_bar, atr_state) lean_class" where
  "atr p = \<lparr>lc_new = \<lparr>at_prev = None, at_trs = [], at_atr = None\<rparr>, lc_step = atr_step p,
     lc_value = (\<lambda>s. case at_atr s of None \<Rightarrow> 0 | Some a \<Rightarrow> a), lc_ready = (\<lambda>n s. at_atr s \<noteq> None)\<rparr>"

definition true_range_ind :: "nat \<Rightarrow> (lean_bar, pyfloat option \<times> pyfloat) lean_class" where
  "true_range_ind p = bar_class p (None, 0) (\<lambda>n b (prev, tr). (Some (lb_close b), range_of_bar prev b)) snd"

definition normalized_atr :: "nat \<Rightarrow> (lean_bar, atr_state lean \<times> pyfloat) lean_class" where
  "normalized_atr p = bar_class p (lean_new (atr p), 0)
     (\<lambda>n b (a, c). (lean_update (atr p) (hlc b) a, lb_close b))
     (\<lambda>(a, c). if c = 0 then 0 else fmul (fdiv (le_current a) c) 100)"

section \<open>Position in a range\<close>

type_synonym extremes = "pyfloat list lean \<times> pyfloat list lean"

definition extremes_new :: "nat \<Rightarrow> extremes" where
  "extremes_new p = (lean_new (maximum p), lean_new (minimum p))"

definition extremes_update :: "nat \<Rightarrow> pyfloat \<Rightarrow> pyfloat \<Rightarrow> extremes \<Rightarrow> extremes" where
  "extremes_update p h l x = (lean_update (maximum p) h (fst x), lean_update (minimum p) l (snd x))"

definition middle_of :: "extremes \<Rightarrow> pyfloat" where
  "middle_of x = fdiv (fadd (le_current (fst x)) (le_current (snd x))) 2"

definition mid_point :: "nat \<Rightarrow> (lean_bar, extremes) lean_class" where
  "mid_point p = bar_class p (extremes_new p) (\<lambda>n b. extremes_update p (lb_close b) (lb_close b)) middle_of"

definition mid_price_ind :: "nat \<Rightarrow> (lean_bar, extremes) lean_class" where
  "mid_price_ind p = bar_class p (extremes_new p) (\<lambda>n b. extremes_update p (lb_high b) (lb_low b)) middle_of"

definition internal_bar_strength :: "nat \<Rightarrow> (lean_bar, pyfloat) lean_class" where
  "internal_bar_strength p = bar_class p 0
     (\<lambda>n b _. if lb_high b = lb_low b then 1 / 2
              else fdiv (fsub (lb_close b) (lb_low b)) (fsub (lb_high b) (lb_low b))) id"

definition balance_of_power :: "nat \<Rightarrow> (lean_bar, pyfloat \<times> pyfloat option) lean_class" where
  "balance_of_power p = bar_class p (0, None)
     (\<lambda>n b (v, prev).
        let o' = (case prev of None \<Rightarrow> lb_close b | Some x \<Rightarrow> x)
        in (if lb_high b = lb_low b then 0 else fdiv (fsub (lb_close b) o') (fsub (lb_high b) (lb_low b)), Some (lb_close b))) fst"

definition williams_r :: "nat \<Rightarrow> (lean_bar, extremes \<times> pyfloat) lean_class" where
  "williams_r p = bar_class p (extremes_new p, 0)
     (\<lambda>n b (x, c). (extremes_update p (lb_high b) (lb_low b) x, lb_close b))
     (\<lambda>(x, c). let hi = le_current (fst x); lo = le_current (snd x)
        in if hi = lo then - 50 else fmul (fdiv (fsub hi c) (fsub hi lo)) (- 100))"

definition typical :: "lean_bar \<Rightarrow> pyfloat" where
  "typical b = fdiv (fadd (fadd (lb_high b) (lb_low b)) (lb_close b)) 3"

definition commodity_channel :: "nat \<Rightarrow> (lean_bar, pyfloat list) lean_class" where
  "commodity_channel p = bar_class p [] (\<lambda>n b w. push p w (typical b))
     (\<lambda>w. if w = [] then 0
          else let md = mean_abs_dev_of w
               in if md = 0 then 0 else fdiv (fsub (last w) (mean_of w)) (fmul (fl (15 / 1000)) md))"

text \<open>The fast line, which is also \<open>%K\<close>, and its average \<open>%D\<close>.\<close>

definition stochastic_k :: "pyfloat \<Rightarrow> pyfloat \<Rightarrow> pyfloat \<Rightarrow> pyfloat" where
  "stochastic_k hi lo c = (if hi = lo then 50 else fmul (fdiv (fsub c lo) (fsub hi lo)) 100)"

definition stochastic :: "nat \<Rightarrow> nat \<Rightarrow> (lean_bar, extremes \<times> pyfloat \<times> pyfloat list lean) lean_class" where
  "stochastic p dp = bar_class p (extremes_new p, 0, lean_new (sma dp))
     (\<lambda>n b (x, k, d).
        let x' = extremes_update p (lb_high b) (lb_low b) x;
            k' = stochastic_k (le_current (fst x')) (le_current (snd x')) (lb_close b)
        in (x', k', lean_update (sma dp) k' d))
     (\<lambda>(x, k, d). k)"

definition donchian :: "nat \<Rightarrow> nat option \<Rightarrow> (lean_bar, extremes) lean_class" where
  "donchian p lo_period =
     (let q = (case lo_period of None \<Rightarrow> p | Some k \<Rightarrow> if k = 0 then p else k)
      in bar_class p (lean_new (maximum p), lean_new (minimum q))
           (\<lambda>n b (hi, lo). (lean_update (maximum p) (lb_high b) hi, lean_update (minimum q) (lb_low b) lo)) middle_of)"

definition keltner :: "nat \<Rightarrow> pyfloat \<Rightarrow> (lean_bar, ema_state lean \<times> atr_state lean \<times> pyfloat \<times> pyfloat) lean_class" where
  "keltner p k = bar_class p (lean_new (ema p), lean_new (atr p), 0, 0)
     (\<lambda>n b (m, a, u, l).
        let m' = lean_update (ema p) (lb_close b) m; a' = lean_update (atr p) (hlc b) a; w = fmul k (le_current a')
        in (m', a', fadd (le_current m') w, fsub (le_current m') w))
     (\<lambda>(m, a, u, l). le_current m)"

section \<open>Directional movement\<close>

record adx_state =
  ad_prev :: "(pyfloat \<times> pyfloat \<times> pyfloat) option"
  ad_str :: pyfloat
  ad_plus :: pyfloat
  ad_minus :: pyfloat
  ad_adx :: wilder_obj
  ad_pdi :: pyfloat
  ad_ndi :: pyfloat
  ad_v :: pyfloat

definition directional_moves :: "(pyfloat \<times> pyfloat \<times> pyfloat) option \<Rightarrow> lean_bar \<Rightarrow> pyfloat \<times> pyfloat \<times> pyfloat" where
  "directional_moves prev b =
     (case prev of
        None \<Rightarrow> (0, 0, 0)
      | Some (ph, pl, pc) \<Rightarrow>
          let h = lb_high b; l = lb_low b; up = fsub h ph; down = fsub pl l
          in (max (max (fsub h l) \<bar>fsub h pc\<bar>) \<bar>fsub l pc\<bar>,
              if ph < h \<and> down \<le> up then up else 0, if l < pl \<and> up < down then down else 0))"

definition accumulate :: "nat \<Rightarrow> bool \<Rightarrow> pyfloat \<Rightarrow> pyfloat \<Rightarrow> pyfloat" where
  "accumulate p decay s x = fadd s (fsub x (if decay then fdiv s (fint (int p)) else 0))"

definition adx_step :: "nat \<Rightarrow> nat \<Rightarrow> lean_bar \<Rightarrow> adx_state \<Rightarrow> adx_state" where
  "adx_step p n b s =
     (case directional_moves (ad_prev s) b of (tr, dmp, dmn) \<Rightarrow>
        let decay = (p + 1 < n);
            str = accumulate p decay (ad_str s) tr; up = accumulate p decay (ad_plus s) dmp;
            dn = accumulate p decay (ad_minus s) dmn;
            ready = (p < n);
            pdi = (if str \<noteq> 0 \<and> ready then fdiv (fmul 100 up) str else 0);
            ndi = (if str \<noteq> 0 \<and> ready then fdiv (fmul 100 dn) str else 0);
            total = fadd pdi ndi;
            s1 = s\<lparr>ad_prev := Some (lb_high b, lb_low b, lb_close b), ad_str := str, ad_plus := up, ad_minus := dn,
                   ad_pdi := pdi, ad_ndi := ndi\<rparr>
        in if total = 0 then s1\<lparr>ad_v := 50\<rparr>
           else let a = lean_update (wilder_ma p) (fdiv (fmul 100 \<bar>fsub pdi ndi\<bar>) total) (ad_adx s)
                in s1\<lparr>ad_adx := a, ad_v := le_current a\<rparr>)"

definition adx :: "nat \<Rightarrow> (lean_bar, adx_state) lean_class" where
  "adx p = bar_class p \<lparr>ad_prev = None, ad_str = 0, ad_plus = 0, ad_minus = 0, ad_adx = lean_new (wilder_ma p),
     ad_pdi = 0, ad_ndi = 0, ad_v = 0\<rparr> (adx_step p) ad_v"

text \<open>\<open>max(range(n), key=...)\<close>: the first index of the largest.\<close>

fun index_of_best :: "(pyfloat \<Rightarrow> pyfloat \<Rightarrow> bool) \<Rightarrow> pyfloat list \<Rightarrow> nat \<Rightarrow> nat \<Rightarrow> pyfloat \<Rightarrow> nat" where
  "index_of_best better [] i k best = k"
| "index_of_best better (x # xs) i k best =
     (if better x best then index_of_best better xs (Suc i) i x else index_of_best better xs (Suc i) k best)"

definition bars_since :: "(pyfloat \<Rightarrow> pyfloat \<Rightarrow> bool) \<Rightarrow> pyfloat list \<Rightarrow> nat" where
  "bars_since better w = length w - 1 - index_of_best better (tl w) 1 0 (hd w)"

definition aroon_line :: "nat \<Rightarrow> nat \<Rightarrow> pyfloat" where
  "aroon_line p since = fdiv (fmul 100 (fint (int p - int since))) (fint (int p))"

definition aroon :: "nat \<Rightarrow> nat option \<Rightarrow> (lean_bar, pyfloat list \<times> pyfloat list \<times> pyfloat \<times> pyfloat) lean_class" where
  "aroon p down =
     (let q = (case down of None \<Rightarrow> p | Some k \<Rightarrow> if k = 0 then p else k)
      in bar_class p ([], [], 0, 0)
           (\<lambda>n b (hs, ls, u, d).
              let hs' = push (p + 1) hs (lb_high b); ls' = push (q + 1) ls (lb_low b)
              in (hs', ls', aroon_line p (bars_since (\<lambda>x y. y < x) hs'), aroon_line p (bars_since (<) ls')))
           (\<lambda>(hs, ls, u, d). fsub u d))"

section \<open>Volume\<close>

definition on_balance_volume :: "(lean_bar, pyfloat option \<times> pyfloat) lean_class" where
  "on_balance_volume =
     \<lparr>lc_new = (None, 0),
      lc_step = (\<lambda>n b (prev, obv). (Some (lb_close b),
        case prev of None \<Rightarrow> lb_volume b
        | Some u \<Rightarrow> if u < lb_close b then fadd obv (lb_volume b) else if lb_close b < u then fsub obv (lb_volume b) else obv)),
      lc_value = snd, lc_ready = enough 2\<rparr>"

definition money_flow_multiplier :: "lean_bar \<Rightarrow> pyfloat" where
  "money_flow_multiplier b =
     fmul (fdiv (fsub (fsub (lb_close b) (lb_low b)) (fsub (lb_high b) (lb_close b))) (fsub (lb_high b) (lb_low b))) (lb_volume b)"

definition accumulation_distribution :: "(lean_bar, pyfloat) lean_class" where
  "accumulation_distribution =
     bar_class 1 0 (\<lambda>n b ad. if lb_high b = lb_low b then ad else fadd ad (money_flow_multiplier b)) id"

definition money_flow_index :: "nat \<Rightarrow> (lean_bar, pyfloat option \<times> pyfloat list \<times> pyfloat list) lean_class" where
  "money_flow_index p = bar_class p (None, [], [])
     (\<lambda>n b (prev, ps, ns).
        let tp = typical b; flow = fmul tp (lb_volume b)
        in case prev of
             None \<Rightarrow> (Some tp, ps, ns)
           | Some u \<Rightarrow> (Some tp, push p ps (if u < tp then flow else 0), push p ns (if tp < u then flow else 0)))
     (\<lambda>(prev, ps, ns). let a = fsum ps; z = fsum ns
        in if z = 0 then (if a \<noteq> 0 then 100 else 50) else fsub 100 (fdiv 100 (fadd 1 (fdiv a z))))"

definition weighted_by_volume :: "pyfloat list \<times> pyfloat list \<Rightarrow> pyfloat" where
  "weighted_by_volume s = (case s of (pv, v) \<Rightarrow> let tv = fsum v in if tv = 0 then 0 else fdiv (fsum pv) tv)"

definition chaikin_money_flow :: "nat \<Rightarrow> (lean_bar, pyfloat list \<times> pyfloat list) lean_class" where
  "chaikin_money_flow p = bar_class p ([], [])
     (\<lambda>n b (m, v). (push p m (if lb_high b = lb_low b then 0 else money_flow_multiplier b), push p v (lb_volume b)))
     weighted_by_volume"

definition vwap :: "nat \<Rightarrow> (lean_bar, pyfloat list \<times> pyfloat list) lean_class" where
  "vwap p = bar_class p ([], [])
     (\<lambda>n b (m, v). (push (max 1 p) m (fmul (typical b) (lb_volume b)), push (max 1 p) v (lb_volume b))) weighted_by_volume"

definition vwma :: "nat \<Rightarrow> (lean_bar, pyfloat list \<times> pyfloat list) lean_class" where
  "vwma p = bar_class p ([], [])
     (\<lambda>n b (m, v). (push p m (fmul (lb_close b) (lb_volume b)), push p v (lb_volume b))) weighted_by_volume"

section \<open>Parabolic stop and reverse\<close>

record sar_state =
  sa_long :: bool
  sa_now :: "(pyfloat \<times> pyfloat \<times> pyfloat) option"
  sa_highs :: "pyfloat list"
  sa_lows :: "pyfloat list"

text \<open>\<open>sa_now\<close> is \<open>_sar\<close>, \<open>_ep\<close> and \<open>_af\<close>, which are set together.\<close>

definition sar_run :: "pyfloat \<times> pyfloat \<times> pyfloat \<Rightarrow> lean_bar \<Rightarrow> sar_state \<Rightarrow> bool \<times> pyfloat \<times> pyfloat \<times> pyfloat" where
  "sar_run fs b s =
     (case (fs, sa_now s) of
        ((af0, afi, afm), Some (sar, ep, af)) \<Rightarrow>
          let moved = fadd sar (fmul af (fsub ep sar)); h = lb_high b; l = lb_low b
          in if sa_long s
             then let r = fmin (moved # sa_lows s)
                  in if l < r then (False, ep, l, af0)
                     else if ep < h then (True, r, h, min (fadd af afi) afm) else (True, r, ep, af)
             else let r = fmax (moved # sa_highs s)
                  in if r < h then (True, ep, h, af0)
                     else if l < ep then (False, r, l, min (fadd af afi) afm) else (False, r, ep, af)
      | _ \<Rightarrow> (sa_long s, 0, 0, 0))"

definition sar_step :: "pyfloat \<times> pyfloat \<times> pyfloat \<Rightarrow> nat \<Rightarrow> lean_bar \<Rightarrow> sar_state \<Rightarrow> sar_state" where
  "sar_step fs n b s =
     (let s1 = s\<lparr>sa_highs := push 2 (sa_highs s) (lb_high b), sa_lows := push 2 (sa_lows s) (lb_low b)\<rparr>
      in case sa_now s of
           None \<Rightarrow>
             if sa_highs s = [] then s1
             else let up = (last (sa_highs s) \<le> lb_close b)
                  in s1\<lparr>sa_long := up,
                       sa_now := Some (if up then last (sa_lows s) else last (sa_highs s), if up then lb_high b else lb_low b, fst fs)\<rparr>
         | Some _ \<Rightarrow> (case sar_run fs b s of (up, sar, ep, af) \<Rightarrow> s1\<lparr>sa_long := up, sa_now := Some (sar, ep, af)\<rparr>))"

definition parabolic_sar :: "pyfloat \<Rightarrow> pyfloat \<Rightarrow> pyfloat \<Rightarrow> (lean_bar, sar_state) lean_class" where
  "parabolic_sar af0 afi afm = bar_class 2 \<lparr>sa_long = True, sa_now = None, sa_highs = [], sa_lows = []\<rparr>
     (sar_step (af0, afi, afm)) (\<lambda>s. case sa_now s of None \<Rightarrow> 0 | Some (sar, _) \<Rightarrow> sar)"

end
