(* ===== verification/LeanMore.thy ===== *)
theory LeanMore
  imports LeanBars
begin

text \<open>
  The later indicators of \<open>dqengine/runtime/indicators.py\<close> and its indicators of two symbols.  \<open>lg\<close> is the
  logarithm of \<open>math\<close>, a parameter like \<open>pw\<close>.  Left out are the ones built on exponentials, hyperbolic
  tangents and normal quantiles.
\<close>

section \<open>Adaptive averages\<close>

definition efficiency_of :: "pyfloat list \<Rightarrow> pyfloat" where
  "efficiency_of w =
     (if length w < 2 then 0
      else let noise = fsum (map2 (\<lambda>x y. \<bar>fsub x y\<bar>) (tl w) w)
           in if noise = 0 then 0 else fdiv \<bar>fsub (last w) (hd w)\<bar> noise)"

definition efficiency_ratio :: "nat \<Rightarrow> (pyfloat, pyfloat list) lean_class" where
  "efficiency_ratio p = windowed (p + 1) p efficiency_of"

definition kama :: "power \<Rightarrow> nat \<Rightarrow> nat \<Rightarrow> nat \<Rightarrow> (pyfloat, pyfloat list lean \<times> pyfloat option) lean_class" where
  "kama pw p fp sp =
     (let fast = fdiv 2 (fint (int fp + 1)); slow = fdiv 2 (fint (int sp + 1))
      in \<lparr>lc_new = (lean_new (efficiency_ratio p), None),
          lc_step = (\<lambda>n v (er, k).
            let er' = lean_update (efficiency_ratio p) v er;
                sc = pw (fadd (fmul (le_current er') (fsub fast slow)) slow) 2
            in (er', if n < p + 1 then Some v else map_option (\<lambda>x. fadd x (fmul sc (fsub v x))) k)),
          lc_value = (\<lambda>(er, k). case k of None \<Rightarrow> 0 | Some x \<Rightarrow> x), lc_ready = enough p\<rparr>)"

fun t3_feed :: "nat \<Rightarrow> pyfloat \<Rightarrow> ema_state lean list \<Rightarrow> ema_state lean list" where
  "t3_feed p x [] = []"
| "t3_feed p x (e # es) =
     (let e' = lean_update (ema p) x e
      in e' # (if lean_ready (ema p) e' then t3_feed p (le_current e') es else es))"

definition t3_value :: "power \<Rightarrow> pyfloat \<Rightarrow> ema_state lean list \<Rightarrow> pyfloat" where
  "t3_value pw a es =
     (let q = pw a 2; r = pw a 3; c1 = - r; c2 = fadd (fmul 3 q) (fmul 3 r);
          c3 = fsub (fsub (fmul (- 6) q) (fmul 3 a)) (fmul 3 r);
          c4 = fadd (fadd (fadd 1 (fmul 3 a)) r) (fmul 3 q);
          e = (\<lambda>k. le_current (es ! k))
      in fadd (fadd (fadd (fmul c1 (e 5)) (fmul c2 (e 4))) (fmul c3 (e 3))) (fmul c4 (e 2)))"

definition t3 :: "power \<Rightarrow> nat \<Rightarrow> pyfloat \<Rightarrow> (pyfloat, ema_state lean list) lean_class" where
  "t3 pw p a = \<lparr>lc_new = replicate 6 (lean_new (ema p)), lc_step = (\<lambda>n. t3_feed p), lc_value = t3_value pw a, lc_ready = enough p\<rparr>"

definition mcginley :: "power \<Rightarrow> nat \<Rightarrow> (pyfloat, pyfloat list lean \<times> pyfloat option) lean_class" where
  "mcginley pw p =
     \<lparr>lc_new = (lean_new (sma p), None),
      lc_step = (\<lambda>n v (seed, md).
        let seed' = lean_update (sma p) v seed
        in (seed', case md of
              None \<Rightarrow> if p \<le> n then Some (le_current seed') else None
            | Some m \<Rightarrow>
                if m = 0 then Some v
                else let denom = fmul (fint (int p)) (pw (fdiv v m) 4)
                     in Some (fadd m (if denom \<noteq> 0 then fdiv (fsub v m) denom else 0)))),
      lc_value = (\<lambda>(seed, md). case md of None \<Rightarrow> 0 | Some m \<Rightarrow> m), lc_ready = enough p\<rparr>"

definition vidya :: "nat \<Rightarrow> (pyfloat, (pyfloat option \<times> wilder_obj \<times> wilder_obj) lean \<times> pyfloat option) lean_class" where
  "vidya p =
     \<lparr>lc_new = (lean_new (chande_momentum p), None),
      lc_step = (\<lambda>n x (c, v).
        let c' = lean_update (chande_momentum p) x c; k = fdiv \<bar>le_current c'\<bar> 100
        in (c', Some (case v of None \<Rightarrow> x
              | Some u \<Rightarrow> fadd u (fmul (fmul (fdiv 2 (fint (int p + 1))) k) (fsub x u))))),
      lc_value = (\<lambda>(c, v). case v of None \<Rightarrow> 0 | Some x \<Rightarrow> x), lc_ready = enough p\<rparr>"

section \<open>Least squares\<close>

definition fit_of :: "power \<Rightarrow> pyfloat list \<Rightarrow> pyfloat \<times> pyfloat" where
  "fit_of pw w =
     (let n = length w
      in if n < 2 then (0, if w = [] then 0 else last w)
         else let xs = map (\<lambda>i. fint (int i)) [0..<n]; mx = fdiv (fint (int n - 1)) 2; my = fdiv (fsum w) (fint (int n));
                  sxy = fsum (map2 (\<lambda>x y. fmul (fsub x mx) (fsub y my)) xs w);
                  sxx = fsum (map (\<lambda>x. pw (fsub x mx) 2) xs);
                  slope = (if sxx \<noteq> 0 then fdiv sxy sxx else 0)
              in (slope, fadd my (fmul slope (fsub (fint (int n - 1)) mx))))"

definition least_squares :: "power \<Rightarrow> nat \<Rightarrow> (pyfloat, pyfloat list) lean_class" where
  "least_squares pw p = windowed p p (\<lambda>w. snd (fit_of pw w))"

definition time_series_forecast :: "power \<Rightarrow> nat \<Rightarrow> (pyfloat, pyfloat list) lean_class" where
  "time_series_forecast pw p = windowed p p (\<lambda>w. case fit_of pw w of (slope, e) \<Rightarrow> fadd e slope)"

definition residual_sd :: "power \<Rightarrow> pyfloat list \<Rightarrow> pyfloat" where
  "residual_sd pw w =
     (let n = length w
      in if n < 2 then 0
         else let slope = fst (fit_of pw w); mx = fdiv (fint (int n - 1)) 2; my = fdiv (fsum w) (fint (int n));
                  resid = map2 (\<lambda>x y. fsub y (fadd my (fmul slope (fsub (fint (int x)) mx)))) [0..<n] w;
                  m = fdiv (fsum resid) (fint (int n))
              in pw (fdiv (fsum (map (\<lambda>r. pw (fsub r m) 2) resid)) (fint (int n))) (1 / 2))"

text \<open>The channel around the line; its value is the line.\<close>

definition upper_channel :: "power \<Rightarrow> pyfloat \<Rightarrow> pyfloat list \<Rightarrow> pyfloat" where
  "upper_channel pw k w = fadd (snd (fit_of pw w)) (fmul k (residual_sd pw w))"

definition lower_channel :: "power \<Rightarrow> pyfloat \<Rightarrow> pyfloat list \<Rightarrow> pyfloat" where
  "lower_channel pw k w = fsub (snd (fit_of pw w)) (fmul k (residual_sd pw w))"

section \<open>Momentum\<close>

definition detrended_price :: "nat \<Rightarrow> (pyfloat, pyfloat list lean \<times> pyfloat list \<times> pyfloat) lean_class" where
  "detrended_price p =
     (let lag = p div 2 + 1
      in \<lparr>lc_new = (lean_new (sma p), [], 0),
          lc_step = (\<lambda>n v (m, ps, out).
            let m' = lean_update (sma p) v m; ps' = push (lag + 1) ps v
            in (m', ps', if lag < length ps' then fsub (hd ps') (le_current m') else out)),
          lc_value = (\<lambda>(m, ps, out). out), lc_ready = enough p\<rparr>)"

definition momersion_of :: "pyfloat list \<Rightarrow> pyfloat" where
  "momersion_of w =
     (let pairs = filter (\<lambda>(a, b). a \<noteq> 0 \<and> b \<noteq> 0) (zip w (tl w));
          same = length (filter (\<lambda>(a, b). (0 < a) = (0 < b)) pairs)
      in if pairs = [] then 0 else fmul (fdiv (fint (int same)) (fint (int (length pairs)))) 100)"

definition momersion :: "nat \<Rightarrow> nat option \<Rightarrow> (pyfloat, pyfloat option \<times> pyfloat list) lean_class" where
  "momersion mn full =
     (let p = (case full of None \<Rightarrow> mn | Some k \<Rightarrow> if k = 0 then mn else k)
      in \<lparr>lc_new = (None, []),
          lc_step = (\<lambda>n v (prev, w). (Some v, case prev of None \<Rightarrow> w | Some u \<Rightarrow> push (p + 1) w (fsub v u))),
          lc_value = (\<lambda>(prev, w). momersion_of w), lc_ready = enough p\<rparr>)"

definition coppock :: "nat \<Rightarrow> nat \<Rightarrow> nat \<Rightarrow> (pyfloat, pyfloat list lean \<times> pyfloat list lean \<times> pyfloat list lean) lean_class" where
  "coppock sp lp wp =
     \<lparr>lc_new = (lean_new (rate_of_change_percent sp), lean_new (rate_of_change_percent lp), lean_new (lwma wp)),
      lc_step = (\<lambda>n v (s, l, w).
        let s' = lean_update (rate_of_change_percent sp) v s; l' = lean_update (rate_of_change_percent lp) v l
        in (s', l', lean_update (lwma wp) (fadd (le_current s') (le_current l')) w)),
      lc_value = (\<lambda>(s, l, w). le_current w), lc_ready = enough wp\<rparr>"

record tsi_state =
  ts_prev :: "pyfloat option"
  ts_m1 :: "ema_state lean"
  ts_m2 :: "ema_state lean"
  ts_a1 :: "ema_state lean"
  ts_a2 :: "ema_state lean"
  ts_signal :: "ema_state lean"

definition tsi_value :: "tsi_state \<Rightarrow> pyfloat" where
  "tsi_value s = (let a = le_current (ts_a2 s) in if a = 0 then 0 else fdiv (fmul 100 (le_current (ts_m2 s))) a)"

definition tsi_step :: "nat \<Rightarrow> nat \<Rightarrow> nat \<Rightarrow> nat \<Rightarrow> pyfloat \<Rightarrow> tsi_state \<Rightarrow> tsi_state" where
  "tsi_step lp sp gp n v s =
     (case ts_prev s of
        None \<Rightarrow> s\<lparr>ts_prev := Some v\<rparr>
      | Some u \<Rightarrow>
          let d = fsub v u; m1 = lean_update (ema lp) d (ts_m1 s); m2 = lean_update (ema sp) (le_current m1) (ts_m2 s);
              a1 = lean_update (ema lp) \<bar>d\<bar> (ts_a1 s); a2 = lean_update (ema sp) (le_current a1) (ts_a2 s);
              s1 = s\<lparr>ts_prev := Some v, ts_m1 := m1, ts_m2 := m2, ts_a1 := a1, ts_a2 := a2\<rparr>
          in s1\<lparr>ts_signal := lean_update (ema gp) (tsi_value s1) (ts_signal s)\<rparr>)"

definition true_strength :: "nat \<Rightarrow> nat \<Rightarrow> nat \<Rightarrow> (pyfloat, tsi_state) lean_class" where
  "true_strength lp sp gp =
     \<lparr>lc_new = \<lparr>ts_prev = None, ts_m1 = lean_new (ema lp), ts_m2 = lean_new (ema sp), ts_a1 = lean_new (ema lp),
        ts_a2 = lean_new (ema sp), ts_signal = lean_new (ema gp)\<rparr>,
      lc_step = tsi_step lp sp gp, lc_value = tsi_value, lc_ready = enough lp\<rparr>"

record connors_state =
  cn_rsi :: "rsi_state lean"
  cn_streak_rsi :: "rsi_state lean"
  cn_returns :: "pyfloat list"
  cn_prev :: "pyfloat option"
  cn_streak :: int

definition streak_after :: "pyfloat \<Rightarrow> pyfloat \<Rightarrow> int \<Rightarrow> int" where
  "streak_after u v k =
     (if u < v then (if 0 < k then k + 1 else 1) else if v < u then (if k < 0 then k - 1 else - 1) else 0)"

definition connors_step :: "nat \<Rightarrow> nat \<Rightarrow> nat \<Rightarrow> nat \<Rightarrow> pyfloat \<Rightarrow> connors_state \<Rightarrow> connors_state" where
  "connors_step rp sp lb n v s =
     (let s1 = s\<lparr>cn_rsi := lean_update (rsi rp) v (cn_rsi s), cn_prev := Some v\<rparr>
      in case cn_prev s of
           None \<Rightarrow> s1
         | Some u \<Rightarrow>
             let k = streak_after u v (cn_streak s)
             in s1\<lparr>cn_streak := k, cn_streak_rsi := lean_update (rsi sp) (fint k) (cn_streak_rsi s),
                  cn_returns := push lb (cn_returns s) (if u \<noteq> 0 then fdiv (fsub v u) u else 0)\<rparr>)"

definition connors_value :: "connors_state \<Rightarrow> pyfloat" where
  "connors_value s =
     (let w = cn_returns s
      in if length w < 2 then 0
         else let pct = fdiv (fmul 100 (fint (int (length (filter (\<lambda>r. r \<le> last w) w))))) (fint (int (length w)))
              in fdiv (fadd (fadd (le_current (cn_rsi s)) (le_current (cn_streak_rsi s))) pct) 3)"

definition connors_rsi :: "nat \<Rightarrow> nat \<Rightarrow> nat \<Rightarrow> (pyfloat, connors_state) lean_class" where
  "connors_rsi rp sp lb =
     \<lparr>lc_new = \<lparr>cn_rsi = lean_new (rsi rp), cn_streak_rsi = lean_new (rsi sp), cn_returns = [], cn_prev = None, cn_streak = 0\<rparr>,
      lc_step = connors_step rp sp lb, lc_value = connors_value, lc_ready = enough (max (max rp sp) lb)\<rparr>"

type_synonym stoch_rsi_state = "rsi_state lean \<times> pyfloat list \<times> pyfloat list lean \<times> pyfloat list lean"

definition stochastic_rsi :: "nat \<Rightarrow> nat \<Rightarrow> nat \<Rightarrow> nat \<Rightarrow> (pyfloat, stoch_rsi_state) lean_class" where
  "stochastic_rsi rp sp kp dp =
     \<lparr>lc_new = (lean_new (rsi rp), [], lean_new (sma kp), lean_new (sma dp)),
      lc_step = (\<lambda>n v (r, w, k, d).
        let r' = lean_update (rsi rp) v r; w' = push sp w (le_current r'); hi = fmax w'; lo = fmin w';
            raw = (if hi = lo then 0 else fmul (fdiv (fsub (le_current r') lo) (fsub hi lo)) 100);
            k' = lean_update (sma kp) raw k
        in (r', w', k', lean_update (sma dp) (le_current k') d)),
      lc_value = (\<lambda>(r, w, k, d). le_current k), lc_ready = enough (max rp sp)\<rparr>"

type_synonym kst_leg = "pyfloat list lean \<times> pyfloat list lean"

definition kst_value :: "kst_leg list \<Rightarrow> pyfloat" where
  "kst_value legs = fsum (map2 (\<lambda>l k. fmul (le_current (snd l)) (fint (int k))) legs [1..<5])"

definition kst_leg_step :: "pyfloat \<Rightarrow> nat \<times> nat \<Rightarrow> kst_leg \<Rightarrow> kst_leg" where
  "kst_leg_step v ps l =
     (let r = lean_update (rate_of_change_percent (fst ps)) v (fst l) in (r, lean_update (sma (snd ps)) (le_current r) (snd l)))"

text \<open>\<open>ps\<close> are the four pairs of a rate and a smoothing period.\<close>

definition know_sure_thing :: "(nat \<times> nat) list \<Rightarrow> nat \<Rightarrow> (pyfloat, kst_leg list \<times> pyfloat list lean) lean_class" where
  "know_sure_thing ps gp =
     \<lparr>lc_new = (map (\<lambda>(r, s). (lean_new (rate_of_change_percent r), lean_new (sma s))) ps, lean_new (sma gp)),
      lc_step = (\<lambda>n v (legs, g). let legs' = map2 (kst_leg_step v) ps legs in (legs', lean_update (sma gp) (kst_value legs') g)),
      lc_value = (\<lambda>(legs, g). kst_value legs), lc_ready = enough (fst (last ps))\<rparr>"

definition derivative_oscillator ::
  "nat \<Rightarrow> nat \<Rightarrow> nat \<Rightarrow> nat \<Rightarrow> (pyfloat, rsi_state lean \<times> ema_state lean \<times> ema_state lean \<times> pyfloat list lean \<times> pyfloat) lean_class" where
  "derivative_oscillator rp s1 s2 gp =
     \<lparr>lc_new = (lean_new (rsi rp), lean_new (ema s1), lean_new (ema s2), lean_new (sma gp), 0),
      lc_step = (\<lambda>n v (r, a, b, g, out).
        let r' = lean_update (rsi rp) v r; a' = lean_update (ema s1) (le_current r') a;
            b' = lean_update (ema s2) (le_current a') b; g' = lean_update (sma gp) (le_current b') g
        in (r', a', b', g', fsub (le_current b') (le_current g'))),
      lc_value = (\<lambda>(r, a, b, g, out). out), lc_ready = enough rp\<rparr>"

definition stoch_of :: "pyfloat \<Rightarrow> pyfloat \<Rightarrow> pyfloat \<Rightarrow> pyfloat" where
  "stoch_of v hi lo = (if 0 < fsub hi lo then fmul (fdiv (fsub v lo) (fsub hi lo)) 100 else 0)"

type_synonym schaff_state = "macd_state lean \<times> pyfloat list \<times> ma_state lean \<times> pyfloat list \<times> ma_state lean"

text \<open>The windows of the maximum and of the minimum hold the same values.\<close>

definition schaff :: "nat \<Rightarrow> nat \<Rightarrow> nat \<Rightarrow> ma_kind \<Rightarrow> (pyfloat, schaff_state) lean_class" where
  "schaff cp fp sp k =
     \<lparr>lc_new = (lean_new (macd fp sp cp k), [], lean_new (ma_of k 3), [], lean_new (ma_of k 3)),
      lc_step = (\<lambda>n v (m, w, d, wd, pff).
        let m' = lean_update (macd fp sp cp k) v m; w' = push cp w (le_current m');
            d' = lean_update (ma_of k 3) (stoch_of (le_current m') (fmax w') (fmin w')) d;
            wd' = push cp wd (le_current d')
        in (m', w', d', wd', lean_update (ma_of k 3) (stoch_of (le_current d') (fmax wd') (fmin wd')) pff)),
      lc_value = (\<lambda>(m, w, d, wd, pff). le_current pff), lc_ready = enough cp\<rparr>"

section \<open>Statistics of returns\<close>

definition downside_of :: "power \<Rightarrow> pyfloat \<Rightarrow> pyfloat list \<Rightarrow> pyfloat" where
  "downside_of pw mar w =
     (if w = [] then 0
      else pw (fdiv (fsum (map (\<lambda>x. pw (min 0 (fsub x mar)) 2) w)) (fint (int (length w)))) (1 / 2))"

definition target_downside :: "power \<Rightarrow> nat \<Rightarrow> pyfloat \<Rightarrow> (pyfloat, pyfloat list lean \<times> pyfloat list) lean_class" where
  "target_downside pw p mar =
     \<lparr>lc_new = (lean_new (rate_of_change 1), []),
      lc_step = (\<lambda>n v (r, w). let r' = lean_update (rate_of_change 1) v r in (r', push p w (le_current r'))),
      lc_value = (\<lambda>(r, w). downside_of pw mar w), lc_ready = enough p\<rparr>"

definition sharpe :: "power \<Rightarrow> nat \<Rightarrow> pyfloat \<Rightarrow> (pyfloat, pyfloat list lean \<times> pyfloat list lean \<times> pyfloat list lean) lean_class" where
  "sharpe pw p rf =
     \<lparr>lc_new = (lean_new (rate_of_change 1), lean_new (sma p), lean_new (std_dev pw p)),
      lc_step = (\<lambda>n v (r, m, d).
        let r' = lean_update (rate_of_change 1) v r
        in (r', lean_update (sma p) (le_current r') m, lean_update (std_dev pw p) (le_current r') d)),
      lc_value = (\<lambda>(r, m, d). if le_current d = 0 then 0 else fdiv (fsub (le_current m) rf) (le_current d)),
      lc_ready = enough p\<rparr>"

definition relative_ma :: "nat \<Rightarrow> (pyfloat, pyfloat list lean \<times> pyfloat list lean \<times> pyfloat list lean) lean_class" where
  "relative_ma p =
     \<lparr>lc_new = (lean_new (sma p), lean_new (sma (p * 2)), lean_new (sma (p * 3))),
      lc_step = (\<lambda>n v (s, m, l). (lean_update (sma p) v s, lean_update (sma (p * 2)) v m, lean_update (sma (p * 3)) v l)),
      lc_value = (\<lambda>(s, m, l). fadd (fsub (le_current l) (le_current m)) (le_current s)), lc_ready = enough p\<rparr>"

end
