(* ===== verification/LeanWave.thy ===== *)
theory LeanWave
  imports LeanMore
begin

text \<open>
  The later bar-fed indicators of \<open>dqengine/runtime/indicators.py\<close> and the indicators of two symbols
  (\<open>DualSymbolIndicator\<close> and its subclasses).
\<close>

section \<open>Bars through moving averages\<close>

definition average_range :: "nat \<Rightarrow> (lean_bar, pyfloat list lean) lean_class" where
  "average_range p = bar_class p (lean_new (sma p)) (\<lambda>n b. lean_update (sma p) (fsub (lb_high b) (lb_low b))) le_current"

definition smoothed_obv :: "nat \<Rightarrow> (lean_bar, (pyfloat option \<times> pyfloat) lean \<times> pyfloat list lean) lean_class" where
  "smoothed_obv p = bar_class p (lean_new on_balance_volume, lean_new (sma p))
     (\<lambda>n b (o', m). let o1 = lean_update on_balance_volume (hlcv b) o' in (o1, lean_update (sma p) (le_current o1) m))
     (\<lambda>(o', m). le_current m)"

definition choppiness ::
  "(pyfloat \<Rightarrow> pyfloat) \<Rightarrow> nat \<Rightarrow> (lean_bar, (pyfloat option \<times> pyfloat) lean \<times> pyfloat list \<times> pyfloat list \<times> pyfloat list) lean_class" where
  "choppiness lg10 p = bar_class p (lean_new (true_range_ind 1), [], [], [])
     (\<lambda>n b (t, ts, hs, ls). let t' = lean_update (true_range_ind 1) (hlc b) t
        in (t', push p ts (le_current t'), push p hs (lb_high b), push p ls (lb_low b)))
     (\<lambda>(t, ts, hs, ls).
        if length ts < 2 then 0
        else let rng = fsub (fmax hs) (fmin ls)
             in if rng \<le> 0 \<or> fsum ts \<le> 0 then 0
                else fdiv (fmul 100 (lg10 (fdiv (fsum ts) rng))) (lg10 (fint (int p))))"

definition mass_index :: "nat \<Rightarrow> nat \<Rightarrow> (lean_bar, ema_state lean \<times> ema_state lean \<times> pyfloat list) lean_class" where
  "mass_index ep sp = bar_class sp (lean_new (ema ep), lean_new (ema ep), [])
     (\<lambda>n b (e1, e2, w).
        let a = lean_update (ema ep) (fsub (lb_high b) (lb_low b)) e1; c = stage ep a e2
        in (a, c, if le_current c \<noteq> 0 then push sp w (fdiv (le_current a) (le_current c)) else w))
     (\<lambda>(e1, e2, w). fsum w)"

definition ease_of_movement :: "nat \<Rightarrow> pyfloat \<Rightarrow> (lean_bar, pyfloat option \<times> pyfloat list lean) lean_class" where
  "ease_of_movement p scale = bar_class p (None, lean_new (sma p))
     (\<lambda>n b (prev, m).
        let mid = fdiv (fadd (lb_high b) (lb_low b)) 2; rng = fsub (lb_high b) (lb_low b)
        in (Some mid,
            case prev of None \<Rightarrow> m
            | Some u \<Rightarrow>
                if 0 < rng \<and> 0 < lb_volume b
                then let box = fdiv (fdiv (lb_volume b) scale) rng
                     in lean_update (sma p) (if box \<noteq> 0 then fdiv (fsub mid u) box else 0) m
                else m))
     (\<lambda>(prev, m). le_current m)"

definition force_index :: "nat \<Rightarrow> (lean_bar, pyfloat option \<times> ema_state lean) lean_class" where
  "force_index p = bar_class p (None, lean_new (ema p))
     (\<lambda>n b (prev, e). (Some (lb_close b),
        case prev of None \<Rightarrow> e | Some u \<Rightarrow> lean_update (ema p) (fmul (fsub (lb_close b) u) (lb_volume b)) e))
     (\<lambda>(prev, e). le_current e)"

definition buying_pressure :: "nat \<Rightarrow> pyfloat list \<times> pyfloat list \<Rightarrow> pyfloat" where
  "buying_pressure n s =
     (case s of (bp, tr) \<Rightarrow>
        if length tr < n then 0
        else let t = fsum (last_n n tr) in if t = 0 then 0 else fdiv (fsum (last_n n bp)) t)"

definition ultimate :: "nat \<Rightarrow> nat \<Rightarrow> nat \<Rightarrow> (lean_bar, pyfloat option \<times> pyfloat list \<times> pyfloat list) lean_class" where
  "ultimate p1 p2 p3 = bar_class p3 (None, [], [])
     (\<lambda>n b (prev, bp, tr).
        (Some (lb_close b),
         case prev of None \<Rightarrow> (bp, tr)
         | Some u \<Rightarrow> let tl' = min (lb_low b) u
             in (push p3 bp (fsub (lb_close b) tl'), push p3 tr (fsub (max (lb_high b) u) tl'))))
     (\<lambda>(prev, s). fdiv (fmul 100 (fadd (fadd (fmul 4 (buying_pressure p1 s)) (fmul 2 (buying_pressure p2 s))) (buying_pressure p3 s))) 7)"

definition de_marker :: "nat \<Rightarrow> (lean_bar, (pyfloat \<times> pyfloat) option \<times> pyfloat list lean \<times> pyfloat list lean) lean_class" where
  "de_marker p = bar_class p (None, lean_new (sma p), lean_new (sma p))
     (\<lambda>n b (prev, mx, mn).
        (Some (lb_high b, lb_low b),
         case prev of None \<Rightarrow> (mx, mn)
         | Some (ph, pl) \<Rightarrow> (lean_update (sma p) (max (fsub (lb_high b) ph) 0) mx, lean_update (sma p) (max (fsub pl (lb_low b)) 0) mn)))
     (\<lambda>(prev, mx, mn). let tot = fadd (le_current mx) (le_current mn) in if tot = 0 then 0 else fdiv (le_current mx) tot)"

definition awesome :: "nat \<Rightarrow> nat \<Rightarrow> (lean_bar, sma_pair) lean_class" where
  "awesome fp sp = bar_class sp (lean_new (sma fp), lean_new (sma sp))
     (\<lambda>n b (f, s). let mid = fdiv (fadd (lb_high b) (lb_low b)) 2 in (lean_update (sma fp) mid f, lean_update (sma sp) mid s))
     (\<lambda>(f, s). fsub (le_current f) (le_current s))"

definition rogers_satchell :: "(pyfloat \<Rightarrow> pyfloat) \<Rightarrow> nat \<Rightarrow> (lean_bar, pyfloat list) lean_class" where
  "rogers_satchell lg p = bar_class p []
     (\<lambda>n b w. let h = lb_high b; l = lb_low b; c = lb_close b; op = lb_open b
        in if min (min (min h l) c) op \<le> 0 then w
           else push p w (fadd (fmul (lg (fdiv h c)) (lg (fdiv h op))) (fmul (lg (fdiv l c)) (lg (fdiv l op)))))
     (\<lambda>w. if w = [] then 0 else let m = mean_of w in if 0 < m then fsqrt m else 0)"

text \<open>\<open>ChaikinOscillator\<close> is the same class under another name.\<close>

definition ad_oscillator :: "nat \<Rightarrow> nat \<Rightarrow> (lean_bar, pyfloat lean \<times> ema_state lean \<times> ema_state lean) lean_class" where
  "ad_oscillator fp sp = bar_class sp (lean_new accumulation_distribution, lean_new (ema fp), lean_new (ema sp))
     (\<lambda>n b (a, f, s). let a' = lean_update accumulation_distribution (hlcv b) a
        in (a', lean_update (ema fp) (le_current a') f, lean_update (ema sp) (le_current a') s))
     (\<lambda>(a, f, s). fsub (le_current f) (le_current s))"

definition adx_rating :: "nat \<Rightarrow> (lean_bar, adx_state lean \<times> pyfloat list) lean_class" where
  "adx_rating p =
     (let lag = max 1 (p - 1)
      in bar_class p (lean_new (adx p), [])
           (\<lambda>n b (a, w). let a' = lean_update (adx p) (hlcv b) a in (a', push (lag + 1) w (le_current a')))
           (\<lambda>(a, w). if length w \<le> lag then le_current a else fdiv (fadd (le_current a) (hd w)) 2))"

section \<open>Candles, bands and stops\<close>

record heikin_ashi_state =
  hk_last :: "(pyfloat \<times> pyfloat) option"
  hk_candle :: "pyfloat \<times> pyfloat \<times> pyfloat \<times> pyfloat"

definition heikin_ashi_step :: "nat \<Rightarrow> lean_bar \<Rightarrow> heikin_ashi_state \<Rightarrow> heikin_ashi_state" where
  "heikin_ashi_step n b s =
     (let op = lb_open b; h = lb_high b; l = lb_low b; c = lb_close b;
          hc = fdiv (fadd (fadd (fadd op h) l) c) 4;
          ho = (case hk_last s of None \<Rightarrow> fdiv (fadd op c) 2 | Some (po, pc) \<Rightarrow> fdiv (fadd po pc) 2)
      in \<lparr>hk_last = Some (ho, hc), hk_candle = (ho, max (max h ho) hc, min (min l ho) hc, hc)\<rparr>)"

definition heikin_ashi :: "(lean_bar, heikin_ashi_state) lean_class" where
  "heikin_ashi = \<lparr>lc_new = \<lparr>hk_last = None, hk_candle = (0, 0, 0, 0)\<rparr>, lc_step = heikin_ashi_step,
     lc_value = (\<lambda>s. snd (snd (snd (hk_candle s)))), lc_ready = enough 2\<rparr>"

type_synonym trend_state = "atr_state lean \<times> (bool \<times> pyfloat) option"

definition super_trend_step :: "nat \<Rightarrow> pyfloat \<Rightarrow> nat \<Rightarrow> lean_bar \<Rightarrow> trend_state \<Rightarrow> trend_state" where
  "super_trend_step p m n b s =
     (case s of (a, st) \<Rightarrow>
        let a' = lean_update (atr p) (hlc b) a; mid = fdiv (fadd (lb_high b) (lb_low b)) 2; w = fmul m (le_current a');
            up = fadd mid w; lo = fsub mid w; c = lb_close b
        in (a', Some (case st of
              None \<Rightarrow> (True, lo)
            | Some (True, x) \<Rightarrow> let y = max x lo in if c < y then (False, up) else (True, y)
            | Some (False, x) \<Rightarrow> let y = min x up in if y < c then (True, lo) else (False, y))))"

definition super_trend :: "nat \<Rightarrow> pyfloat \<Rightarrow> (lean_bar, trend_state) lean_class" where
  "super_trend p m = bar_class p (lean_new (atr p), None) (super_trend_step p m)
     (\<lambda>(a, st). case st of None \<Rightarrow> 0 | Some (_, x) \<Rightarrow> x)"

record vortex_state =
  vx_prev :: "(pyfloat \<times> pyfloat \<times> pyfloat) option"
  vx_plus :: "pyfloat list"
  vx_minus :: "pyfloat list"
  vx_tr :: "pyfloat list"
  vx_lines :: "pyfloat \<times> pyfloat"

definition vortex_step :: "nat \<Rightarrow> nat \<Rightarrow> lean_bar \<Rightarrow> vortex_state \<Rightarrow> vortex_state" where
  "vortex_step p n b s =
     (let h = lb_high b; l = lb_low b; c = lb_close b;
          s1 = (case vx_prev s of None \<Rightarrow> s
            | Some (ph, pl, pc) \<Rightarrow> s\<lparr>vx_plus := push p (vx_plus s) \<bar>fsub h pl\<bar>, vx_minus := push p (vx_minus s) \<bar>fsub l ph\<bar>,
                vx_tr := push p (vx_tr s) (max (max (fsub h l) \<bar>fsub h pc\<bar>) \<bar>fsub l pc\<bar>)\<rparr>);
          s2 = s1\<lparr>vx_prev := Some (h, l, c)\<rparr>; t = fsum (vx_tr s2)
      in if t \<noteq> 0 then s2\<lparr>vx_lines := (fdiv (fsum (vx_plus s2)) t, fdiv (fsum (vx_minus s2)) t)\<rparr> else s2)"

definition vortex :: "nat \<Rightarrow> (lean_bar, vortex_state) lean_class" where
  "vortex p = bar_class p \<lparr>vx_prev = None, vx_plus = [], vx_minus = [], vx_tr = [], vx_lines = (0, 0)\<rparr> (vortex_step p)
     (\<lambda>s. fdiv (fadd (fst (vx_lines s)) (snd (vx_lines s))) 2)"

definition acceleration_bands :: "nat \<Rightarrow> pyfloat \<Rightarrow> (lean_bar, pyfloat list lean \<times> pyfloat list lean \<times> pyfloat list lean) lean_class" where
  "acceleration_bands p w = bar_class p (lean_new (sma p), lean_new (sma p), lean_new (sma p))
     (\<lambda>n b (m, u, d).
        let h = lb_high b; l = lb_low b; s = fadd h l; ratio = (if s = 0 then 0 else fdiv (fmul w (fsub h l)) s)
        in (lean_update (sma p) (lb_close b) m, lean_update (sma p) (fmul h (fadd 1 ratio)) u, lean_update (sma p) (fmul l (fsub 1 ratio)) d))
     (\<lambda>(m, u, d). le_current m)"

text \<open>The swing index keeps the open and the close of the bar before.\<close>

definition swing_r :: "pyfloat \<Rightarrow> pyfloat \<Rightarrow> pyfloat \<Rightarrow> pyfloat \<Rightarrow> pyfloat" where
  "swing_r m1 m2 m3 q =
     (if m2 \<le> m1 \<and> m3 \<le> m1 then fadd (fsub m1 (fmul (1 / 2) m2)) q
      else if m1 \<le> m2 \<and> m3 \<le> m2 then fadd (fsub m2 (fmul (1 / 2) m1)) q
      else fadd m3 q)"

definition swing_step :: "pyfloat \<Rightarrow> nat \<Rightarrow> lean_bar \<Rightarrow> (pyfloat \<times> pyfloat) option \<times> pyfloat \<Rightarrow> (pyfloat \<times> pyfloat) option \<times> pyfloat" where
  "swing_step t n b s =
     (let h = lb_high b; l = lb_low b; c = lb_close b; op = lb_open b
      in (Some (op, c),
          case fst s of None \<Rightarrow> snd s
          | Some (po, pc) \<Rightarrow>
              let k = max \<bar>fsub h pc\<bar> \<bar>fsub l pc\<bar>; q = fmul (1 / 4) \<bar>fsub pc po\<bar>;
                  r = swing_r \<bar>fsub h pc\<bar> \<bar>fsub l pc\<bar> \<bar>fsub h l\<bar> q
              in if r = 0 \<or> t = 0 then 0
                 else fmul (fdiv (fmul 50 (fadd (fadd (fsub c pc) (fmul (1 / 2) (fsub c op))) (fmul (1 / 4) (fsub pc po)))) r) (fdiv k t)))"

definition swing_index :: "pyfloat \<Rightarrow> (lean_bar, (pyfloat \<times> pyfloat) option \<times> pyfloat) lean_class" where
  "swing_index t = \<lparr>lc_new = (None, 0), lc_step = swing_step t, lc_value = snd, lc_ready = enough 2\<rparr>"

definition accumulative_swing :: "pyfloat \<Rightarrow> (lean_bar, ((pyfloat \<times> pyfloat) option \<times> pyfloat) lean \<times> pyfloat) lean_class" where
  "accumulative_swing t =
     \<lparr>lc_new = (lean_new (swing_index t), 0),
      lc_step = (\<lambda>n b (i, x). let i' = lean_update (swing_index t) b i in (i', fadd x (le_current i'))),
      lc_value = snd, lc_ready = enough 2\<rparr>"

record ichimoku_state =
  ic_t :: extremes
  ic_k :: extremes
  ic_b :: extremes
  ic_a_delay :: "pyfloat list"
  ic_b_delay :: "pyfloat list"
  ic_close :: pyfloat

definition ichimoku_step :: "nat \<Rightarrow> nat \<Rightarrow> nat \<Rightarrow> nat \<Rightarrow> nat \<Rightarrow> nat \<Rightarrow> lean_bar \<Rightarrow> ichimoku_state \<Rightarrow> ichimoku_state" where
  "ichimoku_step tp kp bp ad bd n b s =
     (let h = lb_high b; l = lb_low b; t = extremes_update tp h l (ic_t s); k = extremes_update kp h l (ic_k s);
          sb = extremes_update bp h l (ic_b s)
      in \<lparr>ic_t = t, ic_k = k, ic_b = sb, ic_a_delay = push ad (ic_a_delay s) (fdiv (fadd (middle_of t) (middle_of k)) 2),
          ic_b_delay = push bd (ic_b_delay s) (middle_of sb), ic_close = lb_close b\<rparr>)"

definition tenkan :: "ichimoku_state \<Rightarrow> pyfloat" where "tenkan s = middle_of (ic_t s)"
definition kijun :: "ichimoku_state \<Rightarrow> pyfloat" where "kijun s = middle_of (ic_k s)"
definition senkou_a :: "ichimoku_state \<Rightarrow> pyfloat" where "senkou_a s = (if ic_a_delay s = [] then 0 else hd (ic_a_delay s))"
definition senkou_b :: "ichimoku_state \<Rightarrow> pyfloat" where "senkou_b s = (if ic_b_delay s = [] then 0 else hd (ic_b_delay s))"

definition ichimoku :: "nat \<Rightarrow> nat \<Rightarrow> nat \<Rightarrow> nat \<Rightarrow> nat \<Rightarrow> (lean_bar, ichimoku_state) lean_class" where
  "ichimoku tp kp bp ad bd = bar_class bp
     \<lparr>ic_t = extremes_new tp, ic_k = extremes_new kp, ic_b = extremes_new bp, ic_a_delay = [], ic_b_delay = [], ic_close = 0\<rparr>
     (ichimoku_step tp kp bp ad bd) ic_close"

type_synonym kroll_state = "atr_state lean \<times> extremes \<times> pyfloat list lean \<times> pyfloat list lean \<times> pyfloat"

definition chande_kroll :: "nat \<Rightarrow> pyfloat \<Rightarrow> nat \<Rightarrow> (lean_bar, kroll_state) lean_class" where
  "chande_kroll ap m p = bar_class p (lean_new (atr ap), extremes_new ap, lean_new (maximum p), lean_new (minimum p), 0)
     (\<lambda>n b (a, x, sh, lg, c).
        let a' = lean_update (atr ap) (hlc b) a; x' = extremes_update ap (lb_high b) (lb_low b) x; w = fmul m (le_current a')
        in (a', x', lean_update (maximum p) (fsub (le_current (fst x')) w) sh,
            lean_update (minimum p) (fadd (le_current (snd x')) w) lg, lb_close b))
     (\<lambda>(a, x, sh, lg, c). c)"

record vigor_state =
  vg_prev :: "lean_bar list"
  vg_close :: "ma_state lean"
  vg_range :: "ma_state lean"
  vg_signal :: "pyfloat list lean"
  vg_v :: pyfloat

definition smoothed_four :: "pyfloat \<Rightarrow> pyfloat list \<Rightarrow> pyfloat" where
  "smoothed_four a w = fdiv (fadd (fadd a (fmul 2 (fadd (w ! 0) (w ! 1)))) (w ! 2)) 6"

text \<open>\<open>appendleft\<close> on \<open>deque(maxlen=n)\<close>.\<close>

definition push_left :: "nat \<Rightarrow> 'a list \<Rightarrow> 'a \<Rightarrow> 'a list" where
  "push_left n w x = take n (x # w)"

definition vigor_step :: "ma_kind \<Rightarrow> nat \<Rightarrow> nat \<Rightarrow> lean_bar \<Rightarrow> vigor_state \<Rightarrow> vigor_state" where
  "vigor_step k p n b s =
     (let body = (\<lambda>x. fsub (lb_close x) (lb_open x)); rng = (\<lambda>x. fsub (lb_high x) (lb_low x)); prev = push_left 3 (vg_prev s) b
      in if length (vg_prev s) = 3
         then let cb = lean_update (ma_of k p) (smoothed_four (body b) (map body (vg_prev s))) (vg_close s);
                  rb = lean_update (ma_of k p) (smoothed_four (rng b) (map rng (vg_prev s))) (vg_range s);
                  s1 = s\<lparr>vg_prev := prev, vg_close := cb, vg_range := rb, vg_v := 0\<rparr>
              in if lean_ready (ma_of k p) cb \<and> lean_ready (ma_of k p) rb
                 then let v = (if le_current rb = 0 then 0 else fdiv (le_current cb) (le_current rb))
                      in s1\<lparr>vg_v := v, vg_signal := lean_update (sma 4) v (vg_signal s)\<rparr>
                 else s1
         else s\<lparr>vg_prev := prev, vg_v := 0\<rparr>)"

definition relative_vigor :: "ma_kind \<Rightarrow> nat \<Rightarrow> (lean_bar, vigor_state) lean_class" where
  "relative_vigor k p = bar_class p
     \<lparr>vg_prev = [], vg_close = lean_new (ma_of k p), vg_range = lean_new (ma_of k p), vg_signal = lean_new (sma 4), vg_v = 0\<rparr>
     (vigor_step k p) vg_v"

end
