(* ===== verification/LeanDual.thy ===== *)
theory LeanDual
  imports LeanWave
begin

text \<open>
  The gated oscillators and the indicators of two symbols of \<open>dqengine/runtime/indicators.py\<close>.  A value of
  two symbols is computed only when both have a close for one time.
\<close>

section \<open>Gated oscillators\<close>

record klinger_state =
  kl_fast :: "ema_state lean"
  kl_slow :: "ema_state lean"
  kl_signal :: "ema_state lean"
  kl_index :: "pyfloat list"
  kl_range :: "pyfloat list"
  kl_trend :: "int list"
  kl_cum :: pyfloat
  kl_v :: pyfloat

definition klinger_step :: "nat \<Rightarrow> nat \<Rightarrow> nat \<Rightarrow> nat \<Rightarrow> lean_bar \<Rightarrow> klinger_state \<Rightarrow> klinger_state" where
  "klinger_step fp sp gp n b s =
     (let h = lb_high b; l = lb_low b; c = lb_close b; today = fsub h l;
          s1 = s\<lparr>kl_range := push_left 2 (kl_range s) today, kl_index := push_left 2 (kl_index s) (fadd (fadd h l) c)\<rparr>
      in if length (kl_index s1) < 2 then s1\<lparr>kl_v := 0\<rparr>
         else
           let trend = (if kl_index s1 ! 1 < kl_index s1 ! 0 then 1 else - 1);
               s2 = s1\<lparr>kl_trend := push_left 2 (kl_trend s1) trend\<rparr>
           in if length (kl_trend s2) < 2 then s2\<lparr>kl_v := 0\<rparr>
              else
                let cum = (if kl_cum s = 0 \<or> kl_trend s2 ! 0 \<noteq> kl_trend s2 ! 1 then fadd today (kl_range s2 ! 1)
                           else fadd (kl_cum s) today);
                    tiny = fl (1 / 100000000);
                    denom = (if \<bar>cum\<bar> < tiny then tiny else cum);
                    force = fmul (fmul (fmul (lb_volume b) \<bar>fmul 2 (fsub (fdiv today denom) 1)\<bar>) (fint trend)) 100;
                    f = lean_update (ema fp) force (kl_fast s); w = lean_update (ema sp) force (kl_slow s);
                    s3 = s2\<lparr>kl_cum := cum, kl_fast := f, kl_slow := w\<rparr>
                in if \<not> (lean_ready (ema fp) f \<and> lean_ready (ema sp) w)
                   then s3\<lparr>kl_signal := lean_update (ema gp) 0 (kl_signal s), kl_v := 0\<rparr>
                   else let v = fsub (le_current f) (le_current w)
                        in s3\<lparr>kl_v := v, kl_signal := lean_update (ema gp) v (kl_signal s)\<rparr>)"

definition klinger :: "nat \<Rightarrow> nat \<Rightarrow> nat \<Rightarrow> (lean_bar, klinger_state) lean_class" where
  "klinger fp sp gp = bar_class (max (max fp sp) gp + 2)
     \<lparr>kl_fast = lean_new (ema fp), kl_slow = lean_new (ema sp), kl_signal = lean_new (ema gp), kl_index = [], kl_range = [],
      kl_trend = [], kl_cum = 0, kl_v = 0\<rparr> (klinger_step fp sp gp) kl_v"

record wave_state =
  wt_avg :: "ema_state lean"
  wt_dev :: "ema_state lean"
  wt_index :: "ema_state lean"
  wt_signal :: "pyfloat list lean"
  wt_v :: pyfloat

definition wave_step :: "nat \<Rightarrow> nat \<Rightarrow> nat \<Rightarrow> nat \<Rightarrow> lean_bar \<Rightarrow> wave_state \<Rightarrow> wave_state" where
  "wave_step cp ap gp n b s =
     (let tp = typical b; a = lean_update (ema cp) tp (wt_avg s); s1 = s\<lparr>wt_avg := a\<rparr>
      in if \<not> lean_ready (ema cp) a then s1\<lparr>wt_v := 0\<rparr>
         else
           let d = lean_update (ema cp) \<bar>fsub tp (le_current a)\<bar> (wt_dev s); s2 = s1\<lparr>wt_dev := d\<rparr>
           in if \<not> lean_ready (ema cp) d then s2\<lparr>wt_v := 0\<rparr>
              else
                let weighted = fmul (fl (15 / 1000)) (le_current d)
                in if weighted = 0 then s2
                   else
                     let i = lean_update (ema ap) (fdiv (fsub tp (le_current a)) weighted) (wt_index s);
                         s3 = s2\<lparr>wt_index := i, wt_v := le_current i\<rparr>
                     in if \<not> lean_ready (ema ap) i then s3
                        else s3\<lparr>wt_signal := lean_update (sma gp) (le_current i) (wt_signal s)\<rparr>)"

definition wave_trend :: "nat \<Rightarrow> nat \<Rightarrow> nat \<Rightarrow> (lean_bar, wave_state) lean_class" where
  "wave_trend cp ap gp = bar_class (cp + ap + gp)
     \<lparr>wt_avg = lean_new (ema cp), wt_dev = lean_new (ema cp), wt_index = lean_new (ema ap), wt_signal = lean_new (sma gp), wt_v = 0\<rparr>
     (wave_step cp ap gp) wt_v"

definition fisher :: "(pyfloat \<Rightarrow> pyfloat) \<Rightarrow> nat \<Rightarrow> (lean_bar, extremes \<times> pyfloat \<times> pyfloat) lean_class" where
  "fisher lg p =
     (let al = fl (33 / 100)
      in bar_class p (extremes_new p, 0, 0)
           (\<lambda>n b (x, u, v).
              let price = fdiv (fadd (lb_low b) (lb_high b)) 2; x' = extremes_update p price price x;
                  hi = le_current (fst x'); lo = le_current (snd x')
              in if n < p then (x', u, 0)
                 else if lo = hi then (x', u, fadd 0 (fmul (1 / 2) v))
                 else
                   let w = fadd (fmul (fmul al 2) (fsub (fdiv (fsub price lo) (fsub hi lo)) (1 / 2))) (fmul (fsub 1 al) u);
                       xc = max (fl (- 999 / 1000)) (min (fl (999 / 1000)) w);
                       y = fmul (1 / 2) (lg (fdiv (fadd 1 xc) (fsub 1 xc)))
                   in (x', w, fadd y (fmul (1 / 2) v)))
           (\<lambda>(x, u, v). v))"

section \<open>Two symbols\<close>

record 's dual_class =
  dc_target :: sym
  dc_reference :: sym
  dc_window :: nat
  dc_new :: 's
  dc_recompute :: "pyfloat list \<Rightarrow> pyfloat list \<Rightarrow> 's \<Rightarrow> 's"
  dc_value :: "pyfloat list \<Rightarrow> pyfloat list \<Rightarrow> 's \<Rightarrow> pyfloat"

text \<open>The windows hold the newest close first.\<close>

record 's dual =
  du_samples :: nat
  du_current :: pyfloat
  du_target :: "pyfloat list"
  du_reference :: "pyfloat list"
  du_pending :: "(sym, ms option \<times> pyfloat) dict"
  du_state :: 's

definition dual_new :: "'s dual_class \<Rightarrow> 's dual" where
  "dual_new c = \<lparr>du_samples = 0, du_current = 0, du_target = [], du_reference = [], du_pending = [], du_state = dc_new c\<rparr>"

definition dual_ready :: "'s dual_class \<Rightarrow> 's dual \<Rightarrow> bool" where
  "dual_ready c d \<longleftrightarrow> length (du_target d) = dc_window c \<and> length (du_reference d) = dc_window c"

definition dual_advance :: "'s dual_class \<Rightarrow> pyfloat \<Rightarrow> pyfloat \<Rightarrow> 's dual \<Rightarrow> 's dual" where
  "dual_advance c x y d =
     (let t = push_left (dc_window c) (du_target d) x; r = push_left (dc_window c) (du_reference d) y;
          s = dc_recompute c t r (du_state d)
      in \<lparr>du_samples = Suc (du_samples d), du_current = dc_value c t r s, du_target = t, du_reference = r, du_pending = [], du_state = s\<rparr>)"

definition update_symbol :: "'s dual_class \<Rightarrow> sym \<times> ms option \<times> pyfloat \<Rightarrow> 's dual \<Rightarrow> 's dual" where
  "update_symbol c p d =
     (let s = upper (fst p)
      in if s \<noteq> dc_target c \<and> s \<noteq> dc_reference c then d
         else
           let pend = dput (du_pending d) s (snd p)
           in case (dget pend (dc_target c), dget pend (dc_reference c)) of
                (Some (tt, x), Some (rt, y)) \<Rightarrow> if tt = rt then dual_advance c x y d else d\<lparr>du_pending := pend\<rparr>
              | _ \<Rightarrow> d\<lparr>du_pending := pend\<rparr>)"

definition dual_run :: "'s dual_class \<Rightarrow> (sym \<times> ms option \<times> pyfloat) list \<Rightarrow> 's dual" where
  "dual_run c ps = foldl (\<lambda>d p. update_symbol c p d) (dual_new c) ps"

definition sample_cov :: "pyfloat list \<Rightarrow> pyfloat list \<Rightarrow> pyfloat" where
  "sample_cov a b =
     (let n = min (length a) (length b)
      in if n < 2 then 0
         else let ma = fdiv (fsum (take n a)) (fint (int n)); mb = fdiv (fsum (take n b)) (fint (int n))
              in fdiv (fsum (map2 (\<lambda>x y. fmul (fsub x ma) (fsub y mb)) (take n a) (take n b))) (fint (int n - 1)))"

definition sample_var :: "pyfloat list \<Rightarrow> pyfloat" where
  "sample_var a = sample_cov a a"

definition return_of :: "pyfloat list \<Rightarrow> pyfloat" where
  "return_of w = (if length w = 2 \<and> w ! 1 \<noteq> 0 then fsub (fdiv (w ! 0) (w ! 1)) 1 else 0)"

definition returns_window :: "nat \<Rightarrow> pyfloat list \<Rightarrow> pyfloat list \<Rightarrow> pyfloat list" where
  "returns_window p prices w = (if length prices = 2 then push_left p w (return_of prices) else w)"

definition covariance :: "sym \<Rightarrow> sym \<Rightarrow> nat \<Rightarrow> (pyfloat list \<times> pyfloat list) dual_class" where
  "covariance t r p =
     \<lparr>dc_target = upper t, dc_reference = upper r, dc_window = 2, dc_new = ([], []),
      dc_recompute = (\<lambda>tw rw (a, b). (returns_window p tw a, returns_window p rw b)),
      dc_value = (\<lambda>tw rw (a, b). sample_cov a b)\<rparr>"

definition beta_of :: "pyfloat list \<Rightarrow> pyfloat list \<Rightarrow> pyfloat" where
  "beta_of a b = (let v = sample_var b in fdiv (sample_cov a b) (if v = 0 then 1 else v))"

definition beta :: "sym \<Rightarrow> sym \<Rightarrow> nat \<Rightarrow> (pyfloat list \<times> pyfloat list) dual_class" where
  "beta t r p = (covariance t r p)\<lparr>dc_value := (\<lambda>tw rw (a, b). beta_of a b)\<rparr>"

definition correlation_of :: "power \<Rightarrow> pyfloat list \<Rightarrow> pyfloat list \<Rightarrow> pyfloat" where
  "correlation_of pw tw rw =
     (let n = min (length tw) (length rw); a = take n tw; b = take n rw
      in if n < 2 then 0
         else let sa = pw (sample_var a) (1 / 2); sb = pw (sample_var b) (1 / 2)
              in if sa = 0 \<or> sb = 0 then 0 else fdiv (sample_cov a b) (fmul sa sb))"

definition correlation :: "power \<Rightarrow> sym \<Rightarrow> sym \<Rightarrow> nat \<Rightarrow> unit dual_class" where
  "correlation pw t r p =
     \<lparr>dc_target = upper t, dc_reference = upper r, dc_window = p, dc_new = (), dc_recompute = (\<lambda>tw rw s. s),
      dc_value = (\<lambda>tw rw s. correlation_of pw tw rw)\<rparr>"

end
