(* ===== verification/LeanProps.thy ===== *)
theory LeanProps
  imports LeanDual DailyInd
begin

text \<open>
  What the incremental indicators compute: the windows and the Wilder index are those of the daily engine
  over the same closes (\<open>core/indicators.py\<close>), the oscillators keep to their scale, and an indicator of
  two symbols only ever pairs closes of one time.
\<close>

section \<open>Runs\<close>

lemma run_snoc: "lean_run c (xs @ [x]) = lean_update c x (lean_run c xs)"
  by (simp add: lean_run_def)

lemma run_samples: "le_samples (lean_run c xs) = length xs"
  by (induction xs rule: rev_induct) (simp_all add: run_snoc lean_update_def Let_def, simp add: lean_run_def lean_new_def)

lemma run_current: "xs \<noteq> [] \<Longrightarrow> le_current (lean_run c xs) = lc_value c (le_state (lean_run c xs))"
  by (cases xs rule: rev_cases) (simp_all add: run_snoc lean_update_def Let_def)

lemma run_state: "le_state (lean_run c (xs @ [x])) = lc_step c (Suc (length xs)) x (le_state (lean_run c xs))"
  by (simp add: run_snoc lean_update_def Let_def run_samples)

lemma run_empty: "lean_run c [] = lean_new c"
  by (simp add: lean_run_def)

text \<open>An invariant of the attributes holds of every object.\<close>

lemma samples_keep:
  assumes "ok (lc_new c)" "\<And>n x s. x \<in> X \<Longrightarrow> ok s \<Longrightarrow> ok (lc_step c n x s)" "set xs \<subseteq> X"
  shows "ok (le_state (lean_run c xs))"
  using assms(3)
proof (induction xs rule: rev_induct)
  case (snoc x xs)
  then show ?case using assms(2) by (simp add: run_state)
qed (simp add: run_empty lean_new_def assms(1))

lemma window_run: "le_state (lean_run (windowed m p f) xs) = last_n m xs"
  by (induction xs rule: rev_induct)
     (simp_all add: run_state windowed_def push_last_n, simp add: run_empty lean_new_def last_n_def)

lemma window_ready: "lean_ready (windowed m p f) (lean_run (windowed m p f) xs) \<longleftrightarrow> p \<le> length xs"
  by (simp add: lean_ready_def windowed_def enough_def run_samples)

lemma window_current: "xs \<noteq> [] \<Longrightarrow> le_current (lean_run (windowed m p f) xs) = f (last_n m xs)"
  by (simp add: run_current window_run) (simp add: windowed_def)

section \<open>The daily engine computes the same\<close>

lemma window_spec:
  assumes "0 < p" "p \<le> length xs \<Longrightarrow> r = Inr (f (last_n p xs))"
  shows "ready_if (p \<le> length xs) r
    = Inr (if lean_ready (windowed p p f) (lean_run (windowed p p f) xs) then V (le_current (lean_run (windowed p p f) xs)) else NotReady)"
proof (cases "p \<le> length xs")
  case True
  then have "xs \<noteq> []" using assms(1) by auto
  then show ?thesis using assms(2) True by (simp add: ready_if_def window_ready window_current)
qed (simp add: ready_if_def window_ready)

text \<open>What a strategy reads of an object, if it asks whether it is ready.\<close>

definition lean_val :: "('x, 's) lean_class \<Rightarrow> 'x list \<Rightarrow> val" where
  "lean_val c xs = (let i = lean_run c xs in if lean_ready c i then V (le_current i) else NotReady)"

text \<open>A moving average, a highest and a lowest close that a strategy builds sample by sample is the one
  the daily engine computes from the whole series: ready at the same bar, and then the same number.\<close>

lemma windows_are_the_daily_ones:
  assumes "0 < p"
  shows "window_ind ''sma'' wl s (int p) = Inr (lean_val (sma p) (s_closes s))
    \<and> window_ind ''highest'' wl s (int p) = Inr (lean_val (maximum p) (s_closes s)) \<and> window_ind ''lowest'' wl s (int p) = Inr (lean_val (minimum p) (s_closes s))"
proof -
  let ?xs = "s_closes s"
  have win: "slice_from ?xs (- int p) = last_n p ?xs" using assms by (intro slice_from_neg)
  have ready: "have_closes s (int p) \<longleftrightarrow> p \<le> length ?xs" by (simp add: have_closes_def)
  have ne: "last_n p ?xs \<noteq> []" "length (last_n p ?xs) = p" if "p \<le> length ?xs"
    using that assms by (simp_all add: last_n_def)
  have "mean_res (last_n p ?xs) (int p) = Inr (mean_of (last_n p ?xs))" if "p \<le> length ?xs"
  proof -
    have "fint (int p) \<noteq> 0"
      using fl_mono [of 1 "of_int (int p)"] assms(1) by (auto simp: fint_def)
    then show ?thesis using ne [OF that] by (simp add: mean_res_def mean_of_def div_res_def)
  qed
  moreover have "max_res (last_n p ?xs) = Inr (if last_n p ?xs = [] then 0 else fmax (last_n p ?xs))"
    "min_res (last_n p ?xs) = Inr (if last_n p ?xs = [] then 0 else fmin (last_n p ?xs))" if "p \<le> length ?xs"
    using ne [OF that] by (simp_all add: max_res_def min_res_def)
  ultimately show ?thesis
    unfolding lean_val_def Let_def sma_def maximum_def minimum_def
    by (simp add: window_ind_def Let_def win ready window_spec [OF assms(1)])
qed

section \<open>The relative strength index\<close>

lemma diffs_snoc: "xs \<noteq> [] \<Longrightarrow> diffs (xs @ [v]) = diffs xs @ [fsub v (last xs)]"
proof (induction xs)
  case (Cons a xs)
  then show ?case by (cases xs) (simp_all add: diffs_def)
qed simp

lemma diffs_length: "length (diffs xs) = length xs - 1"
  by (simp add: diffs_def)

lemma gain_max: "max d 0 = gain_of d" "max (- d) 0 = loss_of d" "gain_of (- d) = loss_of d"
  by (simp_all add: gain_of_def loss_of_def max_def)

definition wilder_avg :: "nat \<Rightarrow> (pyfloat \<Rightarrow> pyfloat) \<Rightarrow> pyfloat list \<Rightarrow> pyfloat" where
  "wilder_avg p f ds = foldl (wilder_step (int p)) (fdiv (fsum (map f (take p ds))) (fint (int p))) (map f (drop p ds))"

lemma wilder_avg_snoc:
  "p \<le> length ds \<Longrightarrow> wilder_avg p f (ds @ [d]) = wilder_step (int p) (wilder_avg p f ds) (f d)"
  by (simp add: wilder_avg_def)

lemma smoothed_nonneg:
  assumes "\<And>d. 0 \<le> f d" "0 < p"
  shows "0 \<le> wilder_avg p f ds"
proof -
  have p: "0 \<le> fint (int p)" "0 \<le> fint (int p - 1)"
    unfolding fint_def using assms(2) by (auto intro!: fl_nonneg)
  have "0 \<le> foldl (wilder_step (int p)) a (map f xs)" if "0 \<le> a" for a xs
    using that
  proof (induction xs arbitrary: a)
    case (Cons x xs)
    have "0 \<le> wilder_step (int p) a (f x)"
      unfolding wilder_step_def using Cons.prems assms(1) p by (intro fl_sign)
    then show ?case using Cons.IH by simp
  qed simp
  moreover have "0 \<le> fdiv (fsum (map f (take p ds))) (fint (int p))"
    using assms(1) p by (intro fl_sign) auto
  ultimately show ?thesis unfolding wilder_avg_def by blast
qed

lemma rsi_run:
  assumes "0 < p" "xs \<noteq> []"
  shows "le_state (lean_run (rsi p) xs) =
    \<lparr>rs_prev = Some (last xs), rs_gains = map (\<lambda>d. (gain_of d, loss_of d)) (take p (diffs xs)),
     rs_avg = (if p \<le> length (diffs xs) then Some (wilder_avg p gain_of (diffs xs), wilder_avg p loss_of (diffs xs)) else None)\<rparr>"
  using assms(2)
proof (induction xs rule: rev_induct)
  case (snoc v xs)
  show ?case
  proof (cases "xs = []")
    case True
    then show ?thesis
      using assms(1) by (simp add: run_state [of _ "[]", simplified] run_empty lean_new_def rsi_def rsi_step_def diffs_def)
  next
    case False
    let ?ds = "diffs xs" and ?d = "fsub v (last xs)"
    note IH = snoc.IH [OF False]
    have ds: "diffs (xs @ [v]) = ?ds @ [?d]" by (rule diffs_snoc [OF False])
    have step: "le_state (lean_run (rsi p) (xs @ [v])) = rsi_step p (Suc (length xs)) v (le_state (lean_run (rsi p) xs))"
      by (simp add: run_state rsi_def)
    show ?thesis
    proof (cases "p \<le> length ?ds")
      case True
      then show ?thesis
        unfolding step IH ds using assms(1)
        by (simp add: rsi_step_def Let_def gain_max wilder_avg_snoc) (simp add: wilder_step_def int_ops)
    next
      case False
      then have t: "take p (?ds @ [?d]) = ?ds @ [?d]" "take p ?ds = ?ds" by simp_all
      show ?thesis
      proof (cases "Suc (length ?ds) = p")
        case True
        then have "drop p (?ds @ [?d]) = []" by simp
        then show ?thesis
          unfolding step IH ds using False True t
          by (simp add: rsi_step_def Let_def gain_max wilder_avg_def o_def)
      qed (use False t in \<open>unfold step IH ds, simp add: rsi_step_def Let_def gain_max\<close>)
    qed
  qed
qed simp


section \<open>Oscillators keep to their scale\<close>

lemma part_bounds:
  assumes "0 \<le> a" "a \<le> b"
  shows "0 \<le> fmul (fdiv a b) 100" "fmul (fdiv a b) 100 \<le> 100"
proof -
  have "a / b \<le> 1" "0 \<le> a / b" using assms by (auto simp: divide_le_eq)
  then have "fdiv a b \<le> 1" "0 \<le> fdiv a b" by (simp_all add: fdiv_def fl_le_1 fl_nonneg)
  then show "0 \<le> fmul (fdiv a b) 100" "fmul (fdiv a b) 100 \<le> 100" by (simp_all add: fmul_def fl_nonneg fl_le_100)
qed

lemma fsub_mono: "a \<le> a' \<Longrightarrow> b' \<le> b \<Longrightarrow> fsub a b \<le> fsub a' b'"
  unfolding fsub_def by (rule fl_mono) simp

lemma stochastic_k_bounds:
  assumes "lo \<le> c" "c \<le> hi"
  shows "0 \<le> stochastic_k hi lo c" "stochastic_k hi lo c \<le> 100"
  using part_bounds [of "fsub c lo" "fsub hi lo"] assms by (auto simp: stochastic_k_def fsub_nonneg fsub_mono)

text \<open>A bar that is one: its close between its low and its high, its volume and prices not negative.\<close>

definition sound_bar :: "lean_bar \<Rightarrow> bool" where
  "sound_bar b \<longleftrightarrow> lb_low b \<le> lb_close b \<and> lb_close b \<le> lb_high b \<and> 0 \<le> lb_low b \<and> 0 \<le> lb_volume b"

lemma window_extremes:
  assumes "0 < p"
  shows "x \<le> le_current (lean_run (maximum p) (xs @ [x]))" "le_current (lean_run (minimum p) (xs @ [x])) \<le> x"
proof -
  obtain q where q: "p = Suc q" using assms by (cases p) auto
  have "x \<in> set (last_n p (xs @ [x]))" by (simp add: q last_n_append1)
  then show "x \<le> le_current (lean_run (maximum p) (xs @ [x]))" "le_current (lean_run (minimum p) (xs @ [x])) \<le> x"
    by (auto simp: maximum_def minimum_def window_current fmax_ge fmin_le)
qed

lemma williams_state:
  "fst (le_state (lean_run (williams_r p) bs)) = (lean_run (maximum p) (map lb_high bs), lean_run (minimum p) (map lb_low bs))"
proof (induction bs rule: rev_induct)
  case (snoc b bs)
  then show ?case
    by (cases "le_state (lean_run (williams_r p) bs)")
       (simp add: run_state, simp add: williams_r_def bar_class_def extremes_update_def run_snoc)
qed (simp add: run_empty lean_new_def williams_r_def bar_class_def extremes_new_def)

lemma stochastic_state:
  "fst (le_state (lean_run (stochastic p dp) bs)) = (lean_run (maximum p) (map lb_high bs), lean_run (minimum p) (map lb_low bs))"
proof (induction bs rule: rev_induct)
  case (snoc b bs)
  then show ?case
    by (cases "le_state (lean_run (stochastic p dp) bs)")
       (simp add: run_state, simp add: stochastic_def bar_class_def Let_def extremes_update_def run_snoc)
qed (simp add: run_empty lean_new_def stochastic_def bar_class_def extremes_new_def)

lemma williams_in_scale:
  assumes "0 < p" "list_all sound_bar bs"
  shows "- 100 \<le> le_current (lean_run (williams_r p) bs) \<and> le_current (lean_run (williams_r p) bs) \<le> 0"
proof (cases bs rule: rev_cases)
  case (snoc cs b)
  let ?hi = "le_current (lean_run (maximum p) (map lb_high cs @ [lb_high b]))"
    and ?lo = "le_current (lean_run (minimum p) (map lb_low cs @ [lb_low b]))"
  have b: "lb_low b \<le> lb_close b" "lb_close b \<le> lb_high b" using assms(2) by (simp_all add: snoc sound_bar_def)
  have lo: "?lo \<le> lb_close b" and hi: "lb_close b \<le> ?hi"
    using b window_extremes [OF assms(1)] by (meson order_trans)+
  have st: "le_state (lean_run (williams_r p) bs)
      = ((lean_run (maximum p) (map lb_high cs @ [lb_high b]), lean_run (minimum p) (map lb_low cs @ [lb_low b])), lb_close b)"
    using williams_state [of p cs]
    by (cases "le_state (lean_run (williams_r p) cs)")
       (simp add: snoc run_state, simp add: williams_r_def bar_class_def extremes_update_def run_snoc)
  have "le_current (lean_run (williams_r p) bs)
      = (if ?hi = ?lo then - 50 else - fmul (fdiv (fsub ?hi (lb_close b)) (fsub ?hi ?lo)) 100)"
    by (subst run_current) (simp_all only: st, simp_all add: snoc williams_r_def bar_class_def Let_def fmul_def fl_minus)
  moreover have "0 \<le> fsub ?hi (lb_close b)" "fsub ?hi (lb_close b) \<le> fsub ?hi ?lo"
    using lo hi by (simp_all add: fsub_nonneg fsub_mono)
  ultimately show ?thesis using part_bounds by auto
qed (simp add: run_empty lean_new_def)

lemma stochastic_in_scale:
  assumes "0 < p" "list_all sound_bar bs"
  shows "0 \<le> le_current (lean_run (stochastic p dp) bs) \<and> le_current (lean_run (stochastic p dp) bs) \<le> 100"
proof (cases bs rule: rev_cases)
  case (snoc cs b)
  let ?hi = "le_current (lean_run (maximum p) (map lb_high cs @ [lb_high b]))"
    and ?lo = "le_current (lean_run (minimum p) (map lb_low cs @ [lb_low b]))"
  have b: "lb_low b \<le> lb_close b" "lb_close b \<le> lb_high b" using assms(2) by (simp_all add: snoc sound_bar_def)
  have lo: "?lo \<le> lb_close b" and hi: "lb_close b \<le> ?hi"
    using b window_extremes [OF assms(1)] by (meson order_trans)+
  have "fst (snd (le_state (lean_run (stochastic p dp) bs))) = stochastic_k ?hi ?lo (lb_close b)"
    using stochastic_state [of p dp cs]
    by (cases "le_state (lean_run (stochastic p dp) cs)")
       (simp add: snoc run_state, simp add: stochastic_def bar_class_def Let_def extremes_update_def run_snoc)
  then have "le_current (lean_run (stochastic p dp) bs) = stochastic_k ?hi ?lo (lb_close b)"
    by (subst run_current) (simp_all add: snoc stochastic_def bar_class_def case_prod_unfold)
  then show ?thesis using stochastic_k_bounds [OF lo hi] by simp
qed (simp add: run_empty lean_new_def)

lemma rsi_in_scale:
  assumes "0 < p"
  shows "0 \<le> le_current (lean_run (rsi p) xs) \<and> le_current (lean_run (rsi p) xs) \<le> 100"
proof (cases "xs = []")
  case False
  have pos: "0 \<le> wilder_avg p gain_of ds" "0 \<le> wilder_avg p loss_of ds" for ds
    by (intro smoothed_nonneg assms; simp add: gain_of_def loss_of_def)+
  have "le_current (lean_run (rsi p) xs) = rsi_value (le_state (lean_run (rsi p) xs))"
    by (simp add: run_current [OF False]) (simp add: rsi_def)
  then show ?thesis
    using pos strength_bounds [OF pos(1), of "wilder_avg p loss_of (diffs xs)"]
    by (auto simp: rsi_run [OF assms False] rsi_value_def strength_def less_le)
qed (simp add: run_empty lean_new_def)

lemma mfi_in_scale:
  assumes "list_all sound_bar bs"
  shows "0 \<le> le_current (lean_run (money_flow_index p) bs) \<and> le_current (lean_run (money_flow_index p) bs) \<le> 100"
proof (cases "bs = []")
  case False
  let ?ok = "\<lambda>(u :: pyfloat option, ps, ns). (\<forall>x\<in>set ps. (0::pyfloat) \<le> x) \<and> (\<forall>x\<in>set ns. (0::pyfloat) \<le> x)"
  have flow: "0 \<le> fmul (typical b) (lb_volume b)" if "sound_bar b" for b
    using that unfolding sound_bar_def typical_def by (intro fl_sign) auto
  have push: "\<forall>y\<in>set (push p ps x). 0 \<le> y" if r: "\<forall>y\<in>set ps. (0::pyfloat) \<le> y" "0 \<le> x" for ps x
    using set_last_n [of p "ps @ [x]"] r by (auto simp: push_def)
  have "?ok (le_state (lean_run (money_flow_index p) bs))"
  proof (rule samples_keep [of ?ok _ "set bs"])
    show "?ok (lc_step (money_flow_index p) n b s)" if b: "b \<in> set bs" "?ok s" for n b s
      using b flow [of b] assms push
      by (cases s) (auto simp: money_flow_index_def bar_class_def Let_def list_all_iff split: option.splits)
  qed (simp_all add: money_flow_index_def bar_class_def)
  then obtain u ps ns where s: "le_state (lean_run (money_flow_index p) bs) = (u, ps, ns)"
    "\<forall>x\<in>set ps. 0 \<le> x" "\<forall>x\<in>set ns. 0 \<le> x" by (cases "le_state (lean_run (money_flow_index p) bs)") auto
  have pos: "0 \<le> fsum ps" "0 \<le> fsum ns" using s(2,3) by (auto intro: fl_sign)
  have "le_current (lean_run (money_flow_index p) bs)
      = (if fsum ns = 0 then (if fsum ps \<noteq> 0 then 100 else 50) else strength (fsum ps) (fsum ns))"
    by (simp add: run_current [OF False] s(1)) (simp add: money_flow_index_def bar_class_def Let_def strength_def)
  then show ?thesis using strength_bounds [OF pos(1), of "fsum ns"] pos by (auto simp: less_le)
qed (simp add: run_empty lean_new_def)

text \<open>The oscillators keep to their scale, rounding included, at every bar and ready or not: the relative
  strength index and, for bars whose close lies in their range, the stochastic and the money flow index are
  between 0 and 100, and Williams' %R between -100 and 0.\<close>

lemma oscillators_in_scale:
  assumes "0 < p" "list_all sound_bar bs"
  shows "0 \<le> le_current (lean_run (rsi p) xs) \<and> le_current (lean_run (rsi p) xs) \<le> 100
    \<and> 0 \<le> le_current (lean_run (stochastic p dp) bs) \<and> le_current (lean_run (stochastic p dp) bs) \<le> 100
    \<and> 0 \<le> le_current (lean_run (money_flow_index p) bs) \<and> le_current (lean_run (money_flow_index p) bs) \<le> 100
    \<and> - 100 \<le> le_current (lean_run (williams_r p) bs) \<and> le_current (lean_run (williams_r p) bs) \<le> 0"
  using rsi_in_scale [OF assms(1), of xs] stochastic_in_scale [OF assms, of dp] mfi_in_scale [OF assms(2), of p]
    williams_in_scale [OF assms] by blast

section \<open>Averages of averages\<close>

lemma ema_ready: "lean_ready (ema p) (lean_run (ema p) xs) \<longleftrightarrow> p \<le> length xs"
  by (simp add: lean_ready_def run_samples) (simp add: ema_def enough_def)

text \<open>The values of an average from the bar on at which it is ready.\<close>

definition ready_values :: "nat \<Rightarrow> pyfloat list \<Rightarrow> pyfloat list" where
  "ready_values p xs = map (\<lambda>k. le_current (lean_run (ema p) (take k xs))) [p..<Suc (length xs)]"

lemma ready_values_snoc:
  "0 < p \<Longrightarrow> ready_values p (xs @ [x])
    = ready_values p xs @ (if p \<le> Suc (length xs) then [le_current (lean_run (ema p) (xs @ [x]))] else [])"
  by (auto simp: ready_values_def)

lemma stage_run:
  assumes "0 < p"
  shows "stage p (lean_run (ema p) (xs @ [x])) (lean_run (ema p) (ready_values p xs))
    = lean_run (ema p) (ready_values p (xs @ [x]))"
proof (cases "p \<le> Suc (length xs)")
  case True
  then show ?thesis unfolding ready_values_snoc [OF assms] by (simp add: stage_def ema_ready) (simp add: run_snoc)
qed (simp add: stage_def ema_ready ready_values_snoc [OF assms])

lemma triple_step_run:
  assumes "0 < p"
  shows "triple_step p x (lean_run (ema p) xs, lean_run (ema p) (ready_values p xs), lean_run (ema p) (ready_values p (ready_values p xs)))
    = (lean_run (ema p) (xs @ [x]), lean_run (ema p) (ready_values p (xs @ [x])),
       lean_run (ema p) (ready_values p (ready_values p (xs @ [x]))))"
proof -
  let ?v = "ready_values p xs"
  have third: "stage p (lean_run (ema p) (ready_values p (xs @ [x]))) (lean_run (ema p) (ready_values p ?v))
      = lean_run (ema p) (ready_values p (ready_values p (xs @ [x])))"
  proof (cases "p \<le> Suc (length xs)")
    case True
    then show ?thesis by (simp add: ready_values_snoc [OF assms] stage_run [OF assms])
  next
    case False
    then have "?v = []" by (simp add: ready_values_def)
    then show ?thesis
      using False assms by (simp add: ready_values_snoc [OF assms] stage_def ema_ready)
  qed
  show ?thesis
    by (simp add: triple_step_def Let_def run_snoc [symmetric] stage_run [OF assms] third)
qed

lemma stages_run:
  assumes "0 < p"
  shows "le_state (lean_run (double_ema p) xs) = (lean_run (ema p) xs, lean_run (ema p) (ready_values p xs))
    \<and> le_state (lean_run (triple_ema p) xs)
      = (lean_run (ema p) xs, lean_run (ema p) (ready_values p xs), lean_run (ema p) (ready_values p (ready_values p xs)))"
proof (induction xs rule: rev_induct)
  case Nil
  have "ready_values p [] = []" using assms by (simp add: ready_values_def)
  then show ?case by (simp add: run_empty) (simp add: lean_new_def double_ema_def triple_ema_def)
next
  case (snoc x xs)
  have "lc_step (double_ema p) n x (lean_run (ema p) xs, lean_run (ema p) (ready_values p xs))
      = (lean_run (ema p) (xs @ [x]), lean_run (ema p) (ready_values p (xs @ [x])))" for n
    by (simp add: double_ema_def Let_def run_snoc [symmetric] stage_run [OF assms])
  moreover have "lc_step (triple_ema p) n x = triple_step p x" for n by (simp add: triple_ema_def)
  ultimately show ?case using snoc by (simp add: run_state triple_step_run [OF assms])
qed

text \<open>C39: A double and a triple exponential average are exactly averages of averages: each stage is the average
  of the values of the stage before it, from the bar on at which that one is ready, and no warm-up zero is
  ever fed forward.\<close>

theorem stages_average_ready_values:
  assumes "0 < p"
  shows "le_state (lean_run (double_ema p) xs) = (lean_run (ema p) xs, lean_run (ema p) (ready_values p xs))
    \<and> le_state (lean_run (triple_ema p) xs)
      = (lean_run (ema p) xs, lean_run (ema p) (ready_values p xs), lean_run (ema p) (ready_values p (ready_values p xs)))"
  using assms by (rule stages_run)

text \<open>Both say they are ready after \<open>p\<close> samples, long before their last stage is: at that bar a double
  average reports twice the average.\<close>

lemma double_average_ready_too_early:
  assumes "2 \<le> p" "length xs = p"
  shows "lean_ready (double_ema p) (lean_run (double_ema p) xs)
    \<and> le_current (lean_run (double_ema p) xs) = fmul 2 (le_current (lean_run (ema p) xs))"
proof -
  have ne: "xs \<noteq> []" using assms by auto
  obtain v where v: "ready_values p xs = [v]" using assms by (auto simp: ready_values_def)
  have first: "lean_run c [v] = lean_update c v (lean_new c)" for c :: "(pyfloat, 'b) lean_class" by (simp add: lean_run_def)
  have z: "le_current (lean_run (ema p) [v]) = 0"
    unfolding first using assms(1) by (simp add: lean_update_def Let_def lean_new_def ema_def ema_step_def)
  have "le_current (lean_run (double_ema p) xs) = lc_value (double_ema p) (le_state (lean_run (double_ema p) xs))"
    by (rule run_current [OF ne])
  also have "\<dots> = lc_value (double_ema p) (lean_run (ema p) xs, lean_run (ema p) [v])"
    using stages_run [of p xs] assms(1) by (simp add: v)
  also have "\<dots> = fmul 2 (le_current (lean_run (ema p) xs))"
    by (simp add: double_ema_def z fsub_def fmul_def)
  finally show ?thesis using assms(2) by (simp add: lean_ready_def run_samples) (simp add: double_ema_def enough_def)
qed

section \<open>Two symbols\<close>

text \<open>The closes that were paired, oldest first.\<close>

definition paired_closes :: "'s dual_class \<Rightarrow> (sym \<times> ms option \<times> pyfloat) list \<Rightarrow> (ms option \<times> pyfloat \<times> pyfloat) list \<Rightarrow> 's dual \<Rightarrow> bool" where
  "paired_closes c ps ms d \<longleftrightarrow>
     length ms = du_samples d
     \<and> du_target d = take (dc_window c) (rev (map (\<lambda>(t, x, y). x) ms)) \<and> du_reference d = take (dc_window c) (rev (map (\<lambda>(t, x, y). y) ms))
     \<and> (\<forall>(t, x, y)\<in>set ms. (dc_target c, t, x) \<in> set ps \<and> (dc_reference c, t, y) \<in> set ps)
     \<and> (\<forall>s t x. dget (du_pending d) s = Some (t, x) \<longrightarrow> (s, t, x) \<in> set ps)"

lemma paired_step:
  assumes "paired_closes c (map (\<lambda>p. (upper (fst p), snd p)) ps) ms d"
  shows "\<exists>ms'. paired_closes c (map (\<lambda>p. (upper (fst p), snd p)) (ps @ [p])) ms' (update_symbol c p d)"
proof -
  let ?u = "\<lambda>p :: sym \<times> ms option \<times> pyfloat. (upper (fst p), snd p)"
  let ?s = "upper (fst p)" and ?pend = "dput (du_pending d) (upper (fst p)) (snd p)"
  have pend: "\<forall>s t x. dget ?pend s = Some (t, x) \<longrightarrow> (s, t, x) \<in> set (map ?u (ps @ [p]))"
    using assms by (auto simp: paired_closes_def dict_simps)
  have keep: "paired_closes c (map ?u (ps @ [p])) ms d" "paired_closes c (map ?u (ps @ [p])) ms (d\<lparr>du_pending := ?pend\<rparr>)"
    using assms pend by (auto simp: paired_closes_def)
  have adv: "paired_closes c (map ?u (ps @ [p])) (ms @ [(t, x, y)]) (dual_advance c x y d)"
    if r: "dget ?pend (dc_target c) = Some (t, x)" "dget ?pend (dc_reference c) = Some (t, y)" for t x y
  proof -
    have cut: "take w (z # take w zs) = take w (z # zs)" for w and z :: pyfloat and zs by (cases w) simp_all
    show ?thesis
      using assms pend r by (auto simp: paired_closes_def dual_advance_def Let_def push_left_def cut dict_simps)
  qed
  show ?thesis
  proof (cases "?s \<noteq> dc_target c \<and> ?s \<noteq> dc_reference c")
    case True
    then have "update_symbol c p d = d" by (simp add: update_symbol_def)
    then show ?thesis using keep(1) by auto
  next
    case False
    show ?thesis
    proof (cases "\<exists>t x y. dget ?pend (dc_target c) = Some (t, x) \<and> dget ?pend (dc_reference c) = Some (t, y)")
      case True
      then obtain t x y where r: "dget ?pend (dc_target c) = Some (t, x)" "dget ?pend (dc_reference c) = Some (t, y)" by blast
      have "update_symbol c p d = dual_advance c x y d" using False by (auto simp: update_symbol_def Let_def r)
      then show ?thesis using adv [OF r] by auto
    next
      case no_pair: False
      have "update_symbol c p d = d\<lparr>du_pending := ?pend\<rparr>"
        using False no_pair by (auto simp: update_symbol_def Let_def split: option.split)
      then show ?thesis using keep(2) by auto
    qed
  qed
qed

lemma dual_run_snoc: "dual_run c (ps @ [p]) = update_symbol c p (dual_run c ps)"
  by (simp add: dual_run_def)

text \<open>C40: An indicator of two symbols pairs closes of one time only.  Whatever the order in which the two
  streams arrive, its windows are the last pairs of closes that both streams had for the same time, equally
  many of each, and a close is never paired with a close of another time.\<close>

theorem closes_are_paired_by_time:
  "\<exists>ms. paired_closes c (map (\<lambda>p. (upper (fst p), snd p)) ps) ms (dual_run c ps)"
proof (induction ps rule: rev_induct)
  case Nil
  show ?case by (rule exI [of _ "[]"]) (simp add: paired_closes_def dual_run_def dual_new_def dict_simps)
next
  case (snoc p ps)
  then show ?case using paired_step unfolding dual_run_snoc by blast
qed

text \<open>The identity the code pins: the beta of a series against itself is 1, or 0 where it does not move.\<close>

lemma beta_self: "beta_of a a = (if sample_var a = 0 then 0 else 1)"
  by (simp add: beta_of_def sample_var_def fdiv_def)

lemma beta_of_itself:
  assumes "\<forall>t x y. (upper T, t, x) \<in> X \<and> (upper R, t, y) \<in> X \<longrightarrow> x = y"
    and "set (map (\<lambda>p. (upper (fst p), snd p)) ps) \<subseteq> X"
  shows "du_current (dual_run (beta T R p) ps) \<in> {0, 1}"
proof -
  let ?c = "beta T R p" and ?u = "\<lambda>p :: sym \<times> ms option \<times> pyfloat. (upper (fst p), snd p)"
  let ?J = "\<lambda>d. (\<forall>s t x. dget (du_pending d) s = Some (t, x) \<longrightarrow> (s, t, x) \<in> X)
    \<and> du_target d = du_reference d \<and> fst (du_state d) = snd (du_state d) \<and> du_current d \<in> {0, 1}"
  have c: "dc_target ?c = upper T" "dc_reference ?c = upper R" by (simp_all add: beta_def covariance_def)
  have adv: "?J (dual_advance ?c x x d)" if "?J d" for x d
    using that by (cases "du_state d")
      (auto simp: dual_advance_def Let_def beta_def covariance_def beta_self dict_simps split: if_splits)
  have step: "?J (update_symbol ?c q d)" if d: "?J d" and q: "?u q \<in> X" for q d
  proof -
    let ?pend = "dput (du_pending d) (upper (fst q)) (snd q)"
    have pend: "\<forall>s t x. dget ?pend s = Some (t, x) \<longrightarrow> (s, t, x) \<in> X" using d q by (auto simp: dict_simps)
    show ?thesis
    proof (cases "upper (fst q) \<noteq> upper T \<and> upper (fst q) \<noteq> upper R")
      case False
      show ?thesis
      proof (cases "\<exists>t x y. dget ?pend (upper T) = Some (t, x) \<and> dget ?pend (upper R) = Some (t, y)")
        case True
        then obtain t x y where r: "dget ?pend (upper T) = Some (t, x)" "dget ?pend (upper R) = Some (t, y)" by blast
        then have "x = y" using pend assms(1) by blast
        moreover have "update_symbol ?c q d = dual_advance ?c x y d" using False by (auto simp: update_symbol_def Let_def c r)
        ultimately show ?thesis using adv [OF d] by simp
      next
        case no_pair: False
        have "update_symbol ?c q d = d\<lparr>du_pending := ?pend\<rparr>"
          using False no_pair by (auto simp: update_symbol_def Let_def c split: option.split)
        then show ?thesis using d pend by simp
      qed
    qed (use d in \<open>simp add: update_symbol_def c\<close>)
  qed
  have "?J (dual_run ?c ps)"
    using assms(2)
  proof (induction ps rule: rev_induct)
    case (snoc q ps)
    then show ?case using step [of "dual_run ?c ps" q] by (simp add: dual_run_snoc)
  qed (simp add: dual_run_def dual_new_def dict_simps beta_def covariance_def)
  then show ?thesis by blast
qed

section \<open>Inputs at which the theorems hold\<close>

definition demo_series :: series where
  "demo_series = new_series\<lparr>s_closes := [100, 101, 103, 102]\<rparr>"


theorem stages_average_ready_values_witness:
  "le_state (lean_run (double_ema 2) [100, 101, 103]) = (lean_run (ema 2) [100, 101, 103], lean_run (ema 2) (ready_values 2 [100, 101, 103]))"
  using stages_average_ready_values [of 2 "[100, 101, 103]"] by simp

end
