(* ===== verification/Spec2Isabelle.thy ===== *)
theory Spec2Isabelle
  imports Fills Ledger Calendar Sleeve OrderProps LiveBook Adapters Journal AccountProps DailyIndProps PayloadProps SnapshotProps
    TruthProps WarmProps EngineProps WarmEngineProps FastRun LeanProps
begin

text \<open>
  A verification library for dqengine, the backtest and live-trading engine of this repository.

  \<^bold>\<open>The program and its model.\<close>  A strategy is user code that the engine of \<open>dqengine/runtime\<close> steps over
  sessions of bars: it fills a simulated order book and marks equity.  Live, a driver
  (\<open>dqengine/live/driver\<close>) keeps one such engine per deployment, ticks it as bars arrive, and turns its
  state into a position payload; an executor (\<open>dqengine/live/executor.py\<close>) reconciles a broker account
  with the payloads of its deployments and reports the fills back, which the next run reads as a ledger
  in place of its own fill model.  The theories follow that circle.

  Values (prelude).
  \<open>PyFloat\<close>: Python floats as the rationals they denote, every operation rounded to binary64;
  \<open>PyBase\<close>: strings, dictionaries as association lists in insertion order, errors as values
  (\<open>'a res\<close>), the locales \<open>stepwise\<close> and \<open>accumulating\<close>; \<open>PyList\<close>: slices, \<open>sum\<close>, \<open>math\<close>.

  The simulated broker (\<open>runtime/core\<close>, \<open>runtime/orders.py\<close>).
  \<open>Fills\<close>: \<open>core/fills.py\<close>.  \<open>Ledger\<close>: \<open>core/ledger.py\<close>, the broker's executions handed out at most
  once.  \<open>Sleeve\<close>: \<open>core/portfolio.py\<close>.  \<open>Orders\<close>: \<open>OrderBook\<close>; its \<open>obook\<close> record has the fields of the
  class, a ticket is found by its id, \<open>callback\<close> is the order-event handler.  \<open>OrdersInv\<close> states the
  book's invariant and the contract \<open>order_handler\<close>; \<open>OrderProps\<close> proves it over runs of calls, and what
  decides a fill.

  A run (\<open>runtime/backtester.py\<close>).
  \<open>Calendar\<close> and \<open>Schedule\<close>: \<open>core/data.py\<close>, \<open>scheduling.py\<close>: sessions, holidays, ISO weeks, date and
  time rules.  \<open>Bars\<close>: bars of a day and consolidators.  \<open>Engine\<close>: one session opened, stepped and
  closed around arbitrary user code (\<open>hooks\<close>, functions on \<open>algo\<close>), and \<open>_run\<close>.  \<open>Setup\<close>: \<open>_setup\<close>.
  \<open>Fast\<close>: \<open>fastpath.py\<close>, the sessions stepped at interesting bars only; \<open>Timeline\<close>, \<open>FastProps\<close>,
  \<open>FastWalk\<close>, \<open>FastRun\<close>: it returns, and leaves the state the walk over every bar leaves, for a strategy
  without a bar handler whose other handlers do not look at the current slice (\<open>tame\<close>).
  \<open>Snapshot\<close>, \<open>Stats\<close>: the result of a run and its deltas, \<open>core/stats.py\<close>.  \<open>Expr\<close>, \<open>DailyInd\<close>:
  \<open>core/exprs.py\<close> and \<open>core/indicators.py\<close>.  \<open>LeanInd\<close>, \<open>LeanBars\<close>, \<open>LeanMore\<close>, \<open>LeanWave\<close>, \<open>LeanDual\<close>:
  \<open>indicators.py\<close>, the indicator objects a strategy builds (fed by values, by bars, built of other
  indicators, waves and trends, of two symbols).
  \<open>EngineProps\<close> (each scheduled event once; the book kept in order by any lawful strategy), \<open>DailyProps\<close>
  (no look-ahead), \<open>SnapshotProps\<close>, \<open>DailyIndProps\<close> (cache, histories, ranges), \<open>LeanProps\<close> (where the
  objects agree with the daily engine; the two-symbol ones pair closes of one time).

  A live engine (\<open>runtime/warm.py\<close>) and its tick (\<open>live/driver\<close>).
  \<open>WarmEngine\<close>: \<open>WarmPyEngine\<close>; \<open>LiveDay\<close>: a session stepped live is the session of the backtest;
  \<open>WarmEngineProps\<close>: fail-stop, wake-ups and bars share one schedule.  \<open>Payload\<close>, \<open>Publish\<close>: from the
  result of a run to the payload (\<open>driver/engine.py\<close>); \<open>Truth\<close>: the ledger of a deployment
  (\<open>driver/deployment_store.py\<close>) and its way into the engine's process; \<open>Warm\<close>: one tick
  (\<open>driver/engine.py\<close>, \<open>driver/tick.py\<close>).  \<open>PayloadProps\<close>, \<open>TruthProps\<close>, \<open>WarmProps\<close>.

  The executor (\<open>live/executor.py\<close> and its neighbours).
  \<open>LiveBook\<close>, \<open>Adapters\<close>: \<open>book.py\<close> and the views of a venue; \<open>Journal\<close>: \<open>journal.py\<close>; \<open>Executions\<close>:
  \<open>executions.py\<close>; \<open>Ladder\<close>: \<open>capabilities.py\<close>; \<open>OrderIds\<close>, \<open>Gateway\<close>: client order ids, refusals
  and backoff; \<open>Reconcile\<close>, \<open>Deltas\<close>, \<open>Resting\<close>, \<open>Sweep\<close>: \<open>reconcile\<close> section by section; \<open>Inputs\<close>:
  what a sweep reads; \<open>Account\<close>: \<open>sync_broker_account\<close> and the calls around it as a machine.
  \<open>SweepProps\<close> (rails and budgets of every sweep, by the locale \<open>pass_law\<close>), \<open>AccountProps\<close> (any
  interleaving of calls on a connection).

  \<^bold>\<open>How the model corresponds to the code.\<close>  A class is a record of its fields, an operation a function
  from the state to its result and the state after; an exception is \<open>Inl\<close>.  A handler is the whole of
  it, in the order of its statements.  What an exception leaves half done is kept where a caller goes on
  with the object, and left out where the object is discarded (a dead engine, a failed run).  Table rows
  are lists; SQL filters drop rows whose column is NULL, as SQL does.  Log lines and report texts are
  shortened or are data, where no code reads them.  Handlers of a strategy are arbitrary functions on
  what a strategy can reach; the order-event callback acts on the order book only.  An indicator object
  of the strategy API is the list of samples it was fed.  One call of a live component reads one instant
  of the clock.

  \<^bold>\<open>Bounds and fuel.\<close>  \<open>walk_to_session\<close> and the ISO-week look back carry fuel 40 (no run of closed days
  is longer, \<open>next_session_found\<close>, \<open>earlier_in_exact\<close>); \<open>fast_loop\<close> one step per bar end of the session.
  Floats are binary64 without infinities and NaN (the code drops non-finite inputs where they enter, or
  the inputs are prices), integers are unbounded as in Python; conversions of integers to float are
  exact up to \<open>2 ^ 53\<close>.  \<open>sum\<close> is a left fold (as in CPython before 3.12), \<open>math.sqrt\<close> correctly rounded.
  Floating powers and logarithms, the digest of the fingerprint and the New York clock are parameters.

  \<^bold>\<open>Not modelled.\<close>  Six indicators built on exponentials, tangents or normal quantiles
  (\<open>HurstExponent\<close>, \<open>PremierStochasticOscillator\<close>, \<open>ArnaudLegouxMovingAverage\<close>, \<open>AugenPriceSpike\<close>,
  \<open>FractalAdaptiveMovingAverage\<close>, \<open>ValueAtRisk\<close>).  Reading files and tables (\<open>DataStore\<close>, persistence, the vault), venue and feed wire
  formats (adapters, plugins, feeds, bar source), processes and their transport (the sandbox, engine
  servers, the bus), loading user code, the compiler of strategy documents (\<open>codegen.py\<close>), the command
  line and set-up assistants: they move data in and out of the modelled parts or generate text, and what
  the model needs of them is an argument of its definitions.
\<close>

end
